(* ===== verification/B2S_Prelude.thy ===== *)
theory B2S_Prelude
  imports Main "HOL-Library.Word"
begin

text \<open>
  Shared vocabulary of the development: the machine integer types of the C sources, the
  error numbers the sources set, socket addresses, big-endian byte access and the generic
  lemmas on words and lists that the component theories use.

  Conventions used by every theory.
  \<^item> \<open>uint8_t\<close>, \<open>uint16_t\<close>, \<open>uint32_t\<close> and \<open>uint64_t\<close> are words of that width.
    Array lengths and offsets (\<open>size_t\<close>) are \<^typ>\<open>nat\<close> unless a wrap-around of
    \<open>size_t\<close> itself could matter, in which case they are words too.
  \<^item> A byte buffer is a list of bytes. A value the sources keep in network byte order
    (\<open>__be32\<close>, \<open>s_addr\<close>, \<open>sin_port\<close>) is the list of its bytes in memory, so that
    \<open>ntohl\<close> and \<open>swap32\<close> after a \<open>memcpy\<close> are the big-endian read \<open>be32\<close>
    on every host.
  \<^item> A C function that returns a status and fills an output parameter returns a sum:
    \<open>Inl e\<close> when it fails with \<open>errno = e\<close>, \<open>Inr v\<close> with the output value.
  \<^item> Pointer parameters are passed as values; the \<open>NULL\<close> guards at function entry, which
    only reject calls with no object, are not represented.
\<close>

unbundle bit_operations_syntax

section \<open>Machine integers and error numbers\<close>

type_synonym u8 = "8 word"
type_synonym u16 = "16 word"
type_synonym u32 = "32 word"
type_synonym u64 = "64 word"
type_synonym bytes = "8 word list"

datatype errno =
  EINVAL | EAFNOSUPPORT | ENOBUFS | EPROTO | EAGAIN | EMSGSIZE | EADDRNOTAVAIL | ENOENT
| EMFILE | ENFILE | ENOMEM | ENOSPC | ERANGE | EEXIST | EOVERFLOW | EINTR | ECONNRESET
| EIO | EPIPE | ENOTCONN | EINPROGRESS | E2BIG | EPERM

named_theorems b2s_split \<open>case distinctions on results\<close>
declare sum.splits [b2s_split] option.splits [b2s_split] if_splits [b2s_split] prod.splits [b2s_split]

text \<open>Address families as the platform numbers them (Linux \<open>AF_*\<close>).\<close>

abbreviation (input) AF_UNSPEC :: int where "AF_UNSPEC \<equiv> 0"
abbreviation (input) AF_INET :: int where "AF_INET \<equiv> 2"
abbreviation (input) AF_INET6 :: int where "AF_INET6 \<equiv> 10"
abbreviation (input) PROTO_TCP :: u8 where "PROTO_TCP \<equiv> 6"
abbreviation (input) PROTO_UDP :: u8 where "PROTO_UDP \<equiv> 17"

section \<open>The wire types of bpf2socks.h\<close>

record bpf2socks_sockaddr =
  sa_family :: int
  sa_port :: u16
  sa_addr :: bytes

record bpf2socks_token_key =
  tk_family :: int
  tk_protocol :: u8
  tk_token_port :: u16
  tk_token_addr :: bytes
  tk_client_port :: u16
  tk_client_addr :: bytes

record bpf2socks_original_dst =
  od_family :: int
  od_protocol :: u8
  od_port :: u16
  od_addr :: bytes
  od_flags :: u8

text \<open>
  A socket address of the system (\<open>struct sockaddr_storage\<close>): family, port after
  \<open>ntohs\<close>, and the 4 or 16 address bytes of that family.
\<close>

record sockaddr_storage =
  ss_family :: int
  ss_port :: u16
  ss_addr :: bytes

definition zero_bytes :: "nat \<Rightarrow> bytes" where
  "zero_bytes n = replicate n 0"

text \<open>\<open>memcpy(dst, src, n)\<close> onto the start of a longer array.\<close>

definition copy_prefix :: "nat \<Rightarrow> bytes \<Rightarrow> bytes \<Rightarrow> bytes" where
  "copy_prefix n src dst = take n src @ drop n dst"

lemma length_zero_bytes [simp]: "length (zero_bytes n) = n"
  by (simp add: zero_bytes_def)

lemma length_copy_prefix [simp]:
  "n \<le> length src \<Longrightarrow> n \<le> length dst \<Longrightarrow> length (copy_prefix n src dst) = length dst"
  by (simp add: copy_prefix_def)

lemma take_copy_prefix [simp]: "n \<le> length src \<Longrightarrow> take n (copy_prefix n src dst) = take n src"
  by (simp add: copy_prefix_def)

lemma copy_prefix_all: "length src = n \<Longrightarrow> length dst = n \<Longrightarrow> copy_prefix n src dst = src"
  by (simp add: copy_prefix_def)

section \<open>Big-endian access\<close>

definition be16 :: "u8 \<Rightarrow> u8 \<Rightarrow> u16" where
  "be16 hi lo = push_bit 8 (ucast hi) OR ucast lo"

definition hi8 :: "u16 \<Rightarrow> u8" where
  "hi8 p = ucast (drop_bit 8 p)"

definition lo8 :: "u16 \<Rightarrow> u8" where
  "lo8 p = ucast (p AND 0xff)"

definition be32 :: "bytes \<Rightarrow> u32" where
  "be32 bs = push_bit 24 (ucast (bs ! 0)) OR push_bit 16 (ucast (bs ! 1)) OR
             push_bit 8 (ucast (bs ! 2)) OR ucast (bs ! 3)"

definition be32_bytes :: "u32 \<Rightarrow> bytes" where
  "be32_bytes w = [ucast (drop_bit 24 w), ucast (drop_bit 16 w), ucast (drop_bit 8 w), ucast w]"

lemma bit_be16:
  "bit (be16 hi lo) n \<longleftrightarrow> (if n < 8 then bit lo n else n < 16 \<and> bit hi (n - 8))"
  by (auto simp: be16_def bit_or_iff bit_push_bit_iff bit_ucast_iff dest: bit_imp_le_length)

lemma bit_0xff: "bit (0xff :: int) n \<longleftrightarrow> n < 8"
proof -
  have "mask 8 = (0xff :: int)" by (simp add: mask_eq_exp_minus_1)
  then show ?thesis by (metis bit_mask_iff possible_bit_int)
qed

lemma be16_hi8_lo8 [simp]: "be16 (hi8 p) (lo8 p) = p"
proof (rule bit_word_eqI)
  fix n assume "n < LENGTH(16)"
  then show "bit (be16 (hi8 p) (lo8 p)) n \<longleftrightarrow> bit p n"
    by (auto simp: bit_be16 hi8_def lo8_def bit_ucast_iff bit_drop_bit_eq bit_and_iff bit_0xff)
qed

lemma hi8_be16 [simp]: "hi8 (be16 hi lo) = hi"
proof (rule bit_word_eqI)
  fix n assume "n < LENGTH(8)"
  then show "bit (hi8 (be16 hi lo)) n \<longleftrightarrow> bit hi n"
    by (simp add: hi8_def bit_ucast_iff bit_drop_bit_eq bit_be16)
qed

lemma lo8_be16 [simp]: "lo8 (be16 hi lo) = lo"
proof (rule bit_word_eqI)
  fix n assume n: "n < LENGTH(8)"
  then show "bit (lo8 (be16 hi lo)) n \<longleftrightarrow> bit lo n"
    by (simp add: lo8_def bit_ucast_iff bit_and_iff bit_be16 bit_0xff)
qed

lemma bit_be32:
  assumes "n < 32"
  shows "bit (be32 bs) n \<longleftrightarrow> bit (bs ! (3 - n div 8)) (n mod 8)"
proof -
  consider "n < 8" | "8 \<le> n" "n < 16" | "16 \<le> n" "n < 24" | "24 \<le> n" using assms by linarith
  then show ?thesis
  proof cases
    case 1
    then show ?thesis by (auto simp: be32_def bit_or_iff bit_push_bit_iff bit_ucast_iff)
  next
    case 2
    then have "n div 8 = 1" "n mod 8 = n - 8" by (simp_all add: div_nat_eqI mod_nat_eqI)
    with 2 show ?thesis
      by (auto simp: be32_def bit_or_iff bit_push_bit_iff bit_ucast_iff numeral_2_eq_2 dest: bit_imp_le_length)
  next
    case 3
    then have "n div 8 = 2" "n mod 8 = n - 16" by (simp_all add: div_nat_eqI mod_nat_eqI)
    with 3 show ?thesis
      by (auto simp: be32_def bit_or_iff bit_push_bit_iff bit_ucast_iff dest: bit_imp_le_length)
  next
    case 4
    with assms have "n div 8 = 3" "n mod 8 = n - 24" by (simp_all add: div_nat_eqI mod_nat_eqI)
    with 4 assms show ?thesis
      by (auto simp: be32_def bit_or_iff bit_push_bit_iff bit_ucast_iff dest: bit_imp_le_length)
  qed
qed

lemma length_be32_bytes [simp]: "length (be32_bytes w) = 4"
  by (simp add: be32_bytes_def)

lemma nth_be32_bytes:
  "k < 4 \<Longrightarrow> be32_bytes w ! k = ucast (drop_bit (24 - 8 * k) w)"
proof -
  assume "k < 4"
  then consider "k = 0" | "k = 1" | "k = 2" | "k = 3" by linarith
  then show ?thesis by cases (simp_all add: be32_bytes_def numeral_2_eq_2 numeral_3_eq_3)
qed

lemma be32_be32_bytes [simp]: "be32 (be32_bytes w) = w"
proof (rule bit_word_eqI)
  fix n assume "n < LENGTH(32)"
  then have n: "n < 32" by simp
  then have k: "3 - n div 8 < 4" and e: "24 - 8 * (3 - n div 8) + n mod 8 = n" by presburger+
  have "n mod 8 < 8" by simp
  with n show "bit (be32 (be32_bytes w)) n \<longleftrightarrow> bit w n"
    by (simp add: bit_be32 nth_be32_bytes [OF k] bit_ucast_iff bit_drop_bit_eq e)
qed

section \<open>Generic facts\<close>

lemma unat_ucast_up:
  fixes w :: "'a::len word"
  assumes "LENGTH('a) \<le> LENGTH('b::len)"
  shows "unat (ucast w :: 'b word) = unat w"
proof -
  have "unat w < 2 ^ LENGTH('b)"
    by (rule order_less_le_trans [OF unsigned_less]) (use assms in simp)
  then show ?thesis by (simp add: unsigned_ucast_eq take_bit_nat_eq_self)
qed

lemma word_diff_less:
  fixes a b :: "'a::len word"
  shows "b \<noteq> 0 \<Longrightarrow> b \<le> a \<Longrightarrow> a - b < a"
  by (metis diff_less unat_gt_0 unat_sub word_le_nat_alt word_less_nat_alt order_less_le_trans)

lemma unat_plus_no_wrap:
  fixes a b c :: "'a::len word"
  assumes "b \<le> c" "a \<le> c - b"
  shows "unat (a + b) = unat a + unat b" "a + b \<le> c"
proof -
  have "unat (c - b) = unat c - unat b" using assms(1) by (simp add: unat_sub)
  with assms have le: "unat a + unat b \<le> unat c"
    by (simp add: word_le_nat_alt) 
  then have "unat a + unat b < 2 ^ LENGTH('a)"
    using unsigned_less [of c] by (simp add: order_le_less_trans)
  then show "unat (a + b) = unat a + unat b" by (simp add: unat_word_ariths)
  with le show "a + b \<le> c" by (simp add: word_le_nat_alt)
qed

lemma in_set_takeD_dropD: "x \<in> set xs \<Longrightarrow> x \<in> set (take n xs) \<or> x \<in> set (drop n xs)"
  by (metis Un_iff append_take_drop_id set_append)

end
