(* ===== verification/Intrusive_List.thy ===== *)
theory Intrusive_List
  imports B2S_Prelude
begin

text \<open>
  The sources thread several doubly linked lists through their objects: the age list of DNS
  transactions, the LRU lists of UDP sessions and bindings, the list of pending handshakes.
  This theory has the link surgery once, on a record of head, tail and the two link fields,
  the abstraction of such a record to the list of its nodes, and a locale for any state that
  carries such a list. A null link (\<open>NULL\<close>, or the index \<open>(size_t)-1\<close>) is \<open>None\<close>.
\<close>

section \<open>Links and their surgery\<close>

record 'n links =
  lk_head :: "'n option"
  lk_tail :: "'n option"
  lk_next :: "'n \<Rightarrow> 'n option"
  lk_prev :: "'n \<Rightarrow> 'n option"

definition unlink_before :: "'n links \<Rightarrow> 'n \<Rightarrow> 'n links" where
  "unlink_before l x =
     (case lk_prev l x of
        Some p \<Rightarrow> l\<lparr>lk_next := (lk_next l)(p := lk_next l x)\<rparr>
      | None \<Rightarrow> if lk_head l = Some x then l\<lparr>lk_head := lk_next l x\<rparr> else l)"

definition unlink_after :: "'n links \<Rightarrow> 'n \<Rightarrow> 'n links" where
  "unlink_after l x =
     (case lk_next l x of
        Some n \<Rightarrow> l\<lparr>lk_prev := (lk_prev l)(n := lk_prev l x)\<rparr>
      | None \<Rightarrow> if lk_tail l = Some x then l\<lparr>lk_tail := lk_prev l x\<rparr> else l)"

definition clear_links :: "'n links \<Rightarrow> 'n \<Rightarrow> 'n links" where
  "clear_links l x = l\<lparr>lk_prev := (lk_prev l)(x := None), lk_next := (lk_next l)(x := None)\<rparr>"

definition detach_links :: "'n links \<Rightarrow> 'n \<Rightarrow> 'n links" where
  "detach_links l x = clear_links (unlink_after (unlink_before l x) x) x"

definition attach_tail_links :: "'n links \<Rightarrow> 'n \<Rightarrow> 'n links" where
  "attach_tail_links l x =
     (let l1 = l\<lparr>lk_prev := (lk_prev l)(x := lk_tail l), lk_next := (lk_next l)(x := None)\<rparr>;
          l2 = (case lk_tail l1 of
                  Some t \<Rightarrow> l1\<lparr>lk_next := (lk_next l1)(t := Some x)\<rparr>
                | None \<Rightarrow> l1\<lparr>lk_head := Some x\<rparr>)
      in l2\<lparr>lk_tail := Some x\<rparr>)"

section \<open>The list a set of links stands for\<close>

definition first_or :: "'n option \<Rightarrow> 'n list \<Rightarrow> 'n option" where
  "first_or q xs = (case xs of [] \<Rightarrow> q | x # _ \<Rightarrow> Some x)"

definition last_or :: "'n option \<Rightarrow> 'n list \<Rightarrow> 'n option" where
  "last_or p xs = (if xs = [] then p else Some (last xs))"

text \<open>\<open>dseg nxt prv p xs q\<close>: the nodes \<open>xs\<close> are linked in order between \<open>p\<close> and \<open>q\<close>.\<close>

primrec dseg :: "('n \<Rightarrow> 'n option) \<Rightarrow> ('n \<Rightarrow> 'n option) \<Rightarrow> 'n option \<Rightarrow> 'n list \<Rightarrow> 'n option \<Rightarrow> bool" where
  "dseg nxt prv p [] q = True"
| "dseg nxt prv p (x # xs) q = (prv x = p \<and> nxt x = first_or q xs \<and> dseg nxt prv (Some x) xs q)"

definition dll :: "'n links \<Rightarrow> 'n list \<Rightarrow> bool" where
  "dll l xs \<longleftrightarrow> distinct xs \<and> lk_head l = first_or None xs \<and> lk_tail l = last_or None xs \<and>
     dseg (lk_next l) (lk_prev l) None xs None"

lemma first_or_simps [simp]: "first_or q [] = q" "first_or q (x # xs) = Some x"
  by (simp_all add: first_or_def)

lemma last_or_simps [simp]:
  "last_or p [] = p" "last_or p (xs @ [x]) = Some x" "last_or p (xs @ [y, x]) = Some x"
  by (simp_all add: last_or_def)

lemma first_or_append [simp]: "first_or q (xs @ ys) = first_or (first_or q ys) xs"
  by (cases xs) auto

lemma last_or_Cons [simp]: "last_or p (x # xs) = last_or (Some x) xs"
  by (simp add: last_or_def)

lemma dseg_append [simp]:
  "dseg nxt prv p (xs @ ys) q \<longleftrightarrow> dseg nxt prv p xs (first_or q ys) \<and> dseg nxt prv (last_or p xs) ys q"
  by (induction xs arbitrary: p) auto

lemma dseg_upd_next [simp]: "a \<notin> set xs \<Longrightarrow> dseg (nxt(a := v)) prv p xs q = dseg nxt prv p xs q"
  by (induction xs arbitrary: p) auto

lemma dseg_upd_prev [simp]: "a \<notin> set xs \<Longrightarrow> dseg nxt (prv(a := v)) p xs q = dseg nxt prv p xs q"
  by (induction xs arbitrary: p) auto

text \<open>Redirecting the outward link of the last or of the first node moves the segment's end.\<close>

lemma dseg_redirect_next:
  "distinct xs \<Longrightarrow> xs \<noteq> [] \<Longrightarrow> dseg nxt prv p xs q \<Longrightarrow> dseg (nxt(last xs := q')) prv p xs q'"
proof (induction xs arbitrary: p)
  case (Cons x xs)
  show ?case
  proof (cases "xs = []")
    case True
    with Cons.prems show ?thesis by simp
  next
    case False
    then have "dseg (nxt(last xs := q')) prv (Some x) xs q'"
      by (intro Cons.IH) (use Cons.prems in simp_all)
    moreover have "x \<noteq> last xs" using Cons.prems(1) last_in_set [OF False] by auto
    moreover have "first_or q xs = first_or q' xs" using False by (cases xs) auto
    ultimately show ?thesis
      unfolding last_ConsR [OF False] dseg.simps using Cons.prems(3) by (metis dseg.simps(2) fun_upd_other)
  qed
qed simp

lemma dseg_redirect_prev:
  "distinct xs \<Longrightarrow> xs \<noteq> [] \<Longrightarrow> dseg nxt prv p xs q \<Longrightarrow> dseg nxt (prv(hd xs := p')) p' xs q"
  by (cases xs) auto

lemma dseg_unique:
  "dseg nxt prv p xs None \<Longrightarrow> dseg nxt prv p' ys None \<Longrightarrow> first_or None xs = first_or None ys \<Longrightarrow> xs = ys"
proof (induction xs arbitrary: ys p p')
  case Nil
  then show ?case by (cases ys) auto
next
  case (Cons x xs)
  then obtain zs where ys: "ys = x # zs" by (cases ys) auto
  with Cons.prems have "first_or None xs = first_or None zs" by simp
  with Cons.IH [of "Some x" "Some x" zs] Cons.prems ys show ?case by simp
qed

lemma dll_unique: "dll l xs \<Longrightarrow> dll l ys \<Longrightarrow> xs = ys"
  by (auto simp: dll_def intro: dseg_unique)

lemma dll_distinct: "dll l xs \<Longrightarrow> distinct xs"
  by (simp add: dll_def)

lemma dll_head: "dll l xs \<Longrightarrow> lk_head l = (if xs = [] then None else Some (hd xs))"
  by (cases xs) (auto simp: dll_def)

lemma dll_Nil: "dll \<lparr>lk_head = None, lk_tail = None, lk_next = nxt, lk_prev = prv\<rparr> []"
  by (simp add: dll_def)

section \<open>Correctness of the surgery\<close>

lemma detach_head:
  "lk_head (detach_links l x) = (if lk_prev l x = None \<and> lk_head l = Some x then lk_next l x else lk_head l)"
  by (simp add: detach_links_def unlink_before_def unlink_after_def clear_links_def split: option.split)

lemma detach_tail:
  "lk_prev l x \<noteq> Some x \<Longrightarrow>
     lk_tail (detach_links l x) = (if lk_next l x = None \<and> lk_tail l = Some x then lk_prev l x else lk_tail l)"
  by (auto simp: detach_links_def unlink_before_def unlink_after_def clear_links_def split: option.split)

lemma dll_detach_middle:
  assumes d: "dll l (ys @ x # zs)"
  shows "dll (detach_links l x) (ys @ zs)"
proof -
  let ?n = "lk_next l" and ?p = "lk_prev l"
  from d have dist: "distinct (ys @ x # zs)"
    and hd: "lk_head l = first_or (Some x) ys"
    and tl: "lk_tail l = last_or (Some x) zs"
    and sy: "dseg ?n ?p None ys (Some x)"
    and px: "?p x = last_or None ys" and nx: "?n x = first_or None zs"
    and sz: "dseg ?n ?p (Some x) zs None"
    by (auto simp: dll_def last_or_def split: if_splits)
  have new_y: "dseg (lk_next (detach_links l x)) (lk_prev (detach_links l x)) None ys (first_or None zs)"
  proof (cases "ys = []")
    case False
    then have "?p x = Some (last ys)" using px by (simp add: last_or_def)
    moreover have "dseg (?n(last ys := ?n x)) ?p None ys (first_or None zs)"
      using dseg_redirect_next [OF _ False sy, of "first_or None zs"] dist nx by simp
    moreover have "hd zs \<notin> set ys" if "zs \<noteq> []" using dist that by (cases zs) auto
    ultimately show ?thesis using dist nx False
      by (cases zs) (auto simp: detach_links_def unlink_before_def unlink_after_def clear_links_def)
  qed simp
  have new_z: "dseg (lk_next (detach_links l x)) (lk_prev (detach_links l x)) (last_or None ys) zs None"
  proof (cases zs)
    case (Cons z zs')
    have "dseg ?n (?p(z := last_or None ys)) (last_or None ys) zs None"
      using dseg_redirect_prev [OF _ _ sz, of "last_or None ys"] dist Cons by simp
    moreover have "last ys \<notin> set zs" if "ys \<noteq> []" using dist last_in_set [OF that] by (auto dest: IntI)
    moreover have "lk_prev (detach_links l x) = ?p(z := last_or None ys, x := None)"
      and "lk_next (detach_links l x) = (if ys = [] then ?n else ?n(last ys := ?n x))(x := None)"
      using dist px nx Cons last_in_set [of ys]
      by (cases "ys = []"; simp add: detach_links_def unlink_before_def unlink_after_def clear_links_def last_or_def;
          metis)+
    ultimately show ?thesis using dist by (cases "ys = []") simp_all
  qed simp
  have "?p x \<noteq> Some x" using px dist by (auto simp: last_or_def split: if_splits)
  note ends = detach_head [of l x] detach_tail [OF this]
  have "lk_head (detach_links l x) = first_or None (ys @ zs)"
    unfolding ends(1) hd px nx using dist by (cases ys) (auto simp: last_or_def)
  moreover have "lk_tail (detach_links l x) = last_or None (ys @ zs)"
    unfolding ends(2) tl px nx by (cases zs) (simp_all add: last_or_def)
  ultimately show ?thesis using new_y new_z dist by (simp add: dll_def)
qed

lemma dll_detach:
  assumes "dll l xs" "x \<in> set xs"
  shows "dll (detach_links l x) (remove1 x xs)"
proof -
  from assms(2) obtain ys zs where xs: "xs = ys @ x # zs" and "x \<notin> set ys"
    by (meson split_list_first)
  then have "remove1 x xs = ys @ zs" by (simp add: remove1_append)
  with dll_detach_middle [of l ys x zs] assms(1) xs show ?thesis by simp
qed

lemma dll_attach_tail:
  assumes "dll l xs" "x \<notin> set xs"
  shows "dll (attach_tail_links l x) (xs @ [x])"
proof (cases xs rule: rev_cases)
  case Nil
  with assms show ?thesis by (auto simp: dll_def attach_tail_links_def Let_def)
next
  case (snoc ys t)
  let ?n = "(lk_next l)(x := None)" and ?p = "(lk_prev l)(x := Some t)"
  have t: "lk_tail l = Some t" using assms(1) snoc by (simp add: dll_def)
  have "dseg ?n ?p None xs None" using assms by (simp add: dll_def)
  then have "dseg (?n(last xs := Some x)) ?p None xs (Some x)"
    using dseg_redirect_next [of xs ?n ?p None None "Some x"] assms(1) snoc by (simp add: dll_def)
  with assms snoc t show ?thesis
    by (auto simp: dll_def attach_tail_links_def Let_def)
qed

section \<open>Interface: states that carry an intrusive list\<close>

text \<open>
  A component provides its links and the two list operations; what it gets back is that the
  operations act on the list of nodes as \<^const>\<open>remove1\<close> and appending at the tail.
\<close>

locale intrusive_list =
  fixes links :: "'s \<Rightarrow> 'n links"
    and detach :: "'s \<Rightarrow> 'n \<Rightarrow> 's"
    and attach_tail :: "'s \<Rightarrow> 'n \<Rightarrow> 's"
  assumes links_detach: "links (detach s x) = detach_links (links s) x"
    and links_attach_tail: "links (attach_tail s x) = attach_tail_links (links s) x"
begin

lemma detach_refines: "dll (links s) xs \<Longrightarrow> x \<in> set xs \<Longrightarrow> dll (links (detach s x)) (remove1 x xs)"
  by (simp add: links_detach dll_detach)

lemma attach_refines: "dll (links s) xs \<Longrightarrow> x \<notin> set xs \<Longrightarrow> dll (links (attach_tail s x)) (xs @ [x])"
  by (simp add: links_attach_tail dll_attach_tail)

lemma touch_refines:
  assumes "dll (links s) xs" "x \<in> set xs"
  shows "dll (links (attach_tail (detach s x) x)) (remove1 x xs @ [x])"
proof (rule attach_refines)
  show "dll (links (detach s x)) (remove1 x xs)" using assms by (rule detach_refines)
  show "x \<notin> set (remove1 x xs)" using dll_distinct [OF assms(1)] by simp
qed

end


section \<open>Singly linked chains\<close>

text \<open>\<open>chain nxt p xs\<close>: starting at \<open>p\<close> and following \<open>nxt\<close> visits exactly \<open>xs\<close> and then stops.\<close>

primrec chain :: "('n \<Rightarrow> 'n option) \<Rightarrow> 'n option \<Rightarrow> 'n list \<Rightarrow> bool" where
  "chain nxt p [] = (p = None)"
| "chain nxt p (x # xs) = (p = Some x \<and> chain nxt (nxt x) xs)"

lemma chain_frame: "x \<notin> set xs \<Longrightarrow> chain (nxt(x := q)) p xs = chain nxt p xs"
  by (induction xs arbitrary: p) auto

lemma chain_head: "chain nxt p xs \<Longrightarrow> p = (case xs of [] \<Rightarrow> None | x # _ \<Rightarrow> Some x)"
  by (cases xs) auto

lemma chain_unique: "chain nxt p xs \<Longrightarrow> chain nxt p ys \<Longrightarrow> xs = ys"
proof (induction xs arbitrary: p ys)
  case Nil
  then show ?case by (cases ys) auto
next
  case (Cons x xs)
  then show ?case by (cases ys) auto
qed

lemma chain_snoc:
  assumes "chain nxt p xs" "distinct xs" "xs \<noteq> []" "y \<notin> set xs"
  shows "chain (nxt(y := None, last xs := Some y)) p (xs @ [y])"
  using assms
proof (induction xs arbitrary: p)
  case (Cons x xs)
  show ?case
  proof (cases "xs = []")
    case False
    then have "x \<noteq> last xs" "x \<noteq> y" using Cons.prems(2,4) by auto
    moreover have "chain (nxt(y := None, last xs := Some y)) (nxt x) (xs @ [y])"
      using Cons False by (intro Cons.IH) auto
    ultimately show ?thesis using Cons.prems False by (simp del: fun_upd_apply add: fun_upd_other)
  qed (use Cons in auto)
qed simp

lemma chain_append:
  "chain nxt p (xs @ y # ys) \<Longrightarrow> distinct (xs @ y # ys) \<Longrightarrow> xs \<noteq> [] \<Longrightarrow>
   chain (nxt(y := None, last xs := nxt y)) p (xs @ ys)"
proof (induction xs arbitrary: p)
  case (Cons x xs)
  show ?case
  proof (cases "xs = []")
    case True
    with Cons.prems show ?thesis by (simp del: fun_upd_apply add: chain_frame fun_upd_same)
  next
    case False
    then have "x \<noteq> last xs" "x \<noteq> y" using Cons.prems(2) by auto
    moreover have "chain (nxt(y := None, last xs := nxt y)) (nxt x) (xs @ ys)"
      using Cons False by (intro Cons.IH) auto
    ultimately show ?thesis using Cons.prems False by (simp del: fun_upd_apply add: fun_upd_other)
  qed
qed simp

end
