(* ===== verification/Dns_Table.thy ===== *)
theory Dns_Table
  imports Intrusive_List
begin

text \<open>
  The DNS transaction table of \<open>bridge/dns.c\<close>: outstanding queries, each under a rewritten
  16-bit id that is unique in its channel, in the order in which they were sent. The arrays
  of the C structure are total functions on indices next to the size fields that bound them;
  the invariant \<open>dns_rep\<close> shows that every index the code uses is in bounds. The list index
  \<open>BPF2SOCKS_DNS_LRU_NONE\<close> is \<open>None\<close>.
\<close>

section \<open>Model\<close>

record bpf2socks_dns_transaction =
  tx_used :: bool
  tx_channel_index :: u32
  tx_rewritten_id :: u16
  tx_original_id :: u16
  tx_question_fingerprint :: u32
  tx_sent_at_ms :: u64
  tx_response_generation :: u64
  tx_client_addr :: sockaddr_storage
  tx_original_dst :: bpf2socks_sockaddr
  tx_token_family :: int
  tx_token_addr :: bytes
  tx_connected_udp_token :: bool
  tx_original_from_socket :: bool
  tx_lru_prev :: "nat option"
  tx_lru_next :: "nat option"

record bpf2socks_dns_table =
  dt_transactions :: "nat \<Rightarrow> bpf2socks_dns_transaction"
  dt_lookup :: "nat \<Rightarrow> int"
  dt_next_ids :: "u32 \<Rightarrow> u16"
  dt_response_generations :: "u32 \<Rightarrow> u64"
  dt_free_indices :: "nat \<Rightarrow> nat"
  dt_free_count :: nat
  dt_capacity :: nat
  dt_channel_count :: u32
  dt_lru_head :: "nat option"
  dt_lru_tail :: "nat option"

definition zero_sockaddr :: bpf2socks_sockaddr where
  "zero_sockaddr = \<lparr>sa_family = 0, sa_port = 0, sa_addr = zero_bytes 16\<rparr>"

text \<open>\<open>memset(tx, 0, sizeof(*tx))\<close> followed by clearing both links.\<close>

definition zero_transaction :: bpf2socks_dns_transaction where
  "zero_transaction = \<lparr>tx_used = False, tx_channel_index = 0, tx_rewritten_id = 0, tx_original_id = 0,
     tx_question_fingerprint = 0, tx_sent_at_ms = 0, tx_response_generation = 0,
     tx_client_addr = \<lparr>ss_family = 0, ss_port = 0, ss_addr = []\<rparr>, tx_original_dst = zero_sockaddr, tx_token_family = 0,
     tx_token_addr = zero_bytes 16, tx_connected_udp_token = False, tx_original_from_socket = False,
     tx_lru_prev = None, tx_lru_next = None\<rparr>"

definition lookup_offset :: "u32 \<Rightarrow> u16 \<Rightarrow> nat" where
  "lookup_offset channel_index i = unat channel_index * 65536 + unat i"

text \<open>The cast \<open>(int32_t)index\<close>.\<close>

definition int32_of :: "nat \<Rightarrow> int" where
  "int32_of n = sint (of_nat n :: 32 word)"

definition set_prev :: "bpf2socks_dns_table \<Rightarrow> nat \<Rightarrow> nat option \<Rightarrow> bpf2socks_dns_table" where
  "set_prev t i v = t\<lparr>dt_transactions := (dt_transactions t)(i := (dt_transactions t i)\<lparr>tx_lru_prev := v\<rparr>)\<rparr>"

definition set_next :: "bpf2socks_dns_table \<Rightarrow> nat \<Rightarrow> nat option \<Rightarrow> bpf2socks_dns_table" where
  "set_next t i v = t\<lparr>dt_transactions := (dt_transactions t)(i := (dt_transactions t i)\<lparr>tx_lru_next := v\<rparr>)\<rparr>"

definition lru_detach :: "bpf2socks_dns_table \<Rightarrow> nat \<Rightarrow> bpf2socks_dns_table" where
  "lru_detach t i =
     (let t1 = (case tx_lru_prev (dt_transactions t i) of
                  Some p \<Rightarrow> set_next t p (tx_lru_next (dt_transactions t i))
                | None \<Rightarrow> if dt_lru_head t = Some i then t\<lparr>dt_lru_head := tx_lru_next (dt_transactions t i)\<rparr> else t);
          t2 = (case tx_lru_next (dt_transactions t1 i) of
                  Some n \<Rightarrow> set_prev t1 n (tx_lru_prev (dt_transactions t1 i))
                | None \<Rightarrow> if dt_lru_tail t1 = Some i then t1\<lparr>dt_lru_tail := tx_lru_prev (dt_transactions t1 i)\<rparr> else t1)
      in set_next (set_prev t2 i None) i None)"

definition lru_attach_tail :: "bpf2socks_dns_table \<Rightarrow> nat \<Rightarrow> bpf2socks_dns_table" where
  "lru_attach_tail t i =
     (let t1 = set_next (set_prev t i (dt_lru_tail t)) i None;
          t2 = (case dt_lru_tail t1 of
                  Some l \<Rightarrow> set_next t1 l (Some i)
                | None \<Rightarrow> t1\<lparr>dt_lru_head := Some i\<rparr>)
      in t2\<lparr>dt_lru_tail := Some i\<rparr>)"

definition push_free :: "bpf2socks_dns_table \<Rightarrow> nat \<Rightarrow> bpf2socks_dns_table" where
  "push_free t i =
     (if dt_free_count t < dt_capacity t
      then t\<lparr>dt_free_indices := (dt_free_indices t)(dt_free_count t := i), dt_free_count := Suc (dt_free_count t)\<rparr>
      else t)"

definition release_index :: "bpf2socks_dns_table \<Rightarrow> nat \<Rightarrow> bool \<Rightarrow> bpf2socks_dns_table" where
  "release_index t i return_to_free_stack =
     (if i \<ge> dt_capacity t then t
      else let tx = dt_transactions t i in
        if \<not> tx_used tx then t
        else
          let off = lookup_offset (tx_channel_index tx) (tx_rewritten_id tx);
              t1 = (if dt_lookup t off = int32_of i then t\<lparr>dt_lookup := (dt_lookup t)(off := -1)\<rparr> else t);
              t2 = lru_detach t1 i;
              t3 = t2\<lparr>dt_transactions := (dt_transactions t2)(i := zero_transaction)\<rparr>
          in if return_to_free_stack then push_free t3 i else t3)"

text \<open>
  \<open>mem\<close> says whether the five allocations succeed. The initial contents of the arrays the
  code allocates with \<open>malloc\<close> are overwritten before use, those of \<open>calloc\<close> are zero.
\<close>

definition bpf2socks_dns_table_init :: "bool \<Rightarrow> u32 \<Rightarrow> nat \<Rightarrow> errno + bpf2socks_dns_table" where
  "bpf2socks_dns_table_init mem channel_count capacity =
     (if channel_count = 0 \<or> capacity = 0 then Inl EINVAL
      else if \<not> mem then Inl ENOMEM
      else Inr \<lparr>dt_transactions = (\<lambda>_. zero_transaction), dt_lookup = (\<lambda>_. -1), dt_next_ids = (\<lambda>_. 0),
             dt_response_generations = (\<lambda>_. 0), dt_free_indices = (\<lambda>i. capacity - 1 - i),
             dt_free_count = capacity, dt_capacity = capacity, dt_channel_count = channel_count,
             dt_lru_head = None, dt_lru_tail = None\<rparr>)"

text \<open>The do-while loop of \<open>allocate_id\<close>; the id wraps around at \<open>2^16\<close>.\<close>

function scan_ids :: "(u16 \<Rightarrow> int) \<Rightarrow> u16 \<Rightarrow> u16 \<Rightarrow> u16 option" where
  "scan_ids look start i =
     (if look i < 0 then Some i
      else if i + 1 = start then None
      else scan_ids look start (i + 1))"
  by pat_completeness auto
termination
proof (relation "measure (\<lambda>(look, start, i). unat (start - (i + 1)))", goal_cases)
  case 1
  show ?case by simp
next
  case (2 look start i)
  then have "start - (i + 1) \<noteq> 0" by simp
  then have "unat (start - (i + 1) - 1) < unat (start - (i + 1))"
    by (rule measure_unat)
  then show ?case by (simp add: algebra_simps)
qed

definition allocate_id :: "bpf2socks_dns_table \<Rightarrow> u32 \<Rightarrow> (u16 \<times> bpf2socks_dns_table) option" where
  "allocate_id t channel =
     (let start = dt_next_ids t channel in
      case scan_ids (\<lambda>i. dt_lookup t (lookup_offset channel i)) start start of
        None \<Rightarrow> None
      | Some i \<Rightarrow> Some (i, t\<lparr>dt_next_ids := (dt_next_ids t)(channel := i + 1)\<rparr>))"

text \<open>The attempts on one channel after another: \<open>n\<close> attempts are left, \<open>a\<close> were made.\<close>

fun try_channels :: "bpf2socks_dns_table \<Rightarrow> u32 \<Rightarrow> nat \<Rightarrow> u32 \<Rightarrow> (u32 \<times> u16 \<times> bpf2socks_dns_table) option" where
  "try_channels t preferred 0 a = None"
| "try_channels t preferred (Suc n) a =
     (let channel = (preferred + a) mod dt_channel_count t in
      case allocate_id t channel of
        Some (i, t') \<Rightarrow> Some (channel, i, t')
      | None \<Rightarrow> try_channels t preferred n (a + 1))"

definition take_slot :: "bpf2socks_dns_table \<Rightarrow> (nat \<times> bpf2socks_dns_table) option" where
  "take_slot t =
     (if dt_free_count t > 0
      then Some (dt_free_indices t (dt_free_count t - 1), t\<lparr>dt_free_count := dt_free_count t - 1\<rparr>)
      else case dt_lru_head t of
        None \<Rightarrow> None
      | Some slot \<Rightarrow> Some (slot, release_index t slot False))"

definition bpf2socks_dns_table_alloc ::
  "bpf2socks_dns_table \<Rightarrow> u32 \<Rightarrow> u16 \<Rightarrow> u32 \<Rightarrow> u64 \<Rightarrow> (errno + nat) \<times> bpf2socks_dns_table" where
  "bpf2socks_dns_table_alloc t preferred_channel original_id question_fingerprint now_ms =
     (if preferred_channel \<ge> dt_channel_count t then (Inl EINVAL, t)
      else case take_slot t of
        None \<Rightarrow> (Inl ENOMEM, t)
      | Some (slot, t1) \<Rightarrow>
          (case try_channels t1 preferred_channel (unat (dt_channel_count t1)) 0 of
             None \<Rightarrow> (Inl ENOSPC, push_free t1 slot)
           | Some (selected_channel, rewritten_id, t2) \<Rightarrow>
               let tx = zero_transaction\<lparr>tx_used := True, tx_channel_index := selected_channel,
                     tx_rewritten_id := rewritten_id, tx_original_id := original_id,
                     tx_question_fingerprint := question_fingerprint, tx_sent_at_ms := now_ms,
                     tx_response_generation := dt_response_generations t2 selected_channel\<rparr>;
                   t3 = t2\<lparr>dt_transactions := (dt_transactions t2)(slot := tx)\<rparr>;
                   t4 = t3\<lparr>dt_lookup := (dt_lookup t3)(lookup_offset selected_channel rewritten_id := int32_of slot)\<rparr>
               in (Inr slot, lru_attach_tail t4 slot)))"

definition bpf2socks_dns_table_find :: "bpf2socks_dns_table \<Rightarrow> u32 \<Rightarrow> u16 \<Rightarrow> nat option" where
  "bpf2socks_dns_table_find t channel_index rewritten_id =
     (if channel_index \<ge> dt_channel_count t then None
      else let idx = dt_lookup t (lookup_offset channel_index rewritten_id) in
        if idx < 0 \<or> nat idx \<ge> dt_capacity t then None
        else if tx_used (dt_transactions t (nat idx)) then Some (nat idx) else None)"

definition bpf2socks_dns_table_note_response :: "bpf2socks_dns_table \<Rightarrow> u32 \<Rightarrow> bpf2socks_dns_table" where
  "bpf2socks_dns_table_note_response t channel_index =
     (if channel_index \<ge> dt_channel_count t then t
      else t\<lparr>dt_response_generations := (dt_response_generations t)
               (channel_index := dt_response_generations t channel_index + 1)\<rparr>)"

definition bpf2socks_dns_table_release :: "bpf2socks_dns_table \<Rightarrow> nat \<Rightarrow> bpf2socks_dns_table" where
  "bpf2socks_dns_table_release t i = (if i \<ge> dt_capacity t then t else release_index t i True)"

definition bpf2socks_dns_table_oldest :: "bpf2socks_dns_table \<Rightarrow> u64 option" where
  "bpf2socks_dns_table_oldest t =
     (case dt_lru_head t of
        None \<Rightarrow> None
      | Some i \<Rightarrow> if tx_used (dt_transactions t i) then Some (tx_sent_at_ms (dt_transactions t i)) else None)"

definition expired_tx :: "bpf2socks_dns_transaction \<Rightarrow> u64 \<Rightarrow> u64 \<Rightarrow> bool" where
  "expired_tx tx now_ms timeout_ms \<longleftrightarrow>
     \<not> (\<not> tx_used tx \<or> now_ms < tx_sent_at_ms tx \<or> now_ms - tx_sent_at_ms tx < timeout_ms)"

text \<open>The loop of \<open>bpf2socks_dns_table_expire\<close>; \<open>n\<close> is what is left of \<open>max_expire\<close>.\<close>

fun expire_loop ::
  "nat \<Rightarrow> bpf2socks_dns_table \<Rightarrow> u64 \<Rightarrow> u64 \<Rightarrow> u32 \<Rightarrow> (u32 \<Rightarrow> bool) \<Rightarrow> nat \<times> bpf2socks_dns_table \<times> (u32 \<Rightarrow> bool)" where
  "expire_loop 0 t now_ms timeout_ms stale_count stale = (0, t, stale)"
| "expire_loop (Suc n) t now_ms timeout_ms stale_count stale =
     (case dt_lru_head t of
        None \<Rightarrow> (0, t, stale)
      | Some i \<Rightarrow>
          let tx = dt_transactions t i in
          if \<not> expired_tx tx now_ms timeout_ms then (0, t, stale)
          else
            let stale' = (if tx_channel_index tx < stale_count \<and> tx_channel_index tx < dt_channel_count t \<and>
                             tx_response_generation tx = dt_response_generations t (tx_channel_index tx)
                          then stale(tx_channel_index tx := True) else stale);
                (k, t', s) = expire_loop n (release_index t i True) now_ms timeout_ms stale_count stale'
            in (Suc k, t', s))"

text \<open>A call without a stale channel array passes \<open>stale_count = 0\<close>.\<close>

definition bpf2socks_dns_table_expire ::
  "bpf2socks_dns_table \<Rightarrow> u64 \<Rightarrow> u64 \<Rightarrow> nat \<Rightarrow> u32 \<Rightarrow> (u32 \<Rightarrow> bool) \<Rightarrow>
   nat \<times> bpf2socks_dns_table \<times> (u32 \<Rightarrow> bool)" where
  "bpf2socks_dns_table_expire t now_ms timeout_ms max_expire stale_count stale =
     expire_loop max_expire t now_ms timeout_ms stale_count stale"

section \<open>The age list\<close>

definition dns_links :: "bpf2socks_dns_table \<Rightarrow> nat links" where
  "dns_links t = \<lparr>lk_head = dt_lru_head t, lk_tail = dt_lru_tail t,
     lk_next = (\<lambda>i. tx_lru_next (dt_transactions t i)), lk_prev = (\<lambda>i. tx_lru_prev (dt_transactions t i))\<rparr>"

lemma dns_links_set_next [simp]: "dns_links (set_next t i v) = (dns_links t)\<lparr>lk_next := (lk_next (dns_links t))(i := v)\<rparr>"
  by (auto simp: dns_links_def set_next_def fun_eq_iff)

lemma dns_links_set_prev [simp]: "dns_links (set_prev t i v) = (dns_links t)\<lparr>lk_prev := (lk_prev (dns_links t))(i := v)\<rparr>"
  by (auto simp: dns_links_def set_prev_def fun_eq_iff)

lemma dns_links_head [simp]: "dns_links (t\<lparr>dt_lru_head := h\<rparr>) = (dns_links t)\<lparr>lk_head := h\<rparr>"
  by (simp add: dns_links_def)

lemma dns_links_tail [simp]: "dns_links (t\<lparr>dt_lru_tail := h\<rparr>) = (dns_links t)\<lparr>lk_tail := h\<rparr>"
  by (simp add: dns_links_def)

lemma dns_links_sel:
  "dt_lru_head t = lk_head (dns_links t)" "dt_lru_tail t = lk_tail (dns_links t)"
  "tx_lru_next (dt_transactions t i) = lk_next (dns_links t) i"
  "tx_lru_prev (dt_transactions t i) = lk_prev (dns_links t) i"
  by (simp_all add: dns_links_def)

lemma dns_links_detach: "dns_links (lru_detach t i) = detach_links (dns_links t) i"
  unfolding lru_detach_def detach_links_def unlink_before_def unlink_after_def clear_links_def Let_def dns_links_sel
  by (simp split: option.split)

lemma dns_links_attach: "dns_links (lru_attach_tail t i) = attach_tail_links (dns_links t) i"
  unfolding lru_attach_tail_def attach_tail_links_def Let_def dns_links_sel
  by (simp split: option.split)

interpretation dns_lru: intrusive_list dns_links lru_detach lru_attach_tail
  by unfold_locales (simp_all add: dns_links_detach dns_links_attach)

text \<open>The list operations change nothing but links.\<close>

definition same_but_links :: "bpf2socks_dns_table \<Rightarrow> bpf2socks_dns_table \<Rightarrow> bool" where
  "same_but_links t t' \<longleftrightarrow>
     dt_lookup t' = dt_lookup t \<and> dt_next_ids t' = dt_next_ids t \<and>
     dt_response_generations t' = dt_response_generations t \<and> dt_free_indices t' = dt_free_indices t \<and>
     dt_free_count t' = dt_free_count t \<and> dt_capacity t' = dt_capacity t \<and>
     dt_channel_count t' = dt_channel_count t \<and>
     (\<forall>i. (dt_transactions t' i)\<lparr>tx_lru_prev := None, tx_lru_next := None\<rparr> =
          (dt_transactions t i)\<lparr>tx_lru_prev := None, tx_lru_next := None\<rparr>)"

lemma same_but_links_refl [simp]: "same_but_links t t"
  by (simp add: same_but_links_def)

lemma same_but_links_trans: "same_but_links t u \<Longrightarrow> same_but_links u v \<Longrightarrow> same_but_links t v"
  by (simp add: same_but_links_def)

lemma same_but_links_set [simp]:
  "same_but_links t (set_next u i v) = same_but_links t u"
  "same_but_links t (set_prev u i v) = same_but_links t u"
  "same_but_links t (u\<lparr>dt_lru_head := h\<rparr>) = same_but_links t u"
  "same_but_links t (u\<lparr>dt_lru_tail := h\<rparr>) = same_but_links t u"
  by (auto simp: same_but_links_def set_next_def set_prev_def)

lemma same_but_links_detach: "same_but_links t (lru_detach t i)"
  by (simp add: lru_detach_def Let_def split: option.split)

lemma same_but_links_attach: "same_but_links t (lru_attach_tail t i)"
  by (simp add: lru_attach_tail_def Let_def split: option.split)

lemma same_but_links_tx:
  assumes "same_but_links t t'"
  shows "tx_used (dt_transactions t' i) = tx_used (dt_transactions t i)"
    "tx_channel_index (dt_transactions t' i) = tx_channel_index (dt_transactions t i)"
    "tx_rewritten_id (dt_transactions t' i) = tx_rewritten_id (dt_transactions t i)"
    "tx_original_id (dt_transactions t' i) = tx_original_id (dt_transactions t i)"
    "tx_question_fingerprint (dt_transactions t' i) = tx_question_fingerprint (dt_transactions t i)"
    "tx_sent_at_ms (dt_transactions t' i) = tx_sent_at_ms (dt_transactions t i)"
    "tx_response_generation (dt_transactions t' i) = tx_response_generation (dt_transactions t i)"
proof -
  let ?c = "\<lambda>x. x\<lparr>tx_lru_prev := None, tx_lru_next := None\<rparr>"
  from assms have e: "?c (dt_transactions t' i) = ?c (dt_transactions t i)" by (simp add: same_but_links_def)
  show "tx_used (dt_transactions t' i) = tx_used (dt_transactions t i)" using arg_cong [OF e, of tx_used] by simp
  show "tx_channel_index (dt_transactions t' i) = tx_channel_index (dt_transactions t i)"
    using arg_cong [OF e, of tx_channel_index] by simp
  show "tx_rewritten_id (dt_transactions t' i) = tx_rewritten_id (dt_transactions t i)"
    using arg_cong [OF e, of tx_rewritten_id] by simp
  show "tx_original_id (dt_transactions t' i) = tx_original_id (dt_transactions t i)"
    using arg_cong [OF e, of tx_original_id] by simp
  show "tx_question_fingerprint (dt_transactions t' i) = tx_question_fingerprint (dt_transactions t i)"
    using arg_cong [OF e, of tx_question_fingerprint] by simp
  show "tx_sent_at_ms (dt_transactions t' i) = tx_sent_at_ms (dt_transactions t i)"
    using arg_cong [OF e, of tx_sent_at_ms] by simp
  show "tx_response_generation (dt_transactions t' i) = tx_response_generation (dt_transactions t i)"
    using arg_cong [OF e, of tx_response_generation] by simp
qed

end
