(* ===== verification/Dns_Table_Correct.thy ===== *)
theory Dns_Table_Correct
  imports Dns_Table
begin

text \<open>
  Correctness of the DNS transaction table. \<open>dns_rep t xs\<close> says that the table \<open>t\<close> is well
  formed and holds the outstanding transactions \<open>xs\<close> (slot numbers), oldest first. Every
  operation is shown to act on \<open>xs\<close> as an operation on a bounded queue.
\<close>

section \<open>Representation invariant\<close>

definition tx_offset :: "bpf2socks_dns_table \<Rightarrow> nat \<Rightarrow> nat" where
  "tx_offset t i = lookup_offset (tx_channel_index (dt_transactions t i)) (tx_rewritten_id (dt_transactions t i))"

definition free_ok :: "bpf2socks_dns_table \<Rightarrow> nat list \<Rightarrow> bool" where
  "free_ok t xs \<longleftrightarrow>
     dt_free_count t + length xs = dt_capacity t \<and>
     inj_on (dt_free_indices t) {..<dt_free_count t} \<and>
     (\<forall>k<dt_free_count t. dt_free_indices t k < dt_capacity t \<and> dt_free_indices t k \<notin> set xs)"

definition used_ok :: "bpf2socks_dns_table \<Rightarrow> nat list \<Rightarrow> bool" where
  "used_ok t xs \<longleftrightarrow> (\<forall>i. i \<in> set xs \<longleftrightarrow> i < dt_capacity t \<and> tx_used (dt_transactions t i))"

definition lookup_ok :: "bpf2socks_dns_table \<Rightarrow> nat list \<Rightarrow> bool" where
  "lookup_ok t xs \<longleftrightarrow>
     (\<forall>i\<in>set xs. tx_channel_index (dt_transactions t i) < dt_channel_count t \<and> dt_lookup t (tx_offset t i) = int i) \<and>
     (\<forall>off<unat (dt_channel_count t) * 65536.
        dt_lookup t off < 0 \<or> nat (dt_lookup t off) \<in> set xs \<and> tx_offset t (nat (dt_lookup t off)) = off)"

definition dns_rep :: "bpf2socks_dns_table \<Rightarrow> nat list \<Rightarrow> bool" where
  "dns_rep t xs \<longleftrightarrow> dt_capacity t < 2 ^ 31 \<and> dll (dns_links t) xs \<and> used_ok t xs \<and> free_ok t xs \<and> lookup_ok t xs"

lemmas dns_rep_defs = dns_rep_def used_ok_def free_ok_def lookup_ok_def

lemma int32_of_small: "n < 2 ^ 31 \<Longrightarrow> int32_of n = int n"
proof -
  assume n: "n < 2 ^ 31"
  have "sint (of_nat n :: 32 word) = signed_take_bit 31 (int n)"
    by (simp add: signed_of_nat)
  also have "\<dots> = int n" using n by (intro signed_take_bit_int_eq_self) auto
  finally show ?thesis by (simp add: int32_of_def)
qed

lemma lookup_offset_inj: "lookup_offset c i = lookup_offset c' i' \<longleftrightarrow> c = c' \<and> i = i'"
proof
  assume "lookup_offset c i = lookup_offset c' i'"
  then have e: "unat c * 65536 + unat i = unat c' * 65536 + unat i'" by (simp add: lookup_offset_def)
  have "unat i < 65536" "unat i' < 65536" using unsigned_less [of i] unsigned_less [of i'] by simp_all
  with arg_cong [OF e, of "\<lambda>x. x div 65536"] arg_cong [OF e, of "\<lambda>x. x mod 65536"]
  have "unat c = unat c'" "unat i = unat i'" by simp_all
  then show "c = c' \<and> i = i'" by (simp add: word_unat_eq_iff)
qed simp

lemma lookup_offset_bound: "c < n \<Longrightarrow> lookup_offset c i < unat n * 65536"
proof -
  assume "c < n"
  then have "unat c + 1 \<le> unat n" by (simp add: word_less_nat_alt)
  then have "(unat c + 1) * 65536 \<le> unat n * 65536" by (rule mult_le_mono1)
  moreover have "unat i < 65536" using unsigned_less [of i] by simp
  ultimately show ?thesis by (simp add: lookup_offset_def)
qed

lemma dns_rep_distinct: "dns_rep t xs \<Longrightarrow> distinct xs"
  by (auto simp: dns_rep_def dest: dll_distinct)

lemma dns_rep_length: "dns_rep t xs \<Longrightarrow> length xs \<le> dt_capacity t"
  by (simp add: dns_rep_def free_ok_def)

lemma dns_rep_unique: "dns_rep t xs \<Longrightarrow> dns_rep t ys \<Longrightarrow> xs = ys"
  by (auto simp: dns_rep_def intro: dll_unique)

lemma dns_rep_head: "dns_rep t xs \<Longrightarrow> dt_lru_head t = (if xs = [] then None else Some (hd xs))"
  using dll_head [of "dns_links t" xs] by (auto simp: dns_rep_def dns_links_def)

text \<open>Two outstanding transactions never share a channel and an id.\<close>

lemma tx_offset_inj:
  assumes "dns_rep t xs" "i \<in> set xs" "j \<in> set xs" "tx_offset t i = tx_offset t j"
  shows "i = j"
proof -
  from assms(1,2) have "dt_lookup t (tx_offset t i) = int i" by (simp add: dns_rep_def lookup_ok_def)
  moreover from assms(1,3) have "dt_lookup t (tx_offset t j) = int j" by (simp add: dns_rep_def lookup_ok_def)
  ultimately have "int i = int j" by (metis assms(4))
  then show ?thesis by (rule of_nat_eq_iff [THEN iffD1])
qed

section \<open>Initialisation\<close>

lemma init_rep:
  assumes "bpf2socks_dns_table_init mem cc cap = Inr t" "cap < 2 ^ 31"
  shows "dns_rep t []"
proof -
  from assms(1) have t: "t = \<lparr>dt_transactions = (\<lambda>_. zero_transaction), dt_lookup = (\<lambda>_. -1), dt_next_ids = (\<lambda>_. 0),
             dt_response_generations = (\<lambda>_. 0), dt_free_indices = (\<lambda>i. cap - 1 - i),
             dt_free_count = cap, dt_capacity = cap, dt_channel_count = cc,
             dt_lru_head = None, dt_lru_tail = None\<rparr>"
    by (auto simp: bpf2socks_dns_table_init_def split: if_splits)
  have "inj_on (\<lambda>i. cap - 1 - i) {..<cap}" by (rule inj_onI) auto
  then have "free_ok t []" by (simp add: t free_ok_def)
  moreover have "dll (dns_links t) []" by (simp add: t dll_def dns_links_def)
  moreover have "used_ok t []" "lookup_ok t []"
    by (simp_all add: t used_ok_def lookup_ok_def zero_transaction_def)
  ultimately show ?thesis using assms(2) by (simp add: dns_rep_def t)
qed

section \<open>Releasing a transaction\<close>

lemma release_unused: "i \<ge> dt_capacity t \<or> \<not> tx_used (dt_transactions t i) \<Longrightarrow> release_index t i r = t"
  by (auto simp: release_index_def Let_def)

lemma dll_clear_outside: "dll l xs \<Longrightarrow> i \<notin> set xs \<Longrightarrow> dll (clear_links l i) xs"
  by (simp add: dll_def clear_links_def)

text \<open>The state after the release, before the slot goes back to the free stack.\<close>

lemma release_core:
  assumes rep: "dns_rep t xs" and i: "i \<in> set xs"
  defines "u \<equiv> release_index t i False"
  shows "dll (dns_links u) (remove1 i xs)"
    and "used_ok u (remove1 i xs)"
    and "lookup_ok u (remove1 i xs)"
    and "dt_free_count u = dt_free_count t" "dt_free_indices u = dt_free_indices t"
    and "dt_capacity u = dt_capacity t" "dt_channel_count u = dt_channel_count t"
    and "dt_next_ids u = dt_next_ids t" "dt_response_generations u = dt_response_generations t"
    and "dt_lookup u = (dt_lookup t)(tx_offset t i := -1)"
    and "\<forall>j\<in>set (remove1 i xs). tx_offset u j = tx_offset t j"
proof -
  let ?t1 = "t\<lparr>dt_lookup := (dt_lookup t)(tx_offset t i := -1)\<rparr>"
  let ?t2 = "lru_detach ?t1 i"
  from rep i have i_lt: "i < dt_capacity t" and used: "tx_used (dt_transactions t i)"
    and look: "dt_lookup t (tx_offset t i) = int i" and small: "dt_capacity t < 2 ^ 31"
    and d: "dll (dns_links t) xs" by (auto simp: dns_rep_defs)
  have dist: "distinct xs" using rep by (rule dns_rep_distinct)
  have u: "u = ?t2\<lparr>dt_transactions := (dt_transactions ?t2)(i := zero_transaction)\<rparr>"
    using i_lt used look int32_of_small [of i] small
    by (simp add: u_def release_index_def Let_def tx_offset_def)
  have same: "same_but_links ?t1 ?t2" by (rule same_but_links_detach)
  note sel = same [unfolded same_but_links_def]
  have links: "dns_links u = clear_links (dns_links ?t2) i"
    by (simp add: u dns_links_def clear_links_def zero_transaction_def fun_eq_iff)
  have "dll (dns_links ?t2) (remove1 i xs)"
    using d i by (intro dns_lru.detach_refines) (simp_all add: dns_links_def)
  then show "dll (dns_links u) (remove1 i xs)"
    unfolding links using dist by (intro dll_clear_outside) simp_all
  show "dt_free_count u = dt_free_count t" "dt_free_indices u = dt_free_indices t"
    "dt_capacity u = dt_capacity t" and cc: "dt_channel_count u = dt_channel_count t"
    and "dt_next_ids u = dt_next_ids t" "dt_response_generations u = dt_response_generations t"
    and lu: "dt_lookup u = (dt_lookup t)(tx_offset t i := -1)"
    using sel by (simp_all add: u)
  show used_u: "used_ok u (remove1 i xs)"
    using rep dist sel same_but_links_tx(1) [OF same]
    by (auto simp: u dns_rep_def used_ok_def zero_transaction_def)
  show off: "\<forall>j\<in>set (remove1 i xs). tx_offset u j = tx_offset t j"
    using dist same_but_links_tx(2,3) [OF same] by (auto simp: u tx_offset_def)
  show "lookup_ok u (remove1 i xs)"
    unfolding lookup_ok_def
  proof (rule conjI)
    show "\<forall>j\<in>set (remove1 i xs). tx_channel_index (dt_transactions u j) < dt_channel_count u \<and>
            dt_lookup u (tx_offset u j) = int j"
    proof
      fix j assume j: "j \<in> set (remove1 i xs)"
      then have jx: "j \<in> set xs" "j \<noteq> i" using dist by auto
      then have "tx_offset t j \<noteq> tx_offset t i" using tx_offset_inj [OF rep, of j i] i by blast
      moreover have "tx_channel_index (dt_transactions u j) = tx_channel_index (dt_transactions t j)"
        using jx same_but_links_tx(2) [OF same, of j] by (simp add: u)
      ultimately show "tx_channel_index (dt_transactions u j) < dt_channel_count u \<and> dt_lookup u (tx_offset u j) = int j"
        using rep jx off j lu sel by (simp add: u dns_rep_def lookup_ok_def)
    qed
    show "\<forall>off<unat (dt_channel_count u) * 65536. dt_lookup u off < 0 \<or>
       nat (dt_lookup u off) \<in> set (remove1 i xs) \<and> tx_offset u (nat (dt_lookup u off)) = off"
    proof (intro allI impI)
      fix off' assume o: "off' < unat (dt_channel_count u) * 65536"
      show "dt_lookup u off' < 0 \<or>
         nat (dt_lookup u off') \<in> set (remove1 i xs) \<and> tx_offset u (nat (dt_lookup u off')) = off'"
      proof (cases "off' = tx_offset t i \<or> dt_lookup t off' < 0")
        case True
        then show ?thesis using lu by auto
      next
        case False
        with rep o cc have in_xs: "nat (dt_lookup t off') \<in> set xs" and eq: "tx_offset t (nat (dt_lookup t off')) = off'"
          by (auto simp: dns_rep_def lookup_ok_def)
        moreover have "nat (dt_lookup t off') \<noteq> i" using eq False by auto
        ultimately have "nat (dt_lookup t off') \<in> set (remove1 i xs)" by (simp add: in_set_remove1)
        with False off lu eq show ?thesis by simp
      qed
    qed
  qed
qed

lemma push_free_rep:
  assumes "dt_capacity t < 2 ^ 31" "dll (dns_links t) xs" "used_ok t xs" "lookup_ok t xs"
    and "dt_free_count t + length xs + 1 = dt_capacity t"
    and "inj_on (dt_free_indices t) {..<dt_free_count t}"
    and "\<forall>k<dt_free_count t. dt_free_indices t k < dt_capacity t \<and> dt_free_indices t k \<notin> set xs \<and> dt_free_indices t k \<noteq> i"
    and "i < dt_capacity t" "i \<notin> set xs"
  shows "dns_rep (push_free t i) xs"
proof -
  have lt: "dt_free_count t < dt_capacity t" using assms(5) by linarith
  have "inj_on ((dt_free_indices t)(dt_free_count t := i)) {..<Suc (dt_free_count t)}"
    using assms(6,7) by (auto simp: inj_on_def less_Suc_eq)
  with assms lt show ?thesis
    by (auto simp: push_free_def dns_rep_def used_ok_def free_ok_def lookup_ok_def tx_offset_def dns_links_def less_Suc_eq)
qed

lemma release_index_push: "i < dt_capacity t \<Longrightarrow> tx_used (dt_transactions t i) \<Longrightarrow>
    release_index t i True = push_free (release_index t i False) i"
  by (simp add: release_index_def Let_def)

lemma release_rep:
  assumes rep: "dns_rep t xs"
  shows "dns_rep (bpf2socks_dns_table_release t i) (remove1 i xs)"
proof (cases "i \<in> set xs")
  case False
  with rep have "i \<ge> dt_capacity t \<or> \<not> tx_used (dt_transactions t i)" by (auto simp: dns_rep_defs)
  with False rep show ?thesis
    by (auto simp: bpf2socks_dns_table_release_def release_unused remove1_idem)
next
  case True
  let ?u = "release_index t i False"
  have i: "i < dt_capacity t" "tx_used (dt_transactions t i)" using rep True by (auto simp: dns_rep_defs)
  have len: "length (remove1 i xs) + 1 = length xs"
    using True by (simp add: length_remove1 Suc_pred [OF length_pos_if_in_set])
  note c = release_core [OF rep True]
  have "dns_rep (push_free ?u i) (remove1 i xs)"
    using rep c len i True dns_rep_distinct [OF rep]
    by (intro push_free_rep) (auto simp: dns_rep_def free_ok_def dest: notin_set_remove1)
  then show ?thesis using i release_index_push [OF i] by (simp add: bpf2socks_dns_table_release_def)
qed

lemma release_index_rep: "dns_rep t xs \<Longrightarrow> i \<in> set xs \<Longrightarrow> dns_rep (release_index t i True) (remove1 i xs)"
  using release_rep [of t xs i] by (auto simp: bpf2socks_dns_table_release_def dns_rep_defs)

section \<open>Choosing an id\<close>

declare scan_ids.simps [simp del]

lemma scan_ids_Some: "scan_ids look start i = Some j \<Longrightarrow> look j < 0"
proof (induction look start i rule: scan_ids.induct)
  case (1 look start i)
  then show ?case by (subst (asm) (2) scan_ids.simps) (auto split: if_splits)
qed

lemma scan_ids_None:
  "scan_ids look start i = None \<Longrightarrow> unat (j - i) \<le> unat (start - (i + 1)) \<Longrightarrow> 0 \<le> look j"
proof (induction look start i rule: scan_ids.induct)
  case (1 look start i)
  have li: "0 \<le> look i" using "1.prems"(1) by (subst (asm) scan_ids.simps) (auto split: if_splits)
  show ?case
  proof (cases "j = i")
    case True
    with li show ?thesis by simp
  next
    case False
    then have ji: "j - i \<noteq> 0" by simp
    then have pos: "unat (j - i) \<noteq> 0" by (simp add: unat_eq_0)
    with "1.prems"(2) have si: "start - (i + 1) \<noteq> 0" by (metis le_zero_eq unat_eq_0)
    then have ne: "i + 1 \<noteq> start" by auto
    have "scan_ids look start (i + 1) = None"
      using "1.prems"(1) li ne by (subst (asm) scan_ids.simps) (auto split: if_splits)
    moreover have "unat (j - (i + 1)) = unat (j - i) - 1" "unat (start - (i + 1 + 1)) = unat (start - (i + 1)) - 1"
      using unat_minus_one [OF ji] unat_minus_one [OF si] by (simp_all add: algebra_simps)
    ultimately show ?thesis using "1.IH" [OF _ ne] li "1.prems"(2) by auto
  qed
qed

lemma scan_ids_None_all: "scan_ids look start start = None \<Longrightarrow> 0 \<le> look j"
proof -
  assume none: "scan_ids look start start = None"
  have "start - (start + 1) = (-1 :: u16)" by simp
  also have "(-1 :: u16) = 65535" by simp
  finally have e: "start - (start + 1) = 65535" .
  have "unat (j - start) \<le> unat (start - (start + 1))"
    unfolding e using unsigned_less [of "j - start", where ?'a = nat] by simp
  then show ?thesis by (rule scan_ids_None [OF none])
qed

lemma allocate_idD:
  assumes "allocate_id t c = Some (i, t')"
  shows "dt_lookup t (lookup_offset c i) < 0" "t' = t\<lparr>dt_next_ids := (dt_next_ids t)(c := i + 1)\<rparr>"
  using assms scan_ids_Some by (auto simp: allocate_id_def Let_def split: option.splits)

text \<open>
  A channel has \<open>2^16\<close> ids: while fewer transactions are outstanding, one of them is free.
\<close>

lemma allocate_id_Some:
  assumes look: "lookup_ok t xs" and c: "c < dt_channel_count t" and len: "length xs < 65536"
  shows "allocate_id t c \<noteq> None"
proof
  assume "allocate_id t c = None"
  then have all: "0 \<le> dt_lookup t (lookup_offset c i)" for i
    using scan_ids_None_all [of "\<lambda>i. dt_lookup t (lookup_offset c i)" "dt_next_ids t c" i]
    by (auto simp: allocate_id_def Let_def split: option.splits)
  let ?f = "\<lambda>i :: u16. nat (dt_lookup t (lookup_offset c i))"
  have slot: "?f i \<in> set xs \<and> tx_offset t (?f i) = lookup_offset c i" for i
    using look all [of i] lookup_offset_bound [OF c, of i] by (auto simp: lookup_ok_def)
  have "inj ?f"
  proof (rule injI)
    fix i j assume "?f i = ?f j"
    then have "lookup_offset c i = lookup_offset c j" by (metis slot)
    then show "i = j" by (simp add: lookup_offset_inj)
  qed
  then have "card (UNIV :: u16 set) \<le> card (set xs)"
    using slot by (intro card_inj_on_le [where f = ?f]) auto
  moreover have "card (set xs) \<le> length xs" by (rule card_length)
  ultimately show False using len by (simp add: card_word)
qed

section \<open>Allocating a transaction\<close>

text \<open>The state between taking a slot and entering the new transaction into it.\<close>

definition dns_reserved :: "bpf2socks_dns_table \<Rightarrow> nat list \<Rightarrow> nat \<Rightarrow> bool" where
  "dns_reserved t xs slot \<longleftrightarrow>
     dt_capacity t < 2 ^ 31 \<and> dll (dns_links t) xs \<and> used_ok t xs \<and> lookup_ok t xs \<and>
     dt_free_count t + length xs + 1 = dt_capacity t \<and>
     inj_on (dt_free_indices t) {..<dt_free_count t} \<and>
     (\<forall>k<dt_free_count t. dt_free_indices t k < dt_capacity t \<and> dt_free_indices t k \<notin> set xs \<and> dt_free_indices t k \<noteq> slot) \<and>
     slot < dt_capacity t \<and> slot \<notin> set xs"

lemma next_ids_irrelevant [simp]:
  "dns_links (t\<lparr>dt_next_ids := ids\<rparr>) = dns_links t" "used_ok (t\<lparr>dt_next_ids := ids\<rparr>) xs = used_ok t xs"
  "lookup_ok (t\<lparr>dt_next_ids := ids\<rparr>) xs = lookup_ok t xs"
  by (simp_all add: dns_links_def used_ok_def lookup_ok_def tx_offset_def)

lemma dns_reserved_next_ids [simp]: "dns_reserved (t\<lparr>dt_next_ids := ids\<rparr>) xs slot = dns_reserved t xs slot"
  by (simp add: dns_reserved_def)

definition keep_on_alloc :: "bpf2socks_dns_table \<Rightarrow> nat list \<Rightarrow> nat list" where
  "keep_on_alloc t xs = (if dt_free_count t > 0 then xs else tl xs)"

lemma take_slot_reserved:
  assumes rep: "dns_rep t xs" and cap: "0 < dt_capacity t"
  obtains slot t1 where "take_slot t = Some (slot, t1)" "dns_reserved t1 (keep_on_alloc t xs) slot"
    "dt_channel_count t1 = dt_channel_count t" "dt_response_generations t1 = dt_response_generations t"
    "dt_capacity t1 = dt_capacity t" "\<forall>j\<in>set (keep_on_alloc t xs). tx_offset t1 j = tx_offset t j"
proof (cases "dt_free_count t > 0")
  case True
  let ?k = "dt_free_count t - 1"
  let ?t1 = "t\<lparr>dt_free_count := ?k\<rparr>"
  have inj: "inj_on (dt_free_indices t) {..<dt_free_count t}" using rep by (simp add: dns_rep_def free_ok_def)
  have k: "?k < dt_free_count t" using True by simp
  have "dt_free_indices t j \<noteq> dt_free_indices t ?k" if "j < ?k" for j
    using inj_onD [OF inj, of j ?k] that k by fastforce
  moreover have "inj_on (dt_free_indices t) {..<?k}" by (rule inj_on_subset [OF inj]) auto
  ultimately have "dns_reserved ?t1 xs (dt_free_indices t ?k)"
    using rep k by (auto simp: dns_reserved_def dns_rep_defs dns_links_def tx_offset_def)
  with True show ?thesis using that [of "dt_free_indices t ?k" ?t1]
    by (simp add: take_slot_def keep_on_alloc_def tx_offset_def)
next
  case False
  with rep cap have ne: "xs \<noteq> []" by (auto simp: dns_rep_def free_ok_def)
  let ?i = "hd xs"
  have i: "?i \<in> set xs" using ne by simp
  have keep: "keep_on_alloc t xs = remove1 ?i xs" using False ne by (cases xs) (auto simp: keep_on_alloc_def)
  note c = release_core [OF rep i]
  have len: "length (remove1 ?i xs) + 1 = length xs" using ne by (cases xs) auto
  have "?i < dt_capacity t" using rep i by (auto simp: dns_rep_def used_ok_def)
  moreover have "?i \<notin> set (remove1 ?i xs)" using dns_rep_distinct [OF rep] by simp
  moreover have "length xs = dt_capacity t" "dt_capacity t < 2 ^ 31"
    using rep False by (simp_all add: dns_rep_def free_ok_def)
  ultimately have "dns_reserved (release_index t ?i False) (remove1 ?i xs) ?i"
    using c len False by (simp add: dns_reserved_def)
  with False keep c show ?thesis using that [of ?i "release_index t ?i False"] dns_rep_head [OF rep] ne
    by (simp add: take_slot_def)
qed

lemma try_channels_Some:
  "try_channels t pref n a = Some (c, i, t') \<Longrightarrow> dt_channel_count t \<noteq> 0 \<Longrightarrow>
     c < dt_channel_count t \<and> dt_lookup t (lookup_offset c i) < 0 \<and> (\<exists>ids. t' = t\<lparr>dt_next_ids := ids\<rparr>)"
proof (induction n arbitrary: a)
  case (Suc n)
  show ?case
  proof (cases "allocate_id t ((pref + a) mod dt_channel_count t)")
    case None
    with Suc show ?thesis by (auto simp: Let_def)
  next
    case (Some r)
    obtain i0 t0 where r: "r = (i0, t0)" by (cases r)
    have "(pref + a) mod dt_channel_count t < dt_channel_count t"
      using Suc.prems(2) by (simp add: word_mod_less_divisor word_neq_0_conv)
    with Suc.prems Some r allocate_idD [of t "(pref + a) mod dt_channel_count t" i0 t0] show ?thesis
      by (auto simp: Let_def)
  qed
qed simp

lemma try_channels_preferred:
  assumes "pref < dt_channel_count t" "allocate_id t pref = Some (i, t')" "n \<noteq> 0"
  shows "try_channels t pref n 0 = Some (pref, i, t')"
proof -
  have "pref mod dt_channel_count t = pref" using assms(1)
    by (metis unat_mod_distrib mod_less word_less_nat_alt word_unat_eq_iff)
  with assms show ?thesis by (cases n) (simp_all add: Let_def)
qed

text \<open>Entering a transaction into a reserved slot.\<close>

lemma enter_rep:
  assumes res: "dns_reserved t ys slot" and c: "c < dt_channel_count t"
    and free: "dt_lookup t (lookup_offset c i) < 0"
    and tx: "tx_used tx" "tx_channel_index tx = c" "tx_rewritten_id tx = i"
  defines "u \<equiv> t\<lparr>dt_transactions := (dt_transactions t)(slot := tx),
                dt_lookup := (dt_lookup t)(lookup_offset c i := int32_of slot)\<rparr>"
  shows "dns_rep (lru_attach_tail u slot) (ys @ [slot])"
    and "\<forall>j\<in>set ys. tx_offset (lru_attach_tail u slot) j = tx_offset t j"
    and "tx_offset (lru_attach_tail u slot) slot = lookup_offset c i"
proof -
  let ?w = "lru_attach_tail u slot"
  from res have small: "dt_capacity t < 2 ^ 31" and slot: "slot < dt_capacity t" "slot \<notin> set ys"
    and d: "dll (dns_links t) ys" by (simp_all add: dns_reserved_def)
  have s32: "int32_of slot = int slot" using slot small by (simp add: int32_of_small)
  have same: "same_but_links u ?w" by (rule same_but_links_attach)
  note sel = same [unfolded same_but_links_def]
  show off: "\<forall>j\<in>set ys. tx_offset ?w j = tx_offset t j"
    using slot same_but_links_tx(2,3) [OF same] by (auto simp: u_def tx_offset_def)
  show off': "tx_offset ?w slot = lookup_offset c i"
    using same_but_links_tx(2,3) [OF same, of slot] tx by (simp add: u_def tx_offset_def)
  have links: "dns_links u = (dns_links t)\<lparr>lk_next := (lk_next (dns_links t))(slot := tx_lru_next tx),
                                 lk_prev := (lk_prev (dns_links t))(slot := tx_lru_prev tx)\<rparr>"
    by (simp add: u_def dns_links_def fun_eq_iff)
  have "dll (dns_links u) ys" unfolding links using d slot(2) by (simp add: dll_def)
  then have "dll (dns_links ?w) (ys @ [slot])" using slot(2) by (rule dns_lru.attach_refines)
  moreover have "used_ok ?w (ys @ [slot])"
    using res sel same_but_links_tx(1) [OF same] tx slot by (auto simp: dns_reserved_def used_ok_def u_def)
  moreover have "free_ok ?w (ys @ [slot])"
    using res sel by (auto simp: dns_reserved_def free_ok_def u_def)
  moreover have "lookup_ok ?w (ys @ [slot])"
    unfolding lookup_ok_def
  proof (rule conjI)
    have old: "tx_offset t j \<noteq> lookup_offset c i" if "j \<in> set ys" for j
      using that res free by (auto simp: dns_reserved_def lookup_ok_def)
    show "\<forall>j\<in>set (ys @ [slot]). tx_channel_index (dt_transactions ?w j) < dt_channel_count ?w \<and>
            dt_lookup ?w (tx_offset ?w j) = int j"
    proof
      fix j assume "j \<in> set (ys @ [slot])"
      then consider "j = slot" | "j \<in> set ys" "j \<noteq> slot" using slot(2) by auto
      then show "tx_channel_index (dt_transactions ?w j) < dt_channel_count ?w \<and> dt_lookup ?w (tx_offset ?w j) = int j"
      proof cases
        case 1
        then show ?thesis using off' sel same_but_links_tx(2) [OF same, of slot] tx c s32 by (simp add: u_def)
      next
        case 2
        then show ?thesis using off old [OF 2(1)] sel same_but_links_tx(2) [OF same, of j] res
          by (simp add: u_def dns_reserved_def lookup_ok_def)
      qed
    qed
    show "\<forall>o'<unat (dt_channel_count ?w) * 65536. dt_lookup ?w o' < 0 \<or>
       nat (dt_lookup ?w o') \<in> set (ys @ [slot]) \<and> tx_offset ?w (nat (dt_lookup ?w o')) = o'"
    proof (intro allI impI)
      fix o' assume o: "o' < unat (dt_channel_count ?w) * 65536"
      have lw: "dt_lookup ?w = (dt_lookup t)(lookup_offset c i := int slot)" and "dt_channel_count ?w = dt_channel_count t"
        using sel s32 by (simp_all add: u_def)
      then have "dt_lookup t o' < 0 \<or> nat (dt_lookup t o') \<in> set ys \<and> tx_offset t (nat (dt_lookup t o')) = o'"
        using res o by (simp add: dns_reserved_def lookup_ok_def)
      then show "dt_lookup ?w o' < 0 \<or>
         nat (dt_lookup ?w o') \<in> set (ys @ [slot]) \<and> tx_offset ?w (nat (dt_lookup ?w o')) = o'"
        unfolding lw using off off' by (cases "o' = lookup_offset c i") auto
    qed
  qed
  moreover have "dt_capacity ?w < 2 ^ 31" using sel small by (simp add: u_def)
  ultimately show "dns_rep ?w (ys @ [slot])" by (simp add: dns_rep_def)
qed

text \<open>
  The whole allocation: it either fails with the table's outstanding transactions as before
  (less one that was evicted from a full table), or appends the new transaction.
\<close>

lemma alloc_rep:
  assumes rep: "dns_rep t xs" and cap: "0 < dt_capacity t" and pref: "pref < dt_channel_count t"
    and r: "bpf2socks_dns_table_alloc t pref oid fp now = (r, t')"
  shows "(\<exists>slot. r = Inr slot \<and> slot \<notin> set (keep_on_alloc t xs) \<and> dns_rep t' (keep_on_alloc t xs @ [slot])) \<or>
         (r = Inl ENOSPC \<and> dns_rep t' (keep_on_alloc t xs))"
proof -
  obtain slot t1 where ts: "take_slot t = Some (slot, t1)" and res: "dns_reserved t1 (keep_on_alloc t xs) slot"
    and cc: "dt_channel_count t1 = dt_channel_count t"
    using take_slot_reserved [OF rep cap] by blast
  have np: "\<not> pref \<ge> dt_channel_count t" using pref by simp
  show ?thesis
  proof (cases "try_channels t1 pref (unat (dt_channel_count t1)) 0")
    case None
    then have "r = Inl ENOSPC" "t' = push_free t1 slot"
      using r ts np by (auto simp: bpf2socks_dns_table_alloc_def)
    moreover have "dns_rep (push_free t1 slot) (keep_on_alloc t xs)"
      using res by (intro push_free_rep) (auto simp: dns_reserved_def)
    ultimately show ?thesis by simp
  next
    case (Some x)
    obtain c i t2 where x: "x = (c, i, t2)" by (cases x) auto
    have "dt_channel_count t1 \<noteq> 0" using pref cc by auto
    then obtain ids where c: "c < dt_channel_count t1" and f: "dt_lookup t1 (lookup_offset c i) < 0"
      and t2: "t2 = t1\<lparr>dt_next_ids := ids\<rparr>"
      using try_channels_Some [of t1 pref "unat (dt_channel_count t1)" 0 c i t2] Some x by auto
    have res2: "dns_reserved t2 (keep_on_alloc t xs) slot"
      using res by (simp add: t2)
    let ?tx = "zero_transaction\<lparr>tx_used := True, tx_channel_index := c,
                     tx_rewritten_id := i, tx_original_id := oid,
                     tx_question_fingerprint := fp, tx_sent_at_ms := now,
                     tx_response_generation := dt_response_generations t2 c\<rparr>"
    have "r = Inr slot" and t': "t' = lru_attach_tail (t2\<lparr>dt_transactions := (dt_transactions t2)(slot := ?tx),
                dt_lookup := (dt_lookup t2)(lookup_offset c i := int32_of slot)\<rparr>) slot"
      using r ts np Some x by (auto simp: bpf2socks_dns_table_alloc_def Let_def)
    moreover have "dns_rep t' (keep_on_alloc t xs @ [slot])"
      unfolding t' by (rule enter_rep(1) [OF res2]) (use c f in \<open>simp_all add: t2\<close>)
    ultimately show ?thesis using res by (simp add: dns_reserved_def)
  qed
qed

text \<open>
  With at most \<open>2^16\<close> slots the allocation cannot run out of ids, and the new transaction
  goes out on the channel the caller asked for.
\<close>

lemma alloc_succeeds:
  assumes rep: "dns_rep t xs" and cap: "0 < dt_capacity t" "dt_capacity t \<le> 65536"
    and pref: "pref < dt_channel_count t"
  obtains slot t' where "bpf2socks_dns_table_alloc t pref oid fp now = (Inr slot, t')"
    "slot < dt_capacity t" "slot \<notin> set (keep_on_alloc t xs)" "dns_rep t' (keep_on_alloc t xs @ [slot])"
    "tx_channel_index (dt_transactions t' slot) = pref" "tx_original_id (dt_transactions t' slot) = oid"
    "tx_question_fingerprint (dt_transactions t' slot) = fp" "tx_sent_at_ms (dt_transactions t' slot) = now"
    "tx_response_generation (dt_transactions t' slot) = dt_response_generations t pref"
    "dt_capacity t' = dt_capacity t" "dt_channel_count t' = dt_channel_count t"
proof -
  obtain slot t1 where ts: "take_slot t = Some (slot, t1)" and res: "dns_reserved t1 (keep_on_alloc t xs) slot"
    and cc: "dt_channel_count t1 = dt_channel_count t" and gen: "dt_response_generations t1 = dt_response_generations t"
    and c1: "dt_capacity t1 = dt_capacity t"
    using take_slot_reserved [OF rep cap(1)] by blast
  have len: "length (keep_on_alloc t xs) < 65536"
    using res cap c1 by (simp add: dns_reserved_def)
  have p1: "pref < dt_channel_count t1" using pref cc by simp
  have "lookup_ok t1 (keep_on_alloc t xs)" using res by (simp add: dns_reserved_def)
  then obtain i t2 where al: "allocate_id t1 pref = Some (i, t2)"
    using allocate_id_Some [OF _ p1 len] by fastforce
  note d = allocate_idD [OF al]
  have "unat (dt_channel_count t1) \<noteq> 0" using p1 by (auto simp: unat_eq_0)
  then have tc: "try_channels t1 pref (unat (dt_channel_count t1)) 0 = Some (pref, i, t2)"
    by (rule try_channels_preferred [OF p1 al])
  let ?tx = "zero_transaction\<lparr>tx_used := True, tx_channel_index := pref,
                     tx_rewritten_id := i, tx_original_id := oid,
                     tx_question_fingerprint := fp, tx_sent_at_ms := now,
                     tx_response_generation := dt_response_generations t2 pref\<rparr>"
  let ?u = "t2\<lparr>dt_transactions := (dt_transactions t2)(slot := ?tx),
                dt_lookup := (dt_lookup t2)(lookup_offset pref i := int32_of slot)\<rparr>"
  have res2: "dns_reserved t2 (keep_on_alloc t xs) slot"
    using res by (simp add: d(2))
  have rep': "dns_rep (lru_attach_tail ?u slot) (keep_on_alloc t xs @ [slot])"
    by (rule enter_rep(1) [OF res2]) (use p1 d in simp_all)
  have eq: "bpf2socks_dns_table_alloc t pref oid fp now = (Inr slot, lru_attach_tail ?u slot)"
    using ts tc pref by (simp add: bpf2socks_dns_table_alloc_def Let_def)
  note same = same_but_links_attach [of ?u slot]
  show ?thesis
    by (rule that [OF eq]) (use rep' res c1 cc gen same_but_links_tx [OF same, of slot] same d(2)
        in \<open>simp_all add: dns_reserved_def same_but_links_def\<close>)
qed

section \<open>Finding a transaction\<close>

lemma find_iff:
  assumes rep: "dns_rep t xs"
  shows "bpf2socks_dns_table_find t c i = Some k \<longleftrightarrow>
    k \<in> set xs \<and> tx_channel_index (dt_transactions t k) = c \<and> tx_rewritten_id (dt_transactions t k) = i"
proof
  assume f: "bpf2socks_dns_table_find t c i = Some k"
  then have c: "c < dt_channel_count t" and l: "dt_lookup t (lookup_offset c i) = int k"
    and "k < dt_capacity t" "tx_used (dt_transactions t k)"
    by (auto simp: bpf2socks_dns_table_find_def Let_def split: if_splits)
  then have "k \<in> set xs" using rep by (auto simp: dns_rep_def used_ok_def)
  moreover have "tx_offset t k = lookup_offset c i"
    using rep l lookup_offset_bound [OF c, of i] by (auto simp: dns_rep_def lookup_ok_def)
  ultimately show "k \<in> set xs \<and> tx_channel_index (dt_transactions t k) = c \<and> tx_rewritten_id (dt_transactions t k) = i"
    by (simp add: tx_offset_def lookup_offset_inj)
next
  assume k: "k \<in> set xs \<and> tx_channel_index (dt_transactions t k) = c \<and> tx_rewritten_id (dt_transactions t k) = i"
  then have "c < dt_channel_count t" "dt_lookup t (lookup_offset c i) = int k"
    using rep by (auto simp: dns_rep_def lookup_ok_def tx_offset_def)
  moreover have "k < dt_capacity t" "tx_used (dt_transactions t k)" using rep k by (auto simp: dns_rep_def used_ok_def)
  ultimately show "bpf2socks_dns_table_find t c i = Some k" by (simp add: bpf2socks_dns_table_find_def)
qed

section \<open>Expiry\<close>

definition tx_expired :: "bpf2socks_dns_table \<Rightarrow> u64 \<Rightarrow> u64 \<Rightarrow> nat \<Rightarrow> bool" where
  "tx_expired t now_ms timeout_ms i = expired_tx (dt_transactions t i) now_ms timeout_ms"

lemma release_index_other:
  assumes "j \<noteq> i"
  shows "tx_expired (release_index t i r) now tmo j = tx_expired t now tmo j"
proof -
  have "tx_expired (lru_detach u i) now tmo j = tx_expired u now tmo j" for u
    using same_but_links_tx(1,6) [OF same_but_links_detach [of u i], of j] by (simp add: tx_expired_def expired_tx_def)
  with assms show ?thesis
    by (auto simp: release_index_def Let_def push_free_def tx_expired_def)
qed

lemma expire_rep:
  assumes "dns_rep t xs" "expire_loop n t now tmo sc st = (k, t', st')"
  shows "k = length (takeWhile (tx_expired t now tmo) (take n xs)) \<and> dns_rep t' (drop k xs)"
  using assms
proof (induction n arbitrary: t xs st k)
  case 0
  then show ?case by simp
next
  case (Suc n)
  show ?case
  proof (cases xs)
    case Nil
    then show ?thesis using Suc.prems dns_rep_head [OF Suc.prems(1)] by simp
  next
    case (Cons i ys)
    have head: "dt_lru_head t = Some i" using dns_rep_head [OF Suc.prems(1)] Cons by simp
    show ?thesis
    proof (cases "tx_expired t now tmo i")
      case False
      then show ?thesis using Suc.prems head Cons by (simp add: tx_expired_def Let_def)
    next
      case True
      let ?t = "release_index t i True"
      have rep: "dns_rep ?t ys" using release_index_rep [OF Suc.prems(1), of i] Cons by simp
      from Suc.prems(2) True head obtain st2 k2 where
        loop: "expire_loop n ?t now tmo sc st2 = (k2, t', st')" and k: "k = Suc k2"
        by (auto simp: tx_expired_def Let_def split: prod.splits)
      have "i \<notin> set ys" using dns_rep_distinct [OF Suc.prems(1)] Cons by simp
      then have "takeWhile (tx_expired ?t now tmo) (take n ys) = takeWhile (tx_expired t now tmo) (take n ys)"
        by (intro takeWhile_cong refl release_index_other) (auto dest: in_set_takeD)
      with Suc.IH [OF rep loop] k Cons True show ?thesis by auto
    qed
  qed
qed

lemma generations_irrelevant [simp]:
  "dns_links (t\<lparr>dt_response_generations := g\<rparr>) = dns_links t"
  "used_ok (t\<lparr>dt_response_generations := g\<rparr>) xs = used_ok t xs"
  "free_ok (t\<lparr>dt_response_generations := g\<rparr>) xs = free_ok t xs"
  "lookup_ok (t\<lparr>dt_response_generations := g\<rparr>) xs = lookup_ok t xs"
  by (simp_all add: dns_links_def used_ok_def free_ok_def lookup_ok_def tx_offset_def)

lemma note_response_rep: "dns_rep t xs \<Longrightarrow> dns_rep (bpf2socks_dns_table_note_response t c) xs"
  by (simp add: bpf2socks_dns_table_note_response_def dns_rep_def)

lemma oldest_eq:
  assumes "dns_rep t xs"
  shows "bpf2socks_dns_table_oldest t = (if xs = [] then None else Some (tx_sent_at_ms (dt_transactions t (hd xs))))"
proof (cases xs)
  case Nil
  then show ?thesis using dns_rep_head [OF assms] by (simp add: bpf2socks_dns_table_oldest_def)
next
  case (Cons i ys)
  then have "tx_used (dt_transactions t i)" using assms by (auto simp: dns_rep_def used_ok_def)
  then show ?thesis using dns_rep_head [OF assms] Cons by (simp add: bpf2socks_dns_table_oldest_def)
qed

section \<open>Interface for the clients of the table\<close>

text \<open>
  What the DNS fast path relies on: a table represents a queue of entries with distinct
  keys; an entry is found under its key exactly while it is outstanding.
\<close>

locale transaction_table =
  fixes rep :: "'t \<Rightarrow> 'e list \<Rightarrow> bool"
    and key :: "'t \<Rightarrow> 'e \<Rightarrow> 'k"
    and find :: "'t \<Rightarrow> 'k \<Rightarrow> 'e option"
    and release :: "'t \<Rightarrow> 'e \<Rightarrow> 't"
  assumes rep_distinct: "rep t xs \<Longrightarrow> distinct xs"
    and find_key: "rep t xs \<Longrightarrow> find t k = Some e \<longleftrightarrow> e \<in> set xs \<and> key t e = k"
    and release_rep: "rep t xs \<Longrightarrow> rep (release t e) (remove1 e xs)"
    and release_key: "rep t xs \<Longrightarrow> e \<in> set xs \<Longrightarrow> f \<in> set xs \<Longrightarrow> f \<noteq> e \<Longrightarrow> key (release t e) f = key t f"
begin

lemma key_inj: "rep t xs \<Longrightarrow> e \<in> set xs \<Longrightarrow> f \<in> set xs \<Longrightarrow> key t e = key t f \<Longrightarrow> e = f"
  using find_key [of t xs "key t e" e] find_key [of t xs "key t e" f] by simp

lemma find_released:
  assumes r: "rep t xs" and e: "e \<in> set xs"
  shows "find (release t e) (key t e) = None"
proof (rule ccontr)
  assume "find (release t e) (key t e) \<noteq> None"
  then obtain f where f: "find (release t e) (key t e) = Some f" by blast
  with find_key [OF release_rep [OF r]] have mem: "f \<in> set (remove1 e xs)" and k: "key (release t e) f = key t e"
    by blast+
  have fe: "f \<noteq> e" "f \<in> set xs" using mem rep_distinct [OF r] by auto
  then have "key t f = key t e" using release_key [OF r e] k by simp
  with key_inj [OF r] fe e show False by blast
qed

lemma find_kept:
  assumes r: "rep t xs" and e: "e \<in> set xs" and f: "f \<in> set xs" "f \<noteq> e"
  shows "find (release t e) (key t f) = Some f"
proof -
  have "f \<in> set (remove1 e xs)" using f by (simp add: in_set_remove1)
  with find_key [OF release_rep [OF r]] release_key [OF r e f(1) f(2)] show ?thesis by blast
qed

end

definition tx_key :: "bpf2socks_dns_table \<Rightarrow> nat \<Rightarrow> u32 \<times> u16" where
  "tx_key t i = (tx_channel_index (dt_transactions t i), tx_rewritten_id (dt_transactions t i))"

lemma release_other_key:
  assumes "dns_rep t xs" "i \<in> set xs" "j \<in> set xs" "j \<noteq> i"
  shows "tx_key (bpf2socks_dns_table_release t i) j = tx_key t j"
proof -
  have i: "i < dt_capacity t" "tx_used (dt_transactions t i)" using assms by (auto simp: dns_rep_def used_ok_def)
  have "j \<in> set (remove1 i xs)" using assms by (simp add: in_set_remove1)
  then have "tx_offset (release_index t i False) j = tx_offset t j"
    using release_core(11) [OF assms(1,2)] by blast
  then have "tx_key (release_index t i False) j = tx_key t j"
    by (simp add: tx_offset_def tx_key_def lookup_offset_inj)
  then show ?thesis using i release_index_push [OF i]
    by (simp add: bpf2socks_dns_table_release_def push_free_def tx_key_def)
qed

interpretation dns_tab: transaction_table dns_rep tx_key "\<lambda>t (c, i). bpf2socks_dns_table_find t c i" bpf2socks_dns_table_release
  by unfold_locales
    (auto simp: dns_rep_distinct find_iff tx_key_def release_rep dest: release_other_key [unfolded tx_key_def])

section \<open>Reachable tables\<close>

inductive dns_step :: "bpf2socks_dns_table \<Rightarrow> bpf2socks_dns_table \<Rightarrow> bool" where
  alloc: "bpf2socks_dns_table_alloc t pref oid fp now = (r, t') \<Longrightarrow> dns_step t t'"
| release: "dns_step t (bpf2socks_dns_table_release t i)"
| note_response: "dns_step t (bpf2socks_dns_table_note_response t c)"
| expire: "bpf2socks_dns_table_expire t now tmo n sc st = (k, t', st') \<Longrightarrow> dns_step t t'"

inductive dns_reachable :: "u32 \<Rightarrow> nat \<Rightarrow> bpf2socks_dns_table \<Rightarrow> bool" for cc cap where
  init: "bpf2socks_dns_table_init mem cc cap = Inr t \<Longrightarrow> dns_reachable cc cap t"
| step: "dns_reachable cc cap t \<Longrightarrow> dns_step t t' \<Longrightarrow> dns_reachable cc cap t'"

lemma alloc_outcome:
  assumes rep: "dns_rep t xs" and cap: "0 < dt_capacity t"
    and r: "bpf2socks_dns_table_alloc t pref oid fp now = (r, t')"
  shows "\<exists>ys. dns_rep t' ys"
proof (cases "pref < dt_channel_count t")
  case True
  from alloc_rep [OF rep cap True r] show ?thesis by blast
next
  case False
  then have "dt_channel_count t \<le> pref" by simp
  with r rep show ?thesis by (auto simp: bpf2socks_dns_table_alloc_def)
qed

text \<open>No operation changes the sizes.\<close>

definition sizes :: "bpf2socks_dns_table \<Rightarrow> nat \<times> u32" where
  "sizes t = (dt_capacity t, dt_channel_count t)"

lemma same_but_links_sizes: "same_but_links t t' \<Longrightarrow> sizes t' = sizes t"
  by (simp add: same_but_links_def sizes_def)

lemma sizes_detach [simp]: "sizes (lru_detach t i) = sizes t"
  by (rule same_but_links_sizes [OF same_but_links_detach])

lemma sizes_attach [simp]: "sizes (lru_attach_tail t i) = sizes t"
  by (rule same_but_links_sizes [OF same_but_links_attach])

lemma sizes_upd [simp]:
  "sizes (t\<lparr>dt_transactions := x\<rparr>) = sizes t" "sizes (t\<lparr>dt_lookup := l\<rparr>) = sizes t"
  "sizes (t\<lparr>dt_next_ids := n\<rparr>) = sizes t" "sizes (t\<lparr>dt_free_count := k\<rparr>) = sizes t"
  "sizes (t\<lparr>dt_free_indices := f\<rparr>) = sizes t" "sizes (t\<lparr>dt_response_generations := g\<rparr>) = sizes t"
  by (simp_all add: sizes_def)

lemma sizes_push [simp]: "sizes (push_free t i) = sizes t"
  by (simp add: push_free_def)

lemma sizes_release_index [simp]: "sizes (release_index t i r) = sizes t"
  by (simp add: release_index_def Let_def)

lemma sizes_expire: "expire_loop n t now tmo sc st = (k, t', st') \<Longrightarrow> sizes t' = sizes t"
proof (induction n arbitrary: t st k)
  case (Suc n)
  show ?case
  proof (cases "dt_lru_head t")
    case None
    with Suc.prems show ?thesis by simp
  next
    case (Some i)
    show ?thesis
    proof (cases "expired_tx (dt_transactions t i) now tmo")
      case False
      with Suc.prems Some show ?thesis by (simp add: Let_def)
    next
      case True
      with Suc.prems Some obtain st2 k2 where "expire_loop n (release_index t i True) now tmo sc st2 = (k2, t', st')"
        by (auto simp: Let_def split: prod.splits)
      from Suc.IH [OF this] show ?thesis by simp
    qed
  qed
qed simp

lemma sizes_try: "try_channels t pref n a = Some (c, i, t') \<Longrightarrow> sizes t' = sizes t"
  by (induction n arbitrary: a)
    (auto simp: Let_def allocate_id_def split: option.splits prod.splits)

lemma sizes_take_slot: "take_slot t = Some (s, t') \<Longrightarrow> sizes t' = sizes t"
  by (auto simp: take_slot_def split: if_splits option.splits)

lemma sizes_alloc: "bpf2socks_dns_table_alloc t pref oid fp now = (r, t') \<Longrightarrow> sizes t' = sizes t"
  by (auto simp: bpf2socks_dns_table_alloc_def Let_def split: if_splits option.splits prod.splits
        dest!: sizes_try sizes_take_slot)

lemma sizes_step: "dns_step t t' \<Longrightarrow> sizes t' = sizes t"
proof (induction rule: dns_step.induct)
  case (alloc t pref oid fp now r t')
  then show ?case by (rule sizes_alloc)
next
  case (release t i)
  show ?case by (simp add: bpf2socks_dns_table_release_def)
next
  case (note_response t c)
  show ?case by (simp add: bpf2socks_dns_table_note_response_def)
next
  case (expire t now tmo n sc st k t' st')
  then show ?case unfolding bpf2socks_dns_table_expire_def by (rule sizes_expire)
qed

lemma step_rep:
  assumes "dns_step t t'" "dns_rep t xs" "0 < dt_capacity t"
  shows "\<exists>ys. dns_rep t' ys"
  using assms
proof (induction rule: dns_step.induct)
  case (alloc t pref oid fp now r t')
  then show ?case by (blast intro: alloc_outcome)
next
  case (release t i)
  then show ?case by (blast intro: release_rep)
next
  case (note_response t c)
  then show ?case by (blast intro: note_response_rep)
next
  case (expire t now tmo n sc st k t' st')
  then show ?case unfolding bpf2socks_dns_table_expire_def by (blast dest: expire_rep)
qed

lemma reachable_rep:
  "dns_reachable cc cap t \<Longrightarrow> cap < 2 ^ 31 \<Longrightarrow> (\<exists>xs. dns_rep t xs) \<and> sizes t = (cap, cc) \<and> 0 < cap \<and> cc \<noteq> 0"
proof (induction rule: dns_reachable.induct)
  case (init mem t)
  then have "sizes t = (cap, cc) \<and> 0 < cap \<and> cc \<noteq> 0"
    by (auto simp: bpf2socks_dns_table_init_def sizes_def split: if_splits)
  with init_rep [OF init] show ?case by blast
next
  case (step t t')
  then obtain xs where r: "dns_rep t xs" and s: "sizes t = (cap, cc)" "0 < cap" "cc \<noteq> 0" by blast
  then have "0 < dt_capacity t" by (simp add: sizes_def)
  with step_rep [OF step.hyps(2) r] sizes_step [OF step.hyps(2)] s show ?case by simp
qed

section \<open>Properties\<close>

lemma keep_on_alloc_length:
  "dns_rep t xs \<Longrightarrow> keep_on_alloc t xs = (if length xs < dt_capacity t then xs else tl xs)"
  by (auto simp: keep_on_alloc_def dns_rep_def free_ok_def)

text \<open>
  C12. In every table reachable from initialisation with at most 65536 slots, an allocation on
  an existing channel succeeds. It appends exactly one new transaction to the queue of
  outstanding ones, evicting the oldest if and only if the table was full; the new
  transaction is on the requested channel, records the caller's id, fingerprint and time and
  the channel's response generation, and is the one found under its rewritten id.
\<close>

theorem dns_alloc_refines_bounded_queue:
  assumes "dns_reachable cc cap t" "cap \<le> 65536" "pref < cc"
  shows "\<exists>xs slot t' tx. dns_rep t xs \<and>
     bpf2socks_dns_table_alloc t pref oid fp now = (Inr slot, t') \<and>
     dns_rep t' ((if length xs < cap then xs else tl xs) @ [slot]) \<and>
     tx = dt_transactions t' slot \<and>
     tx_channel_index tx = pref \<and> tx_original_id tx = oid \<and> tx_question_fingerprint tx = fp \<and>
     tx_sent_at_ms tx = now \<and> tx_response_generation tx = dt_response_generations t pref \<and>
     bpf2socks_dns_table_find t' pref (tx_rewritten_id tx) = Some slot"
proof -
  have "cap < 2 ^ 31" using assms(2) by simp
  then obtain xs where rep: "dns_rep t xs" and s: "dt_capacity t = cap" "dt_channel_count t = cc" "0 < cap"
    using reachable_rep [OF assms(1)] by (auto simp: sizes_def)
  obtain slot t' where al: "bpf2socks_dns_table_alloc t pref oid fp now = (Inr slot, t')"
    and r': "dns_rep t' (keep_on_alloc t xs @ [slot])"
    and tx: "tx_channel_index (dt_transactions t' slot) = pref" "tx_original_id (dt_transactions t' slot) = oid"
      "tx_question_fingerprint (dt_transactions t' slot) = fp" "tx_sent_at_ms (dt_transactions t' slot) = now"
      "tx_response_generation (dt_transactions t' slot) = dt_response_generations t pref"
    by (rule alloc_succeeds [OF rep, of pref oid fp now]) (use s assms in auto)
  have "bpf2socks_dns_table_find t' pref (tx_rewritten_id (dt_transactions t' slot)) = Some slot"
    using find_iff [OF r'] tx(1) by simp
  with rep al r' tx s keep_on_alloc_length [OF rep] show ?thesis by auto
qed

abbreviation (input) dns_demo :: bpf2socks_dns_table where
  "dns_demo \<equiv> projr (bpf2socks_dns_table_init True 2 2)"

lemma dns_demo_reachable: "dns_reachable 2 2 dns_demo"
  by (rule dns_reachable.init [where mem = True]) (simp add: bpf2socks_dns_table_init_def)

lemma dns_demo_full_rep:
  "\<exists>a t. bpf2socks_dns_table_alloc dns_demo 1 7 9 100 = (Inr a, t) \<and> dns_rep t [a] \<and>
      tx_sent_at_ms (dt_transactions t a) = 100"
proof -
  have rep: "dns_rep dns_demo []"
    by (rule init_rep [where mem = True and cc = 2 and cap = 2]) (simp_all add: bpf2socks_dns_table_init_def)
  obtain a t where "bpf2socks_dns_table_alloc dns_demo 1 7 9 100 = (Inr a, t)" "dns_rep t (keep_on_alloc dns_demo [] @ [a])"
    "tx_sent_at_ms (dt_transactions t a) = 100"
    by (rule alloc_succeeds [OF rep, of 1 7 9 100]) (auto simp: bpf2socks_dns_table_init_def)
  moreover have "keep_on_alloc dns_demo [] = []" by (simp add: keep_on_alloc_def)
  ultimately show ?thesis by (metis append_Nil)
qed

theorem dns_alloc_refines_bounded_queue_witness:
  "dns_reachable 2 2 dns_demo \<and> (\<exists>slot t'. bpf2socks_dns_table_alloc dns_demo 1 7 9 100 = (Inr slot, t'))"
proof
  show r: "dns_reachable 2 2 dns_demo" by (rule dns_demo_reachable)
  show "\<exists>slot t'. bpf2socks_dns_table_alloc dns_demo 1 7 9 100 = (Inr slot, t')"
    using dns_alloc_refines_bounded_queue [OF r, of 1 7 9 100] by auto
qed

text \<open>
  C13. A lookup by channel and rewritten id returns a slot exactly when that slot holds an
  outstanding transaction with that channel and id; so a reply is never delivered to a
  finished transaction or to one of another channel.
\<close>

theorem dns_find_exact:
  assumes "dns_reachable cc cap t" "cap < 2 ^ 31"
  shows "\<exists>xs. dns_rep t xs \<and> (\<forall>c i k. bpf2socks_dns_table_find t c i = Some k \<longleftrightarrow>
     k \<in> set xs \<and> tx_channel_index (dt_transactions t k) = c \<and> tx_rewritten_id (dt_transactions t k) = i)"
  using reachable_rep [OF assms] find_iff by blast

theorem dns_find_exact_witness:
  "dns_reachable 2 2 dns_demo \<and> (2::nat) < 2 ^ 31 \<and> (\<exists>xs. dns_rep dns_demo xs)"
proof -
  have "(2::nat) < 2 ^ 31" by simp
  with dns_find_exact [OF dns_demo_reachable this] dns_demo_reachable show ?thesis by blast
qed

text \<open>
  Releasing an outstanding transaction makes its id unknown and leaves every other
  outstanding transaction reachable under its own id.
\<close>

theorem dns_release_isolated:
  assumes "dns_rep t xs" "e \<in> set xs" "f \<in> set xs" "f \<noteq> e"
  shows "bpf2socks_dns_table_find (bpf2socks_dns_table_release t e) (fst (tx_key t e)) (snd (tx_key t e)) = None \<and>
         bpf2socks_dns_table_find (bpf2socks_dns_table_release t e) (fst (tx_key t f)) (snd (tx_key t f)) = Some f \<and>
         dns_rep (bpf2socks_dns_table_release t e) (remove1 e xs)"
  using dns_tab.find_released [OF assms(1,2)] dns_tab.find_kept [OF assms] release_rep [OF assms(1)]
  by (simp add: case_prod_beta)

theorem dns_release_isolated_witness:
  "\<exists>t e f. f \<noteq> e \<and> dns_rep t [e, f] \<and>
     bpf2socks_dns_table_find (bpf2socks_dns_table_release t e) (fst (tx_key t f)) (snd (tx_key t f)) = Some f"
proof -
  obtain a t where t: "dns_rep t [a]" and al: "bpf2socks_dns_table_alloc dns_demo 1 7 9 100 = (Inr a, t)"
    using dns_demo_full_rep by blast
  have "sizes t = (2, 2)" using sizes_alloc [OF al] by (simp add: sizes_def bpf2socks_dns_table_init_def)
  then have s: "dt_capacity t = 2" "dt_channel_count t = 2" by (simp_all add: sizes_def)
  obtain b u where b: "dns_rep u (keep_on_alloc t [a] @ [b])"
    by (rule alloc_succeeds [OF t, of 0 1 2 3]) (use s in auto)
  have rep: "dns_rep u [a, b]" using b keep_on_alloc_length [OF t] s by simp
  then have "b \<noteq> a" using dns_rep_distinct by fastforce
  with dns_release_isolated [OF rep, of a b] rep show ?thesis by auto
qed

text \<open>
  Expiry removes exactly the longest prefix of the queue, oldest first, whose
  transactions are at least the timeout old, but at most \<open>max_expire\<close> of them, and reports
  how many it removed; what remains is the rest of the queue in its order.
\<close>

theorem dns_expire_oldest_first:
  assumes "dns_rep t xs" "bpf2socks_dns_table_expire t now tmo n sc st = (k, t', st')"
  shows "k = length (takeWhile (tx_expired t now tmo) (take n xs)) \<and> dns_rep t' (drop k xs)"
  using expire_rep [OF assms [unfolded bpf2socks_dns_table_expire_def]] .

theorem dns_expire_oldest_first_witness:
  "\<exists>t a t' st'. dns_rep t [a] \<and> bpf2socks_dns_table_expire t 200 50 64 2 (\<lambda>_. False) = (1, t', st') \<and> dns_rep t' []"
proof -
  obtain a t where t: "dns_rep t [a]" and sent: "tx_sent_at_ms (dt_transactions t a) = 100"
    using dns_demo_full_rep by blast
  have "tx_used (dt_transactions t a)" using t by (auto simp: dns_rep_def used_ok_def)
  then have e: "tx_expired t 200 50 a" using sent by (simp add: tx_expired_def expired_tx_def)
  obtain k t' st' where x: "bpf2socks_dns_table_expire t 200 50 64 2 (\<lambda>_. False) = (k, t', st')" by (metis prod_cases3)
  with dns_expire_oldest_first [OF t x] e t show ?thesis by auto
qed

end
