(* ===== verification/Socks5.thy ===== *)
theory Socks5
  imports B2S_Prelude
begin

text \<open>
  \<open>bridge/socks5.c\<close>: the SOCKS5 encodings. Builders return the bytes they write to the start
  of the output buffer (the C return value is their number, and 0 on failure); parsers read a
  byte list whose length is the C parameter \<open>len\<close>. \<open>getaddrinfo\<close> is the parameter
  \<open>resolve\<close>; the datagram system calls are represented by what they send and receive.
\<close>

section \<open>Model\<close>

datatype 'a progress = Done 'a | Fail | More

definition bpf2socks_socks5_write_addr :: "nat \<Rightarrow> bpf2socks_sockaddr \<Rightarrow> errno + bytes" where
  "bpf2socks_socks5_write_addr out_cap addr =
     (let addr_len = (if sa_family addr = AF_INET then 4 else if sa_family addr = AF_INET6 then 16 else 0)
      in if addr_len = 0 then Inl EAFNOSUPPORT
         else if out_cap < 1 + addr_len + 2 then Inl ENOBUFS
         else Inr ([if sa_family addr = AF_INET then 0x01 else 0x04] @ take addr_len (sa_addr addr) @
                   [hi8 (sa_port addr), lo8 (sa_port addr)]))"

text \<open>\<open>Done n\<close> is the total length \<open>n\<close>, \<open>More\<close> is 0 and \<open>Fail\<close> is \<open>SIZE_MAX\<close>.\<close>

definition bpf2socks_socks5_reply_length :: "bytes \<Rightarrow> nat progress" where
  "bpf2socks_socks5_reply_length reply =
     (let len = length reply in
      if len \<ge> 2 \<and> (reply ! 0 \<noteq> 0x05 \<or> reply ! 1 \<noteq> 0x00) then Fail
      else if len < 4 then More
      else if reply ! 3 = 0x01 then Done (4 + 4 + 2)
      else if reply ! 3 = 0x04 then Done (4 + 16 + 2)
      else if reply ! 3 = 0x03 then (if len < 5 then More else Done (4 + 1 + unat (reply ! 4) + 2))
      else Fail)"

definition bpf2socks_socks5_build_hello :: "nat \<Rightarrow> bytes" where
  "bpf2socks_socks5_build_hello out_cap = (if out_cap < 3 then [] else [0x05, 0x01, 0x00])"

definition bpf2socks_socks5_parse_hello_reply :: "bytes \<Rightarrow> unit progress" where
  "bpf2socks_socks5_parse_hello_reply reply =
     (if length reply < 2 then More
      else if reply ! 0 \<noteq> 0x05 \<or> reply ! 1 \<noteq> 0x00 then Fail
      else Done ())"

definition bpf2socks_socks5_build_udp_associate_request :: "nat \<Rightarrow> bytes" where
  "bpf2socks_socks5_build_udp_associate_request out_cap =
     (if out_cap < 4 + 16 + 2 then []
      else (case bpf2socks_socks5_write_addr (out_cap - 3)
                   \<lparr>sa_family = AF_INET, sa_port = 0, sa_addr = zero_bytes 16\<rparr> of
              Inl _ \<Rightarrow> []
            | Inr a \<Rightarrow> [0x05, 0x03, 0x00] @ a))"

definition bpf2socks_socks5_build_connect_request :: "nat \<Rightarrow> bpf2socks_sockaddr \<Rightarrow> errno + bytes" where
  "bpf2socks_socks5_build_connect_request out_cap dst =
     (if out_cap < 3 then Inl EINVAL
      else (case bpf2socks_socks5_write_addr (out_cap - 3) dst of
              Inl e \<Rightarrow> Inl e
            | Inr a \<Rightarrow> Inr ([0x05, 0x01, 0x00] @ a)))"

text \<open>
  \<open>resolve host port\<close> is the first result of \<open>getaddrinfo\<close> with its length, if it succeeds;
  128 is \<open>sizeof(struct sockaddr_storage)\<close>. The result carries the bound address and the
  number of bytes consumed.
\<close>

definition bpf2socks_socks5_parse_bound_addr ::
  "(bytes \<Rightarrow> u16 \<Rightarrow> (sockaddr_storage \<times> nat) option) \<Rightarrow> bytes \<Rightarrow> (sockaddr_storage \<times> nat) progress" where
  "bpf2socks_socks5_parse_bound_addr resolve buf =
     (let len = length buf in
      if len < 4 then More
      else if buf ! 0 \<noteq> 0x05 \<or> buf ! 1 \<noteq> 0x00 then Fail
      else if buf ! 3 = 0x01 then
        (if len < 4 + 4 + 2 then More
         else Done (\<lparr>ss_family = AF_INET, ss_port = be16 (buf ! 8) (buf ! 9), ss_addr = take 4 (drop 4 buf)\<rparr>, 4 + 4 + 2))
      else if buf ! 3 = 0x04 then
        (if len < 4 + 16 + 2 then More
         else Done (\<lparr>ss_family = AF_INET6, ss_port = be16 (buf ! 20) (buf ! 21), ss_addr = take 16 (drop 4 buf)\<rparr>, 4 + 16 + 2))
      else if buf ! 3 = 0x03 then
        (if len < 4 + 1 then More
         else let n = unat (buf ! 4) in
           if n = 0 then Fail
           else if len < 4 + 1 + n + 2 then More
           else (case resolve (take n (drop 5 buf)) (be16 (buf ! (5 + n)) (buf ! (6 + n))) of
                   None \<Rightarrow> Fail
                 | Some (bound, alen) \<Rightarrow> if alen > 128 then Fail else Done (bound, 4 + 1 + n + 2)))
      else Fail)"

definition is_unspecified :: "bytes \<Rightarrow> bool" where
  "is_unspecified a \<longleftrightarrow> (\<forall>b\<in>set a. b = 0)"

definition bpf2socks_socks5_replace_unspecified_relay ::
  "sockaddr_storage \<Rightarrow> sockaddr_storage \<Rightarrow> sockaddr_storage" where
  "bpf2socks_socks5_replace_unspecified_relay socks relay =
     (if ss_family relay = AF_INET then
        (if \<not> is_unspecified (ss_addr relay) then relay
         else if ss_family socks \<noteq> AF_INET then relay
         else relay\<lparr>ss_addr := ss_addr socks\<rparr>)
      else if ss_family relay = AF_INET6 then
        (if \<not> is_unspecified (ss_addr relay) then relay
         else if ss_family socks \<noteq> AF_INET6 then relay
         else relay\<lparr>ss_addr := ss_addr socks\<rparr>)
      else relay)"

record bpf2socks_udp_msg =
  um_addr :: bpf2socks_sockaddr
  um_payload :: bytes

definition HEADER_CAP :: nat where
  "HEADER_CAP = 22"

text \<open>The datagram that one entry of \<open>sendmmsg\<close> puts on the wire: header and payload.\<close>

definition socks5_udp_datagram :: "bpf2socks_udp_msg \<Rightarrow> errno + bytes" where
  "socks5_udp_datagram m =
     (case bpf2socks_socks5_write_addr (HEADER_CAP - 3) (um_addr m) of
        Inl _ \<Rightarrow> Inl EAFNOSUPPORT
      | Inr a \<Rightarrow> Inr ([0x00, 0x00, 0x00] @ a @ um_payload m))"

text \<open>The vector handed to \<open>sendmmsg\<close>: a message that cannot be encoded fails the whole call.\<close>

fun bpf2socks_socks5_udp_sendmmsg :: "bpf2socks_udp_msg list \<Rightarrow> errno + bytes list" where
  "bpf2socks_socks5_udp_sendmmsg [] = Inr []"
| "bpf2socks_socks5_udp_sendmmsg (m # ms) =
     (case socks5_udp_datagram m of
        Inl e \<Rightarrow> Inl e
      | Inr d \<Rightarrow> (case bpf2socks_socks5_udp_sendmmsg ms of Inl e \<Rightarrow> Inl e | Inr ds \<Rightarrow> Inr (d # ds)))"

text \<open>The address array of the message was cleared before, so a shorter address is padded with zeros.\<close>

definition parse_socks5_udp_datagram :: "bytes \<Rightarrow> errno + bpf2socks_udp_msg" where
  "parse_socks5_udp_datagram packet =
     (let len = length packet in
      if len < 4 \<or> packet ! 0 \<noteq> 0 \<or> packet ! 1 \<noteq> 0 \<or> packet ! 2 \<noteq> 0 then Inl EPROTO
      else
        let finish = (\<lambda>family addr pos. Inr \<lparr>um_addr = \<lparr>sa_family = family, sa_port = be16 (packet ! pos) (packet ! (pos + 1)),
                                               sa_addr = addr\<rparr>, um_payload = drop (pos + 2) packet\<rparr>)
        in if packet ! 3 = 0x01 then
             (if len < 3 + 1 + 4 + 2 then Inl EPROTO
              else finish AF_INET (copy_prefix 4 (drop 4 packet) (zero_bytes 16)) 8)
           else if packet ! 3 = 0x04 then
             (if len < 3 + 1 + 16 + 2 then Inl EPROTO
              else finish AF_INET6 (copy_prefix 16 (drop 4 packet) (zero_bytes 16)) 20)
           else if packet ! 3 = 0x03 then
             (if len < 4 + 1 \<or> len < 4 + 1 + unat (packet ! 4) + 2 then Inl EPROTO
              else finish AF_UNSPEC (zero_bytes 16) (4 + 1 + unat (packet ! 4)))
           else Inl EAFNOSUPPORT)"

text \<open>
  \<open>recvmmsg\<close> reports, for every datagram it dequeued, whether it was truncated and its
  bytes; \<open>msg_len\<close> is their number. One result per datagram.
\<close>

definition bpf2socks_socks5_udp_recvmmsg ::
  "nat \<Rightarrow> (bool \<times> bytes) list \<Rightarrow> errno + (errno + bpf2socks_udp_msg) list" where
  "bpf2socks_socks5_udp_recvmmsg packet_stride received =
     (if packet_stride \<le> HEADER_CAP then Inl EINVAL
      else Inr (map (\<lambda>(truncated, packet).
             if truncated \<or> length packet > packet_stride then Inl EMSGSIZE
             else parse_socks5_udp_datagram packet) received))"

section \<open>Encoding an address\<close>

definition ip_sockaddr :: "bpf2socks_sockaddr \<Rightarrow> bool" where
  "ip_sockaddr a \<longleftrightarrow> (sa_family a = AF_INET \<or> sa_family a = AF_INET6) \<and> length (sa_addr a) = 16"

text \<open>What an address encoding keeps of an address: the bytes beyond its family's are cleared.\<close>

definition canonical :: "bpf2socks_sockaddr \<Rightarrow> bpf2socks_sockaddr" where
  "canonical a = a\<lparr>sa_addr := (if sa_family a = AF_INET then copy_prefix 4 (sa_addr a) (zero_bytes 16) else sa_addr a)\<rparr>"

definition addr_len_of :: "bpf2socks_sockaddr \<Rightarrow> nat" where
  "addr_len_of a = (if sa_family a = AF_INET then 4 else 16)"

lemma write_addr_ip:
  assumes "ip_sockaddr a" "1 + addr_len_of a + 2 \<le> cap"
  shows "bpf2socks_socks5_write_addr cap a =
    Inr ([if sa_family a = AF_INET then 1 else 4] @ take (addr_len_of a) (sa_addr a) @ [hi8 (sa_port a), lo8 (sa_port a)])"
  using assms by (auto simp: bpf2socks_socks5_write_addr_def ip_sockaddr_def addr_len_of_def Let_def)

lemma write_addr_cases:
  "bpf2socks_socks5_write_addr cap a = Inr bs \<Longrightarrow>
     (sa_family a = AF_INET \<or> sa_family a = AF_INET6) \<and> 1 + addr_len_of a + 2 \<le> cap"
  by (auto simp: bpf2socks_socks5_write_addr_def addr_len_of_def Let_def split: if_splits)

lemma write_addr_length:
  "bpf2socks_socks5_write_addr cap a = Inr bs \<Longrightarrow> length (sa_addr a) = 16 \<Longrightarrow> length bs = 3 + addr_len_of a"
  by (auto simp: bpf2socks_socks5_write_addr_def addr_len_of_def Let_def split: if_splits)

section \<open>Properties\<close>

text \<open>
  C27. Every IP address is encodable, and parsing the UDP datagram that \<open>sendmmsg\<close> sends for a
  message gives back the message's destination family, port and address (IPv4 padded with
  zeros) and its payload unchanged.
\<close>

theorem socks5_udp_roundtrip:
  assumes "ip_sockaddr (um_addr m)"
  shows "\<exists>d. socks5_udp_datagram m = Inr d \<and>
           parse_socks5_udp_datagram d = Inr \<lparr>um_addr = canonical (um_addr m), um_payload = um_payload m\<rparr>"
proof -
  let ?a = "um_addr m"
  have len16: "length (sa_addr ?a) = 16" and fam: "sa_family ?a = 2 \<or> sa_family ?a = 10"
    using assms by (auto simp: ip_sockaddr_def)
  have w: "bpf2socks_socks5_write_addr (HEADER_CAP - 3) ?a =
      Inr ([if sa_family ?a = AF_INET then 1 else 4] @ take (addr_len_of ?a) (sa_addr ?a) @ [hi8 (sa_port ?a), lo8 (sa_port ?a)])"
    by (rule write_addr_ip [OF assms]) (simp add: HEADER_CAP_def addr_len_of_def)
  define d where "d = [0, 0, 0] @ ([if sa_family ?a = AF_INET then 1 else 4] @ take (addr_len_of ?a) (sa_addr ?a) @
      [hi8 (sa_port ?a), lo8 (sa_port ?a)]) @ um_payload m"
  have dg: "socks5_udp_datagram m = Inr d" using w by (simp add: socks5_udp_datagram_def d_def)
  from fam have "parse_socks5_udp_datagram d = Inr \<lparr>um_addr = canonical ?a, um_payload = um_payload m\<rparr>"
  proof
    assume f: "sa_family ?a = 2"
    then have d: "d = [0, 0, 0, 1] @ take 4 (sa_addr ?a) @ [hi8 (sa_port ?a), lo8 (sa_port ?a)] @ um_payload m"
      by (simp add: d_def addr_len_of_def)
    have nth: "d ! 3 = 1" "d ! 8 = hi8 (sa_port ?a)" "d ! 9 = lo8 (sa_port ?a)" "10 \<le> length d" "d ! 0 = 0" "d ! 1 = 0" "d ! 2 = 0"
      using len16 by (simp_all add: d nth_append numeral_2_eq_2 numeral_3_eq_3)
    moreover have "drop 4 d = take 4 (sa_addr ?a) @ [hi8 (sa_port ?a), lo8 (sa_port ?a)] @ um_payload m" by (simp add: d)
    moreover have "drop 10 d = um_payload m" using len16 by (simp add: d)
    ultimately show ?thesis using f len16
      by (simp add: parse_socks5_udp_datagram_def Let_def canonical_def copy_prefix_def)
  next
    assume f: "sa_family ?a = 10"
    then have d: "d = [0, 0, 0, 4] @ sa_addr ?a @ [hi8 (sa_port ?a), lo8 (sa_port ?a)] @ um_payload m"
      using len16 by (simp add: d_def addr_len_of_def)
    have nth: "d ! 3 = 4" "d ! 20 = hi8 (sa_port ?a)" "d ! 21 = lo8 (sa_port ?a)" "22 \<le> length d" "d ! 0 = 0" "d ! 1 = 0" "d ! 2 = 0"
      using len16 by (simp_all add: d nth_append numeral_2_eq_2 numeral_3_eq_3)
    moreover have "take 16 (drop 4 d) = sa_addr ?a" using len16 by (simp add: d)
    moreover have "drop 22 d = um_payload m" using len16 by (simp add: d)
    ultimately show ?thesis using f len16
      by (simp add: parse_socks5_udp_datagram_def Let_def canonical_def copy_prefix_def zero_bytes_def)
  qed
  with dg show ?thesis by blast
qed

abbreviation (input) demo_dst :: bpf2socks_sockaddr where
  "demo_dst \<equiv> \<lparr>sa_family = 2, sa_port = 443, sa_addr = [10, 0, 0, 1] @ zero_bytes 12\<rparr>"

theorem socks5_udp_roundtrip_witness:
  "ip_sockaddr demo_dst \<and>
   (\<exists>d. socks5_udp_datagram \<lparr>um_addr = demo_dst, um_payload = [1, 2, 3]\<rparr> = Inr d \<and>
        parse_socks5_udp_datagram d = Inr \<lparr>um_addr = demo_dst, um_payload = [1, 2, 3]\<rparr>)"
proof -
  have ip: "ip_sockaddr demo_dst" by (simp add: ip_sockaddr_def)
  moreover have "canonical demo_dst = demo_dst" by (simp add: canonical_def copy_prefix_def zero_bytes_def numeral_eq_Suc)
  ultimately show ?thesis
    using socks5_udp_roundtrip [of "\<lparr>um_addr = demo_dst, um_payload = [1, 2, 3]\<rparr>"] by simp
qed

text \<open>
  The two independent readers of a SOCKS5 reply agree: once four bytes are there, the
  address parser accepts only what the length computation accepts, asks for more exactly while
  fewer bytes than the computed length are there, and consumes exactly that length; beyond it
  the parser reads nothing.
\<close>

theorem socks5_reply_readers_agree:
  assumes "4 \<le> length buf"
  shows "case bpf2socks_socks5_reply_length buf of
      Done n \<Rightarrow>
        (if length buf < n then bpf2socks_socks5_parse_bound_addr resolve buf = More \<or>
             (n = 7 \<and> bpf2socks_socks5_parse_bound_addr resolve buf = Fail)
         else bpf2socks_socks5_parse_bound_addr resolve buf = Fail \<or>
             (\<exists>b. bpf2socks_socks5_parse_bound_addr resolve buf = Done (b, n)))
    | More \<Rightarrow> bpf2socks_socks5_parse_bound_addr resolve buf = More
    | Fail \<Rightarrow> bpf2socks_socks5_parse_bound_addr resolve buf = Fail"
  using assms
  by (auto simp: bpf2socks_socks5_reply_length_def bpf2socks_socks5_parse_bound_addr_def Let_def
      split: option.splits prod.splits if_splits)

theorem socks5_reply_readers_agree_witness:
  "4 \<le> length [5, 0, 0, 1, 10, 0, 0, 1, 1, (187 :: u8)] \<and>
   bpf2socks_socks5_parse_bound_addr (\<lambda>_ _. None) [5, 0, 0, 1, 10, 0, 0, 1, 1, 187] \<noteq> More"
proof -
  let ?b = "[5, 0, 0, 1, 10, 0, 0, 1, 1, 187] :: bytes"
  have r: "bpf2socks_socks5_reply_length ?b = Done 10" by (simp add: bpf2socks_socks5_reply_length_def)
  have "4 \<le> length ?b" by simp
  from socks5_reply_readers_agree [OF this, of "\<lambda>_ _. None"] r show ?thesis by auto
qed



end
