(* ===== verification/Udp_Budget.thy ===== *)
theory Udp_Budget
  imports B2S_Prelude
begin

text \<open>
  The shared budgets: \<open>bridge/udp_budget.c\<close> (bytes of queued UDP datagrams) and the TCP session
  budget of \<open>bridge/tcp.c\<close> (\<open>reserve_tcp_session\<close>, \<open>release_tcp_session_budget\<close>). Both are
  atomics that every worker updates by compare-and-swap loops. \<open>size_t\<close> is \<open>'a word\<close> for any
  width \<open>'a\<close>, so that the results hold on the 32-bit and 64-bit ABIs. Each C function is given
  first as its uncontended run, then as the steps of its loop in an interleaving of any number
  of workers.
\<close>

section \<open>Model: the uncontended operations\<close>

record 'w bpf2socks_udp_budget =
  ub_cap_bytes :: 'w
  ub_used_bytes :: 'w
  ub_peak_bytes :: 'w
  ub_waiting_workers :: u32
  ub_wake_fds :: "nat \<Rightarrow> int"

definition MAX_WORKER_COUNT :: nat where
  "MAX_WORKER_COUNT = 8"

definition bpf2socks_udp_budget_init :: "'a::len word \<Rightarrow> 'a word bpf2socks_udp_budget" where
  "bpf2socks_udp_budget_init cap = \<lparr>ub_cap_bytes = cap, ub_used_bytes = 0, ub_peak_bytes = 0,
     ub_waiting_workers = 0, ub_wake_fds = (\<lambda>_. -1)\<rparr>"

definition bpf2socks_udp_budget_set_wake_fd ::
  "'w bpf2socks_udp_budget \<Rightarrow> u32 \<Rightarrow> int \<Rightarrow> 'w bpf2socks_udp_budget" where
  "bpf2socks_udp_budget_set_wake_fd b w fd =
     (if unat w \<ge> MAX_WORKER_COUNT then b else b\<lparr>ub_wake_fds := (ub_wake_fds b)(unat w := fd)\<rparr>)"

definition bpf2socks_udp_budget_wait :: "'w bpf2socks_udp_budget \<Rightarrow> u32 \<Rightarrow> 'w bpf2socks_udp_budget" where
  "bpf2socks_udp_budget_wait b w =
     (if unat w \<ge> MAX_WORKER_COUNT then b
      else b\<lparr>ub_waiting_workers := ub_waiting_workers b OR push_bit (unat w) 1\<rparr>)"

text \<open>The loop over the exchanged waiter set: the descriptors written, in order.\<close>

fun wake_loop :: "nat \<Rightarrow> nat \<Rightarrow> u32 \<Rightarrow> (nat \<Rightarrow> int) \<Rightarrow> int list" where
  "wake_loop 0 i waiters fds = []"
| "wake_loop (Suc n) i waiters fds =
     (if waiters = 0 then []
      else if waiters AND push_bit i 1 = 0 then wake_loop n (Suc i) waiters fds
      else let waiters' = waiters AND NOT (push_bit i 1) in
        if fds i < 0 then wake_loop n (Suc i) waiters' fds
        else fds i # wake_loop n (Suc i) waiters' fds)"

definition wake_pending_budget_waiters :: "'w bpf2socks_udp_budget \<Rightarrow> int list \<times> 'w bpf2socks_udp_budget" where
  "wake_pending_budget_waiters b =
     (if ub_waiting_workers b = 0 then ([], b)
      else (wake_loop MAX_WORKER_COUNT 0 (ub_waiting_workers b) (ub_wake_fds b), b\<lparr>ub_waiting_workers := 0\<rparr>))"

definition update_pending_budget_peak :: "'a::len word bpf2socks_udp_budget \<Rightarrow> 'a word \<Rightarrow> 'a word bpf2socks_udp_budget" where
  "update_pending_budget_peak b used = (if ub_peak_bytes b < used then b\<lparr>ub_peak_bytes := used\<rparr> else b)"

text \<open>The guard at the head of the reservation loop, with C's short-circuit evaluation.\<close>

definition reserve_fits :: "'a::len word \<Rightarrow> 'a word \<Rightarrow> 'a word \<Rightarrow> bool" where
  "reserve_fits cap used n = (if n > cap then False else \<not> used > cap - n)"

definition bpf2socks_udp_budget_reserve ::
  "'a::len word bpf2socks_udp_budget \<Rightarrow> 'a word \<Rightarrow> (errno + unit) \<times> 'a word bpf2socks_udp_budget" where
  "bpf2socks_udp_budget_reserve b n =
     (if \<not> reserve_fits (ub_cap_bytes b) (ub_used_bytes b) n then (Inl ENOBUFS, b)
      else (Inr (), update_pending_budget_peak (b\<lparr>ub_used_bytes := ub_used_bytes b + n\<rparr>) (ub_used_bytes b + n)))"

definition bpf2socks_udp_budget_release ::
  "'a::len word bpf2socks_udp_budget \<Rightarrow> 'a word \<Rightarrow> (errno + int list) \<times> 'a word bpf2socks_udp_budget" where
  "bpf2socks_udp_budget_release b n =
     (if n > ub_used_bytes b then (Inl ERANGE, b)
      else (case wake_pending_budget_waiters (b\<lparr>ub_used_bytes := ub_used_bytes b - n\<rparr>) of
              (woken, b') \<Rightarrow> (Inr woken, b')))"

text \<open>The TCP session budget: one unit per accepted connection.\<close>

record 'w bpf2socks_tcp_budget =
  tb_used :: 'w
  tb_cap :: 'w

definition session_fits :: "'a::len word \<Rightarrow> 'a word \<Rightarrow> 'a word \<Rightarrow> bool" where
  "session_fits cap used n \<longleftrightarrow> n = 1 \<and> used < cap"

definition reserve_tcp_session :: "'a::len word bpf2socks_tcp_budget \<Rightarrow> bool \<times> 'a word bpf2socks_tcp_budget" where
  "reserve_tcp_session b =
     (if session_fits (tb_cap b) (tb_used b) 1 then (True, b\<lparr>tb_used := tb_used b + 1\<rparr>) else (False, b))"

definition release_tcp_session_budget :: "'a::len word bpf2socks_tcp_budget \<Rightarrow> 'a word bpf2socks_tcp_budget" where
  "release_tcp_session_budget b = b\<lparr>tb_used := tb_used b - 1\<rparr>"


section \<open>Model: interleaved compare-and-swap loops\<close>

text \<open>
  A worker is between operations, in a loop holding the amount and the value of the counter it
  last observed, or past the decrement of a release and about to wake the waiters (\<open>Waking\<close>
  before the load, \<open>Exchanging\<close> between the load and the exchange). A weak compare-and-swap may
  fail although the values agree; in either case the loop goes round with a fresh value. The
  peak statistic has no effect on the budget and is left out here.
\<close>

datatype 'w budget_pc = Idle | Reserving 'w 'w | Releasing 'w 'w | Waking | Exchanging

text \<open>
  The last five fields are history: what completed operations added and removed, how many
  decrements there were, the number of decrements at the last registration of each worker, and
  the workers whose descriptor was written since.
\<close>

record 'w udp_budget_sys =
  us_cap :: 'w
  us_used :: 'w
  us_waiting :: u32
  us_pc :: "nat \<Rightarrow> 'w budget_pc"
  us_reserved :: nat
  us_released :: nat
  us_version :: nat
  us_seen :: "nat \<rightharpoonup> nat"
  us_posted :: "nat set"

definition udp_budget_start :: "'a::len word \<Rightarrow> 'a word udp_budget_sys" where
  "udp_budget_start cap = \<lparr>us_cap = cap, us_used = 0, us_waiting = 0, us_pc = (\<lambda>_. Idle), us_reserved = 0,
     us_released = 0, us_version = 0, us_seen = Map.empty, us_posted = {}\<rparr>"

definition goto_pc :: "nat \<Rightarrow> 'w budget_pc \<Rightarrow> 'w udp_budget_sys \<Rightarrow> 'w udp_budget_sys" where
  "goto_pc w pc s = s\<lparr>us_pc := (us_pc s)(w := pc)\<rparr>"

inductive budget_step :: "'a::len word udp_budget_sys \<Rightarrow> 'a word udp_budget_sys \<Rightarrow> bool" where
  reserve_load: "us_pc s w = Idle \<Longrightarrow> budget_step s (goto_pc w (Reserving n (us_used s)) s)"
| reserve_reject: "us_pc s w = Reserving n u \<Longrightarrow> \<not> reserve_fits (us_cap s) u n \<Longrightarrow> budget_step s (goto_pc w Idle s)"
| reserve_swap: "us_pc s w = Reserving n u \<Longrightarrow> reserve_fits (us_cap s) u n \<Longrightarrow> us_used s = u \<Longrightarrow>
     budget_step s (goto_pc w Idle (s\<lparr>us_used := u + n, us_reserved := us_reserved s + unat n\<rparr>))"
| reserve_retry: "us_pc s w = Reserving n u \<Longrightarrow> reserve_fits (us_cap s) u n \<Longrightarrow>
     budget_step s (goto_pc w (Reserving n (us_used s)) s)"
| release_load: "us_pc s w = Idle \<Longrightarrow> budget_step s (goto_pc w (Releasing n (us_used s)) s)"
| release_reject: "us_pc s w = Releasing n u \<Longrightarrow> n > u \<Longrightarrow> budget_step s (goto_pc w Idle s)"
| release_swap: "us_pc s w = Releasing n u \<Longrightarrow> \<not> n > u \<Longrightarrow> us_used s = u \<Longrightarrow>
     budget_step s (goto_pc w Waking (s\<lparr>us_used := u - n, us_released := us_released s + unat n,
       us_version := Suc (us_version s)\<rparr>))"
| release_retry: "us_pc s w = Releasing n u \<Longrightarrow> \<not> n > u \<Longrightarrow>
     budget_step s (goto_pc w (Releasing n (us_used s)) s)"
| wake_none: "us_pc s w = Waking \<Longrightarrow> us_waiting s = 0 \<Longrightarrow> budget_step s (goto_pc w Idle s)"
| wake_some: "us_pc s w = Waking \<Longrightarrow> us_waiting s \<noteq> 0 \<Longrightarrow> budget_step s (goto_pc w Exchanging s)"
| wake_exchange: "us_pc s w = Exchanging \<Longrightarrow>
     budget_step s (goto_pc w Idle (s\<lparr>us_waiting := 0,
       us_posted := us_posted s \<union> {i. i < MAX_WORKER_COUNT \<and> bit (us_waiting s) i}\<rparr>))"
| register: "us_pc s w = Idle \<Longrightarrow> w < MAX_WORKER_COUNT \<Longrightarrow>
     budget_step s (s\<lparr>us_waiting := us_waiting s OR push_bit w 1,
       us_seen := (us_seen s)(w \<mapsto> us_version s), us_posted := us_posted s - {w}\<rparr>)"

inductive budget_reachable :: "'a::len word \<Rightarrow> 'a word udp_budget_sys \<Rightarrow> bool" for cap where
  start: "budget_reachable cap (udp_budget_start cap)"
| step: "budget_reachable cap s \<Longrightarrow> budget_step s t \<Longrightarrow> budget_reachable cap t"

text \<open>
  The TCP session budget in an interleaving: an accepting worker observes the counter, holds one
  unit between the swap and \<open>session_reserved = true\<close>, and hands it to a connection or, when
  \<open>create_connection\<close> fails, gives it back. A connection gives it back on close, guarded by its
  flag.
\<close>

datatype 'w accept_pc = Accepting | Observed 'w | Holding

record 'w tcp_budget_sys =
  ts_budget :: "'w bpf2socks_tcp_budget"
  ts_pc :: "nat \<Rightarrow> 'w accept_pc"
  ts_reserved :: "nat set"

definition tcp_budget_start :: "'a::len word \<Rightarrow> 'a word tcp_budget_sys" where
  "tcp_budget_start cap = \<lparr>ts_budget = \<lparr>tb_used = 0, tb_cap = cap\<rparr>, ts_pc = (\<lambda>_. Accepting), ts_reserved = {}\<rparr>"

inductive session_step :: "'a::len word tcp_budget_sys \<Rightarrow> 'a word tcp_budget_sys \<Rightarrow> bool" where
  observe: "ts_pc s w = Accepting \<Longrightarrow> session_step s (s\<lparr>ts_pc := (ts_pc s)(w := Observed (tb_used (ts_budget s)))\<rparr>)"
| full: "ts_pc s w = Observed u \<Longrightarrow> \<not> session_fits (tb_cap (ts_budget s)) u 1 \<Longrightarrow>
     session_step s (s\<lparr>ts_pc := (ts_pc s)(w := Accepting)\<rparr>)"
| admit: "ts_pc s w = Observed u \<Longrightarrow> session_fits (tb_cap (ts_budget s)) u 1 \<Longrightarrow> tb_used (ts_budget s) = u \<Longrightarrow>
     session_step s (s\<lparr>ts_budget := (ts_budget s)\<lparr>tb_used := u + 1\<rparr>, ts_pc := (ts_pc s)(w := Holding)\<rparr>)"
| again: "ts_pc s w = Observed u \<Longrightarrow> session_fits (tb_cap (ts_budget s)) u 1 \<Longrightarrow>
     session_step s (s\<lparr>ts_pc := (ts_pc s)(w := Observed (tb_used (ts_budget s)))\<rparr>)"
| attach: "ts_pc s w = Holding \<Longrightarrow> c \<notin> ts_reserved s \<Longrightarrow>
     session_step s (s\<lparr>ts_pc := (ts_pc s)(w := Accepting), ts_reserved := insert c (ts_reserved s)\<rparr>)"
| create_failed: "ts_pc s w = Holding \<Longrightarrow>
     session_step s (s\<lparr>ts_budget := release_tcp_session_budget (ts_budget s), ts_pc := (ts_pc s)(w := Accepting)\<rparr>)"
| close_connection: "c \<in> ts_reserved s \<Longrightarrow>
     session_step s (s\<lparr>ts_budget := release_tcp_session_budget (ts_budget s), ts_reserved := ts_reserved s - {c}\<rparr>)"

inductive session_reachable :: "'a::len word \<Rightarrow> 'a word tcp_budget_sys \<Rightarrow> bool" for cap where
  start: "session_reachable cap (tcp_budget_start cap)"
| step: "session_reachable cap s \<Longrightarrow> session_step s t \<Longrightarrow> session_reachable cap t"

section \<open>Interface: an admission test that keeps the counter under its cap\<close>

locale admission =
  fixes fits :: "'a::len word \<Rightarrow> 'a word \<Rightarrow> 'a word \<Rightarrow> bool"
  assumes fits_bound: "fits cap used n \<Longrightarrow> unat used + unat n \<le> unat cap"
begin

lemma admitted_sum: "fits cap used n \<Longrightarrow> unat (used + n) = unat used + unat n"
  using fits_bound [of cap used n] unsigned_less [of cap, where ?'a = nat]
  unfolding unat_add_lem [symmetric] by linarith

lemma admitted_le: "fits cap used n \<Longrightarrow> used + n \<le> cap"
  using fits_bound [of cap used n] by (simp add: word_le_nat_alt admitted_sum)

end

lemma reserve_fits_iff: "reserve_fits cap used n \<longleftrightarrow> unat used + unat n \<le> unat cap"
  by (auto simp: reserve_fits_def word_le_nat_alt word_less_nat_alt not_less unat_sub)

interpretation udp_bytes: admission reserve_fits
  by unfold_locales (simp add: reserve_fits_iff)

interpretation tcp_sessions: admission session_fits
  by unfold_locales (auto simp: session_fits_def word_less_nat_alt)

section \<open>Correctness\<close>

lemma wake_loop_eq:
  "wake_loop n i waiters fds = map fds (filter (\<lambda>j. bit waiters j \<and> 0 \<le> fds j) [i..<i + n])"
proof (induction n arbitrary: i waiters)
  case (Suc n)
  have upt: "[i..<i + Suc n] = i # [Suc i..<Suc i + n]" by (simp add: upt_rec)
  have keep: "filter (\<lambda>j. bit (waiters AND NOT (push_bit i 1)) j \<and> 0 \<le> fds j) [Suc i..<Suc i + n] =
      filter (\<lambda>j. bit waiters j \<and> 0 \<le> fds j) [Suc i..<Suc i + n]"
    by (rule filter_cong) (auto simp: bit_simps dest: bit_imp_le_length)
  show ?case
    unfolding wake_loop.simps Let_def Suc.IH keep upt
    by (auto simp: push_bit_eq_mult and_exp_eq_0_iff_not_bit)
qed simp

lemma budget_step_accounted:
  assumes "budget_step s t" "unat (us_used s) + us_released s = us_reserved s" "us_used s \<le> us_cap s"
  shows "unat (us_used t) + us_released t = us_reserved t \<and> us_used t \<le> us_cap t \<and> us_cap t = us_cap s"
  using assms
proof (induction rule: budget_step.induct)
  case (reserve_swap s w n u)
  then show ?case
    using udp_bytes.admitted_sum [of "us_cap s" u n] udp_bytes.admitted_le [of "us_cap s" u n] by (simp add: goto_pc_def)
next
  case (release_swap s w n u)
  then show ?case by (auto simp: goto_pc_def unat_sub word_le_nat_alt not_less)
qed (auto simp: goto_pc_def)

text \<open>A registered worker not yet woken is marked, and a later decrement has its wake-up pending.\<close>

definition wake_pending :: "'w udp_budget_sys \<Rightarrow> bool" where
  "wake_pending s \<longleftrightarrow> (\<exists>x. us_pc s x = Waking \<or> us_pc s x = Exchanging)"

definition waits_ok :: "'w udp_budget_sys \<Rightarrow> bool" where
  "waits_ok s \<longleftrightarrow> (\<forall>w v. us_seen s w = Some v \<longrightarrow> w \<notin> us_posted s \<longrightarrow>
     w < MAX_WORKER_COUNT \<and> bit (us_waiting s) w \<and> v \<le> us_version s \<and> (v < us_version s \<longrightarrow> wake_pending s))"

lemma wake_pending_goto:
  "us_pc s w \<notin> {Waking, Exchanging} \<Longrightarrow> wake_pending s \<Longrightarrow> wake_pending (goto_pc w pc s)"
  "wake_pending (goto_pc w Waking s)" "wake_pending (goto_pc w Exchanging s)"
  by (auto simp: wake_pending_def goto_pc_def)

lemma goto_pc_fields [simp]:
  "us_seen (goto_pc w pc s) = us_seen s" "us_posted (goto_pc w pc s) = us_posted s"
  "us_waiting (goto_pc w pc s) = us_waiting s" "us_version (goto_pc w pc s) = us_version s"
  by (simp_all add: goto_pc_def)

lemma waits_ok_goto:
  assumes "waits_ok s" "us_pc s w \<notin> {Waking, Exchanging}"
  shows "waits_ok (goto_pc w pc s)"
  using assms wake_pending_goto(1) [OF assms(2)] by (force simp: waits_ok_def goto_pc_def)

lemma waits_ok_update:
  "waits_ok s \<Longrightarrow> waits_ok (s\<lparr>us_used := u, us_reserved := r\<rparr>)"
  by (auto simp: waits_ok_def wake_pending_def)

lemma budget_step_waits_ok:
  assumes "budget_step s t" "waits_ok s" shows "waits_ok t"
  using assms
proof (induction rule: budget_step.induct)
  case (reserve_swap s w n u)
  then show ?case by (intro waits_ok_goto waits_ok_update) auto
next
  case (release_swap s w n u)
  then show ?case unfolding waits_ok_def by (simp add: wake_pending_goto) (metis le_SucI)
next
  case (wake_none s w)
  then show ?case by (auto simp: waits_ok_def goto_pc_def)
next
  case (wake_some s w)
  then show ?case by (simp add: waits_ok_def wake_pending_goto)
next
  case (wake_exchange s w)
  then show ?case by (auto simp: waits_ok_def goto_pc_def)
next
  case (register s w)
  then show ?case
    by (auto simp: waits_ok_def wake_pending_def bit_simps MAX_WORKER_COUNT_def split: if_splits)
qed (auto intro: waits_ok_goto)

lemma budget_reachable_inv:
  "budget_reachable cap s \<Longrightarrow>
   unat (us_used s) + us_released s = us_reserved s \<and> us_used s \<le> us_cap s \<and> us_cap s = cap \<and> waits_ok s"
proof (induction rule: budget_reachable.induct)
  case start
  show ?case by (simp add: udp_budget_start_def waits_ok_def)
next
  case (step s t)
  then show ?case using budget_step_accounted budget_step_waits_ok by metis
qed

definition holders :: "(nat \<Rightarrow> 'w accept_pc) \<Rightarrow> nat set" where
  "holders pc = {w. pc w = Holding}"

definition session_inv :: "'a::len word tcp_budget_sys \<Rightarrow> bool" where
  "session_inv s \<longleftrightarrow> finite (ts_reserved s) \<and> finite (holders (ts_pc s)) \<and>
     unat (tb_used (ts_budget s)) = card (ts_reserved s) + card (holders (ts_pc s)) \<and>
     tb_used (ts_budget s) \<le> tb_cap (ts_budget s)"

lemma holding_upd:
  "holders (pc(w := Holding)) = insert w (holders pc)"
  "holders (pc(w := Accepting)) = holders pc - {w}"
  "holders (pc(w := Observed u)) = holders pc - {w}"
  "holders (\<lambda>_. Accepting) = {}"
  "w \<in> holders pc \<longleftrightarrow> pc w = Holding"
  by (auto simp: holders_def)

lemma unat_pred:
  fixes u :: "'a::len word"
  assumes "0 < unat u" shows "unat (u - 1) = unat u - 1" "u - 1 \<le> u"
proof -
  have "1 \<le> u" using assms by (simp add: word_le_nat_alt)
  then show "unat (u - 1) = unat u - 1" by (simp add: unat_sub)
  then show "u - 1 \<le> u" by (simp add: word_le_nat_alt)
qed

lemma session_step_inv:
  assumes "session_step s t" "session_inv s"
  shows "session_inv t \<and> tb_cap (ts_budget t) = tb_cap (ts_budget s)"
  using assms
proof (induction rule: session_step.induct)
  case (admit s w u)
  then have "unat (u + 1) = unat u + 1" "u + 1 \<le> tb_cap (ts_budget s)"
    using tcp_sessions.admitted_sum tcp_sessions.admitted_le by fastforce+
  then show ?case using admit by (auto simp: session_inv_def holding_upd)
next
  case (attach s w c)
  then have "w \<in> holders (ts_pc s)" "finite (holders (ts_pc s))" by (auto simp: session_inv_def holding_upd)
  then have "0 < card (holders (ts_pc s))" by (auto simp: card_gt_0_iff)
  then show ?case using attach by (simp add: session_inv_def holding_upd card_Diff_singleton)
next
  case (create_failed s w)
  then have "w \<in> holders (ts_pc s)" "finite (holders (ts_pc s))" by (auto simp: session_inv_def holding_upd)
  then have pos: "0 < card (holders (ts_pc s))" by (auto simp: card_gt_0_iff)
  then have "0 < unat (tb_used (ts_budget s))" using create_failed by (simp add: session_inv_def)
  from unat_pred [OF this] pos create_failed show ?case
    by (auto simp: session_inv_def holding_upd card_Diff_singleton release_tcp_session_budget_def)
next
  case (close_connection c s)
  then have pos: "0 < card (ts_reserved s)" by (auto simp: session_inv_def card_gt_0_iff)
  then have "0 < unat (tb_used (ts_budget s))" using close_connection by (simp add: session_inv_def)
  from unat_pred [OF this] pos close_connection show ?case
    by (auto simp: session_inv_def card_Diff_singleton release_tcp_session_budget_def)
qed (auto simp: session_inv_def holding_upd)

lemma session_reachable_inv: "session_reachable cap s \<Longrightarrow> session_inv s \<and> tb_cap (ts_budget s) = cap"
proof (induction rule: session_reachable.induct)
  case start
  show ?case by (simp add: tcp_budget_start_def session_inv_def holding_upd)
next
  case (step s t)
  then show ?case using session_step_inv by metis
qed

section \<open>Properties\<close>

text \<open>
  Uncontended \<open>bpf2socks_udp_budget_reserve\<close>: it succeeds exactly when the reserved bytes and
  the request together stay within the cap, as unbounded integers (no wrap-around of \<open>size_t\<close>
  can slip a request through); a success adds exactly the request and a refusal is \<open>ENOBUFS\<close> with
  the budget untouched; releasing a successful reservation restores the counter, drains the
  waiter set and writes the descriptor of every registered worker once, in worker order.
\<close>

theorem udp_budget_reserve_release:
  shows "case bpf2socks_udp_budget_reserve b n of
      (Inl e, b') \<Rightarrow> e = ENOBUFS \<and> b' = b \<and> unat (ub_used_bytes b) + unat n > unat (ub_cap_bytes b)
    | (Inr _, b') \<Rightarrow>
        unat (ub_used_bytes b') = unat (ub_used_bytes b) + unat n \<and>
        unat (ub_used_bytes b') \<le> unat (ub_cap_bytes b) \<and>
        ub_peak_bytes b' = max (ub_peak_bytes b) (ub_used_bytes b') \<and>
        (case bpf2socks_udp_budget_release b' n of
           (r, b'') \<Rightarrow> r = Inr (map (ub_wake_fds b)
                 (filter (\<lambda>i. bit (ub_waiting_workers b) i \<and> 0 \<le> ub_wake_fds b i) [0..<MAX_WORKER_COUNT])) \<and>
             b'' = b'\<lparr>ub_used_bytes := ub_used_bytes b, ub_waiting_workers := 0\<rparr>)"
proof (cases "reserve_fits (ub_cap_bytes b) (ub_used_bytes b) n")
  case False
  then show ?thesis by (simp add: bpf2socks_udp_budget_reserve_def reserve_fits_iff)
next
  case True
  note sum = udp_bytes.admitted_sum [OF True] and le = udp_bytes.fits_bound [OF True]
  have "n \<le> ub_used_bytes b + n" using sum by (simp add: word_le_nat_alt)
  then show ?thesis using True sum le
    by (cases b) (auto simp: bpf2socks_udp_budget_reserve_def bpf2socks_udp_budget_release_def update_pending_budget_peak_def
        wake_pending_budget_waiters_def wake_loop_eq max_def not_less)
qed

text \<open>
  C30. In every interleaving of any number of workers running the reservation and release loops,
  with compare-and-swap failing whenever it likes, the UDP byte counter never exceeds the cap
  and equals what completed reservations added less what completed releases removed: no update
  is lost and nothing wraps.
\<close>

theorem udp_budget_interleaved:
  assumes "budget_reachable cap s"
  shows "us_used s \<le> cap \<and> unat (us_used s) + us_released s = us_reserved s"
  using budget_reachable_inv [OF assms] by auto

theorem udp_budget_interleaved_witness:
  "us_used (goto_pc 0 Idle ((goto_pc 0 (Reserving 5 0) (udp_budget_start (8 :: u64)))
     \<lparr>us_used := 5, us_reserved := 5\<rparr>)) \<le> 8"
proof -
  have "budget_reachable (8 :: u64) (goto_pc 0 (Reserving 5 0) (udp_budget_start 8))"
    using budget_reachable.step [OF budget_reachable.start reserve_load [of "udp_budget_start 8" 0 5]]
    by (simp add: udp_budget_start_def)
  from budget_reachable.step [OF this reserve_swap [of _ 0 5 0]]
  have "budget_reachable (8 :: u64) (goto_pc 0 Idle ((goto_pc 0 (Reserving 5 0) (udp_budget_start 8))
     \<lparr>us_used := 5, us_reserved := 5\<rparr>))"
    by (simp add: goto_pc_def udp_budget_start_def reserve_fits_def)
  from udp_budget_interleaved [OF this] show ?thesis by blast
qed



text \<open>
  C32. In every interleaving of accepting workers and closing connections the TCP session counter
  equals the number of connections that hold a reservation plus the workers about to hand one
  over, and never exceeds the cap: the unguarded decrement of \<open>release_tcp_session_budget\<close> never
  wraps and no reservation leaks.
\<close>

theorem tcp_session_budget_exact:
  assumes "session_reachable cap s"
  shows "unat (tb_used (ts_budget s)) = card (ts_reserved s) + card (holders (ts_pc s)) \<and>
    card (ts_reserved s) + card (holders (ts_pc s)) \<le> unat cap"
  using session_reachable_inv [OF assms] by (auto simp: session_inv_def word_le_nat_alt)

theorem tcp_session_budget_exact_witness:
  "unat (tb_used (ts_budget (tcp_budget_start (2 :: u64)\<lparr>ts_budget := \<lparr>tb_used = 1, tb_cap = 2\<rparr>,
     ts_pc := (\<lambda>_. Accepting)(4 := Holding)\<rparr>))) = 1"
proof -
  have "session_reachable (2 :: u64) ((tcp_budget_start 2)\<lparr>ts_pc := (\<lambda>_. Accepting)(4 := Observed 0)\<rparr>)"
    using session_reachable.step [OF session_reachable.start observe [of "tcp_budget_start 2" 4]]
    by (simp add: tcp_budget_start_def)
  from session_reachable.step [OF this admit [of _ 4 0]]
  have "session_reachable (2 :: u64) ((tcp_budget_start 2)\<lparr>ts_budget := \<lparr>tb_used = 1, tb_cap = 2\<rparr>,
     ts_pc := (\<lambda>_. Accepting)(4 := Holding)\<rparr>)"
    by (simp add: tcp_budget_start_def session_fits_def)
  from tcp_session_budget_exact [OF this] show ?thesis by (simp add: tcp_budget_start_def holding_upd)
qed

end
