(* ===== verification/Downlink_Queue.thy ===== *)
theory Downlink_Queue
  imports Intrusive_List
begin

text \<open>
  \<open>bridge/udp_downlink_queue.c\<close>: the singly linked queue of datagrams waiting for a client socket
  to become writable, the classification of \<open>sendmmsg\<close> results and the count of waiting clients.
  The \<open>next\<close> fields of all nodes are one heap \<open>'n \<Rightarrow> 'n option\<close> that every queue shares; the
  operations return the queue and the heap they leave.
\<close>

section \<open>Model\<close>

datatype bpf2socks_udp_downlink_send_result = SEND_COMPLETE | SEND_RETRY | SEND_FATAL

text \<open>\<open>sent\<close> is a C \<open>int\<close>, and \<open>(int)requested\<close> is the signed reading of the word.\<close>

definition bpf2socks_udp_downlink_classify_send_result ::
  "int \<Rightarrow> u32 \<Rightarrow> errno \<Rightarrow> bpf2socks_udp_downlink_send_result" where
  "bpf2socks_udp_downlink_classify_send_result sent requested send_errno =
     (if requested = 0 then (if sent = 0 then SEND_COMPLETE else SEND_FATAL)
      else if sent = sint requested then SEND_COMPLETE
      else if 0 \<le> sent \<and> sent < uint requested then SEND_RETRY
      else if sent < 0 \<and> send_errno \<in> {EAGAIN, ENOBUFS, EINTR} then SEND_RETRY
      else SEND_FATAL)"

record 'n bpf2socks_udp_downlink_queue =
  q_head :: "'n option"
  q_tail :: "'n option"

definition bpf2socks_udp_downlink_queue_init :: "'n bpf2socks_udp_downlink_queue" where
  "bpf2socks_udp_downlink_queue_init = \<lparr>q_head = None, q_tail = None\<rparr>"

type_synonym 'n queue_heap = "'n bpf2socks_udp_downlink_queue \<times> ('n \<Rightarrow> 'n option)"

definition bpf2socks_udp_downlink_queue_push :: "'n queue_heap \<Rightarrow> 'n \<Rightarrow> 'n queue_heap" where
  "bpf2socks_udp_downlink_queue_push s node =
     (let q = fst s; nxt = (snd s)(node := None) in
      case q_tail q of
        Some t \<Rightarrow> (q\<lparr>q_tail := Some node\<rparr>, nxt(t := Some node))
      | None \<Rightarrow> (q\<lparr>q_head := Some node, q_tail := Some node\<rparr>, nxt))"

definition bpf2socks_udp_downlink_queue_pop :: "'n queue_heap \<Rightarrow> 'n option \<times> 'n queue_heap" where
  "bpf2socks_udp_downlink_queue_pop s =
     (let q = fst s; nxt = snd s in
      case q_head q of
        None \<Rightarrow> (None, s)
      | Some node \<Rightarrow>
          let q1 = q\<lparr>q_head := nxt node\<rparr>;
              q2 = (if q_head q1 = None then q1\<lparr>q_tail := None\<rparr> else q1)
          in (Some node, (q2, nxt(node := None))))"

text \<open>The waiter count (a \<open>size_t\<close>) and the flag of one client are updated together.\<close>

definition bpf2socks_udp_downlink_waiter_tracker_mark_waiting ::
  "'a::len word \<Rightarrow> bool \<Rightarrow> 'a word \<times> bool" where
  "bpf2socks_udp_downlink_waiter_tracker_mark_waiting count waiting =
     (if waiting then (count, waiting) else (count + 1, True))"

definition bpf2socks_udp_downlink_waiter_tracker_mark_ready ::
  "'a::len word \<Rightarrow> bool \<Rightarrow> 'a word \<times> bool" where
  "bpf2socks_udp_downlink_waiter_tracker_mark_ready count waiting =
     (if \<not> waiting then (count, waiting) else (if 0 < count then count - 1 else count, False))"

definition bpf2socks_udp_downlink_waiter_tracker_has_waiters :: "'a::len word \<Rightarrow> bool" where
  "bpf2socks_udp_downlink_waiter_tracker_has_waiters count \<longleftrightarrow> 0 < count"

text \<open>A run of queue operations and the nodes it popped; the same on a plain list.\<close>

datatype 'n queue_op = Push 'n | Pop

fun queue_run ::
  "('s \<Rightarrow> 'n \<Rightarrow> 's) \<Rightarrow> ('s \<Rightarrow> 'n option \<times> 's) \<Rightarrow> 'n queue_op list \<Rightarrow> 's \<Rightarrow> 'n option list \<times> 's" where
  "queue_run push pop [] s = ([], s)"
| "queue_run push pop (Push n # ops) s = queue_run push pop ops (push s n)"
| "queue_run push pop (Pop # ops) s =
     (let (r, s1) = pop s; (rs, s2) = queue_run push pop ops s1 in (r # rs, s2))"

definition list_push :: "'n list \<Rightarrow> 'n \<Rightarrow> 'n list" where
  "list_push xs n = xs @ [n]"

definition list_pop :: "'n list \<Rightarrow> 'n option \<times> 'n list" where
  "list_pop xs = (case xs of [] \<Rightarrow> (None, []) | x # ys \<Rightarrow> (Some x, ys))"

text \<open>The callers' discipline: a node is pushed only while it is in no queue.\<close>

fun queue_disciplined :: "'n queue_op list \<Rightarrow> 'n list \<Rightarrow> bool" where
  "queue_disciplined [] xs = True"
| "queue_disciplined (Push n # ops) xs = (n \<notin> set xs \<and> queue_disciplined ops (list_push xs n))"
| "queue_disciplined (Pop # ops) xs = queue_disciplined ops (snd (list_pop xs))"

text \<open>Marks over a population of clients, each with its own flag.\<close>

datatype 'c waiter_op = Mark_Waiting 'c | Mark_Ready 'c

fun waiter_run :: "'c waiter_op list \<Rightarrow> 'a::len word \<times> ('c \<Rightarrow> bool) \<Rightarrow> 'a word \<times> ('c \<Rightarrow> bool)" where
  "waiter_run [] s = s"
| "waiter_run (Mark_Waiting c # ops) (count, flags) =
     (case bpf2socks_udp_downlink_waiter_tracker_mark_waiting count (flags c) of
        (count', w) \<Rightarrow> waiter_run ops (count', flags(c := w)))"
| "waiter_run (Mark_Ready c # ops) (count, flags) =
     (case bpf2socks_udp_downlink_waiter_tracker_mark_ready count (flags c) of
        (count', w) \<Rightarrow> waiter_run ops (count', flags(c := w)))"

section \<open>Interface: a first-in first-out queue\<close>

locale fifo =
  fixes rep :: "'s \<Rightarrow> 'n list \<Rightarrow> bool"
    and push :: "'s \<Rightarrow> 'n \<Rightarrow> 's"
    and pop :: "'s \<Rightarrow> 'n option \<times> 's"
  assumes push_rep: "rep s xs \<Longrightarrow> n \<notin> set xs \<Longrightarrow> rep (push s n) (xs @ [n])"
    and pop_none: "rep s [] \<Longrightarrow> fst (pop s) = None \<and> rep (snd (pop s)) []"
    and pop_some: "rep s (x # xs) \<Longrightarrow> fst (pop s) = Some x \<and> rep (snd (pop s)) xs"
begin

lemma pop_rep: "rep s xs \<Longrightarrow> fst (pop s) = fst (list_pop xs) \<and> rep (snd (pop s)) (snd (list_pop xs))"
  using pop_none pop_some by (cases xs) (auto simp: list_pop_def)

lemma run_refines:
  "rep s xs \<Longrightarrow> queue_disciplined ops xs \<Longrightarrow>
   fst (queue_run push pop ops s) = fst (queue_run list_push list_pop ops xs) \<and>
   rep (snd (queue_run push pop ops s)) (snd (queue_run list_push list_pop ops xs))"
proof (induction ops arbitrary: s xs)
  case (Cons op ops)
  show ?case
  proof (cases op)
    case (Push n)
    with Cons.prems have "rep (push s n) (list_push xs n)" by (simp add: push_rep list_push_def)
    with Cons Push show ?thesis by simp
  next
    case Pop
    with Cons.IH [of "snd (pop s)" "snd (list_pop xs)"] Cons.prems pop_rep [OF Cons.prems(1)]
    show ?thesis by (auto simp: split: prod.split)
  qed
qed simp

end

section \<open>The linked queue refines a list\<close>

definition queue_rep :: "'n queue_heap \<Rightarrow> 'n list \<Rightarrow> bool" where
  "queue_rep s xs \<longleftrightarrow> distinct xs \<and> chain (snd s) (q_head (fst s)) xs \<and>
     q_tail (fst s) = (if xs = [] then None else Some (last xs))"

interpretation downlink_fifo: fifo queue_rep bpf2socks_udp_downlink_queue_push bpf2socks_udp_downlink_queue_pop
proof
  fix s :: "'a queue_heap" and xs n
  assume rep: "queue_rep s xs" and n: "n \<notin> set xs"
  show "queue_rep (bpf2socks_udp_downlink_queue_push s n) (xs @ [n])"
  proof (cases "xs = []")
    case True
    with rep show ?thesis by (simp add: queue_rep_def bpf2socks_udp_downlink_queue_push_def Let_def)
  next
    case False
    with rep n chain_snoc [of "snd s" "q_head (fst s)" xs n] show ?thesis
      by (simp add: queue_rep_def bpf2socks_udp_downlink_queue_push_def Let_def)
  qed
next
  fix s :: "'a queue_heap"
  assume "queue_rep s []"
  then show "fst (bpf2socks_udp_downlink_queue_pop s) = None \<and> queue_rep (snd (bpf2socks_udp_downlink_queue_pop s)) []"
    by (simp add: queue_rep_def bpf2socks_udp_downlink_queue_pop_def Let_def)
next
  fix s :: "'a queue_heap" and x xs
  assume "queue_rep s (x # xs)"
  then show "fst (bpf2socks_udp_downlink_queue_pop s) = Some x \<and> queue_rep (snd (bpf2socks_udp_downlink_queue_pop s)) xs"
    by (cases xs) (auto simp: queue_rep_def bpf2socks_udp_downlink_queue_pop_def Let_def chain_frame)
qed

section \<open>The waiter count\<close>

definition waiting_set :: "('c \<Rightarrow> bool) \<Rightarrow> 'c set" where
  "waiting_set flags = {c. flags c}"

definition waiters_ok :: "'c set \<Rightarrow> 'a::len word \<times> ('c \<Rightarrow> bool) \<Rightarrow> bool" where
  "waiters_ok C s \<longleftrightarrow> waiting_set (snd s) \<subseteq> C \<and> unat (fst s) = card (waiting_set (snd s))"

fun op_client :: "'c waiter_op \<Rightarrow> 'c" where
  "op_client (Mark_Waiting c) = c"
| "op_client (Mark_Ready c) = c"

lemma flag_sets:
  "waiting_set (flags(c := True)) = insert c (waiting_set flags)"
  "waiting_set (flags(c := False)) = waiting_set flags - {c}"
  "c \<in> waiting_set flags \<longleftrightarrow> flags c" "waiting_set (\<lambda>_. False) = {}"
  by (auto simp: waiting_set_def)

lemma mark_waiting_ok:
  assumes ok: "waiters_ok C (count, flags)" and C: "finite C" "card C < 2 ^ LENGTH('a::len)" "c \<in> C"
    and m: "bpf2socks_udp_downlink_waiter_tracker_mark_waiting (count :: 'a word) (flags c) = (count', w)"
  shows "waiters_ok C (count', flags(c := w))"
proof (cases "flags c")
  case True
  with ok m show ?thesis by (simp add: bpf2socks_udp_downlink_waiter_tracker_mark_waiting_def fun_upd_idem)
next
  case False
  have sub: "insert c (waiting_set flags) \<subseteq> C" using ok C by (auto simp: waiters_ok_def)
  have fin: "finite (waiting_set flags)" using ok C finite_subset by (auto simp: waiters_ok_def)
  have "card (insert c (waiting_set flags)) \<le> card C" using C sub by (intro card_mono) auto
  then have lt: "card (waiting_set flags) + 1 < 2 ^ LENGTH('a)" using C fin False by (simp add: flag_sets)
  then have "unat (count + 1) = unat count + 1" using ok by (simp add: waiters_ok_def unat_add_lem [THEN iffD1])
  with ok m sub fin False show ?thesis
    by (auto simp: waiters_ok_def bpf2socks_udp_downlink_waiter_tracker_mark_waiting_def flag_sets)
qed

lemma mark_ready_ok:
  assumes ok: "waiters_ok C (count, flags)" and C: "finite C"
    and m: "bpf2socks_udp_downlink_waiter_tracker_mark_ready count (flags c) = (count', w)"
  shows "waiters_ok C (count', flags(c := w))"
proof (cases "flags c")
  case False
  with ok m show ?thesis by (simp add: bpf2socks_udp_downlink_waiter_tracker_mark_ready_def fun_upd_idem)
next
  case True
  have fin: "finite (waiting_set flags)" using ok C finite_subset by (auto simp: waiters_ok_def)
  then have "0 < card (waiting_set flags)" using True flag_sets(3) [of c flags] by (auto simp: card_gt_0_iff)
  then have pos: "0 < unat count" using ok by (simp add: waiters_ok_def)
  then have "unat (count - 1) = unat count - 1" by (simp add: unat_minus_one unat_gt_0)
  with ok m fin pos True show ?thesis
    by (auto simp: waiters_ok_def bpf2socks_udp_downlink_waiter_tracker_mark_ready_def flag_sets unat_gt_0 word_gt_0
        card_Diff_singleton)
qed

lemma waiter_run_ok:
  assumes "finite C" "card C < 2 ^ LENGTH('a::len)"
  shows "waiters_ok C (s :: 'a word \<times> _) \<Longrightarrow> op_client ` set ops \<subseteq> C \<Longrightarrow> waiters_ok C (waiter_run ops s)"
proof (induction ops s rule: waiter_run.induct)
  case (2 c ops count flags)
  then show ?case using mark_waiting_ok [OF _ assms, of count flags c]
    by (auto split: prod.split)
next
  case (3 c ops count flags)
  then show ?case using mark_ready_ok [OF _ assms(1), of count flags c] by (auto split: prod.split)
qed simp

section \<open>Properties\<close>

text \<open>
  C33. The linked downlink queue is a first-in first-out queue: every sequence of pushes and pops
  started on an empty queue, in which a node is pushed only while it is not queued, returns
  exactly the nodes a plain list would, including the empty answers, and leaves a well-formed
  queue of the nodes the list holds. No datagram is lost, duplicated or reordered.
\<close>

theorem downlink_queue_is_fifo:
  assumes "queue_disciplined ops []"
  shows "fst (queue_run bpf2socks_udp_downlink_queue_push bpf2socks_udp_downlink_queue_pop ops
            (bpf2socks_udp_downlink_queue_init, nxt)) = fst (queue_run list_push list_pop ops []) \<and>
    queue_rep (snd (queue_run bpf2socks_udp_downlink_queue_push bpf2socks_udp_downlink_queue_pop ops
            (bpf2socks_udp_downlink_queue_init, nxt))) (snd (queue_run list_push list_pop ops []))"
  by (rule downlink_fifo.run_refines [OF _ assms])
    (simp add: queue_rep_def bpf2socks_udp_downlink_queue_init_def)

theorem downlink_queue_is_fifo_witness:
  "fst (queue_run bpf2socks_udp_downlink_queue_push bpf2socks_udp_downlink_queue_pop
      [Push (7 :: nat), Push 8, Pop, Push 7, Pop, Pop, Pop] (bpf2socks_udp_downlink_queue_init, Map.empty))
   = [Some 7, Some 8, Some 7, None]"
  using downlink_queue_is_fifo [of "[Push (7 :: nat), Push 8, Pop, Push 7, Pop, Pop, Pop]" Map.empty]
  by (simp add: list_push_def list_pop_def)

text \<open>
  The waiter count agrees with the clients' flags after every sequence of marks, repeated and
  unmatched ones included, as long as there are fewer clients than \<open>size_t\<close> can count:
  \<open>has_waiters\<close> holds exactly when some client is marked waiting.
\<close>

theorem downlink_waiters_exact:
  fixes count :: "'a::len word"
  assumes "finite (op_client ` set ops)" "card (op_client ` set ops) < 2 ^ LENGTH('a)"
    and "waiter_run ops (0, \<lambda>_. False) = (count, flags)"
  shows "bpf2socks_udp_downlink_waiter_tracker_has_waiters count \<longleftrightarrow> (\<exists>c. flags c)"
proof -
  have ok: "waiters_ok (op_client ` set ops) (count, flags)"
    using waiter_run_ok [OF assms(1,2), of "(0, \<lambda>_. False)" ops] assms(3) by (simp add: waiters_ok_def flag_sets)
  then have "finite (waiting_set flags)" using assms(1) finite_subset by (auto simp: waiters_ok_def)
  then have "card (waiting_set flags) = 0 \<longleftrightarrow> (\<forall>c. \<not> flags c)" by (auto simp: waiting_set_def)
  moreover have "unat count = card (waiting_set flags)" using ok by (simp add: waiters_ok_def)
  ultimately show ?thesis
    by (simp add: bpf2socks_udp_downlink_waiter_tracker_has_waiters_def word_gt_0 flip: unat_eq_0)
qed

theorem downlink_waiters_exact_witness:
  "\<not> bpf2socks_udp_downlink_waiter_tracker_has_waiters
     (fst (waiter_run [Mark_Waiting (1 :: nat), Mark_Waiting 1, Mark_Ready 1] (0 :: u32, \<lambda>_. False)))"
  using downlink_waiters_exact [of "[Mark_Waiting (1 :: nat), Mark_Waiting 1, Mark_Ready 1]" "0 :: u32" "(\<lambda>_. False)(1 := False)"]
  by (simp add: bpf2socks_udp_downlink_waiter_tracker_mark_waiting_def bpf2socks_udp_downlink_waiter_tracker_mark_ready_def)

end
