(* ===== verification/Binding_Index.thy ===== *)
theory Binding_Index
  imports Intrusive_List
begin

text \<open>
  \<open>bridge/udp_binding_index.c\<close>: the hash index of UDP reply bindings by client session and
  original destination, chained through \<open>hash_next\<close>. Bindings are addresses \<open>'b\<close>; their contents
  are a parameter \<open>bind\<close> the operations only read, the \<open>hash_next\<close> fields are the heap they
  change. \<open>size_t\<close> and pointers are 64 bits wide and stored little-endian, as on the targets;
  \<open>calloc\<close> is a parameter that says whether the allocation succeeds. A traversal is a loop that
  may run forever on a cyclic chain, so it returns an option, \<open>None\<close> for a loop that does not end.
\<close>

section \<open>Model\<close>

record bpf2socks_udp_reply_binding =
  rb_used :: bool
  rb_owner :: u64
  rb_original_dst :: bpf2socks_sockaddr

record 'b bpf2socks_udp_binding_index =
  ix_buckets :: "(nat \<Rightarrow> 'b option) option"
  ix_bucket_count :: u64

type_synonym 'b index_heap = "'b bpf2socks_udp_binding_index \<times> ('b \<Rightarrow> 'b option)"

definition hash_byte :: "u64 \<Rightarrow> u8 \<Rightarrow> u64" where
  "hash_byte hash byte = (hash XOR ucast byte) * 1099511628211"

definition hash_bytes :: "u64 \<Rightarrow> bytes \<Rightarrow> u64" where
  "hash_bytes hash bs = foldl hash_byte hash bs"

definition le_bytes :: "nat \<Rightarrow> u64 \<Rightarrow> bytes" where
  "le_bytes n w = map (\<lambda>i. ucast (drop_bit (8 * i) w)) [0..<n]"

definition address_length :: "bpf2socks_sockaddr \<Rightarrow> nat" where
  "address_length a = (if sa_family a = AF_INET6 then 16 else 4)"

definition binding_hash :: "u64 \<Rightarrow> bpf2socks_sockaddr \<Rightarrow> u64" where
  "binding_hash owner original =
     (let h1 = hash_bytes 1469598103934665603 (le_bytes 8 owner);
          h2 = hash_bytes h1 (le_bytes 4 (word_of_int (sa_family original)));
          h3 = hash_bytes h2 (le_bytes 2 (ucast (sa_port original)))
      in hash_bytes h3 (take (address_length original) (sa_addr original)))"

definition same_key :: "bpf2socks_udp_reply_binding \<Rightarrow> u64 \<Rightarrow> bpf2socks_sockaddr \<Rightarrow> bool" where
  "same_key b owner original =
     (if rb_owner b \<noteq> owner \<or> sa_family (rb_original_dst b) \<noteq> sa_family original \<or>
         sa_port (rb_original_dst b) \<noteq> sa_port original then False
      else take (address_length original) (sa_addr (rb_original_dst b)) =
           take (address_length original) (sa_addr original))"

definition valid_original :: "bpf2socks_sockaddr \<Rightarrow> bool" where
  "valid_original a \<longleftrightarrow> sa_family a = AF_INET \<or> sa_family a = AF_INET6"

definition SIZE_MAX :: u64 where
  "SIZE_MAX = - 1"

partial_function (option) bucket_count_loop :: "u64 \<Rightarrow> u64 \<Rightarrow> (errno + u64) option" where
  "bucket_count_loop capacity count =
     (if count < capacity then
        (if count > SIZE_MAX div 2 then Some (Inl EOVERFLOW) else bucket_count_loop capacity (count * 2))
      else Some (Inr count))"

definition empty_index :: "'b bpf2socks_udp_binding_index" where
  "empty_index = \<lparr>ix_buckets = None, ix_bucket_count = 0\<rparr>"

text \<open>The last argument says whether \<open>calloc\<close> succeeds; a bucket is a pointer of eight bytes.\<close>

definition bpf2socks_udp_binding_index_init ::
  "'b bpf2socks_udp_binding_index \<Rightarrow> u64 \<Rightarrow> (u64 \<Rightarrow> bool) \<Rightarrow> ((errno + unit) \<times> 'b bpf2socks_udp_binding_index) option" where
  "bpf2socks_udp_binding_index_init ix capacity calloc_ok =
     (if capacity = 0 then Some (Inl EINVAL, ix)
      else case bucket_count_loop capacity 1 of
        None \<Rightarrow> None
      | Some (Inl e) \<Rightarrow> Some (Inl e, empty_index)
      | Some (Inr count) \<Rightarrow>
          if count > SIZE_MAX div 8 then Some (Inl EOVERFLOW, empty_index)
          else if \<not> calloc_ok count then Some (Inl ENOMEM, empty_index)
          else Some (Inr (), \<lparr>ix_buckets = Some (\<lambda>_. None), ix_bucket_count = count\<rparr>))"

partial_function (option) find_loop ::
  "('b \<Rightarrow> bool) \<Rightarrow> ('b \<Rightarrow> 'b option) \<Rightarrow> 'b option \<Rightarrow> u64 \<Rightarrow> ('b option \<times> u64) option" where
  "find_loop hit nxt p steps =
     (case p of None \<Rightarrow> Some (None, steps)
      | Some b \<Rightarrow> if hit b then Some (Some b, steps) else find_loop hit nxt (nxt b) (steps + 1))"

definition bucket_of :: "u64 \<Rightarrow> u64 \<Rightarrow> bpf2socks_sockaddr \<Rightarrow> nat" where
  "bucket_of count owner original = unat (binding_hash owner original AND (count - 1))"

text \<open>The result with the number of collision steps.\<close>

definition bpf2socks_udp_binding_index_find ::
  "('b \<Rightarrow> bpf2socks_udp_reply_binding) \<Rightarrow> 'b index_heap \<Rightarrow> u64 \<Rightarrow> bpf2socks_sockaddr \<Rightarrow> ('b option \<times> u64) option" where
  "bpf2socks_udp_binding_index_find bind s owner original =
     (case ix_buckets (fst s) of
        None \<Rightarrow> Some (None, 0)
      | Some buckets \<Rightarrow>
          if ix_bucket_count (fst s) = 0 \<or> owner = 0 \<or> \<not> valid_original original then Some (None, 0)
          else find_loop (\<lambda>b. rb_used (bind b) \<and> same_key (bind b) owner original) (snd s)
                 (buckets (bucket_of (ix_bucket_count (fst s)) owner original)) 0)"

definition bpf2socks_udp_binding_index_insert ::
  "('b \<Rightarrow> bpf2socks_udp_reply_binding) \<Rightarrow> 'b index_heap \<Rightarrow> 'b \<Rightarrow> ((errno + unit) \<times> 'b index_heap) option" where
  "bpf2socks_udp_binding_index_insert bind s b =
     (case ix_buckets (fst s) of
        None \<Rightarrow> Some (Inl EINVAL, s)
      | Some buckets \<Rightarrow>
          if ix_bucket_count (fst s) = 0 \<or> \<not> rb_used (bind b) \<or> rb_owner (bind b) = 0 \<or>
             \<not> valid_original (rb_original_dst (bind b)) then Some (Inl EINVAL, s)
          else let bucket = bucket_of (ix_bucket_count (fst s)) (rb_owner (bind b)) (rb_original_dst (bind b)) in
            case find_loop (\<lambda>c. c = b) (snd s) (buckets bucket) 0 of
              None \<Rightarrow> None
            | Some (Some _, _) \<Rightarrow> Some (Inl EEXIST, s)
            | Some (None, _) \<Rightarrow>
                Some (Inr (), ((fst s)\<lparr>ix_buckets := Some (buckets(bucket := Some b))\<rparr>,
                               (snd s)(b := buckets bucket))))"

text \<open>The walk of \<open>slot\<close>: \<open>prev\<close> is the binding whose \<open>hash_next\<close> is the slot, \<open>None\<close> for the bucket.\<close>

partial_function (option) slot_loop ::
  "'b \<Rightarrow> ('b \<Rightarrow> 'b option) \<Rightarrow> 'b option \<Rightarrow> 'b option \<Rightarrow> 'b option option option" where
  "slot_loop b nxt prev p =
     (case p of None \<Rightarrow> Some None
      | Some c \<Rightarrow> if c = b then Some (Some prev) else slot_loop b nxt (Some c) (nxt c))"

definition bpf2socks_udp_binding_index_remove ::
  "('b \<Rightarrow> bpf2socks_udp_reply_binding) \<Rightarrow> 'b index_heap \<Rightarrow> 'b \<Rightarrow> (bool \<times> 'b index_heap) option" where
  "bpf2socks_udp_binding_index_remove bind s b =
     (case ix_buckets (fst s) of
        None \<Rightarrow> Some (False, s)
      | Some buckets \<Rightarrow>
          if ix_bucket_count (fst s) = 0 \<or> rb_owner (bind b) = 0 \<or> \<not> valid_original (rb_original_dst (bind b))
          then Some (False, s)
          else let bucket = bucket_of (ix_bucket_count (fst s)) (rb_owner (bind b)) (rb_original_dst (bind b)) in
            case slot_loop b (snd s) None (buckets bucket) of
              None \<Rightarrow> None
            | Some None \<Rightarrow> Some (False, s)
            | Some (Some None) \<Rightarrow>
                Some (True, ((fst s)\<lparr>ix_buckets := Some (buckets(bucket := snd s b))\<rparr>, (snd s)(b := None)))
            | Some (Some (Some c)) \<Rightarrow>
                Some (True, (fst s, (snd s)(b := None, c := snd s b))))"

partial_function (option) clear_chain :: "('b \<Rightarrow> 'b option) \<Rightarrow> 'b option \<Rightarrow> ('b \<Rightarrow> 'b option) option" where
  "clear_chain nxt p =
     (case p of None \<Rightarrow> Some nxt | Some b \<Rightarrow> clear_chain (nxt(b := None)) (nxt b))"

primrec clear_buckets :: "nat \<Rightarrow> (nat \<Rightarrow> 'b option) \<Rightarrow> ('b \<Rightarrow> 'b option) \<Rightarrow> ('b \<Rightarrow> 'b option) option" where
  "clear_buckets 0 buckets nxt = Some nxt"
| "clear_buckets (Suc n) buckets nxt =
     (case clear_buckets n buckets nxt of None \<Rightarrow> None | Some nxt' \<Rightarrow> clear_chain nxt' (buckets n))"

definition bpf2socks_udp_binding_index_free :: "'b index_heap \<Rightarrow> 'b index_heap option" where
  "bpf2socks_udp_binding_index_free s =
     (case ix_buckets (fst s) of
        None \<Rightarrow> Some (empty_index, snd s)
      | Some buckets \<Rightarrow>
          (case clear_buckets (unat (ix_bucket_count (fst s))) buckets (snd s) of
             None \<Rightarrow> None | Some nxt \<Rightarrow> Some (empty_index, nxt)))"

section \<open>Loops\<close>

lemma find_loop_chain:
  "chain nxt p xs \<Longrightarrow>
   find_loop hit nxt p steps = Some (List.find hit xs, steps + of_nat (length (takeWhile (\<lambda>b. \<not> hit b) xs)))"
proof (induction xs arbitrary: p steps)
  case Nil
  then show ?case by (simp add: find_loop.simps)
next
  case (Cons b xs)
  then show ?case by (simp add: find_loop.simps [of _ _ "Some b"])
qed

lemma slot_loop_chain:
  "chain nxt p xs \<Longrightarrow>
   slot_loop b nxt prev p =
     (if b \<in> set xs then Some (Some (last_or prev (takeWhile (\<lambda>c. c \<noteq> b) xs))) else Some None)"
proof (induction xs arbitrary: p prev)
  case Nil
  then show ?case by (simp add: slot_loop.simps)
next
  case (Cons c xs)
  then show ?case by (simp add: slot_loop.simps [of _ _ _ "Some c"])
qed

lemma clear_chain_chain:
  "chain nxt p xs \<Longrightarrow> distinct xs \<Longrightarrow> clear_chain nxt p = Some (\<lambda>b. if b \<in> set xs then None else nxt b)"
proof (induction xs arbitrary: p nxt)
  case Nil
  then show ?case by (simp add: clear_chain.simps)
next
  case (Cons c xs)
  then have "chain (nxt(c := None)) (nxt c) xs" by (simp add: chain_frame)
  from Cons.IH [OF this] Cons.prems
  have "clear_chain nxt p = Some (\<lambda>b. if b \<in> set xs then None else (nxt(c := None)) b)"
    by (simp add: clear_chain.simps [of _ "Some c"] del: fun_upd_apply)
  then show ?case by (auto simp: fun_eq_iff)
qed

lemma chain_clear:
  "set xs \<inter> D = {} \<Longrightarrow> chain (\<lambda>b. if b \<in> D then None else nxt b) p xs = chain nxt p xs"
  by (induction xs arbitrary: p) auto

section \<open>The index as a list, newest binding first\<close>

definition binding_bucket :: "('b \<Rightarrow> bpf2socks_udp_reply_binding) \<Rightarrow> u64 \<Rightarrow> 'b \<Rightarrow> nat" where
  "binding_bucket bind count b = bucket_of count (rb_owner (bind b)) (rb_original_dst (bind b))"

definition indexable :: "('b \<Rightarrow> bpf2socks_udp_reply_binding) \<Rightarrow> 'b \<Rightarrow> bool" where
  "indexable bind b \<longleftrightarrow> rb_used (bind b) \<and> rb_owner (bind b) \<noteq> 0 \<and> valid_original (rb_original_dst (bind b))"

definition index_rep :: "('b \<Rightarrow> bpf2socks_udp_reply_binding) \<Rightarrow> 'b index_heap \<Rightarrow> 'b list \<Rightarrow> bool" where
  "index_rep bind s M \<longleftrightarrow> distinct M \<and> (\<forall>b\<in>set M. indexable bind b) \<and>
     (\<exists>k<64. ix_bucket_count (fst s) = 2 ^ k) \<and>
     (\<exists>buckets. ix_buckets (fst s) = Some buckets \<and>
        (\<forall>i<unat (ix_bucket_count (fst s)).
           chain (snd s) (buckets i) (filter (\<lambda>b. binding_bucket bind (ix_bucket_count (fst s)) b = i) M)))"

definition key_hit :: "('b \<Rightarrow> bpf2socks_udp_reply_binding) \<Rightarrow> u64 \<times> bpf2socks_sockaddr \<Rightarrow> 'b \<Rightarrow> bool" where
  "key_hit bind k b \<longleftrightarrow> rb_used (bind b) \<and> same_key (bind b) (fst k) (snd k)"

lemma unat_exp_word: "k < 64 \<Longrightarrow> unat (2 ^ k :: u64) = 2 ^ k"
  using unat_of_nat [of "2 ^ k", where ?'a = 64] power_strict_increasing [of k 64 "2 :: nat"] by simp

lemma bucket_bound:
  assumes "k < 64" shows "bucket_of (2 ^ k) owner original < unat (2 ^ k :: u64)"
proof -
  have "binding_hash owner original AND (2 ^ k - 1) = take_bit k (binding_hash owner original)"
    by (simp add: take_bit_eq_mask mask_eq_exp_minus_1)
  then have "bucket_of (2 ^ k) owner original = take_bit k (unat (binding_hash owner original))"
    by (simp add: bucket_of_def unsigned_take_bit_eq)
  then show ?thesis using assms by (simp add: unat_exp_word)
qed

lemma same_key_hash:
  assumes "same_key b owner original"
  shows "binding_hash (rb_owner b) (rb_original_dst b) = binding_hash owner original"
  using assms by (auto simp: same_key_def binding_hash_def address_length_def split: if_splits)

lemma hit_bucket:
  "key_hit bind (owner, original) b \<Longrightarrow> binding_bucket bind count b = bucket_of count owner original"
  by (auto simp: key_hit_def binding_bucket_def bucket_of_def dest: same_key_hash)

lemma find_filter: "(\<And>x. P x \<Longrightarrow> Q x) \<Longrightarrow> List.find P (filter Q xs) = List.find P xs"
  by (induction xs) auto

lemma find_eq: "List.find (\<lambda>c. c = b) xs = (if b \<in> set xs then Some b else None)"
  by (induction xs) auto

lemma index_find:
  assumes rep: "index_rep bind s M" and v: "owner \<noteq> 0" "valid_original original"
  shows "\<exists>steps. bpf2socks_udp_binding_index_find bind s owner original =
      Some (List.find (key_hit bind (owner, original)) M, steps)"
proof -
  obtain k buckets where k: "k < 64" "ix_bucket_count (fst s) = 2 ^ k" and b: "ix_buckets (fst s) = Some buckets"
    and ch: "\<forall>i<unat (2 ^ k :: u64). chain (snd s) (buckets i) (filter (\<lambda>b. binding_bucket bind (2 ^ k) b = i) M)"
    using rep by (auto simp: index_rep_def)
  let ?i = "bucket_of (2 ^ k) owner original"
  have "chain (snd s) (buckets ?i) (filter (\<lambda>b. binding_bucket bind (2 ^ k) b = ?i) M)"
    using ch bucket_bound [OF k(1)] by blast
  from find_loop_chain [OF this, of "key_hit bind (owner, original)" 0]
  have "\<exists>steps. find_loop (key_hit bind (owner, original)) (snd s) (buckets ?i) 0 =
      Some (List.find (key_hit bind (owner, original)) M, steps)"
    by (subst (asm) find_filter) (auto simp: hit_bucket)
  moreover have "(\<lambda>b. rb_used (bind b) \<and> same_key (bind b) owner original) = key_hit bind (owner, original)"
    by (auto simp: key_hit_def fun_eq_iff)
  moreover have "(2 ^ k :: u64) \<noteq> 0" using k(1) by simp
  ultimately show ?thesis using k b v by (simp add: bpf2socks_udp_binding_index_find_def)
qed


lemma index_insert:
  assumes rep: "index_rep bind s M" and b: "indexable bind b"
  shows "bpf2socks_udp_binding_index_insert bind s b =
      (if b \<in> set M then Some (Inl EEXIST, s)
       else Some (Inr (), snd (the (bpf2socks_udp_binding_index_insert bind s b))))"
    and "b \<notin> set M \<Longrightarrow> index_rep bind (snd (the (bpf2socks_udp_binding_index_insert bind s b))) (b # M)"
proof -
  obtain k buckets where k: "k < 64" "ix_bucket_count (fst s) = 2 ^ k" and bk: "ix_buckets (fst s) = Some buckets"
    and ch: "\<forall>i<unat (2 ^ k :: u64). chain (snd s) (buckets i) (filter (\<lambda>b. binding_bucket bind (2 ^ k) b = i) M)"
    using rep by (auto simp: index_rep_def)
  let ?i = "binding_bucket bind (2 ^ k) b"
  have i: "?i < unat (2 ^ k :: u64)" using bucket_bound [OF k(1)] by (simp add: binding_bucket_def)
  have nz: "(2 ^ k :: u64) \<noteq> 0" using k(1) by simp
  from find_loop_chain [OF ch [rule_format, OF i], of "\<lambda>c. c = b" 0]
  have fl: "\<exists>steps. find_loop (\<lambda>c. c = b) (snd s) (buckets ?i) 0 = Some (if b \<in> set M then Some b else None, steps)"
    by (auto simp: find_eq)
  show "bpf2socks_udp_binding_index_insert bind s b =
      (if b \<in> set M then Some (Inl EEXIST, s)
       else Some (Inr (), snd (the (bpf2socks_udp_binding_index_insert bind s b))))"
    using fl k bk b nz
    by (auto simp: bpf2socks_udp_binding_index_insert_def indexable_def binding_bucket_def Let_def)
  assume new: "b \<notin> set M"
  have "snd (the (bpf2socks_udp_binding_index_insert bind s b)) =
      ((fst s)\<lparr>ix_buckets := Some (buckets(?i := Some b))\<rparr>, (snd s)(b := buckets ?i))"
    using fl k bk b nz new
    by (auto simp: bpf2socks_udp_binding_index_insert_def indexable_def binding_bucket_def Let_def)
  then show "index_rep bind (snd (the (bpf2socks_udp_binding_index_insert bind s b))) (b # M)"
    using rep b new k bk ch by (auto simp: index_rep_def chain_frame)
qed

lemma filter_split_at:
  assumes "b \<in> set xs" "distinct xs"
  shows "xs = takeWhile (\<lambda>c. c \<noteq> b) xs @ b # tl (dropWhile (\<lambda>c. c \<noteq> b) xs)"
    and "remove1 b xs = takeWhile (\<lambda>c. c \<noteq> b) xs @ tl (dropWhile (\<lambda>c. c \<noteq> b) xs)"
  using assms by (induction xs) auto

text \<open>Unlinking a binding from its own chain, through the bucket or through its predecessor.\<close>

lemma chain_unlink:
  assumes "chain nxt p xs" "distinct xs" "b \<in> set xs"
  shows "case last_or None (takeWhile (\<lambda>c. c \<noteq> b) xs) of
      None \<Rightarrow> chain (nxt(b := None)) (nxt b) (remove1 b xs)
    | Some c \<Rightarrow> chain (nxt(b := None, c := nxt b)) p (remove1 b xs)"
proof -
  let ?l = "takeWhile (\<lambda>c. c \<noteq> b) xs" and ?r = "tl (dropWhile (\<lambda>c. c \<noteq> b) xs)"
  note split = filter_split_at [OF assms(3,2)]
  have ch: "chain nxt p (?l @ b # ?r)" and d: "distinct (?l @ b # ?r)" using assms split(1) by auto
  show ?thesis
  proof (cases "?l = []")
    case True
    then show ?thesis using ch d split(2) by (simp add: chain_frame del: fun_upd_apply)
  next
    case False
    then show ?thesis using chain_append [OF ch d False] split(2) by (simp add: last_or_def del: fun_upd_apply)
  qed
qed

lemma last_or_mem: "last_or None xs = Some c \<Longrightarrow> c \<in> set xs"
  by (auto simp: last_or_def split: if_splits)

lemma takeWhile_mem: "c \<in> set (takeWhile P xs) \<Longrightarrow> c \<in> set xs \<and> P c"
  by (auto dest: set_takeWhileD)

lemma remove1_filter_other: "\<not> P b \<Longrightarrow> filter P (remove1 b M) = filter P M"
  by (induction M) auto

lemma index_remove:
  assumes rep: "index_rep bind s M" and b: "indexable bind b"
  shows "\<exists>s'. bpf2socks_udp_binding_index_remove bind s b = Some (b \<in> set M, s') \<and> index_rep bind s' (remove1 b M)"
proof -
  obtain k buckets where k: "k < 64" "ix_bucket_count (fst s) = 2 ^ k" and bk: "ix_buckets (fst s) = Some buckets"
    and ch: "\<forall>i<unat (2 ^ k :: u64). chain (snd s) (buckets i) (filter (\<lambda>b. binding_bucket bind (2 ^ k) b = i) M)"
    using rep by (auto simp: index_rep_def)
  define i where "i = binding_bucket bind (2 ^ k) b"
  define xs where "xs = filter (\<lambda>c. binding_bucket bind (2 ^ k) c = i) M"
  have i: "i < unat (2 ^ k :: u64)" using bucket_bound [OF k(1)] by (simp add: binding_bucket_def i_def)
  have nz: "(2 ^ k :: u64) \<noteq> 0" using k(1) by simp
  have cx: "chain (snd s) (buckets i) xs" using ch i by (simp add: xs_def)
  have dx: "distinct xs" using rep by (simp add: xs_def index_rep_def)
  have mem: "b \<in> set xs \<longleftrightarrow> b \<in> set M" by (auto simp: xs_def i_def)
  have rm: "bpf2socks_udp_binding_index_remove bind s b =
      (case slot_loop b (snd s) None (buckets i) of
         None \<Rightarrow> None | Some None \<Rightarrow> Some (False, s)
       | Some (Some None) \<Rightarrow> Some (True, ((fst s)\<lparr>ix_buckets := Some (buckets(i := snd s b))\<rparr>, (snd s)(b := None)))
       | Some (Some (Some c)) \<Rightarrow> Some (True, (fst s, (snd s)(b := None, c := snd s b))))"
    using k bk b nz i_def [unfolded binding_bucket_def, symmetric]
    by (simp add: bpf2socks_udp_binding_index_remove_def indexable_def)
  show ?thesis
  proof (cases "b \<in> set M")
    case False
    then show ?thesis using rm slot_loop_chain [OF cx, of b None] mem rep by (simp add: remove1_idem)
  next
    case True
    let ?prev = "last_or None (takeWhile (\<lambda>c. c \<noteq> b) xs)"
    have bx: "b \<in> set xs" using True mem by simp
    note un = chain_unlink [OF cx dx bx] and sl = slot_loop_chain [OF cx, of b None]
    have mine: "filter (\<lambda>c. binding_bucket bind (2 ^ k) c = i) (remove1 b M) = remove1 b xs"
      by (simp add: xs_def filter_remove1)
    have others: "filter (\<lambda>c. binding_bucket bind (2 ^ k) c = j) (remove1 b M) =
        filter (\<lambda>c. binding_bucket bind (2 ^ k) c = j) M" if "j \<noteq> i" for j
      using that by (intro remove1_filter_other) (simp add: i_def)
    have frame: "chain ((snd s)(b := None)) (buckets j) (filter (\<lambda>c. binding_bucket bind (2 ^ k) c = j) M)"
      if "j < unat (2 ^ k :: u64)" "j \<noteq> i" for j
      using ch that by (subst chain_frame) (auto simp: i_def)
    have frame2: "chain ((snd s)(b := None, c := q)) (buckets j) (filter (\<lambda>c. binding_bucket bind (2 ^ k) c = j) M)"
      if "j < unat (2 ^ k :: u64)" "j \<noteq> i" "c \<in> set xs" for j c q
      using frame [OF that(1,2)] that by (subst chain_frame) (auto simp: xs_def)
    have base: "distinct (remove1 b M)" "\<forall>c\<in>set (remove1 b M). indexable bind c"
      using rep by (auto simp: index_rep_def dest: notin_set_remove1 [rotated])
    show ?thesis
    proof (cases ?prev)
      case None
      have "chain ((snd s)(b := None)) ((buckets(i := snd s b)) j)
          (filter (\<lambda>c. binding_bucket bind (2 ^ k) c = j) (remove1 b M))" if "j < unat (2 ^ k :: u64)" for j
        by (cases "j = i") (use un None mine others frame that in \<open>simp_all del: fun_upd_apply add: fun_upd_other fun_upd_same\<close>)
      then show ?thesis using rm sl None True mem base k bk by (simp add: index_rep_def del: fun_upd_apply) blast
    next
      case (Some c)
      then have cmem: "c \<in> set xs" using last_or_mem takeWhile_mem by metis
      have "chain ((snd s)(b := None, c := snd s b)) (buckets j)
          (filter (\<lambda>c. binding_bucket bind (2 ^ k) c = j) (remove1 b M))" if "j < unat (2 ^ k :: u64)" for j
        by (cases "j = i") (use un Some mine others frame2 [OF _ _ cmem] that in \<open>simp_all del: fun_upd_apply\<close>)
      then show ?thesis using rm sl Some True mem base k bk by (simp add: index_rep_def del: fun_upd_apply) blast
    qed
  qed
qed

section \<open>Interface: a keyed collection\<close>

locale keyed_collection =
  fixes rep :: "'s \<Rightarrow> 'b list \<Rightarrow> bool"
    and hit :: "'k \<Rightarrow> 'b \<Rightarrow> bool"
    and valid_key :: "'k \<Rightarrow> bool"
    and storable :: "'b \<Rightarrow> bool"
    and find :: "'s \<Rightarrow> 'k \<Rightarrow> 'b option"
    and insert :: "'s \<Rightarrow> 'b \<Rightarrow> 's"
    and remove :: "'s \<Rightarrow> 'b \<Rightarrow> 's"
  assumes find_rep: "rep s M \<Longrightarrow> valid_key k \<Longrightarrow> find s k = List.find (hit k) M"
    and insert_rep: "rep s M \<Longrightarrow> storable b \<Longrightarrow> b \<notin> set M \<Longrightarrow> rep (insert s b) (b # M)"
    and remove_rep: "rep s M \<Longrightarrow> storable b \<Longrightarrow> rep (remove s b) (remove1 b M)"
begin

lemma find_insert:
  "rep s M \<Longrightarrow> storable b \<Longrightarrow> b \<notin> set M \<Longrightarrow> valid_key k \<Longrightarrow>
   find (insert s b) k = (if hit k b then Some b else find s k)"
  by (simp add: find_rep [OF insert_rep] find_rep [of s M])

lemma find_remove_other:
  assumes "rep s M" "storable b" "valid_key k" "\<not> hit k b"
  shows "find (remove s b) k = find s k"
proof -
  have "List.find (hit k) (remove1 b M) = List.find (hit k) M" using assms(4) by (induction M) auto
  then show ?thesis using assms by (simp add: find_rep [OF remove_rep] find_rep [of s M])
qed

lemma find_remove_last:
  assumes "rep s M" "storable b" "valid_key k" "distinct M" "\<forall>c\<in>set M. hit k c \<longrightarrow> c = b"
  shows "find (remove s b) k = None"
  using assms by (simp add: find_rep [OF remove_rep]) (auto simp: find_None_iff)

end

definition index_find_key ::
  "('b \<Rightarrow> bpf2socks_udp_reply_binding) \<Rightarrow> 'b index_heap \<Rightarrow> u64 \<times> bpf2socks_sockaddr \<Rightarrow> 'b option" where
  "index_find_key bind s k = fst (the (bpf2socks_udp_binding_index_find bind s (fst k) (snd k)))"

definition index_put :: "('b \<Rightarrow> bpf2socks_udp_reply_binding) \<Rightarrow> 'b index_heap \<Rightarrow> 'b \<Rightarrow> 'b index_heap" where
  "index_put bind s b = snd (the (bpf2socks_udp_binding_index_insert bind s b))"

definition index_drop :: "('b \<Rightarrow> bpf2socks_udp_reply_binding) \<Rightarrow> 'b index_heap \<Rightarrow> 'b \<Rightarrow> 'b index_heap" where
  "index_drop bind s b = snd (the (bpf2socks_udp_binding_index_remove bind s b))"

definition index_key :: "u64 \<times> bpf2socks_sockaddr \<Rightarrow> bool" where
  "index_key k \<longleftrightarrow> fst k \<noteq> 0 \<and> valid_original (snd k)"

interpretation bindings: keyed_collection "index_rep bind" "key_hit bind" index_key "indexable bind"
  "index_find_key bind" "index_put bind" "index_drop bind" for bind
proof
  fix s :: "'a index_heap" and M k
  assume "index_rep bind s M" "index_key k"
  then show "index_find_key bind s k = List.find (key_hit bind k) M"
    using index_find [of bind s M "fst k" "snd k"] by (auto simp: index_find_key_def index_key_def)
next
  fix s :: "'a index_heap" and M b
  assume "index_rep bind s M" "indexable bind b" "b \<notin> set M"
  then show "index_rep bind (index_put bind s b) (b # M)" by (simp add: index_put_def index_insert(2))
next
  fix s :: "'a index_heap" and M b
  assume "index_rep bind s M" "indexable bind b"
  then show "index_rep bind (index_drop bind s b) (remove1 b M)"
    using index_remove [of bind s M b] by (auto simp: index_drop_def)
qed

section \<open>Creation and disposal\<close>

lemma half_size_max: "SIZE_MAX div 2 = 2 ^ 63 - 1" "SIZE_MAX div 8 = 2 ^ 61 - 1"
  by (simp_all add: SIZE_MAX_def)

lemma exp_le_word: "k < 64 \<Longrightarrow> capacity \<le> (2 ^ k :: u64) \<longleftrightarrow> unat capacity \<le> 2 ^ k"
  by (simp add: word_le_nat_alt unat_exp_word)

lemma bucket_count_loop_result:
  assumes "k < 64" "k = 0 \<or> 2 ^ (k - 1) < unat capacity" "unat capacity \<noteq> 0"
  shows "\<exists>r. bucket_count_loop capacity (2 ^ k) = Some r \<and>
    (case r of Inl e \<Rightarrow> e = EOVERFLOW \<and> 2 ^ 63 < unat capacity
     | Inr c \<Rightarrow> \<exists>j<64. c = 2 ^ j \<and> unat capacity \<le> 2 ^ j \<and> (j = 0 \<or> 2 ^ (j - 1) < unat capacity))"
  using assms
proof (induction "63 - k" arbitrary: k)
  case 0
  then have k: "k = 63" by simp
  show ?case
  proof (cases "unat capacity \<le> 2 ^ 63")
    case True
    then have "bucket_count_loop capacity (2 ^ 63) = Some (Inr (2 ^ 63))"
      by (subst bucket_count_loop.simps) (simp add: word_less_nat_alt)
    then show ?thesis using True 0 k by (intro exI [of _ "Inr (2 ^ 63)"]) (auto intro!: exI [of _ 63])
  next
    case False
    then have "bucket_count_loop capacity (2 ^ 63) = Some (Inl EOVERFLOW)"
      by (subst bucket_count_loop.simps) (simp add: word_less_nat_alt half_size_max)
    then show ?thesis using False k by simp
  qed
next
  case (Suc d)
  then have k: "k < 63" by simp
  show ?case
  proof (cases "unat capacity \<le> 2 ^ k")
    case True
    then have "\<not> 2 ^ k < capacity" using Suc.prems(1) by (simp add: word_less_nat_alt unat_exp_word)
    then show ?thesis using True Suc.prems by (subst bucket_count_loop.simps) auto
  next
    case False
    have "(2 :: nat) ^ k \<le> 2 ^ 62" using k by (intro power_increasing) auto
    then have "\<not> (2 :: u64) ^ k > SIZE_MAX div 2"
      using k by (simp add: half_size_max word_less_nat_alt unat_exp_word)
    moreover have "(2 :: u64) ^ k < capacity" using False k by (simp add: word_less_nat_alt unat_exp_word)
    ultimately have "bucket_count_loop capacity (2 ^ k) = bucket_count_loop capacity (2 ^ Suc k)"
      by (subst bucket_count_loop.simps) (simp add: mult.commute)
    then show ?thesis using Suc.hyps(1) [of "Suc k"] Suc.hyps(2) k False Suc.prems(3) by simp
  qed
qed

lemma clear_buckets_chains:
  assumes "\<And>i. i < n \<Longrightarrow> chain nxt (buckets i) (L i)" "\<And>i. i < n \<Longrightarrow> distinct (L i)"
    "\<And>i j. i < n \<Longrightarrow> j < n \<Longrightarrow> i \<noteq> j \<Longrightarrow> set (L i) \<inter> set (L j) = {}"
  shows "clear_buckets n buckets nxt = Some (\<lambda>b. if b \<in> (\<Union>i<n. set (L i)) then None else nxt b)"
  using assms
proof (induction n)
  case (Suc n)
  then have IH: "clear_buckets n buckets nxt = Some (\<lambda>b. if b \<in> (\<Union>i<n. set (L i)) then None else nxt b)" by simp
  have "set (L n) \<inter> (\<Union>i<n. set (L i)) = {}" using Suc.prems(3) [of n] by (auto simp: disjoint_iff)
  then have "chain (\<lambda>b. if b \<in> (\<Union>i<n. set (L i)) then None else nxt b) (buckets n) (L n)"
    using Suc.prems(1) by (simp only: chain_clear)
  from clear_chain_chain [OF this] Suc.prems(2)
  have "clear_chain (\<lambda>b. if b \<in> (\<Union>i<n. set (L i)) then None else nxt b) (buckets n) =
      Some (\<lambda>b. if b \<in> set (L n) then None else if b \<in> (\<Union>i<n. set (L i)) then None else nxt b)" by simp
  also have "\<dots> = Some (\<lambda>b. if b \<in> (\<Union>i<Suc n. set (L i)) then None else nxt b)"
    by (auto simp: fun_eq_iff lessThan_Suc)
  finally show ?case by (simp add: IH)
qed simp

section \<open>Properties\<close>

text \<open>
  \<open>bpf2socks_udp_binding_index_init\<close> always returns. Its errors are \<open>EINVAL\<close> for an empty
  capacity, \<open>EOVERFLOW\<close> when the bucket array cannot be addressed and \<open>ENOMEM\<close> when \<open>calloc\<close>
  fails, and then no bucket array is left behind; on success the index is empty and its bucket
  count is the least power of two not below the capacity, so that masking a hash with it always
  gives a bucket of the array.
\<close>

theorem binding_index_init_correct:
  "\<exists>r ix'. bpf2socks_udp_binding_index_init ix capacity calloc_ok = Some (r, ix') \<and>
    (case r of
       Inl e \<Rightarrow> (if capacity = 0 then e = EINVAL \<and> ix' = ix
                 else ix' = empty_index \<and> (e = EOVERFLOW \<and> 2 ^ 60 < unat capacity \<or> e = ENOMEM \<and> (\<exists>c. \<not> calloc_ok c)))
     | Inr _ \<Rightarrow> index_rep bind (ix', nxt) [] \<and>
         (\<exists>k<61. ix_bucket_count ix' = 2 ^ k \<and> unat capacity \<le> 2 ^ k \<and> (k = 0 \<or> 2 ^ (k - 1) < unat capacity)))"
proof (cases "capacity = 0")
  case True
  then show ?thesis by (simp add: bpf2socks_udp_binding_index_init_def)
next
  case False
  then have nz: "unat capacity \<noteq> 0" by (simp add: unat_eq_0)
  obtain r where r: "bucket_count_loop capacity 1 = Some r" and
    rr: "case r of Inl e \<Rightarrow> e = EOVERFLOW \<and> 2 ^ 63 < unat capacity
     | Inr c \<Rightarrow> \<exists>j<64. c = 2 ^ j \<and> unat capacity \<le> 2 ^ j \<and> (j = 0 \<or> 2 ^ (j - 1) < unat capacity)"
    using bucket_count_loop_result [of 0 capacity] nz by auto
  show ?thesis
  proof (cases r)
    case (Inl e)
    with r rr False show ?thesis by (simp add: bpf2socks_udp_binding_index_init_def)
  next
    case (Inr c)
    with rr obtain j where j: "j < 64" "c = 2 ^ j" "unat capacity \<le> 2 ^ j" "j = 0 \<or> 2 ^ (j - 1) < unat capacity" by auto
    show ?thesis
    proof (cases "j < 61")
      case True
      have "(2 :: nat) ^ j \<le> 2 ^ 60" using True by (intro power_increasing) auto
      then have "\<not> (2 :: u64) ^ j > SIZE_MAX div 8"
        using j(1) by (simp add: half_size_max word_less_nat_alt unat_exp_word)
      moreover have "index_rep bind (\<lparr>ix_buckets = Some (\<lambda>_. None), ix_bucket_count = 2 ^ j\<rparr>, nxt) []"
        using j(1) by (auto simp: index_rep_def)
      ultimately show ?thesis using r Inr False True j
        by (cases "calloc_ok c") (auto simp: bpf2socks_udp_binding_index_init_def)
    next
      case False
      then have "(2 :: nat) ^ 61 \<le> 2 ^ j" "(2 :: nat) ^ 60 \<le> 2 ^ (j - 1)" by (intro power_increasing; simp)+
      then have "(2 :: u64) ^ j > SIZE_MAX div 8" "2 ^ 60 < unat capacity"
        using j False by (auto simp: half_size_max word_less_nat_alt unat_exp_word)
      then show ?thesis using r Inr \<open>capacity \<noteq> 0\<close> j by (simp add: bpf2socks_udp_binding_index_init_def)
    qed
  qed
qed

text \<open>
  C34. The hash index is a faithful keyed collection whatever collides: on an index that holds the
  bindings \<open>M\<close>, newest first, inserting a new valid binding always returns success and makes
  lookups of its key answer it while every other lookup is unchanged; removing it again returns
  true and restores every lookup. All traversals terminate.
\<close>

theorem binding_index_insert_find_remove:
  assumes "index_rep bind s M" "indexable bind b" "b \<notin> set M" "owner \<noteq> 0" "valid_original original"
  shows "\<exists>s' s'' n1 n2. bpf2socks_udp_binding_index_insert bind s b = Some (Inr (), s') \<and>
    index_rep bind s' (b # M) \<and>
    bpf2socks_udp_binding_index_find bind s' owner original =
      Some (if key_hit bind (owner, original) b then Some b else index_find_key bind s (owner, original), n1) \<and>
    bpf2socks_udp_binding_index_remove bind s' b = Some (True, s'') \<and>
    index_rep bind s'' M \<and>
    bpf2socks_udp_binding_index_find bind s'' owner original = Some (index_find_key bind s (owner, original), n2)"
proof -
  let ?k = "(owner, original)"
  have k: "index_key ?k" using assms(4,5) by (simp add: index_key_def)
  define s' where "s' = index_put bind s b"
  have ins: "bpf2socks_udp_binding_index_insert bind s b = Some (Inr (), s')"
    using index_insert(1) [OF assms(1,2)] assms(3) by (simp add: s'_def index_put_def)
  have rep': "index_rep bind s' (b # M)" unfolding s'_def by (rule bindings.insert_rep [OF assms(1-3)])
  obtain s'' where rem: "bpf2socks_udp_binding_index_remove bind s' b = Some (True, s'')" and rep'': "index_rep bind s'' M"
    using index_remove [OF rep' assms(2)] by auto
  obtain n1 where n1: "bpf2socks_udp_binding_index_find bind s' owner original = Some (List.find (key_hit bind ?k) (b # M), n1)"
    using index_find [OF rep' assms(4,5)] by blast
  obtain n2 where n2: "bpf2socks_udp_binding_index_find bind s'' owner original = Some (List.find (key_hit bind ?k) M, n2)"
    using index_find [OF rep'' assms(4,5)] by blast
  have "List.find (key_hit bind ?k) M = index_find_key bind s ?k" using bindings.find_rep [OF assms(1) k] by simp
  with ins rep' rem rep'' n1 n2 show ?thesis
    by (intro exI [of _ s'] exI [of _ s''] exI [of _ n1] exI [of _ n2]) simp
qed

theorem binding_index_insert_find_remove_witness:
  "\<exists>s'. bpf2socks_udp_binding_index_insert
      (\<lambda>_ :: nat. \<lparr>rb_used = True, rb_owner = 5, rb_original_dst = \<lparr>sa_family = 2, sa_port = 53, sa_addr = replicate 16 1\<rparr>\<rparr>)
      (\<lparr>ix_buckets = Some (\<lambda>_. None), ix_bucket_count = 2 ^ 2\<rparr>, Map.empty) 7 = Some (Inr (), s')"
proof -
  let ?a = "\<lparr>sa_family = 2, sa_port = 53, sa_addr = replicate 16 (1 :: u8)\<rparr>"
  let ?b = "\<lambda>_ :: nat. \<lparr>rb_used = True, rb_owner = 5, rb_original_dst = ?a\<rparr>"
  let ?s = "(\<lparr>ix_buckets = Some (\<lambda>_. None), ix_bucket_count = 2 ^ 2\<rparr>, Map.empty) :: nat index_heap"
  have "index_rep ?b ?s []" by (simp add: index_rep_def) (rule exI [of _ 2], simp)
  moreover have "indexable ?b 7" "valid_original ?a" by (simp_all add: indexable_def valid_original_def)
  ultimately show ?thesis
    using binding_index_insert_find_remove [of ?b ?s "[]" 7 5 ?a] by auto
qed

text \<open>
  \<open>bpf2socks_udp_binding_index_free\<close> returns on every well-formed index, leaves no bucket array
  and clears the \<open>hash_next\<close> field of exactly the bindings that were indexed.
\<close>

theorem binding_index_free_clears:
  assumes "index_rep bind s M"
  shows "bpf2socks_udp_binding_index_free s = Some (empty_index, \<lambda>b. if b \<in> set M then None else snd s b)"
proof -
  obtain k buckets where k: "k < 64" "ix_bucket_count (fst s) = 2 ^ k" and bk: "ix_buckets (fst s) = Some buckets"
    and ch: "\<forall>i<unat (2 ^ k :: u64). chain (snd s) (buckets i) (filter (\<lambda>b. binding_bucket bind (2 ^ k) b = i) M)"
    using assms by (auto simp: index_rep_def)
  let ?L = "\<lambda>i. filter (\<lambda>b. binding_bucket bind (2 ^ k) b = i) M"
  have "clear_buckets (unat (2 ^ k :: u64)) buckets (snd s) =
      Some (\<lambda>b. if b \<in> (\<Union>i<unat (2 ^ k :: u64). set (?L i)) then None else snd s b)"
    using ch assms by (intro clear_buckets_chains) (auto simp: index_rep_def)
  moreover have "(\<Union>i<unat (2 ^ k :: u64). set (?L i)) = set M"
    using bucket_bound [OF k(1)] by (auto simp: binding_bucket_def)
  ultimately have "clear_buckets (unat (2 ^ k :: u64)) buckets (snd s) = Some (\<lambda>b. if b \<in> set M then None else snd s b)"
    by (simp only:)
  then show ?thesis using k bk by (simp add: bpf2socks_udp_binding_index_free_def)
qed

theorem binding_index_free_clears_witness:
  "bpf2socks_udp_binding_index_free (\<lparr>ix_buckets = Some (\<lambda>_. None), ix_bucket_count = 2 ^ 2\<rparr>, [3 \<mapsto> 4 :: nat]) =
     Some (empty_index, [3 \<mapsto> 4])"
  using binding_index_free_clears [of undefined "(\<lparr>ix_buckets = Some (\<lambda>_. None), ix_bucket_count = 2 ^ 2\<rparr>, [3 \<mapsto> 4 :: nat])" "[]"]
    exI [of "\<lambda>k. k < (64 :: nat) \<and> (4 :: u64) = 2 ^ k" 2]
  by (simp add: index_rep_def fun_upd_def)

end
