(* ===== verification/Deadline.thy ===== *)
theory Deadline
  imports B2S_Prelude
begin

text \<open>
  \<open>bridge/deadline.c\<close>: the timers of the worker loops, and the deadline of a TCP connection as
  \<open>bridge/tcp.c\<close> computes it (\<open>connection_deadline\<close>). Times are milliseconds in \<open>uint64_t\<close>, a
  deadline of all ones means none, and the result of the wait functions is the C \<open>int\<close> given to
  \<open>epoll_wait\<close>, where \<open>-1\<close> waits without limit.
\<close>

section \<open>Model\<close>

definition NO_DEADLINE :: u64 where
  "NO_DEADLINE = - 1"

definition INT_MAX :: int where
  "INT_MAX = 2147483647"

definition WORKER_TIMED_WAIT_MILLISECONDS :: int where
  "WORKER_TIMED_WAIT_MILLISECONDS = 1000"

definition TCP_FD_BACKOFF_MILLISECONDS :: int where
  "TCP_FD_BACKOFF_MILLISECONDS = 1000"

definition bpf2socks_deadline_tcp_expired ::
  "u64 \<Rightarrow> u64 \<Rightarrow> u64 \<Rightarrow> bool \<Rightarrow> u32 \<Rightarrow> u32 \<Rightarrow> bool" where
  "bpf2socks_deadline_tcp_expired now_ms created last_activity relay_established connect_timeout idle_timeout =
     (if now_ms = 0 then False
      else if \<not> relay_established then
        (if created = 0 then False
         else connect_timeout \<noteq> 0 \<and> now_ms \<ge> created \<and> now_ms - created \<ge> ucast connect_timeout)
      else if last_activity = 0 then False
      else idle_timeout \<noteq> 0 \<and> now_ms \<ge> last_activity \<and> now_ms - last_activity \<ge> ucast idle_timeout)"

definition bpf2socks_deadline_note :: "u64 \<Rightarrow> u64 \<Rightarrow> u64" where
  "bpf2socks_deadline_note next_deadline deadline = (if deadline < next_deadline then deadline else next_deadline)"

definition deadline_wait_timeout :: "u64 \<Rightarrow> u64 \<Rightarrow> int" where
  "deadline_wait_timeout next_deadline now_ms =
     (if next_deadline = NO_DEADLINE then -1
      else if now_ms = 0 \<or> next_deadline \<le> now_ms then 0
      else let remaining = next_deadline - now_ms in
        if uint remaining > INT_MAX then INT_MAX else uint remaining)"

definition min_wait_timeout :: "int \<Rightarrow> int \<Rightarrow> int" where
  "min_wait_timeout timeout cap = (if timeout < 0 \<or> timeout > cap then cap else timeout)"

definition bpf2socks_deadline_tcp_wait_timeout :: "bool \<Rightarrow> u64 \<Rightarrow> u64 \<Rightarrow> bool \<Rightarrow> int" where
  "bpf2socks_deadline_tcp_wait_timeout listeners_paused next_deadline now_ms debug_stats =
     (let t0 = deadline_wait_timeout next_deadline now_ms;
          t1 = (if listeners_paused then min_wait_timeout t0 TCP_FD_BACKOFF_MILLISECONDS else t0)
      in if debug_stats then min_wait_timeout t1 WORKER_TIMED_WAIT_MILLISECONDS else t1)"

definition bpf2socks_deadline_udp_wait_timeout :: "u64 \<Rightarrow> u64 \<Rightarrow> bool \<Rightarrow> int" where
  "bpf2socks_deadline_udp_wait_timeout next_deadline now_ms debug_stats =
     (let t0 = deadline_wait_timeout next_deadline now_ms in
      if debug_stats then min_wait_timeout t0 WORKER_TIMED_WAIT_MILLISECONDS else t0)"

text \<open>\<open>connection_deadline\<close> of \<open>bridge/tcp.c\<close>, on the fields of the connection it reads.\<close>

definition connection_deadline :: "u32 \<Rightarrow> u32 \<Rightarrow> bool \<Rightarrow> u64 \<Rightarrow> u64 \<Rightarrow> u64" where
  "connection_deadline connect_timeout idle_timeout relay created last_activity =
     (if \<not> relay then
        (if created = 0 \<or> connect_timeout = 0 then NO_DEADLINE else created + ucast connect_timeout)
      else if last_activity = 0 \<or> idle_timeout = 0 then NO_DEADLINE
      else last_activity + ucast idle_timeout)"

section \<open>Correctness\<close>

lemma word_add_no_overflow:
  fixes a b :: "'a::len word"
  assumes "unat a + unat b < 2 ^ LENGTH('a)"
  shows "unat (a + b) = unat a + unat b"
  using assms by (simp add: unat_add_lem [THEN iffD1])

lemma elapsed_iff:
  fixes now start d :: u64
  assumes "unat start + unat d < 2 ^ 64"
  shows "start \<le> now \<and> now - start \<ge> d \<longleftrightarrow> start + d \<le> now"
  using assms by (auto simp: word_le_nat_alt word_add_no_overflow unat_sub)

lemma wait_timeout_bounds:
  "-1 \<le> deadline_wait_timeout d now \<and> deadline_wait_timeout d now \<le> INT_MAX"
proof -
  have "-1 \<le> uint (d - now)" by (rule order_trans [OF _ unsigned_greater_eq]) simp
  then show ?thesis by (auto simp: deadline_wait_timeout_def Let_def INT_MAX_def)
qed

lemma wait_timeout_not_late:
  assumes "d \<noteq> NO_DEADLINE" "now \<noteq> 0" "now < d"
  shows "0 < deadline_wait_timeout d now \<and> uint now + deadline_wait_timeout d now \<le> uint d"
proof -
  have "uint (d - now) = uint d - uint now" using assms(3) by (simp add: uint_minus_simple_alt [symmetric])
  moreover have "uint now < uint d" using assms(3) by (simp add: word_less_def)
  ultimately show ?thesis using assms by (auto simp: deadline_wait_timeout_def Let_def INT_MAX_def)
qed

section \<open>Properties\<close>

text \<open>
  The worker loop of the TCP bridge neither oversleeps nor spins: the timeout it passes to
  \<open>epoll_wait\<close> fits a C \<open>int\<close> and is \<open>-1\<close> only when there is no deadline and nothing else to poll
  for; with a deadline in the future it is positive and ends no later than the deadline; with a
  deadline due it is zero; and it never exceeds the back-off of paused listeners or the
  statistics period.
\<close>

theorem tcp_wait_never_oversleeps:
  "(case bpf2socks_deadline_tcp_wait_timeout paused d now stats of t \<Rightarrow>
     -1 \<le> t \<and> t \<le> INT_MAX \<and>
     (t = -1 \<longleftrightarrow> d = NO_DEADLINE \<and> \<not> paused \<and> \<not> stats) \<and>
     (if d = NO_DEADLINE then t \<noteq> 0
      else if now = 0 \<or> d \<le> now then t = 0
      else 0 < t \<and> uint now + t \<le> uint d) \<and>
     (if paused then t \<le> TCP_FD_BACKOFF_MILLISECONDS else True) \<and>
     (if stats then t \<le> WORKER_TIMED_WAIT_MILLISECONDS else True))"
proof -
  consider "d = NO_DEADLINE" | "d \<noteq> NO_DEADLINE" "now = 0 \<or> d \<le> now" | "d \<noteq> NO_DEADLINE" "now \<noteq> 0" "now < d"
    by fastforce
  then show ?thesis
  proof cases
    case 3
    with wait_timeout_not_late [OF 3] wait_timeout_bounds [of d now] show ?thesis
      by (auto simp: bpf2socks_deadline_tcp_wait_timeout_def min_wait_timeout_def Let_def INT_MAX_def
          TCP_FD_BACKOFF_MILLISECONDS_def WORKER_TIMED_WAIT_MILLISECONDS_def not_le)
  qed (auto simp: bpf2socks_deadline_tcp_wait_timeout_def min_wait_timeout_def deadline_wait_timeout_def Let_def
      TCP_FD_BACKOFF_MILLISECONDS_def WORKER_TIMED_WAIT_MILLISECONDS_def INT_MAX_def)
qed

text \<open>
  The scan and the timer agree: on a running clock, a connection counts as expired
  (\<open>bpf2socks_deadline_tcp_expired\<close>) exactly when the deadline \<open>connection_deadline\<close> noted for it
  has come, as long as its start time plus its timeout does not reach the 64-bit limit. So a
  connection whose noted deadline wakes the loop is closed by that scan, and one that is not
  yet expired is never closed early.
\<close>

theorem tcp_expiry_matches_deadline:
  assumes "now \<noteq> 0" "now \<noteq> NO_DEADLINE"
    and "unat (if relay then last_activity else created) +
      unat (if relay then idle_timeout else connect_timeout) < 2 ^ 64"
  shows "bpf2socks_deadline_tcp_expired now created last_activity relay connect_timeout idle_timeout \<longleftrightarrow>
    connection_deadline connect_timeout idle_timeout relay created last_activity \<le> now"
proof -
  have none: "\<not> NO_DEADLINE \<le> now"
    using assms(2) by (simp add: NO_DEADLINE_def word_order.extremum_unique)
  have up: "unat (ucast t :: u64) = unat t" for t :: u32 by (rule unat_ucast_up) simp
  have c: "created \<le> now \<and> now - created \<ge> ucast connect_timeout \<longleftrightarrow> created + ucast connect_timeout \<le> now" if "\<not> relay"
    using assms(3) that by (intro elapsed_iff) (simp add: up)
  have i: "last_activity \<le> now \<and> now - last_activity \<ge> ucast idle_timeout \<longleftrightarrow> last_activity + ucast idle_timeout \<le> now" if relay
    using assms(3) that by (intro elapsed_iff) (simp add: up)
  show ?thesis
    using none c i assms(1) by (auto simp: bpf2socks_deadline_tcp_expired_def connection_deadline_def)
qed

theorem tcp_expiry_matches_deadline_witness:
  "bpf2socks_deadline_tcp_expired 11000 1000 0 False 10000 0 \<and>
   \<not> bpf2socks_deadline_tcp_expired 10999 1000 0 False 10000 0"
  using tcp_expiry_matches_deadline [of 11000 False 0 1000 0 10000]
    tcp_expiry_matches_deadline [of 10999 False 0 1000 0 10000]
  by (simp add: NO_DEADLINE_def connection_deadline_def)

end
