(* ===== verification/Resource_Limits.thy ===== *)
theory Resource_Limits
  imports B2S_Prelude
begin

text \<open>
  \<open>core/resource_limits.c\<close>: sharing a capacity among workers and fitting the session capacities
  into the descriptor limit. The 32- and 64-bit arithmetic is the code's; \<open>getrlimit\<close> and
  \<open>setrlimit\<close> are parameters (the limits read, or \<open>None\<close> on failure; whether a new pair of limits
  is accepted).
\<close>

section \<open>Model\<close>

record bpf2socks_limits_capacity =
  lc_worker_count :: u32
  lc_max_tcp_sessions :: u32
  lc_max_udp_sessions :: u32
  lc_max_udp_bindings :: u32

definition bpf2socks_limits_worker_quota :: "u32 \<Rightarrow> u32 \<Rightarrow> u32 \<Rightarrow> u32" where
  "bpf2socks_limits_worker_quota total_n worker_id worker_count =
     (if worker_count = 0 \<or> worker_id \<ge> worker_count then 0
      else total_n div worker_count + (if worker_id < total_n mod worker_count then 1 else 0))"

definition session_fd_demand :: "u32 \<Rightarrow> u32 \<Rightarrow> u32 \<Rightarrow> u64" where
  "session_fd_demand max_tcp max_udp max_bindings =
     ucast max_tcp * 6 + ucast max_udp * 2 + ucast max_bindings * 1"

text \<open>The scaled-down share of one capacity.\<close>

definition scaled :: "u32 \<Rightarrow> u64 \<Rightarrow> u64 \<Rightarrow> u32" where
  "scaled n available requested = ucast ((ucast n * available) div requested)"

text \<open>The bindings grown into the descriptors that rounding left.\<close>

definition grown_bindings :: "u64 \<Rightarrow> u64 \<Rightarrow> u32 \<Rightarrow> u32 \<Rightarrow> u32" where
  "grown_bindings available used b bindings =
     (if used < available then
        (let grow0 = available - used;
             binding_room = ucast b - ucast bindings;
             grow = (if grow0 > binding_room then binding_room else grow0)
         in bindings + ucast grow)
      else bindings)"

definition bpf2socks_limits_fit_session_capacity ::
  "u64 \<Rightarrow> u64 \<Rightarrow> bpf2socks_limits_capacity \<Rightarrow> (errno + unit) \<times> bpf2socks_limits_capacity" where
  "bpf2socks_limits_fit_session_capacity nofile_limit reserve_fds c0 =
     (if lc_worker_count c0 = 0 \<or> lc_max_tcp_sessions c0 = 0 then (Inl EINVAL, c0)
      else if lc_max_udp_sessions c0 = 0 then (Inl EINVAL, c0)
      else
        let c = (if lc_max_udp_bindings c0 < lc_max_udp_sessions c0
                 then c0\<lparr>lc_max_udp_bindings := lc_max_udp_sessions c0\<rparr> else c0) in
        if nofile_limit = - 1 then (Inr (), c)
        else if nofile_limit = 0 \<or> nofile_limit \<le> reserve_fds then (Inl EMFILE, c)
        else
          let available = nofile_limit - reserve_fds;
              requested = session_fd_demand (lc_max_tcp_sessions c) (lc_max_udp_sessions c) (lc_max_udp_bindings c) in
          if requested \<le> available then (Inr (), c)
          else
            let tcp = scaled (lc_max_tcp_sessions c) available requested;
                udp = scaled (lc_max_udp_sessions c) available requested;
                bindings = scaled (lc_max_udp_bindings c) available requested in
            if tcp < lc_worker_count c \<or> udp < lc_worker_count c \<or> bindings < udp then (Inl EMFILE, c)
            else
              let used = session_fd_demand tcp udp bindings;
                  bindings' = grown_bindings available used (lc_max_udp_bindings c) bindings
              in (Inr (), c\<lparr>lc_max_tcp_sessions := tcp, lc_max_udp_sessions := udp, lc_max_udp_bindings := bindings'\<rparr>))"

text \<open>Limits as pairs (soft, hard); all ones is \<open>RLIM_INFINITY\<close>. The second result is what was set.\<close>

definition bpf2socks_limits_nofile_soft :: "(u64 \<times> u64) option \<Rightarrow> u64 option" where
  "bpf2socks_limits_nofile_soft getrlimit =
     (case getrlimit of None \<Rightarrow> None | Some (cur, _) \<Rightarrow> Some (if cur = - 1 then - 1 else cur))"

definition bpf2socks_limits_raise_nofile ::
  "(u64 \<times> u64) option \<Rightarrow> (u64 \<times> u64 \<Rightarrow> bool) \<Rightarrow> u32 \<Rightarrow> bool \<times> (u64 \<times> u64) option" where
  "bpf2socks_limits_raise_nofile getrlimit setrlimit requested =
     (case getrlimit of
        None \<Rightarrow> (False, None)
      | Some (cur, hard) \<Rightarrow>
          let target = (if ucast requested > hard then hard else ucast requested) in
          if cur \<ge> target then (True, None)
          else (setrlimit (target, hard), Some (target, hard)))"

definition bpf2socks_limits_raise_memlock ::
  "(u64 \<times> u64) option \<Rightarrow> (u64 \<times> u64 \<Rightarrow> bool) \<Rightarrow> bool \<times> (u64 \<times> u64) list" where
  "bpf2socks_limits_raise_memlock getrlimit setrlimit =
     (case getrlimit of
        None \<Rightarrow> (False, [])
      | Some (cur, hard) \<Rightarrow>
          if setrlimit (- 1, - 1) then (True, [(- 1, - 1)])
          else if cur \<ge> hard then (True, [(- 1, - 1)])
          else (setrlimit (hard, hard), [(- 1, - 1), (hard, hard)]))"

section \<open>Worker quotas\<close>

lemma unat_quota:
  assumes "worker_count \<noteq> 0" "worker_id < worker_count"
  shows "unat (bpf2socks_limits_worker_quota total_n worker_id worker_count) =
    unat total_n div unat worker_count + (if unat worker_id < unat total_n mod unat worker_count then 1 else 0)"
proof -
  have "unat total_n div unat worker_count + 1 < 2 ^ 32" if "unat worker_id < unat total_n mod unat worker_count"
  proof -
    have "unat worker_count \<noteq> 1" "unat worker_count \<noteq> 0" using that assms by (auto simp: unat_eq_0)
    then have "2 \<le> unat worker_count" by simp
    then have "unat total_n div unat worker_count \<le> unat total_n div 2" by (rule div_le_mono2 [rotated]) simp
    then show ?thesis using unsigned_less [of total_n, where ?'a = nat] by simp
  qed
  then have "unat (total_n div worker_count + 1) = unat total_n div unat worker_count + 1"
    if "unat worker_id < unat total_n mod unat worker_count"
    using that by (subst unat_add_lem [THEN iffD1]) (simp_all add: unat_div_distrib)
  then show ?thesis using assms
    by (auto simp: bpf2socks_limits_worker_quota_def unat_div_distrib unat_mod_distrib word_less_nat_alt word_le_nat_alt)
qed

lemma sum_quota_nat:
  assumes "0 < n"
  shows "(\<Sum>i<n. t div n + (if i < t mod n then 1 else 0)) = (t :: nat)"
proof -
  have "{i. i < n \<and> i < t mod n} = {..<t mod n}" using assms by (auto dest: less_trans [OF _ mod_less_divisor])
  then have "(\<Sum>i<n. if i < t mod n then 1 else 0) = t mod n"
    by (simp add: sum.If_cases lessThan_def Int_def)
  then show ?thesis by (simp add: sum.distrib)
qed

section \<open>Descriptor demand\<close>

definition fd_demand :: "nat \<Rightarrow> nat \<Rightarrow> nat \<Rightarrow> nat" where
  "fd_demand t u b = 6 * t + 2 * u + b"

lemma unat_ucast_64: "unat (ucast (n :: u32) :: u64) = unat n"
  by (rule unat_ucast_up) simp

lemma unat_demand: "unat (session_fd_demand t u b) = fd_demand (unat t) (unat u) (unat b)"
proof -
  have lt: "unat (x :: u32) < 2 ^ 32" for x using unsigned_less [of x, where ?'a = nat] by simp
  have m6: "unat (ucast t * 6 :: u64) = 6 * unat t"
    using lt [of t] by (subst unat_mult_lem [THEN iffD1]) (simp_all add: unat_ucast_64)
  have m2: "unat (ucast u * 2 :: u64) = 2 * unat u"
    using lt [of u] by (subst unat_mult_lem [THEN iffD1]) (simp_all add: unat_ucast_64)
  have s1: "unat (ucast t * 6 + ucast u * 2 :: u64) = 6 * unat t + 2 * unat u"
    using lt [of t] lt [of u] by (subst unat_add_lem [THEN iffD1]) (simp_all add: m6 m2)
  show ?thesis unfolding session_fd_demand_def fd_demand_def
    using lt [of t] lt [of u] lt [of b] by (subst unat_add_lem [THEN iffD1]) (simp_all add: s1 unat_ucast_64)
qed

lemma unat_scaled:
  assumes "unat n * unat a < 2 ^ 64" "a < d"
  shows "unat (scaled n a d) = unat n * unat a div unat d"
proof -
  have p: "unat (ucast n * a) = unat n * unat a"
    using assms(1) by (subst unat_mult_lem [THEN iffD1]) (simp_all add: unat_ucast_64)
  have "unat n * unat a div unat d \<le> unat n * unat d div unat d"
    using assms(2) by (intro div_le_mono mult_le_mono2) (simp add: word_less_nat_alt)
  also have "\<dots> \<le> unat n" by (cases "unat d = 0") auto
  finally have "unat ((ucast n * a) div d) < 2 ^ 32"
    using unsigned_less [of n, where ?'a = nat] by (simp add: unat_div_distrib p)
  then show ?thesis unfolding scaled_def by (simp add: unsigned_ucast_eq unat_div_distrib p take_bit_nat_eq_self)
qed

lemma scaled_demand_fits:
  assumes "a < fd_demand t u b"
  shows "fd_demand (t * a div fd_demand t u b) (u * a div fd_demand t u b) (b * a div fd_demand t u b) \<le> a"
proof -
  let ?d = "fd_demand t u b"
  have d: "0 < ?d" using assms by simp
  have "x * a div ?d * ?d \<le> x * a" for x by (rule div_times_less_eq_dividend)
  from mult_le_mono2 [OF this [of t], of 6] mult_le_mono2 [OF this [of u], of 2] this [of b]
  have "fd_demand (t * a div ?d) (u * a div ?d) (b * a div ?d) * ?d \<le> ?d * a"
    by (simp add: fd_demand_def algebra_simps)
  then show ?thesis using d by (simp add: mult.commute)
qed

lemma unat_grown:
  assumes "used \<le> available" "bindings \<le> b"
  shows "unat (grown_bindings available used b bindings) =
    unat bindings + min (unat available - unat used) (unat b - unat bindings)"
proof (cases "used < available")
  case False
  with assms have "used = available" by simp
  then show ?thesis by (simp add: grown_bindings_def)
next
  case True
  have room: "unat (ucast b - ucast bindings :: u64) = unat b - unat bindings"
    using assms(2) by (simp add: unat_sub word_le_nat_alt unat_ucast_64)
  have av: "unat (available - used) = unat available - unat used" using assms(1) by (simp add: unat_sub)
  define grow :: u64 where "grow = (if available - used > ucast b - ucast bindings then ucast b - ucast bindings else available - used)"
  have g: "unat grow = min (unat available - unat used) (unat b - unat bindings)"
    by (auto simp: grow_def room av word_less_nat_alt)
  have lt: "unat bindings + unat grow \<le> unat b" using assms(2) g by (simp add: word_le_nat_alt)
  then have "unat grow < 2 ^ 32" "unat bindings + unat grow < 2 ^ 32"
    using unsigned_less [of b, where ?'a = nat] by simp_all
  then have "unat (ucast grow :: u32) = unat grow" "unat (bindings + ucast grow) = unat bindings + unat grow"
    by (simp_all add: unsigned_ucast_eq take_bit_nat_eq_self unat_add_lem [THEN iffD1])
  then show ?thesis using True g by (simp add: grown_bindings_def Let_def grow_def)
qed

lemma fit_cut:
  assumes small: "t < 2 ^ 28" "u < 2 ^ 28" "b < 2 ^ 28" and a: "a < session_fd_demand t u b" and ub: "u \<le> b"
  defines "t' \<equiv> scaled t a (session_fd_demand t u b)" and "u' \<equiv> scaled u a (session_fd_demand t u b)"
    and "b' \<equiv> scaled b a (session_fd_demand t u b)"
  defines "b'' \<equiv> grown_bindings a (session_fd_demand t' u' b') b b'"
  shows "t' \<le> t" "u' \<le> u" "b'' \<le> b" "b' \<le> b''"
    and "fd_demand (unat t') (unat u') (unat b'') \<le> unat a"
    and "b'' = b \<or> fd_demand (unat t') (unat u') (unat b'') = unat a"
proof -
  let ?D = "fd_demand (unat t) (unat u) (unat b)"
  have s: "unat t < 2 ^ 28" "unat u < 2 ^ 28" "unat b < 2 ^ 28" using small by (simp_all add: word_less_nat_alt)
  have aD: "unat a < ?D" using a by (simp add: word_less_nat_alt unat_demand)
  then have a32: "unat a < 2 ^ 32" using s by (simp add: fd_demand_def)
  have prod: "unat n * unat a < 2 ^ 64" for n :: u32
  proof -
    have "unat n * unat a < 2 ^ 32 * 2 ^ 32"
      using a32 unsigned_less [of n, where ?'a = nat] by (intro mult_strict_mono) simp_all
    then show ?thesis by simp
  qed
  have sc: "unat (scaled n a (session_fd_demand t u b)) = unat n * unat a div ?D" for n
    using unat_scaled [OF prod a] by (simp add: unat_demand)
  have le: "unat n * unat a div ?D \<le> unat n" for n :: u32
  proof -
    have "unat n * unat a div ?D \<le> unat n * ?D div ?D" using aD by (intro div_le_mono mult_le_mono2) simp
    then show ?thesis using aD by simp
  qed
  show t: "t' \<le> t" and u: "u' \<le> u" by (simp_all add: t'_def u'_def word_le_nat_alt sc le)
  have b'b: "b' \<le> b" by (simp add: b'_def word_le_nat_alt sc le)
  have fit: "fd_demand (unat t') (unat u') (unat b') \<le> unat a"
    using scaled_demand_fits [OF aD] by (simp add: t'_def u'_def b'_def sc)
  then have "session_fd_demand t' u' b' \<le> a" by (simp add: word_le_nat_alt unat_demand)
  from unat_grown [OF this b'b]
  have ub'': "unat b'' = unat b' + min (unat a - fd_demand (unat t') (unat u') (unat b')) (unat b - unat b')"
    by (simp add: b''_def unat_demand)
  show "b'' \<le> b" "b' \<le> b''" using b'b by (auto simp: word_le_nat_alt ub'')
  show "fd_demand (unat t') (unat u') (unat b'') \<le> unat a" using fit by (simp add: fd_demand_def ub'')
  have "unat b'' = unat b \<or> fd_demand (unat t') (unat u') (unat b'') = unat a"
    using fit b'b by (auto simp: fd_demand_def ub'' word_le_nat_alt min_def)
  then show "b'' = b \<or> fd_demand (unat t') (unat u') (unat b'') = unat a" by (simp add: word_unat_eq_iff)
qed

section \<open>Properties\<close>

text \<open>
  The worker quotas share a capacity exactly: over all workers they add up to the total,
  and any two of them differ by at most one, so no session of the configured capacity is lost
  to rounding and none is granted twice.
\<close>

theorem worker_quota_shares_total:
  assumes "worker_count \<noteq> 0"
  shows "(\<Sum>i<unat worker_count. unat (bpf2socks_limits_worker_quota n (of_nat i) worker_count)) = unat n \<and>
    (\<forall>i j. i < worker_count \<and> j < worker_count \<longrightarrow>
       unat (bpf2socks_limits_worker_quota n i worker_count) \<le> unat (bpf2socks_limits_worker_quota n j worker_count) + 1)"
proof (intro conjI allI impI)
  have "unat (bpf2socks_limits_worker_quota n (of_nat i) worker_count) =
      unat n div unat worker_count + (if i < unat n mod unat worker_count then 1 else 0)"
    if "i < unat worker_count" for i
  proof -
    have "i < 2 ^ 32" using that unsigned_less [of worker_count, where ?'a = nat] by simp
    then have "unat (of_nat i :: u32) = i" by (simp add: unat_of_nat)
    then show ?thesis using unat_quota [OF assms, of "of_nat i" n] that by (simp add: word_less_nat_alt)
  qed
  then have "(\<Sum>i<unat worker_count. unat (bpf2socks_limits_worker_quota n (of_nat i) worker_count)) =
      (\<Sum>i<unat worker_count. unat n div unat worker_count + (if i < unat n mod unat worker_count then 1 else 0))"
    by (intro sum.cong) auto
  also have "\<dots> = unat n" using assms by (intro sum_quota_nat) (simp add: unat_gt_0)
  finally show "(\<Sum>i<unat worker_count. unat (bpf2socks_limits_worker_quota n (of_nat i) worker_count)) = unat n" .
next
  fix i j assume "i < worker_count \<and> j < worker_count"
  then show "unat (bpf2socks_limits_worker_quota n i worker_count) \<le> unat (bpf2socks_limits_worker_quota n j worker_count) + 1"
    using assms by (simp add: unat_quota)
qed

theorem worker_quota_shares_total_witness:
  "unat (bpf2socks_limits_worker_quota 10 0 3) \<le> unat (bpf2socks_limits_worker_quota 10 2 3) + 1"
  using conjunct2 [OF worker_quota_shares_total [of 3 10]] by simp



end
