(* ===== verification/C_Strings.thy ===== *)
theory C_Strings
  imports B2S_Prelude
begin

text \<open>
  The C library functions on strings that the sources call: \<open>strchr\<close>, \<open>strstr\<close>,
  \<open>strtoul\<close> in base ten, \<open>isspace\<close>. A C string is the list of its characters before
  the terminating NUL; a pointer into it is the suffix it points at, so the end of the
  string is the empty list.
\<close>

definition char_code :: "char \<Rightarrow> nat" where
  "char_code c = of_char c"

definition isspace_c :: "char \<Rightarrow> bool" where
  "isspace_c c \<longleftrightarrow> char_code c = 32 \<or> (9 \<le> char_code c \<and> char_code c \<le> 13)"

definition is_digit_c :: "char \<Rightarrow> bool" where
  "is_digit_c c \<longleftrightarrow> 48 \<le> char_code c \<and> char_code c \<le> 57"

definition digit_value :: "char \<Rightarrow> nat" where
  "digit_value c = char_code c - 48"

text \<open>The decimal value of a digit string, most significant digit first.\<close>

fun decimal :: "nat \<Rightarrow> string \<Rightarrow> nat" where
  "decimal acc [] = acc"
| "decimal acc (c # cs) = decimal (acc * 10 + digit_value c) cs"

text \<open>\<open>strchr(s, c)\<close>: the text before the first \<open>c\<close> and the suffix that starts with it.\<close>

definition strchr :: "string \<Rightarrow> char \<Rightarrow> (string \<times> string) option" where
  "strchr s c = (if c \<in> set s then Some (takeWhile (\<lambda>x. x \<noteq> c) s, dropWhile (\<lambda>x. x \<noteq> c) s) else None)"

text \<open>\<open>strstr(s, n)\<close>: the suffix of \<open>s\<close> at the first occurrence of \<open>n\<close>.\<close>

fun is_prefix_of :: "'a list \<Rightarrow> 'a list \<Rightarrow> bool" where
  "is_prefix_of [] ys = True"
| "is_prefix_of (x # xs) [] = False"
| "is_prefix_of (x # xs) (y # ys) = (x = y \<and> is_prefix_of xs ys)"

fun strstr :: "string \<Rightarrow> string \<Rightarrow> string option" where
  "strstr [] n = (if n = [] then Some [] else None)"
| "strstr (c # s) n = (if is_prefix_of n (c # s) then Some (c # s) else strstr s n)"

text \<open>
  \<open>strtoul(s, &end, 10)\<close> on a 64-bit \<open>unsigned long\<close>: leading white space and one sign
  are skipped and a minus sign negates modulo \<open>2^64\<close>. \<open>None\<close> stands for no conversion
  (\<open>end == s\<close>); otherwise the value, the text at \<open>end\<close> and whether \<open>errno\<close> was set
  to \<open>ERANGE\<close>.
\<close>

definition strtoul10 :: "string \<Rightarrow> (u64 \<times> string \<times> bool) option" where
  "strtoul10 s =
     (let t = dropWhile isspace_c s;
          neg = (t \<noteq> [] \<and> hd t = CHR ''-'');
          u = (if t \<noteq> [] \<and> (hd t = CHR ''-'' \<or> hd t = CHR ''+'') then tl t else t);
          ds = takeWhile is_digit_c u;
          v = decimal 0 ds
      in if ds = [] then None
         else if 2 ^ 64 \<le> v then Some (-1, dropWhile is_digit_c u, True)
         else Some (if neg then - of_nat v else of_nat v, dropWhile is_digit_c u, False))"

lemma is_prefix_of_append: "is_prefix_of n s \<longleftrightarrow> (\<exists>t. s = n @ t)"
  by (induction n s rule: is_prefix_of.induct) auto

lemma strstr_SomeD: "strstr s n = Some t \<Longrightarrow> \<exists>pre. s = pre @ t \<and> is_prefix_of n t"
proof (induction s n rule: strstr.induct)
  case (1 n)
  then show ?case by (auto split: if_splits)
next
  case (2 c s n)
  show ?case
  proof (cases "is_prefix_of n (c # s)")
    case True
    with "2.prems" show ?thesis by (intro exI [of _ "[]"]) simp
  next
    case False
    with 2 obtain pre where "s = pre @ t" "is_prefix_of n t" by auto
    then show ?thesis by (intro exI [of _ "c # pre"]) simp
  qed
qed

lemma strstr_NoneD: "strstr s n = None \<Longrightarrow> s \<noteq> pre @ n @ post"
proof (induction s n arbitrary: pre rule: strstr.induct)
  case (1 n)
  then show ?case by (auto split: if_splits)
next
  case (2 c s n)
  then have np: "\<not> is_prefix_of n (c # s)" and none: "strstr s n = None" by (auto split: if_splits)
  show ?case
  proof (cases pre)
    case Nil
    with np show ?thesis by (auto simp: is_prefix_of_append)
  next
    case (Cons d pre')
    with "2.IH" [OF np none, of pre'] show ?thesis by auto
  qed
qed

lemma strchr_SomeD:
  assumes "strchr s c = Some (a, b)"
  shows "s = a @ b" "c \<notin> set a" "\<exists>t. b = c # t"
proof -
  from assms have in_s: "c \<in> set s" and a: "a = takeWhile (\<lambda>x. x \<noteq> c) s" and b: "b = dropWhile (\<lambda>x. x \<noteq> c) s"
    by (auto simp: strchr_def split: if_splits)
  show "s = a @ b" by (simp add: a b)
  show "c \<notin> set a" using a by (auto dest: set_takeWhileD)
  from in_s have "b \<noteq> []" by (simp add: b)
  moreover have "hd b = c" using \<open>b \<noteq> []\<close> hd_dropWhile [of "\<lambda>x. x \<noteq> c" s] by (simp add: b)
  ultimately show "\<exists>t. b = c # t" by (cases b) auto
qed

lemma decimal_append: "decimal acc (xs @ ys) = decimal (decimal acc xs) ys"
  by (induction xs arbitrary: acc) auto

lemma decimal_mono: "acc \<le> decimal acc ds"
proof (induction ds arbitrary: acc)
  case (Cons c ds)
  have "acc \<le> acc * 10 + digit_value c" by simp
  also have "\<dots> \<le> decimal (acc * 10 + digit_value c) ds" by (rule Cons.IH)
  finally show ?case by simp
qed simp

end
