(* ===== verification/Json.thy ===== *)
theory Json
  imports C_Strings
begin

text \<open>
  \<open>core/json.c\<close>: the field readers of the configuration. They are not a JSON parser: a key is
  found by text search, and values are read at the position after the next colon. A position in
  the text is the suffix that starts there; output buffers are the text they hold. Reading the
  file is left out.
\<close>

section \<open>Model\<close>

abbreviation (input) QUOTE :: char where "QUOTE \<equiv> CHR 0x22"

definition json_whitespace :: "char \<Rightarrow> bool" where
  "json_whitespace c \<longleftrightarrow> c = CHR '' '' \<or> c = CHR 0x0A \<or> c = CHR 0x09 \<or> c = CHR 0x0D"

definition skip_json_whitespace :: "string \<Rightarrow> string" where
  "skip_json_whitespace s = dropWhile json_whitespace s"

text \<open>\<open>snprintf\<close> into 96 bytes keeps at most 95 characters.\<close>

definition quoted_key :: "string \<Rightarrow> string" where
  "quoted_key key = [QUOTE] @ key @ [QUOTE]"

definition json_value_pos :: "string \<Rightarrow> string \<Rightarrow> string option" where
  "json_value_pos json key =
     (case strstr json (take 95 (quoted_key key)) of
        None \<Rightarrow> None
      | Some pos \<Rightarrow> (case strchr pos (CHR '':'') of None \<Rightarrow> None | Some (_, colon) \<Rightarrow> Some (tl colon)))"

definition bpf2socks_json_object :: "string \<Rightarrow> string \<Rightarrow> string option" where
  "bpf2socks_json_object json key =
     (case json_value_pos json key of
        None \<Rightarrow> None
      | Some v \<Rightarrow> (case strchr v (CHR ''{'') of None \<Rightarrow> None | Some (_, b) \<Rightarrow> Some b))"

definition bpf2socks_json_has_key :: "string \<Rightarrow> string \<Rightarrow> bool" where
  "bpf2socks_json_has_key json key \<longleftrightarrow> json_value_pos json key \<noteq> None"

fun uint_loop :: "u64 \<Rightarrow> u64 \<Rightarrow> string \<Rightarrow> (u64 \<times> string) option" where
  "uint_loop max_value parsed [] = Some (parsed, [])"
| "uint_loop max_value parsed (c # cs) =
     (if is_digit_c c then
        (let parsed' = parsed * 10 + of_nat (digit_value c) in
         if parsed' > max_value then None else uint_loop max_value parsed' cs)
      else Some (parsed, c # cs))"

definition parse_json_uint :: "string \<Rightarrow> u32 \<Rightarrow> (u32 \<times> string) option" where
  "parse_json_uint pos max_value =
     (let p = skip_json_whitespace pos in
      if p = [] \<or> \<not> is_digit_c (hd p) then None
      else case uint_loop (ucast max_value) 0 p of
             None \<Rightarrow> None
           | Some (v, rest) \<Rightarrow> Some (ucast v, rest))"

text \<open>The result and the value left in \<open>*value\<close>.\<close>

definition bpf2socks_json_uint_field :: "string \<Rightarrow> string \<Rightarrow> u32 \<Rightarrow> u32 \<Rightarrow> bool \<times> u32" where
  "bpf2socks_json_uint_field json key max_value value =
     (case json_value_pos json key of
        None \<Rightarrow> (True, value)
      | Some pos \<Rightarrow> (case parse_json_uint pos max_value of None \<Rightarrow> (False, value) | Some (v, _) \<Rightarrow> (True, v)))"

definition bpf2socks_json_bool :: "string \<Rightarrow> string \<Rightarrow> bool \<Rightarrow> bool" where
  "bpf2socks_json_bool json key fallback =
     (case json_value_pos json key of
        None \<Rightarrow> fallback
      | Some pos \<Rightarrow>
          let p = skip_json_whitespace pos in
          if is_prefix_of ''true'' p then True else if is_prefix_of ''false'' p then False else fallback)"

text \<open>The result and the text left in the buffer of \<open>out_size\<close> bytes.\<close>

definition bpf2socks_json_string :: "string \<Rightarrow> string \<Rightarrow> nat \<Rightarrow> string \<Rightarrow> bool \<times> string" where
  "bpf2socks_json_string json key out_size out =
     (if out_size = 0 then (False, out)
      else case json_value_pos json key of
        None \<Rightarrow> (False, out)
      | Some pos \<Rightarrow>
          (case strchr pos QUOTE of
             None \<Rightarrow> (False, out)
           | Some (_, q) \<Rightarrow>
               (case strchr (tl q) QUOTE of
                  None \<Rightarrow> (False, out)
                | Some (text, _) \<Rightarrow> if length text \<ge> out_size then (False, []) else (True, text))))"

lemma uint_loop_rest:
  "uint_loop m p s = Some (v, rest) \<Longrightarrow> length rest \<le> length s"
  by (induction s arbitrary: p) (auto simp: Let_def split: if_splits intro: le_SucI)

lemma parse_json_uint_shorter:
  assumes "parse_json_uint pos m = Some (v, rest)"
  shows "length rest < length pos"
proof -
  let ?p = "skip_json_whitespace pos"
  obtain c cs where p: "?p = c # cs" and d: "is_digit_c c"
    using assms by (cases ?p) (auto simp: parse_json_uint_def Let_def split: if_splits)
  have "length rest \<le> length cs"
    using assms d uint_loop_rest by (fastforce simp: parse_json_uint_def Let_def p split: if_splits option.splits)
  moreover have "length ?p \<le> length pos" by (simp add: skip_json_whitespace_def length_dropWhile_le)
  ultimately show ?thesis using p by simp
qed

lemma skip_shorter: "length (skip_json_whitespace s) \<le> length s"
  by (simp add: skip_json_whitespace_def length_dropWhile_le)

text \<open>The element loop; the list is the elements stored so far.\<close>

function uint_array_loop :: "nat \<Rightarrow> u32 list \<Rightarrow> string \<Rightarrow> bool \<times> u32 list" where
  "uint_array_loop max_count acc pos =
     (if length acc \<ge> max_count then (False, acc)
      else case parse_json_uint pos (- 1) of
        None \<Rightarrow> (False, acc)
      | Some (v, rest) \<Rightarrow>
          (case skip_json_whitespace rest of
             [] \<Rightarrow> (False, acc @ [v])
           | c # cs \<Rightarrow>
               if c = CHR '']'' then (True, acc @ [v])
               else if c \<noteq> CHR '','' then (False, acc @ [v])
               else uint_array_loop max_count (acc @ [v]) (skip_json_whitespace cs)))"
  by pat_completeness auto
termination
proof (relation "measure (\<lambda>(_, _, pos). length pos)")
  fix max_count :: nat and acc :: "u32 list" and pos x v rest c cs
  assume "parse_json_uint pos (- 1) = Some x" "(v, rest) = x" "skip_json_whitespace rest = c # cs"
  then have "length rest < length pos" "length (c # cs) \<le> length rest"
    using parse_json_uint_shorter skip_shorter [of rest] by auto
  then show "((max_count, acc @ [v], skip_json_whitespace cs), (max_count, acc, pos)) \<in> measure (\<lambda>(_, _, pos). length pos)"
    using skip_shorter [of cs] by simp
qed simp

definition bpf2socks_json_uint_array :: "string \<Rightarrow> string \<Rightarrow> nat \<Rightarrow> bool \<times> u32 list" where
  "bpf2socks_json_uint_array json key max_count =
     (case json_value_pos json key of
        None \<Rightarrow> (True, [])
      | Some pos \<Rightarrow>
          (case skip_json_whitespace pos of
             [] \<Rightarrow> (False, [])
           | c # cs \<Rightarrow>
               if c \<noteq> CHR ''['' then (False, [])
               else let p = skip_json_whitespace cs in
                 if p \<noteq> [] \<and> hd p = CHR '']'' then (True, []) else uint_array_loop max_count [] p))"

text \<open>The search for the key of a string array skips occurrences no colon follows.\<close>

lemma strstr_shorter: "strstr s n = Some t \<Longrightarrow> length t \<le> length s"
  by (auto dest!: strstr_SomeD)

function key_colon_loop :: "string \<Rightarrow> string \<Rightarrow> string option" where
  "key_colon_loop needle pos =
     (if needle = [] then None
      else case strstr pos needle of
        None \<Rightarrow> None
      | Some candidate \<Rightarrow>
          let after_key = skip_json_whitespace (drop (length needle) candidate) in
          if after_key \<noteq> [] \<and> hd after_key = CHR '':'' then Some (skip_json_whitespace (tl after_key))
          else key_colon_loop needle (tl candidate))"
  by pat_completeness auto
termination
proof (relation "measure (\<lambda>(_, pos). length pos)")
  fix needle pos candidate and x :: string
  assume n: "needle \<noteq> []" and c: "strstr pos needle = Some candidate"
  then have "candidate \<noteq> []" "length candidate \<le> length pos"
    using strstr_shorter [OF c] strstr_SomeD [OF c] by (auto simp: is_prefix_of_append)
  then show "((needle, tl candidate), (needle, pos)) \<in> measure (\<lambda>(_, pos). length pos)"
    by (cases candidate) auto
qed simp

function string_array_loop :: "nat \<Rightarrow> nat \<Rightarrow> string list \<Rightarrow> string \<Rightarrow> bool \<times> string list" where
  "string_array_loop row_size max_count acc pos =
     (case pos of
        [] \<Rightarrow> (False, acc)
      | q # s \<Rightarrow>
          if length acc \<ge> max_count \<or> q \<noteq> QUOTE then (False, acc)
          else case strchr s QUOTE of
            None \<Rightarrow> (False, acc)
          | Some (body, close) \<Rightarrow>
              if length body \<ge> row_size then (False, acc)
              else (case skip_json_whitespace (tl close) of
                      [] \<Rightarrow> (False, acc @ [body])
                    | c # cs \<Rightarrow>
                        if c = CHR '']'' then (True, acc @ [body])
                        else if c \<noteq> CHR '','' then (False, acc @ [body])
                        else let p = skip_json_whitespace cs in
                          if p \<noteq> [] \<and> hd p = CHR '']'' then (False, acc @ [body])
                          else string_array_loop row_size max_count (acc @ [body]) p))"
  by pat_completeness auto
termination
proof (relation "measure (\<lambda>(_, _, _, pos). length pos)")
  fix row_size max_count :: nat and acc :: "string list" and pos q s x body close c cs p
  assume "pos = q # s" "strchr s QUOTE = Some x" "(body, close) = x"
    and w: "skip_json_whitespace (tl close) = c # cs" and p: "p = skip_json_whitespace cs"
  then have "length close \<le> length s" "pos = q # s" using strchr_SomeD(1) [of s QUOTE body close] by auto
  moreover have "length (c # cs) \<le> length (tl close)" using skip_shorter [of "tl close"] w by simp
  ultimately show "((row_size, max_count, acc @ [body], p), (row_size, max_count, acc, pos))
      \<in> measure (\<lambda>(_, _, _, pos). length pos)"
    using skip_shorter [of cs] p by simp
qed simp

definition bpf2socks_json_string_array :: "string \<Rightarrow> string \<Rightarrow> nat \<Rightarrow> nat \<Rightarrow> bool \<times> string list" where
  "bpf2socks_json_string_array json key row_size max_count =
     (if row_size = 0 then (False, [])
      else if length (quoted_key key) \<ge> 96 then (False, [])
      else case key_colon_loop (quoted_key key) json of
        None \<Rightarrow> (True, [])
      | Some pos \<Rightarrow>
          (case pos of
             [] \<Rightarrow> (False, [])
           | c # cs \<Rightarrow>
               if c \<noteq> CHR ''['' then (False, [])
               else let p = skip_json_whitespace cs in
                 if p \<noteq> [] \<and> hd p = CHR '']'' then (True, []) else string_array_loop row_size max_count [] p))"

definition hex_digit :: "nat \<Rightarrow> char" where
  "hex_digit n = (if n < 10 then char_of (48 + n) else char_of (87 + n))"

definition print_char :: "char \<Rightarrow> string" where
  "print_char c =
     (if c = QUOTE \<or> c = CHR 0x5C then [CHR 0x5C, c]
      else if char_code c < 32 then [CHR 0x5C, CHR ''u'', CHR ''0'', CHR ''0'', hex_digit (char_code c div 16), hex_digit (char_code c mod 16)]
      else [c])"

definition bpf2socks_json_print_string :: "string \<Rightarrow> string" where
  "bpf2socks_json_print_string value = [QUOTE] @ concat (map print_char value) @ [QUOTE]"

declare uint_array_loop.simps [simp del] key_colon_loop.simps [simp del] string_array_loop.simps [simp del]

section \<open>Numbers\<close>

lemma digit_value_less: "is_digit_c c \<Longrightarrow> digit_value c < 10"
  by (auto simp: is_digit_c_def digit_value_def)

lemma uint_loop_eq:
  assumes "unat p \<le> unat m" "unat m < 2 ^ 32"
  shows "uint_loop m p s =
    (let v = decimal (unat p) (takeWhile is_digit_c s)
     in if v \<le> unat m then Some (of_nat v, dropWhile is_digit_c s) else None)"
  using assms
proof (induction s arbitrary: p)
  case Nil
  then show ?case by simp
next
  case (Cons c s)
  show ?case
  proof (cases "is_digit_c c")
    case False
    with Cons.prems show ?thesis by simp
  next
    case True
    let ?n = "unat p * 10 + digit_value c"
    have n: "?n < 2 ^ 64" using Cons.prems digit_value_less [OF True] by simp
    have "p * 10 + of_nat (digit_value c) = of_nat ?n" by simp
    then have u: "unat (p * 10 + of_nat (digit_value c)) = ?n" using n by (simp only: unat_of_nat) simp
    have mono: "?n \<le> decimal ?n (takeWhile is_digit_c s)" by (rule decimal_mono)
    show ?thesis
    proof (cases "?n \<le> unat m")
      case le: True
      then show ?thesis using Cons.IH [of "p * 10 + of_nat (digit_value c)"] Cons.prems True
        by (simp add: u Let_def word_less_nat_alt)
    next
      case False
      then show ?thesis using mono True by (simp add: u Let_def word_less_nat_alt)
    qed
  qed
qed

lemma parse_json_uint_eq:
  "parse_json_uint pos m =
    (let p = skip_json_whitespace pos; ds = takeWhile is_digit_c p
     in if ds \<noteq> [] \<and> decimal 0 ds \<le> unat m then Some (of_nat (decimal 0 ds), dropWhile is_digit_c p) else None)"
proof -
  have m: "unat (ucast m :: u64) = unat m" by (rule unat_ucast_up) simp
  have m32: "unat m < 2 ^ 32" using unsigned_less [of m, where ?'a = nat] by simp
  have cast: "(ucast (of_nat n :: u64) :: u32) = of_nat n" if "n \<le> unat m" for n
    using that m32 by (simp add: word_unat_eq_iff unsigned_ucast_eq unat_of_nat take_bit_nat_eq_self)
  show ?thesis
  proof (cases "skip_json_whitespace pos")
    case Nil
    then show ?thesis by (simp add: parse_json_uint_def)
  next
    case (Cons c cs)
    have "uint_loop (ucast m) 0 (c # cs) =
        (let v = decimal 0 (takeWhile is_digit_c (c # cs))
         in if v \<le> unat m then Some (of_nat v, dropWhile is_digit_c (c # cs)) else None)"
      using uint_loop_eq [of 0 "ucast m" "c # cs"] m m32 by simp
    then show ?thesis using Cons cast
      by (auto simp: parse_json_uint_def Let_def simp del: uint_loop.simps decimal.simps)
  qed
qed

text \<open>The decimal numeral of a number, as a JSON writer prints it.\<close>

fun numeral_text :: "nat \<Rightarrow> string" where
  "numeral_text n = (if n < 10 then [char_of (48 + n)] else numeral_text (n div 10) @ [char_of (48 + n mod 10)])"

declare numeral_text.simps [simp del]

lemma char_code_char_of [simp]: "n < 256 \<Longrightarrow> char_code (char_of n) = n"
  by (simp add: char_code_def)

lemma digit_char: "n < 10 \<Longrightarrow> is_digit_c (char_of (48 + n)) \<and> digit_value (char_of (48 + n)) = n"
  by (simp add: is_digit_c_def digit_value_def)

lemma numeral_text_digits: "\<forall>c\<in>set (numeral_text n). is_digit_c c"
proof (induction n rule: numeral_text.induct)
  case (1 n)
  then show ?case using digit_char [of n] digit_char [of "n mod 10"]
    by (subst numeral_text.simps) auto
qed

lemma decimal_numeral_text: "decimal 0 (numeral_text n) = n"
proof (induction n rule: numeral_text.induct)
  case (1 n)
  then show ?case using digit_char [of n] digit_char [of "n mod 10"]
    by (subst numeral_text.simps) (auto simp: decimal_append)
qed

lemma numeral_text_nonempty: "numeral_text n \<noteq> []"
  by (subst numeral_text.simps) simp

section \<open>Arrays of numbers\<close>

text \<open>Elements with white space before them, separated by commas and closed by a bracket.\<close>

definition blank :: "string \<Rightarrow> bool" where
  "blank w \<longleftrightarrow> (\<forall>c\<in>set w. json_whitespace c)"

fun elements_text :: "string \<Rightarrow> nat list \<Rightarrow> string" where
  "elements_text w [] = '']''"
| "elements_text w [n] = w @ numeral_text n @ w @ '']''"
| "elements_text w (n # ns) = w @ numeral_text n @ w @ '','' @ elements_text w ns"

lemma not_digit_or_space:
  "json_whitespace c \<Longrightarrow> \<not> is_digit_c c" "\<not> is_digit_c (CHR '']'')" "\<not> is_digit_c (CHR '','')"
  "\<not> json_whitespace (CHR '']'')" "\<not> json_whitespace (CHR '','')" "\<not> json_whitespace (CHR ''['')"
  by (auto simp: json_whitespace_def is_digit_c_def char_code_def)

lemma skip_blank: "blank w \<Longrightarrow> skip_json_whitespace (w @ s) = skip_json_whitespace s"
  by (induction w) (auto simp: skip_json_whitespace_def blank_def)

lemma skip_solid: "\<not> json_whitespace c \<Longrightarrow> skip_json_whitespace (c # s) = c # s"
  by (simp add: skip_json_whitespace_def)

lemma digit_solid: "is_digit_c c \<Longrightarrow> \<not> json_whitespace c"
  using not_digit_or_space(1) by blast

lemma skip_numeral: "skip_json_whitespace (numeral_text n @ s) = numeral_text n @ s"
  using numeral_text_digits [of n] numeral_text_nonempty [of n] digit_solid
  by (cases "numeral_text n") (auto simp: skip_json_whitespace_def)

lemma takeWhile_digits:
  assumes "\<forall>c\<in>set ds. is_digit_c c" "s = [] \<or> \<not> is_digit_c (hd s)"
  shows "takeWhile is_digit_c (ds @ s) = ds" "dropWhile is_digit_c (ds @ s) = s"
  using assms by (induction ds) (cases s; auto)+

lemma parse_numeral:
  assumes "blank w" "n < 2 ^ 32" "s = [] \<or> \<not> is_digit_c (hd s)"
  shows "parse_json_uint (w @ numeral_text n @ s) (- 1) = Some (of_nat n, s)"
  using assms takeWhile_digits [OF numeral_text_digits assms(3), of n] numeral_text_nonempty [of n]
  by (simp add: parse_json_uint_eq skip_blank skip_numeral decimal_numeral_text Let_def unsigned_minus_1_eq_mask mask_eq_exp_minus_1)

lemma blank_head:
  assumes "blank w" "\<not> is_digit_c c"
  shows "\<not> is_digit_c (hd (w @ c # s))"
  using assms not_digit_or_space(1) by (cases w) (auto simp: blank_def)

lemma uint_array_loop_skip: "uint_array_loop n xs (skip_json_whitespace s) = uint_array_loop n xs s"
proof -
  have "parse_json_uint (skip_json_whitespace s) m = parse_json_uint s m" for m
    by (simp add: parse_json_uint_def skip_json_whitespace_def dropWhile_idem)
  then show ?thesis by (simp add: uint_array_loop.simps [of n xs])
qed

lemma uint_array_loop_elements:
  "blank w \<Longrightarrow> ns \<noteq> [] \<Longrightarrow> \<forall>n\<in>set ns. n < 2 ^ 32 \<Longrightarrow> length acc \<le> max_count \<Longrightarrow>
    uint_array_loop max_count acc (elements_text w ns @ s) =
      (if length acc + length ns \<le> max_count then (True, acc @ map of_nat ns)
       else (False, take max_count (acc @ map of_nat ns)))"
proof (induction w ns arbitrary: acc rule: elements_text.induct)
  case (2 w n)
  have "parse_json_uint (elements_text w [n] @ s) (- 1) = Some (of_nat n, w @ CHR '']'' # s)"
    using 2 parse_numeral [of w n "w @ CHR '']'' # s"] blank_head [of w "CHR '']''" s] not_digit_or_space
    by simp
  then show ?case using 2
    by (simp add: uint_array_loop.simps [of max_count acc] skip_blank skip_solid not_digit_or_space)
next
  case (3 w n m ns)
  let ?s = "elements_text w (m # ns) @ s"
  have "parse_json_uint (elements_text w (n # m # ns) @ s) (- 1) = Some (of_nat n, w @ CHR '','' # ?s)"
    using 3 parse_numeral [of w n "w @ CHR '','' # ?s"] blank_head [of w "CHR '',''" ?s] not_digit_or_space
    by simp
  then show ?case using 3 uint_array_loop_skip
    by (simp add: uint_array_loop.simps [of max_count acc] skip_blank skip_solid not_digit_or_space)
qed simp

section \<open>Strings\<close>

text \<open>The text a JSON reader recovers from the inside of a string literal; \<open>None\<close> if it is malformed.\<close>

definition hex_value :: "char \<Rightarrow> nat option" where
  "hex_value c =
     (if is_digit_c c then Some (char_code c - 48)
      else if 97 \<le> char_code c \<and> char_code c \<le> 102 then Some (char_code c - 87) else None)"

fun unescape :: "string \<Rightarrow> string option" where
  "unescape [] = Some []"
| "unescape (c # d # cs) =
     (if c \<noteq> CHR 0x5C then (if c = QUOTE \<or> char_code c < 32 then None else map_option ((#) c) (unescape (d # cs)))
      else if d = QUOTE \<or> d = CHR 0x5C then map_option ((#) d) (unescape cs)
      else if d \<noteq> CHR ''u'' then None
      else case cs of
        z1 # z2 # h # l # rest \<Rightarrow>
          (case (hex_value h, hex_value l) of
             (Some a, Some b) \<Rightarrow>
               if z1 = CHR ''0'' \<and> z2 = CHR ''0'' then map_option ((#) (char_of (16 * a + b))) (unescape rest) else None
           | _ \<Rightarrow> None)
      | _ \<Rightarrow> None)"
| "unescape [c] = (if c = QUOTE \<or> c = CHR 0x5C \<or> char_code c < 32 then None else Some [c])"

lemma hex_digit_value: "n < 16 \<Longrightarrow> hex_value (hex_digit n) = Some n"
  by (auto simp: hex_value_def hex_digit_def is_digit_c_def)

lemma char_code_lt: "char_code c < 256"
  by (simp add: char_code_def)

lemma char_of_code [simp]: "char_of (char_code c) = c"
  by (simp add: char_code_def)

lemma unescape_print_char: "unescape (print_char c @ s) = map_option ((#) c) (unescape s)"
proof -
  consider "c = QUOTE \<or> c = CHR 0x5C" | "c \<noteq> QUOTE" "c \<noteq> CHR 0x5C" "char_code c < 32"
    | "c \<noteq> QUOTE" "c \<noteq> CHR 0x5C" "\<not> char_code c < 32" by blast
  then show ?thesis
  proof cases
    case 2
    have "16 * (char_code c div 16) + char_code c mod 16 = char_code c" by simp
    then show ?thesis using 2
      by (simp add: print_char_def hex_digit_value hex_digit_value [of "char_code c div 16"] less_mult_imp_div_less)
  next
    case 3
    then show ?thesis by (cases s) (simp_all add: print_char_def)
  qed (auto simp: print_char_def)
qed

lemma unescape_printed: "unescape (concat (map print_char str)) = Some str"
  by (induction str) (simp_all add: unescape_print_char)

section \<open>Properties\<close>

text \<open>
  Reading a number: \<open>parse_json_uint\<close> succeeds exactly when a decimal digit follows the white
  space and the whole run of digits denotes a number not above the limit, however long the run
  is (the 64-bit accumulator never wraps), and yields that number and the text after the run.
\<close>

theorem json_uint_exact:
  "parse_json_uint pos max_value = Some (v, rest) \<longleftrightarrow>
    (\<exists>blanks digits. pos = blanks @ digits @ rest \<and> blank blanks \<and> digits \<noteq> [] \<and>
       (\<forall>c\<in>set digits. is_digit_c c) \<and> (rest = [] \<or> \<not> is_digit_c (hd rest)) \<and>
       decimal 0 digits \<le> unat max_value \<and> unat v = decimal 0 digits)"
    (is "?l \<longleftrightarrow> ?r")
proof
  let ?p = "skip_json_whitespace pos"
  have split: "pos = takeWhile json_whitespace pos @ ?p" by (simp add: skip_json_whitespace_def)
  assume ?l
  then have v: "v = of_nat (decimal 0 (takeWhile is_digit_c ?p))" "rest = dropWhile is_digit_c ?p"
    and le: "decimal 0 (takeWhile is_digit_c ?p) \<le> unat max_value" "takeWhile is_digit_c ?p \<noteq> []"
    by (auto simp: parse_json_uint_eq Let_def split: if_splits)
  have "decimal 0 (takeWhile is_digit_c ?p) < 2 ^ 32"
    using le(1) unsigned_less [of max_value, where ?'a = nat] by simp
  then have "unat v = decimal 0 (takeWhile is_digit_c ?p)" using v(1) by (simp add: unat_of_nat)
  moreover have "blank (takeWhile json_whitespace pos)" by (auto simp: blank_def dest: set_takeWhileD)
  moreover have "rest = [] \<or> \<not> is_digit_c (hd rest)" using v(2) hd_dropWhile by blast
  moreover have "\<forall>c\<in>set (takeWhile is_digit_c ?p). is_digit_c c" by (auto dest: set_takeWhileD)
  moreover have "pos = takeWhile json_whitespace pos @ takeWhile is_digit_c ?p @ rest" using split v(2) by simp
  ultimately show ?r using le by blast
next
  assume ?r
  then obtain bs ds where p: "pos = bs @ ds @ rest" and b: "blank bs" and ds: "ds \<noteq> []" "\<forall>c\<in>set ds. is_digit_c c"
    and r: "rest = [] \<or> \<not> is_digit_c (hd rest)" and le: "decimal 0 ds \<le> unat max_value" and v: "unat v = decimal 0 ds"
    by blast
  have "skip_json_whitespace pos = ds @ rest"
    using ds digit_solid by (cases ds) (auto simp: p skip_blank [OF b] skip_solid)
  moreover have "of_nat (decimal 0 ds) = v" by (simp flip: v)
  ultimately show ?l using takeWhile_digits [OF ds(2) r] le ds(1) by (simp add: parse_json_uint_eq Let_def)
qed

theorem json_uint_exact_witness:
  "parse_json_uint '' 42,'' 100 = Some (42, '','') \<and> list_all is_digit_c ''42''"
proof -
  have d: "list_all is_digit_c ''42''" by code_simp
  have "'' 42,'' = '' '' @ ''42'' @ '','' \<and> blank '' '' \<and> ''42'' \<noteq> [] \<and> (\<forall>c\<in>set ''42''. is_digit_c c) \<and>
      ('','' = [] \<or> \<not> is_digit_c (hd '','')) \<and> decimal 0 ''42'' \<le> unat (100 :: u32) \<and> unat (42 :: u32) = decimal 0 ''42''"
    by code_simp
  then show ?thesis using d json_uint_exact by blast
qed

text \<open>
  Reading an array of numbers: when the text after a key is an array of 32-bit numbers, with
  any white space between its tokens, \<open>bpf2socks_json_uint_array\<close> stores exactly these numbers in
  order when they fit the array, and otherwise fails having stored no more than fit.
\<close>

theorem json_uint_array_reads_back:
  assumes "json_value_pos json key = Some (w @ ''['' @ elements_text w ns @ s)" "blank w" "\<forall>n\<in>set ns. n < 2 ^ 32"
  shows "bpf2socks_json_uint_array json key max_count =
    (if length ns \<le> max_count then (True, map of_nat ns) else (False, take max_count (map of_nat ns)))"
proof (cases "ns = []")
  case True
  with assms show ?thesis
    by (simp add: bpf2socks_json_uint_array_def skip_blank skip_solid not_digit_or_space Let_def)
next
  case False
  have solid: "skip_json_whitespace (elements_text w ns @ s) \<noteq> [] \<and> hd (skip_json_whitespace (elements_text w ns @ s)) = CHR '']'' \<Longrightarrow> False"
  proof -
    assume br: "skip_json_whitespace (elements_text w ns @ s) \<noteq> [] \<and> hd (skip_json_whitespace (elements_text w ns @ s)) = CHR '']''"
    obtain n t where "elements_text w ns @ s = w @ numeral_text n @ t"
      using False by (cases "(w, ns)" rule: elements_text.cases) auto
    then have "skip_json_whitespace (elements_text w ns @ s) = numeral_text n @ t"
      using assms(2) by (simp add: skip_blank skip_numeral)
    then show False using br numeral_text_digits [of n] numeral_text_nonempty [of n] not_digit_or_space(2)
      by (cases "numeral_text n") auto
  qed
  then have "bpf2socks_json_uint_array json key max_count = uint_array_loop max_count [] (elements_text w ns @ s)"
    using assms(1,2) uint_array_loop_skip
    by (auto simp: bpf2socks_json_uint_array_def skip_blank skip_solid not_digit_or_space Let_def)
  then show ?thesis using uint_array_loop_elements [OF assms(2) False assms(3), of "[]" max_count s] by simp
qed

theorem json_uint_array_reads_back_witness:
  "bpf2socks_json_uint_array (''{'' @ quoted_key ''uids'' @ '': [ 10123 , 7 ]}'') ''uids'' 8 = (True, [10123, 7])"
proof -
  have "json_value_pos (''{'' @ quoted_key ''uids'' @ '': [ 10123 , 7 ]}'') ''uids'' =
      Some ('' '' @ ''['' @ elements_text '' '' [10123, 7] @ ''}'')"
    by (simp add: json_value_pos_def quoted_key_def strchr_def numeral_text.simps char_of_def bit_0)
  from json_uint_array_reads_back [OF this, of 8] show ?thesis by (simp add: blank_def json_whitespace_def)
qed

text \<open>
  The string printer writes one well-formed JSON string literal: between its quotes every
  quote, backslash and control character is escaped, so that a JSON reader finds the closing
  quote only at the end and recovers exactly the printed text.
\<close>

theorem json_print_string_roundtrip:
  "\<exists>inner. bpf2socks_json_print_string str = [QUOTE] @ inner @ [QUOTE] \<and> unescape inner = Some str"
  using unescape_printed [of str] by (auto simp: bpf2socks_json_print_string_def)

text \<open>
  The readers are laxer than their documentation: a value that is not a string is not rejected
  when any later text is quoted, and a fraction is read as its integer part.
\<close>

lemma json_string_reads_past_number:
  "bpf2socks_json_string (''{'' @ quoted_key ''a'' @ '':5,'' @ quoted_key ''b'' @ '':6}'') ''a'' 16 [] = (True, ''b'')"
  by (simp add: bpf2socks_json_string_def json_value_pos_def quoted_key_def strchr_def)

lemma json_uint_reads_fraction:
  "bpf2socks_json_uint_field (''{'' @ quoted_key ''a'' @ '':1.5}'') ''a'' 100 0 = (True, 1)"
  by (simp add: bpf2socks_json_uint_field_def json_value_pos_def quoted_key_def strchr_def parse_json_uint_eq
      skip_json_whitespace_def json_whitespace_def is_digit_c_def char_code_def digit_value_def Let_def)

end
