(* ===== verification/Token_Prefix.thy ===== *)
theory Token_Prefix
  imports C_Strings
begin

text \<open>
  \<open>core/token_prefix.c\<close>: the IPv4 and IPv6 token prefixes. A token address is an address
  inside the configured prefix; the kernel programs and the bridge agree on tokens only if
  both decide membership the same way, so both prefix tests are related here to one
  specification, agreement on the first \<open>k\<close> bits of the address.
\<close>

section \<open>Model\<close>

definition bpf2socks_token_prefix_host_mask4 :: "u32 \<Rightarrow> u32" where
  "bpf2socks_token_prefix_host_mask4 prefix_bits =
     (if prefix_bits > 32 then 0
      else if prefix_bits = 0 then -1
      else if prefix_bits = 32 then 0
      else drop_bit (unat prefix_bits) (-1))"

definition bpf2socks_token_prefix_imm4 :: "bytes \<Rightarrow> u32 \<Rightarrow> u32" where
  "bpf2socks_token_prefix_imm4 prefix prefix_bits =
     (if prefix_bits > 32 then 0
      else be32 prefix AND NOT (bpf2socks_token_prefix_host_mask4 prefix_bits))"

definition bpf2socks_token_prefix_match4 :: "bytes \<Rightarrow> bytes \<Rightarrow> u32 \<Rightarrow> bool" where
  "bpf2socks_token_prefix_match4 addr_net prefix prefix_bits =
     (if prefix_bits > 32 then False
      else (let mask = NOT (bpf2socks_token_prefix_host_mask4 prefix_bits)
            in be32 addr_net AND mask = be32 prefix AND mask))"

text \<open>\<open>inet_pton4\<close> stands for \<open>inet_pton(AF_INET, ...)\<close>: the four bytes, or \<open>None\<close>.\<close>

definition bpf2socks_token_prefix_parse4 ::
  "(string \<Rightarrow> bytes option) \<Rightarrow> string \<Rightarrow> errno + (bytes \<times> u32)" where
  "bpf2socks_token_prefix_parse4 inet_pton4 text =
     (case strchr text (CHR ''/'') of
        None \<Rightarrow> Inl EINVAL
      | Some (address, slash) \<Rightarrow>
          if slash \<noteq> ''/9'' then Inl EINVAL
          else if length address = 0 \<or> length address \<ge> 16 then Inl EINVAL
          else (case inet_pton4 address of
                  None \<Rightarrow> Inl EINVAL
                | Some parsed \<Rightarrow>
                    if parsed \<noteq> [127, 128, 0, 0] then Inl EINVAL
                    else Inr (parsed, 9)))"

text \<open>
  The text is copied into a buffer of \<open>INET6_ADDRSTRLEN + 5 = 51\<close> bytes first; a longer
  text is rejected. The lower eight bytes of the parsed address are cleared.
\<close>

definition bpf2socks_token_prefix_parse6 ::
  "(string \<Rightarrow> bytes option) \<Rightarrow> string \<Rightarrow> errno + (bytes \<times> u32)" where
  "bpf2socks_token_prefix_parse6 inet_pton6 text =
     (if length text \<ge> 51 then Inl EINVAL
      else case strchr text (CHR ''/'') of
        None \<Rightarrow> Inl EINVAL
      | Some (buffer, slash) \<Rightarrow>
          (case strtoul10 (tl slash) of
             None \<Rightarrow> Inl EINVAL
           | Some (parsed_bits, rest, erange) \<Rightarrow>
               if erange \<or> rest \<noteq> [] \<or> parsed_bits \<noteq> 64 then Inl EINVAL
               else (case inet_pton6 buffer of
                       None \<Rightarrow> Inl EINVAL
                     | Some out \<Rightarrow> Inr (take 8 out @ zero_bytes 8, ucast parsed_bits))))"

definition bpf2socks_token_prefix_match6 :: "bytes \<Rightarrow> bytes \<Rightarrow> u32 \<Rightarrow> bool" where
  "bpf2socks_token_prefix_match6 addr prefix prefix_bits =
     (if prefix_bits > 128 then False
      else if prefix_bits = 0 then True
      else
        (let full_bytes = unat (prefix_bits div 8);
             remaining_bits = unat (prefix_bits mod 8)
         in if full_bytes > 0 \<and> take full_bytes addr \<noteq> take full_bytes prefix then False
            else if remaining_bits = 0 then True
            else (let mask = (ucast (push_bit (8 - remaining_bits) (0xff :: u32)) :: u8)
                  in (addr ! full_bytes) AND mask = (prefix ! full_bytes) AND mask)))"

text \<open>\<open>memcpy(&value, prefix + offset, 4)\<close>: the four bytes as they lie in memory.\<close>

definition bpf2socks_token_prefix_word6 :: "bytes \<Rightarrow> nat \<Rightarrow> bytes" where
  "bpf2socks_token_prefix_word6 prefix offset =
     (if offset > 12 then zero_bytes 4 else take 4 (drop offset prefix))"

section \<open>Specification: agreement on the leading bits\<close>

definition addr_bit :: "bytes \<Rightarrow> nat \<Rightarrow> bool" where
  "addr_bit a i = bit (a ! (i div 8)) (7 - i mod 8)"

definition prefix_agree :: "nat \<Rightarrow> bytes \<Rightarrow> bytes \<Rightarrow> bool" where
  "prefix_agree k a p \<longleftrightarrow> (\<forall>i<k. addr_bit a i = addr_bit p i)"

text \<open>
  The contract of a prefix test on addresses of \<open>width\<close> bytes, and what any client of such a
  test may rely on.
\<close>

locale prefix_test =
  fixes matches :: "bytes \<Rightarrow> bytes \<Rightarrow> u32 \<Rightarrow> bool"
    and width :: nat
  assumes matches_iff:
    "length a = width \<Longrightarrow> length p = width \<Longrightarrow> unat k \<le> 8 * width \<Longrightarrow>
       matches a p k \<longleftrightarrow> prefix_agree (unat k) a p"
begin

lemma refl: "length p = width \<Longrightarrow> unat k \<le> 8 * width \<Longrightarrow> matches p p k"
  by (simp add: matches_iff prefix_agree_def)

lemma same_pool:
  assumes "length a = width" "length b = width" "length p = width" "unat k \<le> 8 * width"
    and "matches a p k" "matches b p k"
  shows "matches a b k"
  using assms by (simp add: matches_iff prefix_agree_def)

lemma narrow:
  assumes "length a = width" "length p = width" "unat k \<le> 8 * width" "k' \<le> k" "matches a p k"
  shows "matches a p k'"
proof -
  have "unat k' \<le> unat k" using assms(4) by (simp add: word_le_nat_alt)
  with assms show ?thesis by (auto simp: matches_iff prefix_agree_def)
qed

lemma everything: "length a = width \<Longrightarrow> length p = width \<Longrightarrow> matches a p 0"
  by (simp add: matches_iff prefix_agree_def)

lemma host: "length a = width \<Longrightarrow> length p = width \<Longrightarrow> unat k = 8 * width \<Longrightarrow> matches a p k \<longleftrightarrow> a = p"
proof -
  assume l: "length a = width" "length p = width" and k: "unat k = 8 * width"
  have "a = p" if agree: "prefix_agree (8 * width) a p"
  proof (rule nth_equalityI)
    show "length a = length p" using l by simp
    fix j assume j: "j < length a"
    show "a ! j = p ! j"
    proof (rule bit_word_eqI)
      fix n assume "n < LENGTH(8)"
      then have n: "n < 8" by simp
      define t where "t = 7 - n"
      have t: "t < 8" "7 - t = n" using n by (simp_all add: t_def)
      have "8 * j + t < 8 * width" using j l t by simp
      then have "addr_bit a (8 * j + t) = addr_bit p (8 * j + t)"
        using agree by (simp add: prefix_agree_def)
      with t show "bit (a ! j) n = bit (p ! j) n" by (simp add: addr_bit_def)
    qed
  qed
  then show ?thesis using matches_iff [OF l, of k] k by (auto simp: prefix_agree_def)
qed

end

section \<open>The IPv4 and IPv6 tests meet the contract\<close>

lemma bit_host_mask4:
  assumes "prefix_bits \<le> 32" "n < 32"
  shows "bit (bpf2socks_token_prefix_host_mask4 prefix_bits) n \<longleftrightarrow> n < 32 - unat prefix_bits"
proof -
  have "unat prefix_bits \<le> 32" using assms(1) by (simp add: word_le_nat_alt)
  moreover have "\<not> prefix_bits > 32" using assms(1) by simp
  moreover have "prefix_bits = 32 \<longleftrightarrow> unat prefix_bits = 32" by (simp add: word_unat_eq_iff)
  moreover have "prefix_bits = 0 \<longleftrightarrow> unat prefix_bits = 0" by (simp add: unat_eq_0)
  ultimately show ?thesis using assms(2)
    by (auto simp: bpf2socks_token_prefix_host_mask4_def bit_drop_bit_eq bit_mask_iff)
qed

lemma addr_bit_be32: "i < 32 \<Longrightarrow> addr_bit a i = bit (be32 a) (31 - i)"
proof -
  assume i: "i < 32"
  define q r where "q = i div 8" and "r = i mod 8"
  have iqr: "i = 8 * q + r" "r < 8" "q < 4" using i by (auto simp: q_def r_def)
  define t where "t = 7 - r"
  have t: "t < 8" "31 - i = 8 * (3 - q) + t" using iqr by (simp_all add: t_def)
  then have "(31 - i) mod 8 = 7 - r" "(31 - i) div 8 = 3 - q" by (simp_all add: t_def [symmetric])
  then show ?thesis using i iqr by (simp add: addr_bit_def bit_be32 q_def [symmetric] r_def [symmetric])
qed

text \<open>Counting bits from the top instead of from the bottom.\<close>

lemma all_mirror:
  assumes "(k::nat) \<le> m"
  shows "(\<forall>n<m. m - k \<le> n \<longrightarrow> P n) \<longleftrightarrow> (\<forall>i<k. P (m - 1 - i))"
proof (rule iffI; intro allI impI)
  fix i assume "\<forall>n<m. m - k \<le> n \<longrightarrow> P n" "i < k"
  moreover from \<open>i < k\<close> assms have "m - 1 - i < m" "m - k \<le> m - 1 - i" by simp_all
  ultimately show "P (m - 1 - i)" by blast
next
  fix n assume all: "\<forall>i<k. P (m - 1 - i)" and "n < m" "m - k \<le> n"
  then have "m - 1 - n < k" "m - 1 - (m - 1 - n) = n" using assms by simp_all
  with all show "P n" by metis
qed

lemma match4_iff:
  assumes "unat k \<le> 32"
  shows "bpf2socks_token_prefix_match4 a p k \<longleftrightarrow> prefix_agree (unat k) a p"
proof -
  have k: "k \<le> 32" "\<not> k > 32" using assms by (simp_all add: word_le_nat_alt word_less_nat_alt)
  let ?m = "NOT (bpf2socks_token_prefix_host_mask4 k)"
  have m: "bit ?m n \<longleftrightarrow> 32 - unat k \<le> n" if "n < 32" for n
    using that k(1) by (auto simp: bit_not_iff bit_host_mask4)
  have "(be32 a AND ?m = be32 p AND ?m) \<longleftrightarrow> (\<forall>n<32. 32 - unat k \<le> n \<longrightarrow> bit (be32 a) n = bit (be32 p) n)"
    by (auto simp: bit_eq_iff bit_and_iff m dest: bit_imp_le_length)
  also have "\<dots> \<longleftrightarrow> (\<forall>i<unat k. bit (be32 a) (31 - i) = bit (be32 p) (31 - i))"
    using all_mirror [OF assms, of "\<lambda>n. bit (be32 a) n = bit (be32 p) n"] by simp
  also have "\<dots> \<longleftrightarrow> prefix_agree (unat k) a p" using assms by (auto simp: prefix_agree_def addr_bit_be32)
  finally show ?thesis using k(2) by (simp add: bpf2socks_token_prefix_match4_def Let_def)
qed

lemma byte_mask_eq_iff:
  assumes "0 < r" "r < 8"
  shows "(x AND (ucast (push_bit (8 - r) (0xff :: u32)) :: u8) = y AND ucast (push_bit (8 - r) (0xff :: u32)))
           \<longleftrightarrow> (\<forall>t<r. bit x (7 - t) = bit y (7 - t))"
proof -
  let ?m = "ucast (push_bit (8 - r) (0xff :: u32)) :: u8"
  have m: "bit ?m n \<longleftrightarrow> 8 - r \<le> n" if "n < 8" for n
    using that assms by (auto simp: bit_ucast_iff bit_push_bit_iff bit_0xff)
  have "(x AND ?m = y AND ?m) \<longleftrightarrow> (\<forall>n<8. 8 - r \<le> n \<longrightarrow> bit x n = bit y n)"
    by (auto simp: bit_eq_iff bit_and_iff m dest: bit_imp_le_length)
  also have "\<dots> \<longleftrightarrow> (\<forall>t<r. bit x (7 - t) = bit y (7 - t))"
    using all_mirror [of r 8 "\<lambda>n. bit x n = bit y n"] assms by simp
  finally show ?thesis .
qed

lemma byte_eq_iff: "x = (y :: u8) \<longleftrightarrow> (\<forall>t<8. bit x (7 - t) = bit y (7 - t))"
proof
  assume all: "\<forall>t<8. bit x (7 - t) = bit y (7 - t)"
  show "x = y"
  proof (rule bit_word_eqI)
    fix n assume "n < LENGTH(8)"
    then have "7 - n < 8" "7 - (7 - n) = n" by simp_all
    with all show "bit x n = bit y n" by metis
  qed
qed simp

lemma prefix_agree_bytes:
  assumes "q \<le> length a" "length a = length p"
  shows "prefix_agree (8 * q) a p \<longleftrightarrow> take q a = take q p"
proof -
  have "take q a = take q p \<longleftrightarrow> (\<forall>j<q. a ! j = p ! j)"
    using assms by (auto simp: list_eq_iff_nth_eq)
  also have "\<dots> \<longleftrightarrow> (\<forall>j<q. \<forall>t<8. bit (a ! j) (7 - t) = bit (p ! j) (7 - t))"
    by (simp add: byte_eq_iff)
  also have "\<dots> \<longleftrightarrow> prefix_agree (8 * q) a p"
  proof (rule iffI)
    assume all: "\<forall>j<q. \<forall>t<8. bit (a ! j) (7 - t) = bit (p ! j) (7 - t)"
    show "prefix_agree (8 * q) a p" unfolding prefix_agree_def addr_bit_def
    proof (intro allI impI)
      fix i assume "i < 8 * q"
      then have "i div 8 < q" "i mod 8 < 8" by auto
      with all show "bit (a ! (i div 8)) (7 - i mod 8) = bit (p ! (i div 8)) (7 - i mod 8)" by blast
    qed
  next
    assume ag: "prefix_agree (8 * q) a p"
    show "\<forall>j<q. \<forall>t<8. bit (a ! j) (7 - t) = bit (p ! j) (7 - t)"
    proof (intro allI impI)
      fix j t :: nat assume j: "j < q" and t: "t < 8"
      have "8 * j + t < 8 * q" "(8 * j + t) div 8 = j" "(8 * j + t) mod 8 = t" using j t by simp_all
      with ag show "bit (a ! j) (7 - t) = bit (p ! j) (7 - t)"
        unfolding prefix_agree_def addr_bit_def by metis
    qed
  qed
  finally show ?thesis by simp
qed

lemma all_less_add: "(\<forall>i<m + (n::nat). P i) \<longleftrightarrow> (\<forall>i<m. P i) \<and> (\<forall>t<n. P (m + t))"
proof (induction n)
  case (Suc n)
  then show ?case by (auto simp: less_Suc_eq)
qed simp

lemma prefix_agree_split:
  assumes "r < 8"
  shows "prefix_agree (8 * q + r) a p \<longleftrightarrow>
           prefix_agree (8 * q) a p \<and> (\<forall>t<r. bit (a ! q) (7 - t) = bit (p ! q) (7 - t))"
proof -
  have idx: "(8 * q + t) div 8 = q" "(8 * q + t) mod 8 = t" if "t < r" for t using that assms by simp_all
  have "prefix_agree (8 * q + r) a p \<longleftrightarrow>
          prefix_agree (8 * q) a p \<and> (\<forall>t<r. addr_bit a (8 * q + t) = addr_bit p (8 * q + t))"
    unfolding prefix_agree_def
    by (auto simp: all_less_add)
  then show ?thesis using idx by (auto simp: addr_bit_def)
qed

lemma match6_iff:
  assumes l: "length a = 16" "length p = 16" and k: "unat k \<le> 128"
  shows "bpf2socks_token_prefix_match6 a p k \<longleftrightarrow> prefix_agree (unat k) a p"
proof -
  define q where "q = unat (k div 8)"
  define r where "r = unat (k mod 8)"
  have q: "q = unat k div 8" and r: "r = unat k mod 8"
    by (simp_all add: q_def r_def unat_div_distrib unat_mod_distrib)
  have kqr: "unat k = 8 * q + r" and r8: "r < 8" using q r by simp_all
  have nk: "\<not> k > 128" using k by (simp add: word_less_nat_alt)
  have q16: "q \<le> 16" using kqr k by linarith
  show ?thesis
  proof (cases "k = 0")
    case True
    then show ?thesis by (simp add: bpf2socks_token_prefix_match6_def prefix_agree_def)
  next
    case False
    have "prefix_agree (unat k) a p \<longleftrightarrow>
            take q a = take q p \<and> (\<forall>t<r. bit (a ! q) (7 - t) = bit (p ! q) (7 - t))"
      using prefix_agree_split [OF r8, of q a p] prefix_agree_bytes [of q a p] q16 l kqr by simp
    moreover have "bpf2socks_token_prefix_match6 a p k \<longleftrightarrow>
            take q a = take q p \<and> (r = 0 \<or> (\<forall>t<r. bit (a ! q) (7 - t) = bit (p ! q) (7 - t)))"
      using nk False byte_mask_eq_iff [of r "a ! q" "p ! q"] r8
      by (auto simp: bpf2socks_token_prefix_match6_def q_def [symmetric] r_def [symmetric] Let_def)
    ultimately show ?thesis by auto
  qed
qed

interpretation token4: prefix_test bpf2socks_token_prefix_match4 4
  by unfold_locales (simp add: match4_iff)

interpretation token6: prefix_test bpf2socks_token_prefix_match6 16
  by unfold_locales (simp add: match6_iff)

section \<open>Parsing\<close>

lemma parse4_InrD:
  assumes "bpf2socks_token_prefix_parse4 pton t = Inr (p, b)"
  shows "p = [127, 128, 0, 0] \<and> b = 9 \<and> (\<exists>addr. t = addr @ ''/9'' \<and> pton addr = Some p)"
  using assms
  by (auto simp: bpf2socks_token_prefix_parse4_def split: option.splits prod.splits if_splits
        dest!: strchr_SomeD(1))

lemma parse6_InrD:
  assumes "bpf2socks_token_prefix_parse6 pton t = Inr (p, b)"
  shows "b = 64 \<and> (\<exists>out. p = take 8 out @ zero_bytes 8 \<and> (\<exists>addr. pton addr = Some out))"
  using assms
  by (auto simp: bpf2socks_token_prefix_parse6_def split: option.splits prod.splits if_splits)

section \<open>Properties\<close>

lemma match6_64: "length a = 16 \<Longrightarrow> length p = 16 \<Longrightarrow> bpf2socks_token_prefix_match6 a p 64 \<longleftrightarrow> take 8 a = take 8 p"
  using prefix_agree_bytes [of 8 a p] by (simp add: match6_iff)

lemma match4_9:
  assumes "length a = 4"
  shows "bpf2socks_token_prefix_match4 a [127, 128, 0, 0] 9 \<longleftrightarrow> a ! 0 = 127 \<and> bit (a ! 1) 7"
proof -
  have b: "addr_bit [127, 128, 0, 0] i = bit (127 :: u8) (7 - i)" if "i < 8" for i
    using that by (simp add: addr_bit_def)
  have "prefix_agree 9 a [127, 128, 0, 0] \<longleftrightarrow>
      (\<forall>i<8. addr_bit a i = addr_bit [127, 128, 0, 0] i) \<and> addr_bit a 8 = addr_bit [127, 128, 0, 0] 8"
    unfolding prefix_agree_def by (simp add: less_Suc_eq numeral_eq_Suc all_conj_distrib imp_conjL)
  also have "(\<forall>i<8. addr_bit a i = addr_bit [127, 128, 0, 0] i) \<longleftrightarrow> a ! 0 = 127"
    using prefix_agree_bytes [of 1 a "[127, 128, 0, 0]"] assms
    by (auto simp: prefix_agree_def take_Suc_conv_app_nth)
  also have "addr_bit a 8 = addr_bit [127, 128, 0, 0] 8 \<longleftrightarrow> addr_bit a 8" by (simp add: addr_bit_def)
  finally show ?thesis using assms by (simp add: match4_iff addr_bit_def)
qed

text \<open>
  C29. Whatever prefixes the configuration parser accepts, the two membership tests decide the
  intended address pools: every accepted IPv4 prefix makes the tokens exactly the addresses
  127.128.0.0 to 127.255.255.255, and every accepted IPv6 prefix makes them exactly the
  addresses that share the first 64 bits with the parsed address. \<open>inet_pton\<close> is a parameter
  that yields sixteen bytes for an IPv6 address.
\<close>

theorem token_pools_exact:
  assumes "bpf2socks_token_prefix_parse4 pton4 t4 = Inr (p4, b4)" "length a4 = 4"
    and "\<And>x out. pton6 x = Some out \<Longrightarrow> length out = 16"
    and "bpf2socks_token_prefix_parse6 pton6 t6 = Inr (p6, b6)" "length a6 = 16"
  shows "(bpf2socks_token_prefix_match4 a4 p4 b4 \<longleftrightarrow> a4 ! 0 = 127 \<and> a4 ! 1 \<ge> 128) \<and>
    (bpf2socks_token_prefix_match6 a6 p6 b6 \<longleftrightarrow> take 8 a6 = take 8 p6)"
proof -
  have ge: "(w :: u8) \<ge> 128 \<longleftrightarrow> bit w 7" for w
  proof -
    have "unat w div 128 = 0 \<or> unat w div 128 = 1" using unsigned_less [of w, where ?'a = nat] by auto
    moreover have "bit w 7 \<longleftrightarrow> bit (unat w) 7" by (simp add: bit_unsigned_iff)
    ultimately show ?thesis by (auto simp: bit_iff_odd word_le_nat_alt)
  qed
  have "length p6 = 16" "b6 = 64" using parse6_InrD [OF assms(4)] assms(3) by (auto simp: zero_bytes_def)
  then show ?thesis using parse4_InrD [OF assms(1)] match4_9 [OF assms(2)] match6_64 [OF assms(5)] ge by simp
qed

theorem token_pools_exact_witness:
  "bpf2socks_token_prefix_match4 [127, 200, 3, 4] [127, 128, 0, 0] 9"
proof -
  let ?p4 = "\<lambda>_ :: string. Some [127, 128, 0, 0 :: u8]" and ?p6 = "\<lambda>_ :: string. Some (replicate 16 (7 :: u8))"
  have 4: "bpf2socks_token_prefix_parse4 ?p4 ''127.128.0.0/9'' = Inr ([127, 128, 0, 0], 9)"
    by (simp add: bpf2socks_token_prefix_parse4_def strchr_def)
  have st: "strtoul10 ''64'' = Some (64, [], False)"
    by (simp add: strtoul10_def isspace_c_def is_digit_c_def char_code_def digit_value_def Let_def)
  have 6: "bpf2socks_token_prefix_parse6 ?p6 ''fd00::/64'' = Inr (replicate 8 7 @ replicate 8 0, 64)"
    by (simp add: bpf2socks_token_prefix_parse6_def strchr_def st zero_bytes_def)
  show ?thesis using token_pools_exact [OF 4 _ _ 6, of "[127, 200, 3, 4]" "replicate 16 0"] by (simp add: word_le_nat_alt)
qed

end
