(* ===== verification/Policy.thy ===== *)
theory Policy
  imports Token_Prefix
begin

text \<open>
  \<open>bpf/policy.c\<close> and \<open>bpf/interface_selector.c\<close>: filling the kernel's UID and CIDR maps from the
  policy, and interface selectors. The kernel's maps are reached through operations given as a
  parameter: a lookup and an update that may fail. \<open>inet_pton\<close> is a parameter too, the bytes of a
  text address. A file is its text; \<open>fgets\<close> with a buffer of 256 bytes cuts it into pieces of at
  most 255 characters that end after a newline.
\<close>

section \<open>Model\<close>

definition interface_selector_bounded_length :: "string \<Rightarrow> nat" where
  "interface_selector_bounded_length s = min 32 (length s)"

definition interface_selector_character_valid :: "char \<Rightarrow> bool" where
  "interface_selector_character_valid c \<longleftrightarrow>
     (65 \<le> char_code c \<and> char_code c \<le> 90) \<or> (97 \<le> char_code c \<and> char_code c \<le> 122) \<or>
     (48 \<le> char_code c \<and> char_code c \<le> 57) \<or> c = CHR ''_'' \<or> c = CHR ''.'' \<or> c = CHR ''-''"

definition bpf2socks_interface_selector_valid :: "string \<Rightarrow> bool" where
  "bpf2socks_interface_selector_valid selector =
     (let len = interface_selector_bounded_length selector in
      if len = 0 \<or> len > 15 \<or> len \<ge> 32 then False
      else let ordinary = (if selector ! (len - 1) = CHR ''+'' then len - 1 else len) in
        if ordinary = 0 then False
        else list_all interface_selector_character_valid (take ordinary selector))"

definition bpf2socks_interface_matches_selector :: "string \<Rightarrow> string \<Rightarrow> bool" where
  "bpf2socks_interface_matches_selector name selector =
     (let len = interface_selector_bounded_length selector in
      if len = 0 \<or> len \<ge> 32 then False
      else if selector ! (len - 1) = CHR ''+''
        then len > 1 \<and> is_prefix_of (take (len - 1) selector) name
        else name = selector)"

text \<open>Kernel maps: a lookup and an update that yields the new map, or \<open>None\<close> when it fails.\<close>

record ('m, 'k, 'v) map_ops =
  mo_lookup :: "'m \<Rightarrow> 'k \<Rightarrow> 'v option"
  mo_update :: "'m \<Rightarrow> 'k \<Rightarrow> 'v \<Rightarrow> 'm option"

definition UID_SELECTED :: u32 where "UID_SELECTED = 1"
definition UID_BYPASS :: u32 where "UID_BYPASS = 2"
definition MAX_UIDS :: nat where "MAX_UIDS = 8192"

primrec update_all :: "('m, u32, u32) map_ops \<Rightarrow> u32 \<Rightarrow> u32 list \<Rightarrow> 'm \<Rightarrow> bool \<times> 'm" where
  "update_all ops v [] m = (True, m)"
| "update_all ops v (u # us) m =
     (case mo_update ops m u v of None \<Rightarrow> (False, m) | Some m' \<Rightarrow> update_all ops v us m')"

definition bpf2socks_policy_load_uids ::
  "('m, u32, u32) map_ops \<Rightarrow> u32 list \<Rightarrow> u32 list \<Rightarrow> 'm \<Rightarrow> bool \<times> 'm" where
  "bpf2socks_policy_load_uids ops uids bypass_uids m =
     (case update_all ops UID_SELECTED (take MAX_UIDS uids) m of
        (False, m1) \<Rightarrow> (False, m1)
      | (True, m1) \<Rightarrow> update_all ops UID_BYPASS (take MAX_UIDS bypass_uids) m1)"

definition trim_line :: "string \<Rightarrow> string" where
  "trim_line line = rev (dropWhile isspace_c (rev (dropWhile isspace_c line)))"

text \<open>A key of the trie: the prefix length and the address bytes.\<close>

type_synonym lpm_key = "u32 \<times> bytes"

definition mask_tail6 :: "bytes \<Rightarrow> nat \<Rightarrow> bytes" where
  "mask_tail6 addr prefix =
     (if prefix < 128 then
        (let full_bytes = prefix div 8; rest_bits = prefix mod 8 in
         if full_bytes < 16 then
           (if rest_bits = 0 then take full_bytes addr @ zero_bytes (16 - full_bytes)
            else (let mask = (ucast (push_bit (8 - rest_bits) (0xff :: u32)) :: u8) in
              take full_bytes addr @ [addr ! full_bytes AND mask] @ zero_bytes (16 - full_bytes - 1)))
         else addr)
      else addr)"

definition parse_cidr ::
  "(string \<Rightarrow> bytes option) \<Rightarrow> (string \<Rightarrow> bytes option) \<Rightarrow> int \<Rightarrow> string \<Rightarrow> lpm_key option" where
  "parse_cidr inet_pton4 inet_pton6 expected_family line =
     (case strchr line (CHR ''/'') of
        None \<Rightarrow> None
      | Some (addr_text, slash) \<Rightarrow>
          (case strtoul10 (tl slash) of
             None \<Rightarrow> None
           | Some (prefix, rest, erange) \<Rightarrow>
               if erange \<or> rest \<noteq> [] then None
               else if expected_family = AF_INET then
                 (if prefix > 32 then None
                  else case inet_pton4 addr_text of
                    None \<Rightarrow> None
                  | Some addr \<Rightarrow>
                      let mask = (if prefix = 0 then 0 else push_bit (32 - unat prefix) (0xffffffff :: u32))
                      in Some (ucast prefix, be32_bytes (be32 addr AND mask)))
               else if expected_family = AF_INET6 then
                 (if prefix > 128 then None
                  else case inet_pton6 addr_text of
                    None \<Rightarrow> None
                  | Some addr \<Rightarrow> Some (ucast prefix, mask_tail6 addr (unat prefix)))
               else None))"

text \<open>The text of one line without comment: \<open>None\<close> when there is nothing to parse.\<close>

definition cidr_line :: "string \<Rightarrow> string option" where
  "cidr_line line =
     (let trimmed = trim_line line in
      if trimmed = [] \<or> hd trimmed = CHR ''#'' then None
      else case strchr trimmed (CHR ''#'') of
        None \<Rightarrow> Some trimmed
      | Some (before, _) \<Rightarrow> (let t = trim_line before in if t = [] then None else Some t))"

datatype cidr_text = Cidr_Error | Cidr_Nothing | Cidr_Key lpm_key

definition parse_cidr_text ::
  "(string \<Rightarrow> bytes option) \<Rightarrow> (string \<Rightarrow> bytes option) \<Rightarrow> int \<Rightarrow> string \<Rightarrow> cidr_text" where
  "parse_cidr_text pton4 pton6 family txt =
     (if txt = [] then Cidr_Error
      else case cidr_line (take 255 txt) of
        None \<Rightarrow> Cidr_Nothing
      | Some t \<Rightarrow> (case parse_cidr pton4 pton6 family t of None \<Rightarrow> Cidr_Error | Some k \<Rightarrow> Cidr_Key k))"

definition cidr_map_has_covering_entry :: "('m, lpm_key, u8) map_ops \<Rightarrow> 'm \<Rightarrow> lpm_key \<Rightarrow> bool" where
  "cidr_map_has_covering_entry ops m k \<longleftrightarrow> mo_lookup ops m k \<noteq> None"

definition update_cidr_map_if_uncovered :: "('m, lpm_key, u8) map_ops \<Rightarrow> 'm \<Rightarrow> lpm_key \<Rightarrow> 'm option" where
  "update_cidr_map_if_uncovered ops m k =
     (if cidr_map_has_covering_entry ops m k then Some m else mo_update ops m k 1)"

fun fgets_lines :: "nat \<Rightarrow> string \<Rightarrow> string \<Rightarrow> string list" where
  "fgets_lines n line [] = (if line = [] then [] else [line])"
| "fgets_lines n line (c # cs) =
     (if c = CHR 0x0A \<or> length line + 1 \<ge> n then (line @ [c]) # fgets_lines n [] cs
      else fgets_lines n (line @ [c]) cs)"

fun load_cidr_lines ::
  "(string \<Rightarrow> bytes option) \<Rightarrow> (string \<Rightarrow> bytes option) \<Rightarrow> ('m, lpm_key, u8) map_ops \<Rightarrow> int \<Rightarrow> string list \<Rightarrow> 'm \<Rightarrow> bool \<times> 'm" where
  "load_cidr_lines pton4 pton6 ops family [] m = (True, m)"
| "load_cidr_lines pton4 pton6 ops family (line # lines) m =
     (case cidr_line line of
        None \<Rightarrow> load_cidr_lines pton4 pton6 ops family lines m
      | Some t \<Rightarrow>
          (case parse_cidr pton4 pton6 family t of
             None \<Rightarrow> (False, m)
           | Some k \<Rightarrow>
               (case update_cidr_map_if_uncovered ops m k of
                  None \<Rightarrow> (False, m)
                | Some m' \<Rightarrow> load_cidr_lines pton4 pton6 ops family lines m')))"

text \<open>The file's text, or \<open>None\<close> when it cannot be opened.\<close>

definition bpf2socks_policy_load_cidr_file ::
  "(string \<Rightarrow> bytes option) \<Rightarrow> (string \<Rightarrow> bytes option) \<Rightarrow> ('m, lpm_key, u8) map_ops \<Rightarrow> string option \<Rightarrow> int \<Rightarrow> 'm \<Rightarrow> bool \<times> 'm" where
  "bpf2socks_policy_load_cidr_file pton4 pton6 ops file family m =
     (case file of
        None \<Rightarrow> (False, m)
      | Some content \<Rightarrow> load_cidr_lines pton4 pton6 ops family (fgets_lines 255 [] content) m)"

fun bpf2socks_policy_load_cidr_list ::
  "(string \<Rightarrow> bytes option) \<Rightarrow> (string \<Rightarrow> bytes option) \<Rightarrow> ('m, lpm_key, u8) map_ops \<Rightarrow> int \<Rightarrow> string list \<Rightarrow> 'm \<Rightarrow> bool \<times> 'm" where
  "bpf2socks_policy_load_cidr_list pton4 pton6 ops family [] m = (True, m)"
| "bpf2socks_policy_load_cidr_list pton4 pton6 ops family (c # cs) m =
     (case parse_cidr_text pton4 pton6 family c of
        Cidr_Error \<Rightarrow> (False, m)
      | Cidr_Nothing \<Rightarrow> bpf2socks_policy_load_cidr_list pton4 pton6 ops family cs m
      | Cidr_Key k \<Rightarrow>
          (case update_cidr_map_if_uncovered ops m k of
             None \<Rightarrow> (False, m)
           | Some m' \<Rightarrow> bpf2socks_policy_load_cidr_list pton4 pton6 ops family cs m'))"

section \<open>What a parsed CIDR means\<close>

lemma masked4:
  assumes "k \<le> 32" "i < 32"
  shows "addr_bit (be32_bytes (be32 addr AND (if k = 0 then 0 else push_bit (32 - k) 0xffffffff))) i \<longleftrightarrow>
    i < k \<and> addr_bit addr i"
proof -
  have ones: "(0xffffffff :: u32) = - 1" by simp
  have "addr_bit (be32_bytes w) i = bit w (31 - i)" for w using assms(2) by (simp add: addr_bit_be32)
  moreover have "bit (push_bit (32 - k) (- 1 :: u32)) (31 - i) \<longleftrightarrow> i < k" if "k \<noteq> 0"
    using assms that by (auto simp: bit_simps)
  ultimately show ?thesis using assms(2) unfolding ones by (auto simp: bit_and_iff addr_bit_be32)
qed

lemma byte_mask_bit:
  assumes "0 < r" "r < 8" "t < 8"
  shows "bit (x AND (ucast (push_bit (8 - r) (0xff :: u32)) :: u8)) (7 - t) \<longleftrightarrow> t < r \<and> bit x (7 - t)"
  using assms by (auto simp: bit_and_iff bit_ucast_iff bit_push_bit_iff bit_0xff)

lemma mask_tail6_length: "length addr = 16 \<Longrightarrow> k \<le> 128 \<Longrightarrow> length (mask_tail6 addr k) = 16"
  by (auto simp: mask_tail6_def Let_def zero_bytes_def)

lemma masked6:
  assumes l: "length addr = 16" and k: "k \<le> 128" and i: "i < 128"
  shows "addr_bit (mask_tail6 addr k) i \<longleftrightarrow> i < k \<and> addr_bit addr i"
proof (cases "k = 128")
  case True
  then show ?thesis using i by (simp add: mask_tail6_def)
next
  case False
  define q r where "q = k div 8" and "r = k mod 8"
  define j t where "j = i div 8" and "t = i mod 8"
  have kq: "k = 8 * q + r" "r < 8" and ij: "i = 8 * j + t" "t < 8" by (simp_all add: q_def r_def j_def t_def)
  have q16: "q < 16" using k False kq by linarith
  have j16: "j < 16" using i ij by linarith
  define last where "last = (if r = 0 then 0 else addr ! q AND (ucast (push_bit (8 - r) (0xff :: u32)) :: u8))"
  have "16 - q = Suc (16 - q - 1)" using q16 by simp
  then have "zero_bytes (16 - q) = 0 # zero_bytes (16 - q - 1)" unfolding zero_bytes_def by (metis replicate_Suc)
  then have m: "mask_tail6 addr k = take q addr @ [last] @ zero_bytes (16 - q - 1)"
    using False k q16 by (simp add: mask_tail6_def Let_def q_def [symmetric] r_def [symmetric] last_def)
  have nth: "mask_tail6 addr k ! j = (if j < q then addr ! j else if j = q then last else 0)"
    using j16 q16 l by (auto simp: m nth_append zero_bytes_def nth_Cons')
  have lt: "i < k \<longleftrightarrow> j < q \<or> (j = q \<and> t < r)" using kq ij by (cases rule: linorder_cases [of j q]) auto
  have "addr_bit (mask_tail6 addr k) i = bit (mask_tail6 addr k ! j) (7 - t)" "addr_bit addr i = bit (addr ! j) (7 - t)"
    by (simp_all add: addr_bit_def j_def t_def)
  then show ?thesis using nth lt byte_mask_bit [of r t "addr ! q"] kq(2) ij(2) by (auto simp: last_def)
qed

text \<open>The addresses a key stands for, and when one key lies inside another.\<close>

definition key_covers :: "lpm_key \<Rightarrow> lpm_key \<Rightarrow> bool" where
  "key_covers k q \<longleftrightarrow> fst k \<le> fst q \<and> prefix_agree (unat (fst k)) (snd k) (snd q)"

lemma parse_cidr_SomeD:
  assumes "parse_cidr p4 p6 family line = Some (p, key)"
    and p4: "\<And>x out. p4 x = Some out \<Longrightarrow> length out = 4" and p6: "\<And>x out. p6 x = Some out \<Longrightarrow> length out = 16"
  obtains addr addr_text rest where "line = addr_text @ CHR ''/'' # rest"
    "family = AF_INET \<and> p4 addr_text = Some addr \<or> family = AF_INET6 \<and> p6 addr_text = Some addr"
    "unat p \<le> 8 * length addr" "length key = length addr"
    "\<And>i. i < 8 * length addr \<Longrightarrow> addr_bit key i \<longleftrightarrow> i < unat p \<and> addr_bit addr i"
proof -
  obtain addr_text slash where sc: "strchr line (CHR ''/'') = Some (addr_text, slash)"
    using assms(1) by (auto simp: parse_cidr_def split: option.splits)
  then obtain rest where line: "line = addr_text @ CHR ''/'' # rest" and sl: "slash = CHR ''/'' # rest"
    using strchr_SomeD [OF sc] by auto
  obtain n where st: "strtoul10 rest = Some (n, [], False)"
    using assms(1) sc by (auto simp: parse_cidr_def sl split: option.splits prod.splits if_splits)
  note run = assms(1) [unfolded parse_cidr_def sc, simplified, unfolded sl, simplified, unfolded st, simplified]
  have cast: "unat (ucast n :: u32) = unat n" if "unat n \<le> 128"
    using that by (simp add: unsigned_ucast_eq take_bit_nat_eq_self)
  show thesis
  proof (cases "family = AF_INET")
    case True
    then obtain addr where a: "p4 addr_text = Some addr" and n: "unat n \<le> 32" and p: "p = ucast n"
      and key: "key = be32_bytes (be32 addr AND (if unat n = 0 then 0 else push_bit (32 - unat n) 0xffffffff))"
      using run by (auto simp: Let_def word_less_nat_alt unat_eq_0 split: if_splits option.splits)
    show thesis
    proof (rule that [OF line])
      show "family = AF_INET \<and> p4 addr_text = Some addr \<or> family = AF_INET6 \<and> p6 addr_text = Some addr" using True a by simp
      show "unat p \<le> 8 * length addr" "length key = length addr" using n cast p4 [OF a] by (simp_all add: p key be32_bytes_def)
      show "addr_bit key i \<longleftrightarrow> i < unat p \<and> addr_bit addr i" if "i < 8 * length addr" for i
        using masked4 [OF n, of i addr] that p4 [OF a] n cast by (simp add: p key)
    qed
  next
    case False
    then obtain addr where f: "family = AF_INET6" and a: "p6 addr_text = Some addr" and n: "unat n \<le> 128" and p: "p = ucast n"
      and key: "key = mask_tail6 addr (unat n)"
      using run by (auto simp: word_less_nat_alt split: if_splits option.splits)
    show thesis
    proof (rule that [OF line])
      show "family = AF_INET \<and> p4 addr_text = Some addr \<or> family = AF_INET6 \<and> p6 addr_text = Some addr" using f a by simp
      show "unat p \<le> 8 * length addr" "length key = length addr"
        using n cast p6 [OF a] mask_tail6_length by (simp_all add: p key)
      show "addr_bit key i \<longleftrightarrow> i < unat p \<and> addr_bit addr i" if "i < 8 * length addr" for i
        using masked6 [OF p6 [OF a] n, of i] that p6 [OF a] n cast by (simp add: p key)
    qed
  qed
qed

section \<open>Loading the maps\<close>

text \<open>
  The documented behaviour of the kernel's longest-prefix-match trie that the loaders rely on: a
  lookup answers when some stored key covers the queried one, an update that succeeds adds the
  key, and what a covered key covers is covered.
\<close>

definition lpm_trie :: "('m, lpm_key, u8) map_ops \<Rightarrow> bool" where
  "lpm_trie ops \<longleftrightarrow>
     (\<forall>m k v m' q. mo_update ops m k v = Some m' \<longrightarrow>
        (mo_lookup ops m' q \<noteq> None) = (key_covers k q \<or> mo_lookup ops m q \<noteq> None)) \<and>
     (\<forall>m k q. mo_lookup ops m k \<noteq> None \<longrightarrow> key_covers k q \<longrightarrow> mo_lookup ops m q \<noteq> None)"

lemma update_if_uncovered:
  assumes "lpm_trie ops" "update_cidr_map_if_uncovered ops m k = Some m'"
  shows "mo_lookup ops m' q \<noteq> None \<longleftrightarrow> key_covers k q \<or> mo_lookup ops m q \<noteq> None"
proof (cases "mo_lookup ops m k = None")
  case True
  then have "mo_update ops m k 1 = Some m'"
    using assms(2) by (simp add: update_cidr_map_if_uncovered_def cidr_map_has_covering_entry_def)
  then show ?thesis using assms(1) unfolding lpm_trie_def by blast
next
  case False
  then have "m' = m" using assms(2) by (auto simp: update_cidr_map_if_uncovered_def cidr_map_has_covering_entry_def)
  moreover have "key_covers k q \<Longrightarrow> mo_lookup ops m q \<noteq> None" using assms(1) False unfolding lpm_trie_def by blast
  ultimately show ?thesis by blast
qed

lemma load_list_covers:
  assumes "lpm_trie ops"
  shows "bpf2socks_policy_load_cidr_list p4 p6 ops family cs m = (True, m') \<Longrightarrow>
    (mo_lookup ops m' q \<noteq> None \<longleftrightarrow>
       (\<exists>c\<in>set cs. \<exists>k. parse_cidr_text p4 p6 family c = Cidr_Key k \<and> key_covers k q) \<or> mo_lookup ops m q \<noteq> None) \<and>
    (\<forall>c\<in>set cs. parse_cidr_text p4 p6 family c \<noteq> Cidr_Error)"
proof (induction cs arbitrary: m)
  case (Cons c cs)
  show ?case
  proof (cases "parse_cidr_text p4 p6 family c")
    case (Cidr_Key k)
    then obtain m1 where m1: "update_cidr_map_if_uncovered ops m k = Some m1"
      and rest: "bpf2socks_policy_load_cidr_list p4 p6 ops family cs m1 = (True, m')"
      using Cons.prems by (auto split: option.splits)
    from Cons.IH [OF rest] update_if_uncovered [OF assms m1, of q] Cidr_Key show ?thesis by (cases k) auto
  qed (use Cons in auto)
qed simp

lemma load_lines_covers:
  assumes "lpm_trie ops"
  shows "load_cidr_lines p4 p6 ops family ls m = (True, m') \<Longrightarrow>
    (mo_lookup ops m' q \<noteq> None \<longleftrightarrow>
       (\<exists>l\<in>set ls. \<exists>t k. cidr_line l = Some t \<and> parse_cidr p4 p6 family t = Some k \<and> key_covers k q) \<or>
       mo_lookup ops m q \<noteq> None)"
proof (induction ls arbitrary: m)
  case (Cons l ls)
  show ?case
  proof (cases "cidr_line l")
    case (Some t)
    then obtain k m1 where k: "parse_cidr p4 p6 family t = Some k" and m1: "update_cidr_map_if_uncovered ops m k = Some m1"
      and rest: "load_cidr_lines p4 p6 ops family ls m1 = (True, m')"
      using Cons.prems by (auto split: option.splits)
    from Cons.IH [OF rest] update_if_uncovered [OF assms m1, of q] Some k show ?thesis by (cases k) auto
  qed (use Cons in auto)
qed simp

lemma update_all_lookup:
  assumes "\<And>m k v m' q. mo_update ops m k v = Some m' \<Longrightarrow> mo_lookup ops m' q = (if q = k then Some v else mo_lookup ops m q)"
  shows "update_all ops v us m = (True, m') \<Longrightarrow>
    mo_lookup ops m' q = (if q \<in> set us then Some v else mo_lookup ops m q)"
proof (induction us arbitrary: m)
  case (Cons u us)
  then obtain m1 where m1: "mo_update ops m u v = Some m1" and rest: "update_all ops v us m1 = (True, m')"
    by (auto split: option.splits)
  from Cons.IH [OF rest] assms [OF m1] show ?case by auto
qed simp

lemma lines_join: "concat (fgets_lines n line s) = line @ s"
  by (induction n line s rule: fgets_lines.induct) auto

text \<open>A map of keys as a list, to show that the laws can hold.\<close>

definition list_trie :: "(lpm_key list, lpm_key, u8) map_ops" where
  "list_trie = \<lparr>mo_lookup = (\<lambda>m q. if (\<exists>k\<in>set m. key_covers k q) then Some 1 else None), mo_update = (\<lambda>m k v. Some (k # m))\<rparr>"

lemma key_covers_trans: "key_covers a b \<Longrightarrow> key_covers b c \<Longrightarrow> key_covers a c"
  by (auto simp: key_covers_def prefix_agree_def word_le_nat_alt)

lemma list_trie_lpm: "lpm_trie list_trie"
  using key_covers_trans by (auto simp: lpm_trie_def list_trie_def)

section \<open>Properties\<close>

text \<open>
  A CIDR the parser accepts stands for the addresses it names: the prefix length is within
  the address, the stored address has every bit after the prefix cleared, and it agrees with
  the textual address on the prefix, for IPv4 and IPv6 alike. \<open>inet_pton\<close> is a parameter that
  yields addresses of the right size.
\<close>

theorem cidr_key_canonical:
  assumes "parse_cidr pton4 pton6 family line = Some (p, key)"
    and "\<And>x out. pton4 x = Some out \<Longrightarrow> length out = 4" and "\<And>x out. pton6 x = Some out \<Longrightarrow> length out = 16"
  shows "\<exists>addr addr_text rest. line = addr_text @ CHR ''/'' # rest \<and>
    (family = AF_INET \<and> pton4 addr_text = Some addr \<or> family = AF_INET6 \<and> pton6 addr_text = Some addr) \<and>
    unat p \<le> 8 * length addr \<and> length key = length addr \<and> prefix_agree (unat p) key addr \<and>
    (\<forall>i. unat p \<le> i \<and> i < 8 * length addr \<longrightarrow> \<not> addr_bit key i)"
proof (rule parse_cidr_SomeD [OF assms])
  fix addr addr_text rest
  assume "line = addr_text @ CHR ''/'' # rest"
    "family = AF_INET \<and> pton4 addr_text = Some addr \<or> family = AF_INET6 \<and> pton6 addr_text = Some addr"
    and p: "unat p \<le> 8 * length addr" "length key = length addr"
    and b: "\<And>i. i < 8 * length addr \<Longrightarrow> addr_bit key i \<longleftrightarrow> i < unat p \<and> addr_bit addr i"
  moreover have "prefix_agree (unat p) key addr" using p b by (auto simp: prefix_agree_def)
  moreover have "\<forall>i. unat p \<le> i \<and> i < 8 * length addr \<longrightarrow> \<not> addr_bit key i" using b by auto
  ultimately show ?thesis using p by blast
qed

theorem cidr_key_canonical_witness:
  "parse_cidr (\<lambda>_. Some [10, 1, 2, 3]) (\<lambda>_. None) 2 ''10.1.2.3/8'' = Some (8, [10, 0, 0, 0]) \<and>
   length [10, 0, 0, 0 :: u8] = 4"
proof -
  have st: "strtoul10 ''8'' = Some (8, [], False)"
    by (simp add: strtoul10_def isspace_c_def is_digit_c_def char_code_def digit_value_def Let_def)
  have run: "parse_cidr (\<lambda>_. Some [10, 1, 2, 3]) (\<lambda>_. None) 2 ''10.1.2.3/8'' = Some (8, [10, 0, 0, 0])"
    by (simp add: parse_cidr_def strchr_def st be32_def be32_bytes_def)
  from cidr_key_canonical [OF run] run show ?thesis by simp
qed



text \<open>
  Loading a CIDR file reads the whole file in pieces that put together are its text, and a
  success makes the map answer for exactly the CIDRs of the lines that are not blank or
  comments, in addition to what it answered before.
\<close>

theorem policy_cidr_file_is_union:
  assumes "lpm_trie ops" "bpf2socks_policy_load_cidr_file pton4 pton6 ops (Some content) family m = (True, m')"
  shows "\<exists>ls. concat ls = content \<and> (\<forall>q. mo_lookup ops m' q \<noteq> None \<longleftrightarrow>
      (\<exists>l\<in>set ls. \<exists>t k. cidr_line l = Some t \<and> parse_cidr pton4 pton6 family t = Some k \<and> key_covers k q) \<or>
      mo_lookup ops m q \<noteq> None)"
proof -
  have run: "load_cidr_lines pton4 pton6 ops family (fgets_lines 255 [] content) m = (True, m')"
    using assms(2) by (simp add: bpf2socks_policy_load_cidr_file_def)
  show ?thesis
    using load_lines_covers [OF assms(1) run] lines_join [of 255 "[]" content]
    by (intro exI [of _ "fgets_lines 255 [] content"]) simp
qed

theorem policy_cidr_file_is_union_witness:
  "\<exists>ls. concat ls = ''#x''"
proof -
  have "bpf2socks_policy_load_cidr_file (\<lambda>_. None) (\<lambda>_. None) list_trie (Some ''#x'') 2 [] = (True, [])"
    by (simp add: bpf2socks_policy_load_cidr_file_def cidr_line_def trim_line_def isspace_c_def char_code_def)
  from policy_cidr_file_is_union [OF list_trie_lpm this] show ?thesis by blast
qed

text \<open>
  Loading the UID policy: when \<open>bpf2socks_policy_load_uids\<close> succeeds, a UID on the bypass list
  is marked bypass even if it is also selected, any other selected UID is marked selected, and
  the marks of all other UIDs are as before. The kernel's hash map is a parameter whose
  successful update changes exactly the given key.
\<close>

theorem policy_uids_bypass_wins:
  assumes "\<And>m k v m' q. mo_update ops m k v = Some m' \<Longrightarrow> mo_lookup ops m' q = (if q = k then Some v else mo_lookup ops m q)"
    and "bpf2socks_policy_load_uids ops uids bypass_uids m = (True, m')" "length uids \<le> MAX_UIDS" "length bypass_uids \<le> MAX_UIDS"
  shows "mo_lookup ops m' u =
    (if u \<in> set bypass_uids then Some UID_BYPASS else if u \<in> set uids then Some UID_SELECTED else mo_lookup ops m u)"
proof -
  obtain m1 where s: "update_all ops UID_SELECTED uids m = (True, m1)"
    and b: "update_all ops UID_BYPASS bypass_uids m1 = (True, m')"
    using assms(2-4) by (auto simp: bpf2socks_policy_load_uids_def split: prod.splits bool.splits)
  show ?thesis
    using update_all_lookup [OF assms(1) b, of u] update_all_lookup [OF assms(1) s, of u] by simp
qed

theorem policy_uids_bypass_wins_witness:
  "(let ops = \<lparr>mo_lookup = (\<lambda>m k. m k), mo_update = (\<lambda>m k v. Some (m(k \<mapsto> v)))\<rparr> in
    mo_lookup ops (snd (bpf2socks_policy_load_uids ops [10, 20] [20] Map.empty)) 20 = Some UID_BYPASS)"
proof -
  let ?ops = "\<lparr>mo_lookup = (\<lambda>m k. m k), mo_update = (\<lambda>m k v. Some (m(k \<mapsto> v)))\<rparr> :: (u32 \<rightharpoonup> u32, u32, u32) map_ops"
  obtain m' where "bpf2socks_policy_load_uids ?ops [10, 20] [20] Map.empty = (True, m')"
    by (simp add: bpf2socks_policy_load_uids_def MAX_UIDS_def)
  moreover have "mo_lookup ?ops m' 20 = (if 20 \<in> set [20 :: u32] then Some UID_BYPASS
      else if 20 \<in> set [10, 20 :: u32] then Some UID_SELECTED else mo_lookup ?ops Map.empty 20)"
    using calculation by (intro policy_uids_bypass_wins) (auto simp: MAX_UIDS_def)
  ultimately show ?thesis by simp
qed

end
