(* ===== verification/Config.thy ===== *)
theory Config
  imports Json Policy
begin

text \<open>
  \<open>core/config.c\<close>: defaults, normalisation of the tunables and loading of the configuration. The
  world the loader reads is a record: the text of the file, the number of processors online, the
  effective group, one environment variable and \<open>inet_pton\<close>. Log messages are left out. Text
  buffers are the text they hold; their sizes appear where the code passes them.
\<close>

section \<open>Model\<close>

record bpf2socks_runtime_config =
  rc_socks_host :: string
  rc_socks_port :: u16
  rc_listen_host :: string
  rc_listen_port :: u16
  rc_pinned_object_dir :: string
  rc_cgroup_path :: string
  rc_enable_ipv6 :: bool
  rc_enable_dns_hijack :: bool
  rc_debug_stats :: bool
  rc_token_ipv4_prefix :: bytes
  rc_token_ipv4_prefix_bits :: u32
  rc_token_ipv6_prefix :: bytes
  rc_token_ipv6_prefix_bits :: u32
  rc_worker_count :: u32
  rc_tcp_buffer_size :: u32
  rc_max_tcp_sessions :: u32
  rc_connect_timeout :: u32
  rc_tcp_idle_timeout :: u32
  rc_udp_socket_buffer_size :: u32
  rc_udp_batch_size :: u32
  rc_max_udp_sessions :: u32
  rc_max_udp_bindings :: u32
  rc_udp_idle_timeout :: u32
  rc_max_udp_pending_bytes :: u32
  rc_dns_transaction_timeout :: u32
  rc_token_map_fd :: int
  rc_reuseport_tcp4_map_fd :: int
  rc_reuseport_udp4_map_fd :: int
  rc_reuseport_tcp6_map_fd :: int
  rc_reuseport_udp6_map_fd :: int
  rc_reuseport_prog_fd :: int

text \<open>Arrays with their counts are lists.\<close>

record bpf2socks_policy_config =
  pc_mode :: u32
  pc_bypass_direct_cidrs :: bool
  pc_enable_ipv6 :: bool
  pc_enable_dns_hijack :: bool
  pc_enable_dns_enhancement :: bool
  pc_direct_cidr_path_v4 :: string
  pc_direct_cidr_path_v6 :: string
  pc_uids :: "u32 list"
  pc_bypass_uids :: "u32 list"
  pc_self_bypass_gid_enabled :: bool
  pc_self_bypass_gid :: u32
  pc_hotspot_interface_count :: nat
  pc_ignored_interfaces :: "string list"
  pc_proxy_private_cidrs_v4 :: "string list"
  pc_bypass_private_cidrs_v4 :: "string list"
  pc_proxy_private_cidrs_v6 :: "string list"
  pc_bypass_private_cidrs_v6 :: "string list"

record config_env =
  ce_file :: "string option"
  ce_cpu_count :: int
  ce_egid :: u32
  ce_debug_stats_env :: "string option"
  ce_inet_pton4 :: "string \<Rightarrow> bytes option"
  ce_inet_pton6 :: "string \<Rightarrow> bytes option"

definition env_bool_enabled :: "string option \<Rightarrow> bool" where
  "env_bool_enabled v \<longleftrightarrow> v = Some ''1'' \<or> v = Some ''true'' \<or> v = Some ''TRUE''"

definition DEFAULT_CGROUP_PATH :: string where
  "DEFAULT_CGROUP_PATH = ''/sys/fs/cgroup''"

definition init_runtime_config_defaults :: "config_env \<Rightarrow> bpf2socks_runtime_config" where
  "init_runtime_config_defaults env =
     (let p4 = bpf2socks_token_prefix_parse4 (ce_inet_pton4 env) ''127.128.0.0/9'';
          p6 = bpf2socks_token_prefix_parse6 (ce_inet_pton6 env) ''fd7a:7374:6572:6973::/64''
      in \<lparr>rc_socks_host = [], rc_socks_port = 0, rc_listen_host = [], rc_listen_port = 0,
          rc_pinned_object_dir = [], rc_cgroup_path = DEFAULT_CGROUP_PATH,
          rc_enable_ipv6 = False, rc_enable_dns_hijack = False, rc_debug_stats = False,
          rc_token_ipv4_prefix = (case p4 of Inl _ \<Rightarrow> zero_bytes 4 | Inr (p, _) \<Rightarrow> p),
          rc_token_ipv4_prefix_bits = (case p4 of Inl _ \<Rightarrow> 0 | Inr (_, b) \<Rightarrow> b),
          rc_token_ipv6_prefix = (case p6 of Inl _ \<Rightarrow> zero_bytes 16 | Inr (p, _) \<Rightarrow> p),
          rc_token_ipv6_prefix_bits = (case p6 of Inl _ \<Rightarrow> 0 | Inr (_, b) \<Rightarrow> b),
          rc_worker_count = 0, rc_tcp_buffer_size = 0, rc_max_tcp_sessions = 4096,
          rc_connect_timeout = 10000, rc_tcp_idle_timeout = 0, rc_udp_socket_buffer_size = 524288,
          rc_udp_batch_size = 32, rc_max_udp_sessions = 4096, rc_max_udp_bindings = 16384,
          rc_udp_idle_timeout = 60000, rc_max_udp_pending_bytes = 67108864,
          rc_dns_transaction_timeout = 60000,
          rc_token_map_fd = -1, rc_reuseport_tcp4_map_fd = -1, rc_reuseport_udp4_map_fd = -1,
          rc_reuseport_tcp6_map_fd = -1, rc_reuseport_udp6_map_fd = -1, rc_reuseport_prog_fd = -1\<rparr>)"

definition init_policy_config_defaults :: "config_env \<Rightarrow> bpf2socks_policy_config" where
  "init_policy_config_defaults env =
     \<lparr>pc_mode = 2, pc_bypass_direct_cidrs = False, pc_enable_ipv6 = False, pc_enable_dns_hijack = False,
      pc_enable_dns_enhancement = False, pc_direct_cidr_path_v4 = [], pc_direct_cidr_path_v6 = [],
      pc_uids = [], pc_bypass_uids = [], pc_self_bypass_gid_enabled = True, pc_self_bypass_gid = ce_egid env,
      pc_hotspot_interface_count = 0, pc_ignored_interfaces = [], pc_proxy_private_cidrs_v4 = [],
      pc_bypass_private_cidrs_v4 = [], pc_proxy_private_cidrs_v6 = [], pc_bypass_private_cidrs_v6 = []\<rparr>"

definition auto_worker_count :: "config_env \<Rightarrow> u32" where
  "auto_worker_count env = (if ce_cpu_count env \<ge> 8 then 4 else 2)"

text \<open>The recurring shapes of the normalisation: a default for zero, a floor and a ceiling.\<close>

definition or_default :: "u32 \<Rightarrow> u32 \<Rightarrow> u32" where
  "or_default d v = (if v = 0 then d else v)"

definition at_least :: "u32 \<Rightarrow> u32 \<Rightarrow> u32" where
  "at_least lo v = (if v < lo then lo else v)"

definition at_most :: "u32 \<Rightarrow> u32 \<Rightarrow> u32" where
  "at_most hi v = (if v > hi then hi else v)"

definition normalize_runtime_tunables :: "config_env \<Rightarrow> bpf2socks_runtime_config \<Rightarrow> bpf2socks_runtime_config" where
  "normalize_runtime_tunables env c0 =
     (let workers = at_most 8 (or_default (auto_worker_count env) (rc_worker_count c0));
          tcp = at_most 8192 (or_default 4096 (rc_max_tcp_sessions c0));
          connect = at_most 60000 (at_least 1000 (or_default 10000 (rc_connect_timeout c0)));
          tcp_idle = at_most 3600000
            (if rc_tcp_idle_timeout c0 \<noteq> 0 \<and> rc_tcp_idle_timeout c0 < 1000 then 1000 else rc_tcp_idle_timeout c0);
          udp_buffer = or_default 524288 (rc_udp_socket_buffer_size c0);
          batch = or_default 32 (rc_udp_batch_size c0);
          udp = or_default 4096 (rc_max_udp_sessions c0);
          bindings = at_least udp (or_default 16384 (rc_max_udp_bindings c0));
          udp_idle = at_most 86400000 (at_least 1000 (or_default 60000 (rc_udp_idle_timeout c0)));
          pending = at_most 134217728 (at_least 131072 (or_default 67108864 (rc_max_udp_pending_bytes c0)));
          dns = at_most 600000 (at_least 1000 (or_default 60000 (rc_dns_transaction_timeout c0)));
          workers1 = (if tcp < workers then tcp else workers);
          workers2 = (if udp < workers1 then udp else workers1);
          workers3 = (if bindings < workers2 then bindings else workers2)
      in c0\<lparr>rc_worker_count := workers3, rc_max_tcp_sessions := tcp, rc_connect_timeout := connect,
            rc_tcp_idle_timeout := tcp_idle, rc_udp_socket_buffer_size := udp_buffer, rc_udp_batch_size := batch,
            rc_max_udp_sessions := udp, rc_max_udp_bindings := bindings, rc_udp_idle_timeout := udp_idle,
            rc_max_udp_pending_bytes := pending, rc_dns_transaction_timeout := dns\<rparr>)"

definition read_uint_field :: "string \<Rightarrow> string \<Rightarrow> u32 \<Rightarrow> u32 \<Rightarrow> bool \<times> u32" where
  "read_uint_field json key max_value v = bpf2socks_json_uint_field json key max_value v"

definition read_string_field :: "string \<Rightarrow> string \<Rightarrow> bool \<Rightarrow> nat \<Rightarrow> string \<Rightarrow> bool \<times> string" where
  "read_string_field json key required out_size out =
     (if \<not> required \<and> \<not> bpf2socks_json_has_key json key then (True, out)
      else bpf2socks_json_string json key out_size out)"

text \<open>A token prefix: the text field, then its parse when the key is present.\<close>

definition read_prefix_field ::
  "(string \<Rightarrow> errno + (bytes \<times> u32)) \<Rightarrow> string \<Rightarrow> string \<Rightarrow> nat \<Rightarrow> bytes \<times> u32 \<Rightarrow> bool \<times> (bytes \<times> u32)" where
  "read_prefix_field parse json key buf_size dflt =
     (let r = read_string_field json key False buf_size [] in
      if bpf2socks_json_has_key json key then
        (case parse (snd r) of Inl _ \<Rightarrow> (False, dflt) | Inr pb \<Rightarrow> (fst r, pb))
      else (fst r, dflt))"

text \<open>
  The part of \<open>bpf2socks_config_load\<close> that fills the runtime configuration; every field is read
  whatever the others gave, and the conjunction of the checks is the first result.
\<close>

definition load_runtime :: "config_env \<Rightarrow> string \<Rightarrow> bool \<times> bpf2socks_runtime_config" where
  "load_runtime env json =
     (let d = init_runtime_config_defaults env;
          host = read_string_field json ''socksHost'' True 128 (rc_socks_host d);
          sport = read_uint_field json ''socksPort'' 65535 0;
          listen = read_string_field json ''bridgeListenAddress'' True 64 (rc_listen_host d);
          lport = read_uint_field json ''bridgePort'' 65535 0;
          pinned = read_string_field json ''pinnedObjectDir'' True 512 (rc_pinned_object_dir d);
          cgroup = read_string_field json ''cgroupPath'' False 512 (rc_cgroup_path d);
          t4 = read_prefix_field (bpf2socks_token_prefix_parse4 (ce_inet_pton4 env)) json ''tokenIpv4Prefix'' 20
                 (rc_token_ipv4_prefix d, rc_token_ipv4_prefix_bits d);
          t6 = read_prefix_field (bpf2socks_token_prefix_parse6 (ce_inet_pton6 env)) json ''tokenIpv6Prefix'' 128
                 (rc_token_ipv6_prefix d, rc_token_ipv6_prefix_bits d);
          workers = read_uint_field json ''workerCount'' (- 1) (rc_worker_count d);
          tcpbuf = read_uint_field json ''tcpBufferSize'' (- 1) (rc_tcp_buffer_size d);
          tcp = read_uint_field json ''maxTcpSessions'' (- 1) (rc_max_tcp_sessions d);
          connect = read_uint_field json ''connectTimeoutMilliseconds'' (- 1) (rc_connect_timeout d);
          tcpidle = read_uint_field json ''tcpIdleTimeoutMilliseconds'' (- 1) (rc_tcp_idle_timeout d);
          udpbuf = read_uint_field json ''udpSocketBufferSize'' (- 1) (rc_udp_socket_buffer_size d);
          batch = read_uint_field json ''udpBatchSize'' (- 1) (rc_udp_batch_size d);
          udp = read_uint_field json ''maxUdpSessions'' (- 1) (rc_max_udp_sessions d);
          bindings = read_uint_field json ''maxUdpBindings'' (- 1) (rc_max_udp_bindings d);
          udpidle = read_uint_field json ''udpIdleTimeoutMilliseconds'' (- 1) (rc_udp_idle_timeout d);
          pending = read_uint_field json ''maxUdpPendingBytes'' (- 1) (rc_max_udp_pending_bytes d);
          dns = read_uint_field json ''dnsTransactionTimeoutMilliseconds'' (- 1) (rc_dns_transaction_timeout d)
      in (list_all id [fst host, fst sport, fst listen, fst lport, fst pinned, fst cgroup, fst t4, fst t6, fst workers,
            fst tcpbuf, fst tcp, fst connect, fst tcpidle, fst udpbuf, fst batch, fst udp, fst bindings, fst udpidle,
            fst pending, fst dns],
          normalize_runtime_tunables env
            (d\<lparr>rc_socks_host := snd host, rc_socks_port := ucast (snd sport), rc_listen_host := snd listen,
               rc_listen_port := ucast (snd lport), rc_pinned_object_dir := snd pinned,
               rc_cgroup_path := (if snd cgroup = [] then DEFAULT_CGROUP_PATH else snd cgroup),
               rc_enable_ipv6 := bpf2socks_json_bool json ''enableIpv6'' False,
               rc_enable_dns_hijack := bpf2socks_json_bool json ''enableDnsHijack'' False,
               rc_debug_stats := (bpf2socks_json_bool json ''debugStats'' False \<or> env_bool_enabled (ce_debug_stats_env env)),
               rc_token_ipv4_prefix := fst (snd t4), rc_token_ipv4_prefix_bits := snd (snd t4),
               rc_token_ipv6_prefix := fst (snd t6), rc_token_ipv6_prefix_bits := snd (snd t6),
               rc_worker_count := snd workers, rc_tcp_buffer_size := snd tcpbuf, rc_max_tcp_sessions := snd tcp,
               rc_connect_timeout := snd connect, rc_tcp_idle_timeout := snd tcpidle,
               rc_udp_socket_buffer_size := snd udpbuf, rc_udp_batch_size := snd batch, rc_max_udp_sessions := snd udp,
               rc_max_udp_bindings := snd bindings, rc_udp_idle_timeout := snd udpidle,
               rc_max_udp_pending_bytes := snd pending, rc_dns_transaction_timeout := snd dns\<rparr>)))"

text \<open>The part that fills the policy.\<close>

definition load_policy ::
  "config_env \<Rightarrow> string \<Rightarrow> bool \<Rightarrow> bpf2socks_runtime_config \<Rightarrow> bool \<times> bpf2socks_policy_config" where
  "load_policy env json dns_enhancement config =
     (let d = init_policy_config_defaults env;
          policy_json = (case bpf2socks_json_object json ''policy'' of Some obj \<Rightarrow> obj | None \<Rightarrow> json);
          mode = read_uint_field policy_json ''mode'' 2 (pc_mode d);
          dns_ok = (\<not> (dns_enhancement \<and> \<not> rc_enable_dns_hijack config));
          path4 = read_string_field policy_json ''directCidrPathV4'' False 512 (pc_direct_cidr_path_v4 d);
          path6 = read_string_field policy_json ''directCidrPathV6'' False 512 (pc_direct_cidr_path_v6 d);
          uids = bpf2socks_json_uint_array policy_json ''uids'' MAX_UIDS;
          bypass = bpf2socks_json_uint_array policy_json ''bypassUids'' MAX_UIDS;
          hotspot = bpf2socks_json_string_array json ''hotspotInterfaces'' 32 64;
          hotspot_ok = list_all bpf2socks_interface_selector_valid (snd hotspot);
          ignored = bpf2socks_json_string_array json ''ignoredInterfaces'' 32 64;
          ignored_ok = list_all bpf2socks_interface_selector_valid (snd ignored);
          proxy4 = bpf2socks_json_string_array json ''proxyPrivateCidrsV4'' 64 512;
          bypass4 = bpf2socks_json_string_array json ''bypassPrivateCidrsV4'' 64 512;
          proxy6 = bpf2socks_json_string_array json ''proxyPrivateCidrsV6'' 64 512;
          bypass6 = bpf2socks_json_string_array json ''bypassPrivateCidrsV6'' 64 512
      in (list_all id [fst mode, dns_ok, fst path4, fst path6, fst uids, fst bypass, fst hotspot, hotspot_ok, fst ignored,
            ignored_ok, fst proxy4, fst bypass4, fst proxy6, fst bypass6],
          d\<lparr>pc_mode := snd mode, pc_bypass_direct_cidrs := bpf2socks_json_bool policy_json ''bypassDirectCidrs'' False,
            pc_enable_ipv6 := rc_enable_ipv6 config, pc_enable_dns_hijack := rc_enable_dns_hijack config,
            pc_enable_dns_enhancement := dns_enhancement, pc_direct_cidr_path_v4 := snd path4,
            pc_direct_cidr_path_v6 := snd path6, pc_uids := snd uids, pc_bypass_uids := snd bypass,
            pc_hotspot_interface_count := length (snd hotspot), pc_ignored_interfaces := snd ignored,
            pc_proxy_private_cidrs_v4 := snd proxy4, pc_bypass_private_cidrs_v4 := snd bypass4,
            pc_proxy_private_cidrs_v6 := snd proxy6, pc_bypass_private_cidrs_v6 := snd bypass6\<rparr>))"

definition bpf2socks_config_load ::
  "config_env \<Rightarrow> bool \<Rightarrow> bool \<times> bpf2socks_runtime_config \<times> bpf2socks_policy_config" where
  "bpf2socks_config_load env dns_enhancement =
     (case ce_file env of
        None \<Rightarrow> (False, init_runtime_config_defaults env, init_policy_config_defaults env)
      | Some json \<Rightarrow>
          let r = load_runtime env json; p = load_policy env json dns_enhancement (snd r) in
          (fst r \<and> fst p \<and> rc_socks_port (snd r) \<noteq> 0 \<and> rc_listen_port (snd r) \<noteq> 0, snd r, snd p))"

section \<open>What a loaded configuration guarantees\<close>

definition tunables_ok :: "bpf2socks_runtime_config \<Rightarrow> bool" where
  "tunables_ok c \<longleftrightarrow>
     1 \<le> rc_worker_count c \<and> rc_worker_count c \<le> 8 \<and>
     rc_worker_count c \<le> rc_max_tcp_sessions c \<and> rc_worker_count c \<le> rc_max_udp_sessions c \<and>
     rc_max_udp_sessions c \<le> rc_max_udp_bindings c \<and> rc_max_tcp_sessions c \<le> 8192 \<and>
     1000 \<le> rc_connect_timeout c \<and> rc_connect_timeout c \<le> 60000 \<and>
     (rc_tcp_idle_timeout c = 0 \<or> 1000 \<le> rc_tcp_idle_timeout c \<and> rc_tcp_idle_timeout c \<le> 3600000) \<and>
     rc_udp_socket_buffer_size c \<noteq> 0 \<and> rc_udp_batch_size c \<noteq> 0 \<and>
     1000 \<le> rc_udp_idle_timeout c \<and> rc_udp_idle_timeout c \<le> 86400000 \<and>
     131072 \<le> rc_max_udp_pending_bytes c \<and> rc_max_udp_pending_bytes c \<le> 134217728 \<and>
     1000 \<le> rc_dns_transaction_timeout c \<and> rc_dns_transaction_timeout c \<le> 600000"

lemma clamp_range: "lo \<le> hi \<Longrightarrow> lo \<le> at_most hi (at_least lo v) \<and> at_most hi (at_least lo v) \<le> hi"
  by (auto simp: at_most_def at_least_def)

lemma at_most_le: "at_most hi v \<le> hi" "v \<noteq> 0 \<Longrightarrow> hi \<noteq> 0 \<Longrightarrow> at_most hi v \<noteq> 0"
  by (auto simp: at_most_def)

lemma or_default_nonzero: "d \<noteq> 0 \<Longrightarrow> or_default d v \<noteq> 0"
  by (simp add: or_default_def)

lemma at_least_ge: "lo \<le> at_least lo v"
  by (simp add: at_least_def not_less)

lemma word_ge_1: "1 \<le> (w :: u32) \<longleftrightarrow> w \<noteq> 0"
  by (simp add: word_le_nat_alt unat_gt_0 Suc_le_eq)

lemma unchanged:
  "v \<noteq> 0 \<Longrightarrow> or_default d v = v" "v \<le> hi \<Longrightarrow> at_most hi v = v" "lo \<le> v \<Longrightarrow> at_least lo v = v"
  by (auto simp: or_default_def at_most_def at_least_def)

lemma normalize_ok: "tunables_ok (normalize_runtime_tunables env c)"
proof -
  define w where "w = at_most 8 (or_default (auto_worker_count env) (rc_worker_count c))"
  define t where "t = at_most 8192 (or_default 4096 (rc_max_tcp_sessions c))"
  define u where "u = or_default 4096 (rc_max_udp_sessions c)"
  define b where "b = at_least u (or_default 16384 (rc_max_udp_bindings c))"
  have w: "w \<noteq> 0" "w \<le> 8" by (simp_all add: w_def at_most_le or_default_nonzero auto_worker_count_def)
  have t: "t \<noteq> 0" "t \<le> 8192" by (simp_all add: t_def at_most_le or_default_nonzero)
  have u: "u \<noteq> 0" "u \<le> b" by (simp_all add: u_def b_def or_default_nonzero at_least_ge)
  have b: "b \<noteq> 0" using u by auto
  define w' where "w' = (let w1 = (if t < w then t else w); w2 = (if u < w1 then u else w1) in if b < w2 then b else w2)"
  have w': "w' \<noteq> 0" "w' \<le> 8" "w' \<le> t" "w' \<le> u"
    using w t u b by (auto simp: w'_def Let_def not_less dest: order_trans)
  have idle: "(let v = at_most 3600000 (if x \<noteq> 0 \<and> x < 1000 then 1000 else x) in v = 0 \<or> 1000 \<le> v \<and> v \<le> 3600000)" for x :: u32
    by (auto simp: at_most_def Let_def not_less)
  let ?n = "normalize_runtime_tunables env c"
  have fields: "rc_worker_count ?n = w'" "rc_max_tcp_sessions ?n = t" "rc_max_udp_sessions ?n = u" "rc_max_udp_bindings ?n = b"
    by (simp_all add: normalize_runtime_tunables_def Let_def w'_def w_def t_def u_def b_def)
  have clamped: "1000 \<le> rc_connect_timeout ?n \<and> rc_connect_timeout ?n \<le> 60000"
    "1000 \<le> rc_udp_idle_timeout ?n \<and> rc_udp_idle_timeout ?n \<le> 86400000"
    "131072 \<le> rc_max_udp_pending_bytes ?n \<and> rc_max_udp_pending_bytes ?n \<le> 134217728"
    "1000 \<le> rc_dns_transaction_timeout ?n \<and> rc_dns_transaction_timeout ?n \<le> 600000"
    "rc_udp_socket_buffer_size ?n \<noteq> 0" "rc_udp_batch_size ?n \<noteq> 0"
    by (simp_all add: normalize_runtime_tunables_def Let_def clamp_range or_default_nonzero)
  have "rc_tcp_idle_timeout ?n = 0 \<or> 1000 \<le> rc_tcp_idle_timeout ?n \<and> rc_tcp_idle_timeout ?n \<le> 3600000"
    using idle [of "rc_tcp_idle_timeout c"] by (simp add: normalize_runtime_tunables_def Let_def)
  then show ?thesis using w' u t clamped by (simp add: tunables_ok_def fields word_ge_1)
qed

lemma read_string_fits:
  "fst (read_string_field json key required n out) \<Longrightarrow> length out < n \<Longrightarrow>
   length (snd (read_string_field json key required n out)) < n"
  by (auto simp: read_string_field_def bpf2socks_json_string_def split: if_splits option.splits prod.splits)

lemma string_array_loop_bounds:
  "length acc \<le> max_count \<Longrightarrow> \<forall>t\<in>set acc. length t < row_size \<Longrightarrow>
   length (snd (string_array_loop row_size max_count acc pos)) \<le> max_count \<and>
   (\<forall>t\<in>set (snd (string_array_loop row_size max_count acc pos)). length t < row_size)"
proof (induction row_size max_count acc pos rule: string_array_loop.induct)
  case (1 row_size max_count acc pos)
  show ?case
    using 1 by (subst (1 2) string_array_loop.simps) (auto simp: Let_def split: list.split option.split prod.split)
qed

lemma string_array_bounds:
  "length (snd (bpf2socks_json_string_array json key row n)) \<le> n \<and>
   (\<forall>t\<in>set (snd (bpf2socks_json_string_array json key row n)). length t < row)"
  using string_array_loop_bounds [of "[]" n row]
  by (auto simp: bpf2socks_json_string_array_def Let_def split: option.split list.split)

lemma uint_array_loop_bounds:
  "length acc \<le> max_count \<Longrightarrow> length (snd (uint_array_loop max_count acc pos)) \<le> max_count"
proof (induction max_count acc pos rule: uint_array_loop.induct)
  case (1 max_count acc pos)
  show ?case using 1 by (subst uint_array_loop.simps) (auto split: list.split option.split prod.split)
qed

lemma uint_array_bounds: "length (snd (bpf2socks_json_uint_array json key n)) \<le> n"
  using uint_array_loop_bounds [of "[]" n]
  by (auto simp: bpf2socks_json_uint_array_def Let_def split: option.split list.split)


definition pools_ok :: "bpf2socks_runtime_config \<Rightarrow> bool" where
  "pools_ok c \<longleftrightarrow> rc_token_ipv4_prefix c = [127, 128, 0, 0] \<and> rc_token_ipv4_prefix_bits c = 9 \<and>
     length (rc_token_ipv6_prefix c) = 16 \<and> drop 8 (rc_token_ipv6_prefix c) = zero_bytes 8 \<and>
     rc_token_ipv6_prefix_bits c = 64"

definition texts_ok :: "bpf2socks_runtime_config \<Rightarrow> bool" where
  "texts_ok c \<longleftrightarrow> length (rc_socks_host c) < 128 \<and> length (rc_listen_host c) < 64 \<and>
     length (rc_pinned_object_dir c) < 512 \<and> length (rc_cgroup_path c) < 512 \<and> rc_cgroup_path c \<noteq> []"

definition policy_ok :: "bpf2socks_policy_config \<Rightarrow> bool" where
  "policy_ok p \<longleftrightarrow> pc_mode p \<le> 2 \<and> length (pc_direct_cidr_path_v4 p) < 512 \<and> length (pc_direct_cidr_path_v6 p) < 512 \<and>
     length (pc_uids p) \<le> MAX_UIDS \<and> length (pc_bypass_uids p) \<le> MAX_UIDS \<and>
     pc_hotspot_interface_count p \<le> 64 \<and> length (pc_ignored_interfaces p) \<le> 64 \<and>
     list_all bpf2socks_interface_selector_valid (pc_ignored_interfaces p) \<and>
     (\<forall>cs\<in>{pc_proxy_private_cidrs_v4 p, pc_bypass_private_cidrs_v4 p, pc_proxy_private_cidrs_v6 p, pc_bypass_private_cidrs_v6 p}.
        length cs \<le> 512 \<and> (\<forall>t\<in>set cs. length t < 64)) \<and>
     (pc_enable_dns_enhancement p \<longrightarrow> pc_enable_dns_hijack p)"

lemma uint_field_bound:
  "fst (read_uint_field json key m v) \<Longrightarrow> v \<le> m \<Longrightarrow> snd (read_uint_field json key m v) \<le> m"
  by (auto simp: read_uint_field_def bpf2socks_json_uint_field_def parse_json_uint_eq Let_def word_le_nat_alt unat_of_nat
      split: option.splits if_splits intro: le_trans [OF mod_less_eq_dividend])

lemma prefix_field:
  assumes "fst (read_prefix_field parse json key n dflt)"
  shows "snd (read_prefix_field parse json key n dflt) = dflt \<or>
    (\<exists>t. parse t = Inr (snd (read_prefix_field parse json key n dflt)))"
  using assms by (auto simp: read_prefix_field_def Let_def split: if_splits sum.splits)

lemma normalize_keeps:
  "rc_socks_host (normalize_runtime_tunables env c) = rc_socks_host c"
  "rc_listen_host (normalize_runtime_tunables env c) = rc_listen_host c"
  "rc_pinned_object_dir (normalize_runtime_tunables env c) = rc_pinned_object_dir c"
  "rc_cgroup_path (normalize_runtime_tunables env c) = rc_cgroup_path c"
  "rc_token_ipv4_prefix (normalize_runtime_tunables env c) = rc_token_ipv4_prefix c"
  "rc_token_ipv4_prefix_bits (normalize_runtime_tunables env c) = rc_token_ipv4_prefix_bits c"
  "rc_token_ipv6_prefix (normalize_runtime_tunables env c) = rc_token_ipv6_prefix c"
  "rc_token_ipv6_prefix_bits (normalize_runtime_tunables env c) = rc_token_ipv6_prefix_bits c"
  by (simp_all add: normalize_runtime_tunables_def Let_def)

lemma load_runtime_texts: "fst (load_runtime env json) \<Longrightarrow> texts_ok (snd (load_runtime env json))"
  by (auto simp: load_runtime_def Let_def texts_ok_def normalize_keeps init_runtime_config_defaults_def
      DEFAULT_CGROUP_PATH_def intro!: read_string_fits)

lemma load_runtime_tunables: "tunables_ok (snd (load_runtime env json))"
  by (simp add: load_runtime_def Let_def normalize_ok)

definition defaults_parse :: "config_env \<Rightarrow> bool" where
  "defaults_parse env \<longleftrightarrow> ce_inet_pton4 env ''127.128.0.0'' = Some [127, 128, 0, 0] \<and>
     (\<exists>a. ce_inet_pton6 env ''fd7a:7374:6572:6973::'' = Some a) \<and>
     (\<forall>t a. ce_inet_pton6 env t = Some a \<longrightarrow> length a = 16)"

lemma strtoul_64: "strtoul10 ''64'' = Some (64, [], False)"
  by (simp add: strtoul10_def isspace_c_def is_digit_c_def char_code_def digit_value_def Let_def)

lemma default_pools:
  assumes "defaults_parse env"
  shows "rc_token_ipv4_prefix (init_runtime_config_defaults env) = [127, 128, 0, 0]"
    "rc_token_ipv4_prefix_bits (init_runtime_config_defaults env) = 9"
    "\<exists>a. length a = 16 \<and> rc_token_ipv6_prefix (init_runtime_config_defaults env) = take 8 a @ zero_bytes 8"
    "rc_token_ipv6_prefix_bits (init_runtime_config_defaults env) = 64"
proof -
  obtain a where a: "ce_inet_pton6 env ''fd7a:7374:6572:6973::'' = Some a" "length a = 16"
    using assms by (auto simp: defaults_parse_def)
  have 4: "bpf2socks_token_prefix_parse4 (ce_inet_pton4 env) ''127.128.0.0/9'' = Inr ([127, 128, 0, 0], 9)"
    using assms by (simp add: bpf2socks_token_prefix_parse4_def strchr_def defaults_parse_def)
  have 6: "bpf2socks_token_prefix_parse6 (ce_inet_pton6 env) ''fd7a:7374:6572:6973::/64'' = Inr (take 8 a @ zero_bytes 8, 64)"
    using a by (simp add: bpf2socks_token_prefix_parse6_def strchr_def strtoul_64)
  show "rc_token_ipv4_prefix (init_runtime_config_defaults env) = [127, 128, 0, 0]"
    "rc_token_ipv4_prefix_bits (init_runtime_config_defaults env) = 9"
    "\<exists>a. length a = 16 \<and> rc_token_ipv6_prefix (init_runtime_config_defaults env) = take 8 a @ zero_bytes 8"
    "rc_token_ipv6_prefix_bits (init_runtime_config_defaults env) = 64"
    using a(2) by (auto simp: init_runtime_config_defaults_def 4 6)
qed

lemma load_runtime_pools:
  assumes "defaults_parse env" "fst (load_runtime env json)"
  shows "pools_ok (snd (load_runtime env json))"
proof -
  let ?d = "init_runtime_config_defaults env"
  let ?t4 = "read_prefix_field (bpf2socks_token_prefix_parse4 (ce_inet_pton4 env)) json ''tokenIpv4Prefix'' 20
                 (rc_token_ipv4_prefix ?d, rc_token_ipv4_prefix_bits ?d)"
  let ?t6 = "read_prefix_field (bpf2socks_token_prefix_parse6 (ce_inet_pton6 env)) json ''tokenIpv6Prefix'' 128
                 (rc_token_ipv6_prefix ?d, rc_token_ipv6_prefix_bits ?d)"
  have ok: "fst ?t4" "fst ?t6" using assms(2) by (auto simp: load_runtime_def Let_def)
  have 4: "snd ?t4 = ([127, 128, 0, 0], 9)"
    using prefix_field [OF ok(1)] parse4_InrD default_pools(1,2) [OF assms(1)] by (metis prod.collapse)
  have "\<exists>a. length a = 16 \<and> snd ?t6 = (take 8 a @ zero_bytes 8, 64)"
    using prefix_field [OF ok(2)]
  proof
    assume "snd ?t6 = (rc_token_ipv6_prefix ?d, rc_token_ipv6_prefix_bits ?d)"
    then show ?thesis using default_pools(3,4) [OF assms(1)] by simp
  next
    assume "\<exists>t. bpf2socks_token_prefix_parse6 (ce_inet_pton6 env) t = Inr (snd ?t6)"
    then show ?thesis using parse6_InrD assms(1) unfolding defaults_parse_def by (metis prod.collapse)
  qed
  then show ?thesis using 4
    by (auto simp: pools_ok_def load_runtime_def Let_def normalize_keeps zero_bytes_def)
qed

lemma load_policy_ok:
  assumes "fst (load_policy env json dns config)"
  shows "policy_ok (snd (load_policy env json dns config))"
proof -
  define pj where "pj = (case bpf2socks_json_object json ''policy'' of Some obj \<Rightarrow> obj | None \<Rightarrow> json)"
  have checks: "fst (read_uint_field pj ''mode'' 2 2)" "dns \<longrightarrow> rc_enable_dns_hijack config"
    "fst (read_string_field pj ''directCidrPathV4'' False 512 [])" "fst (read_string_field pj ''directCidrPathV6'' False 512 [])"
    "list_all bpf2socks_interface_selector_valid (snd (bpf2socks_json_string_array json ''ignoredInterfaces'' 32 64))"
    using assms by (auto simp: load_policy_def Let_def init_policy_config_defaults_def pj_def [symmetric])
  note mode = uint_field_bound [OF checks(1)]
  note paths = read_string_fits [OF checks(3)] read_string_fits [OF checks(4)]
  show ?thesis using mode paths checks(2,5) string_array_bounds uint_array_bounds
    by (simp add: policy_ok_def load_policy_def Let_def init_policy_config_defaults_def pj_def [symmetric])
qed

section \<open>Properties\<close>


text \<open>
  C38. A configuration that \<open>bpf2socks_config_load\<close> accepts is safe to use: both ports are nonzero,
  every text fits its buffer with its terminator, the token pools are the fixed IPv4 pool and an
  IPv6 \<open>/64\<close>, the tunables are in range, the policy mode is a known one, all lists fit their
  arrays, the ignored interface selectors are well formed and DNS enhancement comes with DNS
  interception. \<open>inet_pton\<close> is a parameter that parses the two default prefixes and yields
  sixteen bytes for IPv6.
\<close>

theorem config_load_validates:
  assumes "bpf2socks_config_load env dns_enhancement = (True, c, p)" "defaults_parse env"
  shows "rc_socks_port c \<noteq> 0 \<and> rc_listen_port c \<noteq> 0 \<and> texts_ok c \<and> pools_ok c \<and> tunables_ok c \<and> policy_ok p"
proof -
  obtain json where "ce_file env = Some json" using assms(1) by (auto simp: bpf2socks_config_load_def split: option.splits)
  then have c: "c = snd (load_runtime env json)" and okc: "fst (load_runtime env json)"
    and p: "p = snd (load_policy env json dns_enhancement c)" and okp: "fst (load_policy env json dns_enhancement c)"
    and ports: "rc_socks_port c \<noteq> 0" "rc_listen_port c \<noteq> 0"
    using assms(1) by (auto simp: bpf2socks_config_load_def Let_def)
  show ?thesis
    using ports load_runtime_texts [OF okc] load_runtime_pools [OF assms(2) okc] load_runtime_tunables [of env json]
      load_policy_ok [OF okp] by (simp add: c p)
qed

definition sample_json :: string where
  "sample_json = ''{'' @ quoted_key ''socksHost'' @ '':'' @ quoted_key ''h'' @ '','' @ quoted_key ''socksPort'' @ '':7,'' @
     quoted_key ''bridgeListenAddress'' @ '':'' @ quoted_key ''l'' @ '','' @ quoted_key ''bridgePort'' @ '':8,'' @
     quoted_key ''pinnedObjectDir'' @ '':'' @ quoted_key ''p'' @ ''}''"

definition sample_env :: config_env where
  "sample_env = \<lparr>ce_file = Some sample_json, ce_cpu_count = 4, ce_egid = 3005, ce_debug_stats_env = None,
     ce_inet_pton4 = (\<lambda>_. Some [127, 128, 0, 0]), ce_inet_pton6 = (\<lambda>_. Some (replicate 16 7))\<rparr>"

lemma sample_absent:
  "list_all (\<lambda>k. json_value_pos sample_json k = None)
     [''cgroupPath'', ''enableIpv6'', ''enableDnsHijack'', ''debugStats'', ''tokenIpv4Prefix'', ''tokenIpv6Prefix'', ''workerCount'',
      ''tcpBufferSize'', ''maxTcpSessions'', ''connectTimeoutMilliseconds'', ''tcpIdleTimeoutMilliseconds'',
      ''udpSocketBufferSize'', ''udpBatchSize'', ''maxUdpSessions'', ''maxUdpBindings'', ''udpIdleTimeoutMilliseconds'',
      ''maxUdpPendingBytes'', ''dnsTransactionTimeoutMilliseconds'', ''policy'', ''mode'', ''bypassDirectCidrs'',
      ''directCidrPathV4'', ''directCidrPathV6'', ''uids'', ''bypassUids'']"
  by code_simp

lemma sample_absent_arrays:
  "list_all (\<lambda>k. strstr sample_json (quoted_key k) = None)
     [''hotspotInterfaces'', ''ignoredInterfaces'', ''proxyPrivateCidrsV4'', ''bypassPrivateCidrsV4'', ''proxyPrivateCidrsV6'',
      ''bypassPrivateCidrsV6'']"
  by code_simp

lemma sample_present:
  "bpf2socks_json_string sample_json ''socksHost'' 128 [] = (True, ''h'')"
  "bpf2socks_json_string sample_json ''bridgeListenAddress'' 64 [] = (True, ''l'')"
  "bpf2socks_json_string sample_json ''pinnedObjectDir'' 512 [] = (True, ''p'')"
  "bpf2socks_json_uint_field sample_json ''socksPort'' 65535 0 = (True, 7)"
  "bpf2socks_json_uint_field sample_json ''bridgePort'' 65535 0 = (True, 8)"
  by code_simp+

lemma sample_arrays:
  "k \<in> {''hotspotInterfaces'', ''ignoredInterfaces'', ''proxyPrivateCidrsV4'', ''bypassPrivateCidrsV4'', ''proxyPrivateCidrsV6'',
      ''bypassPrivateCidrsV6''} \<Longrightarrow> 0 < r \<Longrightarrow> bpf2socks_json_string_array sample_json k r n = (True, [])"
  using sample_absent_arrays
  by (auto simp: bpf2socks_json_string_array_def key_colon_loop.simps [of "quoted_key _"]) (simp_all add: quoted_key_def)

theorem config_load_validates_witness:
  "\<exists>c p. bpf2socks_config_load sample_env False = (True, c, p) \<and> tunables_ok c"
proof -
  have absent: "json_value_pos sample_json k = None" if "k \<in> {''cgroupPath'', ''enableIpv6'', ''enableDnsHijack'', ''debugStats'',
      ''tokenIpv4Prefix'', ''tokenIpv6Prefix'', ''workerCount'', ''tcpBufferSize'', ''maxTcpSessions'', ''connectTimeoutMilliseconds'',
      ''tcpIdleTimeoutMilliseconds'', ''udpSocketBufferSize'', ''udpBatchSize'', ''maxUdpSessions'', ''maxUdpBindings'',
      ''udpIdleTimeoutMilliseconds'', ''maxUdpPendingBytes'', ''dnsTransactionTimeoutMilliseconds'', ''policy'', ''mode'',
      ''bypassDirectCidrs'', ''directCidrPathV4'', ''directCidrPathV6'', ''uids'', ''bypassUids''}" for k
    using that sample_absent by (auto simp: list_all_iff)
  have d: "rc_socks_host (init_runtime_config_defaults sample_env) = []" "rc_listen_host (init_runtime_config_defaults sample_env) = []"
    "rc_pinned_object_dir (init_runtime_config_defaults sample_env) = []"
    by (simp_all add: init_runtime_config_defaults_def Let_def)
  have r: "fst (load_runtime sample_env sample_json)" "rc_socks_port (snd (load_runtime sample_env sample_json)) = 7"
    "rc_listen_port (snd (load_runtime sample_env sample_json)) = 8"
    by (simp_all add: load_runtime_def Let_def read_string_field_def read_uint_field_def read_prefix_field_def d sample_present absent
        bpf2socks_json_has_key_def bpf2socks_json_uint_field_def [of _ "_ # _" "- 1"] normalize_runtime_tunables_def)
  have p: "fst (load_policy sample_env sample_json False c)" for c
    by (simp add: load_policy_def Let_def read_string_field_def read_uint_field_def absent sample_arrays
        bpf2socks_json_has_key_def bpf2socks_json_uint_field_def bpf2socks_json_uint_array_def bpf2socks_json_object_def)
  obtain c q where run: "bpf2socks_config_load sample_env False = (True, c, q)"
    using r p by (simp add: bpf2socks_config_load_def sample_env_def [THEN arg_cong [where f = ce_file]] Let_def)
  have "defaults_parse sample_env" by (simp add: defaults_parse_def sample_env_def)
  from config_load_validates [OF run this] run show ?thesis by blast
qed

end
