(* ===== verification/Original_Dst.thy ===== *)
theory Original_Dst
  imports Config
begin

text \<open>
  \<open>core/original_dst.c\<close> and \<open>core/token.c\<close>, with the lookups of \<open>bridge/tcp.c\<close> that use them
  (\<open>fill_tcp_token_key\<close>, \<open>lookup_original_with_client_fallback\<close>, \<open>lookup_tcp_original_from_socket\<close>):
  how the bridge learns where a redirected connection wanted to go. The token map of the kernel
  is a parameter, a record of its three operations on a state \<open>'m\<close>; what the socket calls return
  is passed in. \<open>lookup_and_delete_unsupported\<close>, a global flag of the source, is passed as state.
\<close>

section \<open>Model: original destinations\<close>

definition ipv6_is_token_address :: "bytes \<Rightarrow> bpf2socks_runtime_config \<Rightarrow> bool" where
  "ipv6_is_token_address addr config =
     (if rc_token_ipv6_prefix_bits config = 0 then False
      else bpf2socks_token_prefix_match6 addr (rc_token_ipv6_prefix config) (rc_token_ipv6_prefix_bits config))"

definition in6_unspecified :: bytes where
  "in6_unspecified = zero_bytes 16"

definition in6_loopback :: bytes where
  "in6_loopback = zero_bytes 15 @ [1]"

definition sockaddr_in_to_original ::
  "sockaddr_storage \<Rightarrow> bpf2socks_runtime_config \<Rightarrow> u8 \<Rightarrow> errno + bpf2socks_original_dst" where
  "sockaddr_in_to_original addr config protocol =
     (if ss_family addr \<noteq> AF_INET then Inl EINVAL
      else if bpf2socks_token_prefix_match4 (ss_addr addr) (rc_token_ipv4_prefix config) (rc_token_ipv4_prefix_bits config)
        then Inl EADDRNOTAVAIL
      else Inr \<lparr>od_family = AF_INET, od_protocol = protocol, od_port = ss_port addr,
                od_addr = copy_prefix 4 (ss_addr addr) (zero_bytes 16), od_flags = 0\<rparr>)"

definition sockaddr_in6_to_original ::
  "sockaddr_storage \<Rightarrow> bpf2socks_runtime_config \<Rightarrow> u8 \<Rightarrow> errno + bpf2socks_original_dst" where
  "sockaddr_in6_to_original addr config protocol =
     (if ss_family addr \<noteq> AF_INET6 then Inl EINVAL
      else if ss_addr addr = in6_unspecified \<or> ss_addr addr = in6_loopback \<or> ipv6_is_token_address (ss_addr addr) config
        then Inl EADDRNOTAVAIL
      else Inr \<lparr>od_family = AF_INET6, od_protocol = protocol, od_port = ss_port addr,
                od_addr = copy_prefix 16 (ss_addr addr) (zero_bytes 16), od_flags = 0\<rparr>)"

definition bpf2socks_original_dst_from_sockaddr ::
  "sockaddr_storage \<Rightarrow> bpf2socks_runtime_config \<Rightarrow> u8 \<Rightarrow> errno + bpf2socks_original_dst" where
  "bpf2socks_original_dst_from_sockaddr addr config protocol =
     (if ss_family addr = AF_INET then sockaddr_in_to_original addr config protocol
      else if ss_family addr = AF_INET6 then sockaddr_in6_to_original addr config protocol
      else Inl EAFNOSUPPORT)"

text \<open>
  A control message: level and type, the length of its data and the address in it. The constants
  are Linux's: \<open>IPPROTO_IP\<close> 0, \<open>IP_ORIGDSTADDR\<close> 20, \<open>IPPROTO_IPV6\<close> 41, \<open>IPV6_ORIGDSTADDR\<close> 74, and
  \<open>struct sockaddr_in\<close> and \<open>sockaddr_in6\<close> take 16 and 28 bytes.
\<close>

record cmsg =
  cm_level :: int
  cm_type :: int
  cm_data_len :: nat
  cm_addr :: sockaddr_storage

definition bpf2socks_original_dst_from_cmsg ::
  "cmsg \<Rightarrow> bpf2socks_runtime_config \<Rightarrow> u8 \<Rightarrow> errno + bpf2socks_original_dst" where
  "bpf2socks_original_dst_from_cmsg m config protocol =
     (if cm_level m = 0 \<and> cm_type m = 20 then
        (if cm_data_len m < 16 then Inl EINVAL else sockaddr_in_to_original (cm_addr m) config protocol)
      else if cm_level m = 41 \<and> cm_type m = 74 then
        (if cm_data_len m < 28 then Inl EINVAL else sockaddr_in6_to_original (cm_addr m) config protocol)
      else Inl ENOENT)"

definition bpf2socks_original_dst_to_sockaddr :: "bpf2socks_original_dst \<Rightarrow> errno + bpf2socks_sockaddr" where
  "bpf2socks_original_dst_to_sockaddr src =
     (let d = \<lparr>sa_family = od_family src, sa_port = od_port src, sa_addr = zero_bytes 16\<rparr> in
      if od_family src = AF_INET then Inr (d\<lparr>sa_addr := copy_prefix 4 (od_addr src) (zero_bytes 16)\<rparr>)
      else if od_family src = AF_INET6 then Inr (d\<lparr>sa_addr := copy_prefix 16 (od_addr src) (zero_bytes 16)\<rparr>)
      else Inl EAFNOSUPPORT)"

section \<open>Model: the token map\<close>

record 'm token_ops =
  to_lookup :: "'m \<Rightarrow> bpf2socks_token_key \<Rightarrow> bpf2socks_original_dst option"
  to_lookup_and_delete :: "'m \<Rightarrow> bpf2socks_token_key \<Rightarrow> (errno + bpf2socks_original_dst) \<times> 'm"
  to_delete :: "'m \<Rightarrow> bpf2socks_token_key \<Rightarrow> bool \<times> 'm"

record 'm token_state =
  ts_unsupported :: bool
  ts_map :: 'm

definition bpf2socks_token_key_is_loopback :: "bpf2socks_token_key \<Rightarrow> bool" where
  "bpf2socks_token_key_is_loopback key =
     (if tk_family key = AF_INET then hd (tk_client_addr key) = 127
      else tk_family key = AF_INET6 \<and> tk_client_addr key = in6_loopback)"

definition bpf2socks_token_lookup :: "'m token_ops \<Rightarrow> 'm \<Rightarrow> bpf2socks_token_key \<Rightarrow> bpf2socks_original_dst option" where
  "bpf2socks_token_lookup ops m key = to_lookup ops m key"

text \<open>The destination with the \<open>delete_failed\<close> output, and the state after.\<close>

definition take_by_lookup ::
  "'m token_ops \<Rightarrow> 'm token_state \<Rightarrow> bpf2socks_token_key \<Rightarrow> (bpf2socks_original_dst \<times> bool) option \<times> 'm token_state" where
  "take_by_lookup ops s key =
     (case bpf2socks_token_lookup ops (ts_map s) key of
        None \<Rightarrow> (None, s)
      | Some v \<Rightarrow> (case to_delete ops (ts_map s) key of (ok, m') \<Rightarrow> (Some (v, \<not> ok), s\<lparr>ts_map := m'\<rparr>)))"

definition bpf2socks_token_take ::
  "'m token_ops \<Rightarrow> 'm token_state \<Rightarrow> bpf2socks_token_key \<Rightarrow> (bpf2socks_original_dst \<times> bool) option \<times> 'm token_state" where
  "bpf2socks_token_take ops s key =
     (if \<not> ts_unsupported s then
        (case to_lookup_and_delete ops (ts_map s) key of
           (Inr v, m') \<Rightarrow> (Some (v, False), s\<lparr>ts_map := m'\<rparr>)
         | (Inl e, m') \<Rightarrow>
             if e = ENOENT then (None, s\<lparr>ts_map := m'\<rparr>)
             else take_by_lookup ops (s\<lparr>ts_unsupported := True, ts_map := m'\<rparr>) key)
      else take_by_lookup ops s key)"

datatype bpf2socks_token_lookup_mode = LOOKUP_UNKNOWN | LOOKUP_FULL_CLIENT | LOOKUP_ZERO_CLIENT

record bpf2socks_token_lookup_trace =
  lt_matched_mode :: bpf2socks_token_lookup_mode
  lt_full_client_attempts :: u8
  lt_zero_client_attempts :: u8

definition zero_client_key :: "bpf2socks_token_key \<Rightarrow> bpf2socks_token_key" where
  "zero_client_key key = key\<lparr>tk_client_port := 0, tk_client_addr := zero_bytes 16\<rparr>"

definition lookup_full_client where
  "lookup_full_client ops m key trace =
     (let t = trace\<lparr>lt_full_client_attempts := lt_full_client_attempts trace + 1\<rparr> in
      case bpf2socks_token_lookup ops m key of
        None \<Rightarrow> (None, t)
      | Some v \<Rightarrow> (Some v, t\<lparr>lt_matched_mode := LOOKUP_FULL_CLIENT\<rparr>))"

definition lookup_zero_client where
  "lookup_zero_client ops m full_key trace =
     (let t = trace\<lparr>lt_zero_client_attempts := lt_zero_client_attempts trace + 1\<rparr> in
      case bpf2socks_token_lookup ops m (zero_client_key full_key) of
        None \<Rightarrow> (None, t)
      | Some v \<Rightarrow> (Some v, t\<lparr>lt_matched_mode := LOOKUP_ZERO_CLIENT\<rparr>))"

definition bpf2socks_token_lookup_udp ::
  "'m token_ops \<Rightarrow> 'm \<Rightarrow> bpf2socks_token_key \<Rightarrow> bpf2socks_token_lookup_mode \<Rightarrow>
   bpf2socks_original_dst option \<times> bpf2socks_token_lookup_trace" where
  "bpf2socks_token_lookup_udp ops m full_key preference =
     (let trace = \<lparr>lt_matched_mode = LOOKUP_UNKNOWN, lt_full_client_attempts = 0, lt_zero_client_attempts = 0\<rparr>;
          pref = (if preference = LOOKUP_UNKNOWN \<and> bpf2socks_token_key_is_loopback full_key
                  then LOOKUP_ZERO_CLIENT else preference) in
      if pref = LOOKUP_ZERO_CLIENT then
        (case lookup_zero_client ops m full_key trace of
           (Some v, t) \<Rightarrow> (Some v, t)
         | (None, t) \<Rightarrow> lookup_full_client ops m full_key t)
      else
        (case lookup_full_client ops m full_key trace of
           (Some v, t) \<Rightarrow> (Some v, t)
         | (None, t) \<Rightarrow> lookup_zero_client ops m full_key t))"

section \<open>Model: the lookups of the TCP bridge\<close>

text \<open>\<open>getsockname\<close> gives the local address, or fails.\<close>

definition fill_tcp_token_key :: "sockaddr_storage option \<Rightarrow> sockaddr_storage \<Rightarrow> bpf2socks_token_key option" where
  "fill_tcp_token_key getsockname peer =
     (case getsockname of
        None \<Rightarrow> None
      | Some local \<Rightarrow>
          let zero = \<lparr>tk_family = 0, tk_protocol = PROTO_TCP, tk_token_port = 0, tk_token_addr = zero_bytes 16,
                      tk_client_port = 0, tk_client_addr = zero_bytes 16\<rparr>;
              key = (if ss_family local = AF_INET then
                       Some (zero\<lparr>tk_family := AF_INET, tk_token_port := ss_port local,
                                  tk_token_addr := copy_prefix 4 (ss_addr local) (zero_bytes 16)\<rparr>)
                     else if ss_family local = AF_INET6 then
                       Some (zero\<lparr>tk_family := AF_INET6, tk_token_port := ss_port local,
                                  tk_token_addr := copy_prefix 16 (ss_addr local) (zero_bytes 16)\<rparr>)
                     else None) in
          (case key of
             None \<Rightarrow> None
           | Some k \<Rightarrow>
               Some (if ss_family peer = AF_INET then
                       k\<lparr>tk_client_port := ss_port peer, tk_client_addr := copy_prefix 4 (ss_addr peer) (zero_bytes 16)\<rparr>
                     else if ss_family peer = AF_INET6 then
                       k\<lparr>tk_client_port := ss_port peer, tk_client_addr := copy_prefix 16 (ss_addr peer) (zero_bytes 16)\<rparr>
                     else k)))"

text \<open>The destination found and whether \<open>tcp_token_delete_failures\<close> is to be counted.\<close>

definition lookup_original_with_client_fallback ::
  "'m token_ops \<Rightarrow> 'm token_state \<Rightarrow> bpf2socks_token_key \<Rightarrow> (bpf2socks_original_dst \<times> bool) option \<times> 'm token_state" where
  "lookup_original_with_client_fallback ops s key =
     (let zero_client = zero_client_key key;
          zero_first = bpf2socks_token_key_is_loopback key;
          first = (if zero_first then zero_client else key);
          second = (if zero_first then key else zero_client) in
      case bpf2socks_token_take ops s first of
        (Some r, s1) \<Rightarrow> (Some r, s1)
      | (None, s1) \<Rightarrow> bpf2socks_token_take ops s1 second)"

text \<open>What the three socket calls return, each \<open>None\<close> when it fails.\<close>

definition lookup_tcp_original_from_socket ::
  "sockaddr_storage option \<Rightarrow> sockaddr_storage option \<Rightarrow> sockaddr_storage option \<Rightarrow> bpf2socks_runtime_config \<Rightarrow>
   bpf2socks_original_dst option" where
  "lookup_tcp_original_from_socket so_original_dst so_original_dst6 getsockname config =
     (let from = (\<lambda>a. case bpf2socks_original_dst_from_sockaddr a config PROTO_TCP of Inl _ \<Rightarrow> None | Inr d \<Rightarrow> Some d) in
      case Option.bind so_original_dst from of
        Some d \<Rightarrow> Some d
      | None \<Rightarrow>
          (case Option.bind so_original_dst6 from of
             Some d \<Rightarrow> Some d
           | None \<Rightarrow> Option.bind getsockname from))"

section \<open>Correctness\<close>

definition wf_sockaddr :: "sockaddr_storage \<Rightarrow> bool" where
  "wf_sockaddr a \<longleftrightarrow> (ss_family a = AF_INET \<longrightarrow> length (ss_addr a) = 4) \<and> (ss_family a = AF_INET6 \<longrightarrow> length (ss_addr a) = 16)"

text \<open>A destination outside both token pools, in the form the bridge can dial.\<close>

definition real_destination :: "bpf2socks_runtime_config \<Rightarrow> bpf2socks_original_dst \<Rightarrow> bool" where
  "real_destination c d \<longleftrightarrow> length (od_addr d) = 16 \<and>
     (if od_family d = AF_INET then \<not> (od_addr d ! 0 = 127 \<and> od_addr d ! 1 \<ge> 128) \<and> drop 4 (od_addr d) = zero_bytes 12
      else od_family d = AF_INET6 \<and> take 8 (od_addr d) \<noteq> take 8 (rc_token_ipv6_prefix c) \<and>
        od_addr d \<noteq> in6_unspecified \<and> od_addr d \<noteq> in6_loopback)"

lemma byte_ge_128: "(w :: u8) \<ge> 128 \<longleftrightarrow> bit w 7"
proof -
  have "unat w div 128 = 0 \<or> unat w div 128 = 1" using unsigned_less [of w, where ?'a = nat] by auto
  moreover have "bit w 7 \<longleftrightarrow> bit (unat w) 7" by (simp add: bit_unsigned_iff)
  ultimately show ?thesis by (auto simp: bit_iff_odd word_le_nat_alt)
qed

lemma from_sockaddr_real:
  assumes "bpf2socks_original_dst_from_sockaddr a c p = Inr d" "pools_ok c" "wf_sockaddr a"
  shows "real_destination c d \<and> od_protocol d = p \<and> od_family d = ss_family a \<and> od_port d = ss_port a \<and>
    take (length (ss_addr a)) (od_addr d) = ss_addr a"
proof (cases "ss_family a = AF_INET")
  case True
  then have l: "length (ss_addr a) = 4" using assms(3) by (simp add: wf_sockaddr_def)
  have nm: "\<not> bpf2socks_token_prefix_match4 (ss_addr a) [127, 128, 0, 0] 9"
    and d: "d = \<lparr>od_family = AF_INET, od_protocol = p, od_port = ss_port a, od_addr = copy_prefix 4 (ss_addr a) (zero_bytes 16), od_flags = 0\<rparr>"
    using assms(1,2) True
    by (auto simp: bpf2socks_original_dst_from_sockaddr_def sockaddr_in_to_original_def pools_ok_def split: if_splits)
  have o: "od_addr d = ss_addr a @ zero_bytes 12" using l by (simp add: d copy_prefix_def zero_bytes_def)
  have "\<not> (ss_addr a ! 0 = 127 \<and> ss_addr a ! 1 \<ge> 128)" using nm match4_9 [OF l] by (simp add: byte_ge_128)
  then show ?thesis using True l o by (auto simp: real_destination_def d nth_append)
next
  case False
  then have f: "ss_family a = AF_INET6" using assms(1)
    by (auto simp: bpf2socks_original_dst_from_sockaddr_def split: if_splits)
  then have l: "length (ss_addr a) = 16" using assms(3) by (simp add: wf_sockaddr_def)
  have nm: "ss_addr a \<noteq> in6_unspecified" "ss_addr a \<noteq> in6_loopback"
    "\<not> bpf2socks_token_prefix_match6 (ss_addr a) (rc_token_ipv6_prefix c) 64"
    and d: "d = \<lparr>od_family = AF_INET6, od_protocol = p, od_port = ss_port a, od_addr = copy_prefix 16 (ss_addr a) (zero_bytes 16), od_flags = 0\<rparr>"
    using assms(1,2) f
    by (auto simp: bpf2socks_original_dst_from_sockaddr_def sockaddr_in6_to_original_def ipv6_is_token_address_def pools_ok_def
        split: if_splits)
  have o: "od_addr d = ss_addr a" using l by (simp add: d copy_prefix_def)
  have "take 8 (ss_addr a) \<noteq> take 8 (rc_token_ipv6_prefix c)"
    using nm(3) match6_64 [OF l, of "rc_token_ipv6_prefix c"] assms(2) by (auto simp: pools_ok_def)
  then show ?thesis using f l o nm by (simp add: real_destination_def d)
qed

text \<open>
  The documented behaviour of a BPF hash map that the token code relies on: \<open>view\<close> is the content
  of the map; a lookup reads it, a deletion that succeeds removes the key, and the combined
  operation removes what it returns, reports \<open>ENOENT\<close> for an absent key, or fails without effect
  where the kernel does not have it.
\<close>

definition token_map_laws ::
  "'m token_ops \<Rightarrow> ('m \<Rightarrow> bpf2socks_token_key \<Rightarrow> bpf2socks_original_dst option) \<Rightarrow> bool" where
  "token_map_laws ops view \<longleftrightarrow>
     (\<forall>m k. to_lookup ops m k = view m k) \<and>
     (\<forall>m k ok m'. to_delete ops m k = (ok, m') \<longrightarrow> view m' = (if ok then (view m)(k := None) else view m)) \<and>
     (\<forall>m k v m'. to_lookup_and_delete ops m k = (Inr v, m') \<longrightarrow> view m k = Some v \<and> view m' = (view m)(k := None)) \<and>
     (\<forall>m k e m'. to_lookup_and_delete ops m k = (Inl e, m') \<longrightarrow> view m' = view m \<and> (e = ENOENT \<longrightarrow> view m k = None))"

text \<open>The content after a take that answered \<open>r\<close>: without the key, unless nothing was deleted.\<close>

definition view_after :: "(bpf2socks_original_dst \<times> bool) option \<Rightarrow> 'k \<Rightarrow> ('k \<rightharpoonup> 'v) \<Rightarrow> ('k \<rightharpoonup> 'v)" where
  "view_after r key v = (if \<exists>d. r = Some (d, False) then v(key := None) else v)"

lemma take_by_lookup_exact:
  assumes "token_map_laws ops view" "take_by_lookup ops s key = (r, s')"
  shows "map_option fst r = view (ts_map s) key \<and>
    view (ts_map s') = view_after r key (view (ts_map s))"
proof -
  have look: "to_lookup ops m k = view m k" and
    del: "to_delete ops m k = (ok, m') \<Longrightarrow> view m' = (if ok then (view m)(k := None) else view m)" for m k ok m'
    using assms(1) unfolding token_map_laws_def by blast+
  show ?thesis
  proof (cases "view (ts_map s) key")
    case None
    then show ?thesis using assms(2) by (auto simp: take_by_lookup_def bpf2socks_token_lookup_def look view_after_def)
  next
    case (Some v)
    obtain ok m' where d: "to_delete ops (ts_map s) key = (ok, m')" by fastforce
    show ?thesis using assms(2) Some d del [OF d]
      by (cases ok) (auto simp: take_by_lookup_def bpf2socks_token_lookup_def look view_after_def)
  qed
qed

lemma token_take_exact:
  assumes laws: "token_map_laws ops view" and t: "bpf2socks_token_take ops s key = (r, s')"
  shows "map_option fst r = view (ts_map s) key \<and>
    view (ts_map s') = view_after r key (view (ts_map s))"
proof (cases "ts_unsupported s")
  case True
  then show ?thesis using take_by_lookup_exact [OF laws] t by (simp add: bpf2socks_token_take_def)
next
  case False
  have ok: "to_lookup_and_delete ops m k = (Inr v, m') \<Longrightarrow> view m k = Some v \<and> view m' = (view m)(k := None)" and
    no: "to_lookup_and_delete ops m k = (Inl e, m') \<Longrightarrow> view m' = view m \<and> (e = ENOENT \<longrightarrow> view m k = None)" for m k v e m'
    using laws unfolding token_map_laws_def by blast+
  obtain x m' where ld: "to_lookup_and_delete ops (ts_map s) key = (x, m')" by fastforce
  show ?thesis
  proof (cases x)
    case (Inr v)
    then show ?thesis using t False ld ok [of "ts_map s" key v m'] by (auto simp: bpf2socks_token_take_def view_after_def)
  next
    case (Inl e)
    show ?thesis
    proof (cases "e = ENOENT")
      case True
      then show ?thesis using t False ld no [of "ts_map s" key e m'] Inl by (auto simp: bpf2socks_token_take_def view_after_def)
    next
      case ne: False
      have "take_by_lookup ops (s\<lparr>ts_unsupported := True, ts_map := m'\<rparr>) key = (r, s')"
        using t False ld Inl ne by (simp add: bpf2socks_token_take_def)
      from take_by_lookup_exact [OF laws this] no [of "ts_map s" key e m'] ld Inl show ?thesis by simp
    qed
  qed
qed

lemma result_Some: "(case x of Inl _ \<Rightarrow> None | Inr d \<Rightarrow> Some d) = Some d \<longleftrightarrow> x = Inr d"
  by (cases x) auto

section \<open>Properties\<close>



text \<open>
  C40. A TCP token is looked up in the right order and consumed once:
  \<open>lookup_original_with_client_fallback\<close> answers the entry of the first key when it is there and
  else the entry of the second (the client-less key first exactly for loopback clients), removes
  exactly the entry it answered unless it reports that the deletion failed, and leaves every
  other token alone, on kernels with and without the combined operation. The map is a parameter
  with its documented behaviour.
\<close>

theorem tcp_token_consumed_once:
  assumes "token_map_laws ops view" "lookup_original_with_client_fallback ops s key = (r, s')"
  shows "(let first = (if bpf2socks_token_key_is_loopback key then zero_client_key key else key);
       second = (if bpf2socks_token_key_is_loopback key then key else zero_client_key key);
       used = (if view (ts_map s) first \<noteq> None then first else second)
     in map_option fst r = view (ts_map s) used \<and>
        view (ts_map s') = view_after r used (view (ts_map s)))"
proof -
  define first where "first = (if bpf2socks_token_key_is_loopback key then zero_client_key key else key)"
  define second where "second = (if bpf2socks_token_key_is_loopback key then key else zero_client_key key)"
  obtain r1 s1 where t1: "bpf2socks_token_take ops s first = (r1, s1)" by fastforce
  note e1 = token_take_exact [OF assms(1) t1]
  have run: "(case (r1, s1) of (Some r, s1) \<Rightarrow> (Some r, s1) | (None, s1) \<Rightarrow> bpf2socks_token_take ops s1 second) = (r, s')"
    using assms(2) unfolding lookup_original_with_client_fallback_def Let_def first_def [symmetric] second_def [symmetric] t1 .
  show ?thesis
  proof (cases r1)
    case (Some x)
    then show ?thesis using run e1 by (auto simp: Let_def first_def [symmetric] second_def [symmetric])
  next
    case None
    then have "view (ts_map s1) = view (ts_map s)" "view (ts_map s) first = None" using e1 by (auto simp: view_after_def)
    moreover have "bpf2socks_token_take ops s1 second = (r, s')" using run None by simp
    note token_take_exact [OF assms(1) this]
    ultimately show ?thesis by (simp add: Let_def first_def [symmetric] second_def [symmetric])
  qed
qed


theorem tcp_token_consumed_once_witness:
  "let key = \<lparr>tk_family = 2, tk_protocol = 6, tk_token_port = 1, tk_token_addr = zero_bytes 16, tk_client_port = 9,
        tk_client_addr = 10 # zero_bytes 15\<rparr>;
      dst = \<lparr>od_family = 2, od_protocol = 6, od_port = 443, od_addr = zero_bytes 16, od_flags = 0\<rparr>;
      ops = \<lparr>to_lookup = (\<lambda>m k. m k), to_lookup_and_delete = (\<lambda>m k. (Inl EINVAL, m)), to_delete = (\<lambda>m k. (True, m(k := None)))\<rparr>
   in ts_map (snd (lookup_original_with_client_fallback ops \<lparr>ts_unsupported = False, ts_map = [key \<mapsto> dst]\<rparr> key)) = Map.empty"
proof -
  define key where "key = \<lparr>tk_family = 2, tk_protocol = 6, tk_token_port = 1, tk_token_addr = zero_bytes 16, tk_client_port = 9,
        tk_client_addr = 10 # zero_bytes 15\<rparr>"
  define dst where "dst = \<lparr>od_family = 2, od_protocol = 6, od_port = 443, od_addr = zero_bytes 16, od_flags = 0 :: u8\<rparr>"
  let ?ops = "\<lparr>to_lookup = (\<lambda>m k. m k), to_lookup_and_delete = (\<lambda>m k. (Inl EINVAL, m)), to_delete = (\<lambda>m k. (True, m(k := None)))\<rparr>"
  let ?s = "\<lparr>ts_unsupported = False, ts_map = [key \<mapsto> dst]\<rparr>"
  have laws: "token_map_laws ?ops (\<lambda>m. m)" by (auto simp: token_map_laws_def)
  have lb: "\<not> bpf2socks_token_key_is_loopback key" by (simp add: key_def bpf2socks_token_key_is_loopback_def)
  obtain r s' where run: "lookup_original_with_client_fallback ?ops ?s key = (r, s')" by fastforce
  have "r = Some (dst, False)"
    using run lb by (simp add: lookup_original_with_client_fallback_def bpf2socks_token_take_def take_by_lookup_def
        bpf2socks_token_lookup_def)
  with tcp_token_consumed_once [OF laws run] lb have "ts_map s' = Map.empty" by (simp add: view_after_def)
  then show ?thesis using run by (simp add: Let_def flip: key_def dst_def)
qed

end
