(* ===== verification/Tc_Redirect.thy ===== *)
theory Tc_Redirect
  imports Token_Prefix
begin

text \<open>
  \<open>kern/tc_redirect.bpf.c\<close> with \<open>kern/tc_token.h\<close> and \<open>kern/tc_checksum_flags.h\<close>: the traffic-control
  programs that redirect the packets of hotspot clients to the bridge and rewrite its replies,
  and the reuseport program. A packet is the list of its bytes from the Ethernet header on, a
  bounds check against \<open>data_end\<close> is one against its length, and a field is read at its offset.
  The hash maps of the program are the finite maps of the state. What belongs to the kernel is a
  parameter, the record \<open>tc_helpers\<close>: the updates of the four maps (which may fail, and may evict
  entries since the maps are LRU maps), the checksum and store helpers on the packet, and the
  clock; the longest-prefix maps of the policy are predicates on addresses. The scratch space,
  which every use writes before it reads, is passed as values. Multi-byte integers in hashed
  keys lie in memory in little-endian order.
\<close>

section \<open>Model: keys, values and state\<close>

record bpf2socks_tc_original_key =
  ok_ifindex :: u32
  ok_family :: u8
  ok_protocol :: u8
  ok_client_addr :: bytes
  ok_client_port :: u16
  ok_original_port :: u16
  ok_original_addr :: bytes

record bpf2socks_tc_token_value =
  tv_token_addr :: bytes
  tv_token_port :: u16
  tv_generation :: u32

record bpf2socks_tc_reverse_key =
  rk_ifindex :: u32
  rk_family :: u8
  rk_protocol :: u8
  rk_client_addr :: bytes
  rk_client_port :: u16
  rk_token_port :: u16
  rk_token_addr :: bytes

record bpf2socks_tc_original_value =
  ov_original_addr :: bytes
  ov_original_port :: u16
  ov_created_at_ns :: u64
  ov_last_seen_ns :: u64
  ov_generation :: u32

record bpf2socks_tc_fragment_key =
  fk_ifindex :: u32
  fk_family :: u8
  fk_protocol :: u8
  fk_id :: u32
  fk_source :: bytes
  fk_destination :: bytes

record bpf2socks_tc_fragment_value =
  fv_token_addr :: bytes
  fv_generation :: u32
  fv_verdict :: u32

record bpf2socks_tc_runtime_control =
  ct_enabled :: u32
  ct_generation :: u32
  ct_bridge_port :: u16
  ct_flags :: u16
  ct_token_ipv4_prefix :: bytes
  ct_token_ipv6_prefix :: bytes
  ct_worker_count :: u32

record tc_state =
  st_control :: "bpf2socks_tc_runtime_control option"
  st_original_to_token :: "bpf2socks_tc_original_key \<rightharpoonup> bpf2socks_tc_token_value"
  st_token_to_original :: "bpf2socks_tc_reverse_key \<rightharpoonup> bpf2socks_tc_original_value"
  st_bridge_token_map :: "bpf2socks_token_key \<rightharpoonup> bpf2socks_original_dst"
  st_fragment_map :: "bpf2socks_tc_fragment_key \<rightharpoonup> bpf2socks_tc_fragment_value"

record policy_maps =
  pm_local_interface :: "bytes \<Rightarrow> bool"
  pm_proxy :: "bytes \<Rightarrow> bool"
  pm_bypass_private :: "bytes \<Rightarrow> bool"
  pm_direct :: "bytes \<Rightarrow> bool"

text \<open>An update takes the map, the key, the value and whether the flag is \<open>BPF_NOEXIST\<close>.\<close>

type_synonym ('k, 'v) map_update = "('k \<rightharpoonup> 'v) \<Rightarrow> 'k \<Rightarrow> 'v \<Rightarrow> bool \<Rightarrow> ('k \<rightharpoonup> 'v) option"

record tc_helpers =
  h_update_forward :: "(bpf2socks_tc_original_key, bpf2socks_tc_token_value) map_update"
  h_update_reverse :: "(bpf2socks_tc_reverse_key, bpf2socks_tc_original_value) map_update"
  h_update_bridge :: "(bpf2socks_token_key, bpf2socks_original_dst) map_update"
  h_update_fragment :: "(bpf2socks_tc_fragment_key, bpf2socks_tc_fragment_value) map_update"
  h_l3_csum_replace :: "bytes \<Rightarrow> nat \<Rightarrow> bytes \<Rightarrow> bytes \<Rightarrow> u64 \<Rightarrow> bytes option"
  h_l4_csum_replace :: "bytes \<Rightarrow> nat \<Rightarrow> bytes \<Rightarrow> bytes \<Rightarrow> u64 \<Rightarrow> bytes option"
  h_store_bytes :: "bytes \<Rightarrow> nat \<Rightarrow> bytes \<Rightarrow> bytes option"
  h_now :: u64
  h_scratch :: bool
  h_pull_ok :: bool
  h_policy4 :: policy_maps
  h_policy6 :: policy_maps

datatype tc_action = TC_ACT_OK | TC_ACT_SHOT | TC_ACT_PIPE

abbreviation (input) FAM4 :: u8 where "FAM4 \<equiv> 2"
abbreviation (input) FAM6 :: u8 where "FAM6 \<equiv> 10"
abbreviation (input) RUNTIME_IPV6 :: u16 where "RUNTIME_IPV6 \<equiv> 2"
abbreviation (input) RUNTIME_DNS_HIJACK :: u16 where "RUNTIME_DNS_HIJACK \<equiv> 4"
abbreviation (input) RUNTIME_BYPASS_DIRECT :: u16 where "RUNTIME_BYPASS_DIRECT \<equiv> 8"
abbreviation (input) FRAGMENT_PASS :: u32 where "FRAGMENT_PASS \<equiv> 0"
abbreviation (input) FRAGMENT_REWRITE :: u32 where "FRAGMENT_REWRITE \<equiv> 1"

section \<open>Model: policy and tokens\<close>

text \<open>The 44 bytes of the key as they lie in memory.\<close>

definition le16 :: "u16 \<Rightarrow> bytes" where
  "le16 w = [lo8 w, hi8 w]"

definition le32 :: "u32 \<Rightarrow> bytes" where
  "le32 w = rev (be32_bytes w)"

definition original_key_bytes :: "bpf2socks_tc_original_key \<Rightarrow> bytes" where
  "original_key_bytes k = le32 (ok_ifindex k) @ [ok_family k, ok_protocol k] @ zero_bytes 2 @ ok_client_addr k @
     le16 (ok_client_port k) @ le16 (ok_original_port k) @ ok_original_addr k"

definition hash_original :: "bpf2socks_tc_original_key \<Rightarrow> u32 \<Rightarrow> u32" where
  "hash_original key salt =
     (let h0 = foldl (\<lambda>h b. (h XOR ucast b) * 16777619) (2166136261 XOR salt) (original_key_bytes key);
          h1 = (h0 XOR drop_bit 16 h0) * 0x7feb352d;
          h2 = (h1 XOR drop_bit 15 h1) * 0x846ca68b
      in h2 XOR drop_bit 16 h2)"

definition ipv4_in_token_prefix :: "bytes \<Rightarrow> bytes \<Rightarrow> bool" where
  "ipv4_in_token_prefix address prefix \<longleftrightarrow> be32 address AND 0xff800000 = be32 prefix AND 0xff800000"

definition ipv6_in_token_prefix :: "bytes \<Rightarrow> bytes \<Rightarrow> bool" where
  "ipv6_in_token_prefix address prefix \<longleftrightarrow> take 8 address = take 8 prefix"

text \<open>\<open>policy4_proxy\<close> and \<open>policy6_proxy\<close> differ only in the maps and the size of the address.\<close>

definition policy_proxy :: "policy_maps \<Rightarrow> bytes \<Rightarrow> u8 \<Rightarrow> u16 \<Rightarrow> u16 \<Rightarrow> bool" where
  "policy_proxy maps destination protocol destination_port flags =
     (if protocol = PROTO_UDP \<and> (destination_port = 500 \<or> destination_port = 4500) then False
      else if flags AND RUNTIME_DNS_HIJACK \<noteq> 0 \<and> (protocol = PROTO_TCP \<or> protocol = PROTO_UDP) \<and> destination_port = 53 then True
      else if pm_local_interface maps destination then False
      else if pm_proxy maps destination then True
      else if pm_bypass_private maps destination then False
      else if flags AND RUNTIME_BYPASS_DIRECT \<noteq> 0 \<and> pm_direct maps destination then False
      else True)"

definition addr_size :: "u8 \<Rightarrow> nat" where
  "addr_size family = (if family = FAM6 then 16 else 4)"

definition fill_bridge_key :: "bpf2socks_tc_original_key \<Rightarrow> bpf2socks_tc_token_value \<Rightarrow> bpf2socks_token_key" where
  "fill_bridge_key original token =
     \<lparr>tk_family = uint (ok_family original), tk_protocol = ok_protocol original, tk_token_port = tv_token_port token,
      tk_token_addr = copy_prefix (addr_size (ok_family original)) (tv_token_addr token) (zero_bytes 16),
      tk_client_port = ok_client_port original,
      tk_client_addr = copy_prefix (addr_size (ok_family original)) (ok_client_addr original) (zero_bytes 16)\<rparr>"

definition fill_reverse_key :: "bpf2socks_tc_original_key \<Rightarrow> bpf2socks_tc_token_value \<Rightarrow> bpf2socks_tc_reverse_key" where
  "fill_reverse_key original token =
     \<lparr>rk_ifindex = ok_ifindex original, rk_family = ok_family original, rk_protocol = ok_protocol original,
      rk_client_addr = copy_prefix (addr_size (ok_family original)) (ok_client_addr original) (zero_bytes 16),
      rk_client_port = ok_client_port original, rk_token_port = tv_token_port token,
      rk_token_addr = copy_prefix (addr_size (ok_family original)) (tv_token_addr token) (zero_bytes 16)\<rparr>"

definition fill_bridge_value :: "bpf2socks_tc_original_key \<Rightarrow> bpf2socks_original_dst" where
  "fill_bridge_value original =
     \<lparr>od_family = uint (ok_family original), od_protocol = ok_protocol original, od_port = ok_original_port original,
      od_addr = copy_prefix (addr_size (ok_family original)) (ok_original_addr original) (zero_bytes 16), od_flags = 0\<rparr>"

definition find_reserved_token ::
  "bpf2socks_tc_original_key \<Rightarrow> bpf2socks_tc_runtime_control \<Rightarrow> tc_state \<Rightarrow> bpf2socks_tc_token_value option" where
  "find_reserved_token original control s =
     (case st_original_to_token s original of
        None \<Rightarrow> None
      | Some existing \<Rightarrow> if tv_generation existing \<noteq> ct_generation control then None else Some existing)"

text \<open>The token address of one attempt; \<open>None\<close> where the attempt is given up before publishing.\<close>

definition candidate_addr ::
  "bpf2socks_tc_original_key \<Rightarrow> bpf2socks_tc_runtime_control \<Rightarrow> u32 \<Rightarrow> bytes option" where
  "candidate_addr original control attempt =
     (let hash = hash_original original (0x9e3779b9 * attempt) in
      if ok_family original = FAM4 then
        (let prefix = be32 (ct_token_ipv4_prefix control);
             host_mask = 0x007fffff;
             candidate = (prefix AND 0xff800000) OR (hash AND host_mask) in
         if candidate AND 0xffffff00 = prefix AND 0xffffff00 \<or> candidate AND host_mask = host_mask then None
         else Some (be32_bytes candidate @ zero_bytes 12))
      else
        (let second_hash = hash_original original (0x85ebca6b XOR attempt) in
         Some (take 8 (ct_token_ipv6_prefix control) @ be32_bytes hash @ be32_bytes second_hash)))"

datatype attempt_result = Retry | Give_Up | Got bpf2socks_tc_token_value

definition try_token ::
  "tc_helpers \<Rightarrow> bpf2socks_tc_original_key \<Rightarrow> bpf2socks_tc_runtime_control \<Rightarrow> u32 \<Rightarrow> tc_state \<Rightarrow> attempt_result \<times> tc_state" where
  "try_token h original control attempt s =
     (case candidate_addr original control attempt of
        None \<Rightarrow> (Retry, s)
      | Some addr \<Rightarrow>
          let token = \<lparr>tv_token_addr = addr, tv_token_port = ct_bridge_port control, tv_generation = ct_generation control\<rparr>;
              bridge_key = fill_bridge_key original token;
              bridge_value = fill_bridge_value original in
          (case h_update_bridge h (st_bridge_token_map s) bridge_key bridge_value True of
             None \<Rightarrow> (Retry, s)
           | Some bridge_map \<Rightarrow>
               let reverse_key = fill_reverse_key original token;
                   reverse_value =
                     \<lparr>ov_original_addr = copy_prefix (addr_size (ok_family original)) (ok_original_addr original) (zero_bytes 16),
                      ov_original_port = ok_original_port original, ov_created_at_ns = h_now h, ov_last_seen_ns = h_now h,
                      ov_generation = ct_generation control\<rparr> in
               (case h_update_reverse h (st_token_to_original s) reverse_key reverse_value True of
                  None \<Rightarrow> (Retry, s\<lparr>st_bridge_token_map := bridge_map(bridge_key := None)\<rparr>)
                | Some reverse_map \<Rightarrow>
                    (case h_update_forward h (st_original_to_token s) original token False of
                       None \<Rightarrow> (Give_Up, s\<lparr>st_token_to_original := reverse_map(reverse_key := None),
                                          st_bridge_token_map := bridge_map(bridge_key := None)\<rparr>)
                     | Some forward_map \<Rightarrow>
                         (Got token, s\<lparr>st_bridge_token_map := bridge_map, st_token_to_original := reverse_map,
                                       st_original_to_token := forward_map\<rparr>)))))"

fun allocate_loop ::
  "tc_helpers \<Rightarrow> bpf2socks_tc_original_key \<Rightarrow> bpf2socks_tc_runtime_control \<Rightarrow> u32 list \<Rightarrow> tc_state \<Rightarrow>
   bpf2socks_tc_token_value option \<times> tc_state" where
  "allocate_loop h original control [] s = (None, s)"
| "allocate_loop h original control (attempt # attempts) s =
     (case try_token h original control attempt s of
        (Retry, s') \<Rightarrow> allocate_loop h original control attempts s'
      | (Give_Up, s') \<Rightarrow> (None, s')
      | (Got token, s') \<Rightarrow> (Some token, s'))"

definition allocate_token ::
  "tc_helpers \<Rightarrow> bpf2socks_tc_original_key \<Rightarrow> bpf2socks_tc_runtime_control \<Rightarrow> tc_state \<Rightarrow>
   bpf2socks_tc_token_value option \<times> tc_state" where
  "allocate_token h original control s = allocate_loop h original control [0, 1] s"

definition republish_bridge_token ::
  "tc_helpers \<Rightarrow> bpf2socks_tc_original_key \<Rightarrow> bpf2socks_tc_token_value \<Rightarrow> tc_state \<Rightarrow> bool \<times> tc_state" where
  "republish_bridge_token h original token s =
     (case h_update_bridge h (st_bridge_token_map s) (fill_bridge_key original token) (fill_bridge_value original) False of
        None \<Rightarrow> (False, s)
      | Some m \<Rightarrow> (True, s\<lparr>st_bridge_token_map := m\<rparr>))"

section \<open>Model: packets\<close>

definition rd16 :: "bytes \<Rightarrow> nat \<Rightarrow> u16" where
  "rd16 p off = be16 (p ! off) (p ! (off + 1))"

definition rd_bytes :: "bytes \<Rightarrow> nat \<Rightarrow> nat \<Rightarrow> bytes" where
  "rd_bytes p off n = take n (drop off p)"

definition port_bytes :: "u16 \<Rightarrow> bytes" where
  "port_bytes w = [hi8 w, lo8 w]"

definition bpf2socks_l4_common_flags :: "bool \<Rightarrow> u64 \<Rightarrow> u64" where
  "bpf2socks_l4_common_flags is_udp n = n OR (if is_udp then 32 else 0)"

definition bpf2socks_l4_address_flags :: "bool \<Rightarrow> u64 \<Rightarrow> u64" where
  "bpf2socks_l4_address_flags is_udp n = bpf2socks_l4_common_flags is_udp n OR 16"

definition bpf2socks_l4_port_flags :: "bool \<Rightarrow> u64 \<Rightarrow> u64" where
  "bpf2socks_l4_port_flags is_udp n = bpf2socks_l4_common_flags is_udp n"

text \<open>A chain of packet helpers; the first that fails makes the verdict \<open>TC_ACT_SHOT\<close>.\<close>

primrec run_helpers :: "(bytes \<Rightarrow> bytes option) list \<Rightarrow> bytes \<Rightarrow> tc_action \<times> bytes" where
  "run_helpers [] p = (TC_ACT_OK, p)"
| "run_helpers (f # fs) p = (case f p of None \<Rightarrow> (TC_ACT_SHOT, p) | Some p' \<Rightarrow> run_helpers fs p')"

definition rewrite_ipv4 ::
  "tc_helpers \<Rightarrow> bytes \<Rightarrow> nat \<Rightarrow> nat \<Rightarrow> nat \<Rightarrow> bytes \<Rightarrow> bytes \<Rightarrow> bytes \<Rightarrow> bytes \<Rightarrow> u8 \<Rightarrow> tc_action \<times> bytes" where
  "rewrite_ipv4 h p address_offset port_offset checksum_offset old_address new_address old_port new_port protocol =
     (let is_udp = (protocol = PROTO_UDP) in
      run_helpers
        [(\<lambda>p. h_l3_csum_replace h p 24 old_address new_address 4),
         (\<lambda>p. h_l4_csum_replace h p checksum_offset old_address new_address (bpf2socks_l4_address_flags is_udp 4)),
         (\<lambda>p. h_l4_csum_replace h p checksum_offset old_port new_port (bpf2socks_l4_port_flags is_udp 2)),
         (\<lambda>p. h_store_bytes h p address_offset new_address),
         (\<lambda>p. h_store_bytes h p port_offset new_port)] p)"

definition rewrite_ipv6 ::
  "tc_helpers \<Rightarrow> bytes \<Rightarrow> nat \<Rightarrow> nat \<Rightarrow> nat \<Rightarrow> bytes \<Rightarrow> bytes \<Rightarrow> bytes \<Rightarrow> bytes \<Rightarrow> u8 \<Rightarrow> tc_action \<times> bytes" where
  "rewrite_ipv6 h p address_offset port_offset checksum_offset old_address new_address old_port new_port protocol =
     (let is_udp = (protocol = PROTO_UDP);
          word = (\<lambda>off p. h_l4_csum_replace h p checksum_offset (rd_bytes old_address off 4) (rd_bytes new_address off 4)
                     (bpf2socks_l4_address_flags is_udp 4)) in
      run_helpers
        [word 0, word 4, word 8, word 12,
         (\<lambda>p. h_l4_csum_replace h p checksum_offset old_port new_port (bpf2socks_l4_port_flags is_udp 2)),
         (\<lambda>p. h_store_bytes h p address_offset new_address),
         (\<lambda>p. h_store_bytes h p port_offset new_port)] p)"

definition l4_checksum_offset :: "nat \<Rightarrow> u8 \<Rightarrow> nat" where
  "l4_checksum_offset l4_offset protocol = l4_offset + (if protocol = PROTO_TCP then 16 else 6)"

definition is_tcp_syn :: "bytes \<Rightarrow> nat \<Rightarrow> bool" where
  "is_tcp_syn p l4 = (if l4 + 20 > length p then False else rd16 p (l4 + 12) AND 0x0012 = 0x0002)"

definition tcp_or_udp :: "u8 \<Rightarrow> bool" where
  "tcp_or_udp protocol \<longleftrightarrow> protocol = PROTO_TCP \<or> protocol = PROTO_UDP"

definition fill_fragment_key ::
  "u32 \<Rightarrow> u8 \<Rightarrow> u8 \<Rightarrow> u32 \<Rightarrow> bytes \<Rightarrow> bytes \<Rightarrow> nat \<Rightarrow> bpf2socks_tc_fragment_key" where
  "fill_fragment_key ifindex family protocol frag_id source destination address_size =
     \<lparr>fk_ifindex = ifindex, fk_family = family, fk_protocol = protocol, fk_id = frag_id,
      fk_source = copy_prefix address_size source (zero_bytes 16),
      fk_destination = copy_prefix address_size destination (zero_bytes 16)\<rparr>"

definition remember_fragment ::
  "tc_helpers \<Rightarrow> bpf2socks_tc_fragment_key \<Rightarrow> bytes option \<Rightarrow> u32 \<Rightarrow> u32 \<Rightarrow> tc_state \<Rightarrow> tc_state" where
  "remember_fragment h key token_addr verdict generation s =
     (let v = \<lparr>fv_token_addr = (case token_addr of None \<Rightarrow> zero_bytes 16 | Some a \<Rightarrow> copy_prefix 16 a (zero_bytes 16)),
               fv_generation = generation, fv_verdict = verdict\<rparr> in
      case h_update_fragment h (st_fragment_map s) key v False of
        None \<Rightarrow> s
      | Some m \<Rightarrow> s\<lparr>st_fragment_map := m\<rparr>)"

text \<open>
  The part that both families share once the key of the flow is known: the token it uses, or
  \<open>None\<close> when the packet is to be passed on, and the state with the verdict remembered for the
  later fragments (\<open>fragment\<close> is the key of the datagram if this is its first fragment).
\<close>

definition choose_token ::
  "tc_helpers \<Rightarrow> policy_maps \<Rightarrow> bpf2socks_tc_original_key \<Rightarrow> bytes \<Rightarrow> bpf2socks_tc_runtime_control \<Rightarrow> bool \<Rightarrow>
   bpf2socks_tc_fragment_key option \<Rightarrow> tc_state \<Rightarrow> bpf2socks_tc_token_value option \<times> tc_state" where
  "choose_token h maps original destination control tcp_syn fragment s =
     (let remember = (\<lambda>addr verdict s. case fragment of None \<Rightarrow> s
                        | Some k \<Rightarrow> remember_fragment h k addr verdict (ct_generation control) s) in
      case find_reserved_token original control s of
        None \<Rightarrow>
          (let (r, s1) = (if \<not> policy_proxy maps destination (ok_protocol original) (ok_original_port original) (ct_flags control)
                          then (None, s) else allocate_token h original control s) in
           case r of
             None \<Rightarrow> (None, remember None FRAGMENT_PASS s1)
           | Some token \<Rightarrow> (Some token, remember (Some (tv_token_addr token)) FRAGMENT_REWRITE s1))
      | Some token \<Rightarrow>
          (let (ok, s1) = (if tcp_syn then republish_bridge_token h original token s else (True, s)) in
           if \<not> ok then (None, s1)
           else (Some token, remember (Some (tv_token_addr token)) FRAGMENT_REWRITE s1)))"

section \<open>Model: IPv4\<close>

text \<open>The IPv4 header starts at offset 14; \<open>raw16\<close> is a field compared but never interpreted.\<close>

definition ip4_version :: "bytes \<Rightarrow> nat" where "ip4_version p = unat (drop_bit 4 (p ! 14))"
definition ip4_ihl :: "bytes \<Rightarrow> nat" where "ip4_ihl p = unat (p ! 14 AND 0x0f)"
definition raw16 :: "bytes \<Rightarrow> nat \<Rightarrow> u32" where "raw16 p off = ucast (p ! off) OR push_bit 8 (ucast (p ! (off + 1)))"

definition ingress4_later_fragment ::
  "tc_helpers \<Rightarrow> u32 \<Rightarrow> bytes \<Rightarrow> bpf2socks_tc_runtime_control \<Rightarrow> tc_state \<Rightarrow> tc_action \<times> bytes \<times> tc_state" where
  "ingress4_later_fragment h ifindex p control s =
     (let protocol = p ! 23 in
      if \<not> tcp_or_udp protocol then (TC_ACT_PIPE, p, s)
      else case st_fragment_map s (fill_fragment_key ifindex FAM4 protocol (raw16 p 18) (rd_bytes p 26 4) (rd_bytes p 30 4) 4) of
        None \<Rightarrow> (TC_ACT_SHOT, p, s)
      | Some fragment \<Rightarrow>
          if fv_generation fragment \<noteq> ct_generation control then (TC_ACT_SHOT, p, s)
          else if fv_verdict fragment \<noteq> FRAGMENT_REWRITE then (TC_ACT_PIPE, p, s)
          else let token_address = take 4 (fv_token_addr fragment) in
            case run_helpers [(\<lambda>q. h_l3_csum_replace h q 24 (rd_bytes p 30 4) token_address 4),
                              (\<lambda>q. h_store_bytes h q 30 token_address)] p of
              (act, p') \<Rightarrow> (act, p', s))"

definition ingress4 ::
  "tc_helpers \<Rightarrow> u32 \<Rightarrow> bytes \<Rightarrow> bpf2socks_tc_runtime_control \<Rightarrow> tc_state \<Rightarrow> tc_action \<times> bytes \<times> tc_state" where
  "ingress4 h ifindex p control s =
     (if ip4_version p \<noteq> 4 \<or> ip4_ihl p < 5 then (TC_ACT_SHOT, p, s)
      else let header_length = ip4_ihl p * 4;
               fragment_bits = rd16 p 20 AND 0x3fff;
               protocol = p ! 23;
               l4 = 14 + header_length in
        if fragment_bits AND 0x1fff \<noteq> 0 then ingress4_later_fragment h ifindex p control s
        else if l4 + 4 > length p then (TC_ACT_SHOT, p, s)
        else if \<not> tcp_or_udp protocol then (TC_ACT_PIPE, p, s)
        else if be32 (rd_bytes p 30 4) AND 0xff000000 = 0x7f000000 then (TC_ACT_SHOT, p, s)
        else let first_fragment = (fragment_bits \<noteq> 0);
                 destination_port = rd16 p (l4 + 2);
                 tcp_syn = (protocol = PROTO_TCP \<and> is_tcp_syn p l4) in
          if \<not> h_scratch h then (TC_ACT_SHOT, p, s)
          else let original =
                     \<lparr>ok_ifindex = ifindex, ok_family = FAM4, ok_protocol = protocol,
                      ok_client_addr = copy_prefix 4 (rd_bytes p 26 4) (zero_bytes 16), ok_client_port = rd16 p l4,
                      ok_original_port = destination_port,
                      ok_original_addr = copy_prefix 4 (rd_bytes p 30 4) (zero_bytes 16)\<rparr>;
                   fragment = (if first_fragment
                     then Some (fill_fragment_key ifindex FAM4 protocol (raw16 p 18) (rd_bytes p 26 4) (rd_bytes p 30 4) 4)
                     else None) in
            case choose_token h (h_policy4 h) original (rd_bytes p 30 4) control tcp_syn fragment s of
              (None, s') \<Rightarrow> (TC_ACT_PIPE, p, s')
            | (Some token, s') \<Rightarrow>
                (case rewrite_ipv4 h p 30 (l4 + 2) (l4_checksum_offset l4 protocol) (rd_bytes p 30 4)
                        (take 4 (tv_token_addr token)) (rd_bytes p (l4 + 2) 2) (port_bytes (ct_bridge_port control)) protocol of
                   (act, p') \<Rightarrow> (act, p', s')))"

definition egress4 ::
  "tc_helpers \<Rightarrow> u32 \<Rightarrow> bytes \<Rightarrow> bpf2socks_tc_runtime_control \<Rightarrow> tc_state \<Rightarrow> tc_action \<times> bytes \<times> tc_state" where
  "egress4 h ifindex p control s =
     (if ip4_version p \<noteq> 4 \<or> ip4_ihl p < 5 then (TC_ACT_SHOT, p, s)
      else let l4 = 14 + ip4_ihl p * 4; protocol = p ! 23 in
        if l4 + 4 > length p then (TC_ACT_SHOT, p, s)
        else if \<not> ipv4_in_token_prefix (rd_bytes p 26 4) (ct_token_ipv4_prefix control) then (TC_ACT_PIPE, p, s)
        else if rd16 p 20 AND 0x3fff \<noteq> 0 then (TC_ACT_SHOT, p, s)
        else if \<not> tcp_or_udp protocol then (TC_ACT_SHOT, p, s)
        else if rd16 p l4 \<noteq> ct_bridge_port control then (TC_ACT_SHOT, p, s)
        else if \<not> h_scratch h then (TC_ACT_SHOT, p, s)
        else let key = \<lparr>rk_ifindex = ifindex, rk_family = FAM4, rk_protocol = protocol,
                        rk_client_addr = copy_prefix 4 (rd_bytes p 30 4) (zero_bytes 16), rk_client_port = rd16 p (l4 + 2),
                        rk_token_port = ct_bridge_port control,
                        rk_token_addr = copy_prefix 4 (rd_bytes p 26 4) (zero_bytes 16)\<rparr> in
          case st_token_to_original s key of
            None \<Rightarrow> (TC_ACT_SHOT, p, s)
          | Some original \<Rightarrow>
              if ov_generation original \<noteq> ct_generation control then (TC_ACT_SHOT, p, s)
              else let s' = s\<lparr>st_token_to_original := (st_token_to_original s)(key \<mapsto> original\<lparr>ov_last_seen_ns := h_now h\<rparr>)\<rparr> in
                (case rewrite_ipv4 h p 26 l4 (l4_checksum_offset l4 protocol) (rd_bytes p 26 4)
                        (take 4 (ov_original_addr original)) (rd_bytes p l4 2) (port_bytes (ov_original_port original)) protocol of
                   (act, p') \<Rightarrow> (act, p', s')))"

section \<open>Model: IPv6\<close>

definition ip6_version :: "bytes \<Rightarrow> nat" where "ip6_version p = unat (drop_bit 4 (p ! 14))"

definition raw32 :: "bytes \<Rightarrow> nat \<Rightarrow> u32" where
  "raw32 p off = raw16 p off OR push_bit 16 (raw16 p (off + 2))"

definition ingress6_later_fragment ::
  "tc_helpers \<Rightarrow> bpf2socks_tc_fragment_key \<Rightarrow> bytes \<Rightarrow> bpf2socks_tc_runtime_control \<Rightarrow> tc_state \<Rightarrow> tc_action \<times> bytes \<times> tc_state" where
  "ingress6_later_fragment h key p control s =
     (let missing = (if ct_flags control AND RUNTIME_IPV6 \<noteq> 0 then TC_ACT_SHOT else TC_ACT_PIPE) in
      case st_fragment_map s key of
        None \<Rightarrow> (missing, p, s)
      | Some fragment \<Rightarrow>
          if fv_generation fragment \<noteq> ct_generation control then (missing, p, s)
          else if fv_verdict fragment \<noteq> FRAGMENT_REWRITE then (TC_ACT_PIPE, p, s)
          else case run_helpers [(\<lambda>q. h_store_bytes h q 38 (fv_token_addr fragment))] p of
            (act, p') \<Rightarrow> (act, p', s))"

text \<open>The datagram once its transport header is located; \<open>fragment\<close> as in \<open>choose_token\<close>.\<close>

definition ingress6_transport ::
  "tc_helpers \<Rightarrow> u32 \<Rightarrow> u8 \<Rightarrow> nat \<Rightarrow> bpf2socks_tc_fragment_key option \<Rightarrow> bytes \<Rightarrow> bpf2socks_tc_runtime_control \<Rightarrow> tc_state \<Rightarrow>
   tc_action \<times> bytes \<times> tc_state" where
  "ingress6_transport h ifindex protocol l4 fragment p control s =
     (if \<not> tcp_or_udp protocol then (TC_ACT_PIPE, p, s)
      else if l4 + 4 > length p then (TC_ACT_SHOT, p, s)
      else if ipv6_in_token_prefix (rd_bytes p 38 16) (ct_token_ipv6_prefix control) then (TC_ACT_SHOT, p, s)
      else let destination_port = rd16 p (l4 + 2);
               tcp_syn = (protocol = PROTO_TCP \<and> is_tcp_syn p l4) in
        if ct_flags control AND RUNTIME_IPV6 = 0 \<and>
           (ct_flags control AND RUNTIME_DNS_HIJACK = 0 \<or> destination_port \<noteq> 53)
        then (TC_ACT_PIPE, p,
              case fragment of None \<Rightarrow> s
              | Some k \<Rightarrow> remember_fragment h k None FRAGMENT_PASS (ct_generation control) s)
        else if \<not> h_scratch h then (TC_ACT_SHOT, p, s)
        else let original =
                   \<lparr>ok_ifindex = ifindex, ok_family = FAM6, ok_protocol = protocol,
                    ok_client_addr = rd_bytes p 22 16, ok_client_port = rd16 p l4,
                    ok_original_port = destination_port, ok_original_addr = rd_bytes p 38 16\<rparr> in
          case choose_token h (h_policy6 h) original (rd_bytes p 38 16) control tcp_syn fragment s of
            (None, s') \<Rightarrow> (TC_ACT_PIPE, p, s')
          | (Some token, s') \<Rightarrow>
              (case rewrite_ipv6 h p 38 (l4 + 2) (l4_checksum_offset l4 protocol) (ok_original_addr original)
                      (tv_token_addr token) (port_bytes destination_port) (port_bytes (ct_bridge_port control)) protocol of
                 (act, p') \<Rightarrow> (act, p', s')))"

definition ingress6 ::
  "tc_helpers \<Rightarrow> u32 \<Rightarrow> bytes \<Rightarrow> bpf2socks_tc_runtime_control \<Rightarrow> tc_state \<Rightarrow> tc_action \<times> bytes \<times> tc_state" where
  "ingress6 h ifindex p control s =
     (if ip6_version p \<noteq> 6 then (TC_ACT_SHOT, p, s)
      else if p ! 20 = 44 then
        (if 62 > length p then (TC_ACT_SHOT, p, s)
         else let protocol = p ! 54;
                  key = fill_fragment_key ifindex FAM6 protocol (raw32 p 58) (rd_bytes p 22 16) (rd_bytes p 38 16) 16 in
           if \<not> tcp_or_udp protocol then (TC_ACT_PIPE, p, s)
           else if rd16 p 56 AND 0xfff8 \<noteq> 0 then ingress6_later_fragment h key p control s
           else ingress6_transport h ifindex protocol 62 (Some key) p control s)
      else ingress6_transport h ifindex (p ! 20) 54 None p control s)"

definition egress6 ::
  "tc_helpers \<Rightarrow> u32 \<Rightarrow> bytes \<Rightarrow> bpf2socks_tc_runtime_control \<Rightarrow> tc_state \<Rightarrow> tc_action \<times> bytes \<times> tc_state" where
  "egress6 h ifindex p control s =
     (if ct_flags control AND (RUNTIME_IPV6 OR RUNTIME_DNS_HIJACK) = 0 then (TC_ACT_PIPE, p, s)
      else if ip6_version p \<noteq> 6 then (TC_ACT_SHOT, p, s)
      else if \<not> ipv6_in_token_prefix (rd_bytes p 22 16) (ct_token_ipv6_prefix control) then (TC_ACT_PIPE, p, s)
      else let protocol = p ! 20 in
        if \<not> tcp_or_udp protocol then (TC_ACT_SHOT, p, s)
        else if 58 > length p then (TC_ACT_SHOT, p, s)
        else if rd16 p 54 \<noteq> ct_bridge_port control then (TC_ACT_SHOT, p, s)
        else if \<not> h_scratch h then (TC_ACT_SHOT, p, s)
        else let key = \<lparr>rk_ifindex = ifindex, rk_family = FAM6, rk_protocol = protocol,
                        rk_client_addr = rd_bytes p 38 16, rk_client_port = rd16 p 56,
                        rk_token_port = ct_bridge_port control, rk_token_addr = rd_bytes p 22 16\<rparr> in
          case st_token_to_original s key of
            None \<Rightarrow> (TC_ACT_SHOT, p, s)
          | Some original \<Rightarrow>
              if ov_generation original \<noteq> ct_generation control then (TC_ACT_SHOT, p, s)
              else let s' = s\<lparr>st_token_to_original := (st_token_to_original s)(key \<mapsto> original\<lparr>ov_last_seen_ns := h_now h\<rparr>)\<rparr> in
                (case rewrite_ipv6 h p 22 54 (l4_checksum_offset 54 protocol) (rk_token_addr key)
                        (ov_original_addr original) (port_bytes (ct_bridge_port control)) (port_bytes (ov_original_port original)) protocol of
                   (act, p') \<Rightarrow> (act, p', s')))"

section \<open>Model: entry points\<close>

definition classify :: "tc_helpers \<Rightarrow> u32 \<Rightarrow> bytes \<Rightarrow> bool \<Rightarrow> tc_state \<Rightarrow> tc_action \<times> bytes \<times> tc_state" where
  "classify h ifindex p ingress s =
     (case st_control s of
        None \<Rightarrow> (TC_ACT_PIPE, p, s)
      | Some control \<Rightarrow>
          if ct_enabled control = 0 then (TC_ACT_PIPE, p, s)
          else if \<not> h_pull_ok h then (TC_ACT_PIPE, p, s)
          else if 14 > length p then (TC_ACT_SHOT, p, s)
          else if rd16 p 12 = 0x0800 then
            (if 34 > length p then (TC_ACT_SHOT, p, s)
             else if ingress then ingress4 h ifindex p control s else egress4 h ifindex p control s)
          else if rd16 p 12 = 0x86dd then
            (if 54 > length p then (TC_ACT_SHOT, p, s)
             else if ingress then ingress6 h ifindex p control s else egress6 h ifindex p control s)
          else (TC_ACT_PIPE, p, s))"

definition bpf2socks_tc_ingress :: "tc_helpers \<Rightarrow> u32 \<Rightarrow> bytes \<Rightarrow> tc_state \<Rightarrow> tc_action \<times> bytes \<times> tc_state" where
  "bpf2socks_tc_ingress h ifindex p s = classify h ifindex p True s"

definition bpf2socks_tc_egress :: "tc_helpers \<Rightarrow> u32 \<Rightarrow> bytes \<Rightarrow> tc_state \<Rightarrow> tc_action \<times> bytes \<times> tc_state" where
  "bpf2socks_tc_egress h ifindex p s = classify h ifindex p False s"

text \<open>The reuseport program: the map and the key of the socket it selects, if it selects one.\<close>

datatype reuseport_map = reuseport_tcp4 | reuseport_udp4 | reuseport_tcp6 | reuseport_udp6

record sk_reuseport_md =
  rm_hash :: u32
  rm_ip_protocol :: u32
  rm_eth_protocol :: bytes
  rm_data :: bytes

definition reuseport_index :: "sk_reuseport_md \<Rightarrow> u32 \<Rightarrow> u32" where
  "reuseport_index reuse worker_count = (if worker_count = 0 then 0 else rm_hash reuse mod worker_count)"

definition bpf2socks_reuseport :: "sk_reuseport_md \<Rightarrow> tc_state \<Rightarrow> (reuseport_map \<times> u32) option" where
  "bpf2socks_reuseport reuse s =
     (case st_control s of
        None \<Rightarrow> None
      | Some control \<Rightarrow>
          if ct_worker_count control = 0 then None
          else let is_udp = (rm_ip_protocol reuse = 17) in
            if is_udp \<and> length (rm_data reuse) < 2 then None
            else let key = (if is_udp then ucast (rd16 (rm_data reuse) 0) mod ct_worker_count control
                            else reuseport_index reuse (ct_worker_count control)) in
              if rm_eth_protocol reuse = [0x08, 0x00] then Some (if is_udp then reuseport_udp4 else reuseport_tcp4, key)
              else if rm_eth_protocol reuse = [0x86, 0xdd] then Some (if is_udp then reuseport_udp6 else reuseport_tcp6, key)
              else None)"

end
