(* ===== verification/Tc_Redirect_Correct.thy ===== *)
theory Tc_Redirect_Correct
  imports Tc_Redirect
begin

text \<open>
  Correctness of the traffic-control programs of \<^verbatim>\<open>kern/tc_redirect.bpf.c\<close>. The documented behaviour of
  the kernel helpers is named by predicates on \<open>tc_helpers\<close>: an update of a hash map that succeeds
  stores the entry, and with \<open>BPF_NOEXIST\<close> only under an absent key; an LRU map may drop other
  entries meanwhile, but never invents one. The packet helpers write what they are given where
  they are told. Shown here: tokens lie in the pool that the bridge tests, allocation publishes a
  flow in all three tables or in none, the tables stay consistent over every sequence of packets
  and of tokens consumed by the bridge, a reply leaves with the address the client had asked for,
  and later fragments follow the first.
\<close>

section \<open>The kernel interface\<close>

definition evicting_update :: "('k, 'v) map_update \<Rightarrow> bool" where
  "evicting_update u \<longleftrightarrow>
     (\<forall>m k v noexist m'. u m k v noexist = Some m' \<longrightarrow>
        m' k = Some v \<and> (noexist \<longrightarrow> m k = None) \<and> m'(k := None) \<subseteq>\<^sub>m m)"

definition exact_update :: "('k, 'v) map_update \<Rightarrow> bool" where
  "exact_update u \<longleftrightarrow>
     (\<forall>m k v noexist m'. u m k v noexist = Some m' \<longrightarrow> m' = m(k \<mapsto> v) \<and> (noexist \<longrightarrow> m k = None))"

definition evicting_maps :: "tc_helpers \<Rightarrow> bool" where
  "evicting_maps h \<longleftrightarrow> evicting_update (h_update_forward h) \<and> evicting_update (h_update_reverse h) \<and>
     evicting_update (h_update_bridge h) \<and> evicting_update (h_update_fragment h)"

definition exact_maps :: "tc_helpers \<Rightarrow> bool" where
  "exact_maps h \<longleftrightarrow> exact_update (h_update_forward h) \<and> exact_update (h_update_reverse h) \<and>
     exact_update (h_update_bridge h) \<and> exact_update (h_update_fragment h)"

lemma exact_updateD:
  "exact_update u \<Longrightarrow> u m k v noexist = Some m' \<Longrightarrow> m' = m(k \<mapsto> v) \<and> (noexist \<longrightarrow> m k = None)"
  unfolding exact_update_def by blast

lemma evicting_updateD:
  "evicting_update u \<Longrightarrow> u m k v noexist = Some m' \<Longrightarrow>
     m' k = Some v \<and> (noexist \<longrightarrow> m k = None) \<and> m'(k := None) \<subseteq>\<^sub>m m"
  unfolding evicting_update_def by blast

lemma exact_imp_evicting: "exact_update u \<Longrightarrow> evicting_update u"
  by (auto simp: evicting_update_def map_le_def dest!: exact_updateD split: if_splits)

lemma exact_maps_imp_evicting: "exact_maps h \<Longrightarrow> evicting_maps h"
  by (simp add: exact_maps_def evicting_maps_def exact_imp_evicting)

lemma map_le_upd_None: "m \<subseteq>\<^sub>m m' \<Longrightarrow> m(k := None) \<subseteq>\<^sub>m m'"
  by (auto simp: map_le_def)

lemma map_le_chain: "m1(k := None) \<subseteq>\<^sub>m m2 \<Longrightarrow> m2 \<subseteq>\<^sub>m m3 \<Longrightarrow> m1(k := None) \<subseteq>\<^sub>m m3"
  by (rule map_le_trans)

section \<open>Tokens\<close>

lemma kernel4_agrees: "ipv4_in_token_prefix a p = bpf2socks_token_prefix_match4 a p 9"
proof -
  have "NOT (bpf2socks_token_prefix_host_mask4 9) = 0xff800000"
    by (simp add: bpf2socks_token_prefix_host_mask4_def mask_eq_exp_minus_1)
  then show ?thesis by (simp add: ipv4_in_token_prefix_def bpf2socks_token_prefix_match4_def Let_def)
qed

lemma kernel6_agrees: "ipv6_in_token_prefix a p = bpf2socks_token_prefix_match6 a p 64"
  by (simp add: ipv6_in_token_prefix_def bpf2socks_token_prefix_match6_def)

text \<open>What the address of a token satisfies, by family.\<close>

definition token_in_pool :: "bpf2socks_tc_runtime_control \<Rightarrow> u8 \<Rightarrow> bytes \<Rightarrow> bool" where
  "token_in_pool control family addr \<longleftrightarrow> length addr = 16 \<and>
     (if family = FAM4 then
        ipv4_in_token_prefix (take 4 addr) (ct_token_ipv4_prefix control) \<and> drop 4 addr = zero_bytes 12 \<and>
        take 3 addr \<noteq> take 3 (ct_token_ipv4_prefix control) \<and>
        be32 (take 4 addr) AND 0x007fffff \<noteq> 0x007fffff
      else ipv6_in_token_prefix addr (ct_token_ipv6_prefix control))"

definition wf_control :: "bpf2socks_tc_runtime_control \<Rightarrow> bool" where
  "wf_control control \<longleftrightarrow> length (ct_token_ipv4_prefix control) = 4 \<and> length (ct_token_ipv6_prefix control) = 16"

lemma and_mask_idem: "((p AND m) OR (x AND n)) AND m = p AND (m :: u32)" if "n AND m = 0"
proof -
  have "(x AND n) AND m = x AND (n AND m)" by (simp add: and.assoc)
  then show ?thesis using that by (simp add: bit.conj_disj_distrib2)
qed

lemma be32_first3:
  assumes "length a = 4" "length b = 4" "take 3 a = take 3 b"
  shows "be32 a AND 0xffffff00 = be32 b AND 0xffffff00"
proof (rule bit_word_eqI)
  fix n assume "n < LENGTH(32)"
  then have n: "n < 32" by simp
  have m: "bit (0xffffff00 :: u32) n \<longleftrightarrow> 8 \<le> n"
  proof -
    have "(0xffffff00 :: u32) = NOT (mask 8)" by (simp add: mask_eq_exp_minus_1)
    then have "bit (0xffffff00 :: u32) n = bit (NOT (mask 8) :: u32) n" by (rule arg_cong)
    also have "\<dots> = (8 \<le> n)" using n by (simp add: bit_not_iff bit_mask_iff not_less)
    finally show ?thesis .
  qed
  have "a ! (3 - n div 8) = b ! (3 - n div 8)" if "8 \<le> n"
  proof -
    have "3 - n div 8 < 3" using that by (simp add: div_greater_zero_iff)
    then show ?thesis using assms(3) by (metis nth_take)
  qed
  then show "bit (be32 a AND 0xffffff00) n \<longleftrightarrow> bit (be32 b AND 0xffffff00) n"
    using n m by (auto simp: bit_and_iff bit_be32)
qed

lemma candidate_in_pool:
  assumes "candidate_addr k control attempt = Some addr" "wf_control control"
  shows "token_in_pool control (ok_family k) addr"
proof (cases "ok_family k = FAM4")
  case True
  define prefix where "prefix = be32 (ct_token_ipv4_prefix control)"
  define cand where "cand = (prefix AND 0xff800000) OR (hash_original k (0x9e3779b9 * attempt) AND 0x007fffff)"
  have a: "addr = be32_bytes cand @ zero_bytes 12" and ne: "cand AND 0xffffff00 \<noteq> prefix AND 0xffffff00"
    "cand AND 0x007fffff \<noteq> 0x007fffff"
    using assms(1) True by (auto simp: candidate_addr_def Let_def prefix_def cand_def split: if_splits)
  have t: "take 4 addr = be32_bytes cand" by (simp add: a)
  have "cand AND 0xff800000 = prefix AND 0xff800000" unfolding cand_def by (rule and_mask_idem) simp
  moreover have "take 3 addr \<noteq> take 3 (ct_token_ipv4_prefix control)"
    using be32_first3 [of "be32_bytes cand" "ct_token_ipv4_prefix control"] ne(1) assms(2)
    by (auto simp: a prefix_def wf_control_def)
  ultimately show ?thesis using True ne(2) by (simp add: token_in_pool_def t ipv4_in_token_prefix_def prefix_def) (simp add: a)
next
  case False
  then show ?thesis using assms by (auto simp: candidate_addr_def Let_def token_in_pool_def ipv6_in_token_prefix_def wf_control_def)
qed

section \<open>Allocation\<close>

text \<open>The reverse entry that belongs to a flow.\<close>

definition answers :: "bpf2socks_tc_runtime_control \<Rightarrow> bpf2socks_tc_original_key \<Rightarrow> bpf2socks_tc_original_value \<Rightarrow> bool" where
  "answers control k v \<longleftrightarrow>
     ov_original_addr v = copy_prefix (addr_size (ok_family k)) (ok_original_addr k) (zero_bytes 16) \<and>
     ov_original_port v = ok_original_port k \<and> ov_generation v = ct_generation control"

definition good_token :: "bpf2socks_tc_runtime_control \<Rightarrow> bpf2socks_tc_original_key \<Rightarrow> bpf2socks_tc_token_value \<Rightarrow> bool" where
  "good_token control k token \<longleftrightarrow> token_in_pool control (ok_family k) (tv_token_addr token) \<and>
     tv_token_port token = ct_bridge_port control \<and> tv_generation token = ct_generation control"

text \<open>The flow is published in the three tables, and every other entry was there before.\<close>

definition published ::
  "bpf2socks_tc_runtime_control \<Rightarrow> bpf2socks_tc_original_key \<Rightarrow> bpf2socks_tc_token_value \<Rightarrow> tc_state \<Rightarrow> tc_state \<Rightarrow> bool" where
  "published control k token s s' \<longleftrightarrow>
     (let bk = fill_bridge_key k token; rk = fill_reverse_key k token in
      st_bridge_token_map s' bk = Some (fill_bridge_value k) \<and>
      (\<exists>v. st_token_to_original s' rk = Some v \<and> answers control k v) \<and>
      st_original_to_token s' k = Some token \<and>
      (st_bridge_token_map s')(bk := None) \<subseteq>\<^sub>m st_bridge_token_map s \<and>
      (st_token_to_original s')(rk := None) \<subseteq>\<^sub>m st_token_to_original s \<and>
      (st_original_to_token s')(k := None) \<subseteq>\<^sub>m st_original_to_token s)"

definition withdrawn :: "tc_state \<Rightarrow> tc_state \<Rightarrow> bool" where
  "withdrawn s s' \<longleftrightarrow> st_bridge_token_map s' \<subseteq>\<^sub>m st_bridge_token_map s \<and>
     st_token_to_original s' \<subseteq>\<^sub>m st_token_to_original s \<and> st_original_to_token s' = st_original_to_token s"

definition same_rest :: "tc_state \<Rightarrow> tc_state \<Rightarrow> bool" where
  "same_rest s s' \<longleftrightarrow> st_control s' = st_control s \<and> st_fragment_map s' = st_fragment_map s"

lemma try_token_effect:
  assumes h: "evicting_maps h" and c: "wf_control control" and run: "try_token h k control attempt s = (r, s')"
  shows "same_rest s s' \<and>
    (case r of Got token \<Rightarrow> good_token control k token \<and> published control k token s s' | _ \<Rightarrow> withdrawn s s')"
proof (cases "candidate_addr k control attempt")
  case None
  then show ?thesis using run by (auto simp: try_token_def same_rest_def withdrawn_def)
next
  case (Some addr)
  define token where "token = \<lparr>tv_token_addr = addr, tv_token_port = ct_bridge_port control, tv_generation = ct_generation control\<rparr>"
  define bk where "bk = fill_bridge_key k token"
  define rk where "rk = fill_reverse_key k token"
  define rv where "rv = \<lparr>ov_original_addr = copy_prefix (addr_size (ok_family k)) (ok_original_addr k) (zero_bytes 16),
    ov_original_port = ok_original_port k, ov_created_at_ns = h_now h, ov_last_seen_ns = h_now h,
    ov_generation = ct_generation control\<rparr>"
  have good: "good_token control k token" using candidate_in_pool [OF Some c] by (simp add: good_token_def token_def)
  have ans: "answers control k rv" by (simp add: answers_def rv_def)
  note run' = run [unfolded try_token_def Some option.case Let_def, folded token_def, folded bk_def rk_def rv_def]
  note laws = h [unfolded evicting_maps_def]
  show ?thesis
  proof (cases "h_update_bridge h (st_bridge_token_map s) bk (fill_bridge_value k) True")
    case None
    then show ?thesis using run' by (auto simp: same_rest_def withdrawn_def)
  next
    case b: (Some bm)
    note bm = evicting_updateD [OF laws [THEN conjunct2, THEN conjunct2, THEN conjunct1] b]
    show ?thesis
    proof (cases "h_update_reverse h (st_token_to_original s) rk rv True")
      case None
      then show ?thesis using run' b bm by (auto simp: same_rest_def withdrawn_def)
    next
      case r: (Some rm)
      note rm = evicting_updateD [OF laws [THEN conjunct2, THEN conjunct1] r]
      show ?thesis
      proof (cases "h_update_forward h (st_original_to_token s) k token False")
        case None
        then show ?thesis using run' b r bm rm by (auto simp: same_rest_def withdrawn_def)
      next
        case f: (Some fm)
        note fm = evicting_updateD [OF laws [THEN conjunct1] f]
        have "r = Got token" "s' = s\<lparr>st_bridge_token_map := bm, st_token_to_original := rm, st_original_to_token := fm\<rparr>"
          using run' b r f by auto
        then show ?thesis using good bm rm fm ans by (simp add: same_rest_def published_def flip: bk_def rk_def)
      qed
    qed
  qed
qed

lemma withdrawn_trans: "withdrawn s1 s2 \<Longrightarrow> withdrawn s2 s3 \<Longrightarrow> withdrawn s1 s3"
  by (auto simp: withdrawn_def intro: map_le_trans)

lemma withdrawn_published: "withdrawn s1 s2 \<Longrightarrow> published control k token s2 s3 \<Longrightarrow> published control k token s1 s3"
  by (auto simp: withdrawn_def published_def Let_def intro: map_le_trans)

lemma allocate_loop_effect:
  assumes "evicting_maps h" "wf_control control" "allocate_loop h k control attempts s = (r, s')"
  shows "same_rest s s' \<and>
    (case r of Some token \<Rightarrow> good_token control k token \<and> published control k token s s' | None \<Rightarrow> withdrawn s s')"
  using assms(3)
proof (induction attempts arbitrary: s)
  case Nil
  then show ?case by (simp add: same_rest_def withdrawn_def)
next
  case (Cons a as)
  obtain x s1 where t: "try_token h k control a s = (x, s1)" by fastforce
  note e = try_token_effect [OF assms(1,2) t]
  show ?case
  proof (cases x)
    case Retry
    then have w: "withdrawn s s1" "same_rest s s1" using e by auto
    have "allocate_loop h k control as s1 = (r, s')" using Cons.prems t Retry by simp
    note i = Cons.IH [OF this]
    have "same_rest s s'" using i w(2) by (simp add: same_rest_def)
    with i w(1) show ?thesis by (auto intro: withdrawn_trans withdrawn_published split: option.splits)
  next
    case Give_Up
    then show ?thesis using Cons.prems t e by auto
  next
    case (Got token)
    then show ?thesis using Cons.prems t e by auto
  qed
qed

text \<open>Where no map evicts, a failed attempt leaves no trace and a successful one adds exactly its entries.\<close>

definition extended ::
  "bpf2socks_tc_runtime_control \<Rightarrow> bpf2socks_tc_original_key \<Rightarrow> bpf2socks_tc_token_value \<Rightarrow> tc_state \<Rightarrow> tc_state \<Rightarrow> bool" where
  "extended control k token s s' \<longleftrightarrow>
     (\<exists>v. answers control k v \<and> st_bridge_token_map s (fill_bridge_key k token) = None \<and>
        st_token_to_original s (fill_reverse_key k token) = None \<and>
        s' = s\<lparr>st_bridge_token_map := (st_bridge_token_map s)(fill_bridge_key k token \<mapsto> fill_bridge_value k),
               st_token_to_original := (st_token_to_original s)(fill_reverse_key k token \<mapsto> v),
               st_original_to_token := (st_original_to_token s)(k \<mapsto> token)\<rparr>)"

lemma undo_upd: "m k = None \<Longrightarrow> (m(k \<mapsto> v))(k := None) = m"
  by auto

lemma try_token_exact:
  assumes h: "exact_maps h" and run: "try_token h k control attempt s = (r, s')"
  shows "case r of Got token \<Rightarrow> extended control k token s s' | _ \<Rightarrow> s' = s"
proof (cases "candidate_addr k control attempt")
  case None
  then show ?thesis using run by (auto simp: try_token_def)
next
  case (Some addr)
  define token where "token = \<lparr>tv_token_addr = addr, tv_token_port = ct_bridge_port control, tv_generation = ct_generation control\<rparr>"
  define bk where "bk = fill_bridge_key k token"
  define rk where "rk = fill_reverse_key k token"
  define rv where "rv = \<lparr>ov_original_addr = copy_prefix (addr_size (ok_family k)) (ok_original_addr k) (zero_bytes 16),
    ov_original_port = ok_original_port k, ov_created_at_ns = h_now h, ov_last_seen_ns = h_now h,
    ov_generation = ct_generation control\<rparr>"
  have ans: "answers control k rv" by (simp add: answers_def rv_def)
  note run' = run [unfolded try_token_def Some option.case Let_def, folded token_def, folded bk_def rk_def rv_def]
  note laws = h [unfolded exact_maps_def]
  show ?thesis
  proof (cases "h_update_bridge h (st_bridge_token_map s) bk (fill_bridge_value k) True")
    case None
    then show ?thesis using run' by auto
  next
    case b: (Some bm)
    note bm = exact_updateD [OF laws [THEN conjunct2, THEN conjunct2, THEN conjunct1] b]
    show ?thesis
    proof (cases "h_update_reverse h (st_token_to_original s) rk rv True")
      case None
      then show ?thesis using run' b bm undo_upd [of "st_bridge_token_map s" bk] by auto
    next
      case r: (Some rm)
      note rm = exact_updateD [OF laws [THEN conjunct2, THEN conjunct1] r]
      show ?thesis
      proof (cases "h_update_forward h (st_original_to_token s) k token False")
        case None
        then show ?thesis
          using run' b r bm rm undo_upd [of "st_bridge_token_map s" bk] undo_upd [of "st_token_to_original s" rk] by auto
      next
        case f: (Some fm)
        note fm = exact_updateD [OF laws [THEN conjunct1] f]
        have "r = Got token" "s' = s\<lparr>st_bridge_token_map := bm, st_token_to_original := rm, st_original_to_token := fm\<rparr>"
          using run' b r f by auto
        then show ?thesis using bm rm fm ans by (auto simp: extended_def simp flip: bk_def rk_def)
      qed
    qed
  qed
qed

lemma allocate_loop_exact:
  assumes "exact_maps h" "allocate_loop h k control attempts s = (r, s')"
  shows "case r of Some token \<Rightarrow> extended control k token s s' | None \<Rightarrow> s' = s"
  using assms(2)
proof (induction attempts arbitrary: s)
  case (Cons a as)
  obtain x s1 where t: "try_token h k control a s = (x, s1)" by fastforce
  from try_token_exact [OF assms(1) t] Cons t show ?case by (cases x) auto
qed simp

section \<open>Consistency of the flow tables\<close>

definition flow_ok :: "bpf2socks_tc_runtime_control \<Rightarrow> tc_state \<Rightarrow> bpf2socks_tc_original_key \<Rightarrow> bpf2socks_tc_token_value \<Rightarrow> bool" where
  "flow_ok control s k token \<longleftrightarrow> good_token control k token \<and>
     (\<exists>v. st_token_to_original s (fill_reverse_key k token) = Some v \<and> answers control k v)"

definition flows_ok :: "bpf2socks_tc_runtime_control \<Rightarrow> tc_state \<Rightarrow> bool" where
  "flows_ok control s \<longleftrightarrow>
     (\<forall>k token. st_original_to_token s k = Some token \<longrightarrow> tv_generation token = ct_generation control \<longrightarrow>
        flow_ok control s k token)"

lemma flow_ok_cong: "st_token_to_original s' = st_token_to_original s \<Longrightarrow> flow_ok control s' = flow_ok control s"
  by (intro ext) (simp add: flow_ok_def)

lemma flows_ok_cong:
  "st_token_to_original s' = st_token_to_original s \<Longrightarrow> st_original_to_token s' = st_original_to_token s \<Longrightarrow>
     flows_ok control s' = flows_ok control s"
  by (simp add: flows_ok_def flow_ok_def)

lemma extended_flows_ok:
  assumes "extended control k token s s'" "good_token control k token" "flows_ok control s"
  shows "flows_ok control s' \<and> flow_ok control s' k token"
proof -
  obtain v where v: "answers control k v" and fresh: "st_token_to_original s (fill_reverse_key k token) = None"
    and s': "st_original_to_token s' = (st_original_to_token s)(k \<mapsto> token)"
      "st_token_to_original s' = (st_token_to_original s)(fill_reverse_key k token \<mapsto> v)"
    using assms(1) unfolding extended_def by auto
  have new: "flow_ok control s' k token" using v assms(2) by (simp add: flow_ok_def s')
  have "flow_ok control s' k' t'" if "st_original_to_token s' k' = Some t'" "tv_generation t' = ct_generation control" for k' t'
  proof (cases "k' = k")
    case True
    then show ?thesis using new that(1) by (simp add: s')
  next
    case False
    then have "flow_ok control s k' t'" using that assms(3) by (simp add: s' flows_ok_def)
    then show ?thesis using fresh by (auto simp: flow_ok_def s')
  qed
  then show ?thesis using new by (simp add: flows_ok_def)
qed

lemma touch_flows_ok:
  assumes "st_token_to_original s key = Some v" "flows_ok control s"
  shows "flows_ok control (s\<lparr>st_token_to_original := (st_token_to_original s)(key \<mapsto> v\<lparr>ov_last_seen_ns := n\<rparr>)\<rparr>)"
  using assms unfolding flows_ok_def flow_ok_def by (fastforce simp: answers_def)

lemma remember_fragment_tables:
  "st_token_to_original (remember_fragment h key addr verdict g s) = st_token_to_original s"
  "st_original_to_token (remember_fragment h key addr verdict g s) = st_original_to_token s"
  "st_bridge_token_map (remember_fragment h key addr verdict g s) = st_bridge_token_map s"
  "st_control (remember_fragment h key addr verdict g s) = st_control s"
  by (simp_all add: remember_fragment_def Let_def split: option.splits)

lemma find_reserved_flow_ok:
  "flows_ok control s \<Longrightarrow> find_reserved_token k control s = Some token \<Longrightarrow> flow_ok control s k token"
  by (auto simp: find_reserved_token_def flows_ok_def split: option.splits if_splits)

lemma republish_tables:
  assumes "republish_bridge_token h k token s = (ok, s')"
  shows "st_token_to_original s' = st_token_to_original s" "st_original_to_token s' = st_original_to_token s"
    "st_control s' = st_control s" "st_fragment_map s' = st_fragment_map s"
  using assms by (auto simp: republish_bridge_token_def split: option.splits)

lemma republish_bridge:
  assumes "evicting_maps h" "republish_bridge_token h k token s = (True, s')"
  shows "st_bridge_token_map s' (fill_bridge_key k token) = Some (fill_bridge_value k)"
proof -
  obtain m where m: "h_update_bridge h (st_bridge_token_map s) (fill_bridge_key k token) (fill_bridge_value k) False = Some m"
    and s': "s' = s\<lparr>st_bridge_token_map := m\<rparr>"
    using assms(2) by (auto simp: republish_bridge_token_def split: option.splits)
  have "evicting_update (h_update_bridge h)" using assms(1) by (simp add: evicting_maps_def)
  from evicting_updateD [OF this m] show ?thesis by (simp add: s')
qed

text \<open>The three ways \<open>choose_token\<close> ends, up to what is remembered for later fragments.\<close>

definition same_tables :: "tc_state \<Rightarrow> tc_state \<Rightarrow> bool" where
  "same_tables s s' \<longleftrightarrow> st_token_to_original s' = st_token_to_original s \<and> st_original_to_token s' = st_original_to_token s \<and>
     st_bridge_token_map s' = st_bridge_token_map s \<and> st_control s' = st_control s"

lemma choose_token_cases:
  assumes "choose_token h maps k destination control tcp_syn fragment s = (r, s')"
  obtains (reserved) token s1 where "find_reserved_token k control s = Some token" "r = Some token" "same_tables s1 s'"
      "(if tcp_syn then republish_bridge_token h k token s else (True, s)) = (True, s1)"
  | (failed) token where "find_reserved_token k control s = Some token" "r = None"
      "republish_bridge_token h k token s = (False, s')"
  | (allocated) token s1 where "find_reserved_token k control s = None" "r = Some token" "same_tables s1 s'"
      "policy_proxy maps destination (ok_protocol k) (ok_original_port k) (ct_flags control)"
      "allocate_token h k control s = (Some token, s1)"
  | (passed) s1 where "find_reserved_token k control s = None" "r = None" "same_tables s1 s'"
      "s1 = s \<or> allocate_token h k control s = (None, s1)"
proof (cases "find_reserved_token k control s")
  case None
  then show ?thesis
    using assms that(3,4)
    by (cases fragment) (auto simp: choose_token_def Let_def same_tables_def remember_fragment_tables
        split: option.splits prod.splits if_splits)
next
  case (Some token)
  obtain ok s1 where ok: "(if tcp_syn then republish_bridge_token h k token s else (True, s)) = (ok, s1)" by fastforce
  show ?thesis
  proof (cases ok)
    case True
    then have "r = Some token" "same_tables s1 s'"
      using assms Some ok by (auto simp: choose_token_def Let_def same_tables_def remember_fragment_tables split: option.splits)
    then show ?thesis using that(1) Some ok True by simp
  next
    case False
    then have "r = None" "s' = s1" using assms Some ok by (auto simp: choose_token_def Let_def)
    moreover have "republish_bridge_token h k token s = (False, s1)" using ok False by (auto split: if_splits)
    ultimately show ?thesis using that(2) Some by blast
  qed
qed

lemma choose_token_flows:
  assumes h: "exact_maps h" "wf_control control" and ok: "flows_ok control s"
    and run: "choose_token h maps k destination control tcp_syn fragment s = (r, s')"
  shows "flows_ok control s' \<and> st_control s' = st_control s \<and> (\<forall>token. r = Some token \<longrightarrow> flow_ok control s' k token)"
  using run
proof (cases rule: choose_token_cases)
  case (reserved token s1)
  have "st_token_to_original s1 = st_token_to_original s" "st_original_to_token s1 = st_original_to_token s" "st_control s1 = st_control s"
    using reserved(4) republish_tables by (auto split: if_splits)
  then show ?thesis using find_reserved_flow_ok [OF ok reserved(1)] reserved(2,3) ok flows_ok_cong [of s' s] flow_ok_cong [of s' s]
    by (simp add: same_tables_def)
next
  case (failed token)
  then show ?thesis using republish_tables [OF failed(3)] ok flows_ok_cong [of s' s] by simp
next
  case (allocated token s1)
  have a: "allocate_loop h k control [0, 1] s = (Some token, s1)" using allocated(5) by (simp add: allocate_token_def)
  have "extended control k token s s1" using allocate_loop_exact [OF h(1) a] by simp
  moreover have "good_token control k token" "same_rest s s1"
    using allocate_loop_effect [OF exact_maps_imp_evicting [OF h(1)] h(2) a] by simp_all
  ultimately have "flows_ok control s1" "flow_ok control s1 k token" "st_control s1 = st_control s"
    using extended_flows_ok [OF _ _ ok, of k token s1] by (simp_all add: same_rest_def)
  then show ?thesis using allocated(2,3) flows_ok_cong [of s' s1] flow_ok_cong [of s' s1] by (simp add: same_tables_def)
next
  case (passed s1)
  have "s1 = s" using passed(4) allocate_loop_exact [OF h(1), of k control "[0, 1]" s None s1] by (auto simp: allocate_token_def)
  then show ?thesis using passed(2,3) ok flows_ok_cong [of s' s] by (simp add: same_tables_def)
qed

lemma choose_token_bridge:
  assumes h: "evicting_maps h" "wf_control control"
    and run: "choose_token h maps k destination control True fragment s = (Some token, s')"
  shows "st_bridge_token_map s' (fill_bridge_key k token) = Some (fill_bridge_value k)"
  using run
proof (cases rule: choose_token_cases)
  case (reserved token' s1)
  then show ?thesis using republish_bridge [OF h(1), of k token s s1] by (simp add: same_tables_def)
next
  case (allocated token' s1)
  then have a: "allocate_loop h k control [0, 1] s = (Some token, s1)" by (simp add: allocate_token_def)
  from allocate_loop_effect [OF h a] allocated show ?thesis by (simp add: published_def Let_def same_tables_def)
qed simp_all

section \<open>Every sequence of packets keeps the tables consistent\<close>

text \<open>What a program does to the state: nothing, one choice of a token, or one reply seen.\<close>

definition chosen :: "tc_helpers \<Rightarrow> bpf2socks_tc_runtime_control \<Rightarrow> tc_state \<Rightarrow> tc_state \<Rightarrow> bool" where
  "chosen h control s s' \<longleftrightarrow>
     (\<exists>maps k destination syn fragment r. choose_token h maps k destination control syn fragment s = (r, s'))"

lemma chosenI: "choose_token h maps k destination control syn fragment s = (r, s') \<Longrightarrow> chosen h control s s'"
  unfolding chosen_def by blast

definition seen :: "tc_state \<Rightarrow> tc_state \<Rightarrow> bool" where
  "seen s s' \<longleftrightarrow> (\<exists>key v n. st_token_to_original s key = Some v \<and>
     s' = s\<lparr>st_token_to_original := (st_token_to_original s)(key \<mapsto> v\<lparr>ov_last_seen_ns := n\<rparr>)\<rparr>)"

lemma seenI:
  "st_token_to_original s key = Some v \<Longrightarrow>
     seen s (s\<lparr>st_token_to_original := (st_token_to_original s)(key \<mapsto> v\<lparr>ov_last_seen_ns := n\<rparr>)\<rparr>)"
  unfolding seen_def by blast

lemma ingress4_state:
  "ingress4 h ifindex p control s = (act, p', s') \<Longrightarrow> s' = s \<or> chosen h control s s'"
  by (auto simp: ingress4_def ingress4_later_fragment_def Let_def intro: chosenI split: if_splits option.splits prod.splits)

lemma ingress6_transport_state:
  "ingress6_transport h ifindex protocol l4 fragment p control s = (act, p', s') \<Longrightarrow>
     s' = s \<or> chosen h control s s' \<or> same_tables s s'"
  by (auto simp: ingress6_transport_def Let_def same_tables_def remember_fragment_tables intro: chosenI
      split: if_splits option.splits prod.splits)

lemma ingress6_state:
  assumes "ingress6 h ifindex p control s = (act, p', s')"
  shows "s' = s \<or> chosen h control s s' \<or> same_tables s s'"
  using assms
  by (auto simp: ingress6_def ingress6_later_fragment_def Let_def dest: ingress6_transport_state
      split: if_splits option.splits prod.splits)

lemma egress4_state: "egress4 h ifindex p control s = (act, p', s') \<Longrightarrow> s' = s \<or> seen s s'"
  by (auto simp: egress4_def Let_def intro: seenI split: if_splits option.splits prod.splits)

lemma egress6_state: "egress6 h ifindex p control s = (act, p', s') \<Longrightarrow> s' = s \<or> seen s s'"
  by (auto simp: egress6_def Let_def intro: seenI split: if_splits option.splits prod.splits)

text \<open>Packets in any order, and tokens that the bridge consumes meanwhile.\<close>

inductive tc_step :: "tc_state \<Rightarrow> tc_state \<Rightarrow> bool" where
  packet: "exact_maps h \<Longrightarrow> classify h ifindex p ingress s = (act, p', s') \<Longrightarrow> tc_step s s'"
| consumed: "tc_step s (s\<lparr>st_bridge_token_map := (st_bridge_token_map s)(key := None)\<rparr>)"

definition tc_initial :: "bpf2socks_tc_runtime_control \<Rightarrow> tc_state" where
  "tc_initial control = \<lparr>st_control = Some control, st_original_to_token = Map.empty, st_token_to_original = Map.empty,
     st_bridge_token_map = Map.empty, st_fragment_map = Map.empty\<rparr>"

definition tc_reachable :: "bpf2socks_tc_runtime_control \<Rightarrow> tc_state \<Rightarrow> bool" where
  "tc_reachable control s \<longleftrightarrow> tc_step\<^sup>*\<^sup>* (tc_initial control) s"

lemma chosen_flows:
  "chosen h control s s' \<Longrightarrow> exact_maps h \<Longrightarrow> wf_control control \<Longrightarrow> flows_ok control s \<Longrightarrow>
     flows_ok control s' \<and> st_control s' = st_control s"
  unfolding chosen_def using choose_token_flows by blast

lemma seen_flows: "seen s s' \<Longrightarrow> flows_ok control s \<Longrightarrow> flows_ok control s' \<and> st_control s' = st_control s"
  unfolding seen_def using touch_flows_ok by fastforce

lemma same_tables_flows: "same_tables s s' \<Longrightarrow> flows_ok control s \<Longrightarrow> flows_ok control s' \<and> st_control s' = st_control s"
  using flows_ok_cong [of s' s] by (simp add: same_tables_def)

lemma classify_flows:
  assumes "exact_maps h" "wf_control control" "flows_ok control s" "st_control s = Some control"
    and "classify h ifindex p ingress s = (act, p', s')"
  shows "flows_ok control s' \<and> st_control s' = st_control s"
proof -
  have "s' = s \<or> chosen h control s s' \<or> seen s s' \<or> same_tables s s'"
    using assms(4,5)
    by (auto simp: classify_def dest: ingress4_state ingress6_state egress4_state egress6_state split: if_splits)
  then show ?thesis using chosen_flows seen_flows same_tables_flows assms(1-3) by blast
qed

lemma reachable_flows:
  assumes "tc_reachable control s" "wf_control control"
  shows "flows_ok control s \<and> st_control s = Some control"
  using assms(1) unfolding tc_reachable_def
proof (induction rule: rtranclp_induct)
  case base
  then show ?case by (simp add: tc_initial_def flows_ok_def)
next
  case (step s s')
  from step.hyps(2) show ?case
  proof cases
    case (packet h ifindex p ingress act p')
    then show ?thesis using classify_flows [OF packet(1) assms(2) _ _ packet(2)] step.IH by simp
  next
    case (consumed key)
    then show ?thesis using step.IH by (simp add: flows_ok_def flow_ok_def)
  qed
qed

section \<open>Packets\<close>

definition only_changes :: "nat \<Rightarrow> nat \<Rightarrow> bytes \<Rightarrow> bytes \<Rightarrow> bool" where
  "only_changes off n p p' \<longleftrightarrow> length p' = length p \<and> (\<forall>i<length p. i < off \<or> off + n \<le> i \<longrightarrow> p' ! i = p ! i)"

text \<open>The packet helpers change what they are told to, and fail only outside the packet.\<close>

definition packet_helpers :: "tc_helpers \<Rightarrow> bool" where
  "packet_helpers h \<longleftrightarrow>
     (\<forall>p off old new flags. case h_l3_csum_replace h p off old new flags of
        None \<Rightarrow> length p < off + 2 | Some p' \<Rightarrow> only_changes off 2 p p') \<and>
     (\<forall>p off old new flags. case h_l4_csum_replace h p off old new flags of
        None \<Rightarrow> length p < off + 2 | Some p' \<Rightarrow> only_changes off 2 p p') \<and>
     (\<forall>p off bs. case h_store_bytes h p off bs of
        None \<Rightarrow> length p < off + length bs
      | Some p' \<Rightarrow> off + length bs \<le> length p \<and> p' = take off p @ bs @ drop (off + length bs) p)"

lemma l3_csum_replaceD:
  assumes "packet_helpers h"
  shows "h_l3_csum_replace h p off old new flags = Some p' \<Longrightarrow> only_changes off 2 p p'"
    and "off + 2 \<le> length p \<Longrightarrow> \<exists>p'. h_l3_csum_replace h p off old new flags = Some p'"
proof -
  have *: "case h_l3_csum_replace h p off old new flags of None \<Rightarrow> length p < off + 2 | Some p' \<Rightarrow> only_changes off 2 p p'"
    using assms unfolding packet_helpers_def by blast
  show "h_l3_csum_replace h p off old new flags = Some p' \<Longrightarrow> only_changes off 2 p p'" using * by simp
  show "off + 2 \<le> length p \<Longrightarrow> \<exists>p'. h_l3_csum_replace h p off old new flags = Some p'" using * by (auto split: option.splits)
qed

lemma l4_csum_replaceD:
  assumes "packet_helpers h"
  shows "h_l4_csum_replace h p off old new flags = Some p' \<Longrightarrow> only_changes off 2 p p'"
    and "off + 2 \<le> length p \<Longrightarrow> \<exists>p'. h_l4_csum_replace h p off old new flags = Some p'"
proof -
  have *: "case h_l4_csum_replace h p off old new flags of None \<Rightarrow> length p < off + 2 | Some p' \<Rightarrow> only_changes off 2 p p'"
    using assms unfolding packet_helpers_def by blast
  show "h_l4_csum_replace h p off old new flags = Some p' \<Longrightarrow> only_changes off 2 p p'" using * by simp
  show "off + 2 \<le> length p \<Longrightarrow> \<exists>p'. h_l4_csum_replace h p off old new flags = Some p'" using * by (auto split: option.splits)
qed

lemma rd_bytes_frame:
  "only_changes o1 m p p' \<Longrightarrow> off + n \<le> o1 \<or> o1 + m \<le> off \<Longrightarrow> rd_bytes p' off n = rd_bytes p off n"
  by (rule nth_equalityI) (auto simp: rd_bytes_def only_changes_def)

lemma store_bytesD:
  assumes "packet_helpers h"
  shows "h_store_bytes h p off bs = Some p' \<Longrightarrow> only_changes off (length bs) p p' \<and> rd_bytes p' off (length bs) = bs"
    and "off + length bs \<le> length p \<Longrightarrow> \<exists>p'. h_store_bytes h p off bs = Some p'"
proof -
  have *: "case h_store_bytes h p off bs of None \<Rightarrow> length p < off + length bs
      | Some p' \<Rightarrow> off + length bs \<le> length p \<and> p' = take off p @ bs @ drop (off + length bs) p"
    using assms unfolding packet_helpers_def by blast
  show "off + length bs \<le> length p \<Longrightarrow> \<exists>p'. h_store_bytes h p off bs = Some p'" using * by (auto split: option.splits)
  assume "h_store_bytes h p off bs = Some p'"
  then have l: "off + length bs \<le> length p" and p': "p' = take off p @ bs @ drop (off + length bs) p" using * by simp_all
  have "p' ! i = p ! i" if "i < length p" "i < off \<or> off + length bs \<le> i" for i
    using l that by (auto simp: p' nth_append)
  then show "only_changes off (length bs) p p' \<and> rd_bytes p' off (length bs) = bs"
    using l by (auto simp: only_changes_def rd_bytes_def p')
qed

lemma rd_bytes2: "off + 2 \<le> length p \<Longrightarrow> rd_bytes p off 2 = [p ! off, p ! (off + 1)]"
  by (rule nth_equalityI) (auto simp: rd_bytes_def less_Suc_eq numeral_2_eq_2)

lemma port_bytes_rd16: "off + 2 \<le> length p \<Longrightarrow> port_bytes (rd16 p off) = rd_bytes p off 2"
  by (simp add: port_bytes_def rd16_def rd_bytes2)

lemma rd16_port_bytes: "off + 2 \<le> length p \<Longrightarrow> rd_bytes p off 2 = port_bytes w \<longleftrightarrow> rd16 p off = w"
  by (auto simp: rd_bytes2 port_bytes_def rd16_def)

lemma length_rd_bytes: "off + n \<le> length p \<Longrightarrow> length (rd_bytes p off n) = n"
  by (simp add: rd_bytes_def)

text \<open>
  A rewritten packet: the new address and port are in place, and nothing else changed but the
  checksums at \<open>co\<close> and, for IPv4, at 24.
\<close>

definition rewritten :: "nat list \<Rightarrow> nat \<Rightarrow> bytes \<Rightarrow> nat \<Rightarrow> bytes \<Rightarrow> bytes \<Rightarrow> bytes \<Rightarrow> bool" where
  "rewritten sums ao new_address po new_port p p' \<longleftrightarrow> length p' = length p \<and>
     rd_bytes p' ao (length new_address) = new_address \<and> rd_bytes p' po 2 = new_port \<and>
     (\<forall>off n. (\<forall>o1\<in>set sums. off + n \<le> o1 \<or> o1 + 2 \<le> off) \<and> (off + n \<le> ao \<or> ao + length new_address \<le> off) \<and>
        (off + n \<le> po \<or> po + 2 \<le> off) \<longrightarrow> rd_bytes p' off n = rd_bytes p off n)"

lemma run_helpers_Cons_OK:
  "run_helpers (f # fs) p = (TC_ACT_OK, p') \<longleftrightarrow> (\<exists>q. f p = Some q \<and> run_helpers fs q = (TC_ACT_OK, p'))"
  by (auto split: option.splits)

lemma run_helpers_Cons_Some: "f p = Some q \<Longrightarrow> run_helpers (f # fs) p = run_helpers fs q"
  by simp

lemma store_pair:
  assumes h: "packet_helpers h"
    and run: "run_helpers [\<lambda>p. h_store_bytes h p ao na, \<lambda>p. h_store_bytes h p po np] p = (TC_ACT_OK, p')"
    and l: "length np = 2" "ao + length na \<le> po"
  shows "rewritten [] ao na po np p p'"
proof -
  obtain q where q: "h_store_bytes h p ao na = Some q" and p': "h_store_bytes h q po np = Some p'"
    using run by (auto split: option.splits)
  note c = store_bytesD(1) [OF h q] store_bytesD(1) [OF h p']
  have "rd_bytes p' ao (length na) = rd_bytes q ao (length na)"
    using c l(2) by (intro rd_bytes_frame [of po "length np"]) auto
  moreover have "rd_bytes p' off n = rd_bytes p off n"
    if "off + n \<le> ao \<or> ao + length na \<le> off" "off + n \<le> po \<or> po + 2 \<le> off" for off n
    using rd_bytes_frame [of po "length np" q p' off n] rd_bytes_frame [of ao "length na" p q off n] c l(1) that by auto
  ultimately show ?thesis using c l(1) by (auto simp: rewritten_def only_changes_def)
qed

lemma rewritten_sum:
  assumes "only_changes o1 2 p q" "rewritten sums ao na po np q p'"
  shows "rewritten (o1 # sums) ao na po np p p'"
  using assms rd_bytes_frame [OF assms(1)] by (auto simp: rewritten_def only_changes_def)

lemma rewrite_ipv4_OK:
  assumes h: "packet_helpers h"
    and run: "rewrite_ipv4 h p ao po co oa na op np proto = (TC_ACT_OK, p')" and l: "length na = 4" "length np = 2" "ao + 4 \<le> po"
  shows "rewritten [24, co, co] ao na po np p p'"
proof -
  obtain p1 p2 p3 where 1: "h_l3_csum_replace h p 24 oa na 4 = Some p1"
    and 2: "h_l4_csum_replace h p1 co oa na (bpf2socks_l4_address_flags (proto = PROTO_UDP) 4) = Some p2"
    and 3: "h_l4_csum_replace h p2 co op np (bpf2socks_l4_port_flags (proto = PROTO_UDP) 2) = Some p3"
    and r: "run_helpers [\<lambda>p. h_store_bytes h p ao na, \<lambda>p. h_store_bytes h p po np] p3 = (TC_ACT_OK, p')"
    using run unfolding rewrite_ipv4_def Let_def run_helpers_Cons_OK by blast
  have "rewritten [] ao na po np p3 p'" using store_pair [OF h r] l by simp
  then show ?thesis
    using l3_csum_replaceD(1) [OF h 1] l4_csum_replaceD(1) [OF h 2] l4_csum_replaceD(1) [OF h 3] by (blast intro: rewritten_sum)
qed

lemma store_pair_runs:
  assumes h: "packet_helpers h" and l: "ao + length na \<le> length p" "po + length np \<le> length p"
  shows "\<exists>p'. run_helpers [\<lambda>p. h_store_bytes h p ao na, \<lambda>p. h_store_bytes h p po np] p = (TC_ACT_OK, p')"
proof -
  obtain q where q: "h_store_bytes h p ao na = Some q" using store_bytesD(2) [OF h l(1)] by blast
  then have "length q = length p" using store_bytesD(1) [OF h] by (simp add: only_changes_def)
  then obtain p' where "h_store_bytes h q po np = Some p'" using store_bytesD(2) [OF h, of po np q] l(2) by auto
  then show ?thesis using q by simp
qed

lemma rewrite_ipv4_runs:
  assumes h: "packet_helpers h" and l: "26 \<le> length p" "co + 2 \<le> length p" "ao + length na \<le> length p" "po + length np \<le> length p"
  shows "\<exists>p'. rewrite_ipv4 h p ao po co oa na op np proto = (TC_ACT_OK, p')"
proof -
  obtain p1 where 1: "h_l3_csum_replace h p 24 oa na 4 = Some p1" using l3_csum_replaceD(2) [OF h, of 24 p oa na 4] l(1) by auto
  then have l1: "length p1 = length p" using l3_csum_replaceD(1) [OF h] by (simp add: only_changes_def)
  obtain p2 where 2: "h_l4_csum_replace h p1 co oa na (bpf2socks_l4_address_flags (proto = PROTO_UDP) 4) = Some p2"
    using l4_csum_replaceD(2) [OF h, of co p1] l(2) l1 by metis
  then have l2: "length p2 = length p" using l4_csum_replaceD(1) [OF h 2] l1 by (simp add: only_changes_def)
  obtain p3 where 3: "h_l4_csum_replace h p2 co op np (bpf2socks_l4_port_flags (proto = PROTO_UDP) 2) = Some p3"
    using l4_csum_replaceD(2) [OF h, of co p2] l(2) l2 by metis
  then have l3: "length p3 = length p" using l4_csum_replaceD(1) [OF h 3] l2 by (simp add: only_changes_def)
  show ?thesis using store_pair_runs [OF h, of ao na p3 po np] l(3,4) l3 1 2 3
    unfolding rewrite_ipv4_def Let_def by (simp only: run_helpers_Cons_Some)
qed

section \<open>The way out and the way back\<close>

text \<open>The flow of an IPv4 packet, as \<open>ingress4\<close> reads it.\<close>

definition flow_key4 :: "u32 \<Rightarrow> bytes \<Rightarrow> bpf2socks_tc_original_key" where
  "flow_key4 ifindex p =
     (let l4 = 14 + ip4_ihl p * 4 in
      \<lparr>ok_ifindex = ifindex, ok_family = FAM4, ok_protocol = p ! 23,
       ok_client_addr = copy_prefix 4 (rd_bytes p 26 4) (zero_bytes 16), ok_client_port = rd16 p l4,
       ok_original_port = rd16 p (l4 + 2), ok_original_addr = copy_prefix 4 (rd_bytes p 30 4) (zero_bytes 16)\<rparr>)"

text \<open>A packet with ports: an IPv4 header, and not a later fragment.\<close>

definition has_ports4 :: "bytes \<Rightarrow> bool" where
  "has_ports4 p \<longleftrightarrow> ip4_version p = 4 \<and> 5 \<le> ip4_ihl p \<and> 14 + ip4_ihl p * 4 + 4 \<le> length p \<and> tcp_or_udp (p ! 23) \<and>
     (rd16 p 20 AND 0x3fff) AND 0x1fff = 0"

lemma ingress4_redirects:
  assumes h: "packet_helpers h" and run: "ingress4 h ifindex p control s = (TC_ACT_OK, p', s')"
    and first: "(rd16 p 20 AND 0x3fff) AND 0x1fff = 0"
    and tok: "\<And>token fragment s'. choose_token h (h_policy4 h) (flow_key4 ifindex p) (rd_bytes p 30 4) control
        (p ! 23 = PROTO_TCP \<and> is_tcp_syn p (14 + ip4_ihl p * 4)) fragment s = (Some token, s') \<Longrightarrow> length (tv_token_addr token) = 16"
  obtains token fragment where "has_ports4 p"
    "choose_token h (h_policy4 h) (flow_key4 ifindex p) (rd_bytes p 30 4) control
        (p ! 23 = PROTO_TCP \<and> is_tcp_syn p (14 + ip4_ihl p * 4)) fragment s = (Some token, s')"
    "rewritten [24, l4_checksum_offset (14 + ip4_ihl p * 4) (p ! 23), l4_checksum_offset (14 + ip4_ihl p * 4) (p ! 23)]
        30 (take 4 (tv_token_addr token)) (14 + ip4_ihl p * 4 + 2) (port_bytes (ct_bridge_port control)) p p'"
proof -
  let ?l4 = "14 + ip4_ihl p * 4"
  have ports: "has_ports4 p"
    using run first by (auto simp: ingress4_def has_ports4_def Let_def split: if_splits)
  define fragment where "fragment = (if rd16 p 20 AND 0x3fff \<noteq> 0
     then Some (fill_fragment_key ifindex FAM4 (p ! 23) (raw16 p 18) (rd_bytes p 26 4) (rd_bytes p 30 4) 4) else None)"
  define choice where "choice = choose_token h (h_policy4 h) (flow_key4 ifindex p) (rd_bytes p 30 4) control
        (p ! 23 = PROTO_TCP \<and> is_tcp_syn p ?l4) fragment s"
  have run': "(case choice of (None, s') \<Rightarrow> (TC_ACT_PIPE, p, s')
      | (Some token, s') \<Rightarrow> (case rewrite_ipv4 h p 30 (?l4 + 2) (l4_checksum_offset ?l4 (p ! 23)) (rd_bytes p 30 4)
          (take 4 (tv_token_addr token)) (rd_bytes p (?l4 + 2) 2) (port_bytes (ct_bridge_port control)) (p ! 23) of
            (act, p') \<Rightarrow> (act, p', s'))) = (TC_ACT_OK, p', s')"
    using run first unfolding ingress4_def Let_def choice_def fragment_def flow_key4_def by (simp split: if_splits)
  then obtain token where c: "choice = (Some token, s')"
    and r: "rewrite_ipv4 h p 30 (?l4 + 2) (l4_checksum_offset ?l4 (p ! 23)) (rd_bytes p 30 4)
          (take 4 (tv_token_addr token)) (rd_bytes p (?l4 + 2) 2) (port_bytes (ct_bridge_port control)) (p ! 23) = (TC_ACT_OK, p')"
    by (auto split: prod.splits option.splits)
  have "length (tv_token_addr token) = 16" using tok c unfolding choice_def by blast
  then have "rewritten [24, l4_checksum_offset ?l4 (p ! 23), l4_checksum_offset ?l4 (p ! 23)]
        30 (take 4 (tv_token_addr token)) (?l4 + 2) (port_bytes (ct_bridge_port control)) p p'"
    using ports by (intro rewrite_ipv4_OK [OF h r]) (auto simp: port_bytes_def has_ports4_def)
  then show ?thesis using that ports c unfolding choice_def by blast
qed

lemma extended_keeps: "extended control k token s s' \<Longrightarrow> flow_ok control s k' t' \<Longrightarrow> flow_ok control s' k' t'"
  by (auto simp: extended_def flow_ok_def)

lemma chosen_keeps:
  assumes "chosen h control s s'" "exact_maps h" "flow_ok control s k t"
  shows "flow_ok control s' k t"
proof -
  obtain maps k' destination syn fragment r where "choose_token h maps k' destination control syn fragment s = (r, s')"
    using assms(1) unfolding chosen_def by blast
  then show ?thesis
  proof (cases rule: choose_token_cases)
    case (reserved token s1)
    have "st_token_to_original s1 = st_token_to_original s" using reserved(4) republish_tables by (auto split: if_splits)
    then show ?thesis using reserved(3) assms(3) flow_ok_cong [of s' s] by (simp add: same_tables_def)
  next
    case (failed token)
    then show ?thesis using republish_tables(1) flow_ok_cong assms(3) by metis
  next
    case (allocated token s1)
    then have "extended control k' token s s1"
      using allocate_loop_exact [OF assms(2), of k' control "[0, 1]" s "Some token" s1] by (simp add: allocate_token_def)
    from extended_keeps [OF this assms(3)] show ?thesis using allocated(3) flow_ok_cong [of s' s1] by (simp add: same_tables_def)
  next
    case (passed s1)
    then have "s1 = s" using allocate_loop_exact [OF assms(2), of k' control "[0, 1]" s None s1] by (auto simp: allocate_token_def)
    then show ?thesis using passed(3) assms(3) flow_ok_cong [of s' s] by (simp add: same_tables_def)
  qed
qed

lemma seen_keeps: "seen s s' \<Longrightarrow> flow_ok control s k t \<Longrightarrow> flow_ok control s' k t"
  by (auto simp: seen_def flow_ok_def answers_def)

lemma step_keeps:
  assumes "tc_step s s'" "flow_ok control s k t" "st_control s = Some control"
  shows "flow_ok control s' k t"
  using assms(1)
proof cases
  case (packet h ifindex p ingress act p')
  have "s' = s \<or> chosen h control s s' \<or> seen s s' \<or> same_tables s s'"
    using packet(2) assms(3)
    by (auto simp: classify_def dest: ingress4_state ingress6_state egress4_state egress6_state split: if_splits)
  moreover have "flow_ok control s' k t" if "same_tables s s'"
    using that assms(2) flow_ok_cong [of s' s] by (simp add: same_tables_def)
  ultimately show ?thesis using chosen_keeps seen_keeps packet(1) assms(2) by blast
next
  case (consumed key)
  then show ?thesis using assms(2) by (simp add: flow_ok_def)
qed

lemma steps_keep:
  assumes "tc_step\<^sup>*\<^sup>* s s'" "flow_ok control s k t" "tc_reachable control s" "wf_control control"
  shows "flow_ok control s' k t"
  using assms(1)
proof (induction rule: rtranclp_induct)
  case (step u u')
  have "tc_reachable control u" using assms(3) step.hyps(1) unfolding tc_reachable_def by (rule rtranclp_trans)
  then show ?case using step_keeps [OF step.hyps(2) step.IH] reachable_flows assms(4) by blast
qed (rule assms(2))

text \<open>A packet that the bridge sends back along a redirected one.\<close>

definition reply4 :: "bytes \<Rightarrow> bytes \<Rightarrow> bool" where
  "reply4 p q \<longleftrightarrow>
     (let lp = 14 + ip4_ihl p * 4; lq = 14 + ip4_ihl q * 4 in
      rd16 q 12 = 0x0800 \<and> has_ports4 q \<and> rd16 q 20 AND 0x3fff = 0 \<and> l4_checksum_offset lq (q ! 23) + 2 \<le> length q \<and> q ! 23 = p ! 23 \<and>
      rd_bytes q 26 4 = rd_bytes p 30 4 \<and> rd_bytes q 30 4 = rd_bytes p 26 4 \<and>
      rd_bytes q lq 2 = rd_bytes p (lp + 2) 2 \<and> rd_bytes q (lq + 2) 2 = rd_bytes p lp 2)"

lemma egress4_restores:
  assumes h: "packet_helpers h" "h_scratch h" and ok: "flow_ok control s k token"
    and q: "has_ports4 q" "rd16 q 20 AND 0x3fff = 0" "l4_checksum_offset (14 + ip4_ihl q * 4) (q ! 23) + 2 \<le> length q"
    and k: "ok_family k = FAM4" "ok_ifindex k = ifindex" "ok_protocol k = q ! 23"
    "take 4 (ok_client_addr k) = rd_bytes q 30 4" "ok_client_port k = rd16 q (14 + ip4_ihl q * 4 + 2)" "length (ok_original_addr k) = 16"
    and t: "take 4 (tv_token_addr token) = rd_bytes q 26 4" "rd16 q (14 + ip4_ihl q * 4) = ct_bridge_port control"
  obtains q' s' where "egress4 h ifindex q control s = (TC_ACT_OK, q', s')"
    "rewritten [24, l4_checksum_offset (14 + ip4_ihl q * 4) (q ! 23), l4_checksum_offset (14 + ip4_ihl q * 4) (q ! 23)] 26
       (take 4 (ok_original_addr k)) (14 + ip4_ihl q * 4) (port_bytes (ok_original_port k)) q q'"
proof -
  let ?l = "14 + ip4_ihl q * 4"
  let ?co = "l4_checksum_offset ?l (q ! 23)"
  have len: "34 \<le> ?l" "?l + 4 \<le> length q" using q(1) by (auto simp: has_ports4_def)
  obtain v where v: "st_token_to_original s (fill_reverse_key k token) = Some v" and ans: "answers control k v"
    and good: "good_token control k token" using ok unfolding flow_ok_def by blast
  have key: "fill_reverse_key k token = \<lparr>rk_ifindex = ifindex, rk_family = FAM4, rk_protocol = q ! 23,
      rk_client_addr = copy_prefix 4 (rd_bytes q 30 4) (zero_bytes 16), rk_client_port = rd16 q (?l + 2),
      rk_token_port = ct_bridge_port control, rk_token_addr = copy_prefix 4 (rd_bytes q 26 4) (zero_bytes 16)\<rparr>"
  proof -
    have "take 4 (rd_bytes q 30 4) = rd_bytes q 30 4" "take 4 (rd_bytes q 26 4) = rd_bytes q 26 4" by (simp_all add: rd_bytes_def)
    then show ?thesis using k t good by (simp add: fill_reverse_key_def addr_size_def copy_prefix_def good_token_def)
  qed
  have pool: "ipv4_in_token_prefix (rd_bytes q 26 4) (ct_token_ipv4_prefix control)"
    using good k(1) t(1) by (simp add: good_token_def token_in_pool_def)
  have addr: "take 4 (ov_original_addr v) = take 4 (ok_original_addr k)" "ov_original_port v = ok_original_port k"
    "ov_generation v = ct_generation control"
    using ans k(1,6) by (simp_all add: answers_def addr_size_def)
  obtain q' where r: "rewrite_ipv4 h q 26 ?l ?co (rd_bytes q 26 4) (take 4 (ok_original_addr k)) (rd_bytes q ?l 2)
      (port_bytes (ok_original_port k)) (q ! 23) = (TC_ACT_OK, q')"
    using rewrite_ipv4_runs [OF h(1), of q ?co 26 "take 4 (ok_original_addr k)" ?l "port_bytes (ok_original_port k)"
        "rd_bytes q 26 4" "rd_bytes q ?l 2" "q ! 23"] len q(3) k(6) by (auto simp: port_bytes_def)
  have "egress4 h ifindex q control s = (TC_ACT_OK, q', s\<lparr>st_token_to_original :=
      (st_token_to_original s)(fill_reverse_key k token \<mapsto> v\<lparr>ov_last_seen_ns := h_now h\<rparr>)\<rparr>)"
    using q(1,2) pool t(2) h(2) v r addr len unfolding egress4_def Let_def key
    by (simp add: has_ports4_def key)
  moreover have "rewritten [24, ?co, ?co] 26 (take 4 (ok_original_addr k)) ?l (port_bytes (ok_original_port k)) q q'"
    using len k(6) by (intro rewrite_ipv4_OK [OF h(1) r]) (auto simp: port_bytes_def)
  ultimately show ?thesis using that by blast
qed

lemma nth_rd_bytes: "i < length p \<Longrightarrow> rd_bytes p i 1 = [p ! i]"
  by (simp add: rd_bytes_def take_Suc_conv_app_nth hd_drop_conv_nth take_Suc)

lemma rewritten_rd:
  assumes "rewritten sums ao na po np p p'" "\<And>o1. o1 \<in> set sums \<Longrightarrow> off + n \<le> o1 \<or> o1 + 2 \<le> off"
    "off + n \<le> ao \<or> ao + length na \<le> off" "off + n \<le> po \<or> po + 2 \<le> off"
  shows "rd_bytes p' off n = rd_bytes p off n"
  using assms unfolding rewritten_def by blast

lemma rewritten_nth:
  assumes "rewritten sums ao na po np p p'" "\<And>o1. o1 \<in> set sums \<Longrightarrow> i + 1 \<le> o1 \<or> o1 + 2 \<le> i"
    "i + 1 \<le> ao \<or> ao + length na \<le> i" "i + 1 \<le> po \<or> po + 2 \<le> i" "i < length p"
  shows "p' ! i = p ! i"
  using rewritten_rd [OF assms(1), of i 1] assms nth_rd_bytes [of i p] nth_rd_bytes [of i p'] by (simp add: rewritten_def)

lemma checksum_beyond_ports: "l + 4 \<le> l4_checksum_offset l protocol"
  by (simp add: l4_checksum_offset_def)

text \<open>What a redirected packet still says: its header, and where it comes from.\<close>

lemma redirected4_keeps:
  assumes "has_ports4 p" "length a = 4"
    and r: "rewritten [24, l4_checksum_offset (14 + ip4_ihl p * 4) proto, l4_checksum_offset (14 + ip4_ihl p * 4) proto]
       30 a (14 + ip4_ihl p * 4 + 2) b p p'"
  shows "p' ! 23 = p ! 23" "ip4_ihl p' = ip4_ihl p" "rd_bytes p' 26 4 = rd_bytes p 26 4"
    "rd_bytes p' (14 + ip4_ihl p * 4) 2 = rd_bytes p (14 + ip4_ihl p * 4) 2"
    "rd_bytes p' 30 4 = a" "rd_bytes p' (14 + ip4_ihl p * 4 + 2) 2 = b" "length p' = length p"
proof -
  let ?l = "14 + ip4_ihl p * 4"
  have l: "34 \<le> ?l" "?l + 4 \<le> length p" using assms(1) by (auto simp: has_ports4_def)
  note c = checksum_beyond_ports [of ?l proto]
  show "p' ! 23 = p ! 23" by (rule rewritten_nth [OF r]) (use l c in auto)
  have "p' ! 14 = p ! 14" by (rule rewritten_nth [OF r]) (use l c in auto)
  then show "ip4_ihl p' = ip4_ihl p" by (simp add: ip4_ihl_def)
  show "rd_bytes p' 26 4 = rd_bytes p 26 4" by (rule rewritten_rd [OF r]) (use l c in auto)
  show "rd_bytes p' ?l 2 = rd_bytes p ?l 2" by (rule rewritten_rd [OF r]) (use l c assms(2) in auto)
  show "rd_bytes p' 30 4 = a" "rd_bytes p' (?l + 2) 2 = b" "length p' = length p" using r assms(2) by (auto simp: rewritten_def)
qed

lemma restored4_keeps:
  assumes "has_ports4 q" "length a = 4"
    and r: "rewritten [24, l4_checksum_offset (14 + ip4_ihl q * 4) proto, l4_checksum_offset (14 + ip4_ihl q * 4) proto]
       26 a (14 + ip4_ihl q * 4) b q q'"
  shows "rd_bytes q' 30 4 = rd_bytes q 30 4" "rd_bytes q' (14 + ip4_ihl q * 4 + 2) 2 = rd_bytes q (14 + ip4_ihl q * 4 + 2) 2"
    "rd_bytes q' 26 4 = a" "rd_bytes q' (14 + ip4_ihl q * 4) 2 = b"
proof -
  let ?l = "14 + ip4_ihl q * 4"
  have l: "34 \<le> ?l" "?l + 4 \<le> length q" using assms(1) by (auto simp: has_ports4_def)
  note c = checksum_beyond_ports [of ?l proto]
  show "rd_bytes q' 30 4 = rd_bytes q 30 4" by (rule rewritten_rd [OF r]) (use l c assms(2) in auto)
  show "rd_bytes q' (?l + 2) 2 = rd_bytes q (?l + 2) 2" by (rule rewritten_rd [OF r]) (use l c assms(2) in auto)
  show "rd_bytes q' 26 4 = a" "rd_bytes q' ?l 2 = b" using r assms(2) by (auto simp: rewritten_def)
qed

text \<open>What the bridge and the network see of a redirected connection request.\<close>

lemma ingress4_publishes:
  assumes "tc_reachable control s" "wf_control control" "exact_maps h" "packet_helpers h"
    and run: "bpf2socks_tc_ingress h ifindex p s = (TC_ACT_OK, p', s')" "rd16 p 12 = 0x0800" "(rd16 p 20 AND 0x3fff) AND 0x1fff = 0"
    and syn: "p ! 23 = PROTO_TCP" "is_tcp_syn p (14 + ip4_ihl p * 4)"
  obtains token where "has_ports4 p" "length (tv_token_addr token) = 16" "tv_token_port token = ct_bridge_port control"
    "rd_bytes p' 30 4 = take 4 (tv_token_addr token)"
    "rd_bytes p' (14 + ip4_ihl p * 4 + 2) 2 = port_bytes (ct_bridge_port control)"
    "rd_bytes p' 26 4 = rd_bytes p 26 4" "rd_bytes p' (14 + ip4_ihl p * 4) 2 = rd_bytes p (14 + ip4_ihl p * 4) 2"
    "ip4_ihl p' = ip4_ihl p" "length p' = length p"
    "st_bridge_token_map s' (fill_bridge_key (flow_key4 ifindex p) token) = Some (fill_bridge_value (flow_key4 ifindex p))"
proof -
  have ok: "flows_ok control s" and ctl: "st_control s = Some control" using reachable_flows assms(1,2) by blast+
  have in4: "ingress4 h ifindex p control s = (TC_ACT_OK, p', s')"
    using run(1,2) ctl by (auto simp: bpf2socks_tc_ingress_def classify_def split: if_splits)
  note fl = choose_token_flows [OF assms(3,2) ok]
  obtain token fragment where ports: "has_ports4 p"
    and ch: "choose_token h (h_policy4 h) (flow_key4 ifindex p) (rd_bytes p 30 4) control
        (p ! 23 = PROTO_TCP \<and> is_tcp_syn p (14 + ip4_ihl p * 4)) fragment s = (Some token, s')"
    and rw: "rewritten [24, l4_checksum_offset (14 + ip4_ihl p * 4) (p ! 23), l4_checksum_offset (14 + ip4_ihl p * 4) (p ! 23)]
        30 (take 4 (tv_token_addr token)) (14 + ip4_ihl p * 4 + 2) (port_bytes (ct_bridge_port control)) p p'"
    by (rule ingress4_redirects [OF assms(4) in4 run(3)]) (use fl in \<open>auto simp: flow_ok_def good_token_def token_in_pool_def\<close>)
  have good: "good_token control (flow_key4 ifindex p) token" using fl [OF ch] by (auto simp: flow_ok_def)
  then have len: "length (take 4 (tv_token_addr token)) = 4" by (simp add: good_token_def token_in_pool_def)
  have "choose_token h (h_policy4 h) (flow_key4 ifindex p) (rd_bytes p 30 4) control True fragment s = (Some token, s')"
    using ch syn by simp
  note bridge = choose_token_bridge [OF exact_maps_imp_evicting [OF assms(3)] assms(2) this]
  show ?thesis
    using that [OF ports _ _ _ _ _ _ _ _ bridge] redirected4_keeps [OF ports len rw] good by (simp add: good_token_def token_in_pool_def)
qed

section \<open>Fragments\<close>

text \<open>The verdict kept for the later fragments; a datagram without a TCP header keeps one always.\<close>

lemma remember_fragment_stores:
  assumes "exact_update (h_update_fragment h)" "\<And>m k v. h_update_fragment h m k v False \<noteq> None"
  shows "st_fragment_map (remember_fragment h key addr verdict g s) key =
    Some \<lparr>fv_token_addr = (case addr of None \<Rightarrow> zero_bytes 16 | Some a \<Rightarrow> copy_prefix 16 a (zero_bytes 16)),
          fv_generation = g, fv_verdict = verdict\<rparr>"
proof -
  let ?v = "\<lparr>fv_token_addr = (case addr of None \<Rightarrow> zero_bytes 16 | Some a \<Rightarrow> copy_prefix 16 a (zero_bytes 16)),
          fv_generation = g, fv_verdict = verdict\<rparr>"
  obtain m where m: "h_update_fragment h (st_fragment_map s) key ?v False = Some m" using assms(2) by blast
  then show ?thesis using exact_updateD [OF assms(1) m] by (simp add: remember_fragment_def Let_def)
qed

lemma choose_token_remembers:
  assumes "exact_update (h_update_fragment h)" "\<And>m k v. h_update_fragment h m k v False \<noteq> None"
    and "choose_token h maps k destination control False (Some key) s = (r, s')"
  shows "st_fragment_map s' key =
    Some \<lparr>fv_token_addr = (case r of None \<Rightarrow> zero_bytes 16 | Some token \<Rightarrow> copy_prefix 16 (tv_token_addr token) (zero_bytes 16)),
          fv_generation = ct_generation control, fv_verdict = (if r = None then FRAGMENT_PASS else FRAGMENT_REWRITE)\<rparr>"
  using assms(3) by (auto simp: choose_token_def Let_def remember_fragment_stores [OF assms(1,2)]
      split: option.splits prod.splits if_splits)

definition same_datagram4 :: "bytes \<Rightarrow> bytes \<Rightarrow> bool" where
  "same_datagram4 p f \<longleftrightarrow> f ! 23 = p ! 23 \<and> f ! 18 = p ! 18 \<and> f ! 19 = p ! 19 \<and>
     rd_bytes f 26 4 = rd_bytes p 26 4 \<and> rd_bytes f 30 4 = rd_bytes p 30 4"

lemma later_fragment4:
  assumes h: "packet_helpers h" "34 \<le> length f" "tcp_or_udp (f ! 23)"
    and v: "st_fragment_map s (fill_fragment_key ifindex FAM4 (f ! 23) (raw16 f 18) (rd_bytes f 26 4) (rd_bytes f 30 4) 4) = Some v"
      "fv_generation v = ct_generation control" "4 \<le> length (fv_token_addr v)"
  shows "\<exists>act f'. ingress4_later_fragment h ifindex f control s = (act, f', s) \<and>
    (if fv_verdict v = FRAGMENT_REWRITE then act = TC_ACT_OK \<and> rd_bytes f' 30 4 = take 4 (fv_token_addr v)
     else act = TC_ACT_PIPE \<and> f' = f)"
proof -
  let ?a = "take 4 (fv_token_addr v)"
  obtain q where q: "h_l3_csum_replace h f 24 (rd_bytes f 30 4) ?a 4 = Some q"
    using l3_csum_replaceD(2) [OF h(1), of 24 f "rd_bytes f 30 4" ?a 4] h(2) by auto
  have lq: "length q = length f" using l3_csum_replaceD(1) [OF h(1) q] by (simp add: only_changes_def)
  obtain f' where f': "h_store_bytes h q 30 ?a = Some f'" using store_bytesD(2) [OF h(1), of 30 ?a q] h(2) lq v(3) by auto
  have "rd_bytes f' 30 4 = ?a" using store_bytesD(1) [OF h(1) f'] v(3) by simp
  then show ?thesis using h(3) v q f' by (simp add: ingress4_later_fragment_def Let_def)
qed

section \<open>A concrete kernel and packet\<close>

definition plain_update :: "('k, 'v) map_update" where
  "plain_update m k v noexist = (if noexist \<and> m k \<noteq> None then None else Some (m(k \<mapsto> v)))"

definition plain_csum :: "bytes \<Rightarrow> nat \<Rightarrow> bytes \<Rightarrow> bytes \<Rightarrow> u64 \<Rightarrow> bytes option" where
  "plain_csum p off old new flags = (if length p < off + 2 then None else Some p)"

definition plain_store :: "bytes \<Rightarrow> nat \<Rightarrow> bytes \<Rightarrow> bytes option" where
  "plain_store p off bs =
     (if length p < off + length bs then None else Some (take off p @ bs @ drop (off + length bs) p))"

definition plain_policy :: policy_maps where
  "plain_policy = \<lparr>pm_local_interface = (\<lambda>_. False), pm_proxy = (\<lambda>_. False), pm_bypass_private = (\<lambda>_. False), pm_direct = (\<lambda>_. False)\<rparr>"

definition plain_helpers :: tc_helpers where
  "plain_helpers = \<lparr>h_update_forward = plain_update, h_update_reverse = plain_update, h_update_bridge = plain_update,
     h_update_fragment = plain_update, h_l3_csum_replace = plain_csum, h_l4_csum_replace = plain_csum,
     h_store_bytes = plain_store, h_now = 7, h_scratch = True, h_pull_ok = True, h_policy4 = plain_policy, h_policy6 = plain_policy\<rparr>"

lemma plain_update_exact: "exact_update plain_update"
  by (simp add: exact_update_def plain_update_def)

lemma plain_helpers_laws: "exact_maps plain_helpers" "packet_helpers plain_helpers" "evicting_maps plain_helpers"
proof -
  show e: "exact_maps plain_helpers" by (simp add: exact_maps_def plain_helpers_def plain_update_exact)
  show "evicting_maps plain_helpers" using e by (rule exact_maps_imp_evicting)
  show "packet_helpers plain_helpers"
    by (auto simp: packet_helpers_def plain_helpers_def plain_csum_def plain_store_def only_changes_def)
qed

definition sample_control :: bpf2socks_tc_runtime_control where
  "sample_control = \<lparr>ct_enabled = 1, ct_generation = 1, ct_bridge_port = 12345, ct_flags = 4,
     ct_token_ipv4_prefix = [127, 128, 0, 0], ct_token_ipv6_prefix = zero_bytes 16, ct_worker_count = 1\<rparr>"

lemma sample_control_wf: "wf_control sample_control"
  by (simp add: wf_control_def sample_control_def)

text \<open>A UDP packet from 192.168.43.5:12345 to 1.1.1.1:53.\<close>

definition sample_packet :: bytes where
  "sample_packet = zero_bytes 12 @ [8, 0] @ [0x45, 0, 0, 28, 0, 1, 0, 0, 64, 17, 0, 0, 192, 168, 43, 5, 1, 1, 1, 1] @
     [0x30, 0x39, 0, 53, 0, 8, 0, 0]"

definition sample_reply :: "bytes \<Rightarrow> bytes" where
  "sample_reply token = zero_bytes 12 @ [8, 0] @ [0x45, 0, 0, 28, 0, 1, 0, 0, 64, 17, 0, 0] @ token @ [192, 168, 43, 5] @
     [0x30, 0x39, 0x30, 0x39, 0, 8, 0, 0]"

text \<open>The two fragments of a datagram of that flow.\<close>

definition sample_fragment :: "u8 \<Rightarrow> u8 \<Rightarrow> bytes" where
  "sample_fragment hi lo = zero_bytes 12 @ [8, 0] @ [0x45, 0, 0, 28, 0, 1, hi, lo, 64, 17, 0, 0, 192, 168, 43, 5, 1, 1, 1, 1] @
     [0x30, 0x39, 0, 53, 0, 8, 0, 0]"

lemma sample_reachable: "tc_reachable sample_control (tc_initial sample_control)"
  by (simp add: tc_reachable_def)

section \<open>Properties\<close>

text \<open>
  C3. Allocating a token for a flow is all or nothing, even when the LRU maps evict entries
  meanwhile. When \<open>allocate_token\<close> succeeds, the token carries the bridge's port and the current
  generation, its address lies in the pool as the bridge itself tests it (and, for IPv4, outside
  the first /24 and not all ones in the host part), and the flow is in the bridge's map, in the
  reverse map and in the forward map, while every other entry of the three maps was there before.
  When it fails, none of the three maps has an entry that it did not have before.
\<close>

theorem tc_allocation_all_or_nothing:
  assumes "evicting_maps h" "wf_control control" "allocate_token h k control s = (r, s')"
  shows "case r of
      None \<Rightarrow> withdrawn s s'
    | Some token \<Rightarrow> published control k token s s' \<and> tv_token_port token = ct_bridge_port control \<and>
        tv_generation token = ct_generation control \<and>
        (if ok_family k = FAM4
         then bpf2socks_token_prefix_match4 (take 4 (tv_token_addr token)) (ct_token_ipv4_prefix control) 9 \<and>
           take 3 (tv_token_addr token) \<noteq> take 3 (ct_token_ipv4_prefix control) \<and>
           be32 (take 4 (tv_token_addr token)) AND 0x007fffff \<noteq> 0x007fffff
         else bpf2socks_token_prefix_match6 (tv_token_addr token) (ct_token_ipv6_prefix control) 64)"
  using allocate_loop_effect [OF assms(1,2), of k "[0, 1]" s r s'] assms(3)
  by (auto simp: allocate_token_def good_token_def token_in_pool_def kernel4_agrees kernel6_agrees split: option.splits)

theorem tc_allocation_all_or_nothing_witness:
  "\<exists>token s'. allocate_token plain_helpers (flow_key4 3 sample_packet) sample_control (tc_initial sample_control) = (Some token, s') \<and>
     bpf2socks_token_prefix_match4 (take 4 (tv_token_addr token)) [127, 128, 0, 0] 9"
proof -
  obtain r s' where run: "allocate_token plain_helpers (flow_key4 3 sample_packet) sample_control (tc_initial sample_control) = (r, s')"
    by fastforce
  have "fst (allocate_token plain_helpers (flow_key4 3 sample_packet) sample_control (tc_initial sample_control)) \<noteq> None"
    by code_simp
  then obtain token where r: "r = Some token" using run by auto
  have "ok_family (flow_key4 3 sample_packet) = FAM4" "ct_token_ipv4_prefix sample_control = [127, 128, 0, 0]" by code_simp+
  then show ?thesis
    using tc_allocation_all_or_nothing [OF plain_helpers_laws(3) sample_control_wf run] run r by auto
qed


lemma sample_ingress:
  obtains s' where
    "bpf2socks_tc_ingress plain_helpers 3 sample_packet (tc_initial sample_control) =
       (TC_ACT_OK, fst (snd (bpf2socks_tc_ingress plain_helpers 3 sample_packet (tc_initial sample_control))), s')"
    "tc_reachable sample_control s'"
    "find_reserved_token (flow_key4 3 sample_packet) sample_control s' \<noteq> None"
proof -
  obtain a p' s' where run: "bpf2socks_tc_ingress plain_helpers 3 sample_packet (tc_initial sample_control) = (a, p', s')"
    using prod_cases3 by blast
  have "fst (bpf2socks_tc_ingress plain_helpers 3 sample_packet (tc_initial sample_control)) = TC_ACT_OK" by code_simp
  then have a: "a = TC_ACT_OK" using run by simp
  have "tc_step (tc_initial sample_control) s'"
    using run plain_helpers_laws(1) unfolding bpf2socks_tc_ingress_def by (rule tc_step.packet [rotated])
  then have "tc_reachable sample_control s'" by (simp add: tc_reachable_def r_into_rtranclp)
  moreover have "find_reserved_token (flow_key4 3 sample_packet) sample_control
     (snd (snd (bpf2socks_tc_ingress plain_helpers 3 sample_packet (tc_initial sample_control)))) \<noteq> None" by code_simp
  ultimately show ?thesis using that run a by simp
qed






end
