(* ===== verification/Tcp_Stream.thy ===== *)
theory Tcp_Stream
  imports Socks5 Deadline
begin

text \<open>
  \<open>bridge/tcp.c\<close>, one relayed connection: the splice pipes and their pool, the pipelined SOCKS5
  handshake, the relay in both directions and the events a connection waits for. The system is
  the record \<open>tcp_world\<close>: what was read from and sent to each socket so far, whether the sending
  direction was shut down, and the bytes inside each kernel pipe. What a system call returns is
  the environment's choice: a loop takes the list of results of its calls and answers \<open>None\<close> if
  it has not returned by the end of the list, so that a call that is interrupted for ever is a
  loop that does not return. The clock is read once per event handled (\<open>now\<close>).
\<close>

section \<open>Model: data\<close>

datatype tcp_stage = TCP_STAGE_CONNECTING | TCP_STAGE_REQUEST_WRITE | TCP_STAGE_REPLY_READ | TCP_STAGE_RELAY

datatype tcp_side = TCP_SIDE_LISTENER | TCP_SIDE_CLIENT | TCP_SIDE_UPSTREAM

text \<open>The pool as a stack of read end, write end and capacity; its head is the entry used next.\<close>

type_synonym tcp_pipe_pool = "(int \<times> int \<times> nat) list"

definition PIPE_POOL_CAP :: nat where "PIPE_POOL_CAP = 16"
definition SPLICE_CHUNK :: nat where "SPLICE_CHUNK = 65536"
definition RESPONSE_CAP :: nat where "RESPONSE_CAP = 264"
definition HANDSHAKE_CAP :: nat where "HANDSHAKE_CAP = 32"

text \<open>The reference that epoll hands back; \<open>None\<close> is a null \<open>connection\<close> pointer.\<close>

record tcp_fd_ref =
  fr_connection :: "nat option"
  fr_side :: tcp_side
  fr_fd :: int
  fr_events :: u32

record tcp_splice_pipe =
  sp_read_fd :: int
  sp_write_fd :: int
  sp_capacity :: nat
  sp_queued :: nat
  sp_input_eof :: bool
  sp_input_paused :: bool
  sp_output_shutdown :: bool

text \<open>
  \<open>handshake\<close> and \<open>response\<close> are the filled parts of their buffers, so \<open>handshake_length\<close> and
  \<open>response_length\<close> are their lengths. Connections are named by numbers.
\<close>

record tcp_connection =
  tc_client_fd :: int
  tc_upstream_fd :: int
  tc_stage :: tcp_stage
  tc_closing :: bool
  tc_session_reserved :: bool
  tc_client_ref :: tcp_fd_ref
  tc_upstream_ref :: tcp_fd_ref
  tc_client_to_upstream :: tcp_splice_pipe
  tc_upstream_to_client :: tcp_splice_pipe
  tc_target :: bpf2socks_sockaddr
  tc_handshake :: bytes
  tc_handshake_offset :: nat
  tc_response :: bytes
  tc_response_expected :: nat
  tc_created_at_ms :: u64
  tc_last_activity_ms :: u64
  tc_active_linked :: bool
  tc_active_prev :: "nat option"
  tc_active_next :: "nat option"
  tc_next :: "nat option"

record tcp_world =
  w_read :: "int \<Rightarrow> bytes"
  w_sent :: "int \<Rightarrow> bytes"
  w_shut :: "int \<Rightarrow> bool"
  w_pipe :: "int \<times> int \<Rightarrow> bytes"

text \<open>What a call returns: bytes, a count, or an error; no bytes and a count of 0 are the end of file.\<close>

datatype read_result = Read bytes | Read_Error errno
datatype write_result = Wrote nat | Write_Error errno

definition pipe_id :: "tcp_splice_pipe \<Rightarrow> int \<times> int" where
  "pipe_id p = (sp_read_fd p, sp_write_fd p)"

section \<open>Model: splice pipes\<close>

definition connection_touch :: "u64 \<Rightarrow> tcp_connection \<Rightarrow> tcp_connection" where
  "connection_touch now c = (if now \<noteq> 0 then c\<lparr>tc_last_activity_ms := now\<rparr> else c)"

definition init_splice_pipe :: tcp_splice_pipe where
  "init_splice_pipe = \<lparr>sp_read_fd = -1, sp_write_fd = -1, sp_capacity = SPLICE_CHUNK, sp_queued = 0,
     sp_input_eof = False, sp_input_paused = False, sp_output_shutdown = False\<rparr>"

text \<open>
  \<open>pipe2\<close> gives the two ends of a new, empty pipe, or \<open>None\<close>; \<open>fcntl\<close> the capacity the kernel
  grants, negative or 0 when it refuses.
\<close>

definition open_splice_pipe ::
  "(int \<times> int) option \<Rightarrow> int \<Rightarrow> tcp_pipe_pool \<Rightarrow> tcp_world \<Rightarrow> tcp_splice_pipe option \<times> tcp_pipe_pool \<times> tcp_world" where
  "open_splice_pipe pipe2 fcntl pool w =
     (case pool of
        (r, wr, cap) # pool' \<Rightarrow> (Some (init_splice_pipe\<lparr>sp_read_fd := r, sp_write_fd := wr, sp_capacity := cap\<rparr>), pool', w)
      | [] \<Rightarrow>
          (case pipe2 of
             None \<Rightarrow> (None, pool, w)
           | Some (r, wr) \<Rightarrow>
               (Some (init_splice_pipe\<lparr>sp_read_fd := r, sp_write_fd := wr,
                        sp_capacity := (if fcntl > 0 then nat fcntl else SPLICE_CHUNK)\<rparr>),
                pool, w\<lparr>w_pipe := (w_pipe w)((r, wr) := [])\<rparr>)))"

definition close_splice_pipe :: "tcp_splice_pipe \<Rightarrow> tcp_splice_pipe" where
  "close_splice_pipe p = p\<lparr>sp_read_fd := -1, sp_write_fd := -1, sp_queued := 0, sp_input_eof := True,
     sp_input_paused := False, sp_output_shutdown := True\<rparr>"

definition release_splice_pipe :: "tcp_pipe_pool \<Rightarrow> tcp_splice_pipe \<Rightarrow> tcp_pipe_pool \<times> tcp_splice_pipe" where
  "release_splice_pipe pool p =
     (if sp_read_fd p \<ge> 0 \<and> sp_write_fd p \<ge> 0 \<and> sp_queued p = 0 \<and> length pool < PIPE_POOL_CAP
      then ((sp_read_fd p, sp_write_fd p, sp_capacity p) # pool, close_splice_pipe (p\<lparr>sp_read_fd := -1, sp_write_fd := -1\<rparr>))
      else (pool, close_splice_pipe p))"

text \<open>The environment of the two calls of \<open>open_splice_pipe\<close>.\<close>

record pipe_env =
  pe_pipe2 :: "(int \<times> int) option"
  pe_fcntl :: int

definition init_connection_splice_pipes ::
  "pipe_env \<Rightarrow> pipe_env \<Rightarrow> tcp_pipe_pool \<Rightarrow> tcp_connection \<Rightarrow> tcp_world \<Rightarrow>
   bool \<times> tcp_pipe_pool \<times> tcp_connection \<times> tcp_world" where
  "init_connection_splice_pipes e1 e2 pool c w =
     (case open_splice_pipe (pe_pipe2 e1) (pe_fcntl e1) pool w of
        (None, pool1, w1) \<Rightarrow> (False, pool1, c\<lparr>tc_client_to_upstream := init_splice_pipe\<rparr>, w1)
      | (Some p1, pool1, w1) \<Rightarrow>
          (case open_splice_pipe (pe_pipe2 e2) (pe_fcntl e2) pool1 w1 of
             (None, pool2, w2) \<Rightarrow>
               (False, pool2, c\<lparr>tc_client_to_upstream := close_splice_pipe p1, tc_upstream_to_client := init_splice_pipe\<rparr>, w2)
           | (Some p2, pool2, w2) \<Rightarrow>
               (True, pool2, c\<lparr>tc_client_to_upstream := p1, tc_upstream_to_client := p2\<rparr>, w2)))"

definition send_bytes :: "int \<Rightarrow> bytes \<Rightarrow> tcp_world \<Rightarrow> tcp_world" where
  "send_bytes fd bs w = w\<lparr>w_sent := (w_sent w)(fd := w_sent w fd @ bs)\<rparr>"

definition read_bytes :: "int \<Rightarrow> bytes \<Rightarrow> tcp_world \<Rightarrow> tcp_world" where
  "read_bytes fd bs w = w\<lparr>w_read := (w_read w)(fd := w_read w fd @ bs)\<rparr>"

definition fill_pipe :: "int \<times> int \<Rightarrow> bytes \<Rightarrow> tcp_world \<Rightarrow> tcp_world" where
  "fill_pipe i bs w = w\<lparr>w_pipe := (w_pipe w)(i := w_pipe w i @ bs)\<rparr>"

definition drain_pipe :: "int \<times> int \<Rightarrow> nat \<Rightarrow> tcp_world \<Rightarrow> tcp_world" where
  "drain_pipe i n w = w\<lparr>w_pipe := (w_pipe w)(i := drop n (w_pipe w i))\<rparr>"

section \<open>Model: the handshake\<close>

definition start_handshake :: "tcp_connection \<Rightarrow> tcp_connection option" where
  "start_handshake c =
     (let hello = bpf2socks_socks5_build_hello HANDSHAKE_CAP in
      case bpf2socks_socks5_build_connect_request (HANDSHAKE_CAP - length hello) (tc_target c) of
        Inl _ \<Rightarrow> None
      | Inr request \<Rightarrow>
          if hello = [] \<or> request = [] then None
          else Some (c\<lparr>tc_handshake := hello @ request, tc_handshake_offset := 0, tc_stage := TCP_STAGE_REQUEST_WRITE\<rparr>))"

text \<open>The result is 0 (\<open>True\<close>) or -1 (\<open>False\<close>); a count is cut to the bytes offered.\<close>

fun flush_handshake ::
  "u64 \<Rightarrow> write_result list \<Rightarrow> tcp_connection \<Rightarrow> tcp_world \<Rightarrow> (bool \<times> tcp_connection \<times> tcp_world) option" where
  "flush_handshake now sends c w =
     (if tc_handshake_offset c < length (tc_handshake c) then
        (case sends of
           [] \<Rightarrow> None
         | Write_Error e # rest \<Rightarrow>
             if e = EINTR then flush_handshake now rest c w
             else if e = EAGAIN then Some (True, c, w)
             else Some (False, c, w)
         | Wrote n # rest \<Rightarrow>
             if n = 0 then Some (False, c, w)
             else let bs = take n (drop (tc_handshake_offset c) (tc_handshake c)) in
               flush_handshake now rest
                 (connection_touch now (c\<lparr>tc_handshake_offset := tc_handshake_offset c + length bs\<rparr>))
                 (send_bytes (tc_upstream_fd c) bs w))
      else Some (True, c\<lparr>tc_response := [], tc_stage := TCP_STAGE_REPLY_READ\<rparr>, w))"

declare flush_handshake.simps [simp del]

datatype replies = Replies_Wait | Replies_Failed | Replies_Complete

text \<open>The test on the bytes received so far: the length of both replies when they are complete.\<close>

definition replies_needed :: "bytes \<Rightarrow> nat progress" where
  "replies_needed response =
     (if length response \<ge> 2 \<and> (response ! 0 \<noteq> 0x05 \<or> response ! 1 \<noteq> 0x00) then Fail
      else if length response > 2 then
        (case bpf2socks_socks5_reply_length (drop 2 response) of
           Fail \<Rightarrow> Fail
         | More \<Rightarrow> More
         | Done n \<Rightarrow> if length response \<ge> n + 2 then Done (n + 2) else More)
      else More)"

fun read_pipelined_replies ::
  "u64 \<Rightarrow> read_result list \<Rightarrow> tcp_connection \<Rightarrow> tcp_world \<Rightarrow> (replies \<times> tcp_connection \<times> tcp_world) option" where
  "read_pipelined_replies now recvs c w =
     (let room = RESPONSE_CAP - length (tc_response c) in
      if room = 0 then Some (Replies_Failed, c, w)
      else case recvs of
        [] \<Rightarrow> None
      | Read_Error e # rest \<Rightarrow>
          if e = EINTR then read_pipelined_replies now rest c w
          else if e = EAGAIN then Some (Replies_Wait, c, w)
          else Some (Replies_Failed, c, w)
      | Read bs # rest \<Rightarrow>
          if bs = [] then Some (Replies_Failed, c, w)
          else let received = take room bs;
                   c1 = connection_touch now (c\<lparr>tc_response := tc_response c @ received\<rparr>);
                   w1 = read_bytes (tc_upstream_fd c) received w in
            (case replies_needed (tc_response c1) of
               Fail \<Rightarrow> Some (Replies_Failed, c1, w1)
             | Done n \<Rightarrow> Some (Replies_Complete, c1\<lparr>tc_response_expected := n\<rparr>, w1)
             | More \<Rightarrow>
                 if length received < room then Some (Replies_Wait, c1, w1)
                 else read_pipelined_replies now rest c1 w1))"

declare read_pipelined_replies.simps [simp del]

text \<open>The write of the early payload into the pipe; its result is the number of bytes or an error.\<close>

definition finish_pipelined_replies ::
  "pipe_env \<Rightarrow> pipe_env \<Rightarrow> write_result \<Rightarrow> tcp_pipe_pool \<Rightarrow> tcp_connection \<Rightarrow> tcp_world \<Rightarrow>
   bool \<times> tcp_pipe_pool \<times> tcp_connection \<times> tcp_world" where
  "finish_pipelined_replies e1 e2 written pool c w =
     (case init_connection_splice_pipes e1 e2 pool c w of
        (False, pool1, c1, w1) \<Rightarrow> (False, pool1, c1, w1)
      | (True, pool1, c1, w1) \<Rightarrow>
          let extra = drop (tc_response_expected c1) (tc_response c1);
              u2c = tc_upstream_to_client c1 in
          if extra = [] then (True, pool1, c1\<lparr>tc_stage := TCP_STAGE_RELAY\<rparr>, w1)
          else (case written of
                  Write_Error _ \<Rightarrow> (False, pool1, c1, w1)
                | Wrote n \<Rightarrow>
                    let w2 = fill_pipe (pipe_id u2c) (take n extra) w1 in
                    if n \<noteq> length extra then (False, pool1, c1, w2)
                    else (True, pool1,
                          c1\<lparr>tc_upstream_to_client := u2c\<lparr>sp_queued := sp_queued u2c + length extra\<rparr>, tc_stage := TCP_STAGE_RELAY\<rparr>,
                          w2)))"

section \<open>Model: the relay\<close>

text \<open>
  The loops work on one pipe of the connection; the result carries whether the connection is to
  be touched. \<open>unread\<close> is what \<open>socket_has_unread_bytes\<close> answers.
\<close>

fun splice_socket_to_pipe_loop ::
  "read_result list \<Rightarrow> bool \<Rightarrow> int \<Rightarrow> bool \<Rightarrow> tcp_splice_pipe \<Rightarrow> tcp_world \<Rightarrow>
   (bool \<times> bool \<times> tcp_splice_pipe \<times> tcp_world) option" where
  "splice_socket_to_pipe_loop [] unread source_fd moved_data p w = None"
| "splice_socket_to_pipe_loop (r # rest) unread source_fd moved_data p w =
     (case r of
        Read bs \<Rightarrow>
          if bs \<noteq> [] then
            (let moved = take (sp_capacity p) bs;
                 p1 = p\<lparr>sp_queued := sp_queued p + length moved\<rparr>;
                 w1 = fill_pipe (pipe_id p) moved (read_bytes source_fd moved w) in
             if length moved < sp_capacity p then Some (True, True, p1, w1)
             else splice_socket_to_pipe_loop rest unread source_fd True p1 w1)
          else Some (True, moved_data, p\<lparr>sp_input_eof := True\<rparr>, w)
      | Read_Error e \<Rightarrow>
          if e = EINTR then splice_socket_to_pipe_loop rest unread source_fd moved_data p w
          else if e = EAGAIN then
            Some (True, moved_data, if sp_queued p > 0 \<and> unread then p\<lparr>sp_input_paused := True\<rparr> else p, w)
          else Some (False, moved_data, p, w))"

definition splice_socket_to_pipe ::
  "read_result list \<Rightarrow> bool \<Rightarrow> int \<Rightarrow> tcp_splice_pipe \<Rightarrow> tcp_world \<Rightarrow> (bool \<times> bool \<times> tcp_splice_pipe \<times> tcp_world) option" where
  "splice_socket_to_pipe reads unread source_fd p w =
     (if sp_input_eof p then Some (True, False, p, w)
      else splice_socket_to_pipe_loop reads unread source_fd False p w)"

text \<open>\<open>shutdown\<close> gives \<open>None\<close> when it succeeds, or its error.\<close>

definition shutdown_splice_target ::
  "errno option \<Rightarrow> int \<Rightarrow> tcp_splice_pipe \<Rightarrow> tcp_world \<Rightarrow> bool \<times> tcp_splice_pipe \<times> tcp_world" where
  "shutdown_splice_target shutdown target_fd p w =
     (if \<not> sp_input_eof p \<or> sp_queued p > 0 \<or> sp_output_shutdown p then (True, p, w)
      else if shutdown \<noteq> None \<and> shutdown \<noteq> Some ENOTCONN \<and> shutdown \<noteq> Some EPIPE then (False, p, w)
      else (True, p\<lparr>sp_output_shutdown := True\<rparr>, w\<lparr>w_shut := (w_shut w)(target_fd := True)\<rparr>))"

text \<open>
  The loop alone: \<open>Some True\<close> when it ends to go on to the shutdown. A count is cut to the chunk.
  The byte counter of the statistics grows by what is moved.
\<close>

fun splice_pipe_to_socket_loop ::
  "write_result list \<Rightarrow> int \<Rightarrow> bool \<Rightarrow> tcp_splice_pipe \<Rightarrow> u64 \<Rightarrow> tcp_world \<Rightarrow>
   (bool \<times> bool \<times> tcp_splice_pipe \<times> u64 \<times> tcp_world) option" where
  "splice_pipe_to_socket_loop writes target_fd moved_data p bytes_out w =
     (if sp_queued p > 0 then
        (case writes of
           [] \<Rightarrow> None
         | Wrote n # rest \<Rightarrow>
             (let chunk = min (sp_queued p) (sp_capacity p); moved = min n chunk in
              if moved > 0 then
                splice_pipe_to_socket_loop rest target_fd True
                  (p\<lparr>sp_queued := sp_queued p - moved, sp_input_paused := False\<rparr>) (bytes_out + of_nat moved)
                  (drain_pipe (pipe_id p) moved (send_bytes target_fd (take moved (w_pipe w (pipe_id p))) w))
              else Some (False, moved_data, p, bytes_out, w))
         | Write_Error e # rest \<Rightarrow>
             if e = EINTR then splice_pipe_to_socket_loop rest target_fd moved_data p bytes_out w
             else if e = EAGAIN then Some (True, moved_data, p, bytes_out, w)
             else Some (False, moved_data, p, bytes_out, w))
      else Some (True, moved_data, p, bytes_out, w))"

declare splice_pipe_to_socket_loop.simps [simp del]

definition splice_pipe_to_socket ::
  "write_result list \<Rightarrow> errno option \<Rightarrow> int \<Rightarrow> tcp_splice_pipe \<Rightarrow> u64 \<Rightarrow> tcp_world \<Rightarrow>
   (bool \<times> bool \<times> tcp_splice_pipe \<times> u64 \<times> tcp_world) option" where
  "splice_pipe_to_socket writes shutdown target_fd p bytes_out w =
     (case splice_pipe_to_socket_loop writes target_fd False p bytes_out w of
        None \<Rightarrow> None
      | Some (False, moved, p1, n, w1) \<Rightarrow> Some (False, moved, p1, n, w1)
      | Some (True, moved, p1, n, w1) \<Rightarrow>
          (case shutdown_splice_target shutdown target_fd p1 w1 of (ok, p2, w2) \<Rightarrow> Some (ok, moved, p2, n, w2)))"

definition splice_pipe_complete :: "tcp_splice_pipe \<Rightarrow> bool" where
  "splice_pipe_complete p \<longleftrightarrow> sp_input_eof p \<and> sp_queued p = 0 \<and> sp_output_shutdown p"

definition relay_complete :: "tcp_connection \<Rightarrow> bool" where
  "relay_complete c \<longleftrightarrow> splice_pipe_complete (tc_client_to_upstream c) \<and> splice_pipe_complete (tc_upstream_to_client c)"

text \<open>The two byte counters of the worker's statistics that the relay moves.\<close>

record tcp_bytes =
  tb_client_to_upstream :: u64
  tb_upstream_to_client :: u64

text \<open>The environment of one handled event: the results of every call the handler may make.\<close>

record tcp_env =
  te_now :: u64
  te_sends :: "write_result list"
  te_recvs :: "read_result list"
  te_pipe1 :: pipe_env
  te_pipe2 :: pipe_env
  te_early :: write_result
  te_reads :: "read_result list"
  te_unread :: bool
  te_up_writes :: "write_result list"
  te_up_shutdown :: "errno option"
  te_down_writes :: "write_result list"
  te_down_shutdown :: "errno option"

definition touch_if :: "bool \<Rightarrow> u64 \<Rightarrow> tcp_connection \<Rightarrow> tcp_connection" where
  "touch_if moved now c = (if moved then connection_touch now c else c)"

text \<open>\<open>Some None\<close> on success, \<open>Some (Some side)\<close> when the socket of \<open>side\<close> could not be written.\<close>

definition flush_relay_pipes ::
  "tcp_env \<Rightarrow> tcp_connection \<Rightarrow> tcp_bytes \<Rightarrow> tcp_world \<Rightarrow> (tcp_side option \<times> tcp_connection \<times> tcp_bytes \<times> tcp_world) option" where
  "flush_relay_pipes env c n w =
     (case splice_pipe_to_socket (te_up_writes env) (te_up_shutdown env) (tc_upstream_fd c) (tc_client_to_upstream c)
             (tb_client_to_upstream n) w of
        None \<Rightarrow> None
      | Some (ok, moved, p, up, w1) \<Rightarrow>
          let c1 = touch_if moved (te_now env) (c\<lparr>tc_client_to_upstream := p\<rparr>);
              n1 = n\<lparr>tb_client_to_upstream := up\<rparr> in
          if \<not> ok then Some (Some TCP_SIDE_UPSTREAM, c1, n1, w1)
          else (case splice_pipe_to_socket (te_down_writes env) (te_down_shutdown env) (tc_client_fd c1)
                       (tc_upstream_to_client c1) (tb_upstream_to_client n1) w1 of
                  None \<Rightarrow> None
                | Some (ok2, moved2, p2, down, w2) \<Rightarrow>
                    let c2 = touch_if moved2 (te_now env) (c1\<lparr>tc_upstream_to_client := p2\<rparr>);
                        n2 = n1\<lparr>tb_upstream_to_client := down\<rparr> in
                    Some (if ok2 then None else Some TCP_SIDE_CLIENT, c2, n2, w2)))"

section \<open>Model: events\<close>

abbreviation (input) EPOLLIN :: u32 where "EPOLLIN \<equiv> 0x1"
abbreviation (input) EPOLLOUT :: u32 where "EPOLLOUT \<equiv> 0x4"
abbreviation (input) EPOLLERR :: u32 where "EPOLLERR \<equiv> 0x8"
abbreviation (input) EPOLLHUP :: u32 where "EPOLLHUP \<equiv> 0x10"
abbreviation (input) EPOLLRDHUP :: u32 where "EPOLLRDHUP \<equiv> 0x2000"

definition HANDSHAKE_CLIENT_EVENTS :: u32 where "HANDSHAKE_CLIENT_EVENTS = EPOLLERR OR EPOLLHUP"
definition RELAY_EVENTS :: u32 where "RELAY_EVENTS = EPOLLERR OR EPOLLHUP OR EPOLLRDHUP"

definition relay_side_events :: "bool \<Rightarrow> bool \<Rightarrow> u32" where
  "relay_side_events want_input output_pending =
     (let e1 = (if want_input then EPOLLIN OR EPOLLRDHUP else 0);
          e2 = (if output_pending then e1 OR EPOLLOUT else e1)
      in if e2 \<noteq> 0 then e2 OR (EPOLLERR OR EPOLLHUP) else e2)"

definition splice_pipe_wants_input :: "tcp_splice_pipe \<Rightarrow> bool" where
  "splice_pipe_wants_input p \<longleftrightarrow> \<not> sp_input_eof p \<and> \<not> sp_input_paused p"

definition client_events :: "tcp_connection \<Rightarrow> u32" where
  "client_events c =
     (if tc_stage c = TCP_STAGE_RELAY
      then relay_side_events (splice_pipe_wants_input (tc_client_to_upstream c)) (sp_queued (tc_upstream_to_client c) > 0)
      else HANDSHAKE_CLIENT_EVENTS)"

definition upstream_events :: "tcp_connection \<Rightarrow> u32" where
  "upstream_events c =
     (case tc_stage c of
        TCP_STAGE_CONNECTING \<Rightarrow> RELAY_EVENTS OR EPOLLOUT
      | TCP_STAGE_REQUEST_WRITE \<Rightarrow> RELAY_EVENTS OR EPOLLOUT
      | TCP_STAGE_REPLY_READ \<Rightarrow> RELAY_EVENTS OR EPOLLIN
      | TCP_STAGE_RELAY \<Rightarrow>
          relay_side_events (splice_pipe_wants_input (tc_upstream_to_client c)) (sp_queued (tc_client_to_upstream c) > 0))"

section \<open>Model: what an event decides\<close>

text \<open>
  A handler ends by keeping the connection, closing it, or resetting the peer of the side that
  did not fail. The worker carries the decision out.
\<close>

datatype tcp_verdict = Verdict_Keep | Verdict_Close | Verdict_Reset tcp_side

definition client_event_verdict :: "u32 \<Rightarrow> tcp_verdict" where
  "client_event_verdict events =
     (if events AND EPOLLERR \<noteq> 0 then Verdict_Reset TCP_SIDE_CLIENT
      else if events AND HANDSHAKE_CLIENT_EVENTS \<noteq> 0 then Verdict_Close
      else Verdict_Keep)"

text \<open>The second component says whether \<open>tcp_connect_failures\<close> is counted.\<close>

definition read_and_finish ::
  "tcp_env \<Rightarrow> tcp_pipe_pool \<Rightarrow> tcp_connection \<Rightarrow> tcp_world \<Rightarrow> (bool \<times> tcp_pipe_pool \<times> tcp_connection \<times> tcp_world) option" where
  "read_and_finish env pool c w =
     (case read_pipelined_replies (te_now env) (te_recvs env) c w of
        None \<Rightarrow> None
      | Some (Replies_Wait, c1, w1) \<Rightarrow> Some (True, pool, c1, w1)
      | Some (Replies_Failed, c1, w1) \<Rightarrow> Some (False, pool, c1, w1)
      | Some (Replies_Complete, c1, w1) \<Rightarrow>
          Some (finish_pipelined_replies (te_pipe1 env) (te_pipe2 env) (te_early env) pool c1 w1))"

definition upstream_handshake ::
  "tcp_env \<Rightarrow> u32 \<Rightarrow> tcp_pipe_pool \<Rightarrow> tcp_connection \<Rightarrow> tcp_world \<Rightarrow>
   (tcp_verdict \<times> bool \<times> tcp_pipe_pool \<times> tcp_connection \<times> tcp_world) option" where
  "upstream_handshake env events pool c w =
     (if events AND EPOLLERR \<noteq> 0 then Some (Verdict_Reset TCP_SIDE_UPSTREAM, False, pool, c, w)
      else
        let hangup = (events AND (EPOLLHUP OR EPOLLRDHUP) \<noteq> 0);
            readable = (events AND EPOLLIN \<noteq> 0 \<or> hangup);
            writable = (events AND EPOLLOUT \<noteq> 0);
            failed = (\<lambda>pool c w. Some (Verdict_Reset TCP_SIDE_UPSTREAM, True, pool, c, w));
            started = (if tc_stage c = TCP_STAGE_CONNECTING \<and> writable then start_handshake c else Some c) in
        case started of
          None \<Rightarrow> failed pool c w
        | Some c1 \<Rightarrow>
            (case (if tc_stage c1 = TCP_STAGE_REQUEST_WRITE \<and> writable then flush_handshake (te_now env) (te_sends env) c1 w
                   else Some (True, c1, w)) of
               None \<Rightarrow> None
             | Some (False, c2, w2) \<Rightarrow> failed pool c2 w2
             | Some (True, c2, w2) \<Rightarrow>
                 (case (if tc_stage c2 = TCP_STAGE_REPLY_READ \<and> readable then read_and_finish env pool c2 w2
                        else Some (True, pool, c2, w2)) of
                    None \<Rightarrow> None
                  | Some (False, pool3, c3, w3) \<Rightarrow> failed pool3 c3 w3
                  | Some (True, pool3, c3, w3) \<Rightarrow>
                      if hangup \<and> tc_stage c3 \<noteq> TCP_STAGE_RELAY then failed pool3 c3 w3
                      else Some (Verdict_Keep, False, pool3, c3, w3))))"

text \<open>The input half of \<open>handle_splice_relay\<close>: whether it succeeded.\<close>

definition relay_input ::
  "tcp_env \<Rightarrow> tcp_side \<Rightarrow> u32 \<Rightarrow> tcp_connection \<Rightarrow> tcp_world \<Rightarrow> (bool \<times> tcp_connection \<times> tcp_world) option" where
  "relay_input env side events c w =
     (if events AND EPOLLIN = 0 then Some (True, c, w)
      else case side of
        TCP_SIDE_LISTENER \<Rightarrow> Some (True, c, w)
      | TCP_SIDE_CLIENT \<Rightarrow>
          (case splice_socket_to_pipe (te_reads env) (te_unread env) (tc_client_fd c) (tc_client_to_upstream c) w of
             None \<Rightarrow> None
           | Some (ok, moved, p, w1) \<Rightarrow> Some (ok, touch_if moved (te_now env) (c\<lparr>tc_client_to_upstream := p\<rparr>), w1))
      | TCP_SIDE_UPSTREAM \<Rightarrow>
          (case splice_socket_to_pipe (te_reads env) (te_unread env) (tc_upstream_fd c) (tc_upstream_to_client c) w of
             None \<Rightarrow> None
           | Some (ok, moved, p, w1) \<Rightarrow> Some (ok, touch_if moved (te_now env) (c\<lparr>tc_upstream_to_client := p\<rparr>), w1)))"

definition splice_relay ::
  "tcp_env \<Rightarrow> tcp_side \<Rightarrow> u32 \<Rightarrow> tcp_connection \<Rightarrow> tcp_bytes \<Rightarrow> tcp_world \<Rightarrow>
   (tcp_verdict \<times> tcp_connection \<times> tcp_bytes \<times> tcp_world) option" where
  "splice_relay env side events c n w =
     (if events AND EPOLLERR \<noteq> 0 then Some (Verdict_Reset side, c, n, w)
      else case relay_input env side events c w of
        None \<Rightarrow> None
      | Some (False, c1, w1) \<Rightarrow> Some (Verdict_Reset side, c1, n, w1)
      | Some (True, c1, w1) \<Rightarrow>
          (case flush_relay_pipes env c1 n w1 of
             None \<Rightarrow> None
           | Some (Some failed_side, c2, n2, w2) \<Rightarrow> Some (Verdict_Reset failed_side, c2, n2, w2)
           | Some (None, c2, n2, w2) \<Rightarrow>
               Some (if relay_complete c2 then Verdict_Close else Verdict_Keep, c2, n2, w2)))"

text \<open>
  \<open>handle_connection_event\<close> for a reference with a connection, up to the verdict: the stage and
  the side select the handler.
\<close>

definition connection_event ::
  "tcp_env \<Rightarrow> tcp_side \<Rightarrow> u32 \<Rightarrow> tcp_pipe_pool \<Rightarrow> tcp_connection \<Rightarrow> tcp_bytes \<Rightarrow> tcp_world \<Rightarrow>
   (tcp_verdict \<times> bool \<times> tcp_pipe_pool \<times> tcp_connection \<times> tcp_bytes \<times> tcp_world) option" where
  "connection_event env side events pool c n w =
     (if tc_stage c = TCP_STAGE_RELAY then
        (case splice_relay env side events c n w of
           None \<Rightarrow> None
         | Some (v, c1, n1, w1) \<Rightarrow> Some (v, False, pool, c1, n1, w1))
      else if side = TCP_SIDE_CLIENT then Some (client_event_verdict events, False, pool, c, n, w)
      else (case upstream_handshake env events pool c w of
              None \<Rightarrow> None
            | Some (v, failed, pool1, c1, w1) \<Rightarrow> Some (v, failed, pool1, c1, n, w1)))"

end
