(* ===== verification/Tcp_Worker.thy ===== *)
theory Tcp_Worker
  imports Tcp_Stream Original_Dst Udp_Budget Intrusive_List
begin

text \<open>
  \<open>bridge/tcp.c\<close>, the worker around the connections of \<open>Tcp_Stream\<close>: the list of live
  connections and the list of closed ones, closing and resetting, the expiry scan, the accept
  loop with its back-off when descriptors run out, and the dispatch of events. Connections live in
  a heap under numbers; \<open>ws_epoll\<close> is what epoll watches (0 when a descriptor is not registered),
  \<open>ws_open\<close> the sockets of clients and of the upstream that are open, \<open>ws_linger\<close> those whose close
  resets the peer, \<open>ws_heap\<close> the connections that are allocated, and \<open>ws_tokens\<close> the token map of
  the kernel, whose operations are a parameter.
  What a system call returns is the environment's choice: each function takes a record of the
  results of its calls, and a loop takes a list of them, one per pass.
\<close>

section \<open>Model: state\<close>

record tcp_counters =
  st_tcp_accepts :: u64
  st_tcp_connect_failures :: u64
  st_tcp_drops_capacity :: u64
  st_tcp_connect_timeouts :: u64
  st_tcp_idle_timeouts :: u64
  st_tcp_fd_exhaustions :: u64
  st_tcp_token_delete_failures :: u64

record 'm tcp_worker_state =
  ws_conns :: "nat \<Rightarrow> tcp_connection"
  ws_listener4_ref :: tcp_fd_ref
  ws_listener6_ref :: tcp_fd_ref
  ws_active :: "nat option"
  ws_closed :: "nat option"
  ws_pipe_pool :: tcp_pipe_pool
  ws_next_deadline_ms :: u64
  ws_next_stats_publish_ms :: u64
  ws_listeners_resume_ms :: u64
  ws_spare_fd :: int
  ws_listeners_paused :: bool
  ws_socks_addr_len :: nat
  ws_budget :: "u64 bpf2socks_tcp_budget"
  ws_counters :: tcp_counters
  ws_bytes :: tcp_bytes
  ws_snapshot :: "(tcp_counters \<times> tcp_bytes) option"
  ws_tokens :: "'m token_state"
  ws_world :: tcp_world
  ws_epoll :: "int \<Rightarrow> u32"
  ws_open :: "int set"
  ws_linger :: "int set"
  ws_heap :: "nat set"

definition upd_conn :: "nat \<Rightarrow> (tcp_connection \<Rightarrow> tcp_connection) \<Rightarrow> 'm tcp_worker_state \<Rightarrow> 'm tcp_worker_state" where
  "upd_conn i f s = s\<lparr>ws_conns := (ws_conns s)(i := f (ws_conns s i))\<rparr>"

section \<open>Model: lists\<close>

definition active_add :: "'m tcp_worker_state \<Rightarrow> nat \<Rightarrow> 'm tcp_worker_state" where
  "active_add s i =
     (if tc_active_linked (ws_conns s i) then s
      else let s1 = upd_conn i (\<lambda>c. c\<lparr>tc_active_prev := None, tc_active_next := ws_active s\<rparr>) s;
               s2 = (case ws_active s1 of None \<Rightarrow> s1 | Some h \<Rightarrow> upd_conn h (\<lambda>c. c\<lparr>tc_active_prev := Some i\<rparr>) s1);
               s3 = s2\<lparr>ws_active := Some i\<rparr>
           in upd_conn i (\<lambda>c. c\<lparr>tc_active_linked := True\<rparr>) s3)"

definition active_remove :: "'m tcp_worker_state \<Rightarrow> nat \<Rightarrow> 'm tcp_worker_state" where
  "active_remove s i =
     (if \<not> tc_active_linked (ws_conns s i) then s
      else let s1 = (case tc_active_prev (ws_conns s i) of
                       Some p \<Rightarrow> upd_conn p (\<lambda>c. c\<lparr>tc_active_next := tc_active_next (ws_conns s i)\<rparr>) s
                     | None \<Rightarrow> s\<lparr>ws_active := tc_active_next (ws_conns s i)\<rparr>);
               s2 = (case tc_active_next (ws_conns s1 i) of
                       Some n \<Rightarrow> upd_conn n (\<lambda>c. c\<lparr>tc_active_prev := tc_active_prev (ws_conns s1 i)\<rparr>) s1
                     | None \<Rightarrow> s1)
           in upd_conn i (\<lambda>c. c\<lparr>tc_active_prev := None, tc_active_next := None, tc_active_linked := False\<rparr>) s2)"

definition closed_add :: "'m tcp_worker_state \<Rightarrow> nat \<Rightarrow> 'm tcp_worker_state" where
  "closed_add s i = (upd_conn i (\<lambda>c. c\<lparr>tc_next := ws_closed s\<rparr>) s)\<lparr>ws_closed := Some i\<rparr>"

section \<open>Model: closing\<close>

definition reset_on_close :: "int \<Rightarrow> 'm tcp_worker_state \<Rightarrow> 'm tcp_worker_state" where
  "reset_on_close fd s = (if fd < 0 then s else s\<lparr>ws_linger := insert fd (ws_linger s)\<rparr>)"

definition close_fd :: "int \<Rightarrow> 'm tcp_worker_state \<Rightarrow> 'm tcp_worker_state" where
  "close_fd fd s = (if fd \<ge> 0 then s\<lparr>ws_open := ws_open s - {fd}\<rparr> else s)"

definition forget_fd :: "int \<Rightarrow> 'm tcp_worker_state \<Rightarrow> 'm tcp_worker_state" where
  "forget_fd fd s = (if fd \<ge> 0 then close_fd fd (s\<lparr>ws_epoll := (ws_epoll s)(fd := 0)\<rparr>) else s)"

definition release_tcp_session :: "'m tcp_worker_state \<Rightarrow> nat \<Rightarrow> 'm tcp_worker_state" where
  "release_tcp_session s i =
     (if \<not> tc_session_reserved (ws_conns s i) then s
      else upd_conn i (\<lambda>c. c\<lparr>tc_session_reserved := False\<rparr>) (s\<lparr>ws_budget := release_tcp_session_budget (ws_budget s)\<rparr>))"

definition close_connection :: "'m tcp_worker_state \<Rightarrow> nat \<Rightarrow> 'm tcp_worker_state" where
  "close_connection s i =
     (if tc_closing (ws_conns s i) then s
      else let s1 = upd_conn i (\<lambda>c. c\<lparr>tc_closing := True,
                       tc_client_ref := (tc_client_ref c)\<lparr>fr_connection := None\<rparr>,
                       tc_upstream_ref := (tc_upstream_ref c)\<lparr>fr_connection := None\<rparr>\<rparr>) s;
               s2 = active_remove s1 i;
               s3 = release_tcp_session s2 i;
               s4 = upd_conn i (\<lambda>c. if tc_client_fd c \<ge> 0 then c\<lparr>tc_client_fd := -1\<rparr> else c)
                      (forget_fd (tc_client_fd (ws_conns s3 i)) s3);
               s5 = upd_conn i (\<lambda>c. if tc_upstream_fd c \<ge> 0 then c\<lparr>tc_upstream_fd := -1\<rparr> else c)
                      (forget_fd (tc_upstream_fd (ws_conns s4 i)) s4)
           in closed_add s5 i)"

definition reset_connection :: "'m tcp_worker_state \<Rightarrow> nat \<Rightarrow> tcp_side \<Rightarrow> 'm tcp_worker_state" where
  "reset_connection s i failed_side =
     (if tc_closing (ws_conns s i) then s
      else close_connection
        (reset_on_close (if failed_side = TCP_SIDE_CLIENT then tc_upstream_fd (ws_conns s i) else tc_client_fd (ws_conns s i)) s) i)"

text \<open>The number of the connection is free for reuse afterwards; nothing refers to it any more.\<close>

definition free_connection :: "'m tcp_worker_state \<Rightarrow> nat \<Rightarrow> 'm tcp_worker_state" where
  "free_connection s i =
     (let c = ws_conns s i;
          s1 = close_fd (tc_upstream_fd c) (close_fd (tc_client_fd c) s);
          (pool1, p1) = release_splice_pipe (ws_pipe_pool s1) (tc_client_to_upstream c);
          (pool2, p2) = release_splice_pipe pool1 (tc_upstream_to_client c)
      in upd_conn i (\<lambda>c. c\<lparr>tc_client_fd := -1, tc_upstream_fd := -1, tc_client_to_upstream := p1, tc_upstream_to_client := p2\<rparr>)
           (s1\<lparr>ws_pipe_pool := pool2, ws_heap := ws_heap s1 - {i}\<rparr>))"

partial_function (option) free_chain :: "nat option \<Rightarrow> 'm tcp_worker_state \<Rightarrow> 'm tcp_worker_state option" where
  "free_chain p s =
     (case p of
        None \<Rightarrow> Some s
      | Some i \<Rightarrow> free_chain (tc_next (ws_conns s i)) (free_connection s i))"

definition free_closed_connections :: "'m tcp_worker_state \<Rightarrow> 'm tcp_worker_state option" where
  "free_closed_connections s =
     (let s1 = s\<lparr>ws_closed := None\<rparr>;
          s2 = (if ws_closed s \<noteq> None \<and> ws_listeners_paused s then s1\<lparr>ws_listeners_resume_ms := 0\<rparr> else s1)
      in free_chain (ws_closed s) s2)"

partial_function (option) close_active_loop :: "'m tcp_worker_state \<Rightarrow> 'm tcp_worker_state option" where
  "close_active_loop s =
     (case ws_active s of
        None \<Rightarrow> Some s
      | Some i \<Rightarrow> close_active_loop (close_connection s i))"

definition close_all_active :: "'m tcp_worker_state \<Rightarrow> 'm tcp_worker_state option" where
  "close_all_active s = Option.bind (close_active_loop s) free_closed_connections"

section \<open>Model: deadlines\<close>

definition conn_deadline :: "bpf2socks_runtime_config \<Rightarrow> tcp_connection \<Rightarrow> u64" where
  "conn_deadline cf c = connection_deadline (rc_connect_timeout cf) (rc_tcp_idle_timeout cf) (tc_stage c = TCP_STAGE_RELAY)
     (tc_created_at_ms c) (tc_last_activity_ms c)"

definition conn_expired :: "bpf2socks_runtime_config \<Rightarrow> u64 \<Rightarrow> tcp_connection \<Rightarrow> bool" where
  "conn_expired cf now c = bpf2socks_deadline_tcp_expired now (tc_created_at_ms c) (tc_last_activity_ms c)
     (tc_stage c = TCP_STAGE_RELAY) (rc_connect_timeout cf) (rc_tcp_idle_timeout cf)"

definition note_connection_deadline :: "bpf2socks_runtime_config \<Rightarrow> 'm tcp_worker_state \<Rightarrow> nat \<Rightarrow> 'm tcp_worker_state" where
  "note_connection_deadline cf s i =
     (if tc_closing (ws_conns s i) then s
      else s\<lparr>ws_next_deadline_ms := bpf2socks_deadline_note (ws_next_deadline_ms s) (conn_deadline cf (ws_conns s i))\<rparr>)"

definition expire_one :: "bpf2socks_runtime_config \<Rightarrow> u64 \<Rightarrow> 'm tcp_worker_state \<Rightarrow> nat \<Rightarrow> 'm tcp_worker_state" where
  "expire_one cf now s i =
     (if conn_expired cf now (ws_conns s i) then
        (if tc_stage (ws_conns s i) = TCP_STAGE_RELAY
         then close_connection
                (s\<lparr>ws_counters := (ws_counters s)\<lparr>st_tcp_idle_timeouts := st_tcp_idle_timeouts (ws_counters s) + 1\<rparr>\<rparr>) i
         else reset_connection
                (s\<lparr>ws_counters := (ws_counters s)\<lparr>st_tcp_connect_timeouts := st_tcp_connect_timeouts (ws_counters s) + 1\<rparr>\<rparr>) i
                TCP_SIDE_UPSTREAM)
      else note_connection_deadline cf s i)"

partial_function (option) expire_loop :: "bpf2socks_runtime_config \<Rightarrow> u64 \<Rightarrow> nat option \<Rightarrow> 'm tcp_worker_state \<Rightarrow> 'm tcp_worker_state option" where
  "expire_loop cf now p s =
     (case p of
        None \<Rightarrow> Some s
      | Some i \<Rightarrow> expire_loop cf now (tc_active_next (ws_conns s i)) (expire_one cf now s i))"

definition expire_tcp_connections :: "bpf2socks_runtime_config \<Rightarrow> 'm tcp_worker_state \<Rightarrow> u64 \<Rightarrow> 'm tcp_worker_state option" where
  "expire_tcp_connections cf s now =
     (if now = 0 \<or> now < ws_next_deadline_ms s then Some s
      else expire_loop cf now (ws_active s) (s\<lparr>ws_next_deadline_ms := NO_DEADLINE\<rparr>))"

section \<open>Model: epoll registrations and listeners\<close>

text \<open>
  The result of \<open>epoll_ctl\<close> is \<open>None\<close> on success or its error. \<open>mod_fd\<close> removes a descriptor whose
  events become 0, adds one whose events were 0 and modifies it otherwise.
\<close>

definition add_fd :: "errno option \<Rightarrow> int \<Rightarrow> tcp_fd_ref \<Rightarrow> u32 \<Rightarrow> (int \<Rightarrow> u32) \<Rightarrow> errno option \<times> tcp_fd_ref \<times> (int \<Rightarrow> u32)" where
  "add_fd ctl fd ref events ep =
     (if ctl \<noteq> None then (ctl, ref, ep) else (None, ref\<lparr>fr_events := events\<rparr>, ep(fd := events)))"

definition mod_fd :: "errno option \<Rightarrow> int \<Rightarrow> tcp_fd_ref \<Rightarrow> u32 \<Rightarrow> (int \<Rightarrow> u32) \<Rightarrow> errno option \<times> tcp_fd_ref \<times> (int \<Rightarrow> u32)" where
  "mod_fd ctl fd ref events ep =
     (if fr_events ref = events then (None, ref, ep)
      else if ctl \<noteq> None then (ctl, ref, ep)
      else (None, ref\<lparr>fr_events := events\<rparr>, ep(fd := events)))"

text \<open>What the calls of pausing or resuming return; \<open>lc_spare\<close> is the descriptor of \<open>open_spare_fd\<close>.\<close>

record listener_env =
  lc_now :: u64
  lc_ctl4 :: "errno option"
  lc_ctl6 :: "errno option"
  lc_spare :: int

definition mod_listeners :: "listener_env \<Rightarrow> u32 \<Rightarrow> 'm tcp_worker_state \<Rightarrow> bool \<times> 'm tcp_worker_state" where
  "mod_listeners env events s =
     (let changes = (\<lambda>ref. (fr_events ref \<noteq> 0) \<noteq> (events \<noteq> 0));
          (e4, r4, ep4) = (if changes (ws_listener4_ref s)
             then mod_fd (lc_ctl4 env) (fr_fd (ws_listener4_ref s)) (ws_listener4_ref s) events (ws_epoll s)
             else (None, ws_listener4_ref s, ws_epoll s));
          (e6, r6, ep6) = (if fr_fd (ws_listener6_ref s) \<ge> 0 \<and> changes (ws_listener6_ref s)
             then mod_fd (lc_ctl6 env) (fr_fd (ws_listener6_ref s)) (ws_listener6_ref s) events ep4
             else (None, ws_listener6_ref s, ep4))
      in (e4 = None \<and> e6 = None, s\<lparr>ws_listener4_ref := r4, ws_listener6_ref := r6, ws_epoll := ep6\<rparr>))"

definition pause_tcp_listeners :: "listener_env \<Rightarrow> 'm tcp_worker_state \<Rightarrow> 'm tcp_worker_state" where
  "pause_tcp_listeners env s =
     (if ws_listeners_paused s then s
      else case mod_listeners env 0 s of
        (False, s1) \<Rightarrow> s1
      | (True, s1) \<Rightarrow> s1\<lparr>ws_listeners_paused := True,
                         ws_listeners_resume_ms := lc_now env + word_of_int TCP_FD_BACKOFF_MILLISECONDS\<rparr>)"

definition resume_tcp_listeners_if_due :: "listener_env \<Rightarrow> 'm tcp_worker_state \<Rightarrow> 'm tcp_worker_state" where
  "resume_tcp_listeners_if_due env s =
     (let later = lc_now env + word_of_int TCP_FD_BACKOFF_MILLISECONDS in
      if \<not> ws_listeners_paused s then s
      else if lc_now env = 0 \<or> lc_now env < ws_listeners_resume_ms s then s
      else let s1 = (if ws_spare_fd s < 0 then s\<lparr>ws_spare_fd := lc_spare env\<rparr> else s) in
        if ws_spare_fd s1 < 0 then s1\<lparr>ws_listeners_resume_ms := later\<rparr>
        else case mod_listeners env 0x1 s1 of
          (True, s2) \<Rightarrow> s2\<lparr>ws_listeners_paused := False, ws_listeners_resume_ms := 0\<rparr>
        | (False, s2) \<Rightarrow> s2\<lparr>ws_listeners_resume_ms := later\<rparr>)"

text \<open>The loop that accepts and drops one client on the spare descriptor: its last result.\<close>

fun accept_spare :: "(errno + int) list \<Rightarrow> (errno + int) option" where
  "accept_spare [] = None"
| "accept_spare (r # rs) = (if r = Inl EINTR then accept_spare rs else Some r)"

definition count_fd_exhaustion :: "'m tcp_worker_state \<Rightarrow> 'm tcp_worker_state" where
  "count_fd_exhaustion s = s\<lparr>ws_counters := (ws_counters s)\<lparr>st_tcp_fd_exhaustions := st_tcp_fd_exhaustions (ws_counters s) + 1\<rparr>\<rparr>"

definition handle_accept_fd_exhaustion ::
  "(errno + int) list \<Rightarrow> listener_env \<Rightarrow> 'm tcp_worker_state \<Rightarrow> 'm tcp_worker_state option" where
  "handle_accept_fd_exhaustion accepts env s =
     (case accept_spare accepts of
        None \<Rightarrow> None
      | Some _ \<Rightarrow> Some (pause_tcp_listeners env ((count_fd_exhaustion s)\<lparr>ws_spare_fd := lc_spare env\<rparr>)))"

definition record_fd_exhaustion :: "listener_env \<Rightarrow> 'm tcp_worker_state \<Rightarrow> 'm tcp_worker_state" where
  "record_fd_exhaustion env s = pause_tcp_listeners env (count_fd_exhaustion s)"

section \<open>Model: accepting\<close>

text \<open>A socket that is opened has neither history nor linger setting.\<close>

definition open_fd :: "int \<Rightarrow> 'm tcp_worker_state \<Rightarrow> 'm tcp_worker_state" where
  "open_fd fd s = s\<lparr>ws_open := insert fd (ws_open s), ws_linger := ws_linger s - {fd},
     ws_epoll := (ws_epoll s)(fd := 0),
     ws_world := (ws_world s)\<lparr>w_read := (w_read (ws_world s))(fd := []), w_sent := (w_sent (ws_world s))(fd := []),
                              w_shut := (w_shut (ws_world s))(fd := False)\<rparr>\<rparr>"

text \<open>
  The results of one pass of the accept loop. \<open>ae_calloc\<close> is the number of the new connection;
  \<open>ae_errno\<close> what \<open>errno\<close> holds after a handshake that cannot be started or written.
\<close>

record accept_env =
  ae_stop :: bool
  ae_accept :: "errno + int \<times> sockaddr_storage"
  ae_getsockname :: "sockaddr_storage option"
  ae_so_original_dst :: "sockaddr_storage option"
  ae_so_original_dst6 :: "sockaddr_storage option"
  ae_getsockname2 :: "sockaddr_storage option"
  ae_calloc :: "nat option"
  ae_now :: u64
  ae_socket :: "errno + int"
  ae_connect :: "errno option"
  ae_sends :: "write_result list"
  ae_errno :: errno
  ae_add_client :: "errno option"
  ae_add_upstream :: "errno option"
  ae_spare_accepts :: "(errno + int) list"
  ae_listeners :: listener_env

definition connect_nonblocking_addr ::
  "accept_env \<Rightarrow> 'm tcp_worker_state \<Rightarrow> (errno + int \<times> tcp_stage) \<times> 'm tcp_worker_state" where
  "connect_nonblocking_addr env s =
     (if ws_socks_addr_len s = 0 then (Inl EINVAL, s)
      else case ae_socket env of
        Inl e \<Rightarrow> (Inl e, s)
      | Inr fd \<Rightarrow>
          let s1 = open_fd fd s in
          (case ae_connect env of
             None \<Rightarrow> (Inr (fd, TCP_STAGE_REQUEST_WRITE), s1)
           | Some e \<Rightarrow>
               if e = EINPROGRESS then (Inr (fd, TCP_STAGE_CONNECTING), s1)
               else (Inl e, close_fd fd s1)))"

definition new_connection :: "nat \<Rightarrow> int \<Rightarrow> bpf2socks_sockaddr \<Rightarrow> u64 \<Rightarrow> tcp_connection" where
  "new_connection i client_fd dst now =
     \<lparr>tc_client_fd = client_fd, tc_upstream_fd = -1, tc_stage = TCP_STAGE_CONNECTING, tc_closing = False,
      tc_session_reserved = False,
      tc_client_ref = \<lparr>fr_connection = Some i, fr_side = TCP_SIDE_CLIENT, fr_fd = client_fd, fr_events = 0\<rparr>,
      tc_upstream_ref = \<lparr>fr_connection = Some i, fr_side = TCP_SIDE_UPSTREAM, fr_fd = 0, fr_events = 0\<rparr>,
      tc_client_to_upstream = init_splice_pipe, tc_upstream_to_client = init_splice_pipe, tc_target = dst,
      tc_handshake = [], tc_handshake_offset = 0, tc_response = [], tc_response_expected = 0,
      tc_created_at_ms = now, tc_last_activity_ms = now, tc_active_linked = False, tc_active_prev = None,
      tc_active_next = None, tc_next = None\<rparr>"

text \<open>
  The connection's number or \<open>errno\<close>; \<open>None\<close> when the loop of the handshake does not return.
  A connection that is given up is freed with its client reset.
\<close>

definition give_up :: "'m tcp_worker_state \<Rightarrow> nat \<Rightarrow> 'm tcp_worker_state" where
  "give_up s i = free_connection (reset_on_close (tc_client_fd (ws_conns s i)) s) i"

definition write_handshake_now ::
  "accept_env \<Rightarrow> 'm tcp_worker_state \<Rightarrow> nat \<Rightarrow> ((errno + nat) \<times> 'm tcp_worker_state) option" where
  "write_handshake_now env s i =
     (case start_handshake (ws_conns s i) of
        None \<Rightarrow> Some (Inl (ae_errno env), give_up s i)
      | Some c1 \<Rightarrow>
          (case flush_handshake (ae_now env) (ae_sends env) c1 (ws_world s) of
             None \<Rightarrow> None
           | Some (ok, c2, w2) \<Rightarrow>
               let s1 = upd_conn i (\<lambda>_. c2) (s\<lparr>ws_world := w2\<rparr>) in
               if ok then Some (Inr i, s1) else Some (Inl (ae_errno env), give_up s1 i)))"

definition create_connection ::
  "accept_env \<Rightarrow> 'm tcp_worker_state \<Rightarrow> int \<Rightarrow> bpf2socks_sockaddr \<Rightarrow> ((errno + nat) \<times> 'm tcp_worker_state) option" where
  "create_connection env s client_fd dst =
     (case ae_calloc env of
        None \<Rightarrow> Some (Inl ENOMEM, close_fd client_fd s)
      | Some i \<Rightarrow>
          let s1 = (upd_conn i (\<lambda>_. new_connection i client_fd dst (ae_now env)) s)\<lparr>ws_heap := insert i (ws_heap s)\<rparr> in
          (case connect_nonblocking_addr env s1 of
             (Inl e, s2) \<Rightarrow> Some (Inl e, give_up s2 i)
           | (Inr (fd, stage), s2) \<Rightarrow>
               let s3 = upd_conn i (\<lambda>c. c\<lparr>tc_upstream_fd := fd, tc_stage := stage,
                            tc_upstream_ref := (tc_upstream_ref c)\<lparr>fr_fd := fd\<rparr>\<rparr>) s2 in
               if stage \<noteq> TCP_STAGE_REQUEST_WRITE then Some (Inr i, s3) else write_handshake_now env s3 i))"

definition client_original_dst ::
  "'m token_ops \<Rightarrow> bpf2socks_runtime_config \<Rightarrow> accept_env \<Rightarrow> sockaddr_storage \<Rightarrow> 'm tcp_worker_state \<Rightarrow>
   bpf2socks_sockaddr option \<times> 'm tcp_worker_state" where
  "client_original_dst ops cf env peer s =
     (let to_sockaddr = (\<lambda>d. case bpf2socks_original_dst_to_sockaddr d of Inl _ \<Rightarrow> None | Inr a \<Rightarrow> Some a) in
      case fill_tcp_token_key (ae_getsockname env) peer of
        None \<Rightarrow> (None, s)
      | Some key \<Rightarrow>
          (case lookup_original_with_client_fallback ops (ws_tokens s) key of
             (Some (d, delete_failed), t) \<Rightarrow>
               (to_sockaddr d, s\<lparr>ws_tokens := t,
                  ws_counters := (if delete_failed then (ws_counters s)\<lparr>st_tcp_token_delete_failures :=
                                    st_tcp_token_delete_failures (ws_counters s) + 1\<rparr> else ws_counters s)\<rparr>)
           | (None, t) \<Rightarrow>
               (Option.bind (lookup_tcp_original_from_socket (ae_so_original_dst env) (ae_so_original_dst6 env)
                               (ae_getsockname2 env) cf) to_sockaddr, s\<lparr>ws_tokens := t\<rparr>)))"

text \<open>
  The registration of a new connection and its error path: whether the loop goes on. The second
  descriptor is only added when the first one was.
\<close>

definition out_of_fds :: "errno \<Rightarrow> bool" where
  "out_of_fds e \<longleftrightarrow> e = EMFILE \<or> e = ENFILE"

definition register_connection :: "accept_env \<Rightarrow> 'm tcp_worker_state \<Rightarrow> nat \<Rightarrow> bool \<times> 'm tcp_worker_state" where
  "register_connection env s i =
     (let c = ws_conns s i;
          (e1, r1, ep1) = add_fd (ae_add_client env) (tc_client_fd c) (tc_client_ref c) (client_events c) (ws_epoll s);
          (e2, r2, ep2) = (if e1 \<noteq> None then (e1, tc_upstream_ref c, ep1)
             else add_fd (ae_add_upstream env) (tc_upstream_fd c) (tc_upstream_ref c) (upstream_events c) ep1);
          s1 = upd_conn i (\<lambda>c. c\<lparr>tc_client_ref := r1, tc_upstream_ref := r2\<rparr>) (s\<lparr>ws_epoll := ep2\<rparr>)
      in case e2 of
           None \<Rightarrow> (True, s1)
         | Some e \<Rightarrow>
             let s2 = close_connection s1 i in
             if out_of_fds e then (False, record_fd_exhaustion (ae_listeners env) s2) else (True, s2))"

definition admit_client ::
  "bpf2socks_runtime_config \<Rightarrow> accept_env \<Rightarrow> 'm tcp_worker_state \<Rightarrow> int \<Rightarrow> bpf2socks_sockaddr \<Rightarrow> (bool \<times> 'm tcp_worker_state) option" where
  "admit_client cf env s client dst =
     (case create_connection env s client dst of
        None \<Rightarrow> None
      | Some (Inl saved, s1) \<Rightarrow>
          let s2 = s1\<lparr>ws_budget := release_tcp_session_budget (ws_budget s1)\<rparr> in
          if out_of_fds saved then Some (False, record_fd_exhaustion (ae_listeners env) s2)
          else Some (True, s2\<lparr>ws_counters := (ws_counters s2)\<lparr>st_tcp_connect_failures := st_tcp_connect_failures (ws_counters s2) + 1\<rparr>\<rparr>)
      | Some (Inr i, s1) \<Rightarrow>
          let s2 = active_add (upd_conn i (\<lambda>c. c\<lparr>tc_session_reserved := True\<rparr>) s1) i in
          Some (register_connection env (note_connection_deadline cf s2 i) i))"

text \<open>One pass of \<open>accept_ready_clients\<close>: whether the loop goes on.\<close>

definition drop_client :: "int \<Rightarrow> 'm tcp_worker_state \<Rightarrow> 'm tcp_worker_state" where
  "drop_client client s = close_fd client (reset_on_close client s)"

definition accept_one ::
  "'m token_ops \<Rightarrow> bpf2socks_runtime_config \<Rightarrow> accept_env \<Rightarrow> 'm tcp_worker_state \<Rightarrow> (bool \<times> 'm tcp_worker_state) option" where
  "accept_one ops cf env s =
     (if ae_stop env then Some (False, s)
      else case ae_accept env of
        Inl e \<Rightarrow>
          if e = EAGAIN then Some (False, s)
          else if e = EINTR then Some (True, s)
          else if out_of_fds e then map_option (Pair False) (handle_accept_fd_exhaustion (ae_spare_accepts env) (ae_listeners env) s)
          else Some (False, s)
      | Inr (client, peer) \<Rightarrow>
          let s1 = (open_fd client s)\<lparr>ws_counters := (ws_counters s)\<lparr>st_tcp_accepts := st_tcp_accepts (ws_counters s) + 1\<rparr>\<rparr> in
          (case client_original_dst ops cf env peer s1 of
             (None, s2) \<Rightarrow> Some (True, drop_client client s2)
           | (Some dst, s2) \<Rightarrow>
               (case reserve_tcp_session (ws_budget s2) of
                  (False, _) \<Rightarrow> Some (True, drop_client client
                     (s2\<lparr>ws_counters := (ws_counters s2)\<lparr>st_tcp_drops_capacity := st_tcp_drops_capacity (ws_counters s2) + 1\<rparr>\<rparr>))
                | (True, b) \<Rightarrow> admit_client cf env (s2\<lparr>ws_budget := b\<rparr>) client dst)))"

primrec accept_ready_clients ::
  "'m token_ops \<Rightarrow> bpf2socks_runtime_config \<Rightarrow> accept_env list \<Rightarrow> 'm tcp_worker_state \<Rightarrow> 'm tcp_worker_state option" where
  "accept_ready_clients ops cf [] s = None"
| "accept_ready_clients ops cf (env # envs) s =
     (case accept_one ops cf env s of
        None \<Rightarrow> None
      | Some (False, s1) \<Rightarrow> Some s1
      | Some (True, s1) \<Rightarrow> accept_ready_clients ops cf envs s1)"

section \<open>Model: events and the loop of a worker\<close>

definition update_connection_events ::
  "errno option \<Rightarrow> errno option \<Rightarrow> 'm tcp_worker_state \<Rightarrow> nat \<Rightarrow> 'm tcp_worker_state" where
  "update_connection_events ctl1 ctl2 s i =
     (let c = ws_conns s i in
      if tc_closing c then s
      else let (_, r1, ep1) = mod_fd ctl1 (tc_client_fd c) (tc_client_ref c) (client_events c) (ws_epoll s);
               (_, r2, ep2) = mod_fd ctl2 (tc_upstream_fd c) (tc_upstream_ref c) (upstream_events c) ep1
           in upd_conn i (\<lambda>c. c\<lparr>tc_client_ref := r1, tc_upstream_ref := r2\<rparr>) (s\<lparr>ws_epoll := ep2\<rparr>))"

text \<open>The pointer that epoll returns with an event: null for the stop event, or one of the references.\<close>

datatype event_ptr = Null_Ref | Listener4_Ref | Listener6_Ref | Client_Ref nat | Upstream_Ref nat

primrec deref :: "'m tcp_worker_state \<Rightarrow> event_ptr \<Rightarrow> tcp_fd_ref option" where
  "deref s Null_Ref = None"
| "deref s Listener4_Ref = Some (ws_listener4_ref s)"
| "deref s Listener6_Ref = Some (ws_listener6_ref s)"
| "deref s (Client_Ref i) = Some (tc_client_ref (ws_conns s i))"
| "deref s (Upstream_Ref i) = Some (tc_upstream_ref (ws_conns s i))"

record event_env =
  ee_accepts :: "accept_env list"
  ee_tcp :: tcp_env
  ee_ctl_client :: "errno option"
  ee_ctl_upstream :: "errno option"

definition carry_out :: "tcp_verdict \<Rightarrow> 'm tcp_worker_state \<Rightarrow> nat \<Rightarrow> 'm tcp_worker_state" where
  "carry_out v s i =
     (case v of
        Verdict_Keep \<Rightarrow> s
      | Verdict_Close \<Rightarrow> close_connection s i
      | Verdict_Reset side \<Rightarrow> reset_connection s i side)"

definition run_handler :: "tcp_env \<Rightarrow> tcp_side \<Rightarrow> u32 \<Rightarrow> 'm tcp_worker_state \<Rightarrow> nat \<Rightarrow> 'm tcp_worker_state option" where
  "run_handler env side events s i =
     (case connection_event env side events (ws_pipe_pool s) (ws_conns s i) (ws_bytes s) (ws_world s) of
        None \<Rightarrow> None
      | Some (v, failed, pool, c, n, w) \<Rightarrow>
          let s1 = upd_conn i (\<lambda>_. c) (s\<lparr>ws_pipe_pool := pool, ws_bytes := n, ws_world := w\<rparr>);
              s2 = (if failed then s1\<lparr>ws_counters := (ws_counters s1)\<lparr>st_tcp_connect_failures :=
                                        st_tcp_connect_failures (ws_counters s1) + 1\<rparr>\<rparr> else s1)
          in Some (carry_out v s2 i))"

definition handle_connection_event ::
  "'m token_ops \<Rightarrow> bpf2socks_runtime_config \<Rightarrow> event_env \<Rightarrow> event_ptr \<Rightarrow> u32 \<Rightarrow> 'm tcp_worker_state \<Rightarrow> 'm tcp_worker_state option" where
  "handle_connection_event ops cf env p events s =
     (case deref s p of
        None \<Rightarrow> Some s
      | Some ref \<Rightarrow>
          if fr_side ref = TCP_SIDE_LISTENER then
            (if \<not> ws_listeners_paused s \<and> events AND 0x1 \<noteq> 0 then accept_ready_clients ops cf (ee_accepts env) s else Some s)
          else case fr_connection ref of
            None \<Rightarrow> Some s
          | Some i \<Rightarrow>
              (case run_handler (ee_tcp env) (fr_side ref) events s i of
                 None \<Rightarrow> None
               | Some s1 \<Rightarrow>
                   Some (note_connection_deadline cf (update_connection_events (ee_ctl_client env) (ee_ctl_upstream env) s1 i) i)))"

primrec handle_events ::
  "'m token_ops \<Rightarrow> bpf2socks_runtime_config \<Rightarrow> (event_ptr \<times> u32 \<times> event_env) list \<Rightarrow> 'm tcp_worker_state \<Rightarrow> 'm tcp_worker_state option" where
  "handle_events ops cf [] s = Some s"
| "handle_events ops cf (x # xs) s =
     (case x of (p, events, env) \<Rightarrow>
        (case handle_connection_event ops cf env p events s of
           None \<Rightarrow> None
         | Some s1 \<Rightarrow> handle_events ops cf xs s1))"

text \<open>\<open>bpf2socks_bridge_publish_tcp_stats\<close> copies the counters of the worker.\<close>

definition publish_tcp_stats_if_due :: "bpf2socks_runtime_config \<Rightarrow> u64 \<Rightarrow> bool \<Rightarrow> 'm tcp_worker_state \<Rightarrow> 'm tcp_worker_state" where
  "publish_tcp_stats_if_due cf now force s =
     (if \<not> rc_debug_stats cf then s
      else if \<not> force \<and> (now = 0 \<or> ws_next_stats_publish_ms s \<noteq> 0 \<and> now < ws_next_stats_publish_ms s) then s
      else let s1 = s\<lparr>ws_snapshot := Some (ws_counters s, ws_bytes s)\<rparr> in
        if now \<noteq> 0 then s1\<lparr>ws_next_stats_publish_ms := now + 250\<rparr> else s1)"

definition close_pipe_pool :: "'m tcp_worker_state \<Rightarrow> 'm tcp_worker_state" where
  "close_pipe_pool s = s\<lparr>ws_pipe_pool := []\<rparr>"

text \<open>
  One pass of the worker's loop. \<open>le_stop1\<close> and \<open>le_stop2\<close> are the two tests of the stop flag,
  \<open>le_wait\<close> what \<open>epoll_wait\<close> returns.
\<close>

record loop_env =
  le_stop1 :: bool
  le_resume1 :: listener_env
  le_wait :: "errno + (event_ptr \<times> u32 \<times> event_env) list"
  le_stop2 :: bool
  le_now :: u64
  le_resume2 :: listener_env

datatype loop_next = Loop_Again | Loop_Stop | Loop_Failed errno

definition worker_pass ::
  "'m token_ops \<Rightarrow> bpf2socks_runtime_config \<Rightarrow> loop_env \<Rightarrow> 'm tcp_worker_state \<Rightarrow> (loop_next \<times> 'm tcp_worker_state) option" where
  "worker_pass ops cf env s =
     (if le_stop1 env then Some (Loop_Stop, s)
      else let s1 = resume_tcp_listeners_if_due (le_resume1 env) s in
        case le_wait env of
          Inl e \<Rightarrow> Some (if e = EINTR then Loop_Again else Loop_Failed e, s1)
        | Inr evs \<Rightarrow>
            if le_stop2 env then Some (Loop_Stop, s1)
            else
              (case handle_events ops cf evs s1 of
                 None \<Rightarrow> None
               | Some s2 \<Rightarrow>
                   (case expire_tcp_connections cf (resume_tcp_listeners_if_due (le_resume2 env) s2) (le_now env) of
                      None \<Rightarrow> None
                    | Some s3 \<Rightarrow>
                        map_option (Pair Loop_Again) (free_closed_connections (publish_tcp_stats_if_due cf (le_now env) False s3)))))"

primrec worker_loop ::
  "'m token_ops \<Rightarrow> bpf2socks_runtime_config \<Rightarrow> loop_env list \<Rightarrow> 'm tcp_worker_state \<Rightarrow> (errno option \<times> 'm tcp_worker_state) option" where
  "worker_loop ops cf [] s = None"
| "worker_loop ops cf (env # envs) s =
     (case worker_pass ops cf env s of
        None \<Rightarrow> None
      | Some (Loop_Stop, s1) \<Rightarrow> Some (None, s1)
      | Some (Loop_Failed e, s1) \<Rightarrow> Some (Some e, s1)
      | Some (Loop_Again, s1) \<Rightarrow> worker_loop ops cf envs s1)"

text \<open>The state before the loop, from the worker's descriptors, budget, counters and token map.\<close>

definition initial_worker ::
  "int \<Rightarrow> int \<Rightarrow> nat \<Rightarrow> u64 bpf2socks_tcp_budget \<Rightarrow> tcp_counters \<Rightarrow> tcp_bytes \<Rightarrow> 'm token_state \<Rightarrow> tcp_world \<Rightarrow> 'm tcp_worker_state" where
  "initial_worker listener4 listener6 addr_len budget counters byte_counts tokens world =
     \<lparr>ws_conns = (\<lambda>i. new_connection i (-1) \<lparr>sa_family = 0, sa_port = 0, sa_addr = zero_bytes 16\<rparr> 0),
      ws_listener4_ref = \<lparr>fr_connection = None, fr_side = TCP_SIDE_LISTENER, fr_fd = listener4, fr_events = 0\<rparr>,
      ws_listener6_ref = \<lparr>fr_connection = None, fr_side = TCP_SIDE_LISTENER, fr_fd = listener6, fr_events = 0\<rparr>,
      ws_active = None, ws_closed = None, ws_pipe_pool = [], ws_next_deadline_ms = NO_DEADLINE,
      ws_next_stats_publish_ms = 0, ws_listeners_resume_ms = 0, ws_spare_fd = -1, ws_listeners_paused = False,
      ws_socks_addr_len = addr_len, ws_budget = budget, ws_counters = counters, ws_bytes = byte_counts, ws_snapshot = None,
      ws_tokens = tokens, ws_world = world, ws_epoll = (\<lambda>_. 0), ws_open = {}, ws_linger = {}, ws_heap = {}\<rparr>"

text \<open>Whether the listeners and the spare descriptor could be set up; on failure \<open>epoll\<close> is closed again.\<close>

record setup_env =
  su_epoll_create :: "errno option"
  su_stop_fd :: int
  su_add_stop :: "errno option"
  su_add4 :: "errno option"
  su_add6 :: "errno option"
  su_spare :: int

definition worker_setup :: "setup_env \<Rightarrow> 'm tcp_worker_state \<Rightarrow> 'm tcp_worker_state option" where
  "worker_setup env s =
     (if fr_fd (ws_listener4_ref s) < 0 \<or> su_epoll_create env \<noteq> None \<or> su_stop_fd env < 0 \<or> su_add_stop env \<noteq> None then None
      else
        let (e4, r4, ep4) = add_fd (su_add4 env) (fr_fd (ws_listener4_ref s)) (ws_listener4_ref s) 0x1 (ws_epoll s);
            (e6, r6, ep6) = (if e4 = None \<and> fr_fd (ws_listener6_ref s) \<ge> 0
               then add_fd (su_add6 env) (fr_fd (ws_listener6_ref s)) (ws_listener6_ref s) 0x1 ep4
               else (e4, ws_listener6_ref s, ep4))
        in if e6 \<noteq> None \<or> su_spare env < 0 then None
           else Some (s\<lparr>ws_listener4_ref := r4, ws_listener6_ref := r6, ws_epoll := ep6, ws_spare_fd := su_spare env\<rparr>))"

definition worker_teardown :: "bpf2socks_runtime_config \<Rightarrow> u64 \<Rightarrow> 'm tcp_worker_state \<Rightarrow> 'm tcp_worker_state option" where
  "worker_teardown cf now s =
     (case close_all_active s of
        None \<Rightarrow> None
      | Some s1 \<Rightarrow>
          Some ((publish_tcp_stats_if_due cf now True (close_pipe_pool s1))\<lparr>ws_spare_fd := -1, ws_epoll := (\<lambda>_. 0)\<rparr>))"

text \<open>
  The whole run: \<open>Inl ()\<close> when the setup fails, otherwise the error of \<open>epoll_wait\<close>, if any, and
  the state at the end; \<open>None\<close> when the run is not over.
\<close>

definition bpf2socks_bridge_tcp_run ::
  "'m token_ops \<Rightarrow> bpf2socks_runtime_config \<Rightarrow> setup_env \<Rightarrow> loop_env list \<Rightarrow> u64 \<Rightarrow> 'm tcp_worker_state \<Rightarrow>
   (unit + errno option \<times> 'm tcp_worker_state) option" where
  "bpf2socks_bridge_tcp_run ops cf su envs now s =
     (case worker_setup su s of
        None \<Rightarrow> Some (Inl ())
      | Some s1 \<Rightarrow>
          (case worker_loop ops cf envs s1 of
             None \<Rightarrow> None
           | Some (e, s2) \<Rightarrow> map_option (\<lambda>s3. Inr (e, s3)) (worker_teardown cf now s2)))"

end
