(* ===== verification/Tcp_Stream_Correct.thy ===== *)
theory Tcp_Stream_Correct
  imports Tcp_Stream "HOL-Library.Code_Target_Nat"
begin

text \<open>
  Correctness of one relayed connection of \<^verbatim>\<open>bridge/tcp.c\<close>: the bytes of both streams are kept in
  order and none is lost or duplicated between the sockets and the kernel pipes, from the
  handshake to the end of the relay, whatever the system calls return; a direction is shut down
  only after its last byte; a direction that is not finished always has an event armed that can
  move it on; and the pipelined replies are recognised independently of how they are segmented.
\<close>

section \<open>One direction\<close>

text \<open>
  The bytes that one direction moves from socket \<open>s\<close> to socket \<open>t\<close>: what was read from \<open>s\<close>, less
  \<open>pre_s\<close>, is what was sent to \<open>t\<close>, less \<open>pre_t\<close>, followed by what is in the pipe.
\<close>

definition direction_ok :: "tcp_splice_pipe \<Rightarrow> int \<Rightarrow> int \<Rightarrow> bytes \<Rightarrow> bytes \<Rightarrow> tcp_world \<Rightarrow> bool" where
  "direction_ok p s t pre_s pre_t w \<longleftrightarrow>
     sp_queued p = length (w_pipe w (pipe_id p)) \<and>
     (\<exists>x. w_sent w t = pre_t @ x \<and> w_read w s = pre_s @ x @ w_pipe w (pipe_id p)) \<and>
     w_shut w t = sp_output_shutdown p \<and>
     (sp_output_shutdown p \<longrightarrow> sp_input_eof p \<and> sp_queued p = 0) \<and>
     (sp_input_paused p \<longrightarrow> sp_queued p > 0)"

lemma pipe_id_simps [simp]:
  "pipe_id (p\<lparr>sp_queued := q\<rparr>) = pipe_id p" "pipe_id (p\<lparr>sp_input_eof := b\<rparr>) = pipe_id p"
  "pipe_id (p\<lparr>sp_input_paused := b\<rparr>) = pipe_id p" "pipe_id (p\<lparr>sp_output_shutdown := b\<rparr>) = pipe_id p"
  by (simp_all add: pipe_id_def)

lemma fill_read_append:
  "fill_pipe i b (read_bytes fd b (fill_pipe i a (read_bytes fd a w))) = fill_pipe i (a @ b) (read_bytes fd (a @ b) w)"
  by (simp add: fill_pipe_def read_bytes_def)

lemma fill_read_Nil: "fill_pipe i [] (read_bytes fd [] w) = w"
  by (simp add: fill_pipe_def read_bytes_def)

text \<open>What a pass from a socket into the pipe does: it appends the bytes \<open>bs\<close>.\<close>

definition took_in :: "int \<Rightarrow> bytes \<Rightarrow> tcp_splice_pipe \<Rightarrow> tcp_world \<Rightarrow> tcp_splice_pipe \<Rightarrow> tcp_world \<Rightarrow> bool" where
  "took_in fd bs p w p' w' \<longleftrightarrow>
     w' = fill_pipe (pipe_id p) bs (read_bytes fd bs w) \<and> pipe_id p' = pipe_id p \<and> sp_capacity p' = sp_capacity p \<and>
     sp_queued p' = sp_queued p + length bs \<and> sp_output_shutdown p' = sp_output_shutdown p \<and>
     (sp_input_eof p \<longrightarrow> sp_input_eof p') \<and> (sp_input_paused p' \<longrightarrow> sp_input_paused p \<or> sp_queued p' > 0)"

lemma took_in_trans:
  assumes "took_in fd a p w p1 w1" "took_in fd b p1 w1 p2 w2"
  shows "took_in fd (a @ b) p w p2 w2"
  using assms by (auto simp: took_in_def fill_read_append)

lemma splice_in_loop_took:
  assumes "splice_socket_to_pipe_loop rs unread fd moved p w = Some (ok, moved', p', w')"
  shows "\<exists>bs. took_in fd bs p w p' w'"
  using assms
proof (induction rs unread fd moved p w rule: splice_socket_to_pipe_loop.induct)
  case (2 r rest unread fd moved p w)
  show ?case
  proof (cases r)
    case (Read bs)
    define m where "m = take (sp_capacity p) bs"
    define p1 where "p1 = p\<lparr>sp_queued := sp_queued p + length m\<rparr>"
    define w1 where "w1 = fill_pipe (pipe_id p) m (read_bytes fd m w)"
    have t: "took_in fd m p w p1 w1" by (simp add: took_in_def p1_def w1_def)
    show ?thesis
    proof (cases "bs \<noteq> [] \<and> \<not> length m < sp_capacity p")
      case True
      then have rec: "splice_socket_to_pipe_loop rest unread fd True p1 w1 = Some (ok, moved', p', w')"
        using "2.prems" Read by (simp add: Let_def m_def p1_def w1_def)
      obtain bs' where "took_in fd bs' p1 w1 p' w'"
        using "2.IH"(1) [OF Read _ m_def p1_def w1_def _ rec] True by blast
      then show ?thesis using took_in_trans [OF t] by blast
    next
      case False
      show ?thesis
      proof (cases "bs = []")
        case True
        then show ?thesis using "2.prems" Read by (intro exI [of _ "[]"]) (auto simp: took_in_def fill_read_Nil)
      next
        case ne: False
        then have "p' = p1" "w' = w1" using False "2.prems" Read by (auto simp: Let_def m_def p1_def w1_def split: if_splits)
        then show ?thesis using t by blast
      qed
    qed
  next
    case (Read_Error e)
    have "took_in fd [] p w p' w'" if "e \<noteq> EINTR"
      using that "2.prems" Read_Error by (auto simp: took_in_def fill_read_Nil split: if_splits)
    then show ?thesis using "2.prems" Read_Error "2.IH"(2) by (cases "e = EINTR") auto
  qed
qed simp

lemma splice_in_took:
  assumes "splice_socket_to_pipe rs unread fd p w = Some (ok, moved, p', w')"
  shows "\<exists>bs. took_in fd bs p w p' w' \<and> (sp_input_eof p \<longrightarrow> bs = [] \<and> p' = p)"
proof (cases "sp_input_eof p")
  case True
  then show ?thesis using assms by (intro exI [of _ "[]"]) (auto simp: splice_socket_to_pipe_def took_in_def fill_read_Nil)
next
  case False
  then show ?thesis using assms splice_in_loop_took by (fastforce simp: splice_socket_to_pipe_def)
qed

lemma direction_in:
  assumes "direction_ok p s t pre_s pre_t w" "splice_socket_to_pipe rs unread s p w = Some (ok, moved, p', w')"
  shows "direction_ok p' s t pre_s pre_t w'"
proof -
  obtain bs where t: "took_in s bs p w p' w'" and eof: "sp_input_eof p \<longrightarrow> bs = [] \<and> p' = p"
    using splice_in_took [OF assms(2)] by blast
  show ?thesis
    using assms(1) t eof by (auto simp: direction_ok_def took_in_def fill_pipe_def read_bytes_def)
qed

lemma direction_in_frame:
  assumes "direction_ok q t s pre_t pre_s w" "splice_socket_to_pipe rs unread s p w = Some (ok, moved, p', w')"
    "s \<noteq> t" "pipe_id q \<noteq> pipe_id p"
  shows "direction_ok q t s pre_t pre_s w'" "pipe_id p' = pipe_id p"
  using splice_in_took [OF assms(2)] assms(1,3,4)
  by (auto simp: direction_ok_def took_in_def fill_pipe_def read_bytes_def)

text \<open>What a pass from the pipe to a socket does: it moves the first \<open>k\<close> bytes.\<close>

definition gave_out :: "int \<Rightarrow> nat \<Rightarrow> tcp_splice_pipe \<Rightarrow> tcp_world \<Rightarrow> tcp_splice_pipe \<Rightarrow> tcp_world \<Rightarrow> bool" where
  "gave_out fd k p w p' w' \<longleftrightarrow> k \<le> sp_queued p \<and>
     w' = drain_pipe (pipe_id p) k (send_bytes fd (take k (w_pipe w (pipe_id p))) w) \<and>
     p' = p\<lparr>sp_queued := sp_queued p - k, sp_input_paused := (sp_input_paused p \<and> k = 0)\<rparr>"

lemma gave_out_trans:
  assumes "gave_out fd a p w p1 w1" "gave_out fd b p1 w1 p2 w2" "length (w_pipe w (pipe_id p)) = sp_queued p"
  shows "gave_out fd (a + b) p w p2 w2"
  using assms by (auto simp: gave_out_def drain_pipe_def send_bytes_def take_add add.commute)

lemma gave_out_0: "gave_out fd 0 p w p w"
  by (simp add: gave_out_def drain_pipe_def send_bytes_def)

lemma splice_out_loop_gave:
  assumes "splice_pipe_to_socket_loop ws fd moved p n w = Some (ok, moved', p', n', w')" "sp_queued p = length (w_pipe w (pipe_id p))"
  shows "\<exists>k. gave_out fd k p w p' w' \<and> n' = n + of_nat k"
  using assms
proof (induction ws arbitrary: moved p n w)
  case Nil
  then have "p' = p" "w' = w" "n' = n" by (auto simp: splice_pipe_to_socket_loop.simps split: if_splits)
  then show ?case using gave_out_0 by (intro exI [of _ 0]) simp
next
  case (Cons r rest)
  note run = Cons.prems(1) [unfolded splice_pipe_to_socket_loop.simps [of "r # rest"]]
  define k where "k = (case r of Wrote m \<Rightarrow> min m (min (sp_queued p) (sp_capacity p)) | Write_Error _ \<Rightarrow> 0)"
  show ?case
  proof (cases "sp_queued p > 0 \<and> (k > 0 \<or> r = Write_Error EINTR)")
    case False
    then have "p' = p" "w' = w" "n' = n"
      using run by (auto simp: Let_def k_def split: if_splits write_result.splits)
    then show ?thesis using gave_out_0 by (intro exI [of _ 0]) simp
  next
    case True
    define p1 where "p1 = (if k > 0 then p\<lparr>sp_queued := sp_queued p - k, sp_input_paused := False\<rparr> else p)"
    define w1 where "w1 = (if k > 0 then drain_pipe (pipe_id p) k (send_bytes fd (take k (w_pipe w (pipe_id p))) w) else w)"
    have rec: "splice_pipe_to_socket_loop rest fd (moved \<or> k > 0) p1 (n + of_nat k) w1 = Some (ok, moved', p', n', w')"
      using run True by (auto simp: Let_def k_def p1_def w1_def split: write_result.splits if_splits)
    have "k \<le> sp_queued p" by (auto simp: k_def split: write_result.splits)
    then have g: "gave_out fd k p w p1 w1" using gave_out_0 [of fd p w] by (auto simp: gave_out_def p1_def w1_def)
    have "sp_queued p1 = length (w_pipe w1 (pipe_id p1))"
      using Cons.prems(2) by (simp add: p1_def w1_def drain_pipe_def send_bytes_def)
    from Cons.IH [OF rec this] obtain k' where "gave_out fd k' p1 w1 p' w'" "n' = n + of_nat k + of_nat k'" by blast
    then show ?thesis using gave_out_trans [OF g] Cons.prems(2) by (auto simp: add.assoc intro!: exI [of _ "k + k'"])
  qed
qed

lemma direction_gave:
  assumes "direction_ok p s t pre_s pre_t w" "gave_out t k p w p' w'" "s \<noteq> t"
  shows "direction_ok p' s t pre_s pre_t w'"
proof -
  obtain x where x: "w_sent w t = pre_t @ x" "w_read w s = pre_s @ x @ w_pipe w (pipe_id p)"
    using assms(1) unfolding direction_ok_def by blast
  have "w_read w s = pre_s @ (x @ take k (w_pipe w (pipe_id p))) @ drop k (w_pipe w (pipe_id p))" using x(2) by simp
  then show ?thesis using assms x(1)
    by (auto simp: direction_ok_def gave_out_def drain_pipe_def send_bytes_def)
qed

lemma direction_shutdown:
  assumes "direction_ok p s t pre_s pre_t w" "shutdown_splice_target sh t p w = (ok, p', w')"
  shows "direction_ok p' s t pre_s pre_t w'" "ok \<longrightarrow> sp_input_eof p' \<and> sp_queued p' = 0 \<longrightarrow> sp_output_shutdown p'"
  using assms by (auto simp: shutdown_splice_target_def direction_ok_def split: if_splits)

lemma shutdown_frame:
  assumes "shutdown_splice_target sh t p w = (ok, p', w')"
  shows "pipe_id p' = pipe_id p" "w_pipe w' = w_pipe w" "w_sent w' = w_sent w" "w_read w' = w_read w" "fd \<noteq> t \<Longrightarrow> w_shut w' fd = w_shut w fd"
  using assms by (auto simp: shutdown_splice_target_def split: if_splits)

lemma direction_out:
  assumes d: "direction_ok p s t pre_s pre_t w" and ne: "s \<noteq> t"
    and run: "splice_pipe_to_socket ws sh t p n w = Some (ok, moved, p', n', w')"
  shows "direction_ok p' s t pre_s pre_t w' \<and> pipe_id p' = pipe_id p \<and>
    (ok \<longrightarrow> sp_input_eof p' \<and> sp_queued p' = 0 \<longrightarrow> sp_output_shutdown p') \<and>
    (\<exists>k. n' = n + of_nat k \<and> length (w_sent w' t) = length (w_sent w t) + k)"
proof -
  obtain ok1 p1 n1 w1 where l: "splice_pipe_to_socket_loop ws t False p n w = Some (ok1, moved, p1, n1, w1)"
    and rest: "if ok1 then (case shutdown_splice_target sh t p1 w1 of (ok, p2, w2) \<Rightarrow> ok = ok \<and> p2 = p' \<and> w2 = w') \<and> n' = n1 \<and>
        fst (shutdown_splice_target sh t p1 w1) = ok
      else \<not> ok \<and> p' = p1 \<and> n' = n1 \<and> w' = w1"
    using run by (auto simp: splice_pipe_to_socket_def split: option.splits prod.splits bool.splits)
  have q: "sp_queued p = length (w_pipe w (pipe_id p))" using d by (simp add: direction_ok_def)
  obtain k where g: "gave_out t k p w p1 w1" and n1: "n1 = n + of_nat k" using splice_out_loop_gave [OF l q] by blast
  have d1: "direction_ok p1 s t pre_s pre_t w1" using direction_gave [OF d g ne] .
  have s1: "length (w_sent w1 t) = length (w_sent w t) + k" "pipe_id p1 = pipe_id p"
    using g q by (auto simp: gave_out_def drain_pipe_def send_bytes_def)
  show ?thesis
  proof (cases ok1)
    case True
    then have sd: "shutdown_splice_target sh t p1 w1 = (ok, p', w')" and n': "n' = n1" using rest by (auto split: prod.splits)
    show ?thesis using direction_shutdown [OF d1 sd] shutdown_frame [OF sd] s1 n1 n' by auto
  next
    case False
    then show ?thesis using rest d1 s1 n1 by auto
  qed
qed

lemma direction_out_frame:
  assumes d: "direction_ok q t s pre_t pre_s w" and ne: "s \<noteq> t" "pipe_id q \<noteq> pipe_id p" and q: "sp_queued p = length (w_pipe w (pipe_id p))"
    and run: "splice_pipe_to_socket ws sh t p n w = Some (ok, moved, p', n', w')"
  shows "direction_ok q t s pre_t pre_s w'"
proof -
  obtain ok1 p1 n1 w1 where l: "splice_pipe_to_socket_loop ws t False p n w = Some (ok1, moved, p1, n1, w1)"
    and rest: "w' = w1 \<or> (\<exists>ok2 p2. shutdown_splice_target sh t p1 w1 = (ok2, p2, w'))"
    using run by (auto simp: splice_pipe_to_socket_def split: option.splits prod.splits bool.splits)
  obtain k where g: "gave_out t k p w p1 w1" using splice_out_loop_gave [OF l q] by blast
  have "direction_ok q t s pre_t pre_s w1"
    using d g ne by (auto simp: direction_ok_def gave_out_def drain_pipe_def send_bytes_def)
  moreover have "w_pipe w' = w_pipe w1 \<and> w_sent w' = w_sent w1 \<and> w_read w' = w_read w1 \<and> w_shut w' s = w_shut w1 s"
    using rest
  proof (elim disjE exE)
    fix ok2 p2 assume sd: "shutdown_splice_target sh t p1 w1 = (ok2, p2, w')"
    show ?thesis using shutdown_frame(2-4) [OF sd] shutdown_frame(5) [OF sd ne(1)] by simp
  qed simp
  ultimately show ?thesis by (auto simp: direction_ok_def)
qed

section \<open>The life of a connection\<close>

text \<open>The bytes of the handshake for the target of the connection: method hello and CONNECT request.\<close>

definition handshake_for :: "bpf2socks_sockaddr \<Rightarrow> bytes \<Rightarrow> bool" where
  "handshake_for target hs \<longleftrightarrow> (\<exists>request. bpf2socks_socks5_build_connect_request 29 target = Inr request \<and> hs = [5, 1, 0] @ request)"

definition quiet :: "tcp_connection \<Rightarrow> tcp_world \<Rightarrow> bool" where
  "quiet c w \<longleftrightarrow> w_read w (tc_client_fd c) = [] \<and> w_sent w (tc_client_fd c) = [] \<and>
     \<not> w_shut w (tc_client_fd c) \<and> \<not> w_shut w (tc_upstream_fd c)"

text \<open>
  The invariant. Before the relay nothing is read from or written to the client and the upstream
  has seen a prefix of the handshake; in the relay the upstream has seen the handshake and then
  the client's stream, and the client the upstream's stream after the two replies.
\<close>

definition stream_ok :: "tcp_connection \<Rightarrow> tcp_world \<Rightarrow> bool" where
  "stream_ok c w \<longleftrightarrow> tc_client_fd c \<noteq> tc_upstream_fd c \<and>
     (case tc_stage c of
        TCP_STAGE_CONNECTING \<Rightarrow> quiet c w \<and> w_sent w (tc_upstream_fd c) = [] \<and> w_read w (tc_upstream_fd c) = []
      | TCP_STAGE_REQUEST_WRITE \<Rightarrow> quiet c w \<and> handshake_for (tc_target c) (tc_handshake c) \<and>
          tc_handshake_offset c \<le> length (tc_handshake c) \<and>
          w_sent w (tc_upstream_fd c) = take (tc_handshake_offset c) (tc_handshake c) \<and> w_read w (tc_upstream_fd c) = []
      | TCP_STAGE_REPLY_READ \<Rightarrow> quiet c w \<and> handshake_for (tc_target c) (tc_handshake c) \<and>
          w_sent w (tc_upstream_fd c) = tc_handshake c \<and> w_read w (tc_upstream_fd c) = tc_response c \<and>
          replies_needed (tc_response c) = More \<and> length (tc_response c) \<le> RESPONSE_CAP
      | TCP_STAGE_RELAY \<Rightarrow> handshake_for (tc_target c) (tc_handshake c) \<and>
          replies_needed (tc_response c) = Done (tc_response_expected c) \<and>
          pipe_id (tc_client_to_upstream c) \<noteq> pipe_id (tc_upstream_to_client c) \<and>
          direction_ok (tc_client_to_upstream c) (tc_client_fd c) (tc_upstream_fd c) [] (tc_handshake c) w \<and>
          direction_ok (tc_upstream_to_client c) (tc_upstream_fd c) (tc_client_fd c)
            (take (tc_response_expected c) (tc_response c)) [] w)"

lemma connection_touch_simps [simp]:
  "tc_client_fd (connection_touch now c) = tc_client_fd c" "tc_upstream_fd (connection_touch now c) = tc_upstream_fd c"
  "tc_stage (connection_touch now c) = tc_stage c" "tc_target (connection_touch now c) = tc_target c"
  "tc_handshake (connection_touch now c) = tc_handshake c" "tc_handshake_offset (connection_touch now c) = tc_handshake_offset c"
  "tc_response (connection_touch now c) = tc_response c" "tc_response_expected (connection_touch now c) = tc_response_expected c"
  "tc_client_to_upstream (connection_touch now c) = tc_client_to_upstream c"
  "tc_upstream_to_client (connection_touch now c) = tc_upstream_to_client c"
  by (simp_all add: connection_touch_def)

lemma touch_if_simps [simp]:
  "tc_client_fd (touch_if b now c) = tc_client_fd c" "tc_upstream_fd (touch_if b now c) = tc_upstream_fd c"
  "tc_stage (touch_if b now c) = tc_stage c" "tc_target (touch_if b now c) = tc_target c"
  "tc_handshake (touch_if b now c) = tc_handshake c" "tc_handshake_offset (touch_if b now c) = tc_handshake_offset c"
  "tc_response (touch_if b now c) = tc_response c" "tc_response_expected (touch_if b now c) = tc_response_expected c"
  "tc_client_to_upstream (touch_if b now c) = tc_client_to_upstream c"
  "tc_upstream_to_client (touch_if b now c) = tc_upstream_to_client c"
  by (simp_all add: touch_if_def)

lemma start_handshake_ok:
  assumes "start_handshake c = Some c'" "stream_ok c w" "tc_stage c = TCP_STAGE_CONNECTING"
  shows "stream_ok c' w \<and> tc_stage c' = TCP_STAGE_REQUEST_WRITE"
  using assms by (auto simp: start_handshake_def Let_def bpf2socks_socks5_build_hello_def HANDSHAKE_CAP_def stream_ok_def
      handshake_for_def quiet_def split: sum.splits if_splits)

lemma flush_handshake_ok:
  assumes "flush_handshake now rs c w = Some (True, c', w')" "stream_ok c w" "tc_stage c = TCP_STAGE_REQUEST_WRITE"
  shows "stream_ok c' w' \<and> (tc_stage c' = TCP_STAGE_REQUEST_WRITE \<or> tc_stage c' = TCP_STAGE_REPLY_READ)"
  using assms
proof (induction rs arbitrary: c w)
  case Nil
  then show ?case
    by (auto simp: flush_handshake.simps stream_ok_def quiet_def replies_needed_def RESPONSE_CAP_def split: if_splits)
next
  case (Cons r rest)
  note run = Cons.prems(1) [unfolded flush_handshake.simps [of now "r # rest"]]
  show ?case
  proof (cases "tc_handshake_offset c < length (tc_handshake c)")
    case False
    then show ?thesis using run Cons.prems(2,3) by (auto simp: stream_ok_def quiet_def replies_needed_def RESPONSE_CAP_def)
  next
    case True
    show ?thesis
    proof (cases r)
      case (Write_Error e)
      then show ?thesis using run Cons.IH Cons.prems(2,3) True by (auto split: if_splits)
    next
      case (Wrote n)
      define bs where "bs = take n (drop (tc_handshake_offset c) (tc_handshake c))"
      define c1 where "c1 = connection_touch now (c\<lparr>tc_handshake_offset := tc_handshake_offset c + length bs\<rparr>)"
      define w1 where "w1 = send_bytes (tc_upstream_fd c) bs w"
      have rec: "flush_handshake now rest c1 w1 = Some (True, c', w')"
        using run True Wrote by (auto simp: Let_def bs_def c1_def w1_def split: if_splits)
      have "take (tc_handshake_offset c + length bs) (tc_handshake c) = take (tc_handshake_offset c) (tc_handshake c) @ bs"
        by (simp add: bs_def take_add min_def)
      then have "stream_ok c1 w1" "tc_stage c1 = TCP_STAGE_REQUEST_WRITE"
        using Cons.prems(2,3) True by (auto simp: stream_ok_def c1_def w1_def send_bytes_def quiet_def bs_def)
      then show ?thesis using Cons.IH [OF rec] by blast
    qed
  qed
qed

lemma flush_handshake_pipe: "flush_handshake now rs c w = Some (ok, c', w') \<Longrightarrow> w_pipe w' = w_pipe w"
proof (induction rs arbitrary: c w)
  case (Cons r rest)
  then show ?case
    by (cases r) (auto simp: flush_handshake.simps [of now "x # rest" for x] Let_def send_bytes_def split: if_splits)
qed (auto simp: flush_handshake.simps split: if_splits)

lemma replies_needed_le: "replies_needed r = Done n \<Longrightarrow> n \<le> length r"
  by (auto simp: replies_needed_def split: if_splits progress.splits)

text \<open>A reply never outgrows the buffer, so a full buffer is always decided.\<close>

lemma replies_needed_full: "length r \<ge> RESPONSE_CAP \<Longrightarrow> replies_needed r \<noteq> More"
proof -
  assume l: "length r \<ge> RESPONSE_CAP"
  have "unat (drop 2 r ! 4) < 256" using unsigned_less [of "drop 2 r ! 4", where ?'a = nat] by simp
  then show ?thesis using l
    by (auto simp: replies_needed_def bpf2socks_socks5_reply_length_def RESPONSE_CAP_def Let_def)
qed

lemma read_replies_ok:
  assumes "read_pipelined_replies now rs c w = Some (r, c', w')" "stream_ok c w" "tc_stage c = TCP_STAGE_REPLY_READ" "r \<noteq> Replies_Failed"
  shows "tc_client_fd c' = tc_client_fd c \<and> tc_upstream_fd c' = tc_upstream_fd c \<and> tc_stage c' = TCP_STAGE_REPLY_READ \<and>
    tc_client_fd c \<noteq> tc_upstream_fd c \<and> quiet c' w' \<and> handshake_for (tc_target c') (tc_handshake c') \<and>
    w_sent w' (tc_upstream_fd c') = tc_handshake c' \<and> w_read w' (tc_upstream_fd c') = tc_response c' \<and>
    length (tc_response c') \<le> RESPONSE_CAP \<and> w_pipe w' = w_pipe w \<and>
    replies_needed (tc_response c') = (if r = Replies_Complete then Done (tc_response_expected c') else More)"
  using assms
proof (induction rs arbitrary: c w)
  case Nil
  then show ?case by (auto simp: read_pipelined_replies.simps stream_ok_def Let_def split: if_splits)
next
  case (Cons x rest)
  note run = Cons.prems(1) [unfolded read_pipelined_replies.simps [of now "x # rest"] Let_def]
  define room where "room = RESPONSE_CAP - length (tc_response c)"
  have ok: "tc_client_fd c \<noteq> tc_upstream_fd c" "quiet c w" "handshake_for (tc_target c) (tc_handshake c)"
    "w_sent w (tc_upstream_fd c) = tc_handshake c" "w_read w (tc_upstream_fd c) = tc_response c"
    "replies_needed (tc_response c) = More" "length (tc_response c) \<le> RESPONSE_CAP"
    using Cons.prems(2,3) by (simp_all add: stream_ok_def)
  have room: "room \<noteq> 0" using run Cons.prems(4) by (auto simp: room_def split: if_splits)
  show ?case
  proof (cases x)
    case (Read_Error e)
    show ?thesis
    proof (cases "e = EINTR")
      case True
      then have "read_pipelined_replies now rest c w = Some (r, c', w')" using run Read_Error room by (simp add: room_def)
      from Cons.IH [OF this Cons.prems(2-4)] show ?thesis .
    next
      case False
      then have "r = Replies_Wait" "c' = c" "w' = w" using run Read_Error room Cons.prems(4) by (auto simp: room_def split: if_splits)
      then show ?thesis using ok Cons.prems(3) by simp
    qed
  next
    case (Read bs)
    define c1 where "c1 = connection_touch now (c\<lparr>tc_response := tc_response c @ take room bs\<rparr>)"
    define w1 where "w1 = read_bytes (tc_upstream_fd c) (take room bs) w"
    have run': "(if bs = [] then Some (Replies_Failed, c, w)
        else case replies_needed (tc_response c1) of
               Fail \<Rightarrow> Some (Replies_Failed, c1, w1)
             | Done n \<Rightarrow> Some (Replies_Complete, c1\<lparr>tc_response_expected := n\<rparr>, w1)
             | More \<Rightarrow> if length (take room bs) < room then Some (Replies_Wait, c1, w1)
                 else read_pipelined_replies now rest c1 w1) = Some (r, c', w')"
      using run room unfolding Read room_def c1_def w1_def by simp
    have ne: "bs \<noteq> []" using run' Cons.prems(4) by (auto split: if_splits)
    have ok1: "quiet c1 w1" "handshake_for (tc_target c1) (tc_handshake c1)"
      "w_sent w1 (tc_upstream_fd c1) = tc_handshake c1" "w_read w1 (tc_upstream_fd c1) = tc_response c1"
      "length (tc_response c1) \<le> RESPONSE_CAP" "w_pipe w1 = w_pipe w" "tc_stage c1 = TCP_STAGE_REPLY_READ"
      "tc_client_fd c1 = tc_client_fd c" "tc_upstream_fd c1 = tc_upstream_fd c"
      using ok Cons.prems(3) by (auto simp: c1_def w1_def read_bytes_def quiet_def room_def)
    show ?thesis
    proof (cases "replies_needed (tc_response c1)")
      case Fail
      then show ?thesis using run' ne Cons.prems(4) by auto
    next
      case (Done n)
      then have "r = Replies_Complete" "c' = c1\<lparr>tc_response_expected := n\<rparr>" "w' = w1"
        using run' ne by auto
      then show ?thesis using ok ok1 Done by (simp add: quiet_def)
    next
      case More
      show ?thesis
      proof (cases "length (take room bs) < room")
        case True
        then have "r = Replies_Wait" "c' = c1" "w' = w1" using run' ne More by (auto split: if_splits)
        then show ?thesis using ok ok1 More by simp
      next
        case False
        then have rec: "read_pipelined_replies now rest c1 w1 = Some (r, c', w')" using run' ne More by simp
        have "stream_ok c1 w1" using ok ok1 More by (simp add: stream_ok_def)
        from Cons.IH [OF rec this ok1(7) Cons.prems(4)] show ?thesis using ok1 by auto
      qed
    qed
  qed
qed

text \<open>The pool holds distinct empty pipes; a new pipe is none of them.\<close>

definition pool_ids :: "tcp_pipe_pool \<Rightarrow> (int \<times> int) list" where
  "pool_ids pool = map (\<lambda>(r, wr, _). (r, wr)) pool"

lemma pool_ids_Nil [simp]: "pool_ids [] = []"
  by (simp add: pool_ids_def)

definition pool_ok :: "tcp_pipe_pool \<Rightarrow> tcp_world \<Rightarrow> bool" where
  "pool_ok pool w \<longleftrightarrow> distinct (pool_ids pool) \<and> (\<forall>i\<in>set (pool_ids pool). w_pipe w i = [])"

lemma pool_ok_frame:
  "pool_ok pool w \<Longrightarrow> \<forall>i. i \<noteq> k \<longrightarrow> w_pipe w' i = w_pipe w i \<Longrightarrow> k \<notin> set (pool_ids pool) \<Longrightarrow> pool_ok pool w'"
  unfolding pool_ok_def by metis

lemma pool_ok_tail: "pool_ok pool w \<Longrightarrow> pool_ids pool = i # pool_ids pool' \<Longrightarrow> pool_ok pool' w \<and> i \<notin> set (pool_ids pool')"
  by (simp add: pool_ok_def)

lemma pool_ok_Nil [simp]: "pool_ok [] w"
  by (simp add: pool_ok_def)

definition fresh_pipes :: "tcp_env \<Rightarrow> tcp_pipe_pool \<Rightarrow> bool" where
  "fresh_pipes env pool \<longleftrightarrow>
     (\<forall>i. pe_pipe2 (te_pipe1 env) = Some i \<or> pe_pipe2 (te_pipe2 env) = Some i \<longrightarrow> i \<notin> set (pool_ids pool)) \<and>
     (\<forall>i. pe_pipe2 (te_pipe1 env) = Some i \<longrightarrow> pe_pipe2 (te_pipe2 env) \<noteq> Some i)"

lemma open_splice_pipe_cases:
  assumes "open_splice_pipe pipe2 fc pool w = (Some p, pool', w')" "pool_ok pool w"
  shows "w_pipe w' (pipe_id p) = [] \<and> sp_queued p = 0 \<and> \<not> sp_input_eof p \<and> \<not> sp_input_paused p \<and> \<not> sp_output_shutdown p \<and>
    w_sent w' = w_sent w \<and> w_read w' = w_read w \<and> w_shut w' = w_shut w \<and>
    (\<forall>i. i \<noteq> pipe_id p \<longrightarrow> w_pipe w' i = w_pipe w i) \<and>
    (if pool = [] then pool' = [] \<and> pipe2 = Some (pipe_id p) else pool_ids pool = pipe_id p # pool_ids pool')"
  using assms by (auto simp: open_splice_pipe_def pipe_id_def init_splice_pipe_def pool_ok_def pool_ids_def
      split: list.splits option.splits)

lemma init_pipes_ok:
  assumes "init_connection_splice_pipes (te_pipe1 env) (te_pipe2 env) pool c w = (True, pool', c', w')" "pool_ok pool w" "fresh_pipes env pool"
  shows "\<exists>p1 p2. c' = c\<lparr>tc_client_to_upstream := p1, tc_upstream_to_client := p2\<rparr> \<and> pipe_id p1 \<noteq> pipe_id p2 \<and>
    w_pipe w' (pipe_id p1) = [] \<and> w_pipe w' (pipe_id p2) = [] \<and> sp_queued p1 = 0 \<and> sp_queued p2 = 0 \<and>
    \<not> sp_input_eof p1 \<and> \<not> sp_input_eof p2 \<and> \<not> sp_input_paused p1 \<and> \<not> sp_input_paused p2 \<and>
    \<not> sp_output_shutdown p1 \<and> \<not> sp_output_shutdown p2 \<and>
    w_sent w' = w_sent w \<and> w_read w' = w_read w \<and> w_shut w' = w_shut w \<and>
    pool_ok pool' w' \<and> pipe_id p1 \<notin> set (pool_ids pool') \<and> pipe_id p2 \<notin> set (pool_ids pool')"
proof -
  obtain p1 pool1 w1 p2 where o1: "open_splice_pipe (pe_pipe2 (te_pipe1 env)) (pe_fcntl (te_pipe1 env)) pool w = (Some p1, pool1, w1)"
    and o2: "open_splice_pipe (pe_pipe2 (te_pipe2 env)) (pe_fcntl (te_pipe2 env)) pool1 w1 = (Some p2, pool', w')"
    and c': "c' = c\<lparr>tc_client_to_upstream := p1, tc_upstream_to_client := p2\<rparr>"
    using assms(1) by (auto simp: init_connection_splice_pipes_def split: prod.splits option.splits)
  note e1 = open_splice_pipe_cases [OF o1 assms(2)]
  have ok1: "pool_ok pool1 w1" and nin1: "pipe_id p1 \<notin> set (pool_ids pool1)"
    using e1 pool_ok_tail [OF assms(2)] pool_ok_frame [of pool1 w "pipe_id p1" w1] by (auto split: if_splits)
  note e2 = open_splice_pipe_cases [OF o2 ok1]
  have sub: "set (pool_ids pool1) \<subseteq> set (pool_ids pool)" using e1 by (auto split: if_splits)
  have ne: "pipe_id p1 \<noteq> pipe_id p2"
  proof (cases "pool1 = []")
    case True
    then have "pe_pipe2 (te_pipe2 env) = Some (pipe_id p2)" using e2 by simp
    then have "pipe_id p2 \<notin> set (pool_ids pool)" "pe_pipe2 (te_pipe1 env) \<noteq> Some (pipe_id p2)"
      using assms(3) unfolding fresh_pipes_def by blast+
    then show ?thesis using e1 by (cases "pool = []") auto
  next
    case False
    then show ?thesis using e2 nin1 by auto
  qed
  have ok2: "pool_ok pool' w'" "pipe_id p2 \<notin> set (pool_ids pool')" "pipe_id p1 \<notin> set (pool_ids pool')"
    using e2 pool_ok_tail [OF ok1] pool_ok_frame [of pool' w1 "pipe_id p2" w'] nin1 by (auto split: if_splits)
  have "w_pipe w' (pipe_id p1) = w_pipe w1 (pipe_id p1)" using e2 ne by blast
  then have z: "w_pipe w' (pipe_id p1) = []" using e1 by simp
  show ?thesis using ne ok2 e1 e2 z by (intro exI [of _ p1] exI [of _ p2] conjI c') (simp_all only: not_False_eq_True)
qed

lemma pool_ok_fill: "pool_ok pool w \<Longrightarrow> i \<notin> set (pool_ids pool) \<Longrightarrow> pool_ok pool (fill_pipe i bs w)"
  by (auto simp: pool_ok_def fill_pipe_def)

text \<open>The pipes of a connection in the relay are not in the pool.\<close>

definition apart :: "tcp_pipe_pool \<Rightarrow> tcp_connection \<Rightarrow> bool" where
  "apart pool c \<longleftrightarrow> tc_stage c = TCP_STAGE_RELAY \<longrightarrow>
     pipe_id (tc_client_to_upstream c) \<notin> set (pool_ids pool) \<and> pipe_id (tc_upstream_to_client c) \<notin> set (pool_ids pool)"

lemma read_and_finish_ok:
  assumes run: "read_and_finish env pool c w = Some (True, pool', c', w')" and ok: "stream_ok c w" "tc_stage c = TCP_STAGE_REPLY_READ"
    and pool: "pool_ok pool w" "fresh_pipes env pool"
  shows "stream_ok c' w' \<and> pool_ok pool' w' \<and> apart pool' c'"
proof -
  obtain r c1 w1 where rd: "read_pipelined_replies (te_now env) (te_recvs env) c w = Some (r, c1, w1)"
    using run by (auto simp: read_and_finish_def split: option.splits)
  have nf: "r \<noteq> Replies_Failed" using run rd by (auto simp: read_and_finish_def)
  note o1 = read_replies_ok [OF rd ok nf]
  have p1: "pool_ok pool w1" using pool(1) o1 by (simp add: pool_ok_def)
  show ?thesis
  proof (cases r)
    case Replies_Failed
    then show ?thesis using nf by simp
  next
    case Replies_Wait
    then have "c' = c1" "w' = w1" "pool' = pool" using run rd by (simp_all add: read_and_finish_def)
    then show ?thesis using o1 p1 Replies_Wait by (auto simp: stream_ok_def apart_def)
  next
    case Replies_Complete
    then have fin: "finish_pipelined_replies (te_pipe1 env) (te_pipe2 env) (te_early env) pool c1 w1 = (True, pool', c', w')"
      using run rd by (simp add: read_and_finish_def)
    obtain c2 w2 where i: "init_connection_splice_pipes (te_pipe1 env) (te_pipe2 env) pool c1 w1 = (True, pool', c2, w2)"
      using fin by (auto simp: finish_pipelined_replies_def Let_def split: prod.splits bool.splits if_splits write_result.splits)
    obtain q1 q2 where c2: "c2 = c1\<lparr>tc_client_to_upstream := q1, tc_upstream_to_client := q2\<rparr>" and q: "pipe_id q1 \<noteq> pipe_id q2"
      "w_pipe w2 (pipe_id q1) = []" "w_pipe w2 (pipe_id q2) = []" "sp_queued q1 = 0" "sp_queued q2 = 0"
      "\<not> sp_input_paused q1" "\<not> sp_input_paused q2" "\<not> sp_output_shutdown q1" "\<not> sp_output_shutdown q2"
      "w_sent w2 = w_sent w1" "w_read w2 = w_read w1" "w_shut w2 = w_shut w1" "pool_ok pool' w2"
      "pipe_id q1 \<notin> set (pool_ids pool')" "pipe_id q2 \<notin> set (pool_ids pool')"
      using init_pipes_ok [OF i p1 pool(2)] by blast
    define extra where "extra = drop (tc_response_expected c1) (tc_response c1)"
    have c': "c' = c2\<lparr>tc_upstream_to_client := q2\<lparr>sp_queued := length extra\<rparr>, tc_stage := TCP_STAGE_RELAY\<rparr>"
      "w' = fill_pipe (pipe_id q2) extra w2"
      using fin i q(5) by (auto simp: finish_pipelined_replies_def Let_def c2 extra_def fill_pipe_def split: if_splits write_result.splits)
    have split: "tc_response c1 = take (tc_response_expected c1) (tc_response c1) @ extra" by (simp add: extra_def)
    have "stream_ok c' w'" unfolding c' using o1 q Replies_Complete split
      by (auto simp: stream_ok_def c2 direction_ok_def fill_pipe_def quiet_def)
    then show ?thesis using pool_ok_fill q(13-15) by (auto simp: c' c2 apart_def)
  qed
qed

lemma upstream_handshake_ok:
  assumes run: "upstream_handshake env events pool c w = Some (Verdict_Keep, failed, pool', c', w')" and ok: "stream_ok c w"
    "tc_stage c \<noteq> TCP_STAGE_RELAY" and pool: "pool_ok pool w" "fresh_pipes env pool"
  shows "stream_ok c' w' \<and> pool_ok pool' w' \<and> apart pool' c'"
proof -
  define writable where "writable \<longleftrightarrow> events AND EPOLLOUT \<noteq> 0"
  define readable where "readable \<longleftrightarrow> events AND EPOLLIN \<noteq> 0 \<or> events AND (EPOLLHUP OR EPOLLRDHUP) \<noteq> 0"
  obtain c1 where s: "(if tc_stage c = TCP_STAGE_CONNECTING \<and> writable then start_handshake c else Some c) = Some c1"
    using run by (auto simp: upstream_handshake_def Let_def writable_def split: option.splits if_splits)
  obtain c2 w2 where f: "(if tc_stage c1 = TCP_STAGE_REQUEST_WRITE \<and> writable then flush_handshake (te_now env) (te_sends env) c1 w
      else Some (True, c1, w)) = Some (True, c2, w2)"
    using run s by (auto simp: upstream_handshake_def Let_def writable_def split: option.splits if_splits bool.splits)
  have r: "(if tc_stage c2 = TCP_STAGE_REPLY_READ \<and> readable then read_and_finish env pool c2 w2
      else Some (True, pool, c2, w2)) = Some (True, pool', c', w')"
    using run s f
    by (auto simp: upstream_handshake_def Let_def writable_def readable_def split: option.splits if_splits bool.splits)
  have ok1: "stream_ok c1 w" "tc_stage c1 \<noteq> TCP_STAGE_RELAY"
    using s start_handshake_ok [of c c1 w] ok by (auto split: if_splits)
  have ok2: "stream_ok c2 w2" "tc_stage c2 \<noteq> TCP_STAGE_RELAY"
    using f flush_handshake_ok [of _ _ c1 w c2 w2] ok1 by (auto split: if_splits)
  have "w_pipe w2 = w_pipe w"
    using f by (auto dest: flush_handshake_pipe split: if_splits)
  then have p2: "pool_ok pool w2" using pool(1) by (simp add: pool_ok_def)
  show ?thesis using r read_and_finish_ok [OF _ ok2(1) _ p2 pool(2)] ok2 p2 by (auto simp: apart_def split: if_splits)
qed

section \<open>The relay\<close>

definition same_pipes :: "tcp_connection \<Rightarrow> tcp_connection \<Rightarrow> bool" where
  "same_pipes c c' \<longleftrightarrow> pipe_id (tc_client_to_upstream c') = pipe_id (tc_client_to_upstream c) \<and>
     pipe_id (tc_upstream_to_client c') = pipe_id (tc_upstream_to_client c) \<and>
     tc_client_fd c' = tc_client_fd c \<and> tc_upstream_fd c' = tc_upstream_fd c \<and> tc_stage c' = tc_stage c"

lemma stream_relayD:
  assumes "stream_ok c w" "tc_stage c = TCP_STAGE_RELAY"
  shows "tc_client_fd c \<noteq> tc_upstream_fd c" "handshake_for (tc_target c) (tc_handshake c)"
    "replies_needed (tc_response c) = Done (tc_response_expected c)"
    "pipe_id (tc_client_to_upstream c) \<noteq> pipe_id (tc_upstream_to_client c)"
    "direction_ok (tc_client_to_upstream c) (tc_client_fd c) (tc_upstream_fd c) [] (tc_handshake c) w"
    "direction_ok (tc_upstream_to_client c) (tc_upstream_fd c) (tc_client_fd c) (take (tc_response_expected c) (tc_response c)) [] w"
  using assms by (simp_all add: stream_ok_def)

lemma relay_input_ok:
  assumes run: "relay_input env side events c w = Some (ok, c', w')" and s: "stream_ok c w" "tc_stage c = TCP_STAGE_RELAY"
  shows "stream_ok c' w' \<and> same_pipes c c'"
proof (cases "events AND EPOLLIN = 0 \<or> side = TCP_SIDE_LISTENER")
  case True
  then show ?thesis using run s by (auto simp: relay_input_def same_pipes_def split: if_splits)
next
  case False
  note st = stream_relayD [OF s]
  show ?thesis
  proof (cases "side = TCP_SIDE_CLIENT")
    case True
    then obtain moved p where sp: "splice_socket_to_pipe (te_reads env) (te_unread env) (tc_client_fd c) (tc_client_to_upstream c) w = Some (ok, moved, p, w')"
      and c': "c' = touch_if moved (te_now env) (c\<lparr>tc_client_to_upstream := p\<rparr>)"
      using run False by (auto simp: relay_input_def split: option.splits)
    show ?thesis using direction_in [OF st(5) sp] direction_in_frame [OF st(6) sp] st s(2)
      by (auto simp: c' stream_ok_def same_pipes_def)
  next
    case up: False
    then have side: "side = TCP_SIDE_UPSTREAM" using False by (cases side) auto
    then obtain moved p where sp: "splice_socket_to_pipe (te_reads env) (te_unread env) (tc_upstream_fd c) (tc_upstream_to_client c) w = Some (ok, moved, p, w')"
      and c': "c' = touch_if moved (te_now env) (c\<lparr>tc_upstream_to_client := p\<rparr>)"
      using run False by (auto simp: relay_input_def split: option.splits)
    show ?thesis using direction_in [OF st(6) sp] direction_in_frame [OF st(5) sp] st s(2)
      by (auto simp: c' stream_ok_def same_pipes_def)
  qed
qed

definition drained_is_shut :: "tcp_splice_pipe \<Rightarrow> bool" where
  "drained_is_shut p \<longleftrightarrow> (sp_input_eof p \<and> sp_queued p = 0 \<longrightarrow> sp_output_shutdown p)"

lemma flush_relay_ok:
  assumes run: "flush_relay_pipes env c n w = Some (failed, c', n', w')" and s: "stream_ok c w" "tc_stage c = TCP_STAGE_RELAY"
  shows "stream_ok c' w' \<and> same_pipes c c' \<and>
    (failed = None \<longrightarrow> drained_is_shut (tc_client_to_upstream c') \<and> drained_is_shut (tc_upstream_to_client c'))"
proof -
  note st = stream_relayD [OF s]
  obtain ok moved p up w1 where o1: "splice_pipe_to_socket (te_up_writes env) (te_up_shutdown env) (tc_upstream_fd c) (tc_client_to_upstream c)
      (tb_client_to_upstream n) w = Some (ok, moved, p, up, w1)"
    using run by (auto simp: flush_relay_pipes_def split: option.splits)
  define c1 where "c1 = touch_if moved (te_now env) (c\<lparr>tc_client_to_upstream := p\<rparr>)"
  have q: "sp_queued (tc_client_to_upstream c) = length (w_pipe w (pipe_id (tc_client_to_upstream c)))"
    using st(5) by (simp add: direction_ok_def)
  note d1 = direction_out [OF st(5,1) o1]
  have f1: "direction_ok (tc_upstream_to_client c) (tc_upstream_fd c) (tc_client_fd c) (take (tc_response_expected c) (tc_response c)) [] w1"
    by (rule direction_out_frame [OF st(6,1) _ q o1]) (use st(4) in simp)
  have s1: "stream_ok c1 w1" "same_pipes c c1" "tc_stage c1 = TCP_STAGE_RELAY"
    using st d1 f1 s(2) by (auto simp: c1_def stream_ok_def same_pipes_def)
  show ?thesis
  proof (cases ok)
    case False
    then show ?thesis using run o1 s1 by (auto simp: flush_relay_pipes_def c1_def Let_def)
  next
    case True
    then obtain ok2 moved2 p2 down where o2: "splice_pipe_to_socket (te_down_writes env) (te_down_shutdown env) (tc_client_fd c1)
        (tc_upstream_to_client c1) (tb_upstream_to_client n) w1 = Some (ok2, moved2, p2, down, w')"
      and c': "c' = touch_if moved2 (te_now env) (c1\<lparr>tc_upstream_to_client := p2\<rparr>)" and fd: "failed = (if ok2 then None else Some TCP_SIDE_CLIENT)"
      using run o1 by (auto simp: flush_relay_pipes_def c1_def Let_def split: option.splits)
    note st1 = stream_relayD [OF s1(1,3)]
    have q1: "sp_queued (tc_upstream_to_client c1) = length (w_pipe w1 (pipe_id (tc_upstream_to_client c1)))"
      using st1(6) by (simp add: direction_ok_def)
    note d2 = direction_out [OF st1(6) st1(1) [symmetric] o2]
    have f2: "direction_ok (tc_client_to_upstream c1) (tc_client_fd c1) (tc_upstream_fd c1) [] (tc_handshake c1) w'"
      by (rule direction_out_frame [OF st1(5) st1(1) [symmetric] st1(4) q1 o2])
    have "stream_ok c' w'" "same_pipes c1 c'" using st1 d2 f2 s1(3) by (auto simp: c' stream_ok_def same_pipes_def)
    moreover have "same_pipes c c'" using s1(2) \<open>same_pipes c1 c'\<close> by (simp add: same_pipes_def)
    moreover have "failed = None \<longrightarrow> drained_is_shut (tc_client_to_upstream c') \<and> drained_is_shut (tc_upstream_to_client c')"
      using d1 d2 True fd by (auto simp: drained_is_shut_def c' c1_def)
    ultimately show ?thesis by blast
  qed
qed

lemma splice_relay_ok:
  assumes run: "splice_relay env side events c n w = Some (v, c', n', w')" and s: "stream_ok c w" "tc_stage c = TCP_STAGE_RELAY"
  shows "stream_ok c' w' \<and> same_pipes c c' \<and> (v = Verdict_Close \<longrightarrow> relay_complete c') \<and>
    (v = Verdict_Keep \<longrightarrow> \<not> relay_complete c' \<and> drained_is_shut (tc_client_to_upstream c') \<and> drained_is_shut (tc_upstream_to_client c'))"
proof (cases "events AND EPOLLERR \<noteq> 0")
  case True
  then show ?thesis using run s by (auto simp: splice_relay_def same_pipes_def)
next
  case False
  then obtain ok c1 w1 where i: "relay_input env side events c w = Some (ok, c1, w1)"
    using run by (auto simp: splice_relay_def split: option.splits)
  note s1 = relay_input_ok [OF i s]
  have st1: "tc_stage c1 = TCP_STAGE_RELAY" using s1 s(2) by (simp add: same_pipes_def)
  show ?thesis
  proof (cases ok)
    case False
    then show ?thesis using run i s1 \<open>\<not> events AND EPOLLERR \<noteq> 0\<close> by (auto simp: splice_relay_def)
  next
    case True
    then obtain failed c2 n2 w2 where f: "flush_relay_pipes env c1 n w1 = Some (failed, c2, n2, w2)"
      and res: "c' = c2 \<and> w' = w2 \<and> v = (case failed of Some sd \<Rightarrow> Verdict_Reset sd | None \<Rightarrow> if relay_complete c2 then Verdict_Close else Verdict_Keep)"
      using run i \<open>\<not> events AND EPOLLERR \<noteq> 0\<close> by (auto simp: splice_relay_def split: option.splits)
    note s2 = flush_relay_ok [OF f conjunct1 [OF s1] st1]
    have "same_pipes c c2" using s1 s2 by (simp add: same_pipes_def)
    then show ?thesis using s2 res by (auto split: option.splits if_splits)
  qed
qed

text \<open>The relay touches no pipe but its own two.\<close>

lemma splice_in_pipes:
  "splice_socket_to_pipe rs unread fd p w = Some (ok, moved, p', w') \<Longrightarrow> i \<noteq> pipe_id p \<Longrightarrow> w_pipe w' i = w_pipe w i"
  by (auto dest!: splice_in_took simp: took_in_def fill_pipe_def read_bytes_def)

lemma splice_out_loop_pipes:
  "splice_pipe_to_socket_loop ws fd m p n w = Some (ok, m', p', n', w') \<Longrightarrow> i \<noteq> pipe_id p \<Longrightarrow> w_pipe w' i = w_pipe w i"
proof (induction ws arbitrary: m p n w)
  case Nil
  then show ?case by (auto simp: splice_pipe_to_socket_loop.simps split: if_splits)
next
  case (Cons r rest)
  note run = Cons.prems(1) [unfolded splice_pipe_to_socket_loop.simps [of "r # rest"]]
  show ?case using run Cons.prems(2)
    by (auto dest!: Cons.IH simp: Let_def drain_pipe_def send_bytes_def split: if_splits write_result.splits)
qed

lemma splice_out_pipes:
  assumes "splice_pipe_to_socket ws sh fd p n w = Some (ok, moved, p', n', w')" "i \<noteq> pipe_id p"
  shows "w_pipe w' i = w_pipe w i"
proof -
  obtain ok1 p1 n1 w1 where l: "splice_pipe_to_socket_loop ws fd False p n w = Some (ok1, moved, p1, n1, w1)"
    and rest: "w' = w1 \<or> (\<exists>ok2 p2. shutdown_splice_target sh fd p1 w1 = (ok2, p2, w'))"
    using assms(1) by (auto simp: splice_pipe_to_socket_def split: option.splits prod.splits bool.splits)
  have "w_pipe w' = w_pipe w1" using rest shutdown_frame(2) by blast
  then show ?thesis using splice_out_loop_pipes [OF l assms(2)] by simp
qed

lemma relay_input_pipes:
  assumes "relay_input env side events c w = Some (ok, c', w')"
    "i \<noteq> pipe_id (tc_client_to_upstream c)" "i \<noteq> pipe_id (tc_upstream_to_client c)"
  shows "w_pipe w' i = w_pipe w i"
  using assms splice_in_pipes [where i = i] by (auto simp: relay_input_def split: if_splits tcp_side.splits option.splits)

lemma flush_relay_pipes_pipes:
  assumes "flush_relay_pipes env c n w = Some (failed, c', n', w')"
    "i \<noteq> pipe_id (tc_client_to_upstream c)" "i \<noteq> pipe_id (tc_upstream_to_client c)"
  shows "w_pipe w' i = w_pipe w i"
proof -
  obtain ok moved p up w1 where o1: "splice_pipe_to_socket (te_up_writes env) (te_up_shutdown env) (tc_upstream_fd c) (tc_client_to_upstream c)
      (tb_client_to_upstream n) w = Some (ok, moved, p, up, w1)"
    and rest: "w' = w1 \<or> (\<exists>ok2 m2 p2 down. splice_pipe_to_socket (te_down_writes env) (te_down_shutdown env) (tc_client_fd c)
        (tc_upstream_to_client c) (tb_upstream_to_client n) w1 = Some (ok2, m2, p2, down, w'))"
    using assms(1) by (auto simp: flush_relay_pipes_def Let_def split: option.splits if_splits)
  have "w_pipe w' i = w_pipe w1 i" using rest splice_out_pipes [OF _ assms(3)] by blast
  then show ?thesis using splice_out_pipes [OF o1 assms(2)] by simp
qed

lemma splice_relay_pipes:
  assumes run: "splice_relay env side events c n w = Some (v, c', n', w')" and s: "stream_ok c w" "tc_stage c = TCP_STAGE_RELAY"
    and i: "i \<noteq> pipe_id (tc_client_to_upstream c)" "i \<noteq> pipe_id (tc_upstream_to_client c)"
  shows "w_pipe w' i = w_pipe w i"
proof (cases "events AND EPOLLERR \<noteq> 0")
  case True
  then show ?thesis using run by (simp add: splice_relay_def)
next
  case False
  then obtain ok c1 w1 where r: "relay_input env side events c w = Some (ok, c1, w1)"
    and rest: "w' = w1 \<or> (\<exists>failed c2 n2. flush_relay_pipes env c1 n w1 = Some (failed, c2, n2, w'))"
    using run by (auto simp: splice_relay_def split: option.splits bool.splits)
  have "same_pipes c c1" using relay_input_ok [OF r s] by simp
  then show ?thesis using relay_input_pipes [OF r i] rest flush_relay_pipes_pipes [of env c1 n w1 _ _ _ w' i] i
    by (auto simp: same_pipes_def)
qed

section \<open>Every run of a connection\<close>

text \<open>
  The runs of one connection: it starts on fresh sockets, either while the connect is in progress
  or with the handshake written at once; its events are handled one by one; and between them the
  worker serves other connections, which touch neither its sockets nor its pipes and keep the pool
  one of distinct empty pipes.
\<close>

definition undisturbed :: "tcp_connection \<Rightarrow> tcp_world \<Rightarrow> tcp_world \<Rightarrow> bool" where
  "undisturbed c w w' \<longleftrightarrow>
     (\<forall>fd. fd = tc_client_fd c \<or> fd = tc_upstream_fd c \<longrightarrow>
        w_read w' fd = w_read w fd \<and> w_sent w' fd = w_sent w fd \<and> w_shut w' fd = w_shut w fd) \<and>
     (\<forall>i. i = pipe_id (tc_client_to_upstream c) \<or> i = pipe_id (tc_upstream_to_client c) \<longrightarrow> w_pipe w' i = w_pipe w i)"

definition fresh_connection :: "tcp_connection \<Rightarrow> tcp_world \<Rightarrow> bool" where
  "fresh_connection c w \<longleftrightarrow> tc_stage c = TCP_STAGE_CONNECTING \<and> tc_client_fd c \<noteq> tc_upstream_fd c \<and>
     (\<forall>fd. fd = tc_client_fd c \<or> fd = tc_upstream_fd c \<longrightarrow> w_read w fd = [] \<and> w_sent w fd = [] \<and> \<not> w_shut w fd)"

inductive tcp_life :: "tcp_pipe_pool \<Rightarrow> tcp_connection \<Rightarrow> tcp_world \<Rightarrow> bool" where
  connecting: "fresh_connection c w \<Longrightarrow> pool_ok pool w \<Longrightarrow> tcp_life pool c w"
| connected: "fresh_connection c w \<Longrightarrow> pool_ok pool w \<Longrightarrow> start_handshake c = Some c1 \<Longrightarrow>
    flush_handshake now sends c1 w = Some (True, c2, w2) \<Longrightarrow> tcp_life pool c2 w2"
| event: "tcp_life pool c w \<Longrightarrow> fresh_pipes env pool \<Longrightarrow> side \<noteq> TCP_SIDE_LISTENER \<Longrightarrow>
    connection_event env side events pool c n w = Some (Verdict_Keep, failed, pool', c', n', w') \<Longrightarrow> tcp_life pool' c' w'"
| others: "tcp_life pool c w \<Longrightarrow> undisturbed c w w' \<Longrightarrow> pool_ok pool' w' \<Longrightarrow> apart pool' c \<Longrightarrow> tcp_life pool' c w'"

inductive_cases tcp_lifeE: "tcp_life pool c w"

lemma undisturbed_stream: "undisturbed c w w' \<Longrightarrow> stream_ok c w \<Longrightarrow> stream_ok c w'"
proof -
  assume u: "undisturbed c w w'" and s: "stream_ok c w"
  have "w_read w' fd = w_read w fd" "w_sent w' fd = w_sent w fd" "w_shut w' fd = w_shut w fd"
    if "fd = tc_client_fd c \<or> fd = tc_upstream_fd c" for fd using u that unfolding undisturbed_def by blast+
  note fds = this(1) [OF disjI1 [OF refl]] this(1) [OF disjI2 [OF refl]] this(2) [OF disjI1 [OF refl]] this(2) [OF disjI2 [OF refl]]
    this(3) [OF disjI1 [OF refl]] this(3) [OF disjI2 [OF refl]]
  have pipes: "w_pipe w' (pipe_id (tc_client_to_upstream c)) = w_pipe w (pipe_id (tc_client_to_upstream c))"
    "w_pipe w' (pipe_id (tc_upstream_to_client c)) = w_pipe w (pipe_id (tc_upstream_to_client c))"
    using u unfolding undisturbed_def by blast+
  show ?thesis using s by (cases "tc_stage c") (auto simp: stream_ok_def quiet_def direction_ok_def fds pipes)
qed

lemma pool_ok_relay:
  assumes "splice_relay env side events c n w = Some (v, c', n', w')" "stream_ok c w" "tc_stage c = TCP_STAGE_RELAY"
    "pool_ok pool w" "apart pool c"
  shows "pool_ok pool w'"
proof -
  have same: "w_pipe w' i = w_pipe w i" if "i \<noteq> pipe_id (tc_client_to_upstream c)" "i \<noteq> pipe_id (tc_upstream_to_client c)" for i
    using splice_relay_pipes [OF assms(1-3) that] .
  show ?thesis unfolding pool_ok_def
  proof (intro conjI ballI)
    show "distinct (pool_ids pool)" using assms(4) by (simp add: pool_ok_def)
    fix i assume i: "i \<in> set (pool_ids pool)"
    then have "i \<noteq> pipe_id (tc_client_to_upstream c)" "i \<noteq> pipe_id (tc_upstream_to_client c)"
      using assms(3,5) by (auto simp: apart_def)
    then show "w_pipe w' i = []" using same i assms(4) by (simp add: pool_ok_def)
  qed
qed

lemma life_ok: "tcp_life pool c w \<Longrightarrow> stream_ok c w \<and> pool_ok pool w \<and> apart pool c"
proof (induction rule: tcp_life.induct)
  case (connecting c w pool)
  then show ?case by (auto simp: fresh_connection_def stream_ok_def quiet_def apart_def)
next
  case (connected c w pool c1 now sends c2 w2)
  have s: "stream_ok c w" "tc_stage c = TCP_STAGE_CONNECTING" using connected(1) by (auto simp: fresh_connection_def stream_ok_def quiet_def)
  have s1: "stream_ok c1 w" "tc_stage c1 = TCP_STAGE_REQUEST_WRITE" using start_handshake_ok [OF connected(3) s] by auto
  have "pool_ok pool w2" using connected(2) flush_handshake_pipe [OF connected(4)] by (simp add: pool_ok_def)
  then show ?case using flush_handshake_ok [OF connected(4) s1] by (auto simp: apart_def)
next
  case (event pool c w env side events n failed pool' c' n' w')
  show ?case
  proof (cases "tc_stage c = TCP_STAGE_RELAY")
    case True
    then have r: "splice_relay env side events c n w = Some (Verdict_Keep, c', n', w')" and p: "pool' = pool"
      using event.hyps by (auto simp: connection_event_def split: option.splits)
    have ok: "stream_ok c w" "pool_ok pool w" "apart pool c" using event.IH by auto
    show ?thesis using splice_relay_ok [OF r ok(1) True] pool_ok_relay [OF r ok(1) True ok(2,3)] ok(3) True p
      by (auto simp: apart_def same_pipes_def)
  next
    case False
    show ?thesis
    proof (cases "side = TCP_SIDE_CLIENT")
      case True
      then have "c' = c" "w' = w" "pool' = pool" using False event.hyps by (auto simp: connection_event_def)
      then show ?thesis using event.IH by simp
    next
      case up: False
      then have "upstream_handshake env events pool c w = Some (Verdict_Keep, failed, pool', c', w')"
        using False event.hyps by (auto simp: connection_event_def split: option.splits)
      from upstream_handshake_ok [OF this] show ?thesis using event False by blast
    qed
  qed
next
  case (others pool c w w' pool')
  then show ?case using undisturbed_stream by blast
qed

lemma direction_armed:
  assumes "direction_ok p s t pre_s pre_t w" "drained_is_shut p"
  shows "(splice_pipe_complete p \<or> splice_pipe_wants_input p \<or> sp_queued p > 0) \<and> (sp_queued p > 0 \<longleftrightarrow> w_pipe w (pipe_id p) \<noteq> [])"
proof -
  have "sp_queued p = length (w_pipe w (pipe_id p))" "sp_input_paused p \<longrightarrow> sp_queued p > 0"
    "sp_input_eof p \<and> sp_queued p = 0 \<longrightarrow> sp_output_shutdown p"
    using assms unfolding direction_ok_def drained_is_shut_def by blast+
  then show ?thesis by (auto simp: splice_pipe_wants_input_def splice_pipe_complete_def)
qed

lemma nth_append_left: "i < length xs \<Longrightarrow> (xs @ ys) ! i = xs ! i"
  by (simp add: nth_append)

lemma reply_length_stable:
  assumes "bpf2socks_socks5_reply_length r \<noteq> More"
  shows "bpf2socks_socks5_reply_length (r @ ys) = bpf2socks_socks5_reply_length r"
proof (cases "length r \<ge> 2 \<and> (r ! 0 \<noteq> 0x05 \<or> r ! 1 \<noteq> 0x00)")
  case True
  then have "length r \<ge> 2" "(r @ ys) ! 0 = r ! 0" "(r @ ys) ! 1 = r ! 1" by (auto intro!: nth_append_left)
  then show ?thesis using True by (simp add: bpf2socks_socks5_reply_length_def Let_def)
next
  case False
  then have l: "length r \<ge> 4" using assms by (auto simp: bpf2socks_socks5_reply_length_def Let_def split: if_splits)
  then have n: "(r @ ys) ! 0 = r ! 0" "(r @ ys) ! 1 = r ! 1" "(r @ ys) ! 3 = r ! 3" by (auto intro!: nth_append_left)
  have five: "length r \<ge> 5 \<and> (r @ ys) ! 4 = r ! 4" if "r ! 3 = 0x03"
    using assms l False that nth_append_left [of 4 r ys]
    by (auto simp: bpf2socks_socks5_reply_length_def Let_def split: if_splits)
  show ?thesis
  proof (cases "r ! 3 = 0x03")
    case True
    note five [OF True]
    then show ?thesis using l n False True by (simp add: bpf2socks_socks5_reply_length_def Let_def)
  next
    case ne: False
    then show ?thesis using l n False by (simp add: bpf2socks_socks5_reply_length_def Let_def)
  qed
qed

lemma replies_needed_stable:
  assumes "replies_needed xs \<noteq> More"
  shows "replies_needed (xs @ ys) = replies_needed xs"
proof (cases "length xs \<ge> 2 \<and> (xs ! 0 \<noteq> 0x05 \<or> xs ! 1 \<noteq> 0x00)")
  case True
  then have "(xs @ ys) ! 0 = xs ! 0" "(xs @ ys) ! 1 = xs ! 1" by (auto intro!: nth_append_left)
  then show ?thesis using True by (simp add: replies_needed_def)
next
  case False
  then have l: "length xs > 2" using assms by (auto simp: replies_needed_def split: if_splits)
  then have n: "(xs @ ys) ! 0 = xs ! 0" "(xs @ ys) ! 1 = xs ! 1" "drop 2 (xs @ ys) = drop 2 xs @ ys" by (auto intro!: nth_append_left)
  have "bpf2socks_socks5_reply_length (drop 2 xs) \<noteq> More" using assms l False by (auto simp: replies_needed_def)
  note st = reply_length_stable [OF this, of ys]
  show ?thesis
  proof (cases "bpf2socks_socks5_reply_length (drop 2 xs)")
    case (Done n)
    then have "length xs \<ge> n + 2" using assms l False by (auto simp: replies_needed_def split: if_splits)
    then show ?thesis using l False n st Done by (simp add: replies_needed_def)
  next
    case Fail
    then show ?thesis using l False n st by (simp add: replies_needed_def)
  next
    case More
    then show ?thesis using \<open>bpf2socks_socks5_reply_length (drop 2 xs) \<noteq> More\<close> by simp
  qed
qed

section \<open>A concrete connection\<close>

definition sample_connection :: tcp_connection where
  "sample_connection = \<lparr>tc_client_fd = 7, tc_upstream_fd = 8, tc_stage = TCP_STAGE_CONNECTING, tc_closing = False,
     tc_session_reserved = True,
     tc_client_ref = \<lparr>fr_connection = Some 0, fr_side = TCP_SIDE_CLIENT, fr_fd = 7, fr_events = 0x18\<rparr>,
     tc_upstream_ref = \<lparr>fr_connection = Some 0, fr_side = TCP_SIDE_UPSTREAM, fr_fd = 8, fr_events = 0x201c\<rparr>,
     tc_client_to_upstream = init_splice_pipe, tc_upstream_to_client = init_splice_pipe,
     tc_target = \<lparr>sa_family = 2, sa_port = 80, sa_addr = [1, 1, 1, 1] @ zero_bytes 12\<rparr>,
     tc_handshake = [], tc_handshake_offset = 0, tc_response = [], tc_response_expected = 0,
     tc_created_at_ms = 5, tc_last_activity_ms = 5, tc_active_linked = True, tc_active_prev = None, tc_active_next = None, tc_next = None\<rparr>"

definition sample_world :: tcp_world where
  "sample_world = \<lparr>w_read = (\<lambda>_. []), w_sent = (\<lambda>_. []), w_shut = (\<lambda>_. False), w_pipe = (\<lambda>_. [])\<rparr>"

text \<open>
  The upstream connects, takes the handshake and answers both replies with two bytes of payload;
  then the client sends three bytes, of which two reach the upstream at once.
\<close>

definition sample_tcp_env :: tcp_env where
  "sample_tcp_env = \<lparr>te_now = 9, te_sends = [Write_Error EINTR, Wrote 5, Wrote 8],
     te_recvs = [Read [5, 0, 5, 0, 0, 1, 9, 9, 9, 9, 0, 1, 104, 105]],
     te_pipe1 = \<lparr>pe_pipe2 = Some (10, 11), pe_fcntl = 4096\<rparr>, te_pipe2 = \<lparr>pe_pipe2 = Some (12, 13), pe_fcntl = 4096\<rparr>,
     te_early = Wrote 2, te_reads = [Read [1, 2, 3]], te_unread = False,
     te_up_writes = [Wrote 2, Write_Error EAGAIN], te_up_shutdown = None,
     te_down_writes = [Wrote 2], te_down_shutdown = None\<rparr>"

definition sample_bytes :: tcp_bytes where
  "sample_bytes = \<lparr>tb_client_to_upstream = 0, tb_upstream_to_client = 0\<rparr>"

definition sample_run :: "(tcp_verdict \<times> bool \<times> tcp_pipe_pool \<times> tcp_connection \<times> tcp_bytes \<times> tcp_world) option" where
  "sample_run = connection_event sample_tcp_env TCP_SIDE_UPSTREAM 0x5 [] sample_connection sample_bytes sample_world"

lemma sample_life:
  obtains pool c n w where "tcp_life pool c w" "tc_stage c = TCP_STAGE_RELAY"
    "sample_run = Some (Verdict_Keep, False, pool, c, n, w)"
proof -
  have "case sample_run of None \<Rightarrow> False
      | Some (v, f, pool, c, n, w) \<Rightarrow> v = Verdict_Keep \<and> \<not> f \<and> tc_stage c = TCP_STAGE_RELAY" by code_simp
  then obtain pool c n w where r: "sample_run = Some (Verdict_Keep, False, pool, c, n, w)" and st: "tc_stage c = TCP_STAGE_RELAY"
    by (auto split: option.splits)
  have l: "tcp_life [] sample_connection sample_world"
    by (rule tcp_life.connecting) (auto simp: fresh_connection_def sample_connection_def sample_world_def)
  have "fresh_pipes sample_tcp_env []" by (simp add: fresh_pipes_def sample_tcp_env_def)
  then have "tcp_life pool c w" using tcp_life.event [OF l _ _ r [unfolded sample_run_def]] by simp
  then show ?thesis using that st r by blast
qed

section \<open>Properties\<close>

text \<open>
  C6. The relay keeps both streams intact. In every run of a connection, once an event was handled
  in the relay stage (whatever the calls returned and whatever the verdict), the upstream server
  has received the handshake followed by a prefix of what the client sent, the rest of it being in
  the pipe in order; the client has received what the upstream sent after its two replies, up to
  what is in the other pipe; a direction is shut down only when its source has ended and its last
  byte was delivered; and the connection is closed as complete only when both directions are.
\<close>

theorem tcp_streams_intact:
  assumes "tcp_life pool c w" "tc_stage c = TCP_STAGE_RELAY"
    and "connection_event env side events pool c n w = Some (v, failed, pool', c', n', w')"
  shows "(let up = tc_upstream_fd c; cl = tc_client_fd c;
        c2u = tc_client_to_upstream c'; u2c = tc_upstream_to_client c' in
      (\<exists>x. w_sent w' up = tc_handshake c' @ x \<and> w_read w' cl = x @ w_pipe w' (pipe_id c2u)) \<and>
      w_read w' up = take (tc_response_expected c') (tc_response c') @ w_sent w' cl @ w_pipe w' (pipe_id u2c) \<and>
      (w_shut w' up \<longrightarrow> sp_input_eof c2u \<and> w_sent w' up = tc_handshake c' @ w_read w' cl) \<and>
      (w_shut w' cl \<longrightarrow> sp_input_eof u2c \<and> w_pipe w' (pipe_id u2c) = []) \<and>
      (v = Verdict_Close \<longrightarrow> w_shut w' up \<and> w_shut w' cl))"
proof -
  have r: "splice_relay env side events c n w = Some (v, c', n', w')"
    using assms(2,3) by (auto simp: connection_event_def split: option.splits)
  have s: "stream_ok c w" using life_ok assms(1) by blast
  note ok = splice_relay_ok [OF r s assms(2)]
  have st: "tc_stage c' = TCP_STAGE_RELAY" "tc_client_fd c' = tc_client_fd c" "tc_upstream_fd c' = tc_upstream_fd c"
    using ok assms(2) by (simp_all add: same_pipes_def)
  note d = stream_relayD(5,6) [OF conjunct1 [OF ok] st(1)]
  have "v = Verdict_Close \<longrightarrow> sp_output_shutdown (tc_client_to_upstream c') \<and> sp_output_shutdown (tc_upstream_to_client c')"
    using ok by (simp add: relay_complete_def splice_pipe_complete_def)
  then show ?thesis using d unfolding Let_def direction_ok_def st(2,3) by auto
qed

theorem tcp_streams_intact_witness:
  "\<exists>pool c w v failed pool' c' n n' w'. tcp_life pool c w \<and>
     connection_event sample_tcp_env TCP_SIDE_CLIENT 0x1 pool c n w = Some (v, failed, pool', c', n', w') \<and>
     w_read w' 8 = take (tc_response_expected c') (tc_response c') @ w_sent w' 7 @ w_pipe w' (pipe_id (tc_upstream_to_client c')) \<and>
     w_sent w' 7 = [104, 105] \<and> w_pipe w' (pipe_id (tc_client_to_upstream c')) = [3]"
proof -
  obtain pool c n w where l: "tcp_life pool c w" "tc_stage c = TCP_STAGE_RELAY"
    and run: "sample_run = Some (Verdict_Keep, False, pool, c, n, w)" by (rule sample_life)
  have "case sample_run of None \<Rightarrow> False | Some (_, _, pool, c, n, w) \<Rightarrow> tc_client_fd c = 7 \<and> tc_upstream_fd c = 8 \<and>
     (case connection_event sample_tcp_env TCP_SIDE_CLIENT 0x1 pool c n w of None \<Rightarrow> False
      | Some (v, f, pool', c', n', w') \<Rightarrow> w_sent w' 7 = [104, 105] \<and> w_pipe w' (pipe_id (tc_client_to_upstream c')) = [3])"
    by code_simp
  then obtain v f pool' c' n' w' where e: "connection_event sample_tcp_env TCP_SIDE_CLIENT 0x1 pool c n w = Some (v, f, pool', c', n', w')"
    and res: "w_sent w' 7 = [104, 105]" "w_pipe w' (pipe_id (tc_client_to_upstream c')) = [3]" "tc_client_fd c = 7" "tc_upstream_fd c = 8"
    unfolding run option.case prod.case by (auto split: option.splits)
  from tcp_streams_intact [OF l e]
  have "w_read w' 8 = take (tc_response_expected c') (tc_response c') @ w_sent w' 7 @ w_pipe w' (pipe_id (tc_upstream_to_client c'))"
    unfolding Let_def res(3,4) by blast
  then show ?thesis using l(1) e res(1,2) by blast
qed

text \<open>
  C7. A relay never stalls and never spins: after an event of the relay that keeps the connection,
  each direction that is not complete has an event armed that can move it on, input on its source
  or output on its target; input is asked for only while the source may still be read and its
  pipe has room, and output only while there are bytes to write.
\<close>

theorem tcp_relay_never_stalls:
  assumes "tcp_life pool c w" "tc_stage c = TCP_STAGE_RELAY"
    and "connection_event env side events pool c n w = Some (Verdict_Keep, failed, pool', c', n', w')"
  shows "(let c2u = tc_client_to_upstream c'; u2c = tc_upstream_to_client c';
        ce = client_events c'; ue = upstream_events c' in
      (splice_pipe_complete c2u \<or> ce AND EPOLLIN \<noteq> 0 \<or> ue AND EPOLLOUT \<noteq> 0) \<and>
      (splice_pipe_complete u2c \<or> ue AND EPOLLIN \<noteq> 0 \<or> ce AND EPOLLOUT \<noteq> 0) \<and>
      \<not> (splice_pipe_complete c2u \<and> splice_pipe_complete u2c) \<and>
      (ce AND EPOLLIN \<noteq> 0 \<longleftrightarrow> \<not> sp_input_eof c2u \<and> \<not> sp_input_paused c2u) \<and>
      (ue AND EPOLLIN \<noteq> 0 \<longleftrightarrow> \<not> sp_input_eof u2c \<and> \<not> sp_input_paused u2c) \<and>
      (ue AND EPOLLOUT \<noteq> 0 \<longleftrightarrow> w_pipe w' (pipe_id c2u) \<noteq> []) \<and> (ce AND EPOLLOUT \<noteq> 0 \<longleftrightarrow> w_pipe w' (pipe_id u2c) \<noteq> []))"
proof -
  have r: "splice_relay env side events c n w = Some (Verdict_Keep, c', n', w')"
    using assms(2,3) by (auto simp: connection_event_def split: option.splits)
  have s: "stream_ok c w" using life_ok assms(1) by blast
  note ok = splice_relay_ok [OF r s assms(2)]
  have st: "tc_stage c' = TCP_STAGE_RELAY" using ok assms(2) by (simp add: same_pipes_def)
  note d = stream_relayD(5,6) [OF conjunct1 [OF ok] st]
  have ev: "relay_side_events a b AND EPOLLIN \<noteq> 0 \<longleftrightarrow> a" "relay_side_events a b AND EPOLLOUT \<noteq> 0 \<longleftrightarrow> b" for a b
    by (cases a; cases b; simp add: relay_side_events_def Let_def)+
  have "client_events c' = relay_side_events (splice_pipe_wants_input (tc_client_to_upstream c')) (sp_queued (tc_upstream_to_client c') > 0)"
    "upstream_events c' = relay_side_events (splice_pipe_wants_input (tc_upstream_to_client c')) (sp_queued (tc_client_to_upstream c') > 0)"
    using st by (simp_all add: client_events_def upstream_events_def)
  then have evs: "client_events c' AND EPOLLIN \<noteq> 0 \<longleftrightarrow> splice_pipe_wants_input (tc_client_to_upstream c')"
    "upstream_events c' AND EPOLLIN \<noteq> 0 \<longleftrightarrow> splice_pipe_wants_input (tc_upstream_to_client c')"
    "upstream_events c' AND EPOLLOUT \<noteq> 0 \<longleftrightarrow> sp_queued (tc_client_to_upstream c') > 0"
    "client_events c' AND EPOLLOUT \<noteq> 0 \<longleftrightarrow> sp_queued (tc_upstream_to_client c') > 0"
    by (simp_all add: ev)
  have dr: "drained_is_shut (tc_client_to_upstream c')" "drained_is_shut (tc_upstream_to_client c')" "\<not> relay_complete c'"
    using ok by simp_all
  show ?thesis unfolding Let_def evs
    using direction_armed [OF d(1) dr(1)] direction_armed [OF d(2) dr(2)] dr(3)
    unfolding relay_complete_def splice_pipe_wants_input_def by satx
qed

theorem tcp_relay_never_stalls_witness:
  "\<exists>pool c w n pool' c' n' w'. tcp_life pool c w \<and>
     connection_event sample_tcp_env TCP_SIDE_CLIENT 0x1 pool c n w = Some (Verdict_Keep, False, pool', c', n', w') \<and>
     upstream_events c' AND EPOLLOUT \<noteq> 0"
proof -
  obtain pool c n w where l: "tcp_life pool c w" "tc_stage c = TCP_STAGE_RELAY"
    and run: "sample_run = Some (Verdict_Keep, False, pool, c, n, w)" by (rule sample_life)
  have "case sample_run of None \<Rightarrow> False | Some (_, _, pool, c, n, w) \<Rightarrow>
     (case connection_event sample_tcp_env TCP_SIDE_CLIENT 0x1 pool c n w of None \<Rightarrow> False
      | Some (v, f, pool', c', n', w') \<Rightarrow> v = Verdict_Keep \<and> \<not> f \<and> w_pipe w' (pipe_id (tc_client_to_upstream c')) \<noteq> [])"
    by code_simp
  then obtain pool' c' n' w' where e: "connection_event sample_tcp_env TCP_SIDE_CLIENT 0x1 pool c n w = Some (Verdict_Keep, False, pool', c', n', w')"
    and ne: "w_pipe w' (pipe_id (tc_client_to_upstream c')) \<noteq> []"
    unfolding run option.case prod.case by (auto split: option.splits)
  from tcp_relay_never_stalls [OF l e] ne show ?thesis using l(1) e unfolding Let_def by blast
qed

text \<open>
  C8. The pipelined SOCKS5 replies are recognised independently of how the upstream's bytes are
  segmented: what \<open>read_pipelined_replies\<close> decides on the bytes it has, complete with a length or
  malformed, no later byte changes; and the buffer is never full before the decision, so a reply
  of any legal length, early payload included, is never refused for lack of room.
\<close>

theorem tcp_replies_segmentation_independent:
  "(replies_needed xs \<noteq> More \<longrightarrow> replies_needed (xs @ ys) = replies_needed xs) \<and>
   (replies_needed xs = More \<longrightarrow> length xs < RESPONSE_CAP) \<and>
   (replies_needed xs = Done k \<longrightarrow> k \<le> length xs \<and> k \<le> RESPONSE_CAP)"
proof -
  have "k \<le> RESPONSE_CAP" if "replies_needed xs = Done k"
  proof -
    have "unat (drop 2 xs ! 4) < 256" using unsigned_less [of "drop 2 xs ! 4", where ?'a = nat] by simp
    then show ?thesis using that
      by (auto simp: replies_needed_def bpf2socks_socks5_reply_length_def RESPONSE_CAP_def Let_def split: if_splits progress.splits)
  qed
  then show ?thesis using replies_needed_stable [of xs ys] replies_needed_full [of xs] replies_needed_le [of xs k] by (meson not_le)
qed

theorem tcp_replies_segmentation_independent_witness:
  "replies_needed [5, 0, 5, 0, 0] = More \<and> length [5, 0, 5, 0, 0 :: u8] < RESPONSE_CAP \<and>
   replies_needed ([5, 0, 5, 0, 0, 1, 9, 9, 9, 9, 0, 1] @ [104]) = Done 12"
proof -
  have "replies_needed [5, 0, 5, 0, 0] = More" "replies_needed [5, 0, 5, 0, 0, 1, 9, 9, 9, 9, 0, 1] = Done 12" by code_simp+
  then show ?thesis
    using tcp_replies_segmentation_independent [of "[5, 0, 5, 0, 0]" "[]" 0]
      tcp_replies_segmentation_independent [of "[5, 0, 5, 0, 0, 1, 9, 9, 9, 9, 0, 1]" "[104]" 12] by auto
qed

end
