(* ===== verification/Tcp_Worker_Correct.thy ===== *)
theory Tcp_Worker_Correct
  imports Tcp_Worker Tcp_Stream_Correct
begin

text \<open>
  Correctness of the worker of \<^verbatim>\<open>bridge/tcp.c\<close>: every connection that is allocated is on exactly one
  of the two lists, every open socket belongs to exactly one live connection, the session budget
  counts exactly the live connections, the references that epoll hands back are those of live
  connections or are ignored, and no live connection has a deadline before the one the loop waits
  for. The loops over the lists return.
\<close>

section \<open>What a handled event leaves alone\<close>

definition admin where
  "admin c = (tc_client_fd c, tc_upstream_fd c, tc_closing c, tc_session_reserved c, tc_client_ref c, tc_upstream_ref c,
     tc_active_linked c, tc_active_prev c, tc_active_next c, tc_next c, tc_created_at_ms c)"

lemma admin_touch [simp]: "admin (connection_touch now c) = admin c" "admin (touch_if b now c) = admin c"
  by (simp_all add: admin_def connection_touch_def touch_if_def)

lemma admin_upd [simp]:
  "admin (c\<lparr>tc_stage := st\<rparr>) = admin c" "admin (c\<lparr>tc_client_to_upstream := p\<rparr>) = admin c"
  "admin (c\<lparr>tc_upstream_to_client := p\<rparr>) = admin c" "admin (c\<lparr>tc_handshake := h\<rparr>) = admin c"
  "admin (c\<lparr>tc_handshake_offset := n\<rparr>) = admin c" "admin (c\<lparr>tc_response := r\<rparr>) = admin c"
  "admin (c\<lparr>tc_response_expected := n\<rparr>) = admin c"
  by (simp_all add: admin_def)

lemma start_handshake_admin: "start_handshake c = Some c' \<Longrightarrow> admin c' = admin c"
  by (auto simp: start_handshake_def Let_def split: sum.splits if_splits)

lemma flush_handshake_admin: "flush_handshake now rs c w = Some (ok, c', w') \<Longrightarrow> admin c' = admin c"
proof (induction now rs c w rule: flush_handshake.induct)
  case (1 now rs c w)
  note run = 1(3) [unfolded flush_handshake.simps [of now rs c w]]
  show ?case
  proof (cases "tc_handshake_offset c < length (tc_handshake c)")
    case True
    with run 1 show ?thesis by (auto simp: Let_def split: list.splits write_result.splits if_splits)
  qed (use run in auto)
qed

lemma read_replies_admin: "read_pipelined_replies now rs c w = Some (r, c', w') \<Longrightarrow> admin c' = admin c"
proof (induction now rs c w rule: read_pipelined_replies.induct)
  case (1 now rs c w)
  note run = 1(3) [unfolded read_pipelined_replies.simps [of now rs c w]]
  show ?case
  proof (cases "RESPONSE_CAP - length (tc_response c) = 0")
    case False
    with run 1 show ?thesis by (auto simp: Let_def split: list.splits read_result.splits if_splits progress.splits)
  qed (use run in auto)
qed

lemma init_pipes_admin: "init_connection_splice_pipes e1 e2 pool c w = (ok, pool', c', w') \<Longrightarrow> admin c' = admin c"
  by (auto simp: init_connection_splice_pipes_def split: prod.splits option.splits)

lemma finish_admin: "finish_pipelined_replies e1 e2 wr pool c w = (ok, pool', c', w') \<Longrightarrow> admin c' = admin c"
  by (auto simp: finish_pipelined_replies_def Let_def dest!: init_pipes_admin
      split: prod.splits bool.splits if_splits write_result.splits)

lemma read_and_finish_admin: "read_and_finish env pool c w = Some (ok, pool', c', w') \<Longrightarrow> admin c' = admin c"
  by (auto simp: read_and_finish_def dest!: read_replies_admin finish_admin split: option.splits prod.splits replies.splits)

lemma handshake_admin: "upstream_handshake env ev pool c w = Some (v, f, pool', c', w') \<Longrightarrow> admin c' = admin c"
  by (auto simp: upstream_handshake_def Let_def
      dest!: start_handshake_admin flush_handshake_admin read_and_finish_admin
      split: if_splits option.splits prod.splits bool.splits)

lemma relay_input_admin: "relay_input env side ev c w = Some (ok, c', w') \<Longrightarrow> admin c' = admin c"
  by (auto simp: relay_input_def split: if_splits tcp_side.splits option.splits prod.splits)

lemma flush_relay_admin: "flush_relay_pipes env c n w = Some (f, c', n', w') \<Longrightarrow> admin c' = admin c"
  by (auto simp: flush_relay_pipes_def Let_def split: if_splits option.splits prod.splits)

lemma splice_relay_admin: "splice_relay env side ev c n w = Some (v, c', n', w') \<Longrightarrow> admin c' = admin c"
  by (auto simp: splice_relay_def dest!: relay_input_admin flush_relay_admin split: if_splits option.splits prod.splits bool.splits)

lemma connection_event_admin:
  "connection_event env side ev pool c n w = Some (v, f, pool', c', n', w') \<Longrightarrow> admin c' = admin c"
  by (auto simp: connection_event_def dest!: splice_relay_admin handshake_admin split: if_splits option.splits prod.splits)

section \<open>The invariant\<close>

definition act_links :: "nat option \<Rightarrow> 'm tcp_worker_state \<Rightarrow> nat links" where
  "act_links t s = \<lparr>lk_head = ws_active s, lk_tail = t, lk_next = (\<lambda>i. tc_active_next (ws_conns s i)),
     lk_prev = (\<lambda>i. tc_active_prev (ws_conns s i))\<rparr>"

definition active_list :: "'m tcp_worker_state \<Rightarrow> nat list \<Rightarrow> bool" where
  "active_list s xs \<longleftrightarrow> dll (act_links (last_or None xs) s) xs"

definition closed_list :: "'m tcp_worker_state \<Rightarrow> nat list \<Rightarrow> bool" where
  "closed_list s ys \<longleftrightarrow> chain (\<lambda>i. tc_next (ws_conns s i)) (ws_closed s) ys \<and> distinct ys"

text \<open>A live connection, given what epoll watches: its references name it and carry the registered events.\<close>

definition live_conn :: "(int \<Rightarrow> u32) \<Rightarrow> nat \<Rightarrow> tcp_connection \<Rightarrow> bool" where
  "live_conn ep i c \<longleftrightarrow> \<not> tc_closing c \<and> tc_active_linked c \<and> tc_session_reserved c \<and>
     tc_client_ref c = \<lparr>fr_connection = Some i, fr_side = TCP_SIDE_CLIENT, fr_fd = tc_client_fd c, fr_events = ep (tc_client_fd c)\<rparr> \<and>
     tc_upstream_ref c = \<lparr>fr_connection = Some i, fr_side = TCP_SIDE_UPSTREAM, fr_fd = tc_upstream_fd c, fr_events = ep (tc_upstream_fd c)\<rparr> \<and>
     tc_client_fd c \<ge> 0 \<and> tc_upstream_fd c \<ge> 0"

definition dead_conn :: "tcp_connection \<Rightarrow> bool" where
  "dead_conn c \<longleftrightarrow> tc_closing c \<and> \<not> tc_active_linked c \<and> \<not> tc_session_reserved c \<and>
     fr_connection (tc_client_ref c) = None \<and> fr_connection (tc_upstream_ref c) = None \<and>
     fr_side (tc_client_ref c) = TCP_SIDE_CLIENT \<and> fr_side (tc_upstream_ref c) = TCP_SIDE_UPSTREAM \<and>
     tc_client_fd c = -1 \<and> tc_upstream_fd c = -1"

definition conn_fds :: "tcp_connection \<Rightarrow> int list" where
  "conn_fds c = [tc_client_fd c, tc_upstream_fd c]"

definition live_fds :: "'m tcp_worker_state \<Rightarrow> nat list \<Rightarrow> int list" where
  "live_fds s xs = concat (map (\<lambda>i. conn_fds (ws_conns s i)) xs)"

definition listener_fds :: "'m tcp_worker_state \<Rightarrow> int set" where
  "listener_fds s = {fr_fd (ws_listener4_ref s), fr_fd (ws_listener6_ref s)}"

definition listeners_ok :: "'m tcp_worker_state \<Rightarrow> bool" where
  "listeners_ok s \<longleftrightarrow> fr_side (ws_listener4_ref s) = TCP_SIDE_LISTENER \<and> fr_side (ws_listener6_ref s) = TCP_SIDE_LISTENER"

definition worker_wf :: "u64 \<Rightarrow> 'm tcp_worker_state \<Rightarrow> nat list \<Rightarrow> nat list \<Rightarrow> bool" where
  "worker_wf base s xs ys \<longleftrightarrow> active_list s xs \<and> closed_list s ys \<and> set xs \<inter> set ys = {} \<and>
     (\<forall>i\<in>set xs. live_conn (ws_epoll s) i (ws_conns s i)) \<and> (\<forall>i\<in>set ys. dead_conn (ws_conns s i)) \<and>
     distinct (live_fds s xs) \<and> ws_open s = set (live_fds s xs) \<and> ws_heap s = set xs \<union> set ys \<and>
     tb_used (ws_budget s) = base + of_nat (length xs) \<and> listeners_ok s \<and> listener_fds s \<inter> ws_open s = {}"

definition deadlines_ok :: "bpf2socks_runtime_config \<Rightarrow> 'm tcp_worker_state \<Rightarrow> nat set \<Rightarrow> bool" where
  "deadlines_ok cf s A \<longleftrightarrow> (\<forall>i\<in>A. ws_next_deadline_ms s \<le> conn_deadline cf (ws_conns s i))"

section \<open>Closing one connection\<close>

text \<open>A connection apart from its links in the active list.\<close>

definition core :: "tcp_connection \<Rightarrow> tcp_connection" where
  "core c = c\<lparr>tc_active_prev := None, tc_active_next := None\<rparr>"

lemma core_fields:
  assumes "core c = core c'"
  shows "tc_closing c = tc_closing c'" "tc_active_linked c = tc_active_linked c'" "tc_session_reserved c = tc_session_reserved c'"
    "tc_client_ref c = tc_client_ref c'" "tc_upstream_ref c = tc_upstream_ref c'" "tc_client_fd c = tc_client_fd c'"
    "tc_upstream_fd c = tc_upstream_fd c'" "tc_next c = tc_next c'" "tc_stage c = tc_stage c'"
    "tc_created_at_ms c = tc_created_at_ms c'" "tc_last_activity_ms c = tc_last_activity_ms c'"
  using assms unfolding core_def by (cases c; cases c'; simp)+

lemma core_upd [simp]:
  "core (c\<lparr>tc_active_prev := p\<rparr>) = core c" "core (c\<lparr>tc_active_next := p\<rparr>) = core c"
  by (simp_all add: core_def)

lemma core_frame:
  assumes "core c = core c'"
  shows "dead_conn c = dead_conn c'" "live_conn ep i c = live_conn ep i c'" "conn_fds c = conn_fds c'"
    "conn_deadline cf c = conn_deadline cf c'"
  unfolding dead_conn_def live_conn_def conn_fds_def conn_deadline_def core_fields [OF assms] by (rule refl)+

lemma upd_conn_simps [simp]:
  "ws_conns (upd_conn i f s) = (ws_conns s)(i := f (ws_conns s i))"
  "ws_active (upd_conn i f s) = ws_active s" "ws_closed (upd_conn i f s) = ws_closed s"
  "ws_epoll (upd_conn i f s) = ws_epoll s" "ws_open (upd_conn i f s) = ws_open s"
  "ws_heap (upd_conn i f s) = ws_heap s" "ws_budget (upd_conn i f s) = ws_budget s"
  "ws_next_deadline_ms (upd_conn i f s) = ws_next_deadline_ms s" "ws_pipe_pool (upd_conn i f s) = ws_pipe_pool s"
  "ws_listener4_ref (upd_conn i f s) = ws_listener4_ref s" "ws_listener6_ref (upd_conn i f s) = ws_listener6_ref s"
  "ws_world (upd_conn i f s) = ws_world s" "ws_counters (upd_conn i f s) = ws_counters s"
  by (simp_all add: upd_conn_def)

lemma active_list_cong:
  assumes "ws_active s = ws_active s'" "\<And>j. tc_active_next (ws_conns s j) = tc_active_next (ws_conns s' j)"
    "\<And>j. tc_active_prev (ws_conns s j) = tc_active_prev (ws_conns s' j)"
  shows "active_list s xs = active_list s' xs"
  using assms by (simp add: active_list_def act_links_def)

lemma active_remove_links:
  assumes "active_list s xs" "i \<in> set xs" "tc_active_linked (ws_conns s i)"
  shows "active_list (active_remove s i) (remove1 i xs)"
proof -
  let ?l = "act_links (last_or None xs) s"
  have d: "dll ?l xs" using assms(1) by (simp only: active_list_def)
  then have d': "dll (detach_links ?l i) (remove1 i xs)" using assms(2) by (rule dll_detach)
  have first: "tc_active_prev (ws_conns s i) = None \<Longrightarrow> ws_active s = Some i"
  proof -
    obtain ys zs where xs: "xs = ys @ i # zs" using assms(2) by (meson split_list)
    assume none: "tc_active_prev (ws_conns s i) = None"
    have "lk_prev ?l i = last_or None ys" "lk_head ?l = first_or (Some i) ys" using d unfolding dll_def xs by simp_all
    then have "last_or None ys = None" "ws_active s = first_or (Some i) ys" using none by (simp_all add: act_links_def)
    then show "ws_active s = Some i" by (cases ys) (auto simp: last_or_def)
  qed
  have hd: "lk_head (act_links t (active_remove s i)) = lk_head (detach_links ?l i)" for t
    unfolding detach_head using assms(3) first
    by (cases "tc_active_prev (ws_conns s i)") (simp_all add: act_links_def active_remove_def Let_def split: option.split)
  note defs = act_links_def active_remove_def detach_links_def unlink_before_def unlink_after_def clear_links_def Let_def
  have nx: "lk_next (act_links t (active_remove s i)) = lk_next (detach_links ?l i)"
    and pr: "lk_prev (act_links t (active_remove s i)) = lk_prev (detach_links ?l i)" for t
    using assms(3) by (simp_all add: defs fun_eq_iff split: option.split)
  have "lk_tail (act_links t (active_remove s i)) = t" for t by (simp add: act_links_def)
  then show ?thesis using d' unfolding active_list_def dll_def hd nx pr by simp
qed

lemma active_remove_conns:
  "j \<noteq> i \<Longrightarrow> core (ws_conns (active_remove s i) j) = core (ws_conns s j)"
  "tc_active_linked (ws_conns s i) \<Longrightarrow>
     ws_conns (active_remove s i) i = (ws_conns s i)\<lparr>tc_active_prev := None, tc_active_next := None, tc_active_linked := False\<rparr>"
  by (auto simp: active_remove_def Let_def split: option.split)

lemma active_remove_frame [simp]:
  "ws_closed (active_remove s i) = ws_closed s" "ws_epoll (active_remove s i) = ws_epoll s"
  "ws_open (active_remove s i) = ws_open s" "ws_heap (active_remove s i) = ws_heap s"
  "ws_budget (active_remove s i) = ws_budget s" "ws_next_deadline_ms (active_remove s i) = ws_next_deadline_ms s"
  "ws_listener4_ref (active_remove s i) = ws_listener4_ref s" "ws_listener6_ref (active_remove s i) = ws_listener6_ref s"
  "ws_pipe_pool (active_remove s i) = ws_pipe_pool s" "ws_world (active_remove s i) = ws_world s"
  by (auto simp: active_remove_def Let_def split: option.split)

text \<open>The state after a live connection is closed, up to the links of the active list.\<close>

lemma close_connection_effect:
  assumes "live_conn ep i (ws_conns s i)"
  shows "j \<noteq> i \<Longrightarrow> core (ws_conns (close_connection s i) j) = core (ws_conns s j)"
    and "dead_conn (ws_conns (close_connection s i) i)"
    and "tc_next (ws_conns (close_connection s i) i) = ws_closed s" "ws_closed (close_connection s i) = Some i"
    and "ws_open (close_connection s i) = ws_open s - set (conn_fds (ws_conns s i))"
    and "ws_epoll (close_connection s i) = (ws_epoll s)(tc_client_fd (ws_conns s i) := 0, tc_upstream_fd (ws_conns s i) := 0)"
    and "ws_heap (close_connection s i) = ws_heap s"
    and "ws_budget (close_connection s i) = release_tcp_session_budget (ws_budget s)"
    and "ws_next_deadline_ms (close_connection s i) = ws_next_deadline_ms s"
    and "ws_listener4_ref (close_connection s i) = ws_listener4_ref s"
    and "ws_listener6_ref (close_connection s i) = ws_listener6_ref s"
    and "ws_pipe_pool (close_connection s i) = ws_pipe_pool s" "ws_world (close_connection s i) = ws_world s"
proof -
  let ?s1 = "upd_conn i (\<lambda>c. c\<lparr>tc_closing := True, tc_client_ref := (tc_client_ref c)\<lparr>fr_connection := None\<rparr>,
                       tc_upstream_ref := (tc_upstream_ref c)\<lparr>fr_connection := None\<rparr>\<rparr>) s"
  note l = assms [unfolded live_conn_def]
  have "tc_active_linked (ws_conns ?s1 i)" using l by simp
  note r = active_remove_conns(2) [OF this] and q = active_remove_conns(1) [of _ i ?s1]
  note defs = close_connection_def closed_add_def release_tcp_session_def forget_fd_def close_fd_def Let_def
  show "j \<noteq> i \<Longrightarrow> core (ws_conns (close_connection s i) j) = core (ws_conns s j)"
    using l q [of j] by (simp add: defs r)
  show "dead_conn (ws_conns (close_connection s i) i)" using l by (simp add: defs r dead_conn_def)
  show "tc_next (ws_conns (close_connection s i) i) = ws_closed s" "ws_closed (close_connection s i) = Some i"
    "ws_open (close_connection s i) = ws_open s - set (conn_fds (ws_conns s i))"
    "ws_epoll (close_connection s i) = (ws_epoll s)(tc_client_fd (ws_conns s i) := 0, tc_upstream_fd (ws_conns s i) := 0)"
    "ws_heap (close_connection s i) = ws_heap s"
    "ws_budget (close_connection s i) = release_tcp_session_budget (ws_budget s)"
    "ws_next_deadline_ms (close_connection s i) = ws_next_deadline_ms s"
    "ws_listener4_ref (close_connection s i) = ws_listener4_ref s"
    "ws_listener6_ref (close_connection s i) = ws_listener6_ref s"
    "ws_pipe_pool (close_connection s i) = ws_pipe_pool s" "ws_world (close_connection s i) = ws_world s"
    using l by (simp_all add: defs r conn_fds_def insert_commute Diff_insert2 [symmetric])
qed

lemma close_connection_active:
  assumes "active_list s xs" "i \<in> set xs" "live_conn ep i (ws_conns s i)"
  shows "active_list (close_connection s i) (remove1 i xs)"
proof -
  let ?s1 = "upd_conn i (\<lambda>c. c\<lparr>tc_closing := True, tc_client_ref := (tc_client_ref c)\<lparr>fr_connection := None\<rparr>,
                       tc_upstream_ref := (tc_upstream_ref c)\<lparr>fr_connection := None\<rparr>\<rparr>) s"
  have nx: "tc_active_next (ws_conns (close_connection s i) j) = tc_active_next (ws_conns (active_remove ?s1 i) j)"
    and pr: "tc_active_prev (ws_conns (close_connection s i) j) = tc_active_prev (ws_conns (active_remove ?s1 i) j)"
    and hd: "ws_active (close_connection s i) = ws_active (active_remove ?s1 i)" for j
    using assms(3) by (simp_all add: live_conn_def close_connection_def closed_add_def release_tcp_session_def forget_fd_def
        close_fd_def Let_def)
  have "active_list ?s1 xs" "tc_active_linked (ws_conns ?s1 i)"
    using assms active_list_cong [of ?s1 s xs] by (simp_all add: live_conn_def)
  then have "active_list (active_remove ?s1 i) (remove1 i xs)" using assms(2) by (intro active_remove_links) 
  then show ?thesis unfolding active_list_def act_links_def nx pr hd .
qed


lemma live_fds_append [simp]: "live_fds s (xs @ ys) = live_fds s xs @ live_fds s ys"
  by (simp add: live_fds_def)

lemma live_fds_Cons [simp]: "live_fds s (x # xs) = conn_fds (ws_conns s x) @ live_fds s xs"
  by (simp add: live_fds_def)

lemma live_fds_Nil [simp]: "live_fds s [] = []"
  by (simp add: live_fds_def)

lemma live_fds_cong: "(\<And>i. i \<in> set xs \<Longrightarrow> conn_fds (ws_conns s i) = conn_fds (ws_conns s' i)) \<Longrightarrow> live_fds s xs = live_fds s' xs"
  by (simp add: live_fds_def cong: map_cong)

lemma chain_cong: "(\<And>i. i \<in> set ys \<Longrightarrow> nxt i = nxt' i) \<Longrightarrow> chain nxt p ys = chain nxt' p ys"
  by (induction ys arbitrary: p) auto

lemma conn_fds_in_live: "i \<in> set xs \<Longrightarrow> set (conn_fds (ws_conns s i)) \<subseteq> set (live_fds s xs)"
  by (auto simp: live_fds_def)

lemma worker_wf_lists: "worker_wf base s xs ys \<Longrightarrow> distinct xs \<and> distinct ys"
  by (auto simp: worker_wf_def active_list_def closed_list_def dest: dll_distinct)

lemma worker_wf_live: "worker_wf base s xs ys \<Longrightarrow> i \<in> set xs \<Longrightarrow> live_conn (ws_epoll s) i (ws_conns s i)"
  by (simp add: worker_wf_def)

lemma live_conn_epoll:
  "ep (tc_client_fd c) = ep' (tc_client_fd c) \<Longrightarrow> ep (tc_upstream_fd c) = ep' (tc_upstream_fd c) \<Longrightarrow>
   live_conn ep i c = live_conn ep' i c"
  by (simp add: live_conn_def)

text \<open>The descriptors of two live connections have nothing in common.\<close>

lemma live_fds_apart:
  assumes "distinct (live_fds s xs)" "distinct xs" "i \<in> set xs" "j \<in> set xs" "i \<noteq> j"
  shows "set (conn_fds (ws_conns s i)) \<inter> set (conn_fds (ws_conns s j)) = {}"
proof -
  obtain as bs where xs: "xs = as @ i # bs" using assms(3) by (meson split_list)
  then have "j \<in> set as \<or> j \<in> set bs" using assms(4,5) by auto
  then show ?thesis using conn_fds_in_live [of j as s] conn_fds_in_live [of j bs s] assms(1) xs by fastforce
qed

lemma live_fds_remove:
  assumes "distinct (live_fds s xs)" "distinct xs" "i \<in> set xs"
  shows "distinct (live_fds s (remove1 i xs))"
    and "set (live_fds s (remove1 i xs)) = set (live_fds s xs) - set (conn_fds (ws_conns s i))"
proof -
  obtain as bs where xs: "xs = as @ i # bs" using assms(3) by (meson split_list)
  then have r: "remove1 i xs = as @ bs" using assms(2) by (simp add: remove1_append)
  show "distinct (live_fds s (remove1 i xs))" using assms(1) [unfolded xs] unfolding r by auto
  show "set (live_fds s (remove1 i xs)) = set (live_fds s xs) - set (conn_fds (ws_conns s i))"
    using assms(1) unfolding r unfolding xs by auto
qed

lemma close_wf:
  assumes wf: "worker_wf base s xs ys" and i: "i \<in> set xs"
  shows "worker_wf base (close_connection s i) (remove1 i xs) (i # ys)"
proof -
  let ?s = "close_connection s i"
  note w = wf [unfolded worker_wf_def] and live = worker_wf_live [OF wf i]
  note e = close_connection_effect [OF live] and frame = core_frame [OF close_connection_effect(1) [OF live]]
  have dist: "distinct xs" "distinct ys" using worker_wf_lists [OF wf] by simp_all
  then have others: "set (remove1 i xs) = set xs - {i}" "i \<notin> set ys" using w i by auto
  have fds: "live_fds ?s (remove1 i xs) = live_fds s (remove1 i xs)"
    using others(1) by (intro live_fds_cong frame(3)) auto
  note rest = live_fds_remove [OF _ dist(1) i, of s]
  have "active_list ?s (remove1 i xs)" using w live i by (intro close_connection_active) auto
  moreover have "closed_list ?s (i # ys)"
  proof -
    have "chain (\<lambda>j. tc_next (ws_conns ?s j)) (ws_closed s) ys = chain (\<lambda>j. tc_next (ws_conns s j)) (ws_closed s) ys"
      using others(2) core_fields(8) [OF e(1)] by (intro chain_cong) metis
    with w others(2) e(3,4) show ?thesis by (simp add: closed_list_def)
  qed
  moreover have "live_conn (ws_epoll ?s) j (ws_conns ?s j)" if "j \<in> set (remove1 i xs)" for j
  proof -
    have j: "j \<in> set xs" "j \<noteq> i" using that others(1) by auto
    have "set (conn_fds (ws_conns s i)) \<inter> set (conn_fds (ws_conns s j)) = {}"
      using w dist(1) i j by (intro live_fds_apart) auto
    then have "live_conn (ws_epoll ?s) j (ws_conns s j)"
      using worker_wf_live [OF wf j(1)] live_conn_epoll [of "ws_epoll ?s" "ws_conns s j" "ws_epoll s" j]
      by (auto simp: e(6) conn_fds_def)
    then show ?thesis using frame(2) [OF j(2)] by simp
  qed
  moreover have "\<forall>j\<in>set (i # ys). dead_conn (ws_conns ?s j)"
    using w e(2) frame(1) others(2) by (metis set_ConsD)
  moreover have "distinct (live_fds ?s (remove1 i xs))" "ws_open ?s = set (live_fds ?s (remove1 i xs))"
    using w rest by (simp_all add: fds e(5))
  moreover have "ws_heap ?s = set (remove1 i xs) \<union> set (i # ys)" "set (remove1 i xs) \<inter> set (i # ys) = {}"
    using w others i e(7) by auto
  moreover have "tb_used (ws_budget ?s) = base + of_nat (length (remove1 i xs))"
  proof -
    have "length xs = Suc (length (remove1 i xs))" using i length_pos_if_in_set [OF i] by (simp add: length_remove1)
    then show ?thesis using w by (simp add: e(8) release_tcp_session_budget_def)
  qed
  moreover have "listeners_ok ?s" "listener_fds ?s \<inter> ws_open ?s = {}"
    using w by (auto simp: listeners_ok_def listener_fds_def e(5,10,11))
  ultimately show ?thesis unfolding worker_wf_def by blast
qed


text \<open>The parts of the state the invariant reads.\<close>

definition wf_view where
  "wf_view s = (ws_conns s, ws_active s, ws_closed s, ws_epoll s, ws_open s, ws_heap s, ws_budget s, ws_listener4_ref s, ws_listener6_ref s)"

lemma worker_wf_view: "wf_view s = wf_view s' \<Longrightarrow> worker_wf base s xs ys = worker_wf base s' xs ys"
  by (simp add: wf_view_def worker_wf_def active_list_def closed_list_def act_links_def live_fds_def listeners_ok_def listener_fds_def)

lemma reset_on_close_view [simp]:
  "wf_view (reset_on_close fd s) = wf_view s" "ws_next_deadline_ms (reset_on_close fd s) = ws_next_deadline_ms s"
  "ws_conns (reset_on_close fd s) = ws_conns s" "ws_epoll (reset_on_close fd s) = ws_epoll s"
  by (simp_all add: reset_on_close_def wf_view_def)

lemma counters_view [simp]: "wf_view (s\<lparr>ws_counters := k\<rparr>) = wf_view s"
  by (simp add: wf_view_def)

lemma deadline_view [simp]: "wf_view (s\<lparr>ws_next_deadline_ms := d\<rparr>) = wf_view s"
  by (simp add: wf_view_def)

text \<open>Closing and resetting a live connection: it moves to the closed list, and nothing else about the others changes.\<close>

definition closes :: "nat \<Rightarrow> 'm tcp_worker_state \<Rightarrow> 'm tcp_worker_state \<Rightarrow> bool" where
  "closes i s s' \<longleftrightarrow> (\<forall>j. j \<noteq> i \<longrightarrow> core (ws_conns s' j) = core (ws_conns s j)) \<and> ws_next_deadline_ms s' = ws_next_deadline_ms s"

lemma close_closes:
  assumes "worker_wf base s xs ys" "i \<in> set xs"
  shows "worker_wf base (close_connection s i) (remove1 i xs) (i # ys) \<and> closes i s (close_connection s i)"
  using close_wf [OF assms] close_connection_effect [OF worker_wf_live [OF assms]] by (simp add: closes_def)

lemma reset_closes:
  assumes wf: "worker_wf base s xs ys" and i: "i \<in> set xs"
  shows "worker_wf base (reset_connection s i side) (remove1 i xs) (i # ys) \<and> closes i s (reset_connection s i side)"
proof -
  let ?s = "reset_on_close (if side = TCP_SIDE_CLIENT then tc_upstream_fd (ws_conns s i) else tc_client_fd (ws_conns s i)) s"
  have "reset_connection s i side = close_connection ?s i"
    using worker_wf_live [OF wf i] by (simp add: reset_connection_def live_conn_def)
  moreover have "worker_wf base ?s xs ys" using wf worker_wf_view [of ?s s] by simp
  ultimately show ?thesis using close_closes [of base ?s xs ys i] i by (auto simp: closes_def)
qed

section \<open>The expiry scan\<close>

lemma active_list_next:
  assumes "active_list s (as @ i # bs)"
  shows "tc_active_next (ws_conns s i) = first_or None bs"
  using assms by (simp add: active_list_def dll_def) (simp add: act_links_def)

lemma active_list_head: "active_list s xs \<Longrightarrow> ws_active s = first_or None xs"
  by (simp add: active_list_def dll_def) (simp add: act_links_def)

lemma note_deadline_le: "bpf2socks_deadline_note d e \<le> d \<and> bpf2socks_deadline_note d e \<le> e"
  by (auto simp: bpf2socks_deadline_note_def)

lemma expired_core: "core c = core c' \<Longrightarrow> conn_expired cf now c = conn_expired cf now c'"
  by (simp add: conn_expired_def core_fields(9-11) [of c c'])

lemma deadlines_ok_subset: "deadlines_ok cf s A \<Longrightarrow> B \<subseteq> A \<Longrightarrow> deadlines_ok cf s B"
  by (auto simp: deadlines_ok_def)

lemma deadlines_ok_core:
  assumes "deadlines_ok cf s A" "\<And>j. j \<in> A \<Longrightarrow> core (ws_conns s' j) = core (ws_conns s j)"
    "ws_next_deadline_ms s' \<le> ws_next_deadline_ms s"
  shows "deadlines_ok cf s' A"
  unfolding deadlines_ok_def
proof
  fix j assume j: "j \<in> A"
  show "ws_next_deadline_ms s' \<le> conn_deadline cf (ws_conns s' j)"
    using assms(1,3) j core_frame(4) [OF assms(2) [OF j]] by (auto simp: deadlines_ok_def intro: order_trans)
qed

text \<open>The scan from connection to connection: the expired ones leave the list, the others are noted.\<close>

lemma expire_one_step:
  assumes wf: "worker_wf base s (as @ i # bs) ys"
  shows "if conn_expired cf now (ws_conns s i)
         then worker_wf base (expire_one cf now s i) (as @ bs) (i # ys) \<and> closes i s (expire_one cf now s i)
         else expire_one cf now s i = s\<lparr>ws_next_deadline_ms :=
                bpf2socks_deadline_note (ws_next_deadline_ms s) (conn_deadline cf (ws_conns s i))\<rparr>"
proof (cases "conn_expired cf now (ws_conns s i)")
  case True
  let ?s = "\<lambda>k. s\<lparr>ws_counters := k\<rparr>"
  have "distinct (as @ i # bs)" using worker_wf_lists [OF wf] by simp
  then have rem: "remove1 i (as @ i # bs) = as @ bs" by (simp add: remove1_append)
  have wf': "worker_wf base (?s k) (as @ i # bs) ys" for k using wf worker_wf_view [of "?s k" s] by simp
  have "worker_wf base (close_connection (?s k) i) (as @ bs) (i # ys) \<and> closes i s (close_connection (?s k) i)"
    "worker_wf base (reset_connection (?s k) i side) (as @ bs) (i # ys) \<and> closes i s (reset_connection (?s k) i side)" for k side
    using close_closes [OF wf', of i k] reset_closes [OF wf', of i k side] by (auto simp: rem closes_def)
  then show ?thesis using True by (simp add: expire_one_def)
next
  case False
  then show ?thesis using worker_wf_live [OF wf, of i] by (simp add: expire_one_def note_connection_deadline_def live_conn_def)
qed

definition live_after :: "bpf2socks_runtime_config \<Rightarrow> u64 \<Rightarrow> 'm tcp_worker_state \<Rightarrow> nat list \<Rightarrow> nat list" where
  "live_after cf now s xs = filter (\<lambda>i. \<not> conn_expired cf now (ws_conns s i)) xs"

definition expired_set :: "bpf2socks_runtime_config \<Rightarrow> u64 \<Rightarrow> 'm tcp_worker_state \<Rightarrow> nat list \<Rightarrow> nat set" where
  "expired_set cf now s xs = {i \<in> set xs. conn_expired cf now (ws_conns s i)}"

definition scanned :: "nat set \<Rightarrow> nat list \<Rightarrow> nat list \<Rightarrow> 'm tcp_worker_state \<Rightarrow> 'm tcp_worker_state \<Rightarrow> bool" where
  "scanned E ys ys' s s' \<longleftrightarrow> set ys' = set ys \<union> E \<and> (\<forall>j. j \<notin> E \<longrightarrow> core (ws_conns s' j) = core (ws_conns s j))"

lemma expire_loop_ok:
  assumes "worker_wf base s (as @ bs) ys" "deadlines_ok cf s (set as)"
  shows "\<exists>s' ys'. expire_loop cf now (first_or None bs) s = Some s' \<and>
    worker_wf base s' (as @ live_after cf now s bs) ys' \<and> deadlines_ok cf s' (set (as @ live_after cf now s bs)) \<and>
    scanned (expired_set cf now s bs) ys ys' s s'"
  using assms
proof (induction bs arbitrary: as s ys)
  case Nil
  then show ?case by (auto simp: expire_loop.simps live_after_def scanned_def expired_set_def)
next
  case (Cons i bs)
  let ?s = "expire_one cf now s i"
  note wf = Cons.prems(1) and step = expire_one_step [OF Cons.prems(1), of cf now]
  have nx: "tc_active_next (ws_conns s i) = first_or None bs" using wf active_list_next [of s as i bs] by (simp add: worker_wf_def)
  have run: "expire_loop cf now (first_or None (i # bs)) s = expire_loop cf now (first_or None bs) ?s"
    by (simp add: expire_loop.simps [of cf now "Some i"] nx)
  have dist: "distinct (as @ i # bs)" using worker_wf_lists [OF wf] by simp
  show ?case
  proof (cases "conn_expired cf now (ws_conns s i)")
    case True
    with step have wf': "worker_wf base ?s (as @ bs) (i # ys)" and c: "closes i s ?s" by simp_all
    have same: "core (ws_conns ?s j) = core (ws_conns s j)" if "j \<noteq> i" for j using c that by (simp add: closes_def)
    have dl: "deadlines_ok cf ?s (set as)"
    proof (rule deadlines_ok_core [OF Cons.prems(2)])
      show "core (ws_conns ?s j) = core (ws_conns s j)" if "j \<in> set as" for j using dist that by (intro same) auto
      show "ws_next_deadline_ms ?s \<le> ws_next_deadline_ms s" using c by (simp add: closes_def)
    qed
    have exp: "conn_expired cf now (ws_conns ?s j) = conn_expired cf now (ws_conns s j)" if "j \<in> set bs" for j
      using dist that by (intro expired_core same) auto
    then have live: "live_after cf now ?s bs = live_after cf now s (i # bs)"
      unfolding live_after_def using True by (simp cong: filter_cong)
    have E: "expired_set cf now s (i # bs) = insert i (expired_set cf now ?s bs)"
      using True exp by (auto simp: expired_set_def)
    have "scanned (expired_set cf now s (i # bs)) ys ys' s s'" if "scanned (expired_set cf now ?s bs) (i # ys) ys' ?s s'" for s' ys'
      using that same unfolding scanned_def E by simp
    then show ?thesis using Cons.IH [OF wf' dl] unfolding live run by blast
  next
    case False
    with step have s': "?s = s\<lparr>ws_next_deadline_ms := bpf2socks_deadline_note (ws_next_deadline_ms s) (conn_deadline cf (ws_conns s i))\<rparr>"
      by simp
    have wf': "worker_wf base ?s ((as @ [i]) @ bs) ys" using wf worker_wf_view [of ?s s] s' by simp
    have dl: "deadlines_ok cf ?s (set (as @ [i]))"
      using Cons.prems(2) note_deadline_le [of "ws_next_deadline_ms s" "conn_deadline cf (ws_conns s i)"] unfolding s'
      by (auto simp: deadlines_ok_def intro: order_trans)
    have live: "(as @ [i]) @ live_after cf now ?s bs = as @ live_after cf now s (i # bs)"
      using False by (simp add: live_after_def s')
    have "expired_set cf now s (i # bs) = expired_set cf now ?s bs" "ws_conns ?s = ws_conns s"
      using False by (auto simp: s' expired_set_def)
    then have "scanned (expired_set cf now s (i # bs)) ys ys' s s' = scanned (expired_set cf now ?s bs) ys ys' ?s s'" for s' ys'
      by (simp add: scanned_def)
    then show ?thesis using Cons.IH [OF wf' dl] unfolding live run by blast
  qed
qed

lemma expire_tcp_connections_ok:
  assumes wf: "worker_wf base s xs ys" and dl: "deadlines_ok cf s (set xs)"
  shows "\<exists>s' xs' ys'. expire_tcp_connections cf s now = Some s' \<and> worker_wf base s' xs' ys' \<and> deadlines_ok cf s' (set xs') \<and>
    (if now = 0 \<or> now < ws_next_deadline_ms s then s' = s \<and> xs' = xs
     else xs' = live_after cf now s xs \<and> scanned (expired_set cf now s xs) ys ys' s s')"
proof (cases "now = 0 \<or> now < ws_next_deadline_ms s")
  case True
  then show ?thesis using assms by (auto simp: expire_tcp_connections_def)
next
  case False
  let ?s = "s\<lparr>ws_next_deadline_ms := NO_DEADLINE\<rparr>"
  have "worker_wf base ?s ([] @ xs) ys" using wf worker_wf_view [of ?s s] by simp
  moreover have "deadlines_ok cf ?s (set [])" by (simp add: deadlines_ok_def)
  ultimately have "\<exists>s' ys'. expire_loop cf now (first_or None xs) ?s = Some s' \<and> worker_wf base s' ([] @ live_after cf now ?s xs) ys' \<and>
      deadlines_ok cf s' (set ([] @ live_after cf now ?s xs)) \<and> scanned (expired_set cf now ?s xs) ys ys' ?s s'"
    by (rule expire_loop_ok)
  moreover have "live_after cf now ?s xs = live_after cf now s xs" "expired_set cf now ?s xs = expired_set cf now s xs"
    "scanned E ys ys' ?s s' = scanned E ys ys' s s'" for E ys' s'
    by (simp_all add: live_after_def expired_set_def scanned_def)
  moreover have "ws_active s = first_or None xs" using wf by (simp add: worker_wf_def active_list_head)
  ultimately show ?thesis using False by (auto simp: expire_tcp_connections_def)
qed


section \<open>Freeing and shutting down\<close>

text \<open>What is left unchanged when connections in \<open>A\<close> are freed.\<close>

definition frees :: "nat set \<Rightarrow> 'm tcp_worker_state \<Rightarrow> 'm tcp_worker_state \<Rightarrow> bool" where
  "frees A s s' \<longleftrightarrow> (\<forall>j. j \<notin> A \<longrightarrow> ws_conns s' j = ws_conns s j) \<and> ws_heap s' = ws_heap s - A \<and> ws_active s' = ws_active s \<and>
     ws_closed s' = ws_closed s \<and> ws_epoll s' = ws_epoll s \<and> ws_open s' = ws_open s \<and> ws_budget s' = ws_budget s \<and>
     ws_listener4_ref s' = ws_listener4_ref s \<and> ws_listener6_ref s' = ws_listener6_ref s \<and>
     ws_next_deadline_ms s' = ws_next_deadline_ms s \<and> ws_world s' = ws_world s"

lemma frees_trans: "frees A s s1 \<Longrightarrow> frees B s1 s2 \<Longrightarrow> frees (A \<union> B) s s2"
  by (auto simp: frees_def)

lemma free_dead_connection: "dead_conn (ws_conns s i) \<Longrightarrow> frees {i} s (free_connection s i)"
  by (auto simp: frees_def free_connection_def Let_def close_fd_def dead_conn_def split: prod.split)

lemma free_chain_ok:
  assumes "chain (\<lambda>i. tc_next (ws_conns s i)) p ys" "distinct ys" "\<forall>i\<in>set ys. dead_conn (ws_conns s i)"
  shows "\<exists>s'. free_chain p s = Some s' \<and> frees (set ys) s s'"
  using assms
proof (induction ys arbitrary: p s)
  case Nil
  then show ?case by (simp add: free_chain.simps frees_def)
next
  case (Cons i ys)
  let ?s = "free_connection s i"
  have f: "frees {i} s ?s" using Cons.prems by (intro free_dead_connection) simp
  then have "chain (\<lambda>j. tc_next (ws_conns ?s j)) (tc_next (ws_conns s i)) ys"
    using Cons.prems chain_cong [of ys "\<lambda>j. tc_next (ws_conns ?s j)" "\<lambda>j. tc_next (ws_conns s j)" "tc_next (ws_conns s i)"]
    by (force simp: frees_def)
  moreover have "\<forall>j\<in>set ys. dead_conn (ws_conns ?s j)" using f Cons.prems by (auto simp: frees_def)
  ultimately obtain s' where "free_chain (tc_next (ws_conns s i)) ?s = Some s'" "frees (set ys) ?s s'"
    using Cons.IH [of ?s "tc_next (ws_conns s i)"] Cons.prems by auto
  then show ?case using frees_trans [OF f, of "set ys" s'] Cons.prems by (simp add: free_chain.simps [of "Some i"])
qed

lemma free_closed_ok:
  assumes wf: "worker_wf base s xs ys"
  shows "\<exists>s'. free_closed_connections s = Some s' \<and> worker_wf base s' xs [] \<and> ws_next_deadline_ms s' = ws_next_deadline_ms s \<and>
    (\<forall>i\<in>set xs. ws_conns s' i = ws_conns s i)"
proof -
  let ?s = "if ws_closed s \<noteq> None \<and> ws_listeners_paused s then s\<lparr>ws_closed := None, ws_listeners_resume_ms := 0\<rparr> else s\<lparr>ws_closed := None\<rparr>"
  note w = wf [unfolded worker_wf_def]
  have "\<exists>s'. free_chain (ws_closed s) ?s = Some s' \<and> frees (set ys) ?s s'"
    using w by (intro free_chain_ok) (auto simp: closed_list_def)
  then obtain s' where run: "free_chain (ws_closed s) ?s = Some s'" and f: "frees (set ys) ?s s'" by blast
  have conns: "ws_conns s' j = ws_conns s j" if "j \<notin> set ys" for j using f that by (simp add: frees_def)
  have apart: "i \<notin> set ys" if "i \<in> set xs" for i using w that by auto
  have "live_fds s' xs = live_fds s xs" using apart by (intro live_fds_cong) (simp add: conns)
  moreover have "active_list s' xs"
  proof -
    have "dseg (\<lambda>i. tc_active_next (ws_conns s' i)) (\<lambda>i. tc_active_prev (ws_conns s' i)) p zs q =
          dseg (\<lambda>i. tc_active_next (ws_conns s i)) (\<lambda>i. tc_active_prev (ws_conns s i)) p zs q" if "set zs \<subseteq> set xs" for p zs q
      using that by (induction zs arbitrary: p) (auto simp: conns apart)
    moreover have "ws_active s' = ws_active s" using f by (simp add: frees_def)
    ultimately show ?thesis using w by (simp add: active_list_def dll_def act_links_def)
  qed
  moreover have "live_conn (ws_epoll s') i (ws_conns s' i)" if "i \<in> set xs" for i
    using w f that by (simp add: frees_def conns [OF apart [OF that]])
  moreover have "closed_list s' []" "ws_heap s' = set xs" "ws_open s' = ws_open s" "ws_budget s' = ws_budget s"
    "ws_listener4_ref s' = ws_listener4_ref s" "ws_listener6_ref s' = ws_listener6_ref s"
    using f w by (auto simp: frees_def closed_list_def)
  ultimately have "worker_wf base s' xs []"
    using w by (auto simp: worker_wf_def listeners_ok_def listener_fds_def)
  moreover have "ws_next_deadline_ms s' = ws_next_deadline_ms s" using f by (simp add: frees_def)
  moreover have "free_closed_connections s = Some s'"
    using run by (simp add: free_closed_connections_def Let_def cong: if_cong)
  ultimately show ?thesis using conns apart by auto
qed

lemma close_active_loop_ok:
  assumes "worker_wf base s xs ys"
  shows "\<exists>s' ys'. close_active_loop s = Some s' \<and> worker_wf base s' [] ys'"
  using assms
proof (induction xs arbitrary: s ys)
  case Nil
  then have "ws_active s = None" using active_list_head [of s "[]"] by (simp add: worker_wf_def)
  with Nil show ?case by (auto simp: close_active_loop.simps)
next
  case (Cons i xs)
  have "ws_active s = Some i" using Cons.prems active_list_head [of s "i # xs"] by (simp add: worker_wf_def)
  then have "close_active_loop s = close_active_loop (close_connection s i)" by (simp add: close_active_loop.simps [of s])
  moreover have "worker_wf base (close_connection s i) xs (i # ys)" using close_wf [OF Cons.prems, of i] by simp
  ultimately show ?case using Cons.IH by auto
qed

lemma worker_teardown_ok:
  assumes "worker_wf base s xs ys"
  shows "\<exists>s'. worker_teardown cf now s = Some s' \<and> ws_open s' = {} \<and> ws_heap s' = {} \<and> ws_active s' = None \<and> ws_closed s' = None \<and>
    tb_used (ws_budget s') = base \<and> ws_epoll s' = (\<lambda>_. 0) \<and> ws_pipe_pool s' = [] \<and> ws_spare_fd s' = -1"
proof -
  obtain s1 ys1 where s1: "close_active_loop s = Some s1" "worker_wf base s1 [] ys1"
    using close_active_loop_ok [OF assms] by blast
  then obtain s2 where s2: "free_closed_connections s1 = Some s2" "worker_wf base s2 [] []"
    using free_closed_ok [OF s1(2)] by blast
  then have "ws_open s2 = {} \<and> ws_heap s2 = {} \<and> ws_active s2 = None \<and> ws_closed s2 = None \<and> tb_used (ws_budget s2) = base"
    using active_list_head [of s2 "[]"] by (simp add: worker_wf_def closed_list_def)
  then show ?thesis
    by (simp add: worker_teardown_def close_all_active_def s1 s2 publish_tcp_stats_if_due_def close_pipe_pool_def Let_def)
qed


section \<open>Events of connections\<close>

text \<open>A live connection may change in place, with what epoll watches for its own two sockets.\<close>

definition same_rest :: "'m tcp_worker_state \<Rightarrow> 'm tcp_worker_state \<Rightarrow> bool" where
  "same_rest s s' \<longleftrightarrow> ws_active s' = ws_active s \<and> ws_closed s' = ws_closed s \<and> ws_open s' = ws_open s \<and> ws_heap s' = ws_heap s \<and>
     ws_budget s' = ws_budget s \<and> ws_listener4_ref s' = ws_listener4_ref s \<and> ws_listener6_ref s' = ws_listener6_ref s"

lemma worker_wf_change:
  assumes wf: "worker_wf base s xs ys" and i: "i \<in> set xs" and rest: "same_rest s s'"
    and conns: "ws_conns s' = (ws_conns s)(i := c')" and fds: "conn_fds c' = conn_fds (ws_conns s i)"
    and links: "tc_active_next c' = tc_active_next (ws_conns s i)" "tc_active_prev c' = tc_active_prev (ws_conns s i)"
    and live: "live_conn (ws_epoll s') i c'"
    and ep: "\<And>fd. fd \<notin> set (conn_fds (ws_conns s i)) \<Longrightarrow> ws_epoll s' fd = ws_epoll s fd"
  shows "worker_wf base s' xs ys"
proof -
  note w = wf [unfolded worker_wf_def]
  have dist: "distinct xs" "i \<notin> set ys" using worker_wf_lists [OF wf] w i by auto
  have fds': "live_fds s' xs = live_fds s xs" using fds by (intro live_fds_cong) (simp add: conns)
  have "active_list s' xs" using w rest links active_list_cong [of s' s xs] by (simp add: conns same_rest_def)
  moreover have "closed_list s' ys"
  proof -
    have "chain (\<lambda>j. tc_next (ws_conns s' j)) (ws_closed s) ys = chain (\<lambda>j. tc_next (ws_conns s j)) (ws_closed s) ys"
      using dist(2) by (intro chain_cong) (auto simp: conns)
    then show ?thesis using w rest by (simp add: closed_list_def same_rest_def)
  qed
  moreover have "live_conn (ws_epoll s') j (ws_conns s' j)" if j: "j \<in> set xs" for j
  proof (cases "j = i")
    case False
    then have "set (conn_fds (ws_conns s i)) \<inter> set (conn_fds (ws_conns s j)) = {}"
      using w dist(1) i j by (intro live_fds_apart) auto
    then have "ws_epoll s' fd = ws_epoll s fd" if "fd \<in> set (conn_fds (ws_conns s j))" for fd using that by (intro ep) auto
    then show ?thesis
      using False worker_wf_live [OF wf j] live_conn_epoll [of "ws_epoll s'" "ws_conns s j" "ws_epoll s" j] by (simp add: conns conn_fds_def)
  qed (use live in \<open>simp add: conns\<close>)
  moreover have "\<forall>j\<in>set ys. dead_conn (ws_conns s' j)" using w dist(2) by (auto simp: conns)
  ultimately show ?thesis using w rest fds' by (auto simp: worker_wf_def same_rest_def listeners_ok_def listener_fds_def)
qed

lemma admin_live: "admin c = admin c' \<Longrightarrow> live_conn ep i c = live_conn ep i c'"
  by (simp add: admin_def live_conn_def)

lemma worker_wf_admin:
  assumes wf: "worker_wf base s xs ys" and i: "i \<in> set xs" and rest: "same_rest s s'" "ws_epoll s' = ws_epoll s"
    and conns: "ws_conns s' = (ws_conns s)(i := c')" and adm: "admin c' = admin (ws_conns s i)"
  shows "worker_wf base s' xs ys"
proof (rule worker_wf_change [OF wf i rest(1) conns])
  show "live_conn (ws_epoll s') i c'" using worker_wf_live [OF wf i] admin_live [OF adm] rest(2) by simp
qed (use adm rest in \<open>simp_all add: admin_def conn_fds_def\<close>)

definition kept_others :: "nat \<Rightarrow> 'm tcp_worker_state \<Rightarrow> 'm tcp_worker_state \<Rightarrow> bool" where
  "kept_others i s s' \<longleftrightarrow> (\<forall>j. j \<noteq> i \<longrightarrow> core (ws_conns s' j) = core (ws_conns s j)) \<and> ws_next_deadline_ms s' = ws_next_deadline_ms s"

lemma carry_out_ok:
  assumes "worker_wf base s xs ys" "i \<in> set xs"
  shows "\<exists>xs' ys'. worker_wf base (carry_out v s i) xs' ys' \<and> kept_others i s (carry_out v s i) \<and>
    (if v = Verdict_Keep then xs' = xs \<and> ys' = ys else xs' = remove1 i xs \<and> ys' = i # ys)"
  using assms close_closes [OF assms] reset_closes [OF assms]
  by (cases v) (auto simp: carry_out_def kept_others_def closes_def)

lemma run_handler_ok:
  assumes wf: "worker_wf base s xs ys" and i: "i \<in> set xs" and run: "run_handler env side ev s i = Some s'"
  shows "\<exists>xs' ys'. worker_wf base s' xs' ys' \<and> kept_others i s s' \<and> (xs' = xs \<and> ys' = ys \<or> xs' = remove1 i xs \<and> ys' = i # ys)"
proof -
  from run obtain v f pool c n w where ev: "connection_event env side ev (ws_pipe_pool s) (ws_conns s i) (ws_bytes s) (ws_world s) = Some (v, f, pool, c, n, w)"
    by (auto simp: run_handler_def split: option.splits prod.splits)
  let ?s1 = "upd_conn i (\<lambda>_. c) (s\<lparr>ws_pipe_pool := pool, ws_bytes := n, ws_world := w\<rparr>)"
  let ?s2 = "if f then ?s1\<lparr>ws_counters := (ws_counters ?s1)\<lparr>st_tcp_connect_failures := st_tcp_connect_failures (ws_counters ?s1) + 1\<rparr>\<rparr> else ?s1"
  have s': "s' = carry_out v ?s2 i" using run ev by (simp add: run_handler_def Let_def)
  have "worker_wf base ?s2 xs ys"
    by (rule worker_wf_admin [OF wf i _ _ _ connection_event_admin [OF ev]]) (simp_all add: same_rest_def upd_conn_def)
  from carry_out_ok [OF this i, of v] obtain xs' ys' where c: "worker_wf base s' xs' ys'" "kept_others i ?s2 s'"
    "if v = Verdict_Keep then xs' = xs \<and> ys' = ys else xs' = remove1 i xs \<and> ys' = i # ys" unfolding s' by blast
  have "kept_others i s s'" using c(2) by (auto simp: kept_others_def upd_conn_def split: if_splits)
  then show ?thesis using c(1,3) by (auto split: if_splits)
qed


lemma mod_fd_ok:
  assumes "mod_fd ctl fd ref ev ep = (e, ref', ep')" "fr_events ref = ep fd"
  shows "ref' = ref\<lparr>fr_events := ep' fd\<rparr>" "x \<noteq> fd \<Longrightarrow> ep' x = ep x"
  using assms by (auto simp: mod_fd_def split: if_splits)

lemma update_events_ok:
  assumes wf: "worker_wf base s xs ys" and i: "i \<in> set xs"
  shows "worker_wf base (update_connection_events ctl1 ctl2 s i) xs ys \<and> kept_others i s (update_connection_events ctl1 ctl2 s i) \<and>
    conn_deadline cf (ws_conns (update_connection_events ctl1 ctl2 s i) i) = conn_deadline cf (ws_conns s i)"
proof -
  let ?c = "ws_conns s i" and ?s = "update_connection_events ctl1 ctl2 s i"
  note live = worker_wf_live [OF wf i, unfolded live_conn_def]
  obtain e1 r1 ep1 where m1: "mod_fd ctl1 (tc_client_fd ?c) (tc_client_ref ?c) (client_events ?c) (ws_epoll s) = (e1, r1, ep1)"
    using prod_cases3 by blast
  obtain e2 r2 ep2 where m2: "mod_fd ctl2 (tc_upstream_fd ?c) (tc_upstream_ref ?c) (upstream_events ?c) ep1 = (e2, r2, ep2)"
    using prod_cases3 by blast
  have ne: "tc_client_fd ?c \<noteq> tc_upstream_fd ?c"
  proof -
    obtain as bs where "xs = as @ i # bs" using i by (meson split_list)
    then show ?thesis using wf by (auto simp: worker_wf_def conn_fds_def)
  qed
  have up: "?s = upd_conn i (\<lambda>c. c\<lparr>tc_client_ref := r1, tc_upstream_ref := r2\<rparr>) (s\<lparr>ws_epoll := ep2\<rparr>)"
    using conjunct1 [OF live] by (simp add: update_connection_events_def Let_def m1 m2)
  have "fr_events (tc_client_ref ?c) = ws_epoll s (tc_client_fd ?c)" using live by simp
  note r1 = mod_fd_ok [OF m1 this]
  have "fr_events (tc_upstream_ref ?c) = ep1 (tc_upstream_fd ?c)" using live ne r1(2) by simp
  note r2 = mod_fd_ok [OF m2 this]
  have "worker_wf base ?s xs ys"
  proof (rule worker_wf_change [OF wf i])
    show "ws_conns ?s = (ws_conns s)(i := ?c\<lparr>tc_client_ref := r1, tc_upstream_ref := r2\<rparr>)" by (simp add: up)
    show "live_conn (ws_epoll ?s) i (?c\<lparr>tc_client_ref := r1, tc_upstream_ref := r2\<rparr>)"
      using live r2(2) [of "tc_client_fd ?c"] ne by (simp add: live_conn_def up r1(1) r2(1))
  qed (auto simp: up same_rest_def conn_fds_def r1(2) r2(2))
  then show ?thesis by (simp add: up kept_others_def conn_deadline_def)
qed

lemma note_wf: "worker_wf base (note_connection_deadline cf s i) xs ys = worker_wf base s xs ys"
  by (rule worker_wf_view) (simp add: note_connection_deadline_def wf_view_def)

lemma note_conns [simp]: "ws_conns (note_connection_deadline cf s i) = ws_conns s" "ws_epoll (note_connection_deadline cf s i) = ws_epoll s"
  by (simp_all add: note_connection_deadline_def)

text \<open>Noting a connection's deadline covers it, and keeps covering the others.\<close>

lemma note_deadlines:
  assumes "deadlines_ok cf s (A - {i})" "\<not> tc_closing (ws_conns s i)"
  shows "deadlines_ok cf (note_connection_deadline cf s i) A"
  using assms note_deadline_le [of "ws_next_deadline_ms s" "conn_deadline cf (ws_conns s i)"]
  by (auto simp: deadlines_ok_def note_connection_deadline_def intro: order_trans)

lemma closing_event_skipped:
  "tc_closing (ws_conns s i) \<Longrightarrow> note_connection_deadline cf (update_connection_events ctl1 ctl2 s i) i = s"
  by (simp add: note_connection_deadline_def update_connection_events_def Let_def)

lemma kept_deadlines:
  assumes "kept_others i s s'" "deadlines_ok cf s A"
  shows "deadlines_ok cf s' (A - {i})"
proof (rule deadlines_ok_core [of cf s])
  show "deadlines_ok cf s (A - {i})" using assms(2) by (auto simp: deadlines_ok_def)
qed (use assms(1) in \<open>auto simp: kept_others_def\<close>)

lemma connection_ref_ok:
  assumes wf: "worker_wf base s xs ys" and dl: "deadlines_ok cf s (set xs)" and i: "i \<in> set xs"
    and run: "run_handler env side ev s i = Some s1"
  shows "\<exists>xs' ys'. worker_wf base (note_connection_deadline cf (update_connection_events ctl1 ctl2 s1 i) i) xs' ys' \<and>
    deadlines_ok cf (note_connection_deadline cf (update_connection_events ctl1 ctl2 s1 i) i) (set xs')"
proof -
  let ?s2 = "update_connection_events ctl1 ctl2 s1 i"
  from run_handler_ok [OF wf i run] obtain xs' ys' where r: "worker_wf base s1 xs' ys'" "kept_others i s s1"
    "xs' = xs \<and> ys' = ys \<or> xs' = remove1 i xs \<and> ys' = i # ys" by blast
  note dl1 = kept_deadlines [OF r(2) dl]
  from r(3) show ?thesis
  proof (elim disjE conjE)
    assume x: "xs' = xs" "ys' = ys"
    then have u: "worker_wf base ?s2 xs ys" "kept_others i s1 ?s2" using update_events_ok [of base s1 xs ys i] r(1) i by auto
    have "deadlines_ok cf ?s2 (set xs - {i})" using kept_deadlines [OF u(2) dl1] by simp
    moreover have "\<not> tc_closing (ws_conns ?s2 i)" using worker_wf_live [OF u(1) i] by (simp add: live_conn_def)
    ultimately show ?thesis using u(1) note_deadlines note_wf by blast
  next
    assume x: "xs' = remove1 i xs" "ys' = i # ys"
    have d: "set xs' = set xs - {i}" using x worker_wf_lists [OF wf] by simp
    have "tc_closing (ws_conns s1 i)" using r(1) x by (simp add: worker_wf_def dead_conn_def)
    then show ?thesis using r(1) dl1 d by (auto simp: closing_event_skipped)
  qed
qed


section \<open>Accepting\<close>

text \<open>Two states that a connection cannot tell apart: the same lists, sockets and allocations.\<close>

definition alike :: "'m tcp_worker_state \<Rightarrow> 'm tcp_worker_state \<Rightarrow> bool" where
  "alike s s' \<longleftrightarrow> (\<forall>j\<in>ws_heap s. ws_conns s' j = ws_conns s j) \<and> ws_active s' = ws_active s \<and> ws_closed s' = ws_closed s \<and>
     (\<forall>fd\<in>ws_open s. ws_epoll s' fd = ws_epoll s fd) \<and> listeners_ok s' = listeners_ok s \<and> listener_fds s' = listener_fds s \<and>
     ws_next_deadline_ms s' = ws_next_deadline_ms s"

lemma worker_wf_heap: "worker_wf base s xs ys \<Longrightarrow> i \<in> set xs \<union> set ys \<Longrightarrow> i \<in> ws_heap s"
  by (simp add: worker_wf_def)

lemma active_list_frame:
  assumes "active_list s xs" "ws_active s' = ws_active s" "\<And>j. j \<in> set xs \<Longrightarrow> ws_conns s' j = ws_conns s j"
  shows "active_list s' xs"
proof -
  have "dseg (\<lambda>i. tc_active_next (ws_conns s' i)) (\<lambda>i. tc_active_prev (ws_conns s' i)) p zs q =
        dseg (\<lambda>i. tc_active_next (ws_conns s i)) (\<lambda>i. tc_active_prev (ws_conns s i)) p zs q" if "set zs \<subseteq> set xs" for p zs q
    using that assms(3) by (induction zs arbitrary: p) auto
  then show ?thesis using assms by (simp add: active_list_def dll_def act_links_def)
qed

lemma closed_list_frame:
  assumes "closed_list s ys" "ws_closed s' = ws_closed s" "\<And>j. j \<in> set ys \<Longrightarrow> ws_conns s' j = ws_conns s j"
  shows "closed_list s' ys"
proof -
  have "chain (\<lambda>j. tc_next (ws_conns s' j)) (ws_closed s) ys = chain (\<lambda>j. tc_next (ws_conns s j)) (ws_closed s) ys"
    using assms(3) by (intro chain_cong) auto
  then show ?thesis using assms by (simp add: closed_list_def)
qed

lemma worker_wf_alike:
  assumes wf: "worker_wf base s xs ys" and al: "alike s s'" and res: "ws_open s' = ws_open s" "ws_heap s' = ws_heap s"
    "tb_used (ws_budget s') = tb_used (ws_budget s)"
  shows "worker_wf base s' xs ys"
proof -
  note w = wf [unfolded worker_wf_def] and a = al [unfolded alike_def]
  have conns: "ws_conns s' j = ws_conns s j" if "j \<in> set xs \<union> set ys" for j using worker_wf_heap [OF wf that] a by simp
  have fds: "live_fds s' xs = live_fds s xs" by (intro live_fds_cong) (simp add: conns)
  have "active_list s' xs" "closed_list s' ys"
    using w a by (auto intro: active_list_frame [of s] closed_list_frame [of s] simp: conns)
  moreover have "live_conn (ws_epoll s') j (ws_conns s' j)" if j: "j \<in> set xs" for j
  proof -
    have "set (conn_fds (ws_conns s j)) \<subseteq> ws_open s" using w conn_fds_in_live [OF j, of s] by simp
    then have "live_conn (ws_epoll s') j (ws_conns s j)"
      using worker_wf_live [OF wf j] a live_conn_epoll [of "ws_epoll s'" "ws_conns s j" "ws_epoll s" j] by (simp add: conn_fds_def)
    then show ?thesis using j by (simp add: conns)
  qed
  moreover have "\<forall>j\<in>set ys. dead_conn (ws_conns s' j)" using w by (simp add: conns)
  ultimately show ?thesis using w a res fds unfolding worker_wf_def by metis
qed

lemma alike_deadlines:
  assumes "worker_wf base s xs ys" "alike s s'" "deadlines_ok cf s (set xs)"
  shows "deadlines_ok cf s' (set xs)"
  using assms worker_wf_heap [OF assms(1)] by (auto simp: deadlines_ok_def alike_def)

lemma mod_fd_frame: "mod_fd ctl fd ref ev ep = (e, ref', ep') \<Longrightarrow>
    fr_fd ref' = fr_fd ref \<and> fr_side ref' = fr_side ref \<and> (\<forall>x. x \<noteq> fd \<longrightarrow> ep' x = ep x)"
  by (auto simp: mod_fd_def split: if_splits)

lemma mod_listeners_frame:
  assumes "mod_listeners env ev s = (ok, s')"
  shows "\<exists>r4 r6 ep. s' = s\<lparr>ws_listener4_ref := r4, ws_listener6_ref := r6, ws_epoll := ep\<rparr> \<and>
    fr_fd r4 = fr_fd (ws_listener4_ref s) \<and> fr_fd r6 = fr_fd (ws_listener6_ref s) \<and>
    fr_side r4 = fr_side (ws_listener4_ref s) \<and> fr_side r6 = fr_side (ws_listener6_ref s) \<and>
    (\<forall>x. x \<notin> listener_fds s \<longrightarrow> ep x = ws_epoll s x)"
proof -
  define b4 where "b4 \<longleftrightarrow> (fr_events (ws_listener4_ref s) \<noteq> 0) \<noteq> (ev \<noteq> 0)"
  define b6 where "b6 \<longleftrightarrow> fr_fd (ws_listener6_ref s) \<ge> 0 \<and> (fr_events (ws_listener6_ref s) \<noteq> 0) \<noteq> (ev \<noteq> 0)"
  obtain e4 r4 ep4 where m4: "(if b4 then mod_fd (lc_ctl4 env) (fr_fd (ws_listener4_ref s)) (ws_listener4_ref s) ev (ws_epoll s)
      else (None, ws_listener4_ref s, ws_epoll s)) = (e4, r4, ep4)" using prod_cases3 by blast
  obtain e6 r6 ep6 where m6: "(if b6 then mod_fd (lc_ctl6 env) (fr_fd (ws_listener6_ref s)) (ws_listener6_ref s) ev ep4
      else (None, ws_listener6_ref s, ep4)) = (e6, r6, ep6)" using prod_cases3 by blast
  have frame: "fr_fd r = fr_fd ref \<and> fr_side r = fr_side ref \<and> (\<forall>x. x \<noteq> fd \<longrightarrow> ep' x = ep x)"
    if "(if b then mod_fd ctl fd ref ev ep else (None, ref, ep)) = (e, r, ep')" for b ctl fd ref ep e r ep'
    using that by (cases b) (auto dest: mod_fd_frame)
  have "s' = s\<lparr>ws_listener4_ref := r4, ws_listener6_ref := r6, ws_epoll := ep6\<rparr>"
    using assms m4 m6 by (simp add: mod_listeners_def Let_def b4_def b6_def)
  then show ?thesis using frame [OF m4] frame [OF m6] by (intro exI [of _ r4] exI [of _ r6] exI [of _ ep6]) (auto simp: listener_fds_def)
qed

definition untouched :: "'m tcp_worker_state \<Rightarrow> 'm tcp_worker_state \<Rightarrow> bool" where
  "untouched s s' \<longleftrightarrow> ws_conns s' = ws_conns s \<and> ws_active s' = ws_active s \<and> ws_closed s' = ws_closed s \<and> ws_open s' = ws_open s \<and>
     ws_heap s' = ws_heap s \<and> ws_budget s' = ws_budget s \<and> ws_next_deadline_ms s' = ws_next_deadline_ms s \<and>
     listeners_ok s' = listeners_ok s \<and> listener_fds s' = listener_fds s \<and> (\<forall>x. x \<notin> listener_fds s \<longrightarrow> ws_epoll s' x = ws_epoll s x)"

lemma untouched_trans: "untouched s s1 \<Longrightarrow> untouched s1 s2 \<Longrightarrow> untouched s s2"
  by (simp add: untouched_def)

lemma mod_listeners_untouched: "mod_listeners env ev s = (ok, s') \<Longrightarrow> untouched s s'"
  using mod_listeners_frame [of env ev s ok s'] by (auto simp: untouched_def listeners_ok_def listener_fds_def)

lemma pause_untouched: "untouched s (pause_tcp_listeners env s)"
proof (cases "mod_listeners env 0 s")
  case (Pair ok s1)
  with mod_listeners_untouched [OF Pair] show ?thesis
    by (auto simp: pause_tcp_listeners_def untouched_def listeners_ok_def listener_fds_def split: bool.split)
qed

lemma resume_untouched: "untouched s (resume_tcp_listeners_if_due env s)"
proof -
  let ?s = "if ws_spare_fd s < 0 then s\<lparr>ws_spare_fd := lc_spare env\<rparr> else s"
  obtain ok s1 where m: "mod_listeners env 0x1 ?s = (ok, s1)" by fastforce
  have "untouched s ?s" by (simp add: untouched_def listeners_ok_def listener_fds_def)
  then have "untouched s s1" using mod_listeners_untouched [OF m] untouched_trans by blast
  then show ?thesis using m
    by (auto simp: resume_tcp_listeners_if_due_def Let_def untouched_def listeners_ok_def listener_fds_def split: bool.split if_splits)
qed

lemma untouched_ok:
  assumes "worker_wf base s xs ys" "untouched s s'"
  shows "worker_wf base s' xs ys" "deadlines_ok cf s (set xs) \<Longrightarrow> deadlines_ok cf s' (set xs)"
proof -
  have "alike s s'" using assms by (auto simp: alike_def untouched_def worker_wf_def)
  then show "worker_wf base s' xs ys" "deadlines_ok cf s (set xs) \<Longrightarrow> deadlines_ok cf s' (set xs)"
    using assms worker_wf_alike [of base s xs ys s'] alike_deadlines [of base s xs ys s' cf] by (simp_all add: untouched_def)
qed


text \<open>
  What the kernel and the allocator promise about one pass of the accept loop: a descriptor that
  is handed out is not in use, and neither is the memory of a new connection.
\<close>

definition accept_env_ok :: "accept_env \<Rightarrow> 'm tcp_worker_state \<Rightarrow> bool" where
  "accept_env_ok env s \<longleftrightarrow>
     (case ae_accept env of
        Inl _ \<Rightarrow> True
      | Inr (client, _) \<Rightarrow>
          client \<ge> 0 \<and> client \<notin> ws_open s \<and> client \<notin> listener_fds s \<and>
          (case ae_socket env of Inl _ \<Rightarrow> True | Inr fd \<Rightarrow> fd \<ge> 0 \<and> fd \<noteq> client \<and> fd \<notin> ws_open s \<and> fd \<notin> listener_fds s) \<and>
          (case ae_calloc env of None \<Rightarrow> True | Some i \<Rightarrow> i \<notin> ws_heap s))"

text \<open>The state \<open>s'\<close> differs from \<open>s\<close> by a client socket that no connection has yet.\<close>

definition one_more :: "int \<Rightarrow> 'm tcp_worker_state \<Rightarrow> 'm tcp_worker_state \<Rightarrow> bool" where
  "one_more client s s' \<longleftrightarrow> alike s s' \<and> ws_open s' = insert client (ws_open s) \<and> ws_heap s' = ws_heap s \<and> ws_epoll s' client = 0"

text \<open>A connection just created, with both sockets open but not registered.\<close>

definition newborn :: "nat \<Rightarrow> tcp_connection \<Rightarrow> bool" where
  "newborn i c \<longleftrightarrow> \<not> tc_closing c \<and> \<not> tc_active_linked c \<and>
     tc_client_ref c = \<lparr>fr_connection = Some i, fr_side = TCP_SIDE_CLIENT, fr_fd = tc_client_fd c, fr_events = 0\<rparr> \<and>
     tc_upstream_ref c = \<lparr>fr_connection = Some i, fr_side = TCP_SIDE_UPSTREAM, fr_fd = tc_upstream_fd c, fr_events = 0\<rparr> \<and>
     tc_client_fd c \<ge> 0 \<and> tc_upstream_fd c \<ge> 0 \<and> tc_client_fd c \<noteq> tc_upstream_fd c"

definition created :: "nat \<Rightarrow> 'm tcp_worker_state \<Rightarrow> 'm tcp_worker_state \<Rightarrow> bool" where
  "created i s s' \<longleftrightarrow> alike s s' \<and> newborn i (ws_conns s' i) \<and> i \<notin> ws_heap s \<and> ws_heap s' = insert i (ws_heap s) \<and>
     ws_open s' = set (conn_fds (ws_conns s' i)) \<union> ws_open s \<and> set (conn_fds (ws_conns s' i)) \<inter> (ws_open s \<union> listener_fds s) = {} \<and>
     ws_epoll s' (tc_client_fd (ws_conns s' i)) = 0 \<and> ws_epoll s' (tc_upstream_fd (ws_conns s' i)) = 0"

lemma give_up_frame:
  "j \<noteq> i \<Longrightarrow> ws_conns (give_up s i) j = ws_conns s j"
  "ws_active (give_up s i) = ws_active s" "ws_closed (give_up s i) = ws_closed s" "ws_epoll (give_up s i) = ws_epoll s"
  "ws_listener4_ref (give_up s i) = ws_listener4_ref s" "ws_listener6_ref (give_up s i) = ws_listener6_ref s"
  "ws_next_deadline_ms (give_up s i) = ws_next_deadline_ms s" "ws_heap (give_up s i) = ws_heap s - {i}"
  "ws_budget (give_up s i) = ws_budget s"
  "ws_open (give_up s i) = ws_open s - {fd \<in> set (conn_fds (ws_conns s i)). fd \<ge> 0}"
  by (auto simp: give_up_def reset_on_close_def free_connection_def Let_def close_fd_def conn_fds_def split: prod.split)

lemma open_fd_frame [simp]:
  "ws_conns (open_fd fd s) = ws_conns s" "ws_active (open_fd fd s) = ws_active s" "ws_closed (open_fd fd s) = ws_closed s"
  "ws_epoll (open_fd fd s) = (ws_epoll s)(fd := 0)" "ws_open (open_fd fd s) = insert fd (ws_open s)"
  "ws_heap (open_fd fd s) = ws_heap s" "ws_budget (open_fd fd s) = ws_budget s"
  "ws_listener4_ref (open_fd fd s) = ws_listener4_ref s" "ws_listener6_ref (open_fd fd s) = ws_listener6_ref s"
  "ws_next_deadline_ms (open_fd fd s) = ws_next_deadline_ms s" "ws_socks_addr_len (open_fd fd s) = ws_socks_addr_len s"
  "ws_counters (open_fd fd s) = ws_counters s"
  by (simp_all add: open_fd_def)

lemma close_fd_frame [simp]:
  "ws_conns (close_fd fd s) = ws_conns s" "ws_active (close_fd fd s) = ws_active s" "ws_closed (close_fd fd s) = ws_closed s"
  "ws_epoll (close_fd fd s) = ws_epoll s" "ws_open (close_fd fd s) = (if fd \<ge> 0 then ws_open s - {fd} else ws_open s)"
  "ws_heap (close_fd fd s) = ws_heap s" "ws_budget (close_fd fd s) = ws_budget s"
  "ws_listener4_ref (close_fd fd s) = ws_listener4_ref s" "ws_listener6_ref (close_fd fd s) = ws_listener6_ref s"
  "ws_next_deadline_ms (close_fd fd s) = ws_next_deadline_ms s"
  by (simp_all add: close_fd_def)

lemma alike_upd: "i \<notin> ws_heap s \<Longrightarrow> alike s s' \<Longrightarrow> alike s (upd_conn i f s')"
  by (auto simp: alike_def listeners_ok_def listener_fds_def)

lemma alike_heap: "alike s s' \<Longrightarrow> alike s (s'\<lparr>ws_heap := H\<rparr>)"
  by (simp add: alike_def listeners_ok_def listener_fds_def)

lemma alike_world: "alike s s' \<Longrightarrow> alike s (s'\<lparr>ws_world := w\<rparr>)"
  by (simp add: alike_def listeners_ok_def listener_fds_def)

lemma alike_open: "fd \<notin> ws_open s \<Longrightarrow> alike s s' \<Longrightarrow> alike s (open_fd fd s')"
  by (auto simp: alike_def listeners_ok_def listener_fds_def)

lemma alike_close: "alike s s' \<Longrightarrow> alike s (close_fd fd s')"
  by (simp add: alike_def listeners_ok_def listener_fds_def)

lemma alike_give_up:
  assumes "i \<notin> ws_heap s" "alike s s'"
  shows "alike s (give_up s' i)"
proof -
  have "ws_conns (give_up s' i) j = ws_conns s' j" if "j \<in> ws_heap s" for j using assms(1) that by (intro give_up_frame) auto
  then show ?thesis using assms(2) by (simp add: alike_def listeners_ok_def listener_fds_def give_up_frame)
qed

text \<open>
  The result of creating a connection for a client socket that was just accepted: on failure
  nothing is left of it, on success a new-born connection owns both sockets.
\<close>

definition creation_ok :: "errno + nat \<Rightarrow> 'm tcp_worker_state \<Rightarrow> 'm tcp_worker_state \<Rightarrow> bool" where
  "creation_ok r s s' \<longleftrightarrow>
     (case r of
        Inl _ \<Rightarrow> alike s s' \<and> ws_open s' = ws_open s \<and> ws_heap s' = ws_heap s
      | Inr i \<Rightarrow> created i s s')"

lemma failed_creation:
  assumes "i \<notin> ws_heap s" "alike s s'" "ws_heap s' = insert i (ws_heap s)"
    "ws_open s' = {fd \<in> set (conn_fds (ws_conns s' i)). fd \<ge> 0} \<union> ws_open s" "{fd \<in> set (conn_fds (ws_conns s' i)). fd \<ge> 0} \<inter> ws_open s = {}"
  shows "creation_ok (Inl e) s (give_up s' i)"
  using assms alike_give_up [OF assms(1,2)] by (auto simp: creation_ok_def give_up_frame)

lemma write_handshake_ok:
  assumes run: "write_handshake_now env s1 i = Some (r, s')"
    and up: "\<And>c w. admin c = admin (ws_conns s1 i) \<Longrightarrow> created i s (upd_conn i (\<lambda>_. c) (s1\<lparr>ws_world := w\<rparr>))"
    and down: "\<And>e c w. admin c = admin (ws_conns s1 i) \<Longrightarrow> creation_ok (Inl e) s (give_up (upd_conn i (\<lambda>_. c) (s1\<lparr>ws_world := w\<rparr>)) i)"
  shows "creation_ok r s s' \<and> ws_budget s' = ws_budget s1"
proof (cases "start_handshake (ws_conns s1 i)")
  case None
  have "upd_conn i (\<lambda>_. ws_conns s1 i) (s1\<lparr>ws_world := ws_world s1\<rparr>) = s1" by (simp add: upd_conn_def)
  then show ?thesis using run None down [of "ws_conns s1 i" "ae_errno env" "ws_world s1"]
    by (auto simp: write_handshake_now_def give_up_frame)
next
  case (Some c1)
  then obtain ok c2 w2 where fl: "flush_handshake (ae_now env) (ae_sends env) c1 (ws_world s1) = Some (ok, c2, w2)"
    using run by (auto simp: write_handshake_now_def split: option.splits prod.splits)
  have "admin c2 = admin (ws_conns s1 i)" using flush_handshake_admin [OF fl] start_handshake_admin [OF Some] by simp
  note res = up [OF this, of w2] down [OF this, of "ae_errno env" w2]
  show ?thesis using run res by (auto simp: write_handshake_now_def Some fl Let_def creation_ok_def give_up_frame split: if_splits)
qed

lemma create_connection_ok:
  assumes one: "one_more client s s0" and client: "client \<ge> 0" "client \<notin> ws_open s" "client \<notin> listener_fds s"
    and sock: "\<And>fd. ae_socket env = Inr fd \<Longrightarrow> fd \<ge> 0 \<and> fd \<noteq> client \<and> fd \<notin> ws_open s \<and> fd \<notin> listener_fds s"
    and mem: "\<And>i. ae_calloc env = Some i \<Longrightarrow> i \<notin> ws_heap s"
    and run: "create_connection env s0 client dst = Some (r, s')"
  shows "creation_ok r s s' \<and> ws_budget s' = ws_budget s0"
proof (cases "ae_calloc env")
  case None
  then show ?thesis using run one client by (auto simp: create_connection_def creation_ok_def one_more_def alike_close)
next
  case (Some i)
  note i = mem [OF Some]
  let ?s1 = "(upd_conn i (\<lambda>_. new_connection i client dst (ae_now env)) s0)\<lparr>ws_heap := insert i (ws_heap s0)\<rparr>"
  have a1: "alike s ?s1" using one i by (simp add: one_more_def alike_upd alike_heap)
  show ?thesis
  proof (cases "connect_nonblocking_addr env ?s1")
    case (Pair res s2)
    show ?thesis
    proof (cases res)
      case (Inl e)
      have s2: "s2 = ?s1 \<or> (\<exists>fd. ae_socket env = Inr fd \<and> s2 = close_fd fd (open_fd fd ?s1))"
        using Pair Inl by (auto simp: connect_nonblocking_addr_def Let_def split: if_splits sum.splits option.splits)
      then have "creation_ok (Inl e) s (give_up s2 i)"
      proof (elim disjE exE conjE)
        assume "s2 = ?s1"
        then show ?thesis using one client i a1
          by (intro failed_creation) (auto simp: one_more_def new_connection_def conn_fds_def)
      next
        fix fd assume fd: "ae_socket env = Inr fd" "s2 = close_fd fd (open_fd fd ?s1)"
        have "alike s s2" unfolding fd(2) using a1 sock [OF fd(1)] by (intro alike_close alike_open) auto
        then show ?thesis using one client i sock [OF fd(1)] unfolding fd(2)
          by (intro failed_creation) (auto simp: one_more_def new_connection_def conn_fds_def)
      qed
      moreover have "ws_budget s2 = ws_budget s0" using s2 by auto
      ultimately show ?thesis using run by (auto simp: create_connection_def Some Pair Inl give_up_frame Let_def)
    next
      case (Inr p)
      obtain fd stage where p: "p = (fd, stage)" by fastforce
      have fd: "ae_socket env = Inr fd" and s2: "s2 = open_fd fd ?s1"
        using Pair Inr p by (auto simp: connect_nonblocking_addr_def Let_def split: if_splits sum.splits option.splits)
      let ?s3 = "upd_conn i (\<lambda>c. c\<lparr>tc_upstream_fd := fd, tc_stage := stage, tc_upstream_ref := (tc_upstream_ref c)\<lparr>fr_fd := fd\<rparr>\<rparr>) s2"
      have a3: "alike s ?s3" unfolding s2 using a1 i sock [OF fd] by (intro alike_upd alike_open) auto
      have up: "created i s (upd_conn i (\<lambda>_. c) (?s3\<lparr>ws_world := w\<rparr>))" and down: "creation_ok (Inl e) s (give_up (upd_conn i (\<lambda>_. c) (?s3\<lparr>ws_world := w\<rparr>)) i)"
        if "admin c = admin (ws_conns ?s3 i)" for c w e
        using that one client i sock [OF fd] a3
        by (auto simp: created_def one_more_def newborn_def admin_def s2 new_connection_def conn_fds_def alike_upd alike_world
            intro!: failed_creation)
      have "upd_conn i (\<lambda>_. ws_conns ?s3 i) (?s3\<lparr>ws_world := ws_world ?s3\<rparr>) = ?s3" by (simp add: upd_conn_def)
      then have same: "created i s ?s3" using up [of "ws_conns ?s3 i" "ws_world ?s3"] by simp
      have b3: "ws_budget ?s3 = ws_budget s0" by (simp add: s2)
      show ?thesis
      proof (cases "stage = TCP_STAGE_REQUEST_WRITE")
        case False
        then show ?thesis using run same b3 by (auto simp: create_connection_def Some Pair Inr p Let_def creation_ok_def)
      next
        case True
        then have "write_handshake_now env ?s3 i = Some (r, s')"
          using run by (simp add: create_connection_def Some Pair Inr p Let_def)
        from write_handshake_ok [OF this up down] show ?thesis using b3 by simp
      qed
    qed
  qed
qed


lemma active_add_list:
  assumes xs: "active_list s xs" and i: "i \<notin> set xs" "\<not> tc_active_linked (ws_conns s i)"
  shows "active_list (active_add s i) (i # xs)"
proof -
  let ?n = "\<lambda>j. tc_active_next (ws_conns s j)" and ?p = "\<lambda>j. tc_active_prev (ws_conns s j)"
  have d: "distinct xs" "ws_active s = first_or None xs" "dseg ?n ?p None xs None"
    using xs by (simp_all add: active_list_def dll_def act_links_def)
  have seg: "dseg (?n(i := ws_active s)) ((if xs = [] then ?p else ?p(hd xs := Some i))(i := None)) (Some i) xs None"
  proof (cases "xs = []")
    case False
    then show ?thesis using dseg_redirect_prev [OF d(1) False d(3), of "Some i"] i(1) by simp
  qed simp
  have "i \<noteq> hd xs" if "xs \<noteq> []" using i(1) that by (cases xs) auto
  then have "(\<lambda>j. tc_active_next (ws_conns (active_add s i) j)) = ?n(i := ws_active s)"
    "(\<lambda>j. tc_active_prev (ws_conns (active_add s i) j)) = (if xs = [] then ?p else ?p(hd xs := Some i))(i := None)"
    using i(2) d(2) by (cases xs; auto simp: active_add_def Let_def fun_eq_iff)+
  moreover have "ws_active (active_add s i) = Some i" using i(2) by (auto simp: active_add_def Let_def split: option.split)
  ultimately show ?thesis using seg d(1,2) i(1) by (simp add: active_list_def dll_def act_links_def)
qed

lemma active_add_frame:
  assumes "\<not> tc_active_linked (ws_conns s i)"
  shows "j \<noteq> i \<Longrightarrow> core (ws_conns (active_add s i) j) = core (ws_conns s j)"
    "core (ws_conns (active_add s i) i) = core ((ws_conns s i)\<lparr>tc_active_linked := True\<rparr>)"
    "ws_closed (active_add s i) = ws_closed s" "ws_epoll (active_add s i) = ws_epoll s"
    "ws_open (active_add s i) = ws_open s" "ws_heap (active_add s i) = ws_heap s"
    "ws_budget (active_add s i) = ws_budget s" "ws_next_deadline_ms (active_add s i) = ws_next_deadline_ms s"
    "ws_listener4_ref (active_add s i) = ws_listener4_ref s" "ws_listener6_ref (active_add s i) = ws_listener6_ref s"
  using assms by (auto simp: active_add_def Let_def core_def split: option.split)

text \<open>A new-born connection joins the live ones.\<close>

lemma join_wf:
  assumes wf: "worker_wf base s xs ys" and c: "created i s s1" and b: "tb_used (ws_budget s1) = base + of_nat (Suc (length xs))"
  defines "s2 \<equiv> active_add (upd_conn i (\<lambda>c. c\<lparr>tc_session_reserved := True\<rparr>) s1) i"
  shows "worker_wf base s2 (i # xs) ys" and "\<And>j. j \<in> set xs \<Longrightarrow> core (ws_conns s2 j) = core (ws_conns s j)"
    and "ws_next_deadline_ms s2 = ws_next_deadline_ms s"
proof -
  let ?s = "upd_conn i (\<lambda>c. c\<lparr>tc_session_reserved := True\<rparr>) s1"
  note w = wf [unfolded worker_wf_def] and cr = c [unfolded created_def] and nb = conjunct1 [OF conjunct2 [OF c [unfolded created_def]], unfolded newborn_def]
  have i: "i \<notin> set xs" "i \<notin> set ys" using w cr by auto
  have same: "ws_conns ?s j = ws_conns s j" if "j \<in> set xs \<union> set ys" for j
    using cr worker_wf_heap [OF wf that] i that by (auto simp: alike_def)
  have unl: "\<not> tc_active_linked (ws_conns ?s i)" using nb by simp
  note f = active_add_frame [OF unl, folded s2_def]
  have core: "core (ws_conns s2 j) = core (ws_conns s j)" if "j \<in> set xs \<union> set ys" for j
  proof -
    have "j \<noteq> i" using i that by auto
    then show ?thesis using f(1) [of j] same [OF that] by simp
  qed
  then show "\<And>j. j \<in> set xs \<Longrightarrow> core (ws_conns s2 j) = core (ws_conns s j)" by simp
  show "ws_next_deadline_ms s2 = ws_next_deadline_ms s" using cr by (simp add: f(8) alike_def)
  have ci: "core (ws_conns s2 i) = core ((ws_conns s1 i)\<lparr>tc_session_reserved := True, tc_active_linked := True\<rparr>)" using f(2) by simp
  have fds: "live_fds s2 xs = live_fds s xs" by (intro live_fds_cong core_frame(3) core) simp
  have fdi: "conn_fds (ws_conns s2 i) = conn_fds (ws_conns s1 i)" using core_frame(3) [OF ci] by (simp add: conn_fds_def)
  have "active_list ?s xs"
  proof (rule active_list_frame)
    show "active_list s xs" using w by simp
    show "ws_active ?s = ws_active s" using cr by (simp add: alike_def)
  qed (rule same, simp)
  then have "active_list s2 (i # xs)" unfolding s2_def using i(1) unl by (rule active_add_list)
  moreover have "closed_list s2 ys"
  proof -
    have "chain (\<lambda>j. tc_next (ws_conns s2 j)) (ws_closed s) ys = chain (\<lambda>j. tc_next (ws_conns s j)) (ws_closed s) ys"
      by (intro chain_cong core_fields(8) core) simp
    then show ?thesis using w cr by (simp add: closed_list_def f(3) alike_def)
  qed
  moreover have "live_conn (ws_epoll s2) j (ws_conns s2 j)" if j: "j \<in> set xs" for j
  proof -
    have "set (conn_fds (ws_conns s j)) \<subseteq> ws_open s" using w conn_fds_in_live [OF j, of s] by simp
    then have "live_conn (ws_epoll s2) j (ws_conns s j)" using worker_wf_live [OF wf j] cr
        live_conn_epoll [of "ws_epoll s2" "ws_conns s j" "ws_epoll s" j] by (simp add: conn_fds_def f(4) alike_def)
    then show ?thesis using core_frame(2) [OF core [of j]] j by simp
  qed
  moreover have "live_conn (ws_epoll s2) i (ws_conns s2 i)"
    unfolding core_frame(2) [OF ci] using nb cr by (simp add: live_conn_def f(4))
  moreover have "dead_conn (ws_conns s2 j)" if "j \<in> set ys" for j using w core_frame(1) [OF core [of j]] that by simp
  moreover have "distinct (live_fds s2 (i # xs))" "ws_open s2 = set (live_fds s2 (i # xs))"
    using w cr nb fds fdi by (auto simp: f(5) conn_fds_def)
  moreover have "ws_heap s2 = set (i # xs) \<union> set ys" "set (i # xs) \<inter> set ys = {}" using w cr i by (auto simp: f(6))
  moreover have "listeners_ok s2" "listener_fds s2 \<inter> ws_open s2 = {}"
    using w cr by (auto simp: listeners_ok_def listener_fds_def f(5,9,10) alike_def)
  ultimately show "worker_wf base s2 (i # xs) ys" using b by (simp add: worker_wf_def f(7))
qed


text \<open>The registration of a live connection: it stays live, or it is closed.\<close>

lemma add_fd_ok:
  assumes "add_fd ctl fd ref ev ep = (e, ref', ep')" "fr_events ref = ep fd"
  shows "ref' = ref\<lparr>fr_events := ep' fd\<rparr>" "x \<noteq> fd \<Longrightarrow> ep' x = ep x"
  using assms by (auto simp: add_fd_def split: if_splits)

lemma register_ok:
  assumes wf: "worker_wf base s xs ys" and i: "i \<in> set xs" and dl: "deadlines_ok cf s (set xs)"
    and run: "register_connection env s i = (cont, s')"
  shows "\<exists>xs' ys'. worker_wf base s' xs' ys' \<and> deadlines_ok cf s' (set xs')"
proof -
  let ?c = "ws_conns s i"
  note live = worker_wf_live [OF wf i, unfolded live_conn_def]
  obtain e1 r1 ep1 where m1: "add_fd (ae_add_client env) (tc_client_fd ?c) (tc_client_ref ?c) (client_events ?c) (ws_epoll s) = (e1, r1, ep1)"
    using prod_cases3 by blast
  obtain e2 r2 ep2 where m2: "(if e1 \<noteq> None then (e1, tc_upstream_ref ?c, ep1)
      else add_fd (ae_add_upstream env) (tc_upstream_fd ?c) (tc_upstream_ref ?c) (upstream_events ?c) ep1) = (e2, r2, ep2)"
    using prod_cases3 by blast
  let ?s1 = "upd_conn i (\<lambda>c. c\<lparr>tc_client_ref := r1, tc_upstream_ref := r2\<rparr>) (s\<lparr>ws_epoll := ep2\<rparr>)"
  have ne: "tc_client_fd ?c \<noteq> tc_upstream_fd ?c"
  proof -
    obtain as bs where "xs = as @ i # bs" using i by (meson split_list)
    then show ?thesis using wf by (auto simp: worker_wf_def conn_fds_def)
  qed
  have "fr_events (tc_client_ref ?c) = ws_epoll s (tc_client_fd ?c)" using live by simp
  note r1 = add_fd_ok [OF m1 this]
  have ev: "fr_events (tc_upstream_ref ?c) = ep1 (tc_upstream_fd ?c)" using live ne r1(2) by simp
  have r2: "r2 = (tc_upstream_ref ?c)\<lparr>fr_events := ep2 (tc_upstream_fd ?c)\<rparr> \<and> (\<forall>x. x \<noteq> tc_upstream_fd ?c \<longrightarrow> ep2 x = ep1 x)"
  proof (cases "e1 = None")
    case True
    then have "add_fd (ae_add_upstream env) (tc_upstream_fd ?c) (tc_upstream_ref ?c) (upstream_events ?c) ep1 = (e2, r2, ep2)"
      using m2 by simp
    from add_fd_ok [OF this ev] show ?thesis by blast
  next
    case False
    then have "r2 = tc_upstream_ref ?c" "ep2 = ep1" using m2 by simp_all
    then show ?thesis using ev by (cases "tc_upstream_ref ?c") simp
  qed
  have wf1: "worker_wf base ?s1 xs ys"
  proof (rule worker_wf_change [OF wf i])
    show "ws_conns ?s1 = (ws_conns s)(i := ?c\<lparr>tc_client_ref := r1, tc_upstream_ref := r2\<rparr>)" by simp
    show "live_conn (ws_epoll ?s1) i (?c\<lparr>tc_client_ref := r1, tc_upstream_ref := r2\<rparr>)"
      using live r2 ne by (simp add: live_conn_def r1(1))
  qed (use r2 in \<open>auto simp: same_rest_def conn_fds_def r1(2)\<close>)
  have dl1: "deadlines_ok cf ?s1 (set xs)" using dl by (auto simp: deadlines_ok_def conn_deadline_def)
  have run': "(case e2 of None \<Rightarrow> (True, ?s1) | Some e \<Rightarrow>
      if out_of_fds e then (False, record_fd_exhaustion (ae_listeners env) (close_connection ?s1 i)) else (True, close_connection ?s1 i)) = (cont, s')"
    using run [unfolded register_connection_def Let_def] m1 m2 by simp
  show ?thesis
  proof (cases e2)
    case None
    then show ?thesis using run' wf1 dl1 by auto
  next
    case (Some e)
    let ?s2 = "close_connection ?s1 i"
    have c: "worker_wf base ?s2 (remove1 i xs) (i # ys)" "closes i ?s1 ?s2" using close_closes [OF wf1 i] by simp_all
    have dl2: "deadlines_ok cf ?s2 (set (remove1 i xs))"
    proof (rule deadlines_ok_core [of cf ?s1])
      show "deadlines_ok cf ?s1 (set (remove1 i xs))" by (rule deadlines_ok_subset [OF dl1 set_remove1_subset])
      show "core (ws_conns ?s2 j) = core (ws_conns ?s1 j)" if "j \<in> set (remove1 i xs)" for j
        using that worker_wf_lists [OF wf] c(2) by (simp add: closes_def)
      show "ws_next_deadline_ms ?s2 \<le> ws_next_deadline_ms ?s1" using c(2) by (simp add: closes_def)
    qed
    have "untouched ?s2 (record_fd_exhaustion (ae_listeners env) ?s2)"
    proof -
      have "untouched ?s2 (count_fd_exhaustion ?s2)" by (simp add: count_fd_exhaustion_def untouched_def listeners_ok_def listener_fds_def)
      then show ?thesis unfolding record_fd_exhaustion_def using pause_untouched untouched_trans by blast
    qed
    note ex = untouched_ok [OF c(1) this]
    then have "s' = ?s2 \<or> s' = record_fd_exhaustion (ae_listeners env) ?s2" using run' Some by (auto split: if_splits)
    then show ?thesis using c(1) dl2 ex by blast
  qed
qed

lemma exhaustion_untouched:
  "untouched s (record_fd_exhaustion env s)"
  "handle_accept_fd_exhaustion accepts env s = Some s' \<Longrightarrow> untouched s s'"
proof -
  have c: "untouched s (count_fd_exhaustion s)" "untouched s ((count_fd_exhaustion s)\<lparr>ws_spare_fd := fd\<rparr>)" for fd
    by (simp_all add: count_fd_exhaustion_def untouched_def listeners_ok_def listener_fds_def)
  show "untouched s (record_fd_exhaustion env s)"
    unfolding record_fd_exhaustion_def using c(1) pause_untouched untouched_trans by blast
  show "untouched s s'" if "handle_accept_fd_exhaustion accepts env s = Some s'"
    using that untouched_trans [OF c(2) pause_untouched] by (auto simp: handle_accept_fd_exhaustion_def split: option.splits)
qed


lemma admit_ok:
  assumes wf: "worker_wf base s xs ys" and dl: "deadlines_ok cf s (set xs)" and one: "one_more client s s0"
    and client: "client \<ge> 0" "client \<notin> ws_open s" "client \<notin> listener_fds s"
    and sock: "\<And>fd. ae_socket env = Inr fd \<Longrightarrow> fd \<ge> 0 \<and> fd \<noteq> client \<and> fd \<notin> ws_open s \<and> fd \<notin> listener_fds s"
    and mem: "\<And>i. ae_calloc env = Some i \<Longrightarrow> i \<notin> ws_heap s"
    and b: "tb_used (ws_budget s0) = tb_used (ws_budget s) + 1"
    and run: "admit_client cf env s0 client dst = Some (cont, s')"
  shows "\<exists>xs' ys'. worker_wf base s' xs' ys' \<and> deadlines_ok cf s' (set xs')"
proof -
  obtain r s1 where cr: "create_connection env s0 client dst = Some (r, s1)"
    using run by (auto simp: admit_client_def split: option.splits)
  note c = create_connection_ok [OF one client sock mem cr]
  have used: "tb_used (ws_budget s) = base + of_nat (length xs)" using wf by (simp add: worker_wf_def)
  show ?thesis
  proof (cases r)
    case (Inl e)
    let ?s2 = "s1\<lparr>ws_budget := release_tcp_session_budget (ws_budget s1)\<rparr>"
    have "alike s s1" "ws_open s1 = ws_open s" "ws_heap s1 = ws_heap s" using c Inl by (simp_all add: creation_ok_def)
    moreover from this have al: "alike s ?s2" by (simp add: alike_def listeners_ok_def listener_fds_def)
    ultimately have wf2: "worker_wf base ?s2 xs ys"
      using c b by (intro worker_wf_alike [OF wf]) (simp_all add: release_tcp_session_budget_def)
    note dl2 = alike_deadlines [OF wf al dl]
    have "s' = record_fd_exhaustion (ae_listeners env) ?s2 \<or> (\<exists>k. s' = ?s2\<lparr>ws_counters := k\<rparr>)"
      using run cr Inl by (auto simp: admit_client_def Let_def split: if_splits)
    moreover have "untouched ?s2 (?s2\<lparr>ws_counters := k\<rparr>)" for k by (simp add: untouched_def listeners_ok_def listener_fds_def)
    ultimately have "untouched ?s2 s'" using exhaustion_untouched(1) by blast
    then show ?thesis using untouched_ok [OF wf2] dl2 by blast
  next
    case (Inr i)
    let ?s2 = "active_add (upd_conn i (\<lambda>c. c\<lparr>tc_session_reserved := True\<rparr>) s1) i"
    let ?s3 = "note_connection_deadline cf ?s2 i"
    have cre: "created i s s1" and bud: "tb_used (ws_budget s1) = base + of_nat (Suc (length xs))"
      using c Inr b used by (simp_all add: creation_ok_def)
    note j = join_wf [OF wf cre bud]
    have "i \<notin> set xs" using cre wf by (auto simp: created_def worker_wf_def)
    moreover have "deadlines_ok cf ?s2 (set xs)" using j(2,3) by (intro deadlines_ok_core [OF dl]) simp_all
    ultimately have "deadlines_ok cf ?s3 (set (i # xs))"
      using worker_wf_live [OF j(1), of i] by (intro note_deadlines) (simp_all add: live_conn_def)
    moreover have "worker_wf base ?s3 (i # xs) ys" using j(1) by (simp add: note_wf)
    moreover have "register_connection env ?s3 i = (cont, s')" using run cr Inr by (simp add: admit_client_def Let_def)
    ultimately show ?thesis using register_ok [of base ?s3 "i # xs" ys i cf env cont s'] by simp
  qed
qed

lemma client_original_dst_frame:
  "client_original_dst ops cf env peer s = (d, s') \<Longrightarrow> s' = s\<lparr>ws_tokens := ws_tokens s', ws_counters := ws_counters s'\<rparr>"
  by (auto simp: client_original_dst_def Let_def split: option.splits prod.splits)

lemma accept_one_ok:
  assumes wf: "worker_wf base s xs ys" and dl: "deadlines_ok cf s (set xs)" and env: "accept_env_ok env s"
    and run: "accept_one ops cf env s = Some (cont, s')"
  shows "\<exists>xs' ys'. worker_wf base s' xs' ys' \<and> deadlines_ok cf s' (set xs')"
proof (cases "ae_stop env \<or> (\<exists>e. ae_accept env = Inl e)")
  case True
  have "untouched s s" by (simp add: untouched_def)
  then have "untouched s s'"
    using run True exhaustion_untouched(2) [of "ae_spare_accepts env" "ae_listeners env" s s'] by (auto simp: accept_one_def split: if_splits)
  then show ?thesis using untouched_ok [OF wf] dl by blast
next
  case False
  then obtain client peer where acc: "ae_accept env = Inr (client, peer)" by (metis old.prod.exhaust sum.exhaust)
  let ?s1 = "(open_fd client s)\<lparr>ws_counters := (ws_counters s)\<lparr>st_tcp_accepts := st_tcp_accepts (ws_counters s) + 1\<rparr>\<rparr>"
  have client: "client \<ge> 0" "client \<notin> ws_open s" "client \<notin> listener_fds s" using env acc by (simp_all add: accept_env_ok_def)
  obtain d s2 where o: "client_original_dst ops cf env peer ?s1 = (d, s2)" by fastforce
  from client_original_dst_frame [OF this] obtain t k where s2: "s2 = ?s1\<lparr>ws_tokens := t, ws_counters := k\<rparr>" by fast
  have one: "one_more client s (s2\<lparr>ws_budget := b\<rparr>)" for b
    using client by (auto simp: s2 one_more_def alike_def listeners_ok_def listener_fds_def)
  have drop: "\<exists>xs' ys'. worker_wf base (drop_client client (s2\<lparr>ws_counters := k'\<rparr>)) xs' ys' \<and>
      deadlines_ok cf (drop_client client (s2\<lparr>ws_counters := k'\<rparr>)) (set xs')" for k'
  proof -
    have "alike s (drop_client client (s2\<lparr>ws_counters := k'\<rparr>))" 
      using client by (auto simp: s2 drop_client_def reset_on_close_def alike_def listeners_ok_def listener_fds_def)
    moreover have "worker_wf base (drop_client client (s2\<lparr>ws_counters := k'\<rparr>)) xs ys"
      using client calculation by (intro worker_wf_alike [OF wf]) (simp_all add: s2 drop_client_def reset_on_close_def)
    ultimately show ?thesis using alike_deadlines [OF wf _ dl] by blast
  qed
  note run' = run [unfolded accept_one_def acc Let_def sum.case prod.case o]
  show ?thesis
  proof (cases d)
    case None
    then show ?thesis using run' False drop [of "ws_counters s2"] by auto
  next
    case (Some dst)
    obtain ok b where res: "reserve_tcp_session (ws_budget s2) = (ok, b)" by fastforce
    show ?thesis
    proof (cases ok)
      case False': False
      then show ?thesis using run' False Some res drop by auto
    next
      case True
      then have "tb_used b = tb_used (ws_budget s) + 1" using res by (auto simp: reserve_tcp_session_def s2 split: if_splits)
      moreover have "admit_client cf env (s2\<lparr>ws_budget := b\<rparr>) client dst = Some (cont, s')" using run' False Some res True by simp
      ultimately show ?thesis using env acc
        by (intro admit_ok [OF wf dl one client]) (auto simp: accept_env_ok_def split: sum.splits option.splits)
    qed
  qed
qed


section \<open>Runs of a worker\<close>

text \<open>Allocations only grow while events are handled.\<close>

lemma heap_close [simp]: "ws_heap (close_connection s i) = ws_heap s"
  by (simp add: close_connection_def closed_add_def release_tcp_session_def forget_fd_def close_fd_def Let_def)

lemma heap_reset [simp]: "ws_heap (reset_on_close fd s) = ws_heap s" "ws_heap (reset_connection s i side) = ws_heap s"
  by (simp_all add: reset_on_close_def reset_connection_def)

lemma heap_frame [simp]:
  "ws_heap (carry_out v s i) = ws_heap s" "ws_heap (update_connection_events ctl1 ctl2 s i) = ws_heap s"
  "ws_heap (note_connection_deadline cf s i) = ws_heap s" "ws_heap (active_add s i) = ws_heap s"
  "ws_heap (drop_client fd s) = ws_heap s"
  by (auto simp: carry_out_def update_connection_events_def note_connection_deadline_def active_add_def drop_client_def Let_def
      split: tcp_verdict.split prod.split option.split)

lemma heap_exhaustion [simp]: "ws_heap (record_fd_exhaustion env s) = ws_heap s"
  using exhaustion_untouched(1) [of s env] by (simp add: untouched_def)

lemma register_heap: "register_connection env s i = (cont, s') \<Longrightarrow> ws_heap s' = ws_heap s"
  by (auto simp: register_connection_def Let_def split: prod.splits option.splits if_splits)

lemma run_handler_heap: "run_handler env side ev s i = Some s' \<Longrightarrow> ws_heap s' = ws_heap s"
  by (auto simp: run_handler_def Let_def split: option.splits if_splits)

lemma connect_heap: "connect_nonblocking_addr env s = (r, s') \<Longrightarrow> ws_heap s' = ws_heap s"
  by (auto simp: connect_nonblocking_addr_def Let_def split: if_splits sum.splits option.splits)

lemma write_handshake_heap: "write_handshake_now env s i = Some (r, s') \<Longrightarrow> ws_heap s - {i} \<subseteq> ws_heap s'"
  by (auto simp: write_handshake_now_def Let_def give_up_frame split: option.splits prod.splits if_splits)

lemma create_heap:
  assumes "create_connection env s client dst = Some (r, s')" "\<And>i. ae_calloc env = Some i \<Longrightarrow> i \<notin> ws_heap s"
  shows "ws_heap s \<subseteq> ws_heap s'"
proof (cases "ae_calloc env")
  case (Some i)
  let ?s1 = "(upd_conn i (\<lambda>_. new_connection i client dst (ae_now env)) s)\<lparr>ws_heap := insert i (ws_heap s)\<rparr>"
  obtain c s2 where cn: "connect_nonblocking_addr env ?s1 = (c, s2)" by fastforce
  have "ws_heap s2 = insert i (ws_heap s)" using connect_heap [OF cn] by simp
  then show ?thesis using assms(1) assms(2) [OF Some] cn Some
    by (auto simp: create_connection_def Let_def give_up_frame dest!: write_handshake_heap split: sum.splits if_splits) blast
qed (use assms in \<open>auto simp: create_connection_def\<close>)

lemma admit_heap:
  assumes run: "admit_client cf env s client dst = Some (cont, s')" and mem: "\<And>i. ae_calloc env = Some i \<Longrightarrow> i \<notin> ws_heap s"
  shows "ws_heap s \<subseteq> ws_heap s'"
proof -
  obtain r s1 where cr: "create_connection env s client dst = Some (r, s1)" using run by (auto simp: admit_client_def split: option.splits)
  show ?thesis
  proof (cases r)
    case (Inl e)
    then show ?thesis using run create_heap [OF cr mem] by (auto simp: admit_client_def Let_def cr split: if_splits)
  next
    case (Inr i)
    then show ?thesis using run create_heap [OF cr mem] by (auto simp: admit_client_def Let_def cr dest!: register_heap)
  qed
qed

lemma original_dst_heap: "client_original_dst ops cf env peer s = (d, s') \<Longrightarrow> ws_heap s' = ws_heap s"
  by (auto simp: client_original_dst_def Let_def split: option.splits prod.splits)

lemma accept_one_heap:
  assumes env: "accept_env_ok env s" and run: "accept_one ops cf env s = Some (cont, s')"
  shows "ws_heap s \<subseteq> ws_heap s'"
proof (cases "ae_stop env \<or> (\<exists>e. ae_accept env = Inl e)")
  case True
  then show ?thesis
    using run exhaustion_untouched(2) [of "ae_spare_accepts env" "ae_listeners env" s s']
    by (auto simp: accept_one_def untouched_def split: if_splits)
next
  case False
  then obtain client peer where acc: "ae_accept env = Inr (client, peer)" by (metis old.prod.exhaust sum.exhaust)
  have mem: "i \<notin> ws_heap s" if "ae_calloc env = Some i" for i using env acc that by (simp add: accept_env_ok_def)
  let ?s1 = "(open_fd client s)\<lparr>ws_counters := (ws_counters s)\<lparr>st_tcp_accepts := st_tcp_accepts (ws_counters s) + 1\<rparr>\<rparr>"
  obtain d s2 where o: "client_original_dst ops cf env peer ?s1 = (d, s2)" by fastforce
  have h: "ws_heap s2 = ws_heap s" using original_dst_heap [OF o] by simp
  have "ws_heap s \<subseteq> ws_heap s'" if "admit_client cf env (s2\<lparr>ws_budget := b\<rparr>) client dst = Some (cont, s')" for b dst
    using admit_heap [OF that] mem h by simp
  then show ?thesis using run False acc o h
    by (auto simp: accept_one_def Let_def split: option.splits prod.splits bool.splits)
qed


text \<open>
  The promises of the environment along a pass: every accepted socket and every new connection is
  fresh when it is handed out, and epoll only returns references of connections that are allocated
  when it is asked.
\<close>

primrec accept_envs_ok ::
  "'m token_ops \<Rightarrow> bpf2socks_runtime_config \<Rightarrow> accept_env list \<Rightarrow> 'm tcp_worker_state \<Rightarrow> bool" where
  "accept_envs_ok ops cf [] s = True"
| "accept_envs_ok ops cf (env # envs) s =
     (accept_env_ok env s \<and>
      (case accept_one ops cf env s of Some (True, s1) \<Rightarrow> accept_envs_ok ops cf envs s1 | _ \<Rightarrow> True))"

primrec ptr_ok :: "nat set \<Rightarrow> event_ptr \<Rightarrow> bool" where
  "ptr_ok H Null_Ref = True"
| "ptr_ok H Listener4_Ref = True"
| "ptr_ok H Listener6_Ref = True"
| "ptr_ok H (Client_Ref i) = (i \<in> H)"
| "ptr_ok H (Upstream_Ref i) = (i \<in> H)"

primrec events_ok ::
  "'m token_ops \<Rightarrow> bpf2socks_runtime_config \<Rightarrow> (event_ptr \<times> u32 \<times> event_env) list \<Rightarrow> 'm tcp_worker_state \<Rightarrow> bool" where
  "events_ok ops cf [] s = True"
| "events_ok ops cf (x # xs) s =
     (case x of (p, ev, env) \<Rightarrow>
        accept_envs_ok ops cf (ee_accepts env) s \<and>
        (case handle_connection_event ops cf env p ev s of Some s1 \<Rightarrow> events_ok ops cf xs s1 | None \<Rightarrow> True))"

definition pass_env_ok :: "'m token_ops \<Rightarrow> bpf2socks_runtime_config \<Rightarrow> loop_env \<Rightarrow> 'm tcp_worker_state \<Rightarrow> bool" where
  "pass_env_ok ops cf env s =
     (case le_wait env of
        Inl _ \<Rightarrow> True
      | Inr evs \<Rightarrow> list_all (\<lambda>(p, _). ptr_ok (ws_heap s) p) evs \<and>
          events_ok ops cf evs (resume_tcp_listeners_if_due (le_resume1 env) s))"

lemma accept_ready_ok:
  assumes "accept_ready_clients ops cf envs s = Some s'" "accept_envs_ok ops cf envs s" "worker_wf base s xs ys" "deadlines_ok cf s (set xs)"
  shows "\<exists>xs' ys'. worker_wf base s' xs' ys' \<and> deadlines_ok cf s' (set xs') \<and> ws_heap s \<subseteq> ws_heap s'"
  using assms
proof (induction envs arbitrary: s xs ys)
  case (Cons env envs)
  obtain cont s1 where one: "accept_one ops cf env s = Some (cont, s1)"
    using Cons.prems(1) by (auto split: option.splits)
  have env: "accept_env_ok env s" using Cons.prems(2) by simp
  obtain xs1 ys1 where s1: "worker_wf base s1 xs1 ys1" "deadlines_ok cf s1 (set xs1)"
    using accept_one_ok [OF Cons.prems(3,4) env one] by blast
  note heap = accept_one_heap [OF env one]
  show ?case
  proof (cases cont)
    case True
    then have "accept_ready_clients ops cf envs s1 = Some s'" "accept_envs_ok ops cf envs s1" using Cons.prems(1,2) one by simp_all
    from Cons.IH [OF this s1] show ?thesis using heap by blast
  next
    case False
    then show ?thesis using Cons.prems(1) one s1 heap by auto
  qed
qed simp

text \<open>A reference of an allocated connection is that of a live one, or has no connection any more.\<close>

lemma deref_cases:
  assumes wf: "worker_wf base s xs ys" and p: "ptr_ok (ws_heap s) p" and d: "deref s p = Some ref"
  obtains (listener) "fr_side ref = TCP_SIDE_LISTENER"
  | (live) i where "i \<in> set xs" "fr_connection ref = Some i" "fr_side ref \<noteq> TCP_SIDE_LISTENER"
  | (dead) "fr_connection ref = None" "fr_side ref \<noteq> TCP_SIDE_LISTENER"
proof (cases p)
  case (Client_Ref i)
  then have "i \<in> set xs \<or> i \<in> set ys" using p wf by (simp add: worker_wf_def)
  then show ?thesis
    using that(2) [of i] that(3) d Client_Ref worker_wf_live [OF wf, of i] wf
    by (auto simp: live_conn_def worker_wf_def dead_conn_def)
next
  case (Upstream_Ref i)
  then have "i \<in> set xs \<or> i \<in> set ys" using p wf by (simp add: worker_wf_def)
  then show ?thesis
    using that(2) [of i] that(3) d Upstream_Ref worker_wf_live [OF wf, of i] wf
    by (auto simp: live_conn_def worker_wf_def dead_conn_def)
qed (use that(1) d wf in \<open>auto simp: worker_wf_def listeners_ok_def\<close>)

lemma handle_event_ok:
  assumes run: "handle_connection_event ops cf env p ev s = Some s'" and wf: "worker_wf base s xs ys" and dl: "deadlines_ok cf s (set xs)"
    and p: "ptr_ok (ws_heap s) p" and env: "accept_envs_ok ops cf (ee_accepts env) s"
  shows "\<exists>xs' ys'. worker_wf base s' xs' ys' \<and> deadlines_ok cf s' (set xs') \<and> ws_heap s \<subseteq> ws_heap s'"
proof (cases "deref s p")
  case None
  then show ?thesis using run wf dl by (auto simp: handle_connection_event_def)
next
  case (Some ref)
  from wf p Some show ?thesis
  proof (cases rule: deref_cases)
    case listener
    then have "s' = s \<or> accept_ready_clients ops cf (ee_accepts env) s = Some s'"
      using run Some by (auto simp: handle_connection_event_def split: if_splits)
    then show ?thesis using accept_ready_ok [OF _ env wf dl] wf dl by blast
  next
    case (live i)
    then obtain s1 where h: "run_handler (ee_tcp env) (fr_side ref) ev s i = Some s1"
      and s': "s' = note_connection_deadline cf (update_connection_events (ee_ctl_client env) (ee_ctl_upstream env) s1 i) i"
      using run Some by (auto simp: handle_connection_event_def split: option.splits)
    show ?thesis using connection_ref_ok [OF wf dl live(1) h] run_handler_heap [OF h] unfolding s' by (simp add: s')
  next
    case dead
    then show ?thesis using run Some wf dl by (auto simp: handle_connection_event_def)
  qed
qed

lemma ptr_ok_mono: "ptr_ok H p \<Longrightarrow> H \<subseteq> H' \<Longrightarrow> ptr_ok H' p"
  by (cases p) auto

lemma handle_events_ok:
  assumes "handle_events ops cf evs s = Some s'" "worker_wf base s xs ys" "deadlines_ok cf s (set xs)"
    "list_all (\<lambda>(p, _). ptr_ok (ws_heap s) p) evs" "events_ok ops cf evs s"
  shows "\<exists>xs' ys'. worker_wf base s' xs' ys' \<and> deadlines_ok cf s' (set xs')"
  using assms
proof (induction evs arbitrary: s xs ys)
  case (Cons x evs)
  obtain p ev env where x: "x = (p, ev, env)" using prod_cases3 by blast
  then obtain s1 where h: "handle_connection_event ops cf env p ev s = Some s1" and r: "handle_events ops cf evs s1 = Some s'"
    using Cons.prems(1) by (auto split: option.splits)
  obtain xs1 ys1 where s1: "worker_wf base s1 xs1 ys1" "deadlines_ok cf s1 (set xs1)" "ws_heap s \<subseteq> ws_heap s1"
    using handle_event_ok [OF h Cons.prems(2,3)] Cons.prems(4,5) x by auto
  have "list_all (\<lambda>(p, _). ptr_ok (ws_heap s1) p) evs"
    using Cons.prems(4) s1(3) by (auto simp: list_all_iff intro: ptr_ok_mono)
  moreover have "events_ok ops cf evs s1" using Cons.prems(5) x h by simp
  ultimately show ?case using Cons.IH [OF r s1(1,2)] by blast
qed auto

lemma publish_view: "untouched s (publish_tcp_stats_if_due cf now force s)"
  by (simp add: publish_tcp_stats_if_due_def Let_def untouched_def listeners_ok_def listener_fds_def)

lemma free_closed_deadlines:
  assumes "worker_wf base s xs ys" "deadlines_ok cf s (set xs)"
  shows "\<exists>s'. free_closed_connections s = Some s' \<and> worker_wf base s' xs [] \<and> deadlines_ok cf s' (set xs)"
  using free_closed_ok [OF assms(1)] assms(2) by (auto simp: deadlines_ok_def)

lemma worker_pass_ok:
  assumes run: "worker_pass ops cf env s = Some (r, s')" and wf: "worker_wf base s xs ys" and dl: "deadlines_ok cf s (set xs)"
    and env: "pass_env_ok ops cf env s"
  shows "\<exists>xs' ys'. worker_wf base s' xs' ys' \<and> deadlines_ok cf s' (set xs')"
proof -
  let ?s1 = "resume_tcp_listeners_if_due (le_resume1 env) s"
  note s1 = untouched_ok [OF wf resume_untouched [of s "le_resume1 env"]]
  have stay: ?thesis if "s' = s \<or> s' = ?s1" using that wf dl s1 by blast
  show ?thesis
  proof (cases "le_stop1 env \<or> le_stop2 env \<or> (\<exists>e. le_wait env = Inl e)")
    case True
    then show ?thesis using run by (intro stay) (auto simp: worker_pass_def Let_def split: if_splits sum.splits)
  next
    case False
    then obtain evs where evs: "le_wait env = Inr evs" by (metis sum.exhaust)
    from run False evs obtain s2 where h: "handle_events ops cf evs ?s1 = Some s2"
      by (auto simp: worker_pass_def Let_def split: option.splits)
    have heap: "ws_heap ?s1 = ws_heap s" using resume_untouched [of s "le_resume1 env"] by (simp add: untouched_def)
    obtain xs2 ys2 where s2: "worker_wf base s2 xs2 ys2" "deadlines_ok cf s2 (set xs2)"
      using handle_events_ok [OF h s1(1) s1(2) [OF dl]] env evs heap by (auto simp: pass_env_ok_def)
    let ?s2 = "resume_tcp_listeners_if_due (le_resume2 env) s2"
    note r2 = untouched_ok [OF s2(1) resume_untouched [of s2 "le_resume2 env"]]
    obtain s3 xs3 ys3 where s3: "expire_tcp_connections cf ?s2 (le_now env) = Some s3" "worker_wf base s3 xs3 ys3" "deadlines_ok cf s3 (set xs3)"
      using expire_tcp_connections_ok [OF r2(1) r2(2) [OF s2(2)]] by blast
    let ?s4 = "publish_tcp_stats_if_due cf (le_now env) False s3"
    obtain s5 where s5: "free_closed_connections ?s4 = Some s5" "worker_wf base s5 xs3 []" "deadlines_ok cf s5 (set xs3)"
      using free_closed_deadlines untouched_ok [OF s3(2) publish_view] s3(3) by blast
    have "s' = s5" using run False evs h s3(1) s5(1) by (simp add: worker_pass_def Let_def)
    then show ?thesis using s5 by blast
  qed
qed


text \<open>
  The states of a worker between the passes of its loop. \<open>base\<close> is what the other workers hold of
  the shared session budget; it changes at any time.
\<close>

inductive worker_run :: "'m token_ops \<Rightarrow> bpf2socks_runtime_config \<Rightarrow> u64 \<Rightarrow> 'm tcp_worker_state \<Rightarrow> bool"
  for ops :: "'m token_ops" and cf :: bpf2socks_runtime_config where
  start: "worker_setup su (initial_worker listener4 listener6 addr_len budget counters byte_counts tokens world) = Some s \<Longrightarrow>
    worker_run ops cf (tb_used budget) s"
| pass: "worker_run ops cf base s \<Longrightarrow> pass_env_ok ops cf env s \<Longrightarrow> worker_pass ops cf env s = Some (r, s') \<Longrightarrow> worker_run ops cf base s'"
| others: "worker_run ops cf base s \<Longrightarrow>
    worker_run ops cf base' (s\<lparr>ws_budget := (ws_budget s)\<lparr>tb_used := tb_used (ws_budget s) - base + base'\<rparr>\<rparr>)"

lemma initial_wf:
  assumes "worker_setup su (initial_worker listener4 listener6 addr_len budget counters byte_counts tokens world) = Some s"
  shows "worker_wf (tb_used budget) s [] []"
  using assms
  by (auto simp: worker_setup_def initial_worker_def Let_def worker_wf_def active_list_def closed_list_def act_links_def dll_def
      listeners_ok_def listener_fds_def add_fd_def split: if_splits prod.splits)

lemma worker_run_ok:
  assumes "worker_run ops cf base s"
  obtains xs ys where "worker_wf base s xs ys" "deadlines_ok cf s (set xs)"
proof -
  from assms have "\<exists>xs ys. worker_wf base s xs ys \<and> deadlines_ok cf s (set xs)"
  proof (induction rule: worker_run.induct)
    case (start su l4 l6 n b k bc t w s)
    then have "worker_wf (tb_used b) s [] [] \<and> deadlines_ok cf s (set [])" by (simp add: initial_wf deadlines_ok_def)
    then show ?case by blast
  next
    case (pass base s env r s')
    then show ?case using worker_pass_ok [OF pass(3) _ _ pass(2)] by blast
  next
    case (others base s base')
    then obtain xs ys where wf: "worker_wf base s xs ys" and dl: "deadlines_ok cf s (set xs)" by blast
    let ?s = "s\<lparr>ws_budget := (ws_budget s)\<lparr>tb_used := tb_used (ws_budget s) - base + base'\<rparr>\<rparr>"
    have "worker_wf base' ?s xs ys"
      using wf by (auto simp: worker_wf_def active_list_def closed_list_def act_links_def live_fds_def listeners_ok_def listener_fds_def)
    then show ?case using dl by (auto simp: deadlines_ok_def)
  qed
  then show ?thesis using that by blast
qed

lemma expired_deadline: "conn_expired cf now c \<Longrightarrow> conn_deadline cf c \<le> now"
proof -
  have le: "start + d \<le> now" if "start \<le> now" "d \<le> now - start" for start d :: u64
  proof -
    have "unat start + unat d \<le> unat now" using that by (simp add: word_le_nat_alt unat_sub)
    moreover have "unat now < 2 ^ 64" using unsigned_less [of now, where ?'a = nat] by simp
    ultimately show ?thesis using that elapsed_iff [of start d now] by simp
  qed
  show "conn_expired cf now c \<Longrightarrow> conn_deadline cf c \<le> now"
    using le by (auto simp: conn_expired_def conn_deadline_def bpf2socks_deadline_tcp_expired_def connection_deadline_def split: if_splits)
qed

lemma live_closing: "worker_wf base s xs ys \<Longrightarrow> i \<in> ws_heap s \<Longrightarrow> tc_closing (ws_conns s i) = (i \<in> set ys)"
  by (auto simp: worker_wf_def live_conn_def dead_conn_def)


section \<open>A concrete run\<close>

definition sample_config :: bpf2socks_runtime_config where
  "sample_config = \<lparr>rc_socks_host = ''h'', rc_socks_port = 1080, rc_listen_host = ''l'', rc_listen_port = 7, rc_pinned_object_dir = ''p'',
     rc_cgroup_path = ''c'', rc_enable_ipv6 = False, rc_enable_dns_hijack = False, rc_debug_stats = False,
     rc_token_ipv4_prefix = [127, 66, 0, 0], rc_token_ipv4_prefix_bits = 16, rc_token_ipv6_prefix = zero_bytes 16,
     rc_token_ipv6_prefix_bits = 64, rc_worker_count = 1, rc_tcp_buffer_size = 0, rc_max_tcp_sessions = 10, rc_connect_timeout = 100,
     rc_tcp_idle_timeout = 0, rc_udp_socket_buffer_size = 0, rc_udp_batch_size = 1, rc_max_udp_sessions = 1, rc_max_udp_bindings = 1,
     rc_udp_idle_timeout = 1, rc_max_udp_pending_bytes = 1, rc_dns_transaction_timeout = 1, rc_token_map_fd = 3,
     rc_reuseport_tcp4_map_fd = -1, rc_reuseport_udp4_map_fd = -1, rc_reuseport_tcp6_map_fd = -1, rc_reuseport_udp6_map_fd = -1,
     rc_reuseport_prog_fd = -1\<rparr>"

definition sample_ops :: "bool token_ops" where
  "sample_ops = \<lparr>to_lookup = (\<lambda>_ _. None),
     to_lookup_and_delete = (\<lambda>m _. (if m then Inr \<lparr>od_family = 2, od_protocol = 6, od_port = 443, od_addr = [1, 1, 1, 1] @ zero_bytes 12, od_flags = 0\<rparr> else Inl ENOENT, False)),
     to_delete = (\<lambda>_ _. (True, False))\<rparr>"

definition sample_listener_env :: listener_env where
  "sample_listener_env = \<lparr>lc_now = 50, lc_ctl4 = None, lc_ctl6 = None, lc_spare = 4\<rparr>"

text \<open>One client is accepted, its connection to the upstream is under way; the next pass would block.\<close>

definition sample_accept :: "errno + int \<times> sockaddr_storage \<Rightarrow> accept_env" where
  "sample_accept r = \<lparr>ae_stop = False, ae_accept = r, ae_getsockname = Some \<lparr>ss_family = 2, ss_port = 7, ss_addr = [127, 66, 0, 1] @ zero_bytes 12\<rparr>,
     ae_so_original_dst = None, ae_so_original_dst6 = None, ae_getsockname2 = None, ae_calloc = Some 0, ae_now = 50, ae_socket = Inr 9,
     ae_connect = Some EINPROGRESS, ae_sends = [], ae_errno = EIO, ae_add_client = None, ae_add_upstream = None, ae_spare_accepts = [],
     ae_listeners = sample_listener_env\<rparr>"

definition sample_accepts :: "accept_env list" where
  "sample_accepts = [sample_accept (Inr (8, \<lparr>ss_family = 2, ss_port = 4000, ss_addr = [10, 0, 0, 5] @ zero_bytes 12\<rparr>)), sample_accept (Inl EAGAIN)]"

definition sample_pass :: loop_env where
  "sample_pass = \<lparr>le_stop1 = False, le_resume1 = sample_listener_env,
     le_wait = Inr [(Listener4_Ref, 1, \<lparr>ee_accepts = sample_accepts, ee_tcp = sample_tcp_env, ee_ctl_client = None, ee_ctl_upstream = None\<rparr>)],
     le_stop2 = False, le_now = 50, le_resume2 = sample_listener_env\<rparr>"

definition sample_setup :: setup_env where
  "sample_setup = \<lparr>su_epoll_create = None, su_stop_fd = 3, su_add_stop = None, su_add4 = None, su_add6 = None, su_spare = 4\<rparr>"

definition sample_start :: "bool tcp_worker_state" where
  "sample_start = initial_worker 5 (-1) 16 \<lparr>tb_used = 2, tb_cap = 10\<rparr>
     \<lparr>st_tcp_accepts = 0, st_tcp_connect_failures = 0, st_tcp_drops_capacity = 0, st_tcp_connect_timeouts = 0, st_tcp_idle_timeouts = 0,
      st_tcp_fd_exhaustions = 0, st_tcp_token_delete_failures = 0\<rparr> sample_bytes \<lparr>ts_unsupported = False, ts_map = True\<rparr> sample_world"

lemma sample_check:
  "case worker_setup sample_setup sample_start of
     None \<Rightarrow> False
   | Some s \<Rightarrow> accept_env_ok (hd sample_accepts) s \<and> \<not> ws_listeners_paused s \<and> fr_side (ws_listener4_ref s) = TCP_SIDE_LISTENER \<and>
       (case accept_one sample_ops sample_config (hd sample_accepts) s of
          None \<Rightarrow> False
        | Some (cont, s1) \<Rightarrow> cont \<and> 0 \<in> ws_heap s1 \<and> \<not> tc_closing (ws_conns s1 0) \<and> conn_expired sample_config 150 (ws_conns s1 0) \<and>
            tb_used (ws_budget s1) = 3 \<and> ws_next_deadline_ms s1 = 150 \<and> ws_closed s1 = None \<and> \<not> ws_listeners_paused s1)"
  unfolding sample_setup_def sample_start_def sample_accepts_def
  by (simp add: worker_setup_def initial_worker_def add_fd_def Let_def accept_env_ok_def accept_one_def sample_accept_def listener_fds_def
     client_original_dst_def fill_tcp_token_key_def lookup_original_with_client_fallback_def bpf2socks_token_take_def sample_ops_def
     bpf2socks_original_dst_to_sockaddr_def reserve_tcp_session_def session_fits_def admit_client_def create_connection_def 
     connect_nonblocking_addr_def open_fd_def upd_conn_def new_connection_def active_add_def note_connection_deadline_def register_connection_def
     client_events_def upstream_events_def conn_deadline_def sample_config_def connection_deadline_def bpf2socks_deadline_note_def NO_DEADLINE_def
     conn_expired_def bpf2socks_deadline_tcp_expired_def copy_prefix_def zero_client_key_def split: option.split)

lemma sample_run_exists:
  obtains s where "worker_run sample_ops sample_config 2 s" "0 \<in> ws_heap s" "\<not> tc_closing (ws_conns s 0)"
    "conn_expired sample_config 150 (ws_conns s 0)" "tb_used (ws_budget s) = 3"
proof -
  from sample_check obtain s s1 where s: "worker_setup sample_setup sample_start = Some s"
    and env: "accept_env_ok (hd sample_accepts) s" and np: "\<not> ws_listeners_paused s"
    and side: "fr_side (ws_listener4_ref s) = TCP_SIDE_LISTENER"
    and one: "accept_one sample_ops sample_config (hd sample_accepts) s = Some (True, s1)"
    and p: "0 \<in> ws_heap s1" "\<not> tc_closing (ws_conns s1 0)" "conn_expired sample_config 150 (ws_conns s1 0)"
      "tb_used (ws_budget s1) = 3" "ws_next_deadline_ms s1 = 150" "ws_closed s1 = None" "\<not> ws_listeners_paused s1"
    by (auto split: option.splits)
  have list: "sample_accepts = [hd sample_accepts, sample_accept (Inl EAGAIN)]" by (simp add: sample_accepts_def)
  have last: "accept_one sample_ops sample_config (sample_accept (Inl EAGAIN)) s1 = Some (False, s1)"
    "accept_env_ok (sample_accept (Inl EAGAIN)) s1"
    by (simp_all add: accept_one_def accept_env_ok_def sample_accept_def)
  have s1: "accept_ready_clients sample_ops sample_config sample_accepts s = Some s1"
    and ok: "accept_envs_ok sample_ops sample_config sample_accepts s"
    by (subst list, simp add: one last env)+
  have run: "worker_run sample_ops sample_config 2 s"
    using worker_run.start [OF s [unfolded sample_start_def]] by simp
  have h: "handle_connection_event sample_ops sample_config
      \<lparr>ee_accepts = sample_accepts, ee_tcp = sample_tcp_env, ee_ctl_client = None, ee_ctl_upstream = None\<rparr> Listener4_Ref 1 s = Some s1"
    using s1 np side by (simp add: handle_connection_event_def)
  have r: "resume_tcp_listeners_if_due env t = t" if "\<not> ws_listeners_paused t" for env and t :: "bool tcp_worker_state"
    using that by (simp add: resume_tcp_listeners_if_due_def Let_def)
  let ?s2 = "s1\<lparr>ws_closed := None\<rparr>"
  have "pass_env_ok sample_ops sample_config sample_pass s"
    using ok h by (simp add: pass_env_ok_def sample_pass_def r np)
  moreover have "worker_pass sample_ops sample_config sample_pass s = Some (Loop_Again, ?s2)"
    using h p by (simp add: worker_pass_def sample_pass_def r np expire_tcp_connections_def free_closed_connections_def
        publish_tcp_stats_if_due_def sample_config_def free_chain.simps Let_def)
  ultimately have "worker_run sample_ops sample_config 2 ?s2" using worker_run.pass [OF run] by blast
  then show ?thesis using that [of ?s2] p by simp
qed

section \<open>Properties\<close>

text \<open>
  C9. A worker's accounts are exact between the passes of its loop, whatever the system calls
  return: every allocated connection is on exactly one of the two lists; the references of a live
  connection name it and carry the events epoll watches, those of a closed one name nothing, so
  that a late event cannot reach it; the open sockets are exactly the two of each live connection,
  all different; the shared session budget holds exactly one unit per live connection beside what
  the other workers hold; and no live connection has a deadline before the one the loop waits for.
  The kernel never hands out a descriptor in use, nor the allocator memory in use.
\<close>

theorem tcp_worker_accounts_exact:
  assumes "worker_run ops cf base s"
  shows "\<exists>live closed. active_list s live \<and> closed_list s closed \<and> distinct (live @ closed) \<and>
    ws_heap s = set (live @ closed) \<and> (\<forall>i\<in>set live. live_conn (ws_epoll s) i (ws_conns s i)) \<and>
    (\<forall>i\<in>set closed. dead_conn (ws_conns s i)) \<and> distinct (live_fds s live) \<and> ws_open s = set (live_fds s live) \<and>
    tb_used (ws_budget s) = base + of_nat (length live) \<and>
    (\<forall>i\<in>set live. ws_next_deadline_ms s \<le> conn_deadline cf (ws_conns s i))"
proof -
  from assms obtain xs ys where wf: "worker_wf base s xs ys" and dl: "deadlines_ok cf s (set xs)" by (rule worker_run_ok)
  then show ?thesis using worker_wf_lists [OF wf]
    by (intro exI [of _ xs] exI [of _ ys]) (auto simp: worker_wf_def deadlines_ok_def)
qed

theorem tcp_worker_accounts_exact_witness:
  "\<exists>s live. worker_run sample_ops sample_config 2 s \<and> active_list s live \<and> live \<noteq> [] \<and> ws_open s = set (live_fds s live)"
proof -
  obtain s where s: "worker_run sample_ops sample_config 2 s" "tb_used (ws_budget s) = 3" using sample_run_exists by blast
  obtain live where l: "active_list s live" "ws_open s = set (live_fds s live)" "tb_used (ws_budget s) = 2 + of_nat (length live)"
    using tcp_worker_accounts_exact [OF s(1)] by blast
  then have "live \<noteq> []" using s(2) by auto
  then show ?thesis using s(1) l by blast
qed

text \<open>
  C10. The expiry scan closes exactly the connections that are expired: at any time, in every state
  the loop can be in, \<open>expire_tcp_connections\<close> returns, and afterwards a connection is closing if
  it was before or if its timeout has run out, and not otherwise. In particular skipping the scan
  because the noted deadline has not come never leaves an expired connection open.
\<close>

theorem tcp_expiry_scan_exact:
  assumes "worker_run ops cf base s"
  shows "\<exists>s'. expire_tcp_connections cf s now = Some s' \<and>
    (\<forall>i\<in>ws_heap s. tc_closing (ws_conns s' i) \<longleftrightarrow> tc_closing (ws_conns s i) \<or> conn_expired cf now (ws_conns s i))"
proof -
  from assms obtain xs ys where wf: "worker_wf base s xs ys" and dl: "deadlines_ok cf s (set xs)" by (rule worker_run_ok)
  from expire_tcp_connections_ok [OF wf dl, of now] obtain s' xs' ys' where run: "expire_tcp_connections cf s now = Some s'"
    and wf': "worker_wf base s' xs' ys'" and
    res: "if now = 0 \<or> now < ws_next_deadline_ms s then s' = s \<and> xs' = xs
     else xs' = live_after cf now s xs \<and> scanned (expired_set cf now s xs) ys ys' s s'" by blast
  have "tc_closing (ws_conns s' i) \<longleftrightarrow> tc_closing (ws_conns s i) \<or> conn_expired cf now (ws_conns s i)" if i: "i \<in> ws_heap s" for i
  proof (cases "now = 0 \<or> now < ws_next_deadline_ms s")
    case True
    have "\<not> conn_expired cf now (ws_conns s i)" if "\<not> tc_closing (ws_conns s i)"
    proof
      assume e: "conn_expired cf now (ws_conns s i)"
      have "i \<in> set xs" using i that wf live_closing [OF wf i] by (auto simp: worker_wf_def)
      then have "ws_next_deadline_ms s \<le> now" using dl expired_deadline [OF e] by (auto simp: deadlines_ok_def intro: order_trans)
      moreover have "now \<noteq> 0" using e by (auto simp: conn_expired_def bpf2socks_deadline_tcp_expired_def)
      ultimately show False using True by simp
    qed
    then show ?thesis using True res by auto
  next
    case False
    then have ys': "set ys' = set ys \<union> expired_set cf now s xs" and xs': "xs' = live_after cf now s xs"
      using res by (simp_all add: scanned_def)
    have "i \<in> ws_heap s'" using i wf wf' ys' xs' by (auto simp: worker_wf_def live_after_def expired_set_def)
    then show ?thesis using live_closing [OF wf i] live_closing [OF wf'] ys' i wf by (auto simp: worker_wf_def expired_set_def)
  qed
  then show ?thesis using run by blast
qed

theorem tcp_expiry_scan_exact_witness:
  "\<exists>s s'. worker_run sample_ops sample_config 2 s \<and> expire_tcp_connections sample_config s 150 = Some s' \<and>
     \<not> tc_closing (ws_conns s 0) \<and> tc_closing (ws_conns s' 0)"
proof -
  obtain s where s: "worker_run sample_ops sample_config 2 s" "0 \<in> ws_heap s" "\<not> tc_closing (ws_conns s 0)"
    "conn_expired sample_config 150 (ws_conns s 0)" using sample_run_exists by blast
  then show ?thesis using tcp_expiry_scan_exact [OF s(1), of 150] by blast
qed

text \<open>
  C11. Stopping a worker releases everything: from any state its loop can be in, the code after the
  loop returns (\<open>close_all_active\<close>, \<open>free_closed_connections\<close> and the rest terminate) and leaves no
  open socket, no allocated connection, nothing registered with epoll, no pipe in the pool, and
  the session budget at exactly what the other workers hold.
\<close>

theorem tcp_worker_stop_releases_all:
  assumes "worker_run ops cf base s"
  shows "\<exists>s'. worker_teardown cf now s = Some s' \<and> ws_open s' = {} \<and> ws_heap s' = {} \<and> ws_active s' = None \<and> ws_closed s' = None \<and>
    tb_used (ws_budget s') = base \<and> ws_epoll s' = (\<lambda>_. 0) \<and> ws_pipe_pool s' = [] \<and> ws_spare_fd s' = -1"
proof -
  from assms obtain xs ys where "worker_wf base s xs ys" by (rule worker_run_ok)
  then show ?thesis by (rule worker_teardown_ok)
qed

theorem tcp_worker_stop_releases_all_witness:
  "\<exists>s s'. worker_run sample_ops sample_config 2 s \<and> tb_used (ws_budget s) = 3 \<and>
     worker_teardown sample_config 0 s = Some s' \<and> tb_used (ws_budget s') = 2 \<and> ws_open s' = {}"
proof -
  obtain s where s: "worker_run sample_ops sample_config 2 s" "tb_used (ws_budget s) = 3" using sample_run_exists by blast
  then show ?thesis using tcp_worker_stop_releases_all [OF s(1), of 0] by blast
qed

end
