(* ===== verification/Dns_Packet.thy ===== *)
theory Dns_Packet
  imports B2S_Prelude
begin

text \<open>
  Reading DNS messages, first part of \<^verbatim>\<open>bridge/dns.c\<close>: the fingerprint of the question (a hash of the
  lower-cased name, its type and its class, following compression pointers), the two parsers and the
  rewriting of the identifier. The loop over the labels is a function with a measure, since at most
  16 pointers are followed. The reference definition \<open>name_at\<close> says which name stands at an offset; the
  lemmas relate the fingerprint to it.
\<close>

section \<open>Operations\<close>

record bpf2socks_dns_packet_info =
  di_id :: u16
  di_question_fingerprint :: u32
  di_has_question :: bool

definition BPF2SOCKS_DNS_HEADER_SIZE :: nat where "BPF2SOCKS_DNS_HEADER_SIZE = 12"
definition BPF2SOCKS_DNS_MAX_POINTER_HOPS :: nat where "BPF2SOCKS_DNS_MAX_POINTER_HOPS = 16"

text \<open>Callers guarantee that both bytes are inside the packet.\<close>

definition read_be16 :: "bytes \<Rightarrow> nat \<Rightarrow> u16" where
  "read_be16 packet offset = be16 (packet ! offset) (packet ! (offset + 1))"

definition fnv1a_update :: "u32 \<Rightarrow> u8 \<Rightarrow> u32" where
  "fnv1a_update h b = (h XOR ucast b) * 16777619"

definition ascii_lower :: "u8 \<Rightarrow> u8" where
  "ascii_lower b = (if 0x41 \<le> b \<and> b \<le> 0x5a then b + 0x20 else b)"

text \<open>
  The loop: the cursor, \<open>jumped\<close> with \<open>end_offset\<close>, the number of hops and the hash. \<open>None\<close> is the
  result \<open>-1\<close>; \<open>Some\<close> carries \<open>next_offset\<close> and the hash.
\<close>

function fingerprint_loop :: "bytes \<Rightarrow> nat \<Rightarrow> bool \<Rightarrow> nat \<Rightarrow> nat \<Rightarrow> u32 \<Rightarrow> (nat \<times> u32) option" where
  "fingerprint_loop packet cursor jumped end_offset hops h =
    (if length packet \<le> cursor then None
     else let len = packet ! cursor in
       if len AND 0xc0 = 0xc0 then
         if length packet \<le> cursor + 1 then None
         else let pointer = unat (read_be16 packet cursor AND 0x3fff) in
           if length packet \<le> pointer \<or> BPF2SOCKS_DNS_MAX_POINTER_HOPS < hops + 1 then None
           else fingerprint_loop packet pointer True (if jumped then end_offset else cursor + 2) (hops + 1) h
       else if len AND 0xc0 \<noteq> 0 then None
       else if len = 0 then Some (if jumped then end_offset else cursor + 1, fnv1a_update h 0)
       else if 63 < len \<or> length packet < cursor + 1 + unat len then None
       else fingerprint_loop packet (cursor + 1 + unat len) jumped end_offset hops
              (fold (\<lambda>b a. fnv1a_update a (ascii_lower b)) (take (unat len) (drop (cursor + 1) packet)) (fnv1a_update h len)))"
  by pat_completeness auto
termination
  by (relation "measures [\<lambda>(p, c, j, e, hops, h). BPF2SOCKS_DNS_MAX_POINTER_HOPS - hops, \<lambda>(p, c, j, e, hops, h). length p - c]")
     (auto simp: BPF2SOCKS_DNS_MAX_POINTER_HOPS_def)

declare fingerprint_loop.simps [simp del]

definition fingerprint_name :: "bytes \<Rightarrow> nat \<Rightarrow> u32 \<Rightarrow> (nat \<times> u32) option" where
  "fingerprint_name packet offset h = fingerprint_loop packet offset False 0 0 h"

definition parse_dns_packet :: "bytes \<Rightarrow> bool \<Rightarrow> errno + bpf2socks_dns_packet_info" where
  "parse_dns_packet packet expect_response =
    (if length packet < BPF2SOCKS_DNS_HEADER_SIZE then Inl EINVAL
     else let is_response = (packet ! 2 AND 0x80 \<noteq> 0) in
     if is_response \<noteq> expect_response then Inl EPROTO
     else let qdcount = read_be16 packet 4 in
     if \<not> expect_response \<and> qdcount = 0 then Inl EPROTO
     else if qdcount = 0 then
       Inr \<lparr>di_id = read_be16 packet 0, di_question_fingerprint = 0, di_has_question = False\<rparr>
     else case fingerprint_name packet BPF2SOCKS_DNS_HEADER_SIZE 2166136261 of
       None \<Rightarrow> Inl EPROTO
     | Some (question_end, h) \<Rightarrow>
         if length packet < question_end + 4 then Inl EPROTO
         else let qtype = read_be16 packet question_end; qclass = read_be16 packet (question_end + 2);
                h = fnv1a_update h (hi8 qtype); h = fnv1a_update h (lo8 qtype);
                h = fnv1a_update h (hi8 qclass); h = fnv1a_update h (lo8 qclass) in
           Inr \<lparr>di_id = read_be16 packet 0, di_question_fingerprint = (if h = 0 then 1 else h), di_has_question = True\<rparr>)"

definition bpf2socks_dns_parse_query :: "bytes \<Rightarrow> errno + bpf2socks_dns_packet_info" where
  "bpf2socks_dns_parse_query packet = parse_dns_packet packet False"

definition bpf2socks_dns_parse_response :: "bytes \<Rightarrow> errno + bpf2socks_dns_packet_info" where
  "bpf2socks_dns_parse_response packet = parse_dns_packet packet True"

definition bpf2socks_dns_set_id :: "bytes \<Rightarrow> u16 \<Rightarrow> bytes" where
  "bpf2socks_dns_set_id packet id' = (if length packet < 2 then packet else packet[0 := hi8 id', 1 := lo8 id'])"

section \<open>The name at an offset\<close>

text \<open>
  \<open>name_at p off k labels nx\<close>: the name at offset \<open>off\<close>, read through \<open>k\<close> compression pointers, has the
  labels \<open>labels\<close>, and what follows the name in place starts at \<open>nx\<close> (RFC 1035, sections 3.1 and 4.1.4).
\<close>

inductive name_at :: "bytes \<Rightarrow> nat \<Rightarrow> nat \<Rightarrow> bytes list \<Rightarrow> nat \<Rightarrow> bool" for p :: bytes where
  root: "off < length p \<Longrightarrow> p ! off = 0 \<Longrightarrow> name_at p off 0 [] (off + 1)"
| label: "off < length p \<Longrightarrow> 0 < p ! off \<Longrightarrow> p ! off < 64 \<Longrightarrow> off + 1 + unat (p ! off) \<le> length p \<Longrightarrow>
    name_at p (off + 1 + unat (p ! off)) k labels nx \<Longrightarrow>
    name_at p off k (take (unat (p ! off)) (drop (off + 1) p) # labels) nx"
| pointer: "off + 1 < length p \<Longrightarrow> 192 \<le> p ! off \<Longrightarrow> unat (read_be16 p off AND 0x3fff) < length p \<Longrightarrow>
    name_at p (unat (read_be16 p off AND 0x3fff)) k labels nx \<Longrightarrow> name_at p off (Suc k) labels (off + 2)"

text \<open>The bytes that are hashed for a name, and for a question.\<close>

definition canonical_name :: "bytes list \<Rightarrow> bytes" where
  "canonical_name labels = concat (map (\<lambda>l. of_nat (length l) # map ascii_lower l) labels) @ [0]"

definition fnv1a :: "bytes \<Rightarrow> u32 \<Rightarrow> u32" where
  "fnv1a bs h = fold (\<lambda>b a. fnv1a_update a b) bs h"

definition question_fingerprint :: "bytes list \<Rightarrow> u16 \<Rightarrow> u16 \<Rightarrow> u32" where
  "question_fingerprint labels qtype qclass =
    (let h = fnv1a (canonical_name labels @ [hi8 qtype, lo8 qtype, hi8 qclass, lo8 qclass]) 2166136261 in
     if h = 0 then 1 else h)"

lemma fnv1a_append [simp]: "fnv1a (xs @ ys) h = fnv1a ys (fnv1a xs h)"
  by (simp add: fnv1a_def)

lemma fnv1a_Cons [simp]: "fnv1a (x # xs) h = fnv1a xs (fnv1a_update h x)"
  by (simp add: fnv1a_def)

lemma fnv1a_Nil [simp]: "fnv1a [] h = h"
  by (simp add: fnv1a_def)

lemma fold_label: "fold (\<lambda>b a. fnv1a_update a (ascii_lower b)) bs h = fnv1a (map ascii_lower bs) h"
  by (induction bs arbitrary: h) simp_all

lemma top_bits:
  fixes b :: u8
  shows "b AND 0xc0 = 0xc0 \<longleftrightarrow> 192 \<le> b" and "b AND 0xc0 = 0 \<longleftrightarrow> b < 64"
proof -
  have "(b AND 0xc0 = 0xc0 \<longleftrightarrow> 192 \<le> b) \<and> (b AND 0xc0 = 0 \<longleftrightarrow> b < 64)" (is "?P b")
  proof -
    have "\<forall>k \<in> set [0..<256]. ?P (of_nat k)" by code_simp
    moreover have "unat b < 256" using unsigned_less [of b, where ?'a = nat] by simp
    ultimately have "?P (of_nat (unat b))" by (metis atLeast0LessThan lessThan_iff set_upt)
    then show ?thesis by simp
  qed
  then show "b AND 0xc0 = 0xc0 \<longleftrightarrow> 192 \<le> b" and "b AND 0xc0 = 0 \<longleftrightarrow> b < 64" by auto
qed

lemma small_not_pointer: "(b :: u8) < 64 \<Longrightarrow> \<not> 192 \<le> b"
  by (simp add: word_le_nat_alt word_less_nat_alt)

lemma fingerprint_loop_root:
  "off < length p \<Longrightarrow> p ! off = 0 \<Longrightarrow>
    fingerprint_loop p off j e hops h = Some (if j then e else off + 1, fnv1a_update h 0)"
  by (subst fingerprint_loop.simps) simp

lemma fingerprint_loop_label:
  assumes "off < length p" "0 < p ! off" "p ! off < 64" "off + 1 + unat (p ! off) \<le> length p"
  shows "fingerprint_loop p off j e hops h = fingerprint_loop p (off + 1 + unat (p ! off)) j e hops
    (fnv1a (of_nat (unat (p ! off)) # map ascii_lower (take (unat (p ! off)) (drop (off + 1) p))) h)"
proof -
  have "\<not> 192 \<le> p ! off" "\<not> 63 < p ! off"
    using assms(3) by (auto simp: word_le_nat_alt word_less_nat_alt)
  moreover have "p ! off AND 0xc0 = 0" "p ! off AND 0xc0 \<noteq> 0xc0" "p ! off \<noteq> 0"
    using assms(2,3) calculation(1) by (simp_all add: top_bits)
  ultimately show ?thesis using assms
    by (subst fingerprint_loop.simps) (simp add: fold_label Let_def)
qed

lemma fingerprint_loop_pointer:
  assumes "off + 1 < length p" "192 \<le> p ! off" "unat (read_be16 p off AND 0x3fff) < length p"
  shows "fingerprint_loop p off j e hops h = (if BPF2SOCKS_DNS_MAX_POINTER_HOPS \<le> hops then None
    else fingerprint_loop p (unat (read_be16 p off AND 0x3fff)) True (if j then e else off + 2) (hops + 1) h)"
  using assms top_bits(1) by (subst fingerprint_loop.simps) (simp add: Let_def)

lemma fingerprint_complete:
  assumes "name_at p off k labels nx" "hops + k \<le> BPF2SOCKS_DNS_MAX_POINTER_HOPS"
  shows "fingerprint_loop p off j e hops h = Some (if j then e else nx, fnv1a (canonical_name labels) h)"
  using assms
proof (induction arbitrary: j e hops h rule: name_at.induct)
  case (root off)
  then show ?case by (simp add: fingerprint_loop_root canonical_name_def)
next
  case (label off k labels nx)
  then show ?case by (subst fingerprint_loop_label) (simp_all add: canonical_name_def)
next
  case (pointer off k labels nx)
  then show ?case by (subst fingerprint_loop_pointer) simp_all
qed

lemma fingerprint_sound:
  assumes "fingerprint_loop p off j e hops h = Some (nx, h')" "hops \<le> BPF2SOCKS_DNS_MAX_POINTER_HOPS"
  shows "\<exists>k labels nx'. name_at p off k labels nx' \<and> hops + k \<le> BPF2SOCKS_DNS_MAX_POINTER_HOPS"
  using assms
proof (induction p off j e hops h rule: fingerprint_loop.induct)
  case (1 p off j e hops h)
  let ?b = "p ! off"
  have off: "off < length p" using 1(3) by (subst (asm) fingerprint_loop.simps) (auto split: if_splits)
  consider "192 \<le> ?b" | "?b = 0" | "0 < ?b" "?b < 64" | "64 \<le> ?b" "?b < 192"
    by (metis linorder_not_le word_gt_0)
  then show ?case
  proof cases
    case 1
    let ?q = "unat (read_be16 p off AND 0x3fff)"
    have b: "?b AND 0xc0 = 0xc0" using 1 top_bits by simp
    have g: "off + 1 < length p" "?q < length p" "\<not> BPF2SOCKS_DNS_MAX_POINTER_HOPS \<le> hops"
      using "1.prems"(1) b by (subst (asm) fingerprint_loop.simps; auto simp: Let_def split: if_splits)+
    with "1.prems"(1) have "fingerprint_loop p ?q True (if j then e else off + 2) (hops + 1) h = Some (nx, h')"
      using fingerprint_loop_pointer 1 by metis
    with "1.IH"(1) [OF _ refl b _ refl] off g
    obtain k labels nx' where "name_at p ?q k labels nx'" "hops + 1 + k \<le> BPF2SOCKS_DNS_MAX_POINTER_HOPS" by force
    then show ?thesis using pointer [OF g(1) 1 g(2)] by (metis add.assoc plus_1_eq_Suc)
  next
    case 2
    then show ?thesis using root [OF off] "1.prems"(2) by force
  next
    case 3
    have b: "?b AND 0xc0 \<noteq> 0xc0" "?b AND 0xc0 = 0" "?b \<noteq> 0" using 3 small_not_pointer [of ?b] by (auto simp: top_bits)
    have g: "off + 1 + unat ?b \<le> length p" "\<not> (63 < ?b \<or> length p < off + 1 + unat ?b)"
      using "1.prems"(1) b by (subst (asm) fingerprint_loop.simps; auto simp: Let_def split: if_splits)+
    with "1.prems"(1) have "fingerprint_loop p (off + 1 + unat ?b) j e hops
        (fold (\<lambda>b a. fnv1a_update a (ascii_lower b)) (take (unat ?b) (drop (off + 1) p)) (fnv1a_update h ?b)) = Some (nx, h')"
      using fingerprint_loop_label [OF off 3 g(1), of j e hops h] by (simp add: fold_label)
    with "1.IH"(2) [OF _ refl b(1) _ b(3) g(2)] off "1.prems"(2) b(2)
    obtain k labels nx' where "name_at p (off + 1 + unat ?b) k labels nx'" "hops + k \<le> BPF2SOCKS_DNS_MAX_POINTER_HOPS" by force
    then show ?thesis using label [OF off 3 g(1)] by metis
  next
    case 4
    then have "?b AND 0xc0 \<noteq> 0xc0" "?b AND 0xc0 \<noteq> 0" using top_bits by (auto dest: leD)
    then show ?thesis using "1.prems"(1) off by (subst (asm) fingerprint_loop.simps) (simp add: Let_def)
  qed
qed

lemma fingerprint_name_iff:
  "fingerprint_name p off h = Some (nx, h') \<longleftrightarrow>
    (\<exists>k labels. name_at p off k labels nx \<and> k \<le> BPF2SOCKS_DNS_MAX_POINTER_HOPS \<and> h' = fnv1a (canonical_name labels) h)"
    (is "?l \<longleftrightarrow> ?r")
proof
  assume l: ?l
  then obtain k labels nx' where n: "name_at p off k labels nx'" "k \<le> BPF2SOCKS_DNS_MAX_POINTER_HOPS"
    using fingerprint_sound [of p off False 0 0 h nx h'] by (auto simp: fingerprint_name_def)
  with l fingerprint_complete [OF n(1), of 0 False 0 h] show ?r by (auto simp: fingerprint_name_def)
next
  assume ?r
  then show ?l using fingerprint_complete [of p off _ _ nx 0 False 0 h] by (auto simp: fingerprint_name_def)
qed

lemma name_at_unique:
  assumes "name_at p off k labels nx" "name_at p off k' labels' nx'"
  shows "k' = k \<and> labels' = labels \<and> nx' = nx"
  using assms
proof (induction arbitrary: k' labels' nx' rule: name_at.induct)
  case (root off)
  have "\<not> 0 < p ! off" "\<not> 192 \<le> p ! off" using root.hyps(2) by simp_all
  then show ?case by - (rule name_at.cases [OF root.prems], simp_all)
next
  case (label off k labels nx)
  have "p ! off \<noteq> 0" "\<not> 192 \<le> p ! off" using label.hyps(2,3) small_not_pointer by auto
  with label.IH show ?case by - (rule name_at.cases [OF label.prems], auto)
next
  case (pointer off k labels nx)
  have "p ! off \<noteq> 0" "\<not> p ! off < 64" using pointer.hyps(2) small_not_pointer by auto
  with pointer.IH show ?case by - (rule name_at.cases [OF pointer.prems], auto)
qed

lemma name_at_end: "name_at p off k labels nx \<Longrightarrow> off < nx"
  by (induction rule: name_at.induct) auto

section \<open>What the parsers compute\<close>

lemma parse_question:
  assumes "12 \<le> length p" "(p ! 2 AND 0x80 \<noteq> 0) = resp" "read_be16 p 4 \<noteq> 0"
  shows "parse_dns_packet p resp = Inr info \<longleftrightarrow> di_id info = read_be16 p 0 \<and> di_has_question info \<and>
    (\<exists>k labels nx. name_at p 12 k labels nx \<and> k \<le> BPF2SOCKS_DNS_MAX_POINTER_HOPS \<and> nx + 4 \<le> length p \<and>
      di_question_fingerprint info = question_fingerprint labels (read_be16 p nx) (read_be16 p (nx + 2)))"
proof (cases "fingerprint_name p 12 2166136261")
  case None
  then have "\<not> (name_at p 12 k labels nx \<and> k \<le> BPF2SOCKS_DNS_MAX_POINTER_HOPS)" for k labels nx
    using fingerprint_name_iff [of p 12 2166136261 nx] by auto
  moreover have "parse_dns_packet p resp = Inl EPROTO"
    using None assms by (simp add: parse_dns_packet_def BPF2SOCKS_DNS_HEADER_SIZE_def Let_def)
  ultimately show ?thesis by auto
next
  case (Some r)
  then obtain nx h where f: "fingerprint_name p 12 2166136261 = Some (nx, h)" by fastforce
  then obtain k labels where n: "name_at p 12 k labels nx" "k \<le> BPF2SOCKS_DNS_MAX_POINTER_HOPS"
    and h: "h = fnv1a (canonical_name labels) 2166136261"
    unfolding fingerprint_name_iff by blast
  have "parse_dns_packet p resp = (if length p < nx + 4 then Inl EPROTO else
      Inr \<lparr>di_id = read_be16 p 0, di_question_fingerprint = question_fingerprint labels (read_be16 p nx) (read_be16 p (nx + 2)),
           di_has_question = True\<rparr>)"
    using f h assms by (simp add: parse_dns_packet_def BPF2SOCKS_DNS_HEADER_SIZE_def Let_def question_fingerprint_def)
  moreover have "(\<exists>k labels nx. name_at p 12 k labels nx \<and> k \<le> BPF2SOCKS_DNS_MAX_POINTER_HOPS \<and> Q labels nx) \<longleftrightarrow> Q labels nx" for Q
    using name_at_unique [OF n(1)] n by blast
  ultimately show ?thesis by (cases info) (auto simp: not_less)
qed

lemma parse_questionI:
  assumes "12 \<le> length p" "(p ! 2 AND 0x80 \<noteq> 0) = resp" "read_be16 p 4 \<noteq> 0"
    and "name_at p 12 k labels nx" "k \<le> BPF2SOCKS_DNS_MAX_POINTER_HOPS" "nx + 4 \<le> length p"
  shows "parse_dns_packet p resp = Inr \<lparr>di_id = read_be16 p 0,
    di_question_fingerprint = question_fingerprint labels (read_be16 p nx) (read_be16 p (nx + 2)), di_has_question = True\<rparr>"
  using parse_question [OF assms(1-3)] assms(4-6) by fastforce


section \<open>Rewriting the identifier\<close>

lemma question_fingerprint_lower:
  assumes "map (map ascii_lower) labels' = map (map ascii_lower) labels"
  shows "question_fingerprint labels' qtype qclass = question_fingerprint labels qtype qclass"
proof -
  let ?g = "\<lambda>l. of_nat (length l) # l"
  have "map (\<lambda>l. of_nat (length l) # map ascii_lower l) ls = map ?g (map (map ascii_lower) ls)" for ls by simp
  then have "canonical_name labels' = canonical_name labels" using assms by (simp only: canonical_name_def)
  then show ?thesis by (simp add: question_fingerprint_def)
qed

lemma name_at_cong:
  assumes "name_at p off k labels nx" "k = 0" "length p' = length p" "drop off p' = drop off p"
  shows "name_at p' off 0 labels nx"
  using assms
proof (induction rule: name_at.induct)
  case (root off)
  then have "p' ! off = p ! off" by (metis hd_drop_conv_nth)
  with root name_at.root [of off p'] show ?case by simp
next
  case (label off k labels nx)
  have e: "p' ! off = p ! off" using label by (metis hd_drop_conv_nth)
  have d: "drop (off + n) p' = drop (off + n) p" for n using label.prems(3) by (metis add.commute drop_drop)
  have "name_at p' (off + 1 + unat (p ! off)) 0 labels nx" using label.IH label.prems d [of "1 + unat (p ! off)"] by (simp add: add.assoc)
  with label.hyps label.prems e d [of 1] name_at.label [of off p' 0 labels nx] show ?case by simp
qed simp

lemma set_id_drop: "2 \<le> n \<Longrightarrow> drop n (bpf2socks_dns_set_id p x) = drop n p"
  by (simp add: bpf2socks_dns_set_id_def)

lemma set_id_nth: "2 \<le> n \<Longrightarrow> bpf2socks_dns_set_id p x ! n = p ! n"
  by (simp add: bpf2socks_dns_set_id_def)

lemma length_set_id [simp]: "length (bpf2socks_dns_set_id p x) = length p"
  by (simp add: bpf2socks_dns_set_id_def)

lemma read_set_id: "2 \<le> n \<Longrightarrow> read_be16 (bpf2socks_dns_set_id p x) n = read_be16 p n"
  "2 \<le> length p \<Longrightarrow> read_be16 (bpf2socks_dns_set_id p x) 0 = x"
  by (simp add: read_be16_def set_id_nth) (cases p; auto simp: read_be16_def bpf2socks_dns_set_id_def)

lemma set_id_back: "bpf2socks_dns_set_id (bpf2socks_dns_set_id p x) (read_be16 p 0) = p"
proof (cases "length p < 2")
  case False
  then obtain a b rest where "p = a # b # rest" by (metis One_nat_def Suc_1 Suc_le_length_iff linorder_not_less)
  then show ?thesis by (simp add: bpf2socks_dns_set_id_def read_be16_def)
qed (simp add: bpf2socks_dns_set_id_def)


text \<open>
  A query for \<open>Www\<close> and a response whose question is the pointer to \<open>wwW\<close> behind it.
\<close>

definition sample_query :: bytes where
  "sample_query = [0x12, 0x34, 1, 0, 0, 1, 0, 0, 0, 0, 0, 0, 3, 0x57, 0x77, 0x77, 0, 0, 1, 0, 1]"

definition sample_response :: bytes where
  "sample_response = [0xab, 0xcd, 0x81, 0x80, 0, 1, 0, 0, 0, 0, 0, 0, 0xc0, 18, 0, 1, 0, 1, 3, 0x77, 0x77, 0x57, 0]"

lemma sample_names:
  "name_at sample_query 12 0 [[0x57, 0x77, 0x77]] 17" "name_at sample_response 12 1 [[0x77, 0x77, 0x57]] 14"
proof -
  have "name_at sample_query 16 0 [] 17" using name_at.root [of 16 sample_query] by (simp add: sample_query_def)
  then show "name_at sample_query 12 0 [[0x57, 0x77, 0x77]] 17"
    using name_at.label [of 12 sample_query 0 "[]" 17] by (simp add: sample_query_def)
  have "name_at sample_response 22 0 [] 23" using name_at.root [of 22 sample_response] by (simp add: sample_response_def)
  then have "name_at sample_response 18 0 [[0x77, 0x77, 0x57]] 23"
    using name_at.label [of 18 sample_response 0 "[]" 23] by (simp add: sample_response_def)
  moreover have "read_be16 sample_response 12 AND 0x3fff = 18" by code_simp
  ultimately show "name_at sample_response 12 1 [[0x77, 0x77, 0x57]] 14"
    using name_at.pointer [of 12 sample_response 0 "[[0x77, 0x77, 0x57]]" 23] by (simp add: sample_response_def)
qed


end
