(* ===== verification/Udp_Wire.thy ===== *)
theory Udp_Wire
  imports B2S_Prelude
begin

text \<open>
  Packets that the bridge builds itself, byte by byte: replies through a raw socket with the original
  destination as their source (\<^verbatim>\<open>bridge/udp_downlink.c\<close>) and the ICMP notice for an unknown token
  (\<^verbatim>\<open>bridge/udp_token.c\<close>). The reference is a receiver: the one's complement sum of RFC 1071 over
  natural numbers, and the delivery of a datagram by RFC 791, 768, 8200 and 792.
\<close>

section \<open>Checksums\<close>

fun bpf2socks_udp_checksum_add_bytes :: "u32 \<Rightarrow> bytes \<Rightarrow> u32" where
  "bpf2socks_udp_checksum_add_bytes acc (a # b # rest) =
     bpf2socks_udp_checksum_add_bytes (acc + (push_bit 8 (ucast a) OR ucast b)) rest"
| "bpf2socks_udp_checksum_add_bytes acc [a] = acc + push_bit 8 (ucast a)"
| "bpf2socks_udp_checksum_add_bytes acc [] = acc"

text \<open>The loop of \<open>bpf2socks_udp_checksum_fold\<close>; it ends since every pass makes the acc smaller.\<close>

lemma unat_high16: "unat (drop_bit 16 (acc :: u32)) = unat acc div 65536"
  by (simp add: drop_bit_eq_div unat_div)

lemma div_mod_16: "n = 65536 * (n div 65536) + n mod (65536 :: nat)"
  by simp

lemma fold_step_less:
  fixes acc :: u32
  assumes "drop_bit 16 acc \<noteq> 0"
  shows "unat ((acc AND 0xffff) + drop_bit 16 acc) = unat acc mod 65536 + unat acc div 65536"
    "unat acc mod 65536 + unat acc div 65536 < unat acc"
proof -
  have a: "unat (acc AND 0xffff) = unat acc mod 65536"
  proof -
    have "acc AND 0xffff = take_bit 16 acc" by (simp add: take_bit_eq_mask mask_eq_exp_minus_1)
    moreover have "unat (take_bit 16 acc) = take_bit 16 (unat acc)" by (rule unsigned_take_bit_eq)
    ultimately show ?thesis by (simp only: take_bit_eq_mod) simp
  qed
  have d: "unat (drop_bit 16 acc) = unat acc div 65536" by (rule unat_high16)
  have s: "unat acc < 4294967296" using unsigned_less [of acc, where ?'a = nat] by simp
  then have "unat acc div 65536 < 65536" by simp
  then show "unat ((acc AND 0xffff) + drop_bit 16 acc) = unat acc mod 65536 + unat acc div 65536"
    by (subst unat_word_ariths(1)) (simp add: a d)
  have "0 < unat acc div 65536" using assms d by (metis gr_zeroI unat_eq_zero)
  then show "unat acc mod 65536 + unat acc div 65536 < unat acc" using div_mod_16 [of "unat acc"] by linarith
qed

function fold_carries :: "u32 \<Rightarrow> u32" where
  "fold_carries acc = (if drop_bit 16 acc \<noteq> 0 then fold_carries ((acc AND 0xffff) + drop_bit 16 acc) else acc)"
  by pat_completeness auto
termination by (relation "measure unat") (simp_all add: fold_step_less)

declare fold_carries.simps [simp del]

definition bpf2socks_udp_checksum_fold :: "u32 \<Rightarrow> u16" where
  "bpf2socks_udp_checksum_fold acc = ucast (NOT (fold_carries acc))"

definition port_be :: "u16 \<Rightarrow> bytes" where
  "port_be p = [hi8 p, lo8 p]"

text \<open>
  The UDP header as its bytes: source, destination, length and checksum in network order. The
  callers compute the checksum with the field set to zero.
\<close>

definition udp_header :: "u16 \<Rightarrow> u16 \<Rightarrow> u16 \<Rightarrow> u16 \<Rightarrow> bytes" where
  "udp_header source dest len check = port_be source @ port_be dest @ port_be len @ port_be check"

definition udp_ipv4_checksum :: "bytes \<Rightarrow> bytes \<Rightarrow> bytes \<Rightarrow> bytes \<Rightarrow> u16" where
  "udp_ipv4_checksum source_addr destination_addr udp payload =
    (let pseudo = source_addr @ destination_addr @ [0, PROTO_UDP] @ take 2 (drop 4 udp);
       acc = bpf2socks_udp_checksum_add_bytes 0 pseudo;
       acc = bpf2socks_udp_checksum_add_bytes acc udp;
       acc = bpf2socks_udp_checksum_add_bytes acc payload;
       result = bpf2socks_udp_checksum_fold acc
     in if result = 0 then 0xffff else result)"

definition udp_ipv6_checksum :: "bytes \<Rightarrow> bytes \<Rightarrow> bytes \<Rightarrow> bytes \<Rightarrow> u16" where
  "udp_ipv6_checksum source_addr destination_addr udp payload =
    (let pseudo = source_addr @ destination_addr @ be32_bytes (of_nat (8 + length payload)) @ [0, 0, 0, PROTO_UDP];
       acc = bpf2socks_udp_checksum_add_bytes 0 pseudo;
       acc = bpf2socks_udp_checksum_add_bytes acc udp;
       acc = bpf2socks_udp_checksum_add_bytes acc payload;
       result = bpf2socks_udp_checksum_fold acc
     in if result = 0 then 0xffff else result)"

section \<open>Raw replies\<close>

definition BPF2SOCKS_UDP_BUFFER_SIZE :: nat where "BPF2SOCKS_UDP_BUFFER_SIZE = 65535"

text \<open>
  The twenty bytes of an IPv4 header without options. The type of service and fragment fields stay
  zero, as the packet is cleared first.
\<close>

definition ip_header4 :: "u16 \<Rightarrow> u16 \<Rightarrow> u16 \<Rightarrow> bytes \<Rightarrow> bytes \<Rightarrow> bytes" where
  "ip_header4 tot_len ident check saddr daddr =
    [0x45, 0] @ port_be tot_len @ port_be ident @ [0, 0, 64, PROTO_UDP] @ port_be check @ saddr @ daddr"

definition ip_header6 :: "u16 \<Rightarrow> bytes \<Rightarrow> bytes \<Rightarrow> bytes" where
  "ip_header6 payload_len saddr daddr = [0x60, 0, 0, 0] @ port_be payload_len @ [PROTO_UDP, 64] @ saddr @ daddr"

text \<open>The packet that is handed to \<open>sendto\<close>: the clock gives the identification field.\<close>

definition raw_packet4 :: "u16 \<Rightarrow> sockaddr_storage \<Rightarrow> bpf2socks_sockaddr \<Rightarrow> bytes \<Rightarrow> bytes" where
  "raw_packet4 ident client original payload =
    (let udp_len = 8 + length payload; ip_len = 20 + udp_len;
       saddr = take 4 (sa_addr original); daddr = ss_addr client;
       ip_check = bpf2socks_udp_checksum_fold
         (bpf2socks_udp_checksum_add_bytes 0 (ip_header4 (of_nat ip_len) ident 0 saddr daddr));
       ip = ip_header4 (of_nat ip_len) ident ip_check saddr daddr;
       udp = udp_header (sa_port original) (ss_port client) (of_nat udp_len) 0;
       check = udp_ipv4_checksum saddr daddr udp payload
     in ip @ udp_header (sa_port original) (ss_port client) (of_nat udp_len) check @ payload)"

definition raw_packet6 :: "sockaddr_storage \<Rightarrow> bpf2socks_sockaddr \<Rightarrow> bytes \<Rightarrow> bytes" where
  "raw_packet6 client original payload =
    (let udp_len = 8 + length payload;
       saddr = take 16 (sa_addr original); daddr = ss_addr client;
       ip = ip_header6 (of_nat udp_len) saddr daddr;
       udp = udp_header (sa_port original) (ss_port client) (of_nat udp_len) 0;
       check = udp_ipv6_checksum saddr daddr udp payload
     in ip @ udp_header (sa_port original) (ss_port client) (of_nat udp_len) check @ payload)"

text \<open>
  The system call \<open>sendto\<close> is a parameter: it takes the packet and the address and either fails or
  returns how many bytes it took. The session contributes its client address, the binding its
  original destination.
\<close>

definition bpf2socks_udp_raw_send4 ::
    "(bytes \<Rightarrow> sockaddr_storage \<Rightarrow> errno + nat) \<Rightarrow> u16 \<Rightarrow> sockaddr_storage \<Rightarrow> bpf2socks_sockaddr \<Rightarrow> bytes \<Rightarrow> errno + unit" where
  "bpf2socks_udp_raw_send4 sendto clock client original payload =
    (if ss_family client \<noteq> AF_INET \<or> sa_family original \<noteq> AF_INET then Inl EAFNOSUPPORT
     else let udp_len = 8 + length payload; ip_len = 20 + udp_len in
     if 65535 < ip_len \<or> BPF2SOCKS_UDP_BUFFER_SIZE < length payload then Inl EMSGSIZE
     else case sendto (raw_packet4 clock client original payload) client of
       Inl e \<Rightarrow> Inl e
     | Inr sent \<Rightarrow> if sent = ip_len then Inr () else Inl EIO)"

definition bpf2socks_udp_raw_send6 ::
    "(bytes \<Rightarrow> sockaddr_storage \<Rightarrow> errno + nat) \<Rightarrow> sockaddr_storage \<Rightarrow> bpf2socks_sockaddr \<Rightarrow> bytes \<Rightarrow> errno + unit" where
  "bpf2socks_udp_raw_send6 sendto client original payload =
    (if ss_family client \<noteq> AF_INET6 \<or> sa_family original \<noteq> AF_INET6 then Inl EAFNOSUPPORT
     else let udp_len = 8 + length payload; ip_len = 40 + udp_len in
     if 65535 < udp_len \<or> BPF2SOCKS_UDP_BUFFER_SIZE < length payload then Inl EMSGSIZE
     else case sendto (raw_packet6 client original payload) (client\<lparr>ss_port := 0\<rparr>) of
       Inl e \<Rightarrow> Inl e
     | Inr sent \<Rightarrow> if sent = ip_len then Inr () else Inl EIO)"

section \<open>The notice for an unknown token\<close>

definition icmp_notice4 :: "u16 \<Rightarrow> sockaddr_storage \<Rightarrow> bytes \<Rightarrow> nat \<Rightarrow> bytes" where
  "icmp_notice4 listen_port client token_addr quoted_len =
    (let saddr = ss_addr client; daddr = take 4 token_addr; tot_len = of_nat (20 + 8 + quoted_len);
       ip_check = bpf2socks_udp_checksum_fold
         (bpf2socks_udp_checksum_add_bytes 0 (ip_header4 tot_len 0 0 saddr daddr));
       body = ip_header4 tot_len 0 ip_check saddr daddr @
         udp_header (ss_port client) listen_port (of_nat (8 + quoted_len)) 0;
       checksum = bpf2socks_udp_checksum_fold (bpf2socks_udp_checksum_add_bytes 0 ([3, 3, 0, 0, 0, 0, 0, 0] @ body))
     in [3, 3] @ port_be checksum @ [0, 0, 0, 0] @ body)"

definition icmp_notice6 :: "u16 \<Rightarrow> sockaddr_storage \<Rightarrow> bytes \<Rightarrow> nat \<Rightarrow> bytes" where
  "icmp_notice6 listen_port client token_addr quoted_len =
    [1, 4, 0, 0, 0, 0, 0, 0] @ ip_header6 (of_nat (8 + quoted_len)) (ss_addr client) (take 16 token_addr) @
    udp_header (ss_port client) listen_port (of_nat (8 + quoted_len)) 0"

section \<open>One's complement sums\<close>

text \<open>The sum of the big-endian 16-bit words of a buffer, the last one padded with zero.\<close>

fun words_sum :: "bytes \<Rightarrow> nat" where
  "words_sum (a # b # rest) = 256 * unat a + unat b + words_sum rest"
| "words_sum [a] = 256 * unat a"
| "words_sum [] = 0"

text \<open>A buffer verifies when its one's complement sum is minus zero (RFC 1071).\<close>

definition verifies :: "bytes \<Rightarrow> bool" where
  "verifies bs \<longleftrightarrow> 0 < words_sum bs \<and> words_sum bs mod 65535 = 0"

lemma words_sum_append [simp]: "even (length xs) \<Longrightarrow> words_sum (xs @ ys) = words_sum xs + words_sum ys"
  by (induction xs rule: words_sum.induct) simp_all

lemma unat_be16: "unat (be16 a b) = 256 * unat a + unat b"
proof -
  have e: "be16 a b = (push_bit 8 (ucast a) :: u16) + ucast b"
    unfolding be16_def by (rule disjunctive_add_eq_or [symmetric])
      (auto simp: bit_eq_iff bit_and_iff bit_push_bit_iff bit_ucast_iff dest: bit_imp_le_length)
  have a: "unat a < 256" "unat b < 256" using unsigned_less [of _, where ?'a = nat and ?'b = 8] by simp_all
  then have "unat (push_bit 8 (ucast a) :: u16) = 256 * unat a"
    by (simp add: push_bit_eq_mult unat_word_ariths unat_ucast_up)
  with a e show ?thesis by (simp add: unat_word_ariths unat_ucast_up)
qed

lemma unat_pair: "unat ((push_bit 8 (ucast a) :: u32) OR ucast b) = 256 * unat (a :: u8) + unat (b :: u8)"
proof -
  have "(push_bit 8 (ucast a) :: u32) OR ucast b = ucast (be16 a b)"
    by (rule bit_word_eqI) (auto simp: bit_be16 bit_or_iff bit_push_bit_iff bit_ucast_iff dest: bit_imp_le_length)
  then show ?thesis by (simp add: unat_ucast_up unat_be16)
qed

lemma unat_high: "unat (push_bit 8 (ucast a) :: u32) = 256 * unat (a :: u8)"
  using unat_pair [of a 0] by simp

lemma add_bytes_sum:
  "unat (bpf2socks_udp_checksum_add_bytes acc bs) = (unat acc + words_sum bs) mod 4294967296"
proof (induction acc bs rule: bpf2socks_udp_checksum_add_bytes.induct)
  case (1 acc a b rest)
  then show ?case by (simp add: unat_word_ariths unat_pair mod_add_left_eq add.assoc)
next
  case (2 acc a)
  then show ?case by (simp add: unat_word_ariths unat_high)
next
  case (3 acc)
  then show ?case using unsigned_less [of acc, where ?'a = nat] by simp
qed

lemma unat_u8: "unat (a :: u8) \<le> 255"
  using unsigned_less [of a, where ?'a = nat] by simp

lemma words_sum_bound: "2 * words_sum bs \<le> 65535 * (length bs + 1)"
proof (induction bs rule: words_sum.induct)
  case (1 a b rest)
  with unat_u8 [of a] unat_u8 [of b] show ?case by simp
next
  case (2 a)
  with unat_u8 [of a] show ?case by simp
qed simp

definition ones_complement :: "nat \<Rightarrow> nat" where
  "ones_complement n = (if n = 0 then 0 else if n mod 65535 = 0 then 65535 else n mod 65535)"

lemma ones_complement_fold:
  assumes "65536 \<le> n"
  shows "ones_complement (n mod 65536 + n div 65536) = ones_complement n"
proof -
  have "n = n div 65536 * 65535 + (n div 65536 + n mod 65536)" using div_mod_16 [of n] by linarith
  then have "(n mod 65536 + n div 65536) mod 65535 = n mod 65535"
    using mod_mult_self3 [of "n div 65536" 65535 "n div 65536 + n mod 65536"] by (simp only: add.commute [of "n mod 65536"])
  moreover have "n mod 65536 + n div 65536 \<noteq> 0" using assms div_mod_16 [of n] by linarith
  ultimately show ?thesis using assms by (auto simp: ones_complement_def)
qed

lemma fold_carries_unat: "unat (fold_carries acc) = ones_complement (unat acc)"
proof (induction acc rule: fold_carries.induct)
  case (1 acc)
  have d: "drop_bit 16 acc \<noteq> 0 \<longleftrightarrow> 65536 \<le> unat acc"
  proof -
    have "unat acc div 65536 = 0 \<longleftrightarrow> unat acc < 65536" by (simp add: div_eq_0_iff)
    then show ?thesis using unat_high16 [of acc] by (metis linorder_not_less unat_eq_zero)
  qed
  show ?case
  proof (cases "drop_bit 16 acc = 0")
    case True
    then have "unat acc < 65536" using d by simp
    moreover have "n mod 65535 = n" if "n < 65535" for n :: nat using that by simp
    ultimately have "ones_complement (unat acc) = unat acc"
      by (cases "unat acc = 65535") (simp_all add: ones_complement_def)
    then show ?thesis using True by (simp add: fold_carries.simps [of acc])
  next
    case False
    then show ?thesis using 1 d fold_step_less(1) [OF False] by (simp add: fold_carries.simps [of acc] ones_complement_fold)
  qed
qed

lemma checksum_fold_unat: "unat (bpf2socks_udp_checksum_fold acc) = 65535 - ones_complement (unat acc)"
proof -
  have u: "unat (fold_carries acc) \<le> 65535" by (auto simp: fold_carries_unat ones_complement_def intro: less_imp_le)
  have "bpf2socks_udp_checksum_fold acc = NOT (ucast (fold_carries acc))"
    by (rule bit_word_eqI) (simp add: bpf2socks_udp_checksum_fold_def bit_ucast_iff bit_not_iff)
  also have "\<dots> = - 1 - ucast (fold_carries acc)" by (simp add: not_eq_complement)
  finally have "bpf2socks_udp_checksum_fold acc = 65535 - ucast (fold_carries acc)" by simp
  moreover have e: "unat (ucast (fold_carries acc) :: u16) = unat (fold_carries acc)"
    using u by (simp add: unsigned_ucast_eq take_bit_nat_eq_self)
  ultimately show ?thesis using u by (subst fold_carries_unat [symmetric]) (simp add: unat_sub word_le_nat_alt)
qed

lemma checksum_closes:
  assumes "0 < words_sum bs" "words_sum bs < 4294967296" "unat acc = words_sum bs"
    and "c = bpf2socks_udp_checksum_fold acc \<or> c = (if bpf2socks_udp_checksum_fold acc = 0 then 0xffff else bpf2socks_udp_checksum_fold acc)"
  shows "(words_sum bs + unat c) mod 65535 = 0"
proof -
  let ?n = "words_sum bs"
  have "(?n + (65535 - ones_complement ?n)) mod 65535 = 0"
  proof (cases "?n mod 65535 = 0")
    case False
    have "?n + (65535 - ?n mod 65535) = ?n div 65535 * 65535 + 65535" using div_mult_mod_eq [of ?n 65535] mod_less_divisor [of 65535 ?n] by linarith
    also have "\<dots> mod 65535 = 0" by simp
    finally show ?thesis using False assms(1) by (simp add: ones_complement_def)
  qed (simp add: ones_complement_def)
  then have "(?n + unat (bpf2socks_udp_checksum_fold acc)) mod 65535 = 0" using assms(3) by (simp add: checksum_fold_unat)
  then show ?thesis using assms(4) by (auto split: if_splits)
qed

lemma words_sum_port [simp]: "words_sum (port_be p) = unat p"
  using unat_be16 [of "hi8 p" "lo8 p"] by (simp add: port_be_def)

lemma length_port_be [simp]: "length (port_be p) = 2"
  by (simp add: port_be_def)

lemma length_headers [simp]:
  "length (udp_header source dest len check) = 8"
  "length saddr = 4 \<Longrightarrow> length daddr = 4 \<Longrightarrow> length (ip_header4 tot_len ident check saddr daddr) = 20"
  "length saddr = 16 \<Longrightarrow> length daddr = 16 \<Longrightarrow> length (ip_header6 len saddr daddr) = 40"
  by (simp_all add: udp_header_def ip_header4_def ip_header6_def)

lemma udp_header_len: "take 2 (drop 4 (udp_header source dest len check)) = port_be len"
  by (simp add: udp_header_def port_be_def)

lemma words_sum_udp_header: "words_sum (udp_header source dest len check) = words_sum (udp_header source dest len 0) + unat check"
  by (simp add: udp_header_def)

lemma words_sum_ip_header4:
  assumes "length saddr = 4"
  shows "words_sum (ip_header4 tot_len ident check saddr daddr) = words_sum (ip_header4 tot_len ident 0 saddr daddr) + unat check"
  using assms by (simp add: ip_header4_def)

lemma ip_header4_verifies:
  assumes "length saddr = 4" "length daddr = 4"
    and "check = bpf2socks_udp_checksum_fold (bpf2socks_udp_checksum_add_bytes 0 (ip_header4 tot_len ident 0 saddr daddr))"
  shows "verifies (ip_header4 tot_len ident check saddr daddr)"
proof -
  let ?h = "ip_header4 tot_len ident 0 saddr daddr"
  have p: "0 < words_sum ?h" by (simp add: ip_header4_def)
  have "words_sum ?h < 4294967296" using words_sum_bound [of ?h] assms by simp
  with p checksum_closes [of ?h "bpf2socks_udp_checksum_add_bytes 0 ?h" check] assms(3)
  have "(words_sum ?h + unat check) mod 65535 = 0" by (simp add: add_bytes_sum)
  with p show ?thesis unfolding verifies_def words_sum_ip_header4 [OF assms(1), of tot_len ident check daddr] by simp
qed

text \<open>The three consecutive additions over the pseudo header, the UDP header and the payload.\<close>

lemma udp_checksum_verifies:
  assumes "even (length pseudo)" "length pseudo \<le> 40" "length payload \<le> 65535" "0 < words_sum pseudo"
    and "acc = bpf2socks_udp_checksum_add_bytes (bpf2socks_udp_checksum_add_bytes (bpf2socks_udp_checksum_add_bytes 0 pseudo)
      (udp_header source dest len 0)) payload"
    and "check = (if bpf2socks_udp_checksum_fold acc = 0 then 0xffff else bpf2socks_udp_checksum_fold acc)"
  shows "verifies (pseudo @ udp_header source dest len check @ payload)" "check \<noteq> 0"
proof -
  let ?bs = "pseudo @ udp_header source dest len 0 @ payload"
  have b: "words_sum ?bs < 4294967296" using words_sum_bound [of ?bs] assms(2,3) by simp
  then have "unat acc = words_sum ?bs" using assms(1) by (simp add: assms(5) add_bytes_sum mod_add_left_eq add.assoc)
  with b checksum_closes [of ?bs acc check] assms(1,4,6)
  have "(words_sum ?bs + unat check) mod 65535 = 0" by simp
  then show "verifies (pseudo @ udp_header source dest len check @ payload)" using assms(1,4)
    by (simp add: verifies_def words_sum_udp_header [of _ _ _ check] ac_simps)
  show "check \<noteq> 0" using assms(6) by auto
qed

section \<open>The receiver\<close>

text \<open>
  What an IPv4 host that verifies both checksums delivers: source and destination with their ports,
  and the payload.
\<close>

definition deliver4 :: "bytes \<Rightarrow> ((bytes \<times> u16) \<times> (bytes \<times> u16) \<times> bytes) option" where
  "deliver4 p =
    (if 28 \<le> length p \<and> p ! 0 = 0x45 \<and> unat (be16 (p ! 2) (p ! 3)) = length p \<and> be16 (p ! 6) (p ! 7) AND 0x3fff = 0 \<and>
        p ! 9 = PROTO_UDP \<and> verifies (take 20 p) \<and> unat (be16 (p ! 24) (p ! 25)) = length p - 20 \<and>
        be16 (p ! 26) (p ! 27) \<noteq> 0 \<and>
        verifies (take 8 (drop 12 p) @ [0, p ! 9] @ take 2 (drop 24 p) @ drop 20 p)
     then Some ((take 4 (drop 12 p), be16 (p ! 20) (p ! 21)), (take 4 (drop 16 p), be16 (p ! 22) (p ! 23)), drop 28 p)
     else None)"

definition deliver6 :: "bytes \<Rightarrow> ((bytes \<times> u16) \<times> (bytes \<times> u16) \<times> bytes) option" where
  "deliver6 p =
    (if 48 \<le> length p \<and> drop_bit 4 (p ! 0) = 6 \<and> unat (be16 (p ! 4) (p ! 5)) = length p - 40 \<and> p ! 6 = PROTO_UDP \<and>
        unat (be16 (p ! 44) (p ! 45)) = length p - 40 \<and> be16 (p ! 46) (p ! 47) \<noteq> 0 \<and>
        verifies (take 32 (drop 8 p) @ be32_bytes (of_nat (length p - 40)) @ [0, 0, 0, p ! 6] @ drop 40 p)
     then Some ((take 16 (drop 8 p), be16 (p ! 40) (p ! 41)), (take 16 (drop 24 p), be16 (p ! 42) (p ! 43)), drop 48 p)
     else None)"

lemma unat_of_len: "n \<le> 65535 \<Longrightarrow> unat (of_nat n :: u16) = n"
  by (simp add: unat_of_nat)

lemma list_of_four: "length xs = 4 \<Longrightarrow> \<exists>a b c d. xs = [a, b, c, d]"
  by (auto simp: length_Suc_conv numeral_eq_Suc)

lemma raw_packet4_delivered:
  assumes "length (ss_addr client) = 4" "4 \<le> length (sa_addr original)" "28 + length payload \<le> 65535"
  shows "deliver4 (raw_packet4 ident client original payload) =
      Some ((take 4 (sa_addr original), sa_port original), (ss_addr client, ss_port client), payload)"
    "length (raw_packet4 ident client original payload) = 28 + length payload"
proof -
  let ?s = "take 4 (sa_addr original)" and ?d = "ss_addr client" and ?ul = "of_nat (8 + length payload) :: u16"
  have l: "length ?s = 4" using assms(2) by simp
  obtain s0 s1 s2 s3 where s: "?s = [s0, s1, s2, s3]" using list_of_four [OF l] by blast
  obtain d0 d1 d2 d3 where d: "?d = [d0, d1, d2, d3]" using list_of_four [OF assms(1)] by blast
  define tot :: u16 where "tot = of_nat (28 + length payload)"
  define ic where "ic = bpf2socks_udp_checksum_fold (bpf2socks_udp_checksum_add_bytes 0 (ip_header4 tot ident 0 ?s ?d))"
  define uc where "uc = udp_ipv4_checksum ?s ?d (udp_header (sa_port original) (ss_port client) ?ul 0) payload"
  let ?ip = "ip_header4 tot ident ic ?s ?d" and ?udp = "udp_header (sa_port original) (ss_port client) ?ul uc"
  have p: "raw_packet4 ident client original payload = ?ip @ ?udp @ payload"
    by (simp add: raw_packet4_def Let_def tot_def ic_def uc_def)
  have v: "verifies ?ip" by (rule ip_header4_verifies [OF l assms(1)]) (simp add: ic_def)
  have u: "verifies ((?s @ ?d @ [0, PROTO_UDP] @ port_be ?ul) @ ?udp @ payload)" "uc \<noteq> 0"
    by (rule udp_checksum_verifies [OF _ _ _ _ refl];
        use assms l in \<open>simp add: uc_def udp_ipv4_checksum_def Let_def udp_header_len\<close>)+
  have tot: "unat tot = 28 + length payload" "unat ?ul = 8 + length payload"
    unfolding tot_def by (rule unat_of_len, use assms(3) in simp)+
  show "length (raw_packet4 ident client original payload) = 28 + length payload" using l assms(1) by (simp add: p)
  show "deliver4 (raw_packet4 ident client original payload) = Some ((?s, sa_port original), (?d, ss_port client), payload)"
    using v u tot unfolding p s d
    by (simp add: deliver4_def ip_header4_def udp_header_def port_be_def be16_def [of 0 0] numeral_eq_Suc)
qed

lemma take_drop_mid: "n = length xs \<Longrightarrow> m = length ys \<Longrightarrow> take m (drop n (xs @ ys @ zs)) = ys"
  by simp

lemma raw_packet6_delivered:
  assumes "length (ss_addr client) = 16" "16 \<le> length (sa_addr original)" "8 + length payload \<le> 65535"
  shows "deliver6 (raw_packet6 client original payload) =
      Some ((take 16 (sa_addr original), sa_port original), (ss_addr client, ss_port client), payload)"
    "length (raw_packet6 client original payload) = 48 + length payload"
proof -
  let ?s = "take 16 (sa_addr original)" and ?d = "ss_addr client" and ?ul = "of_nat (8 + length payload) :: u16"
  have l: "length ?s = 16" using assms(2) by simp
  define uc where "uc = udp_ipv6_checksum ?s ?d (udp_header (sa_port original) (ss_port client) ?ul 0) payload"
  let ?udp = "udp_header (sa_port original) (ss_port client) ?ul uc"
  let ?pre = "[0x60, 0, 0, 0] @ port_be ?ul @ [PROTO_UDP, 64]"
  have p: "raw_packet6 client original payload = ?pre @ ?s @ ?d @ ?udp @ payload"
    by (simp add: raw_packet6_def Let_def uc_def ip_header6_def)
  have pre: "length ?pre = 8" by simp
  have u: "verifies ((?s @ ?d @ be32_bytes (of_nat (8 + length payload)) @ [0, 0, 0, PROTO_UDP]) @ ?udp @ payload)" "uc \<noteq> 0"
    by (rule udp_checksum_verifies [OF _ _ _ _ refl]; use assms l in \<open>simp add: uc_def udp_ipv6_checksum_def Let_def\<close>)+
  have ul: "unat ?ul = 8 + length payload" by (rule unat_of_len) (use assms(3) in simp)
  let ?p = "?pre @ ?s @ ?d @ ?udp @ payload"
  show len: "length (raw_packet6 client original payload) = 48 + length payload" using l assms(1) by (simp add: p)
  have head: "?p ! 0 = 0x60" "?p ! 4 = hi8 ?ul" "?p ! 5 = lo8 ?ul" "?p ! 6 = PROTO_UDP"
    by (simp_all add: port_be_def numeral_eq_Suc)
  have nth: "?p ! (40 + i) = (?udp @ payload) ! i" for i using l assms(1) by (simp add: nth_append)
  have udp: "?p ! 40 = hi8 (sa_port original)" "?p ! 41 = lo8 (sa_port original)" "?p ! 42 = hi8 (ss_port client)"
    "?p ! 43 = lo8 (ss_port client)" "?p ! 44 = hi8 ?ul" "?p ! 45 = lo8 ?ul" "?p ! 46 = hi8 uc" "?p ! 47 = lo8 uc"
    using nth [of 0] nth [of 1] nth [of 2] nth [of 3] nth [of 4] nth [of 5] nth [of 6] nth [of 7]
    by (simp_all add: udp_header_def port_be_def)
  have parts: "take 16 (drop 8 ?p) = ?s" "take 16 (drop 24 ?p) = ?d" "take 32 (drop 8 ?p) = ?s @ ?d" "drop 40 ?p = ?udp @ payload"
    "drop 48 ?p = payload"
    using l assms(1) by (simp_all add: drop_Cons' take_Cons' udp_header_def port_be_def)
  have "drop_bit 4 (0x60 :: u8) = 6" by code_simp
  then show "deliver6 (raw_packet6 client original payload) = Some ((?s, sa_port original), (?d, ss_port client), payload)"
    using u ul unfolding deliver6_def len unfolding p head udp parts by simp
qed

text \<open>
  C24. Raw replies reach the client as replies of the server it talked to. When the raw send of a
  reply succeeds, the whole packet was handed to the socket for the client's address, and a host
  that verifies both checksums delivers exactly the payload, from the original destination to the
  client's address and port; a payload that does not fit an IPv4 packet is refused with
  \<open>EMSGSIZE\<close> and nothing is sent.
\<close>

theorem raw_reply4_delivered:
  assumes "ss_family client = AF_INET" "sa_family original = AF_INET" "length (ss_addr client) = 4" "length (sa_addr original) = 16"
  shows "(bpf2socks_udp_raw_send4 sendto clock client original payload = Inr () \<longleftrightarrow>
      length payload \<le> 65507 \<and> (\<exists>p. sendto p client = Inr (length p) \<and> p = raw_packet4 clock client original payload \<and>
        deliver4 p = Some ((take 4 (sa_addr original), sa_port original), (ss_addr client, ss_port client), payload))) \<and>
    (if 65507 < length payload then bpf2socks_udp_raw_send4 sendto clock client original payload = Inl EMSGSIZE else True)"
proof (cases "65507 < length payload")
  case False
  then have "28 + length payload \<le> 65535" "length payload \<le> BPF2SOCKS_UDP_BUFFER_SIZE" by (simp_all add: BPF2SOCKS_UDP_BUFFER_SIZE_def)
  with raw_packet4_delivered [OF assms(3), of original payload clock] assms False show ?thesis
    by (auto simp: bpf2socks_udp_raw_send4_def split: sum.splits)
qed (use assms in \<open>simp add: bpf2socks_udp_raw_send4_def\<close>)

text \<open>
  The same for IPv6: a raw reply that is sent verifies at the receiver against the IPv6 pseudo
  header and is delivered from the original destination to the client, the socket address having
  its port cleared.
\<close>

theorem raw_reply6_delivered:
  assumes "ss_family client = AF_INET6" "sa_family original = AF_INET6" "length (ss_addr client) = 16" "length (sa_addr original) = 16"
  shows "bpf2socks_udp_raw_send6 sendto client original payload = Inr () \<longleftrightarrow>
      length payload \<le> 65527 \<and> (\<exists>p. sendto p (client\<lparr>ss_port := 0\<rparr>) = Inr (length p) \<and> p = raw_packet6 client original payload \<and>
        deliver6 p = Some ((sa_addr original, sa_port original), (ss_addr client, ss_port client), payload))"
proof (cases "65527 < length payload")
  case False
  then have "8 + length payload \<le> 65535" "length payload \<le> BPF2SOCKS_UDP_BUFFER_SIZE" by (simp_all add: BPF2SOCKS_UDP_BUFFER_SIZE_def)
  with raw_packet6_delivered [OF assms(3), of original payload] assms False show ?thesis
    by (auto simp: bpf2socks_udp_raw_send6_def split: sum.splits)
qed (use assms in \<open>simp add: bpf2socks_udp_raw_send6_def\<close>)

section \<open>The notice at its receiver\<close>

text \<open>
  What a host reads from an ICMP port unreachable message (RFC 792): the addresses and ports of the
  quoted datagram, by which it finds the socket that sent it.
\<close>

definition quoted4 :: "bytes \<Rightarrow> ((bytes \<times> u16) \<times> (bytes \<times> u16) \<times> nat) option" where
  "quoted4 m = (if 36 \<le> length m \<and> m ! 0 = 3 \<and> m ! 1 = 3 \<and> verifies m \<and> m ! 8 = 0x45 \<and> verifies (take 20 (drop 8 m)) \<and>
      m ! 17 = PROTO_UDP
    then Some ((take 4 (drop 20 m), be16 (m ! 28) (m ! 29)), (take 4 (drop 24 m), be16 (m ! 30) (m ! 31)),
      unat (be16 (m ! 32) (m ! 33)) - 8)
    else None)"

text \<open>
  The notice for an unknown token is a valid ICMP port unreachable message: its checksum and
  that of the quoted header verify, and it quotes the client's datagram, from the client's address
  and port to the token and the port of the bridge with the length it had, so that the kernel
  finds the socket that sent it.
\<close>

theorem token_notice_quotes_datagram:
  assumes "length (ss_addr client) = 4" "4 \<le> length token_addr" "quoted_len \<le> 65535 - 48"
  shows "quoted4 (icmp_notice4 listen_port client token_addr quoted_len) =
    Some ((ss_addr client, ss_port client), (take 4 token_addr, listen_port), quoted_len)"
proof -
  let ?s = "ss_addr client" and ?d = "take 4 token_addr" and ?ul = "of_nat (8 + quoted_len) :: u16"
  have l: "length ?d = 4" using assms(2) by simp
  obtain s0 s1 s2 s3 where s: "?s = [s0, s1, s2, s3]" using list_of_four [OF assms(1)] by blast
  obtain d0 d1 d2 d3 where d: "?d = [d0, d1, d2, d3]" using list_of_four [OF l] by blast
  define tot :: u16 where "tot = of_nat (20 + 8 + quoted_len)"
  define ic where "ic = bpf2socks_udp_checksum_fold (bpf2socks_udp_checksum_add_bytes 0 (ip_header4 tot 0 0 ?s ?d))"
  let ?ip = "ip_header4 tot 0 ic ?s ?d" and ?udp = "udp_header (ss_port client) listen_port ?ul 0"
  let ?m = "[3, 3, 0, 0, 0, 0, 0, 0] @ ?ip @ ?udp"
  define c where "c = bpf2socks_udp_checksum_fold (bpf2socks_udp_checksum_add_bytes 0 ?m)"
  have n: "icmp_notice4 listen_port client token_addr quoted_len = [3, 3] @ port_be c @ [0, 0, 0, 0] @ ?ip @ ?udp"
    by (simp add: icmp_notice4_def Let_def tot_def ic_def c_def)
  have v: "verifies ?ip" by (rule ip_header4_verifies [OF assms(1) l]) (simp add: ic_def)
  have b: "words_sum ?m < 4294967296" using words_sum_bound [of ?m] assms(1) l by simp
  then have "(words_sum ?m + unat c) mod 65535 = 0"
    using checksum_closes [of ?m "bpf2socks_udp_checksum_add_bytes 0 ?m" c] by (simp add: add_bytes_sum c_def)
  moreover have "words_sum ([3, 3] @ port_be c @ [0, 0, 0, 0] @ ?ip @ ?udp) = words_sum ?m + unat c" "0 < words_sum ?m" by simp_all
  ultimately have w: "verifies ([3, 3] @ port_be c @ [0, 0, 0, 0] @ ?ip @ ?udp)" by (simp only: verifies_def) simp
  have ul: "unat ?ul = 8 + quoted_len" by (rule unat_of_len) (use assms(3) in simp)
  show ?thesis using v w ul unfolding n s d
    by (simp add: quoted4_def ip_header4_def udp_header_def port_be_def numeral_eq_Suc)
qed

section \<open>Witnesses\<close>

definition sample_client4 :: sockaddr_storage where
  "sample_client4 = \<lparr>ss_family = AF_INET, ss_port = 40000, ss_addr = [127, 0, 0, 1]\<rparr>"

definition sample_server4 :: bpf2socks_sockaddr where
  "sample_server4 = \<lparr>sa_family = AF_INET, sa_port = 53, sa_addr = [8, 8, 8, 8] @ zero_bytes 12\<rparr>"

definition sample_client6 :: sockaddr_storage where
  "sample_client6 = \<lparr>ss_family = AF_INET6, ss_port = 40000, ss_addr = zero_bytes 15 @ [1]\<rparr>"

definition sample_server6 :: bpf2socks_sockaddr where
  "sample_server6 = \<lparr>sa_family = AF_INET6, sa_port = 53, sa_addr = [0x20, 1] @ zero_bytes 13 @ [2]\<rparr>"

lemmas sample_defs = sample_client4_def sample_server4_def sample_client6_def sample_server6_def zero_bytes_def

theorem raw_reply4_delivered_witness:
  "\<exists>p. p = raw_packet4 7 sample_client4 sample_server4 [1, 2, 3] \<and>
    deliver4 p = Some (([8, 8, 8, 8], 53), ([127, 0, 0, 1], 40000), [1, 2, 3])"
proof -
  have "bpf2socks_udp_raw_send4 (\<lambda>p a. Inr 31) 7 sample_client4 sample_server4 [1, 2, 3] = Inr ()"
    by (simp add: bpf2socks_udp_raw_send4_def sample_defs BPF2SOCKS_UDP_BUFFER_SIZE_def)
  then show ?thesis
    using raw_reply4_delivered [of sample_client4 sample_server4 "\<lambda>p a. Inr 31" 7 "[1, 2, 3]"]
    by (simp add: sample_defs)
qed

theorem raw_reply6_delivered_witness:
  "\<exists>p. p = raw_packet6 sample_client6 sample_server6 [1, 2, 3] \<and>
    deliver6 p = Some ((sa_addr sample_server6, 53), (ss_addr sample_client6, 40000), [1, 2, 3])"
proof -
  have "bpf2socks_udp_raw_send6 (\<lambda>p a. Inr 51) sample_client6 sample_server6 [1, 2, 3] = Inr ()"
    by (simp add: bpf2socks_udp_raw_send6_def sample_defs BPF2SOCKS_UDP_BUFFER_SIZE_def)
  then show ?thesis
    using raw_reply6_delivered [of sample_client6 sample_server6 "\<lambda>p a. Inr 51" "[1, 2, 3]"]
    by (simp add: sample_defs)
qed

theorem token_notice_quotes_datagram_witness:
  "quoted4 (icmp_notice4 5301 sample_client4 ([198, 18, 0, 9] @ zero_bytes 12) 100) =
    Some (([127, 0, 0, 1], 40000), ([198, 18, 0, 9], 5301), 100)"
  using token_notice_quotes_datagram [of sample_client4 "[198, 18, 0, 9] @ zero_bytes 12" 100 5301]
  by (simp add: sample_defs)

end
