(* ===== verification/Udp_State.thy ===== *)
theory Udp_State
  imports Binding_Index Udp_Budget Downlink_Queue Original_Dst Deadline
begin

text \<open>
  The state of a UDP worker, \<^verbatim>\<open>bridge/udp_internal.h\<close>, and the operations on its parts that every other
  module of the worker uses: the doubly linked lists, the epoll registrations, the reply bindings,
  the queued datagrams and the channels of waiting replies (first half of \<^verbatim>\<open>bridge/udp_session.c\<close>, the
  releasing half of \<^verbatim>\<open>bridge/udp_downlink.c\<close>, \<^verbatim>\<open>bridge/udp_relay_registry.c\<close>).

  Sessions, bindings and channels are numbers; their contents are functions of the number. The
  doubly linked lists are heaps of links with the surgery of the code. The singly linked ones (free
  lists, hash buckets, the bindings and channels of a session, queued datagrams) are lists, head
  first, and so is the index of the bindings, whose chains are the subject of \<open>Binding_Index\<close>.
  \<open>ud_epoll\<close> is what epoll watches (0 when a descriptor is not registered) and \<open>ud_open\<close> the
  descriptors that are open.
\<close>

section \<open>State\<close>

datatype bpf2socks_udp_session_stage =
  SESSION_UNUSED | SESSION_CONNECTING | SESSION_ASSOC_WRITE | SESSION_ASSOC_READ_HELLO
| SESSION_ASSOC_READ_RESPONSE | SESSION_READY

record udp_pending_packet =
  pp_original_dst :: bpf2socks_sockaddr
  pp_payload :: bytes
  pp_allocation_bytes :: u64

record udp_downlink_packet =
  dp_binding :: nat
  dp_payload :: bytes
  dp_allocation_bytes :: u64

record udp_downlink_channel =
  ch_session :: "nat option"
  ch_queue :: "udp_downlink_packet list"
  ch_source_binding :: "nat option"
  ch_fd :: int
  ch_source_fd :: int
  ch_source_binding_generation :: u64
  ch_use_pktinfo :: bool
  ch_raw :: bool

record udp_binding =
  ub_used :: bool
  ub_original_dst :: bpf2socks_sockaddr
  ub_token_addr :: bytes
  ub_connected_udp_token :: bool
  ub_reply_fd :: int
  ub_reply_raw :: bool
  ub_reply_fd_generation :: u64
  ub_last_seen_ms :: u64
  ub_downlink_pending_count :: nat
  ub_owner :: "nat option"

record udp_session =
  us_used :: bool
  us_stage :: bpf2socks_udp_session_stage
  us_token_lookup_mode :: bpf2socks_token_lookup_mode
  us_client_addr :: sockaddr_storage
  us_tcp_fd :: int
  us_udp_fd :: int
  us_relay_addr :: "sockaddr_storage option"
  us_relay_connected :: bool
  us_last_seen_ms :: u64
  us_relay_port :: u16
  us_relay_port_claimed :: bool
  us_associate_retries :: nat
  us_release_retry_ms :: u64
  us_associate_write_buf :: bytes
  us_associate_write_offset :: nat
  us_associate_read_buf :: bytes
  us_associate_read_expected :: nat
  us_pending :: "udp_pending_packet list"
  us_downlink_channels :: "nat list"
  us_downlink_pending_count :: nat
  us_downlink_paused :: bool
  us_downlink_waiting_budget :: bool
  us_bindings :: "nat list"
  us_binding_lru_head :: "nat option"
  us_binding_lru_tail :: "nat option"
  us_binding_count :: nat
  us_handshake_started_ms :: u64
  us_handshake_linked :: bool

record udp_counters =
  st_udp_binding_evictions :: u64
  st_udp_session_evictions :: u64
  st_udp_session_hits :: u64
  st_udp_session_misses :: u64
  st_udp_associate_reuses :: u64
  st_udp_associate_creates :: u64
  st_udp_associate_timeouts :: u64
  st_udp_reply_binding_creates :: u64
  st_udp_fullcone_binding_creates :: u64
  st_udp_closed_client_releases :: u64
  st_udp_relay_port_collisions :: u64
  st_udp_packets_to_client :: u64
  st_udp_packets_to_upstream :: u64
  st_udp_drops_send_busy :: u64
  st_udp_drops_oversized :: u64
  st_udp_packets_from_client :: u64
  st_udp_packets_from_upstream :: u64
  st_udp_token_misses :: u64
  st_udp_token_lookup_full_attempts :: u64
  st_udp_token_lookup_zero_attempts :: u64
  st_udp_token_lookup_full_hits :: u64
  st_udp_token_lookup_zero_hits :: u64
  st_udp_token_lookup_fallbacks :: u64
  st_udp_reply_binding_hits :: u64
  st_udp_send_errors :: u64
  st_udp_copy_sends :: u64
  st_udp_drops_pending_budget :: u64
  st_udp_drops_malformed_socks5 :: u64
  st_dns_transaction_timeouts :: u64
  st_dns_channel_timeout_rebuilds :: u64
  st_dns_free_stack_allocations :: u64
  st_dns_full_table_evictions :: u64
  st_dns_valid_responses :: u64

record udp_fd_ref =
  rf_fd :: int
  rf_session :: "nat option"

record udp_token_cache_entry =
  tc_key :: bpf2socks_token_key
  tc_original :: bpf2socks_original_dst
  tc_expires_ms :: u64
  tc_mode :: bpf2socks_token_lookup_mode

record udp_state =
  ud_sessions :: "nat \<Rightarrow> udp_session"
  ud_bindings :: "nat \<Rightarrow> udp_binding"
  ud_channels :: "nat \<Rightarrow> udp_downlink_channel"
  ud_control_refs :: "nat \<Rightarrow> udp_fd_ref"
  ud_relay_refs :: "nat \<Rightarrow> udp_fd_ref"
  ud_free_sessions :: "nat list"
  ud_free_bindings :: "nat list"
  ud_session_buckets :: "nat \<Rightarrow> nat list"
  ud_lru :: "nat links"
  ud_handshakes :: "nat links"
  ud_binding_lru :: "nat links"
  ud_session_lru_next :: "nat \<Rightarrow> nat option"
  ud_session_lru_prev :: "nat \<Rightarrow> nat option"
  ud_binding_index :: "nat list"
  ud_retired :: "nat list"
  ud_session_cap :: nat
  ud_session_count :: nat
  ud_binding_cap :: nat
  ud_binding_count :: nat
  ud_local_session_count :: nat
  ud_pending_budget :: "u64 bpf2socks_udp_budget"
  ud_downlink_read_reservation :: u64
  ud_downlink_budget_waiters :: u64
  ud_relay_registry :: "u16 \<Rightarrow> bool"
  ud_release_retry_due_ms :: u64
  ud_port_destroyed_ms :: "u16 \<Rightarrow> u32"
  ud_released_ports :: bytes
  ud_check_new_sessions_until_ms :: u64
  ud_destroy_events_armed :: bool
  ud_idle_timeout_ms :: u64
  ud_token_cache :: "(nat \<Rightarrow> udp_token_cache_entry) option"
  ud_token_notice4_fd :: int
  ud_token_notice6_fd :: int
  ud_token_notice_window_ms :: u64
  ud_token_notice_count :: u32
  ud_next_deadline_ms :: u64
  ud_batch_size :: u32
  ud_epoll :: "int \<Rightarrow> u32"
  ud_open :: "int set"
  ud_counters :: udp_counters

definition upd_session :: "nat \<Rightarrow> (udp_session \<Rightarrow> udp_session) \<Rightarrow> udp_state \<Rightarrow> udp_state" where
  "upd_session i f s = s\<lparr>ud_sessions := (ud_sessions s)(i := f (ud_sessions s i))\<rparr>"

definition upd_binding :: "nat \<Rightarrow> (udp_binding \<Rightarrow> udp_binding) \<Rightarrow> udp_state \<Rightarrow> udp_state" where
  "upd_binding b f s = s\<lparr>ud_bindings := (ud_bindings s)(b := f (ud_bindings s b))\<rparr>"

definition upd_channel :: "nat \<Rightarrow> (udp_downlink_channel \<Rightarrow> udp_downlink_channel) \<Rightarrow> udp_state \<Rightarrow> udp_state" where
  "upd_channel c f s = s\<lparr>ud_channels := (ud_channels s)(c := f (ud_channels s c))\<rparr>"

definition upd_counters :: "(udp_counters \<Rightarrow> udp_counters) \<Rightarrow> udp_state \<Rightarrow> udp_state" where
  "upd_counters f s = s\<lparr>ud_counters := f (ud_counters s)\<rparr>"

text \<open>What \<open>memset\<close> and the two assignments after it leave of a session and of a binding.\<close>

definition no_address :: sockaddr_storage where
  "no_address = \<lparr>ss_family = AF_UNSPEC, ss_port = 0, ss_addr = []\<rparr>"

definition blank_session :: udp_session where
  "blank_session = \<lparr>us_used = False, us_stage = SESSION_UNUSED, us_token_lookup_mode = LOOKUP_UNKNOWN,
     us_client_addr = no_address, us_tcp_fd = -1, us_udp_fd = -1, us_relay_addr = None, us_relay_connected = False,
     us_last_seen_ms = 0, us_relay_port = 0, us_relay_port_claimed = False, us_associate_retries = 0, us_release_retry_ms = 0,
     us_associate_write_buf = [], us_associate_write_offset = 0, us_associate_read_buf = [], us_associate_read_expected = 0,
     us_pending = [], us_downlink_channels = [], us_downlink_pending_count = 0, us_downlink_paused = False,
     us_downlink_waiting_budget = False, us_bindings = [], us_binding_lru_head = None, us_binding_lru_tail = None,
     us_binding_count = 0, us_handshake_started_ms = 0, us_handshake_linked = False\<rparr>"

definition blank_binding :: udp_binding where
  "blank_binding = \<lparr>ub_used = False, ub_original_dst = \<lparr>sa_family = AF_UNSPEC, sa_port = 0, sa_addr = zero_bytes 16\<rparr>,
     ub_token_addr = zero_bytes 16, ub_connected_udp_token = False, ub_reply_fd = -1, ub_reply_raw = False,
     ub_reply_fd_generation = 0, ub_last_seen_ms = 0, ub_downlink_pending_count = 0, ub_owner = None\<rparr>"

section \<open>Doubly linked lists\<close>

text \<open>
  The surgery of \<open>lru_remove\<close> and its four siblings, and of \<open>lru_add_tail\<close> and its four siblings,
  which differ only in the fields they use.
\<close>

definition list_remove :: "'n links \<Rightarrow> 'n \<Rightarrow> 'n links" where
  "list_remove l x =
    (let l1 = (case lk_prev l x of Some p \<Rightarrow> l\<lparr>lk_next := (lk_next l)(p := lk_next l x)\<rparr> | None \<Rightarrow> l);
         l2 = (case lk_next l1 x of Some n \<Rightarrow> l1\<lparr>lk_prev := (lk_prev l1)(n := lk_prev l1 x)\<rparr> | None \<Rightarrow> l1);
         l3 = (if lk_head l2 = Some x then l2\<lparr>lk_head := lk_next l2 x\<rparr> else l2);
         l4 = (if lk_tail l3 = Some x then l3\<lparr>lk_tail := lk_prev l3 x\<rparr> else l3)
     in l4\<lparr>lk_prev := (lk_prev l4)(x := None), lk_next := (lk_next l4)(x := None)\<rparr>)"

definition list_add_tail :: "'n links \<Rightarrow> 'n \<Rightarrow> 'n links" where
  "list_add_tail l x =
    (let l1 = l\<lparr>lk_prev := (lk_prev l)(x := lk_tail l), lk_next := (lk_next l)(x := None)\<rparr>;
         l2 = (case lk_tail l1 of Some t \<Rightarrow> l1\<lparr>lk_next := (lk_next l1)(t := Some x)\<rparr> | None \<Rightarrow> l1);
         l3 = l2\<lparr>lk_tail := Some x\<rparr>
     in if lk_head l3 = None then l3\<lparr>lk_head := Some x\<rparr> else l3)"

definition lru_remove :: "udp_state \<Rightarrow> nat \<Rightarrow> udp_state" where
  "lru_remove s i = s\<lparr>ud_lru := list_remove (ud_lru s) i\<rparr>"

definition lru_add_tail :: "udp_state \<Rightarrow> nat \<Rightarrow> udp_state" where
  "lru_add_tail s i = s\<lparr>ud_lru := list_add_tail (ud_lru s) i\<rparr>"

definition bpf2socks_udp_lru_touch :: "udp_state \<Rightarrow> nat \<Rightarrow> udp_state" where
  "bpf2socks_udp_lru_touch s i = (if lk_tail (ud_lru s) = Some i then s else lru_add_tail (lru_remove s i) i)"

definition bpf2socks_udp_handshake_add_tail :: "udp_state \<Rightarrow> nat \<Rightarrow> u64 \<Rightarrow> udp_state" where
  "bpf2socks_udp_handshake_add_tail s i now_ms =
    upd_session i (\<lambda>x. x\<lparr>us_handshake_started_ms := now_ms, us_handshake_linked := True\<rparr>)
      (s\<lparr>ud_handshakes := list_add_tail (ud_handshakes s) i\<rparr>)"

definition bpf2socks_udp_handshake_remove :: "udp_state \<Rightarrow> nat \<Rightarrow> udp_state" where
  "bpf2socks_udp_handshake_remove s i =
    (if \<not> us_handshake_linked (ud_sessions s i) then s
     else upd_session i (\<lambda>x. x\<lparr>us_handshake_linked := False\<rparr>) (s\<lparr>ud_handshakes := list_remove (ud_handshakes s) i\<rparr>))"

text \<open>The list of a session's bindings by age: its ends are in the session, its links in the bindings.\<close>

definition session_links :: "udp_state \<Rightarrow> nat \<Rightarrow> nat links" where
  "session_links s i = \<lparr>lk_head = us_binding_lru_head (ud_sessions s i), lk_tail = us_binding_lru_tail (ud_sessions s i),
     lk_next = ud_session_lru_next s, lk_prev = ud_session_lru_prev s\<rparr>"

definition set_session_links :: "nat \<Rightarrow> nat links \<Rightarrow> udp_state \<Rightarrow> udp_state" where
  "set_session_links i l s =
    upd_session i (\<lambda>x. x\<lparr>us_binding_lru_head := lk_head l, us_binding_lru_tail := lk_tail l\<rparr>)
      (s\<lparr>ud_session_lru_next := lk_next l, ud_session_lru_prev := lk_prev l\<rparr>)"

definition binding_session_lru_remove :: "udp_state \<Rightarrow> nat \<Rightarrow> nat \<Rightarrow> udp_state" where
  "binding_session_lru_remove s i b = set_session_links i (list_remove (session_links s i) b) s"

definition binding_session_lru_add_tail :: "udp_state \<Rightarrow> nat \<Rightarrow> nat \<Rightarrow> udp_state" where
  "binding_session_lru_add_tail s i b = set_session_links i (list_add_tail (session_links s i) b) s"

definition binding_global_lru_remove :: "udp_state \<Rightarrow> nat \<Rightarrow> udp_state" where
  "binding_global_lru_remove s b = s\<lparr>ud_binding_lru := list_remove (ud_binding_lru s) b\<rparr>"

definition binding_global_lru_add_tail :: "udp_state \<Rightarrow> nat \<Rightarrow> udp_state" where
  "binding_global_lru_add_tail s b = s\<lparr>ud_binding_lru := list_add_tail (ud_binding_lru s) b\<rparr>"

definition bpf2socks_udp_binding_lru_touch :: "udp_state \<Rightarrow> nat \<Rightarrow> nat \<Rightarrow> udp_state" where
  "bpf2socks_udp_binding_lru_touch s i b =
    (let s1 = (if us_binding_lru_tail (ud_sessions s i) \<noteq> Some b
               then binding_session_lru_add_tail (binding_session_lru_remove s i b) i b else s)
     in if lk_tail (ud_binding_lru s1) \<noteq> Some b then binding_global_lru_add_tail (binding_global_lru_remove s1 b) b else s1)"

section \<open>Descriptors and epoll\<close>

definition close_udp_fd :: "int \<Rightarrow> udp_state \<Rightarrow> udp_state" where
  "close_udp_fd fd s = (if fd \<ge> 0 then s\<lparr>ud_open := ud_open s - {fd}, ud_epoll := (ud_epoll s)(fd := 0)\<rparr> else s)"

abbreviation (input) EPOLLIN :: u32 where "EPOLLIN \<equiv> 0x1"
abbreviation (input) EPOLLOUT :: u32 where "EPOLLOUT \<equiv> 0x4"
abbreviation (input) EPOLLERR :: u32 where "EPOLLERR \<equiv> 0x8"
abbreviation (input) EPOLLHUP :: u32 where "EPOLLHUP \<equiv> 0x10"
abbreviation (input) EPOLLRDHUP :: u32 where "EPOLLRDHUP \<equiv> 0x2000"

text \<open>
  The result of \<open>epoll_ctl\<close> is the environment's choice: \<open>None\<close> for success. \<open>EPOLL_CTL_ADD\<close> and
  \<open>EPOLL_CTL_MOD\<close> leave the same registration. The worker's epoll descriptor is open.
\<close>

definition epoll_set :: "errno option \<Rightarrow> int \<Rightarrow> u32 \<Rightarrow> udp_state \<Rightarrow> errno option \<times> udp_state" where
  "epoll_set ctl fd events s =
    (if fd < 0 then (None, s)
     else if ctl \<noteq> None then (ctl, s)
     else (None, s\<lparr>ud_epoll := (ud_epoll s)(fd := events OR EPOLLERR OR EPOLLHUP)\<rparr>))"

definition bpf2socks_udp_epoll_remove :: "int \<Rightarrow> udp_state \<Rightarrow> udp_state" where
  "bpf2socks_udp_epoll_remove fd s = (if fd < 0 then s else s\<lparr>ud_epoll := (ud_epoll s)(fd := 0)\<rparr>)"

definition add_session_udp_epoll_fd :: "errno option \<Rightarrow> udp_state \<Rightarrow> nat \<Rightarrow> errno option \<times> udp_state" where
  "add_session_udp_epoll_fd ctl s i =
    (if ud_session_cap s \<le> i then (Some EINVAL, s)
     else epoll_set ctl (us_udp_fd (ud_sessions s i)) EPOLLIN
       (s\<lparr>ud_relay_refs := (ud_relay_refs s)(i := \<lparr>rf_fd = us_udp_fd (ud_sessions s i), rf_session = Some i\<rparr>)\<rparr>))"

definition bpf2socks_udp_epoll_add_session_control :: "errno option \<Rightarrow> u32 \<Rightarrow> udp_state \<Rightarrow> nat \<Rightarrow> errno option \<times> udp_state" where
  "bpf2socks_udp_epoll_add_session_control ctl events s i =
    (if ud_session_cap s \<le> i then (Some EINVAL, s)
     else epoll_set ctl (us_tcp_fd (ud_sessions s i)) events
       (s\<lparr>ud_control_refs := (ud_control_refs s)(i := \<lparr>rf_fd = us_tcp_fd (ud_sessions s i), rf_session = Some i\<rparr>)\<rparr>))"

definition bpf2socks_udp_epoll_switch_session_to_relay ::
    "errno option \<Rightarrow> errno option \<Rightarrow> udp_state \<Rightarrow> nat \<Rightarrow> errno option \<times> udp_state" where
  "bpf2socks_udp_epoll_switch_session_to_relay ctl1 ctl2 s i =
    (if ud_session_cap s \<le> i then (Some EINVAL, s)
     else case epoll_set ctl1 (us_tcp_fd (ud_sessions s i)) (EPOLLIN OR EPOLLRDHUP) s of
       (Some e, s1) \<Rightarrow> (Some e, s1)
     | (None, s1) \<Rightarrow> add_session_udp_epoll_fd ctl2 s1 i)"

section \<open>Reply bindings\<close>

definition alloc_binding :: "udp_state \<Rightarrow> nat option \<times> udp_state" where
  "alloc_binding s =
    (case ud_free_bindings s of
       [] \<Rightarrow> (None, s)
     | b # rest \<Rightarrow> (Some b, upd_binding b (\<lambda>_. blank_binding) (s\<lparr>ud_free_bindings := rest\<rparr>)))"

definition bpf2socks_udp_binding_close_reply :: "udp_state \<Rightarrow> nat \<Rightarrow> udp_state" where
  "bpf2socks_udp_binding_close_reply s b =
    upd_binding b (\<lambda>x. x\<lparr>ub_reply_fd := -1, ub_reply_raw := False, ub_reply_fd_generation := ub_reply_fd_generation x + 1\<rparr>)
      (close_udp_fd (ub_reply_fd (ud_bindings s b)) s)"

definition bpf2socks_udp_binding_set_reply :: "udp_state \<Rightarrow> nat \<Rightarrow> int \<Rightarrow> bool \<Rightarrow> udp_state" where
  "bpf2socks_udp_binding_set_reply s b fd reply_raw =
    upd_binding b (\<lambda>x. x\<lparr>ub_reply_fd := fd, ub_reply_raw := reply_raw, ub_reply_fd_generation := ub_reply_fd_generation x + 1\<rparr>) s"

definition release_binding :: "udp_state \<Rightarrow> nat \<Rightarrow> udp_state" where
  "release_binding s b =
    (let s1 = upd_binding b (\<lambda>_. blank_binding) (bpf2socks_udp_binding_close_reply s b)
     in s1\<lparr>ud_free_bindings := b # ud_free_bindings s1\<rparr>)"

definition unlink_binding_from_session :: "udp_state \<Rightarrow> nat \<Rightarrow> nat \<Rightarrow> udp_state" where
  "unlink_binding_from_session s i b = upd_session i (\<lambda>x. x\<lparr>us_bindings := remove1 b (us_bindings x)\<rparr>) s"

text \<open>The decrements are guarded, so that on natural numbers they are subtractions.\<close>

definition destroy_binding :: "udp_state \<Rightarrow> nat \<Rightarrow> nat \<Rightarrow> udp_state" where
  "destroy_binding s i b =
    (let s1 = s\<lparr>ud_binding_index := remove1 b (ud_binding_index s)\<rparr>;
         s2 = unlink_binding_from_session s1 i b;
         s3 = binding_session_lru_remove s2 i b;
         s4 = binding_global_lru_remove s3 b;
         s5 = upd_session i (\<lambda>x. x\<lparr>us_binding_count := us_binding_count x - 1\<rparr>) s4;
         s6 = s5\<lparr>ud_binding_count := ud_binding_count s5 - 1\<rparr>
     in release_binding s6 b)"

section \<open>Datagrams that wait for the handshake\<close>

text \<open>The size of the struct in front of the payload on a 64-bit system.\<close>

definition PENDING_PACKET_SIZE :: u64 where "PENDING_PACKET_SIZE = 56"
definition DOWNLINK_PACKET_SIZE :: u64 where "DOWNLINK_PACKET_SIZE = 32"

definition budget_release :: "u64 \<Rightarrow> udp_state \<Rightarrow> udp_state" where
  "budget_release n s = s\<lparr>ud_pending_budget := snd (bpf2socks_udp_budget_release (ud_pending_budget s) n)\<rparr>"

text \<open>\<open>malloc\<close> succeeds or not; the payload is the caller's and its length fits a \<open>size_t\<close>.\<close>

definition alloc_pending_packet :: "bool \<Rightarrow> nat \<Rightarrow> udp_state \<Rightarrow> (errno + u64) \<times> udp_state" where
  "alloc_pending_packet malloc_ok payload_len s =
    (if 2 ^ 64 - 1 - unat PENDING_PACKET_SIZE < payload_len then (Inl ENOBUFS, s)
     else let allocation_bytes = PENDING_PACKET_SIZE + of_nat payload_len in
       case bpf2socks_udp_budget_reserve (ud_pending_budget s) allocation_bytes of
         (Inl e, b) \<Rightarrow> (Inl e, s)
       | (Inr _, b) \<Rightarrow>
           let s1 = s\<lparr>ud_pending_budget := b\<rparr> in
           if \<not> malloc_ok then (Inl ENOMEM, budget_release allocation_bytes s1)
           else (Inr allocation_bytes, s1))"

definition bpf2socks_udp_session_release_pending :: "udp_state \<Rightarrow> udp_pending_packet \<Rightarrow> udp_state" where
  "bpf2socks_udp_session_release_pending s p = budget_release (pp_allocation_bytes p) s"

definition release_session_pending_packets :: "udp_state \<Rightarrow> nat \<Rightarrow> udp_state" where
  "release_session_pending_packets s i =
    upd_session i (\<lambda>x. x\<lparr>us_pending := []\<rparr>)
      (fold (\<lambda>p s. bpf2socks_udp_session_release_pending s p) (us_pending (ud_sessions s i)) s)"

definition bpf2socks_udp_session_queue_pending ::
    "u64 \<Rightarrow> bool \<Rightarrow> udp_state \<Rightarrow> nat \<Rightarrow> bpf2socks_sockaddr \<Rightarrow> bytes \<Rightarrow> nat \<Rightarrow> (errno + unit) \<times> udp_state" where
  "bpf2socks_udp_session_queue_pending now_ms malloc_ok s i original_dst payload payload_cap =
    (if payload_cap < length payload then (Inl EINVAL, s)
     else case alloc_pending_packet malloc_ok (length payload) s of
       (Inl e, s1) \<Rightarrow> (Inl e, s1)
     | (Inr n, s1) \<Rightarrow>
         let p = \<lparr>pp_original_dst = original_dst, pp_payload = payload, pp_allocation_bytes = n\<rparr>;
             s2 = upd_session i (\<lambda>x. x\<lparr>us_pending := us_pending x @ [p], us_last_seen_ms := now_ms\<rparr>) s1
         in (Inr (), bpf2socks_udp_lru_touch s2 i))"

section \<open>Channels of waiting replies\<close>

definition mark_ready :: "nat \<Rightarrow> udp_state \<Rightarrow> udp_state" where
  "mark_ready i s =
    (case bpf2socks_udp_downlink_waiter_tracker_mark_ready (ud_downlink_budget_waiters s)
        (us_downlink_waiting_budget (ud_sessions s i)) of
       (n, w) \<Rightarrow> upd_session i (\<lambda>x. x\<lparr>us_downlink_waiting_budget := w\<rparr>) (s\<lparr>ud_downlink_budget_waiters := n\<rparr>))"

definition release_downlink_packet :: "udp_state \<Rightarrow> nat \<Rightarrow> udp_downlink_packet \<Rightarrow> udp_state" where
  "release_downlink_packet s i p =
    budget_release (dp_allocation_bytes p)
      (upd_binding (dp_binding p) (\<lambda>x. x\<lparr>ub_downlink_pending_count := ub_downlink_pending_count x - 1\<rparr>)
        (upd_session i (\<lambda>x. x\<lparr>us_downlink_pending_count := us_downlink_pending_count x - 1\<rparr>) s))"

definition bpf2socks_udp_downlink_set_paused :: "errno option \<Rightarrow> udp_state \<Rightarrow> nat \<Rightarrow> bool \<Rightarrow> (errno + unit) \<times> udp_state" where
  "bpf2socks_udp_downlink_set_paused ctl s i paused =
    (let x = ud_sessions s i in
     if \<not> us_used x \<or> us_stage x \<noteq> SESSION_READY \<or> us_udp_fd x < 0 then (Inl EINVAL, s)
     else if us_downlink_paused x = paused then (Inr (), s)
     else if ud_session_cap s \<le> i then (Inl EINVAL, s)
     else case epoll_set ctl (us_udp_fd x) (if paused then 0 else EPOLLIN) s of
       (Some e, s1) \<Rightarrow> (Inl e, s1)
     | (None, s1) \<Rightarrow> (Inr (), upd_session i (\<lambda>x. x\<lparr>us_downlink_paused := paused\<rparr>) s1))"

definition unlink_downlink_channel :: "udp_state \<Rightarrow> nat \<Rightarrow> nat \<Rightarrow> udp_state" where
  "unlink_downlink_channel s i c = upd_session i (\<lambda>x. x\<lparr>us_downlink_channels := remove1 c (us_downlink_channels x)\<rparr>) s"

definition retire_downlink_channel :: "errno option \<Rightarrow> udp_state \<Rightarrow> nat \<Rightarrow> nat \<Rightarrow> bool \<Rightarrow> udp_state" where
  "retire_downlink_channel ctl s i c resume_session =
    (let s1 = unlink_downlink_channel s i c;
         s2 = close_udp_fd (ch_fd (ud_channels s1 c)) (bpf2socks_udp_epoll_remove (ch_fd (ud_channels s1 c)) s1);
         s3 = upd_channel c (\<lambda>x. x\<lparr>ch_fd := -1\<rparr>) s2;
         s4 = fold (\<lambda>p s. release_downlink_packet s i p) (ch_queue (ud_channels s3 c)) s3;
         s5 = upd_channel c (\<lambda>x. x\<lparr>ch_queue := [], ch_session := None\<rparr>) s4;
         s6 = s5\<lparr>ud_retired := c # ud_retired s5\<rparr>;
         x = ud_sessions s6 i
     in if resume_session \<and> us_used x \<and> us_downlink_pending_count x = 0 \<and> \<not> us_downlink_waiting_budget x \<and> us_downlink_paused x
        then snd (bpf2socks_udp_downlink_set_paused ctl s6 i False) else s6)"

definition bpf2socks_udp_downlink_free_retired :: "udp_state \<Rightarrow> udp_state" where
  "bpf2socks_udp_downlink_free_retired s = s\<lparr>ud_retired := []\<rparr>"

lemma sessions_upd [simp]:
  "ud_sessions (upd_session i f s) = (ud_sessions s)(i := f (ud_sessions s i))"
  "ud_sessions (upd_binding b g s) = ud_sessions s"
  "ud_sessions (upd_channel c h s) = ud_sessions s"
  "ud_sessions (upd_counters k s) = ud_sessions s"
  "ud_sessions (close_udp_fd fd s) = ud_sessions s"
  "ud_sessions (bpf2socks_udp_epoll_remove fd s) = ud_sessions s"
  "ud_sessions (budget_release n s) = ud_sessions s"
  by (simp_all add: upd_session_def upd_binding_def upd_channel_def upd_counters_def close_udp_fd_def
      bpf2socks_udp_epoll_remove_def budget_release_def)

lemma channels_upd [simp]:
  "ud_channels (upd_session i f s) = ud_channels s"
  "ud_channels (upd_binding b g s) = ud_channels s"
  "ud_channels (upd_channel c h s) = (ud_channels s)(c := h (ud_channels s c))"
  "ud_channels (close_udp_fd fd s) = ud_channels s"
  "ud_channels (bpf2socks_udp_epoll_remove fd s) = ud_channels s"
  "ud_channels (budget_release n s) = ud_channels s"
  by (simp_all add: upd_session_def upd_binding_def upd_channel_def close_udp_fd_def
      bpf2socks_udp_epoll_remove_def budget_release_def)

lemma fold_release_channels:
  "us_downlink_channels (ud_sessions (fold (\<lambda>p s. release_downlink_packet s i p) ps s) j) = us_downlink_channels (ud_sessions s j)"
  by (induction ps arbitrary: s) (simp_all add: release_downlink_packet_def)

lemma retire_channels:
  "us_downlink_channels (ud_sessions (retire_downlink_channel ctl s i c False) i) = remove1 c (us_downlink_channels (ud_sessions s i))"
  by (simp add: retire_downlink_channel_def Let_def fold_release_channels unlink_downlink_channel_def)

text \<open>The loop over the channels of a session: every pass takes the first one off.\<close>

function retire_channels_loop :: "udp_state \<Rightarrow> nat \<Rightarrow> udp_state" where
  "retire_channels_loop s i =
    (case us_downlink_channels (ud_sessions s i) of
       [] \<Rightarrow> s
     | c # _ \<Rightarrow> retire_channels_loop (retire_downlink_channel None s i c False) i)"
  by pat_completeness auto
termination by (relation "measure (\<lambda>(s, i). length (us_downlink_channels (ud_sessions s i)))") (simp_all add: retire_channels)

declare retire_channels_loop.simps [simp del]

definition bpf2socks_udp_downlink_release_session :: "udp_state \<Rightarrow> nat \<Rightarrow> udp_state" where
  "bpf2socks_udp_downlink_release_session s i =
    mark_ready i (upd_session i (\<lambda>x. x\<lparr>us_downlink_pending_count := 0, us_downlink_paused := False\<rparr>) (retire_channels_loop s i))"

section \<open>Relay ports\<close>

definition bpf2socks_udp_relay_port_claim :: "udp_state \<Rightarrow> u16 \<Rightarrow> bool \<times> udp_state" where
  "bpf2socks_udp_relay_port_claim s port =
    (if ud_relay_registry s port then (False, s) else (True, s\<lparr>ud_relay_registry := (ud_relay_registry s)(port := True)\<rparr>))"

definition bpf2socks_udp_relay_port_release :: "udp_state \<Rightarrow> u16 \<Rightarrow> udp_state" where
  "bpf2socks_udp_relay_port_release s port = s\<lparr>ud_relay_registry := (ud_relay_registry s)(port := False)\<rparr>"

end
