(* ===== verification/Udp_Session.thy ===== *)
theory Udp_Session
  imports Udp_State
begin

text \<open>
  \<^verbatim>\<open>bridge/udp_session.c\<close>, the tables of client sessions and of their reply bindings: lookup by
  address, creation, eviction when a table is full, expiry and release. The reply sockets of
  \<^verbatim>\<open>bridge/udp_downlink.c\<close> are here too, since creating a binding opens one.
\<close>

section \<open>Addresses\<close>

definition bpf2socks_hash_bytes :: "bytes \<Rightarrow> u32" where
  "bpf2socks_hash_bytes bs = foldl (\<lambda>h b. (h XOR ucast b) * 16777619) 2166136261 bs"

definition SESSION_HASH_BUCKETS :: nat where "SESSION_HASH_BUCKETS = 4096"

text \<open>
  The bytes in memory: the family is in host order, which is little-endian. The flow label and the
  scope of an IPv6 address are zero.
\<close>

definition sockaddr_hash :: "sockaddr_storage \<Rightarrow> u32" where
  "sockaddr_hash a =
    (if ss_family a = AF_INET then bpf2socks_hash_bytes ([2, 0, hi8 (ss_port a), lo8 (ss_port a)] @ ss_addr a)
     else bpf2socks_hash_bytes ([word_of_int (ss_family a), 0, hi8 (ss_port a), lo8 (ss_port a)] @ zero_bytes 4 @ ss_addr a @ zero_bytes 4))"

definition same_sockaddr :: "sockaddr_storage \<Rightarrow> sockaddr_storage \<Rightarrow> bool" where
  "same_sockaddr a b =
    (if ss_family a \<noteq> ss_family b then False
     else if ss_family a = AF_INET then ss_port a = ss_port b \<and> ss_addr a = ss_addr b
     else a = b)"

definition session_bucket :: "sockaddr_storage \<Rightarrow> nat" where
  "session_bucket a = unat (sockaddr_hash a) mod SESSION_HASH_BUCKETS"

definition bpf2socks_sockaddr_is_loopback :: "sockaddr_storage \<Rightarrow> bool" where
  "bpf2socks_sockaddr_is_loopback a =
    (if ss_family a = AF_INET then take 1 (ss_addr a) = [127]
     else if ss_family a = AF_INET6 then
       ss_addr a = zero_bytes 15 @ [1] \<or> take 12 (ss_addr a) = zero_bytes 10 @ [0xff, 0xff] \<and> ss_addr a ! 12 = 127
     else False)"

section \<open>Closing and dropping a session\<close>

lemma destroy_binding_bindings:
  "us_bindings (ud_sessions (destroy_binding s i b) i) = remove1 b (us_bindings (ud_sessions s i))"
  by (simp add: destroy_binding_def Let_def release_binding_def bpf2socks_udp_binding_close_reply_def
      binding_global_lru_remove_def binding_session_lru_remove_def set_session_links_def unlink_binding_from_session_def)

function destroy_bindings_loop :: "udp_state \<Rightarrow> nat \<Rightarrow> udp_state" where
  "destroy_bindings_loop s i =
    (case us_bindings (ud_sessions s i) of
       [] \<Rightarrow> s
     | b # _ \<Rightarrow> destroy_bindings_loop (destroy_binding s i b) i)"
  by pat_completeness auto
termination by (relation "measure (\<lambda>(s, i). length (us_bindings (ud_sessions s i)))") (simp_all add: destroy_binding_bindings)

declare destroy_bindings_loop.simps [simp del]

definition bpf2socks_udp_session_close :: "udp_state \<Rightarrow> nat \<Rightarrow> udp_state" where
  "bpf2socks_udp_session_close s i =
    (if \<not> us_used (ud_sessions s i) then s
     else let s1 = (if us_relay_port_claimed (ud_sessions s i)
                    then bpf2socks_udp_relay_port_release s (us_relay_port (ud_sessions s i)) else s);
              s2 = release_session_pending_packets s1 i;
              s3 = bpf2socks_udp_downlink_release_session s2 i;
              s4 = close_udp_fd (us_tcp_fd (ud_sessions s3 i)) s3;
              s5 = close_udp_fd (us_udp_fd (ud_sessions s4 i)) s4;
              s6 = destroy_bindings_loop s5 i
          in upd_session i (\<lambda>_. blank_session) s6)"

definition bpf2socks_udp_session_find :: "udp_state \<Rightarrow> sockaddr_storage \<Rightarrow> nat option" where
  "bpf2socks_udp_session_find s client_addr =
    List.find (\<lambda>i. us_used (ud_sessions s i) \<and> same_sockaddr (us_client_addr (ud_sessions s i)) client_addr)
      (ud_session_buckets s (session_bucket client_addr))"

definition unlink_session_from_hash :: "udp_state \<Rightarrow> nat \<Rightarrow> udp_state" where
  "unlink_session_from_hash s i =
    (let k = session_bucket (us_client_addr (ud_sessions s i))
     in s\<lparr>ud_session_buckets := (ud_session_buckets s)(k := remove1 i (ud_session_buckets s k))\<rparr>)"

definition no_ref :: udp_fd_ref where
  "no_ref = \<lparr>rf_fd = -1, rf_session = None\<rparr>"

definition bpf2socks_udp_session_drop :: "udp_state \<Rightarrow> nat \<Rightarrow> udp_state" where
  "bpf2socks_udp_session_drop s i =
    (if \<not> us_used (ud_sessions s i) then s
     else let s1 = bpf2socks_udp_epoll_remove (us_tcp_fd (ud_sessions s i)) s;
              s2 = bpf2socks_udp_epoll_remove (us_udp_fd (ud_sessions s1 i)) s1;
              s3 = (if i < ud_session_cap s2
                    then s2\<lparr>ud_control_refs := (ud_control_refs s2)(i := no_ref), ud_relay_refs := (ud_relay_refs s2)(i := no_ref)\<rparr>
                    else s2);
              s4 = unlink_session_from_hash s3 i;
              s5 = lru_remove s4 i;
              s6 = bpf2socks_udp_handshake_remove s5 i;
              s7 = (if bpf2socks_sockaddr_is_loopback (us_client_addr (ud_sessions s6 i))
                    then s6\<lparr>ud_local_session_count := ud_local_session_count s6 - 1\<rparr> else s6);
              s8 = bpf2socks_udp_session_close s7 i;
              s9 = s8\<lparr>ud_session_count := ud_session_count s8 - 1\<rparr>
          in s9\<lparr>ud_free_sessions := i # ud_free_sessions s9\<rparr>)"

text \<open>\<open>peek\<close> is what \<open>recv\<close> with \<open>MSG_PEEK\<close> gives: an error or the number of bytes.\<close>

definition bpf2socks_udp_control_fd_is_healthy :: "errno + nat \<Rightarrow> bool" where
  "bpf2socks_udp_control_fd_is_healthy peek = (case peek of Inr _ \<Rightarrow> False | Inl e \<Rightarrow> e = EAGAIN \<or> e = EINTR)"

definition bpf2socks_udp_control_event_is_failure :: "errno + nat \<Rightarrow> u32 \<Rightarrow> bool" where
  "bpf2socks_udp_control_event_is_failure peek events =
    (if events AND (EPOLLERR OR EPOLLHUP OR EPOLLRDHUP) \<noteq> 0 then True
     else events AND EPOLLIN \<noteq> 0 \<and> \<not> bpf2socks_udp_control_fd_is_healthy peek)"

definition bpf2socks_udp_session_control_event :: "errno + nat \<Rightarrow> udp_state \<Rightarrow> nat \<Rightarrow> u32 \<Rightarrow> udp_state" where
  "bpf2socks_udp_session_control_event peek s i events =
    (if us_tcp_fd (ud_sessions s i) < 0 then s
     else if bpf2socks_udp_control_event_is_failure peek events then bpf2socks_udp_session_drop s i else s)"

section \<open>A free session\<close>

text \<open>
  The scan of the sessions by age, in up to two passes, and the allocation. A walk along the links
  may run forever on a damaged list, hence the options.
\<close>

definition victim_ok :: "nat \<Rightarrow> udp_session \<Rightarrow> bool" where
  "victim_ok pass x \<longleftrightarrow> \<not> (us_downlink_pending_count x > 0 \<or> us_downlink_waiting_budget x) \<and> \<not> (pass = 0 \<and> us_stage x \<noteq> SESSION_READY)"

definition scan_victim :: "nat \<Rightarrow> udp_state \<Rightarrow> nat option option" where
  "scan_victim pass s =
    map_option fst (find_loop (\<lambda>i. victim_ok pass (ud_sessions s i)) (lk_next (ud_lru s)) (lk_head (ud_lru s)) 0)"

definition find_victim :: "udp_state \<Rightarrow> nat option option" where
  "find_victim s = (case scan_victim 0 s of Some None \<Rightarrow> scan_victim 1 s | r \<Rightarrow> r)"

partial_function (option) alloc_session :: "udp_state \<Rightarrow> (nat option \<times> udp_state) option" where
  "alloc_session s =
    (case ud_free_sessions s of
       i # rest \<Rightarrow> Some (Some i, s\<lparr>ud_free_sessions := rest\<rparr>)
     | [] \<Rightarrow>
         (case find_victim s of
            None \<Rightarrow> None
          | Some None \<Rightarrow> Some (None, s)
          | Some (Some v) \<Rightarrow>
              alloc_session (upd_counters (\<lambda>n. n\<lparr>st_udp_session_evictions := st_udp_session_evictions n + 1\<rparr>)
                (bpf2socks_udp_session_drop s v))))"

section \<open>Expiry\<close>

definition draining :: "udp_session \<Rightarrow> bool" where
  "draining x \<longleftrightarrow> us_downlink_pending_count x > 0 \<or> us_downlink_waiting_budget x"

partial_function (option) bpf2socks_udp_session_expire_handshakes :: "u32 \<Rightarrow> u64 \<Rightarrow> udp_state \<Rightarrow> udp_state option" where
  "bpf2socks_udp_session_expire_handshakes connect_timeout now_ms s =
    (case lk_head (ud_handshakes s) of
       None \<Rightarrow> Some s
     | Some i \<Rightarrow>
         if now_ms \<noteq> 0 \<and> now_ms - us_handshake_started_ms (ud_sessions s i) \<ge> ucast connect_timeout
         then bpf2socks_udp_session_expire_handshakes connect_timeout now_ms
                (bpf2socks_udp_session_drop
                  (upd_counters (\<lambda>n. n\<lparr>st_udp_associate_timeouts := st_udp_associate_timeouts n + 1\<rparr>) s) i)
         else Some s)"

partial_function (option) expire_idle_loop :: "u64 \<Rightarrow> nat option \<Rightarrow> udp_state \<Rightarrow> udp_state option" where
  "expire_idle_loop now_ms p s =
    (case p of
       None \<Rightarrow> Some s
     | Some i \<Rightarrow>
         if \<not> us_used (ud_sessions s i) \<or> now_ms - us_last_seen_ms (ud_sessions s i) < ud_idle_timeout_ms s then Some s
         else if draining (ud_sessions s i) then expire_idle_loop now_ms (lk_next (ud_lru s) i) s
         else expire_idle_loop now_ms (lk_next (ud_lru s) i) (bpf2socks_udp_session_drop s i))"

definition bpf2socks_udp_session_expire_idle :: "u64 \<Rightarrow> udp_state \<Rightarrow> udp_state option" where
  "bpf2socks_udp_session_expire_idle now_ms s =
    (if now_ms = 0 then Some s else expire_idle_loop now_ms (lk_head (ud_lru s)) s)"

definition count_binding_eviction :: "udp_state \<Rightarrow> udp_state" where
  "count_binding_eviction s = upd_counters (\<lambda>n. n\<lparr>st_udp_binding_evictions := st_udp_binding_evictions n + 1\<rparr>) s"

text \<open>\<open>destroy_binding\<close> returns at once when the owner is null.\<close>

definition destroy_owned :: "udp_state \<Rightarrow> nat \<Rightarrow> udp_state" where
  "destroy_owned s b = (case ub_owner (ud_bindings s b) of None \<Rightarrow> s | Some i \<Rightarrow> destroy_binding s i b)"

partial_function (option) binding_expire_loop :: "u64 \<Rightarrow> nat option \<Rightarrow> udp_state \<Rightarrow> udp_state option" where
  "binding_expire_loop now_ms p s =
    (case p of
       None \<Rightarrow> Some s
     | Some b \<Rightarrow>
         if \<not> ub_used (ud_bindings s b) \<or> now_ms - ub_last_seen_ms (ud_bindings s b) < ud_idle_timeout_ms s then Some s
         else if ub_downlink_pending_count (ud_bindings s b) > 0 then binding_expire_loop now_ms (lk_next (ud_binding_lru s) b) s
         else binding_expire_loop now_ms (lk_next (ud_binding_lru s) b)
                (count_binding_eviction (destroy_owned s b)))"

definition bpf2socks_udp_binding_expire_idle :: "u64 \<Rightarrow> udp_state \<Rightarrow> udp_state option" where
  "bpf2socks_udp_binding_expire_idle now_ms s =
    (if now_ms = 0 then Some s else binding_expire_loop now_ms (lk_head (ud_binding_lru s)) s)"

section \<open>Reply sockets\<close>

text \<open>
  What the calls return: the two sockets, and whether \<open>IP_TRANSPARENT\<close> and \<open>bind\<close> succeed. The raw
  socket is opened only when \<open>bind\<close> fails. The answer has the descriptor and whether it is raw.
\<close>

record reply_env =
  re_socket :: "errno + int"
  re_transparent :: "errno option"
  re_bind :: "errno option"
  re_raw_socket :: "errno + int"

definition open_udp_fd :: "int \<Rightarrow> udp_state \<Rightarrow> udp_state" where
  "open_udp_fd fd s = s\<lparr>ud_open := insert fd (ud_open s), ud_epoll := (ud_epoll s)(fd := 0)\<rparr>"

definition create_client_reply_socket :: "reply_env \<Rightarrow> udp_state \<Rightarrow> (errno + int \<times> bool) \<times> udp_state" where
  "create_client_reply_socket env s =
    (case re_socket env of
       Inl e \<Rightarrow> (Inl e, s)
     | Inr fd \<Rightarrow>
         let s1 = open_udp_fd fd s in
         (case re_transparent env of
            Some e \<Rightarrow> (Inl e, close_udp_fd fd s1)
          | None \<Rightarrow>
              (case re_bind env of
                 None \<Rightarrow> (Inr (fd, False), s1)
               | Some e \<Rightarrow>
                   let s2 = close_udp_fd fd s1 in
                   (case re_raw_socket env of
                      Inr raw \<Rightarrow> (Inr (raw, True), open_udp_fd raw s2)
                    | Inl _ \<Rightarrow> (Inl e, s2)))))"

definition bpf2socks_udp_reply_socket_create ::
    "reply_env \<Rightarrow> bpf2socks_sockaddr \<Rightarrow> udp_state \<Rightarrow> (errno + int \<times> bool) \<times> udp_state" where
  "bpf2socks_udp_reply_socket_create env original s =
    (if sa_family original = AF_INET \<or> sa_family original = AF_INET6 then create_client_reply_socket env s
     else (Inl EAFNOSUPPORT, s))"

section \<open>Creating and finding bindings\<close>

text \<open>The binding to evict: of one session, or of any session when none is given.\<close>

definition evict_binding :: "udp_state \<Rightarrow> nat option \<Rightarrow> ((errno + unit) \<times> udp_state) option" where
  "evict_binding s session =
    (let l = (case session of Some i \<Rightarrow> session_links s i | None \<Rightarrow> ud_binding_lru s) in
     case find_loop (\<lambda>b. \<not> ub_downlink_pending_count (ud_bindings s b) > 0) (lk_next l) (lk_head l) 0 of
       None \<Rightarrow> None
     | Some (None, _) \<Rightarrow> Some (Inl ENOMEM, s)
     | Some (Some b, _) \<Rightarrow>
         (case (case session of Some i \<Rightarrow> Some i | None \<Rightarrow> ub_owner (ud_bindings s b)) of
            None \<Rightarrow> Some (Inl ENOMEM, s)
          | Some i \<Rightarrow> Some (Inr (), count_binding_eviction (destroy_binding s i b))))"

partial_function (option) ensure_binding_capacity :: "udp_state \<Rightarrow> ((errno + unit) \<times> udp_state) option" where
  "ensure_binding_capacity s =
    (if ud_binding_count s < ud_binding_cap s then Some (Inr (), s)
     else case evict_binding s None of
       None \<Rightarrow> None
     | Some (Inl e, s1) \<Rightarrow> Some (Inl e, s1)
     | Some (Inr _, s1) \<Rightarrow> ensure_binding_capacity s1)"

text \<open>The lookup compares owner, family, port and the address bytes of the family.\<close>

definition same_binding :: "udp_binding \<Rightarrow> nat \<Rightarrow> bpf2socks_sockaddr \<Rightarrow> bool" where
  "same_binding x i original \<longleftrightarrow> ub_owner x = Some i \<and> sa_family (ub_original_dst x) = sa_family original \<and>
     sa_port (ub_original_dst x) = sa_port original \<and>
     take (address_length original) (sa_addr (ub_original_dst x)) = take (address_length original) (sa_addr original)"

definition bpf2socks_udp_binding_find :: "udp_state \<Rightarrow> nat \<Rightarrow> bpf2socks_sockaddr \<Rightarrow> nat option" where
  "bpf2socks_udp_binding_find s i original =
    (if \<not> valid_original original then None
     else List.find (\<lambda>b. ub_used (ud_bindings s b) \<and> same_binding (ud_bindings s b) i original) (ud_binding_index s))"

definition fill_binding :: "u64 \<Rightarrow> bpf2socks_sockaddr \<Rightarrow> bytes \<Rightarrow> bool \<Rightarrow> udp_binding \<Rightarrow> udp_binding" where
  "fill_binding now_ms original token connected x =
    x\<lparr>ub_original_dst := original, ub_token_addr := copy_prefix (min 16 (length token)) token (ub_token_addr x),
      ub_last_seen_ms := now_ms, ub_connected_udp_token := connected\<rparr>"

text \<open>
  Putting the binding that was allocated and filled into the tables. The index refuses a destination
  that is neither IPv4 nor IPv6.
\<close>

definition link_binding :: "bool \<Rightarrow> udp_state \<Rightarrow> nat \<Rightarrow> nat \<Rightarrow> nat option \<times> udp_state" where
  "link_binding fullcone s i b =
    (let s1 = upd_binding b (\<lambda>x. x\<lparr>ub_used := True, ub_owner := Some i\<rparr>) s in
     if \<not> valid_original (ub_original_dst (ud_bindings s1 b)) then (None, release_binding s1 b)
     else let s2 = s1\<lparr>ud_binding_index := b # ud_binding_index s1\<rparr>;
              s3 = upd_session i (\<lambda>x. x\<lparr>us_bindings := b # us_bindings x\<rparr>) s2;
              s4 = binding_session_lru_add_tail s3 i b;
              s5 = binding_global_lru_add_tail s4 b;
              s6 = upd_session i (\<lambda>x. x\<lparr>us_binding_count := us_binding_count x + 1\<rparr>) s5;
              s7 = s6\<lparr>ud_binding_count := ud_binding_count s6 + 1\<rparr>
          in (Some b, upd_counters (\<lambda>n. n\<lparr>st_udp_reply_binding_creates := st_udp_reply_binding_creates n + 1,
                st_udp_fullcone_binding_creates := st_udp_fullcone_binding_creates n + (if fullcone then 1 else 0)\<rparr>) s7))"

definition create_binding ::
    "reply_env \<Rightarrow> u64 \<Rightarrow> udp_state \<Rightarrow> nat \<Rightarrow> bpf2socks_sockaddr \<Rightarrow> bytes \<Rightarrow> bool \<Rightarrow> bool \<Rightarrow> bool \<Rightarrow> (nat option \<times> udp_state) option" where
  "create_binding env now_ms s i original token connected needs_original_reply_socket fullcone =
    (case ensure_binding_capacity s of
       None \<Rightarrow> None
     | Some (Inl _, s1) \<Rightarrow> Some (None, s1)
     | Some (Inr _, s1) \<Rightarrow>
         (case alloc_binding s1 of
            (None, s2) \<Rightarrow> Some (None, s2)
          | (Some b, s2) \<Rightarrow>
              let s3 = upd_binding b (fill_binding now_ms original token connected) s2 in
              if needs_original_reply_socket then
                (case bpf2socks_udp_reply_socket_create env original s3 of
                   (Inl _, s4) \<Rightarrow> Some (None, release_binding s4 b)
                 | (Inr (fd, raw), s4) \<Rightarrow> Some (link_binding fullcone (bpf2socks_udp_binding_set_reply s4 b fd raw) i b))
              else Some (link_binding fullcone s3 i b)))"

record udp_client_packet =
  cp_client_addr :: sockaddr_storage
  cp_token_family :: int
  cp_token_addr :: bytes
  cp_has_original_dst :: bool
  cp_original_from_socket :: bool
  cp_connected_udp_token :: bool
  cp_token_lookup_mode :: bpf2socks_token_lookup_mode
  cp_original_dst :: bpf2socks_sockaddr
  cp_payload :: bytes

definition bpf2socks_udp_packet_needs_original_reply_socket :: "udp_client_packet \<Rightarrow> bool" where
  "bpf2socks_udp_packet_needs_original_reply_socket p =
    (if cp_connected_udp_token p then False
     else if cp_token_lookup_mode p = LOOKUP_ZERO_CLIENT then False
     else sa_family (cp_original_dst p) = AF_INET \<or> sa_family (cp_original_dst p) = AF_INET6)"

definition bpf2socks_udp_binding_create_for_packet ::
    "reply_env \<Rightarrow> u64 \<Rightarrow> udp_state \<Rightarrow> nat \<Rightarrow> udp_client_packet \<Rightarrow> (nat option \<times> udp_state) option" where
  "bpf2socks_udp_binding_create_for_packet env now_ms s i p =
    create_binding env now_ms s i (cp_original_dst p) (take (if cp_token_family p = AF_INET6 then 16 else 4) (cp_token_addr p))
      (cp_connected_udp_token p)
      (\<not> cp_connected_udp_token p \<and> (cp_original_from_socket p \<or> bpf2socks_udp_packet_needs_original_reply_socket p)) False"

definition bpf2socks_udp_binding_create_fullcone ::
    "reply_env \<Rightarrow> u64 \<Rightarrow> udp_state \<Rightarrow> nat \<Rightarrow> bpf2socks_sockaddr \<Rightarrow> (nat option \<times> udp_state) option" where
  "bpf2socks_udp_binding_create_fullcone env now_ms s i remote =
    create_binding env now_ms s i remote [] False (sa_family remote = AF_INET \<or> sa_family remote = AF_INET6) True"

definition bpf2socks_udp_binding_has_token :: "udp_binding \<Rightarrow> bool" where
  "bpf2socks_udp_binding_has_token x \<longleftrightarrow> ub_token_addr x \<noteq> zero_bytes 16"

definition better_binding :: "udp_state \<Rightarrow> u16 \<Rightarrow> nat \<Rightarrow> nat option \<Rightarrow> nat option" where
  "better_binding s port b best =
    (let x = ud_bindings s b in
     if \<not> ub_used x \<or> sa_port (ub_original_dst x) \<noteq> port \<or> \<not> bpf2socks_udp_binding_has_token x then best
     else case best of
       None \<Rightarrow> Some b
     | Some c \<Rightarrow> if ub_last_seen_ms x > ub_last_seen_ms (ud_bindings s c) then Some b else best)"

definition bpf2socks_udp_binding_find_by_domain_port :: "udp_state \<Rightarrow> nat \<Rightarrow> u16 \<Rightarrow> nat option" where
  "bpf2socks_udp_binding_find_by_domain_port s i port = fold (better_binding s port) (us_bindings (ud_sessions s i)) None"

end
