(* ===== verification/Udp_Release.thy ===== *)
theory Udp_Release
  imports Udp_Session
begin

text \<open>
  \<^verbatim>\<open>bridge/udp_release.c\<close> and the reading half of \<^verbatim>\<open>bridge/udp_destroy_events.c\<close>: the kernel reports every
  UDP socket that is destroyed, and the sessions of local clients whose port no socket holds any
  more are released at once. The token map is a parameter as in \<open>Original_Dst\<close>; the netlink socket
  gives a list of read results, and the query for a port is a function.
\<close>

section \<open>The bitmap of ports\<close>

definition PORT_BITMAP_BYTES :: nat where "PORT_BITMAP_BYTES = 8192"

definition bpf2socks_udp_port_bitmap_has :: "bytes \<Rightarrow> u16 \<Rightarrow> bool" where
  "bpf2socks_udp_port_bitmap_has bitmap port \<longleftrightarrow> bitmap ! unat (drop_bit 3 port) AND push_bit (unat (port AND 7)) 1 \<noteq> 0"

definition bpf2socks_udp_port_bitmap_set :: "bytes \<Rightarrow> u16 \<Rightarrow> bytes" where
  "bpf2socks_udp_port_bitmap_set bitmap port =
    (let k = unat (drop_bit 3 port) in bitmap[k := bitmap ! k OR push_bit (unat (port AND 7)) 1])"

section \<open>Notifications\<close>

text \<open>
  A read gives an error or the messages of the datagram: its type, whether it is long enough for an
  \<open>inet_diag_msg\<close>, and the local port. The loop ends at the first error other than an interruption or
  an overflow of the queue; a list that is too short stands for a drain that does not end.
\<close>

record diag_message =
  dm_by_family :: bool
  dm_complete :: bool
  dm_sport :: u16

definition drain_message :: "diag_message \<Rightarrow> bytes \<times> nat \<Rightarrow> bytes \<times> nat" where
  "drain_message m r =
    (if \<not> dm_by_family m \<or> \<not> dm_complete m then r
     else (bpf2socks_udp_port_bitmap_set (fst r) (dm_sport m), snd r + 1))"

fun bpf2socks_udp_destroy_events_drain ::
    "(errno + diag_message list) list \<Rightarrow> bytes \<Rightarrow> nat \<Rightarrow> bool \<Rightarrow> (nat \<times> bytes \<times> bool) option" where
  "bpf2socks_udp_destroy_events_drain [] bitmap count lost = None"
| "bpf2socks_udp_destroy_events_drain (Inl e # rs) bitmap count lost =
     (if e = EINTR then bpf2socks_udp_destroy_events_drain rs bitmap count lost
      else if e = ENOBUFS then bpf2socks_udp_destroy_events_drain rs bitmap count True
      else Some (count, bitmap, lost))"
| "bpf2socks_udp_destroy_events_drain (Inr ms # rs) bitmap count lost =
     (case fold drain_message ms (bitmap, count) of
        (bitmap', count') \<Rightarrow> bpf2socks_udp_destroy_events_drain rs bitmap' count' lost)"

section \<open>Releasing\<close>

definition RELEASE_RETRY_MILLISECONDS :: u64 where "RELEASE_RETRY_MILLISECONDS = 100"
definition RELEASE_RECENT_MILLISECONDS :: u64 where "RELEASE_RECENT_MILLISECONDS = 2000"

definition session_client_is_local :: "udp_session \<Rightarrow> bool" where
  "session_client_is_local x = bpf2socks_sockaddr_is_loopback (us_client_addr x)"

definition session_client_port :: "udp_session \<Rightarrow> u16" where
  "session_client_port x = ss_port (us_client_addr x)"

definition fill_client_less_udp_token_key :: "int \<Rightarrow> bytes \<Rightarrow> u16 \<Rightarrow> bpf2socks_token_key" where
  "fill_client_less_udp_token_key family token_addr listen_port =
    \<lparr>tk_family = family, tk_protocol = PROTO_UDP, tk_token_port = listen_port,
     tk_token_addr = copy_prefix (if family = AF_INET6 then 16 else 4) token_addr (zero_bytes 16),
     tk_client_port = 0, tk_client_addr = zero_bytes 16\<rparr>"

definition bpf2socks_udp_token_delete_closed_client :: "'m token_ops \<Rightarrow> u16 \<Rightarrow> udp_state \<Rightarrow> nat \<Rightarrow> 'm \<Rightarrow> 'm" where
  "bpf2socks_udp_token_delete_closed_client ops listen_port s i m =
    (let family = ss_family (us_client_addr (ud_sessions s i)) in
     fold (\<lambda>b m. let x = ud_bindings s b in
             if \<not> ub_used x \<or> \<not> bpf2socks_udp_binding_has_token x then m
             else snd (to_delete ops m (fill_client_less_udp_token_key family (ub_token_addr x) listen_port)))
       (us_bindings (ud_sessions s i)) m)"

text \<open>The walks along the sessions by age stop at a session that is not in use.\<close>

partial_function (option) flag_local_loop :: "nat option \<Rightarrow> udp_state \<Rightarrow> udp_state option" where
  "flag_local_loop p s =
    (case p of
       None \<Rightarrow> Some s
     | Some i \<Rightarrow>
         if \<not> us_used (ud_sessions s i) then Some s
         else flag_local_loop (lk_next (ud_lru s) i)
           (if session_client_is_local (ud_sessions s i)
            then s\<lparr>ud_released_ports := bpf2socks_udp_port_bitmap_set (ud_released_ports s) (session_client_port (ud_sessions s i))\<rparr>
            else s))"

definition flag_all_local_sessions :: "udp_state \<Rightarrow> udp_state option" where
  "flag_all_local_sessions s = flag_local_loop (lk_head (ud_lru s)) s"

definition PORT_MEMO_SLOTS :: nat where "PORT_MEMO_SLOTS = 256"

text \<open>The memo of one pass: 1 for a port that some socket holds, 0 for none, -1 for a failed query.\<close>

definition release_port_has_socket :: "(u16 \<Rightarrow> int) \<Rightarrow> (u16 \<times> int) list \<Rightarrow> u16 \<Rightarrow> int \<times> (u16 \<times> int) list" where
  "release_port_has_socket query memo port =
    (case map_of memo port of
       Some r \<Rightarrow> (r, memo)
     | None \<Rightarrow> (query port, if length memo < PORT_MEMO_SLOTS then memo @ [(port, query port)] else memo))"

definition schedule_retry :: "u64 \<Rightarrow> nat \<Rightarrow> udp_state \<Rightarrow> udp_state" where
  "schedule_retry now_ms i s =
    (let s1 = upd_session i (\<lambda>x. x\<lparr>us_release_retry_ms := now_ms + RELEASE_RETRY_MILLISECONDS\<rparr>) s
     in s1\<lparr>ud_release_retry_due_ms := bpf2socks_deadline_note (ud_release_retry_due_ms s1) (now_ms + RELEASE_RETRY_MILLISECONDS)\<rparr>)"

partial_function (option) release_flagged_loop ::
    "'m token_ops \<Rightarrow> u16 \<Rightarrow> (u16 \<Rightarrow> int) \<Rightarrow> u64 \<Rightarrow> (u16 \<times> int) list \<Rightarrow> nat option \<Rightarrow> udp_state \<times> 'm \<Rightarrow> (udp_state \<times> 'm) option" where
  "release_flagged_loop ops listen_port query now_ms memo p sm =
    (case p of
       None \<Rightarrow> Some sm
     | Some i \<Rightarrow>
         let s = fst sm; x = ud_sessions s i; nx = lk_next (ud_lru s) i in
         if \<not> us_used x then Some sm
         else if \<not> session_client_is_local x \<or> \<not> bpf2socks_udp_port_bitmap_has (ud_released_ports s) (session_client_port x)
         then release_flagged_loop ops listen_port query now_ms memo nx sm
         else if draining x
         then release_flagged_loop ops listen_port query now_ms memo nx (schedule_retry now_ms i s, snd sm)
         else case release_port_has_socket query memo (session_client_port x) of
           (r, memo') \<Rightarrow>
             if r = 0
             then release_flagged_loop ops listen_port query now_ms memo' nx
               (upd_counters (\<lambda>n. n\<lparr>st_udp_closed_client_releases := st_udp_closed_client_releases n + 1\<rparr>) (bpf2socks_udp_session_drop s i),
                bpf2socks_udp_token_delete_closed_client ops listen_port s i (snd sm))
             else release_flagged_loop ops listen_port query now_ms memo' nx sm)"

definition clear_released_ports :: "udp_state \<Rightarrow> udp_state" where
  "clear_released_ports s = s\<lparr>ud_released_ports := zero_bytes PORT_BITMAP_BYTES\<rparr>"

definition release_flagged_sessions ::
    "'m token_ops \<Rightarrow> u16 \<Rightarrow> (u16 \<Rightarrow> int) \<Rightarrow> u64 \<Rightarrow> udp_state \<times> 'm \<Rightarrow> (udp_state \<times> 'm) option" where
  "release_flagged_sessions ops listen_port query now_ms sm =
    map_option (\<lambda>(s, m). (clear_released_ports s, m))
      (release_flagged_loop ops listen_port query now_ms [] (lk_head (ud_lru (fst sm))) sm)"

text \<open>The words of the bitmap are read in order, each bit of a word in order: every port that is set.\<close>

definition stamp_destroyed_ports :: "u64 \<Rightarrow> udp_state \<Rightarrow> udp_state" where
  "stamp_destroyed_ports now_ms s =
    (let stamp = (if (ucast now_ms :: u32) = 0 then 1 else ucast now_ms)
     in s\<lparr>ud_port_destroyed_ms := (\<lambda>p. if bpf2socks_udp_port_bitmap_has (ud_released_ports s) p then stamp else ud_port_destroyed_ms s p)\<rparr>)"

definition bpf2socks_udp_release_handle_events ::
    "'m token_ops \<Rightarrow> u16 \<Rightarrow> (u16 \<Rightarrow> int) \<Rightarrow> (errno + diag_message list) list \<Rightarrow> u64 \<Rightarrow> udp_state \<times> 'm \<Rightarrow> (udp_state \<times> 'm) option" where
  "bpf2socks_udp_release_handle_events ops listen_port query reads now_ms sm =
    (case bpf2socks_udp_destroy_events_drain reads (ud_released_ports (fst sm)) 0 False of
       None \<Rightarrow> None
     | Some (count, bitmap, lost) \<Rightarrow>
         let s1 = (fst sm)\<lparr>ud_released_ports := bitmap\<rparr> in
         if count = 0 \<and> \<not> lost then Some (s1, snd sm)
         else let s2 = (if count > 0 then stamp_destroyed_ports now_ms s1 else s1) in
           case (if lost then map_option (\<lambda>s. s\<lparr>ud_check_new_sessions_until_ms := now_ms + RELEASE_RECENT_MILLISECONDS\<rparr>)
                               (flag_all_local_sessions s2)
                 else Some s2) of
             None \<Rightarrow> None
           | Some s3 \<Rightarrow> release_flagged_sessions ops listen_port query now_ms (s3, snd sm))"

definition bpf2socks_udp_release_arm ::
    "'m token_ops \<Rightarrow> u16 \<Rightarrow> (u16 \<Rightarrow> int) \<Rightarrow> (errno + diag_message list) list \<Rightarrow> u64 \<Rightarrow> udp_state \<times> 'm \<Rightarrow> (udp_state \<times> 'm) option" where
  "bpf2socks_udp_release_arm ops listen_port query reads now_ms sm =
    bpf2socks_udp_release_handle_events ops listen_port query reads now_ms ((fst sm)\<lparr>ud_destroy_events_armed := True\<rparr>, snd sm)"

definition bpf2socks_udp_release_disarm_if_idle :: "errno option \<Rightarrow> udp_state \<Rightarrow> udp_state" where
  "bpf2socks_udp_release_disarm_if_idle ctl s =
    (if \<not> ud_destroy_events_armed s \<or> ud_local_session_count s > 0 then s
     else if ctl = None then s\<lparr>ud_destroy_events_armed := False\<rparr> else s)"

definition bpf2socks_udp_release_note_new_session :: "udp_state \<Rightarrow> nat \<Rightarrow> u64 \<Rightarrow> udp_state" where
  "bpf2socks_udp_release_note_new_session s i now_ms =
    (if \<not> session_client_is_local (ud_sessions s i) then s
     else let destroyed_ms = ud_port_destroyed_ms s (session_client_port (ud_sessions s i));
              recent = (destroyed_ms \<noteq> 0 \<and> ucast now_ms - destroyed_ms < ucast RELEASE_RECENT_MILLISECONDS)
          in if \<not> recent \<and> now_ms \<ge> ud_check_new_sessions_until_ms s then s
             else schedule_retry now_ms i s)"

partial_function (option) release_retry_loop :: "u64 \<Rightarrow> nat option \<Rightarrow> bool \<Rightarrow> udp_state \<Rightarrow> (bool \<times> udp_state) option" where
  "release_retry_loop now_ms p flagged s =
    (case p of
       None \<Rightarrow> Some (flagged, s)
     | Some i \<Rightarrow>
         let x = ud_sessions s i; nx = lk_next (ud_lru s) i in
         if \<not> us_used x then Some (flagged, s)
         else if us_release_retry_ms x = 0 then release_retry_loop now_ms nx flagged s
         else if us_release_retry_ms x > now_ms
         then release_retry_loop now_ms nx flagged
                (s\<lparr>ud_release_retry_due_ms := bpf2socks_deadline_note (ud_release_retry_due_ms s) (us_release_retry_ms x)\<rparr>)
         else release_retry_loop now_ms nx True
                (upd_session i (\<lambda>x. x\<lparr>us_release_retry_ms := 0\<rparr>)
                  (s\<lparr>ud_released_ports := bpf2socks_udp_port_bitmap_set (ud_released_ports s) (session_client_port x)\<rparr>)))"

definition bpf2socks_udp_release_retry ::
    "'m token_ops \<Rightarrow> u16 \<Rightarrow> (u16 \<Rightarrow> int) \<Rightarrow> u64 \<Rightarrow> udp_state \<times> 'm \<Rightarrow> (udp_state \<times> 'm) option" where
  "bpf2socks_udp_release_retry ops listen_port query now_ms sm =
    (if now_ms = 0 \<or> now_ms < ud_release_retry_due_ms (fst sm) then Some sm
     else case release_retry_loop now_ms (lk_head (ud_lru (fst sm))) False ((fst sm)\<lparr>ud_release_retry_due_ms := NO_DEADLINE\<rparr>) of
       None \<Rightarrow> None
     | Some (flagged, s) \<Rightarrow>
         if flagged then release_flagged_sessions ops listen_port query now_ms (s, snd sm) else Some (s, snd sm))"

end
