(* ===== verification/Udp_Associate.thy ===== *)
theory Udp_Associate
  imports Udp_Release Socks5
begin

text \<open>
  \<^verbatim>\<open>bridge/udp_associate.c\<close>: the SOCKS5 UDP ASSOCIATE handshake of a session, the claim of its relay
  port, the datagrams that waited for it, and \<open>bpf2socks_udp_session_get\<close> of \<^verbatim>\<open>bridge/udp_session.c\<close>,
  which starts it. A loop around a system call takes the list of its results and answers \<open>None\<close>
  when the list is too short. A status is \<open>Fail\<close> for -1, \<open>More\<close> for 0 and \<open>Done\<close> for 1.
\<close>

section \<open>The bytes of the handshake\<close>

definition bpf2socks_udp_associate_build_request :: "udp_session \<Rightarrow> udp_session option" where
  "bpf2socks_udp_associate_build_request x =
    (let hello = bpf2socks_socks5_build_hello 32;
         request = bpf2socks_socks5_build_udp_associate_request (32 - length hello)
     in if hello = [] \<or> request = [] then None
        else Some (x\<lparr>us_associate_write_buf := hello @ request, us_associate_write_offset := 0\<rparr>))"

text \<open>The results of \<open>socket\<close> and of \<open>connect\<close>, \<open>None\<close> for a connection at once.\<close>

definition bpf2socks_udp_associate_open ::
    "errno + int \<Rightarrow> errno option \<Rightarrow> udp_state \<Rightarrow> (errno + int \<times> bpf2socks_udp_session_stage) \<times> udp_state" where
  "bpf2socks_udp_associate_open sock conn s =
    (case sock of
       Inl e \<Rightarrow> (Inl e, s)
     | Inr fd \<Rightarrow>
         let s1 = open_udp_fd fd s in
         (case conn of
            None \<Rightarrow> (Inr (fd, SESSION_ASSOC_WRITE), s1)
          | Some e \<Rightarrow> if e = EINPROGRESS then (Inr (fd, SESSION_CONNECTING), s1) else (Inl e, close_udp_fd fd s1)))"

text \<open>\<open>getsockopt\<close> gives the pending error of the socket, or fails.\<close>

definition finish_udp_associate_connect :: "errno option \<Rightarrow> udp_session \<Rightarrow> udp_session option" where
  "finish_udp_associate_connect so_error x =
    (if so_error \<noteq> None then None else Some (x\<lparr>us_stage := SESSION_ASSOC_WRITE\<rparr>))"

fun flush_udp_associate_write :: "(errno + nat) list \<Rightarrow> udp_session \<Rightarrow> (unit progress \<times> udp_session) option" where
  "flush_udp_associate_write results x =
    (if length (us_associate_write_buf x) \<le> us_associate_write_offset x
     then Some (Done (), x\<lparr>us_stage := SESSION_ASSOC_READ_HELLO, us_associate_read_buf := [], us_associate_read_expected := 2\<rparr>)
     else case results of
       [] \<Rightarrow> None
     | Inl e # rs \<Rightarrow>
         if e = EINTR then flush_udp_associate_write rs x
         else if e = EAGAIN then Some (More, x)
         else Some (Fail, x)
     | Inr n # rs \<Rightarrow>
         if n = 0 then Some (Fail, x)
         else flush_udp_associate_write rs (x\<lparr>us_associate_write_offset := us_associate_write_offset x + n\<rparr>))"

declare flush_udp_associate_write.simps [simp del]

definition ASSOCIATE_READ_CAP :: nat where "ASSOCIATE_READ_CAP = 4 + 255 + 2"

text \<open>
  The new target after a read: \<open>None\<close> for a reply that is refused. \<open>recv\<close> is asked for at most the
  missing bytes; the model takes that many of what the environment offers.
\<close>

definition next_expected :: "udp_session \<Rightarrow> nat option" where
  "next_expected x =
    (if us_stage x \<noteq> SESSION_ASSOC_READ_RESPONSE then Some (us_associate_read_expected x)
     else case bpf2socks_socks5_reply_length (us_associate_read_buf x) of
       Fail \<Rightarrow> None
     | Done n \<Rightarrow> if ASSOCIATE_READ_CAP < n then None else Some n
     | More \<Rightarrow> Some (if 4 \<le> length (us_associate_read_buf x) then 5 else us_associate_read_expected x))"

fun read_udp_associate_bytes :: "(errno + bytes) list \<Rightarrow> udp_session \<Rightarrow> (unit progress \<times> udp_session) option" where
  "read_udp_associate_bytes results x =
    (if us_associate_read_expected x \<le> length (us_associate_read_buf x) then Some (Done (), x)
     else case results of
       [] \<Rightarrow> None
     | Inl e # rs \<Rightarrow>
         if e = EINTR then read_udp_associate_bytes rs x
         else if e = EAGAIN then Some (More, x)
         else Some (Fail, x)
     | Inr bs # rs \<Rightarrow>
         if bs = [] then Some (Fail, x)
         else let x1 = x\<lparr>us_associate_read_buf := us_associate_read_buf x @
                           take (us_associate_read_expected x - length (us_associate_read_buf x)) bs\<rparr> in
           (case next_expected x1 of
              None \<Rightarrow> Some (Fail, x1)
            | Some n \<Rightarrow> read_udp_associate_bytes rs (x1\<lparr>us_associate_read_expected := n\<rparr>)))"

declare read_udp_associate_bytes.simps [simp del]

definition read_udp_associate_hello :: "(errno + bytes) list \<Rightarrow> udp_session \<Rightarrow> (unit progress \<times> udp_session) option" where
  "read_udp_associate_hello results x =
    (case read_udp_associate_bytes results x of
       None \<Rightarrow> None
     | Some (Done _, x1) \<Rightarrow>
         if us_associate_read_buf x1 ! 0 \<noteq> 0x05 \<or> us_associate_read_buf x1 ! 1 \<noteq> 0x00 then Some (Fail, x1)
         else Some (Done (), x1\<lparr>us_stage := SESSION_ASSOC_READ_RESPONSE, us_associate_read_buf := [], us_associate_read_expected := 4\<rparr>)
     | Some r \<Rightarrow> Some r)"

section \<open>Sending to the relay\<close>

definition udp_send_errno_is_transient :: "errno \<Rightarrow> bool" where
  "udp_send_errno_is_transient e \<longleftrightarrow> e = EAGAIN \<or> e = ENOBUFS \<or> e = ENOMEM"

definition bpf2socks_udp_relay_destination :: "sockaddr_storage option \<Rightarrow> bool \<Rightarrow> sockaddr_storage option" where
  "bpf2socks_udp_relay_destination relay_addr relay_connected = (if relay_connected then None else relay_addr)"

text \<open>
  The loop of \<open>bpf2socks_udp_relay_send_batch\<close> over the messages that are left: what each call of
  \<open>sendmmsg\<close> answers is given. The result has the messages sent, how many were dropped as too large
  and how many because the buffer was full; \<open>Inl\<close> when the relay socket failed.
\<close>

fun relay_send_loop ::
    "(errno + nat) list \<Rightarrow> bpf2socks_udp_msg list \<Rightarrow> bpf2socks_udp_msg list \<Rightarrow> nat \<Rightarrow> (errno + bpf2socks_udp_msg list \<times> nat \<times> nat) option" where
  "relay_send_loop results [] sent oversized = Some (Inr (sent, oversized, 0))"
| "relay_send_loop [] (m # ms) sent oversized = None"
| "relay_send_loop (r # rs) (m # ms) sent oversized =
    (case r of
       Inr n \<Rightarrow>
         if n = 0 then Some (Inl EIO)
         else relay_send_loop rs (drop n (m # ms)) (sent @ take n (m # ms)) oversized
     | Inl e \<Rightarrow>
         if e = EINTR then relay_send_loop rs (m # ms) sent oversized
         else if e = EMSGSIZE then relay_send_loop rs ms sent (oversized + 1)
         else if udp_send_errno_is_transient e then Some (Inr (sent, oversized, length (m # ms)))
         else Some (Inl e))"

definition bpf2socks_udp_relay_send_batch ::
    "(errno + nat) list \<Rightarrow> bpf2socks_udp_msg list \<Rightarrow> udp_state \<Rightarrow> ((errno + bpf2socks_udp_msg list) \<times> udp_state) option" where
  "bpf2socks_udp_relay_send_batch results messages s =
    (case relay_send_loop results messages [] 0 of
       None \<Rightarrow> None
     | Some (Inl e) \<Rightarrow> Some (Inl e, s)
     | Some (Inr (sent, oversized, busy)) \<Rightarrow>
         Some (Inr sent, upd_counters (\<lambda>n. n\<lparr>st_udp_drops_send_busy := st_udp_drops_send_busy n + of_nat busy,
           st_udp_drops_oversized := st_udp_drops_oversized n + of_nat oversized,
           st_udp_packets_to_upstream := st_udp_packets_to_upstream n + of_nat (length sent)\<rparr>) s))"

definition UDP_MAX_BATCH :: nat where "UDP_MAX_BATCH = 64"

definition pending_message :: "udp_pending_packet \<Rightarrow> bpf2socks_udp_msg" where
  "pending_message p = \<lparr>um_addr = pp_original_dst p, um_payload = pp_payload p\<rparr>"

text \<open>One element of \<open>batches\<close> per pass: the results of its sends and the time after it.\<close>

fun flush_session_pending_packets ::
    "((errno + nat) list \<times> u64) list \<Rightarrow> udp_state \<Rightarrow> nat \<Rightarrow> ((errno + unit) \<times> udp_state) option" where
  "flush_session_pending_packets batches s i =
    (let pending = us_pending (ud_sessions s i) in
     if pending = [] then Some (Inr (), s)
     else case batches of
       [] \<Rightarrow> None
     | (results, now_ms) # more_batches \<Rightarrow>
         let packets = take UDP_MAX_BATCH pending in
         (case bpf2socks_udp_relay_send_batch results (map pending_message packets) s of
            None \<Rightarrow> None
          | Some (Inl e, s1) \<Rightarrow> Some (Inl e, s1)
          | Some (Inr _, s1) \<Rightarrow>
              let s2 = bpf2socks_udp_lru_touch (upd_session i (\<lambda>x. x\<lparr>us_last_seen_ms := now_ms\<rparr>) s1) i;
                  s3 = fold (\<lambda>p s. bpf2socks_udp_session_release_pending s p) packets
                    (upd_session i (\<lambda>x. x\<lparr>us_pending := drop UDP_MAX_BATCH (us_pending x)\<rparr>) s2)
              in flush_session_pending_packets more_batches s3 i))"

declare flush_session_pending_packets.simps [simp del]

section \<open>The association\<close>

text \<open>What the calls of one step of the handshake return.\<close>

record associate_env =
  as_now :: u64
  as_so_error :: "errno option"
  as_sends :: "(errno + nat) list"
  as_hello_reads :: "(errno + bytes) list"
  as_reads :: "(errno + bytes) list"
  as_udp_socket :: "errno + int"
  as_relay_connect :: bool
  as_tcp_socket :: "errno + int"
  as_connect :: "errno option"
  as_ctl1 :: "errno option"
  as_ctl2 :: "errno option"
  as_ctl3 :: "errno option"
  as_flush :: "((errno + nat) list \<times> u64) list"

type_synonym resolver = "bytes \<Rightarrow> u16 \<Rightarrow> (sockaddr_storage \<times> nat) option"

definition create_udp_associate_relay_socket ::
    "resolver \<Rightarrow> sockaddr_storage \<Rightarrow> associate_env \<Rightarrow> udp_state \<Rightarrow> nat \<Rightarrow> (errno + unit) \<times> udp_state" where
  "create_udp_associate_relay_socket resolve socks env s i =
    (let buf = us_associate_read_buf (ud_sessions s i) in
     case bpf2socks_socks5_parse_bound_addr resolve buf of
       Done (relay, consumed) \<Rightarrow>
         if consumed \<noteq> length buf then (Inl EPROTO, s)
         else let relay_addr = bpf2socks_socks5_replace_unspecified_relay socks relay in
           (case as_udp_socket env of
              Inl e \<Rightarrow> (Inl e, s)
            | Inr fd \<Rightarrow>
                (Inr (), upd_session i (\<lambda>x. x\<lparr>us_udp_fd := fd, us_relay_addr := Some relay_addr, us_relay_connected := as_relay_connect env\<rparr>)
                   (open_udp_fd fd s)))
     | _ \<Rightarrow> (Inl EPROTO, s))"

definition bpf2socks_udp_relay_port_needs_claim :: "sockaddr_storage \<Rightarrow> u16 \<Rightarrow> bool" where
  "bpf2socks_udp_relay_port_needs_claim socks relay_port \<longleftrightarrow> relay_port \<noteq> 0 \<and> relay_port \<noteq> ss_port socks"

definition RELAY_PORT_MAX_RETRIES :: nat where "RELAY_PORT_MAX_RETRIES = 3"

definition restart_udp_associate :: "associate_env \<Rightarrow> udp_state \<Rightarrow> nat \<Rightarrow> (errno + unit) \<times> udp_state" where
  "restart_udp_associate env s i =
    (let s1 = bpf2socks_udp_epoll_remove (us_tcp_fd (ud_sessions s i)) s;
         s2 = close_udp_fd (us_udp_fd (ud_sessions s i)) (close_udp_fd (us_tcp_fd (ud_sessions s i)) s1);
         s3 = upd_session i (\<lambda>x. x\<lparr>us_tcp_fd := -1, us_udp_fd := -1, us_relay_addr := None, us_relay_connected := False\<rparr>) s2
     in case bpf2socks_udp_associate_build_request (ud_sessions s3 i) of
          None \<Rightarrow> (Inl EINVAL, s3)
        | Some x \<Rightarrow>
            (case bpf2socks_udp_associate_open (as_tcp_socket env) (as_connect env) (upd_session i (\<lambda>_. x) s3) of
               (Inl e, s4) \<Rightarrow> (Inl e, s4)
             | (Inr (fd, stage), s4) \<Rightarrow>
                 let s5 = upd_session i (\<lambda>x. x\<lparr>us_tcp_fd := fd, us_stage := stage\<rparr>) s4;
                     s6 = bpf2socks_udp_handshake_add_tail (bpf2socks_udp_handshake_remove s5 i) i (as_now env)
                 in (case bpf2socks_udp_epoll_add_session_control (as_ctl3 env) (EPOLLIN OR EPOLLOUT) s6 i of
                       (None, s7) \<Rightarrow> (Inr (), s7) | (Some e, s7) \<Rightarrow> (Inl e, s7))))"

definition relay_established :: "associate_env \<Rightarrow> udp_state \<Rightarrow> nat \<Rightarrow> ((errno + unit) \<times> udp_state) option" where
  "relay_established env s i =
    (case bpf2socks_udp_epoll_switch_session_to_relay (as_ctl1 env) (as_ctl2 env) s i of
       (Some e, s1) \<Rightarrow> Some (Inl e, s1)
     | (None, s1) \<Rightarrow>
         flush_session_pending_packets (as_flush env)
           (upd_counters (\<lambda>n. n\<lparr>st_udp_associate_creates := st_udp_associate_creates n + 1\<rparr>)
             (bpf2socks_udp_handshake_remove (upd_session i (\<lambda>x. x\<lparr>us_stage := SESSION_READY\<rparr>) s1) i)) i)"

definition complete_udp_associate ::
    "resolver \<Rightarrow> sockaddr_storage \<Rightarrow> associate_env \<Rightarrow> udp_state \<Rightarrow> nat \<Rightarrow> ((errno + unit) \<times> udp_state) option" where
  "complete_udp_associate resolve socks env s i =
    (case create_udp_associate_relay_socket resolve socks env s i of
       (Inl e, s1) \<Rightarrow> Some (Inl e, s1)
     | (Inr _, s1) \<Rightarrow>
         let relay_port = (case us_relay_addr (ud_sessions s1 i) of Some a \<Rightarrow> ss_port a | None \<Rightarrow> 0) in
         if bpf2socks_udp_relay_port_needs_claim socks relay_port then
           (case bpf2socks_udp_relay_port_claim s1 relay_port of
              (True, s2) \<Rightarrow>
                relay_established env (upd_session i (\<lambda>x. x\<lparr>us_relay_port := relay_port, us_relay_port_claimed := True\<rparr>) s2) i
            | (False, s2) \<Rightarrow>
                let s3 = upd_counters (\<lambda>n. n\<lparr>st_udp_relay_port_collisions := st_udp_relay_port_collisions n + 1\<rparr>) s2 in
                if us_associate_retries (ud_sessions s3 i) < RELAY_PORT_MAX_RETRIES
                then Some (restart_udp_associate env
                       (upd_session i (\<lambda>x. x\<lparr>us_associate_retries := us_associate_retries x + 1\<rparr>) s3) i)
                else relay_established env s3 i)
         else relay_established env s1 i)"

text \<open>
  The four stages of \<open>bpf2socks_udp_associate_advance\<close>, each a step on the result of the one before:
  \<open>Inl\<close> is -1, \<open>Inr False\<close> a return of 0 in between, \<open>Inr True\<close> to go on.
\<close>

definition advance_connect :: "associate_env \<Rightarrow> u32 \<Rightarrow> udp_state \<Rightarrow> nat \<Rightarrow> (errno + bool) \<times> udp_state" where
  "advance_connect env events s i =
    (if us_stage (ud_sessions s i) = SESSION_CONNECTING \<and> events AND EPOLLOUT \<noteq> 0 then
       (case finish_udp_associate_connect (as_so_error env) (ud_sessions s i) of
          None \<Rightarrow> (Inl EPROTO, s)
        | Some x \<Rightarrow> (Inr True, upd_session i (\<lambda>_. x) s))
     else (Inr True, s))"

definition advance_write :: "associate_env \<Rightarrow> u32 \<Rightarrow> udp_state \<Rightarrow> nat \<Rightarrow> ((errno + bool) \<times> udp_state) option" where
  "advance_write env events s i =
    (if us_stage (ud_sessions s i) = SESSION_ASSOC_WRITE \<and> events AND EPOLLOUT \<noteq> 0 then
       (case flush_udp_associate_write (as_sends env) (ud_sessions s i) of
          None \<Rightarrow> None
        | Some (Fail, x) \<Rightarrow> Some (Inl EPROTO, upd_session i (\<lambda>_. x) s)
        | Some (More, x) \<Rightarrow> Some (Inr True, upd_session i (\<lambda>_. x) s)
        | Some (Done _, x) \<Rightarrow>
            let s1 = upd_session i (\<lambda>_. x) s in
            if i < ud_session_cap s1 then
              (case epoll_set (as_ctl1 env) (us_tcp_fd x) EPOLLIN s1 of
                 (Some e, s2) \<Rightarrow> Some (Inl e, s2) | (None, s2) \<Rightarrow> Some (Inr True, s2))
            else Some (Inr True, s1))
     else Some (Inr True, s))"

definition advance_hello :: "associate_env \<Rightarrow> u32 \<Rightarrow> udp_state \<Rightarrow> nat \<Rightarrow> ((errno + bool) \<times> udp_state) option" where
  "advance_hello env events s i =
    (if us_stage (ud_sessions s i) = SESSION_ASSOC_READ_HELLO \<and> events AND EPOLLIN \<noteq> 0 then
       (case read_udp_associate_hello (as_hello_reads env) (ud_sessions s i) of
          None \<Rightarrow> None
        | Some (Fail, x) \<Rightarrow> Some (Inl EPROTO, upd_session i (\<lambda>_. x) s)
        | Some (More, x) \<Rightarrow> Some (Inr False, upd_session i (\<lambda>_. x) s)
        | Some (Done _, x) \<Rightarrow> Some (Inr True, upd_session i (\<lambda>_. x) s))
     else Some (Inr True, s))"

definition advance_response ::
    "resolver \<Rightarrow> sockaddr_storage \<Rightarrow> associate_env \<Rightarrow> u32 \<Rightarrow> udp_state \<Rightarrow> nat \<Rightarrow> ((errno + unit) \<times> udp_state) option" where
  "advance_response resolve socks env events s i =
    (if us_stage (ud_sessions s i) = SESSION_ASSOC_READ_RESPONSE \<and> events AND EPOLLIN \<noteq> 0 then
       (case read_udp_associate_bytes (as_reads env) (ud_sessions s i) of
          None \<Rightarrow> None
        | Some (Fail, x) \<Rightarrow> Some (Inl EPROTO, upd_session i (\<lambda>_. x) s)
        | Some (More, x) \<Rightarrow> Some (Inr (), upd_session i (\<lambda>_. x) s)
        | Some (Done _, x) \<Rightarrow> complete_udp_associate resolve socks env (upd_session i (\<lambda>_. x) s) i)
     else Some (Inr (), s))"

definition bpf2socks_udp_associate_advance ::
    "resolver \<Rightarrow> sockaddr_storage \<Rightarrow> associate_env \<Rightarrow> u32 \<Rightarrow> udp_state \<Rightarrow> nat \<Rightarrow> ((errno + unit) \<times> udp_state) option" where
  "bpf2socks_udp_associate_advance resolve socks env events s i =
    (if events AND (EPOLLERR OR EPOLLHUP) \<noteq> 0 then Some (Inl EPROTO, s)
     else case advance_connect env events s i of
       (Inl e, s1) \<Rightarrow> Some (Inl e, s1)
     | (Inr _, s1) \<Rightarrow>
         (case advance_write env events s1 i of
            None \<Rightarrow> None
          | Some (Inl e, s2) \<Rightarrow> Some (Inl e, s2)
          | Some (Inr _, s2) \<Rightarrow>
              (case advance_hello env events s2 i of
                 None \<Rightarrow> None
               | Some (Inl e, s3) \<Rightarrow> Some (Inl e, s3)
               | Some (Inr False, s3) \<Rightarrow> Some (Inr (), s3)
               | Some (Inr True, s3) \<Rightarrow> advance_response resolve socks env events s3 i)))"

section \<open>The session of a datagram\<close>

text \<open>
  \<open>session\<close> is what the lookup by address gave. The calls on the way are given by the
  environment: the notifications that are read when the worker starts watching them again, and the
  socket with its connection.
\<close>

record get_env =
  ge_now :: u64
  ge_reads :: "(errno + diag_message list) list"
  ge_query :: "u16 \<Rightarrow> int"
  ge_socket :: "errno + int"
  ge_connect :: "errno option"
  ge_ctl :: "errno option"

definition fresh_session :: "udp_client_packet \<Rightarrow> u64 \<Rightarrow> udp_session" where
  "fresh_session p now_ms = blank_session\<lparr>us_used := True, us_client_addr := cp_client_addr p,
     us_token_lookup_mode := cp_token_lookup_mode p, us_last_seen_ms := now_ms\<rparr>"

definition give_back_session :: "udp_state \<Rightarrow> nat \<Rightarrow> udp_state" where
  "give_back_session s i =
    (let s1 = bpf2socks_udp_session_close s i in s1\<lparr>ud_free_sessions := i # ud_free_sessions s1\<rparr>)"

definition register_session :: "udp_state \<Rightarrow> nat \<Rightarrow> udp_state" where
  "register_session s i =
    (let x = ud_sessions s i; k = session_bucket (us_client_addr x);
         s1 = s\<lparr>ud_session_buckets := (ud_session_buckets s)(k := i # ud_session_buckets s k)\<rparr>;
         s2 = bpf2socks_udp_handshake_add_tail (lru_add_tail s1 i) i (us_last_seen_ms x);
         s3 = s2\<lparr>ud_session_count := ud_session_count s2 + 1\<rparr>
     in if bpf2socks_sockaddr_is_loopback (us_client_addr x)
        then s3\<lparr>ud_local_session_count := ud_local_session_count s3 + 1\<rparr> else s3)"

definition start_session :: "get_env \<Rightarrow> udp_client_packet \<Rightarrow> udp_state \<Rightarrow> nat \<Rightarrow> nat option \<times> udp_state" where
  "start_session env p s i =
    (let s1 = upd_session i (\<lambda>_. fresh_session p (ge_now env)) s in
     case bpf2socks_udp_associate_build_request (ud_sessions s1 i) of
       None \<Rightarrow> (None, give_back_session s1 i)
     | Some x \<Rightarrow>
         (case bpf2socks_udp_associate_open (ge_socket env) (ge_connect env) (upd_session i (\<lambda>_. x) s1) of
            (Inl _, s2) \<Rightarrow> (None, give_back_session s2 i)
          | (Inr (fd, stage), s2) \<Rightarrow>
              let s3 = register_session (upd_session i (\<lambda>x. x\<lparr>us_tcp_fd := fd, us_stage := stage\<rparr>) s2) i in
              (case bpf2socks_udp_epoll_add_session_control (ge_ctl env) (EPOLLIN OR EPOLLOUT) s3 i of
                 (Some _, s4) \<Rightarrow> (None, bpf2socks_udp_session_drop s4 i)
               | (None, s4) \<Rightarrow>
                   (Some i, bpf2socks_udp_release_note_new_session s4 i (us_last_seen_ms (ud_sessions s4 i))))))"

definition bpf2socks_udp_session_get ::
    "'m token_ops \<Rightarrow> u16 \<Rightarrow> get_env \<Rightarrow> udp_client_packet \<Rightarrow> nat option \<Rightarrow> udp_state \<times> 'm \<Rightarrow> (nat option \<times> udp_state \<times> 'm) option" where
  "bpf2socks_udp_session_get ops listen_port env p session sm =
    (case session of
       Some i \<Rightarrow>
         let s1 = upd_session i (\<lambda>x. x\<lparr>us_last_seen_ms := ge_now env\<rparr>) (fst sm);
             s2 = bpf2socks_udp_lru_touch s1 i;
             s3 = (if cp_token_lookup_mode p \<noteq> LOOKUP_UNKNOWN
                   then upd_session i (\<lambda>x. x\<lparr>us_token_lookup_mode := cp_token_lookup_mode p\<rparr>) s2 else s2)
         in Some (Some i, upd_counters (\<lambda>n. n\<lparr>st_udp_session_hits := st_udp_session_hits n + 1,
               st_udp_associate_reuses := st_udp_associate_reuses n + 1\<rparr>) s3, snd sm)
     | None \<Rightarrow>
         let s1 = upd_counters (\<lambda>n. n\<lparr>st_udp_session_misses := st_udp_session_misses n + 1\<rparr>) (fst sm) in
         (case (if bpf2socks_sockaddr_is_loopback (cp_client_addr p) \<and> \<not> ud_destroy_events_armed s1
                then bpf2socks_udp_release_arm ops listen_port (ge_query env) (ge_reads env) (ge_now env) (s1, snd sm)
                else Some (s1, snd sm)) of
            None \<Rightarrow> None
          | Some (s2, m) \<Rightarrow>
              (case alloc_session s2 of
                 None \<Rightarrow> None
               | Some (None, s3) \<Rightarrow> Some (None, s3, m)
               | Some (Some i, s3) \<Rightarrow> (case start_session env p s3 i of (r, s4) \<Rightarrow> Some (r, s4, m)))))"

end
