(* ===== verification/Udp_Lists.thy ===== *)
theory Udp_Lists
  imports Udp_Session
begin

text \<open>
  The doubly linked lists of the UDP worker: the surgery of the code acts on the list of nodes as
  removal and appending (locale \<open>age_list\<close>), it leaves lists over other nodes alone, and a walk
  along the links visits the nodes in order.
\<close>

section \<open>Refinement of the surgery\<close>

lemma list_remove_detach:
  assumes "dll l xs" "x \<in> set xs"
  shows "list_remove l x = detach_links l x"
proof -
  from assms(2) obtain ys zs where xs: "xs = ys @ x # zs" by (meson split_list)
  with assms(1) have d: "distinct (ys @ x # zs)" and p: "lk_prev l x = last_or None ys" and n: "lk_next l x = first_or None zs"
    and h: "lk_head l = first_or (Some x) ys" and t: "lk_tail l = last_or (Some x) zs"
    by (auto simp: dll_def last_or_def)
  have "lk_head l = Some x \<longleftrightarrow> lk_prev l x = None" using d unfolding h p by (cases ys) (auto simp: last_or_def)
  moreover have "lk_tail l = Some x \<longleftrightarrow> lk_next l x = None" using d unfolding t n by (cases zs rule: rev_cases) (auto simp: first_or_def split: list.splits)
  moreover have "lk_prev l x \<noteq> Some x" "lk_next l x \<noteq> Some x" using d unfolding p n
    by (auto simp: last_or_def first_or_def split: if_splits list.splits)
  ultimately show ?thesis
    by (auto simp: list_remove_def detach_links_def unlink_before_def unlink_after_def clear_links_def Let_def split: option.splits)
qed

lemma dll_list_remove: "dll l xs \<Longrightarrow> x \<in> set xs \<Longrightarrow> dll (list_remove l x) (remove1 x xs)"
  by (simp add: list_remove_detach dll_detach)

lemma dll_list_add_tail:
  assumes "dll l xs" "x \<notin> set xs"
  shows "dll (list_add_tail l x) (xs @ [x])"
proof -
  have "lk_head l = None \<longleftrightarrow> lk_tail l = None" using assms(1) by (cases xs) (auto simp: dll_def last_or_def)
  then have "list_add_tail l x = attach_tail_links l x"
    by (auto simp: list_add_tail_def attach_tail_links_def Let_def split: option.splits)
  then show ?thesis using dll_attach_tail [OF assms] by simp
qed

text \<open>
  The contract of a list ordered by age, for any state that carries one: a node is taken off, or
  put at the young end.
\<close>

locale age_list =
  fixes rep :: "'s \<Rightarrow> 'n list \<Rightarrow> bool"
    and take_off :: "'s \<Rightarrow> 'n \<Rightarrow> 's"
    and put_last :: "'s \<Rightarrow> 'n \<Rightarrow> 's"
    and youngest :: "'s \<Rightarrow> 'n option"
  assumes rep_distinct: "rep s xs \<Longrightarrow> distinct xs"
    and rep_take_off: "rep s xs \<Longrightarrow> x \<in> set xs \<Longrightarrow> rep (take_off s x) (remove1 x xs)"
    and rep_put_last: "rep s xs \<Longrightarrow> x \<notin> set xs \<Longrightarrow> rep (put_last s x) (xs @ [x])"
    and rep_youngest: "rep s xs \<Longrightarrow> youngest s = last_or None xs"
begin

lemma rep_touch:
  assumes "rep s xs" "x \<in> set xs"
  shows "rep (if youngest s = Some x then s else put_last (take_off s x) x) (remove1 x xs @ [x])"
proof (cases "youngest s = Some x")
  case True
  then obtain ys where ys: "xs = ys @ [x]"
    using rep_youngest [OF assms(1)] by (cases xs rule: rev_cases) auto
  then have "remove1 x xs @ [x] = xs" using rep_distinct [OF assms(1)] by (simp add: remove1_append)
  then show ?thesis using True assms(1) by simp
next
  case False
  have "x \<notin> set (remove1 x xs)" using rep_distinct [OF assms(1)] by simp
  then show ?thesis using False rep_put_last [OF rep_take_off [OF assms]] by simp
qed

end

interpretation sessions_by_age: age_list "\<lambda>s. dll (ud_lru s)" lru_remove lru_add_tail "\<lambda>s. lk_tail (ud_lru s)"
  by unfold_locales (auto simp: lru_remove_def lru_add_tail_def dll_list_remove dll_list_add_tail dll_distinct, simp add: dll_def)

interpretation bindings_by_age: age_list "\<lambda>s. dll (ud_binding_lru s)" binding_global_lru_remove binding_global_lru_add_tail
    "\<lambda>s. lk_tail (ud_binding_lru s)"
  by unfold_locales (auto simp: binding_global_lru_remove_def binding_global_lru_add_tail_def dll_list_remove dll_list_add_tail dll_distinct,
      simp add: dll_def)

lemma session_links_set [simp]: "session_links (set_session_links i l s) i = l"
  by (simp add: session_links_def set_session_links_def upd_session_def)

interpretation session_bindings_by_age: age_list "\<lambda>s. dll (session_links s i)" "\<lambda>s. binding_session_lru_remove s i"
    "\<lambda>s. binding_session_lru_add_tail s i" "\<lambda>s. us_binding_lru_tail (ud_sessions s i)" for i
  by unfold_locales (auto simp: binding_session_lru_remove_def binding_session_lru_add_tail_def dll_list_remove dll_list_add_tail dll_distinct,
      simp add: dll_def session_links_def)

section \<open>Walks\<close>

lemma dseg_chain: "dseg nxt prv p xs None \<Longrightarrow> chain nxt (first_or None xs) xs"
  by (induction xs arbitrary: p) auto

lemma dll_chain: "dll l xs \<Longrightarrow> chain (lk_next l) (lk_head l) xs"
  by (auto simp: dll_def intro: dseg_chain)

lemma dll_walk: "dll l xs \<Longrightarrow> map_option fst (find_loop hit (lk_next l) (lk_head l) n) = Some (List.find hit xs)"
  using find_loop_chain [OF dll_chain] by fastforce

section \<open>Frames\<close>

text \<open>Surgery at a node only changes the links of nodes of its own list.\<close>

lemma dseg_cong:
  "(\<And>y. y \<in> set xs \<Longrightarrow> nxt' y = nxt y \<and> prv' y = prv y) \<Longrightarrow> dseg nxt' prv' p xs q = dseg nxt prv p xs q"
  by (induction xs arbitrary: p) auto

lemma detach_frame:
  assumes "dll l xs" "x \<in> set xs" "y \<notin> set xs"
  shows "lk_next (list_remove l x) y = lk_next l y" "lk_prev (list_remove l x) y = lk_prev l y"
proof -
  from assms(2) obtain ys zs where xs: "xs = ys @ x # zs" by (meson split_list)
  with assms(1) have p: "lk_prev l x = last_or None ys" and n: "lk_next l x = first_or None zs" by (auto simp: dll_def last_or_def)
  then show "lk_next (list_remove l x) y = lk_next l y" "lk_prev (list_remove l x) y = lk_prev l y"
    using assms(3) xs by (auto simp: list_remove_def Let_def last_or_def first_or_def split: option.splits if_splits list.splits)
qed

lemma attach_frame:
  assumes "dll l xs" "y \<notin> set xs" "y \<noteq> x"
  shows "lk_next (list_add_tail l x) y = lk_next l y" "lk_prev (list_add_tail l x) y = lk_prev l y"
proof -
  have t: "lk_tail l = last_or None xs" using assms(1) by (simp add: dll_def)
  show "lk_next (list_add_tail l x) y = lk_next l y" "lk_prev (list_add_tail l x) y = lk_prev l y"
    using assms(2,3) t by (auto simp: list_add_tail_def Let_def last_or_def split: option.splits if_splits)
qed

end
