(* ===== verification/Udp_Session_Correct.thy ===== *)
theory Udp_Session_Correct
  imports Udp_Lists
begin

text \<open>
  The session tables of a UDP worker stay consistent: the list by age, the list of handshakes, the
  hash buckets, the free list, the counters and the registry of relay ports all describe the same
  set of sessions (\<open>session_tables\<close>), whatever sequence of lookups, creations, evictions and expiries
  a worker runs.
\<close>

section \<open>What the tables are a function of\<close>

definition table_view :: "udp_session \<Rightarrow> bool \<times> sockaddr_storage \<times> bool \<times> u16 \<times> bool \<times> u64 \<times> u64 \<times> bpf2socks_udp_session_stage" where
  "table_view x = (us_used x, us_client_addr x, us_handshake_linked x, us_relay_port x, us_relay_port_claimed x,
     us_last_seen_ms x, us_handshake_started_ms x, us_stage x)"

definition notices where
  "notices s = (ud_released_ports s, ud_port_destroyed_ms s, ud_release_retry_due_ms s, ud_check_new_sessions_until_ms s,
     ud_destroy_events_armed s)"

definition tables where
  "tables s = (ud_lru s, ud_handshakes s, ud_session_buckets s, ud_free_sessions s, ud_session_cap s, ud_session_count s,
     ud_local_session_count s, ud_relay_registry s, ud_idle_timeout_ms s, notices s, \<lambda>j. table_view (ud_sessions s j))"

lemma notices_frame [simp]:
  "notices (s\<lparr>ud_sessions := f\<rparr>) = notices s" "notices (s\<lparr>ud_relay_registry := r\<rparr>) = notices s"
  "notices (s\<lparr>ud_session_count := n\<rparr>) = notices s" "notices (s\<lparr>ud_free_sessions := fs\<rparr>) = notices s"
  by (simp_all add: notices_def)

lemma tables_cong:
  assumes "tables s' = tables s"
  shows "ud_lru s' = ud_lru s" "ud_handshakes s' = ud_handshakes s" "ud_session_buckets s' = ud_session_buckets s"
    "ud_free_sessions s' = ud_free_sessions s" "ud_session_cap s' = ud_session_cap s" "ud_session_count s' = ud_session_count s"
    "ud_local_session_count s' = ud_local_session_count s" "ud_relay_registry s' = ud_relay_registry s"
    "ud_idle_timeout_ms s' = ud_idle_timeout_ms s" "table_view (ud_sessions s' j) = table_view (ud_sessions s j)"
    "us_used (ud_sessions s' j) = us_used (ud_sessions s j)" "us_client_addr (ud_sessions s' j) = us_client_addr (ud_sessions s j)"
    "us_handshake_linked (ud_sessions s' j) = us_handshake_linked (ud_sessions s j)"
    "us_relay_port (ud_sessions s' j) = us_relay_port (ud_sessions s j)"
    "us_relay_port_claimed (ud_sessions s' j) = us_relay_port_claimed (ud_sessions s j)"
    "us_last_seen_ms (ud_sessions s' j) = us_last_seen_ms (ud_sessions s j)"
    "us_handshake_started_ms (ud_sessions s' j) = us_handshake_started_ms (ud_sessions s j)"
    "us_stage (ud_sessions s' j) = us_stage (ud_sessions s j)" "notices s' = notices s"
proof -
  have "table_view (ud_sessions s' j) = table_view (ud_sessions s j)" using assms by (simp add: tables_def fun_eq_iff)
  with assms show "ud_lru s' = ud_lru s" "ud_handshakes s' = ud_handshakes s" "ud_session_buckets s' = ud_session_buckets s"
    "ud_free_sessions s' = ud_free_sessions s" "ud_session_cap s' = ud_session_cap s" "ud_session_count s' = ud_session_count s"
    "ud_local_session_count s' = ud_local_session_count s" "ud_relay_registry s' = ud_relay_registry s"
    "ud_idle_timeout_ms s' = ud_idle_timeout_ms s" "table_view (ud_sessions s' j) = table_view (ud_sessions s j)"
    "us_used (ud_sessions s' j) = us_used (ud_sessions s j)" "us_client_addr (ud_sessions s' j) = us_client_addr (ud_sessions s j)"
    "us_handshake_linked (ud_sessions s' j) = us_handshake_linked (ud_sessions s j)"
    "us_relay_port (ud_sessions s' j) = us_relay_port (ud_sessions s j)"
    "us_relay_port_claimed (ud_sessions s' j) = us_relay_port_claimed (ud_sessions s j)"
    "us_last_seen_ms (ud_sessions s' j) = us_last_seen_ms (ud_sessions s j)"
    "us_handshake_started_ms (ud_sessions s' j) = us_handshake_started_ms (ud_sessions s j)"
    "us_stage (ud_sessions s' j) = us_stage (ud_sessions s j)" "notices s' = notices s"
    by (simp_all add: tables_def table_view_def)
qed

lemma tables_upd_session:
  "(\<And>x. table_view (f x) = table_view x) \<Longrightarrow> tables (upd_session i f s) = tables s"
  by (auto simp: tables_def upd_session_def fun_eq_iff notices_def)

lemma tables_frame [simp]:
  "tables (upd_binding b f s) = tables s"
  "tables (upd_channel c g s) = tables s"
  "tables (upd_counters h s) = tables s"
  "tables (close_udp_fd fd s) = tables s"
  "tables (bpf2socks_udp_epoll_remove fd s) = tables s"
  "tables (budget_release n s) = tables s"
  "tables (s\<lparr>ud_retired := r\<rparr>) = tables s"
  "tables (s\<lparr>ud_binding_index := ix\<rparr>) = tables s"
  "tables (s\<lparr>ud_binding_count := n'\<rparr>) = tables s"
  "tables (s\<lparr>ud_free_bindings := fb\<rparr>) = tables s"
  "tables (s\<lparr>ud_downlink_budget_waiters := w\<rparr>) = tables s"
  "tables (s\<lparr>ud_pending_budget := bud\<rparr>) = tables s"
  "tables (s\<lparr>ud_session_lru_next := nx, ud_session_lru_prev := pv\<rparr>) = tables s"
  by (simp_all add: tables_def notices_def upd_binding_def upd_channel_def upd_counters_def close_udp_fd_def
      bpf2socks_udp_epoll_remove_def budget_release_def)

lemma tables_fold: "(\<And>p s. tables (f p s) = tables s) \<Longrightarrow> tables (fold f ps s) = tables s"
  by (induction ps arbitrary: s) simp_all

lemma tables_pending: "tables (release_session_pending_packets s i) = tables s"
  by (simp add: release_session_pending_packets_def tables_upd_session table_view_def tables_fold bpf2socks_udp_session_release_pending_def)

lemma tables_downlink_packet: "tables (release_downlink_packet s i p) = tables s"
  by (simp add: release_downlink_packet_def tables_upd_session table_view_def)

lemma tables_mark_ready: "tables (mark_ready i s) = tables s"
  by (simp add: mark_ready_def tables_upd_session table_view_def split: prod.split)

lemma tables_retire: "tables (retire_downlink_channel ctl s i c False) = tables s"
  by (simp add: retire_downlink_channel_def Let_def tables_fold tables_downlink_packet unlink_downlink_channel_def
      tables_upd_session table_view_def)

lemma tables_retire_loop: "tables (retire_channels_loop s i) = tables s"
proof (induction s i rule: retire_channels_loop.induct)
  case (1 s i)
  then show ?case by (subst retire_channels_loop.simps) (simp add: tables_retire split: list.split)
qed

lemma tables_release_session: "tables (bpf2socks_udp_downlink_release_session s i) = tables s"
  by (simp add: bpf2socks_udp_downlink_release_session_def tables_mark_ready tables_upd_session table_view_def tables_retire_loop)

lemma tables_session_links: "tables (set_session_links i l s) = tables s"
  by (simp add: set_session_links_def tables_upd_session table_view_def)

lemma tables_binding_lru: "tables (binding_global_lru_remove s b) = tables s" "tables (binding_global_lru_add_tail s b) = tables s"
  by (simp_all add: binding_global_lru_remove_def binding_global_lru_add_tail_def tables_def notices_def)

lemma tables_release_binding: "tables (release_binding s b) = tables s"
  by (simp add: release_binding_def Let_def bpf2socks_udp_binding_close_reply_def)

lemma tables_destroy_binding: "tables (destroy_binding s i b) = tables s"
  by (simp add: destroy_binding_def Let_def tables_release_binding tables_binding_lru binding_session_lru_remove_def
      tables_session_links unlink_binding_from_session_def tables_upd_session table_view_def)

lemma tables_destroy_loop: "tables (destroy_bindings_loop s i) = tables s"
proof (induction s i rule: destroy_bindings_loop.induct)
  case (1 s i)
  then show ?case by (subst destroy_bindings_loop.simps) (simp add: tables_destroy_binding split: list.split)
qed

lemma tables_close:
  assumes "us_used (ud_sessions s i)"
  shows "tables (bpf2socks_udp_session_close s i) = tables (upd_session i (\<lambda>_. blank_session)
    (if us_relay_port_claimed (ud_sessions s i) then bpf2socks_udp_relay_port_release s (us_relay_port (ud_sessions s i)) else s))"
proof -
  have upd: "tables s' = tables s'' \<Longrightarrow> tables (upd_session i (\<lambda>_. blank_session) s') = tables (upd_session i (\<lambda>_. blank_session) s'')" for s' s''
    by (auto simp: tables_def upd_session_def fun_eq_iff notices_def)
  have e: "bpf2socks_udp_session_close s i = upd_session i (\<lambda>_. blank_session) (destroy_bindings_loop
      (close_udp_fd fd (close_udp_fd fd' (bpf2socks_udp_downlink_release_session (release_session_pending_packets
        (if us_relay_port_claimed (ud_sessions s i) then bpf2socks_udp_relay_port_release s (us_relay_port (ud_sessions s i)) else s)
        i) i))) i)"
    if "fd' = us_tcp_fd (ud_sessions (bpf2socks_udp_downlink_release_session (release_session_pending_packets
        (if us_relay_port_claimed (ud_sessions s i) then bpf2socks_udp_relay_port_release s (us_relay_port (ud_sessions s i)) else s) i) i) i)"
      "fd = us_udp_fd (ud_sessions (close_udp_fd fd' (bpf2socks_udp_downlink_release_session (release_session_pending_packets
        (if us_relay_port_claimed (ud_sessions s i) then bpf2socks_udp_relay_port_release s (us_relay_port (ud_sessions s i)) else s) i) i)) i)"
    for fd fd' using assms that by (simp only: bpf2socks_udp_session_close_def Let_def) simp
  show ?thesis unfolding e [OF refl refl]
    by (rule upd) (simp only: tables_destroy_loop tables_frame tables_release_session tables_pending)
qed

section \<open>Consistency of the session tables\<close>

text \<open>
  \<open>L\<close> are the sessions by age, \<open>H\<close> those in the handshake. \<open>X\<close> is a session that was taken from the
  free list and is not in the tables yet.
\<close>

definition session_tables :: "nat set \<Rightarrow> udp_state \<Rightarrow> nat list \<Rightarrow> nat list \<Rightarrow> bool" where
  "session_tables X s L H \<longleftrightarrow>
    dll (ud_lru s) L \<and> dll (ud_handshakes s) H \<and>
    (\<forall>i. us_used (ud_sessions s i) \<longleftrightarrow> i \<in> set L) \<and> set L \<subseteq> {..<ud_session_cap s} \<and>
    set H = {i \<in> set L. us_handshake_linked (ud_sessions s i)} \<and>
    distinct (ud_free_sessions s) \<and> set (ud_free_sessions s) = {..<ud_session_cap s} - set L - X \<and>
    (\<forall>k. distinct (ud_session_buckets s k) \<and>
         set (ud_session_buckets s k) = {i \<in> set L. session_bucket (us_client_addr (ud_sessions s i)) = k}) \<and>
    ud_session_count s = length L \<and>
    ud_local_session_count s = length (filter (\<lambda>i. bpf2socks_sockaddr_is_loopback (us_client_addr (ud_sessions s i))) L) \<and>
    inj_on (\<lambda>i. us_client_addr (ud_sessions s i)) (set L) \<and>
    (\<forall>i \<in> set L. us_relay_port_claimed (ud_sessions s i) \<longrightarrow> ud_relay_registry s (us_relay_port (ud_sessions s i))) \<and>
    inj_on (\<lambda>i. us_relay_port (ud_sessions s i)) {i \<in> set L. us_relay_port_claimed (ud_sessions s i)}"

lemma session_tables_cong: "tables s' = tables s \<Longrightarrow> session_tables X s' L H = session_tables X s L H"
  using tables_cong [of s' s] by (simp add: session_tables_def)

definition unregistered :: "udp_state \<Rightarrow> nat \<Rightarrow> udp_state" where
  "unregistered s i =
    (let s1 = unlink_session_from_hash s i;
         s2 = bpf2socks_udp_handshake_remove (lru_remove s1 i) i;
         s3 = (if bpf2socks_sockaddr_is_loopback (us_client_addr (ud_sessions s i))
               then s2\<lparr>ud_local_session_count := ud_local_session_count s2 - 1\<rparr> else s2)
     in upd_session i (\<lambda>_. blank_session)
          (if us_relay_port_claimed (ud_sessions s i) then bpf2socks_udp_relay_port_release s3 (us_relay_port (ud_sessions s i)) else s3))"

lemma tables_fields:
  "tables s' = tables s \<longleftrightarrow> ud_lru s' = ud_lru s \<and> ud_handshakes s' = ud_handshakes s \<and> ud_session_buckets s' = ud_session_buckets s \<and>
    ud_free_sessions s' = ud_free_sessions s \<and> ud_session_cap s' = ud_session_cap s \<and> ud_session_count s' = ud_session_count s \<and>
    ud_local_session_count s' = ud_local_session_count s \<and> ud_relay_registry s' = ud_relay_registry s \<and>
    ud_idle_timeout_ms s' = ud_idle_timeout_ms s \<and> notices s' = notices s \<and> (\<forall>j. table_view (ud_sessions s' j) = table_view (ud_sessions s j))"
  by (auto simp: tables_def fun_eq_iff)

lemma unregistered_fields:
  "ud_lru (unregistered s i) = list_remove (ud_lru s) i"
  "ud_handshakes (unregistered s i) = (if us_handshake_linked (ud_sessions s i) then list_remove (ud_handshakes s) i else ud_handshakes s)"
  "ud_session_buckets (unregistered s i) = (ud_session_buckets s)(session_bucket (us_client_addr (ud_sessions s i)) :=
     remove1 i (ud_session_buckets s (session_bucket (us_client_addr (ud_sessions s i)))))"
  "ud_session_cap (unregistered s i) = ud_session_cap s"
  "ud_local_session_count (unregistered s i) =
     ud_local_session_count s - (if bpf2socks_sockaddr_is_loopback (us_client_addr (ud_sessions s i)) then 1 else 0)"
  "ud_relay_registry (unregistered s i) = (if us_relay_port_claimed (ud_sessions s i)
     then (ud_relay_registry s)(us_relay_port (ud_sessions s i) := False) else ud_relay_registry s)"
  "ud_idle_timeout_ms (unregistered s i) = ud_idle_timeout_ms s"
  "ud_free_sessions (unregistered s i) = ud_free_sessions s" "ud_session_count (unregistered s i) = ud_session_count s"
  "ud_sessions (unregistered s i) = (ud_sessions s)(i := blank_session)" "notices (unregistered s i) = notices s"
  by (simp_all add: unregistered_def notices_def Let_def unlink_session_from_hash_def lru_remove_def bpf2socks_udp_handshake_remove_def
      bpf2socks_udp_relay_port_release_def upd_session_def)

text \<open>The fields that have nothing to do with the tables of sessions.\<close>

definition rest where
  "rest s = ((ud_bindings s, ud_channels s, ud_free_bindings s, ud_binding_lru s, ud_session_lru_next s, ud_session_lru_prev s,
     ud_binding_index s, ud_retired s, ud_binding_cap s, ud_binding_count s),
     (ud_pending_budget s, ud_downlink_read_reservation s, ud_downlink_budget_waiters s, ud_open s))"

definition before_close :: "udp_state \<Rightarrow> nat \<Rightarrow> udp_state" where
  "before_close s i =
    (let s1 = bpf2socks_udp_epoll_remove (us_udp_fd (ud_sessions s i)) (bpf2socks_udp_epoll_remove (us_tcp_fd (ud_sessions s i)) s);
         s2 = (if i < ud_session_cap s
               then s1\<lparr>ud_control_refs := (ud_control_refs s1)(i := no_ref), ud_relay_refs := (ud_relay_refs s1)(i := no_ref)\<rparr> else s1);
         s3 = bpf2socks_udp_handshake_remove (lru_remove (unlink_session_from_hash s2 i) i) i
     in if bpf2socks_sockaddr_is_loopback (us_client_addr (ud_sessions s i))
        then s3\<lparr>ud_local_session_count := ud_local_session_count s3 - 1\<rparr> else s3)"

lemma before_close_fields:
  "ud_lru (before_close s i) = list_remove (ud_lru s) i"
  "ud_handshakes (before_close s i) = (if us_handshake_linked (ud_sessions s i) then list_remove (ud_handshakes s) i else ud_handshakes s)"
  "ud_session_buckets (before_close s i) = (ud_session_buckets s)(session_bucket (us_client_addr (ud_sessions s i)) :=
     remove1 i (ud_session_buckets s (session_bucket (us_client_addr (ud_sessions s i)))))"
  "ud_free_sessions (before_close s i) = ud_free_sessions s" "ud_session_cap (before_close s i) = ud_session_cap s"
  "ud_session_count (before_close s i) = ud_session_count s"
  "ud_local_session_count (before_close s i) =
     ud_local_session_count s - (if bpf2socks_sockaddr_is_loopback (us_client_addr (ud_sessions s i)) then 1 else 0)"
  "ud_relay_registry (before_close s i) = ud_relay_registry s" "ud_idle_timeout_ms (before_close s i) = ud_idle_timeout_ms s"
  "rest (before_close s i) = rest s" "notices (before_close s i) = notices s"
  by (simp_all add: before_close_def notices_def Let_def unlink_session_from_hash_def lru_remove_def bpf2socks_udp_handshake_remove_def
      bpf2socks_udp_epoll_remove_def upd_session_def rest_def)

lemma before_close_sessions [simp]:
  "ud_sessions (before_close s i) = (ud_sessions s)(i := (ud_sessions s i)\<lparr>us_handshake_linked := False\<rparr>)"
proof (rule ext)
  fix j
  show "ud_sessions (before_close s i) j = ((ud_sessions s)(i := (ud_sessions s i)\<lparr>us_handshake_linked := False\<rparr>)) j"
    by (simp add: before_close_def Let_def unlink_session_from_hash_def lru_remove_def bpf2socks_udp_handshake_remove_def
        bpf2socks_udp_epoll_remove_def upd_session_def)
qed

lemma drop_eq:
  assumes "us_used (ud_sessions s i)"
  shows "bpf2socks_udp_session_drop s i = (let s1 = bpf2socks_udp_session_close (before_close s i) i
    in s1\<lparr>ud_session_count := ud_session_count s1 - 1, ud_free_sessions := i # ud_free_sessions s1\<rparr>)"
proof -
  have e: "ud_sessions (bpf2socks_udp_epoll_remove fd s') = ud_sessions s'" "ud_session_cap (bpf2socks_udp_epoll_remove fd s') = ud_session_cap s'"
    for fd s' by (simp_all add: bpf2socks_udp_epoll_remove_def)
  have "us_client_addr (ud_sessions (bpf2socks_udp_handshake_remove (lru_remove (unlink_session_from_hash s' i) i) i) i) =
      us_client_addr (ud_sessions s' i)" for s'
    by (simp add: bpf2socks_udp_handshake_remove_def lru_remove_def unlink_session_from_hash_def Let_def)
  then show ?thesis using assms by (simp add: bpf2socks_udp_session_drop_def before_close_def Let_def e)
qed

lemma drop_tables:
  assumes "us_used (ud_sessions s i)"
  shows "tables (bpf2socks_udp_session_drop s i) =
    tables ((unregistered s i)\<lparr>ud_session_count := ud_session_count s - 1, ud_free_sessions := i # ud_free_sessions s\<rparr>)"
proof -
  have u: "us_used (ud_sessions (before_close s i) i)" using assms by (simp add: before_close_fields)
  define s1 where "s1 = bpf2socks_udp_session_close (before_close s i) i"
  have t: "tables s1 = tables (unregistered s i)"
    using tables_close [OF u] unfolding s1_def tables_fields
    by (simp add: unregistered_fields before_close_fields bpf2socks_udp_relay_port_release_def upd_session_def)
  then show ?thesis unfolding drop_eq [OF assms] s1_def [symmetric] Let_def by (simp add: tables_fields unregistered_fields)
qed

lemma blank_session_view [simp]:
  "\<not> us_used blank_session" "us_bindings blank_session = []" "us_downlink_channels blank_session = []" "us_pending blank_session = []"
  by (simp_all add: blank_session_def)

lemma filter_remove1_length:
  "distinct xs \<Longrightarrow> x \<in> set xs \<Longrightarrow> length (filter P (remove1 x xs)) = length (filter P xs) - (if P x then 1 else 0)"
  by (simp add: filter_remove1 length_remove1)

lemma filter_cong_remove1: "(\<And>y. y \<noteq> x \<Longrightarrow> P y = Q y) \<Longrightarrow> distinct xs \<Longrightarrow> filter P (remove1 x xs) = filter Q (remove1 x xs)"
  by (rule filter_cong [OF refl]) auto

lemma session_tablesD:
  assumes "session_tables X s L H"
  shows "dll (ud_lru s) L" "dll (ud_handshakes s) H" "us_used (ud_sessions s i) \<longleftrightarrow> i \<in> set L" "set L \<subseteq> {..<ud_session_cap s}"
    "set H = {i \<in> set L. us_handshake_linked (ud_sessions s i)}" "distinct (ud_free_sessions s)"
    "set (ud_free_sessions s) = {..<ud_session_cap s} - set L - X" "distinct (ud_session_buckets s k)"
    "set (ud_session_buckets s k) = {i \<in> set L. session_bucket (us_client_addr (ud_sessions s i)) = k}"
    "ud_session_count s = length L"
    "ud_local_session_count s = length (filter (\<lambda>i. bpf2socks_sockaddr_is_loopback (us_client_addr (ud_sessions s i))) L)"
    "inj_on (\<lambda>i. us_client_addr (ud_sessions s i)) (set L)"
    "i \<in> set L \<Longrightarrow> us_relay_port_claimed (ud_sessions s i) \<Longrightarrow> ud_relay_registry s (us_relay_port (ud_sessions s i))"
    "inj_on (\<lambda>i. us_relay_port (ud_sessions s i)) {i \<in> set L. us_relay_port_claimed (ud_sessions s i)}"
    "distinct L" "distinct H"
  using assms dll_distinct by (auto simp: session_tables_def)

lemma drop_session_tables:
  assumes t: "session_tables X s L H" and i: "us_used (ud_sessions s i)"
  shows "session_tables (X - {i}) (bpf2socks_udp_session_drop s i) (remove1 i L) (remove1 i H)"
proof -
  note T = session_tablesD [OF t]
  have iL: "i \<in> set L" using i T(3) by simp
  let ?u = "(unregistered s i)\<lparr>ud_session_count := ud_session_count s - 1, ud_free_sessions := i # ud_free_sessions s\<rparr>"
  have sets: "set (remove1 i L) = set L - {i}" "set (remove1 i H) = set H - {i}" using T(15,16) by simp_all
  have "dll (ud_handshakes ?u) (remove1 i H)"
  proof (cases "us_handshake_linked (ud_sessions s i)")
    case True
    then have "i \<in> set H" using T(5) iL by blast
    then show ?thesis using dll_list_remove [OF T(2)] True by (simp add: unregistered_fields)
  next
    case False
    then have "i \<notin> set H" using T(5) by blast
    then show ?thesis using T(2) False by (simp add: unregistered_fields remove1_idem)
  qed
  moreover have "dll (ud_lru ?u) (remove1 i L)" using dll_list_remove [OF T(1) iL] by (simp add: unregistered_fields)
  moreover have "us_used (ud_sessions ?u j) \<longleftrightarrow> j \<in> set (remove1 i L)" for j
    using T(3) [of j] sets by (simp add: unregistered_fields)
  moreover have "set (remove1 i L) \<subseteq> {..<ud_session_cap ?u}" using T(4) sets by (auto simp: unregistered_fields)
  moreover have "set (remove1 i H) = {j \<in> set (remove1 i L). us_handshake_linked (ud_sessions ?u j)}"
    unfolding sets T(5) by (auto simp: unregistered_fields)
  moreover have "distinct (ud_free_sessions ?u)" "set (ud_free_sessions ?u) = {..<ud_session_cap ?u} - set (remove1 i L) - (X - {i})"
    using T(4,6,7) iL unfolding sets by (auto simp: unregistered_fields)
  moreover have "distinct (ud_session_buckets ?u k)" for k
    using T(8) [of k] T(8) [of "session_bucket (us_client_addr (ud_sessions s i))"] by (simp add: unregistered_fields)
  moreover have "set (ud_session_buckets ?u k) = {j \<in> set (remove1 i L). session_bucket (us_client_addr (ud_sessions ?u j)) = k}" for k
  proof -
    have "set (ud_session_buckets ?u k) = set (ud_session_buckets s k) - {i}"
    proof (cases "k = session_bucket (us_client_addr (ud_sessions s i))")
      case True
      then show ?thesis using T(8) [of k] by (simp add: unregistered_fields)
    next
      case False
      then have "i \<notin> set (ud_session_buckets s k)" unfolding T(9) by simp
      then show ?thesis using False by (simp add: unregistered_fields)
    qed
    then show ?thesis unfolding sets T(9) by (auto simp: unregistered_fields)
  qed
  moreover have "ud_session_count ?u = length (remove1 i L)" using T(10) iL by (simp add: length_remove1)
  moreover have "ud_local_session_count ?u =
      length (filter (\<lambda>j. bpf2socks_sockaddr_is_loopback (us_client_addr (ud_sessions ?u j))) (remove1 i L))"
  proof -
    have "filter (\<lambda>j. bpf2socks_sockaddr_is_loopback (us_client_addr (ud_sessions ?u j))) (remove1 i L) =
        filter (\<lambda>j. bpf2socks_sockaddr_is_loopback (us_client_addr (ud_sessions s j))) (remove1 i L)"
      by (rule filter_cong_remove1) (use T(15) in \<open>simp_all add: unregistered_fields\<close>)
    then show ?thesis using T(11) filter_remove1_length [OF T(15) iL] by (simp add: unregistered_fields)
  qed
  moreover have "inj_on (\<lambda>j. us_client_addr (ud_sessions ?u j)) (set (remove1 i L))"
    unfolding sets using T(12) by (auto simp: unregistered_fields inj_on_def)
  moreover have "ud_relay_registry ?u (us_relay_port (ud_sessions ?u j))"
    if "j \<in> set (remove1 i L)" "us_relay_port_claimed (ud_sessions ?u j)" for j
  proof -
    have j: "j \<noteq> i" "j \<in> set L" "us_relay_port_claimed (ud_sessions s j)" using that sets by (auto simp: unregistered_fields)
    with T(14) iL have "us_relay_port (ud_sessions s j) \<noteq> us_relay_port (ud_sessions s i)" if "us_relay_port_claimed (ud_sessions s i)"
      using that by (auto simp: inj_on_def)
    then show ?thesis using T(13) [OF j(2,3)] j(1) by (auto simp: unregistered_fields)
  qed
  moreover have "inj_on (\<lambda>j. us_relay_port (ud_sessions ?u j)) {j \<in> set (remove1 i L). us_relay_port_claimed (ud_sessions ?u j)}"
    unfolding sets using T(14) by (auto simp: unregistered_fields inj_on_def)
  ultimately have "session_tables (X - {i}) ?u (remove1 i L) (remove1 i H)" unfolding session_tables_def by (intro conjI allI ballI impI)
  then show ?thesis using session_tables_cong [OF drop_tables [OF i]] by simp
qed

section \<open>A dropped session leaves the others alone\<close>

lemma others_upd: "j \<noteq> i \<Longrightarrow> ud_sessions (upd_session i f s) j = ud_sessions s j"
  by simp

lemma others_fold: "(\<And>p s. ud_sessions (f p s) j = ud_sessions s j) \<Longrightarrow> ud_sessions (fold f ps s) j = ud_sessions s j"
  by (induction ps arbitrary: s) simp_all

lemma others_pending: "j \<noteq> i \<Longrightarrow> ud_sessions (release_session_pending_packets s i) j = ud_sessions s j"
  by (simp add: release_session_pending_packets_def others_fold bpf2socks_udp_session_release_pending_def)

lemma others_retire: "j \<noteq> i \<Longrightarrow> ud_sessions (retire_downlink_channel ctl s i c False) j = ud_sessions s j"
  by (simp add: retire_downlink_channel_def Let_def others_fold release_downlink_packet_def unlink_downlink_channel_def)

lemma others_retire_loop: "j \<noteq> i \<Longrightarrow> ud_sessions (retire_channels_loop s i) j = ud_sessions s j"
proof (induction s i rule: retire_channels_loop.induct)
  case (1 s i)
  then show ?case by (subst retire_channels_loop.simps) (simp add: others_retire split: list.split)
qed

lemma others_release_session: "j \<noteq> i \<Longrightarrow> ud_sessions (bpf2socks_udp_downlink_release_session s i) j = ud_sessions s j"
  by (simp add: bpf2socks_udp_downlink_release_session_def mark_ready_def others_retire_loop split: prod.split)

lemma others_destroy_binding: "j \<noteq> i \<Longrightarrow> ud_sessions (destroy_binding s i b) j = ud_sessions s j"
  by (simp add: destroy_binding_def Let_def release_binding_def bpf2socks_udp_binding_close_reply_def binding_global_lru_remove_def
      binding_session_lru_remove_def set_session_links_def unlink_binding_from_session_def)

lemma others_destroy_loop: "j \<noteq> i \<Longrightarrow> ud_sessions (destroy_bindings_loop s i) j = ud_sessions s j"
proof (induction s i rule: destroy_bindings_loop.induct)
  case (1 s i)
  then show ?case by (subst destroy_bindings_loop.simps) (simp add: others_destroy_binding split: list.split)
qed

lemma others_close: "j \<noteq> i \<Longrightarrow> ud_sessions (bpf2socks_udp_session_close s i) j = ud_sessions s j"
  by (simp add: bpf2socks_udp_session_close_def Let_def others_destroy_loop others_release_session others_pending
      bpf2socks_udp_relay_port_release_def)

lemma closed_blank: "us_used (ud_sessions s i) \<Longrightarrow> ud_sessions (bpf2socks_udp_session_close s i) i = blank_session"
  unfolding bpf2socks_udp_session_close_def Let_def by (simp only: if_True not_True_eq_False if_False sessions_upd fun_upd_same)

lemma dropped_sessions:
  assumes "us_used (ud_sessions s i)"
  shows "ud_sessions (bpf2socks_udp_session_drop s i) = (ud_sessions s)(i := blank_session)"
proof
  fix j
  show "ud_sessions (bpf2socks_udp_session_drop s i) j = ((ud_sessions s)(i := blank_session)) j"
    using assms by (cases "j = i") (simp_all add: drop_eq Let_def closed_blank others_close before_close_fields)
qed

lemma others_drop: "j \<noteq> i \<Longrightarrow> ud_sessions (bpf2socks_udp_session_drop s i) j = ud_sessions s j"
  by (cases "us_used (ud_sessions s i)") (simp add: dropped_sessions, simp add: bpf2socks_udp_session_drop_def)

lemma dropped_blank: "us_used (ud_sessions s i) \<Longrightarrow> ud_sessions (bpf2socks_udp_session_drop s i) i = blank_session"
  by (simp add: dropped_sessions)

lemma drop_free: "us_used (ud_sessions s i) \<Longrightarrow> ud_free_sessions (bpf2socks_udp_session_drop s i) = i # ud_free_sessions s"
  using tables_cong(4) [OF drop_tables] by simp

section \<open>A table with two sessions\<close>

text \<open>Session 0 is in its handshake and older, session 1 established; there is no free session left.\<close>

definition sample_client :: "u16 \<Rightarrow> sockaddr_storage" where
  "sample_client port = \<lparr>ss_family = AF_INET, ss_port = port, ss_addr = [127, 0, 0, 1]\<rparr>"

definition sample_sessions :: "nat \<Rightarrow> udp_session" where
  "sample_sessions = (\<lambda>_. blank_session)(
     0 := blank_session\<lparr>us_used := True, us_stage := SESSION_CONNECTING, us_client_addr := sample_client 5000,
       us_last_seen_ms := 100, us_handshake_started_ms := 100, us_handshake_linked := True\<rparr>,
     1 := blank_session\<lparr>us_used := True, us_stage := SESSION_READY, us_client_addr := sample_client 5001, us_last_seen_ms := 500\<rparr>)"

definition no_counters :: udp_counters where
  "no_counters = \<lparr>st_udp_binding_evictions = 0, st_udp_session_evictions = 0, st_udp_session_hits = 0, st_udp_session_misses = 0,
     st_udp_associate_reuses = 0, st_udp_associate_creates = 0, st_udp_associate_timeouts = 0, st_udp_reply_binding_creates = 0,
     st_udp_fullcone_binding_creates = 0, st_udp_closed_client_releases = 0, st_udp_relay_port_collisions = 0,
     st_udp_packets_to_client = 0, st_udp_packets_to_upstream = 0, st_udp_drops_send_busy = 0, st_udp_drops_oversized = 0,
     st_udp_packets_from_client = 0, st_udp_packets_from_upstream = 0, st_udp_token_misses = 0, st_udp_token_lookup_full_attempts = 0, st_udp_token_lookup_zero_attempts = 0, st_udp_token_lookup_full_hits = 0,
     st_udp_token_lookup_zero_hits = 0, st_udp_token_lookup_fallbacks = 0, st_udp_reply_binding_hits = 0, st_udp_send_errors = 0, st_udp_copy_sends = 0, st_udp_drops_pending_budget = 0,
     st_udp_drops_malformed_socks5 = 0, st_dns_transaction_timeouts = 0, st_dns_channel_timeout_rebuilds = 0, st_dns_free_stack_allocations = 0, st_dns_full_table_evictions = 0, st_dns_valid_responses = 0\<rparr>"

definition sample_udp :: udp_state where
  "sample_udp = \<lparr>ud_sessions = sample_sessions, ud_bindings = (\<lambda>_. blank_binding),
     ud_channels = (\<lambda>_. \<lparr>ch_session = None, ch_queue = [], ch_source_binding = None, ch_fd = -1, ch_source_fd = -1,
       ch_source_binding_generation = 0, ch_use_pktinfo = False, ch_raw = False\<rparr>),
     ud_control_refs = (\<lambda>_. no_ref), ud_relay_refs = (\<lambda>_. no_ref), ud_free_sessions = [], ud_free_bindings = [],
     ud_session_buckets = (\<lambda>k. filter (\<lambda>i. session_bucket (us_client_addr (sample_sessions i)) = k) [0, 1]),
     ud_lru = \<lparr>lk_head = Some 0, lk_tail = Some 1, lk_next = (\<lambda>_. None)(0 := Some 1), lk_prev = (\<lambda>_. None)(1 := Some 0)\<rparr>,
     ud_handshakes = \<lparr>lk_head = Some 0, lk_tail = Some 0, lk_next = (\<lambda>_. None), lk_prev = (\<lambda>_. None)\<rparr>,
     ud_binding_lru = \<lparr>lk_head = None, lk_tail = None, lk_next = (\<lambda>_. None), lk_prev = (\<lambda>_. None)\<rparr>,
     ud_session_lru_next = (\<lambda>_. None), ud_session_lru_prev = (\<lambda>_. None), ud_binding_index = [], ud_retired = [],
     ud_session_cap = 2, ud_session_count = 2, ud_binding_cap = 0, ud_binding_count = 0, ud_local_session_count = 2,
     ud_pending_budget = \<lparr>ub_cap_bytes = 1000, ub_used_bytes = 0, ub_peak_bytes = 0, ub_waiting_workers = 0, ub_wake_fds = (\<lambda>_. -1)\<rparr>,
     ud_downlink_read_reservation = 0, ud_downlink_budget_waiters = 0, ud_relay_registry = (\<lambda>_. False),
     ud_release_retry_due_ms = NO_DEADLINE, ud_port_destroyed_ms = (\<lambda>_. 0), ud_released_ports = [],
     ud_check_new_sessions_until_ms = 0, ud_destroy_events_armed = True, ud_idle_timeout_ms = 1000, ud_token_cache = None,
     ud_token_notice4_fd = -1, ud_token_notice6_fd = -1, ud_token_notice_window_ms = 0, ud_token_notice_count = 0,
     ud_next_deadline_ms = NO_DEADLINE, ud_batch_size = 64,
     ud_epoll = (\<lambda>_. 0), ud_open = {}, ud_counters = no_counters\<rparr>"

lemma sample_udp_tables: "session_tables {} sample_udp [0, 1] [0]"
  unfolding session_tables_def
  by (intro conjI allI) (auto simp: sample_udp_def sample_sessions_def dll_def last_or_def blank_session_def inj_on_def sample_client_def
      bpf2socks_sockaddr_is_loopback_def)

section \<open>Lookup, eviction and expiry\<close>

lemma find_Some_iff_unique:
  assumes "distinct xs" "\<And>x y. x \<in> set xs \<Longrightarrow> y \<in> set xs \<Longrightarrow> P x \<Longrightarrow> P y \<Longrightarrow> x = y"
  shows "List.find P xs = Some i \<longleftrightarrow> i \<in> set xs \<and> P i"
proof
  assume "List.find P xs = Some i"
  then show "i \<in> set xs \<and> P i" by (auto simp: find_Some_iff)
next
  assume i: "i \<in> set xs \<and> P i"
  then obtain j where j: "List.find P xs = Some j" by (cases "List.find P xs") (auto simp: find_None_iff)
  then have "j \<in> set xs" "P j" by (auto simp: find_Some_iff)
  with i assms(2) j show "List.find P xs = Some i" by blast
qed

text \<open>
  C16. A client's datagrams always reach its own session: the lookup by address finds a session
  exactly when one for that address is in use, and then that one, although sessions of other
  clients may share its hash bucket.
\<close>

theorem session_find_exact:
  assumes "session_tables {} s L H"
  shows "bpf2socks_udp_session_find s a = Some i \<longleftrightarrow> us_used (ud_sessions s i) \<and> us_client_addr (ud_sessions s i) = a"
proof -
  note T = session_tablesD [OF assms]
  have same: "same_sockaddr x y \<longleftrightarrow> x = y" for x y by (auto simp: same_sockaddr_def)
  have "bpf2socks_udp_session_find s a = Some i \<longleftrightarrow>
      i \<in> set (ud_session_buckets s (session_bucket a)) \<and> us_used (ud_sessions s i) \<and> us_client_addr (ud_sessions s i) = a"
    unfolding bpf2socks_udp_session_find_def same
    by (rule find_Some_iff_unique) (use T(8,12) T(9) in \<open>auto simp: inj_on_def\<close>)
  then show ?thesis using T(3) T(9) by auto
qed

theorem session_find_exact_witness: "bpf2socks_udp_session_find sample_udp (sample_client 5001) = Some 1"
  using session_find_exact [OF sample_udp_tables, of "sample_client 5001" 1]
  by (simp add: sample_udp_def sample_sessions_def)

lemma scan_victim_eq: "dll (ud_lru s) L \<Longrightarrow> scan_victim pass s = Some (List.find (\<lambda>i. victim_ok pass (ud_sessions s i)) L)"
  by (simp add: scan_victim_def dll_walk)

lemma find_hd: "List.find P xs = (case filter P xs of [] \<Rightarrow> None | x # _ \<Rightarrow> Some x)"
  by (induction xs) auto

definition choose_session :: "udp_state \<Rightarrow> nat list \<Rightarrow> nat option" where
  "choose_session s L =
    (let idle = filter (\<lambda>i. \<not> draining (ud_sessions s i)) L;
         established = filter (\<lambda>i. us_stage (ud_sessions s i) = SESSION_READY) idle
     in case ud_free_sessions s @ established @ idle of [] \<Rightarrow> None | i # _ \<Rightarrow> Some i)"

lemma find_victim_eq:
  assumes "dll (ud_lru s) L" "ud_free_sessions s = []"
  shows "find_victim s = Some (choose_session s L)"
proof -
  have p: "(\<lambda>i. victim_ok (Suc 0) (ud_sessions s i)) = (\<lambda>i. \<not> draining (ud_sessions s i))"
    "(\<lambda>i. victim_ok 0 (ud_sessions s i)) = (\<lambda>i. \<not> draining (ud_sessions s i) \<and> us_stage (ud_sessions s i) = SESSION_READY)"
    by (auto simp: victim_ok_def draining_def)
  have f: "filter (\<lambda>i. us_stage (ud_sessions s i) = SESSION_READY) (filter (\<lambda>i. \<not> draining (ud_sessions s i)) L) =
      filter (\<lambda>i. \<not> draining (ud_sessions s i) \<and> us_stage (ud_sessions s i) = SESSION_READY) L"
    by (simp add: conj_commute)
  show ?thesis using assms
    by (simp add: find_victim_def scan_victim_eq p find_hd choose_session_def f Let_def split: list.split)
qed

lemma session_tables_counters: "session_tables X (upd_counters f s) L H = session_tables X s L H"
  by (rule session_tables_cong) simp

lemma alloc_session_cases:
  assumes t: "session_tables {} s L H"
  shows "case choose_session s L of
      None \<Rightarrow> alloc_session s = Some (None, s)
    | Some i \<Rightarrow> \<exists>s'. alloc_session s = Some (Some i, s') \<and> session_tables {i} s' (remove1 i L) (remove1 i H) \<and>
        i < ud_session_cap s \<and> (\<forall>j. ud_sessions s' j = (if j = i \<and> us_used (ud_sessions s i) then blank_session else ud_sessions s j))"
proof (cases "ud_free_sessions s")
  case (Cons i rest)
  note T = session_tablesD [OF t]
  have i: "i \<notin> set L" "i \<notin> set H" "i < ud_session_cap s" using T(5,7) Cons by auto
  then have r: "remove1 i L = L" "remove1 i H = H" by (simp_all add: remove1_idem)
  have "alloc_session s = Some (Some i, s\<lparr>ud_free_sessions := rest\<rparr>)" using Cons by (simp add: alloc_session.simps [of s])
  moreover have "session_tables {i} (s\<lparr>ud_free_sessions := rest\<rparr>) L H"
    using t T(6,7) Cons unfolding session_tables_def by auto
  moreover have "choose_session s L = Some i" using Cons by (simp add: choose_session_def Let_def)
  ultimately show ?thesis using i r T(3) by auto
next
  case Nil
  note T = session_tablesD [OF t]
  note v = find_victim_eq [OF T(1) Nil]
  show ?thesis
  proof (cases "choose_session s L")
    case None
    then show ?thesis using v Nil by (simp add: alloc_session.simps [of s])
  next
    case (Some i)
    then have iL: "i \<in> set L" using Nil by (auto simp: choose_session_def Let_def split: list.splits
        dest!: arg_cong [where f = set])
    then have u: "us_used (ud_sessions s i)" using T(3) by simp
    let ?s = "upd_counters (\<lambda>n. n\<lparr>st_udp_session_evictions := st_udp_session_evictions n + 1\<rparr>) (bpf2socks_udp_session_drop s i)"
    have t1: "session_tables {} ?s (remove1 i L) (remove1 i H)"
      using drop_session_tables [OF t u] by (simp add: session_tables_counters)
    have f: "ud_free_sessions ?s = [i]" using drop_free [OF u] Nil by (simp add: upd_counters_def)
    have "alloc_session s = alloc_session ?s" using v Nil Some by (simp add: alloc_session.simps [of s])
    also have "\<dots> = Some (Some i, ?s\<lparr>ud_free_sessions := []\<rparr>)" using f by (simp add: alloc_session.simps [of ?s])
    finally have run: "alloc_session s = Some (Some i, ?s\<lparr>ud_free_sessions := []\<rparr>)" .
    have "session_tables {i} (?s\<lparr>ud_free_sessions := []\<rparr>) (remove1 i L) (remove1 i H)"
      using t1 session_tablesD(7) [OF t1] f unfolding session_tables_def by auto
    moreover have "ud_sessions (?s\<lparr>ud_free_sessions := []\<rparr>) j = (if j = i \<and> us_used (ud_sessions s i) then blank_session else ud_sessions s j)" for j
      using dropped_blank [OF u] others_drop [of j i s] u by simp
    ultimately show ?thesis using run Some T(4) iL by auto
  qed
qed

text \<open>
  C17. The eviction policy of a full session table. Allocation always returns: it takes a free
  session when there is one, otherwise the least recently used established session that is not
  delivering replies, only then a session still in its handshake, and none at all when every
  session is delivering replies. The session it takes is out of all tables and blank, and no other
  session changes.
\<close>

theorem session_eviction_policy:
  assumes "session_tables {} s L H"
  shows "case choose_session s L of
      None \<Rightarrow> alloc_session s = Some (None, s)
    | Some i \<Rightarrow> \<exists>s'. alloc_session s = Some (Some i, s') \<and> session_tables {i} s' (remove1 i L) (remove1 i H) \<and>
        i < ud_session_cap s \<and> (\<forall>j. ud_sessions s' j = (if j = i \<and> us_used (ud_sessions s i) then blank_session else ud_sessions s j))"
  by (rule alloc_session_cases [OF assms])

theorem session_eviction_policy_witness: "\<exists>s'. alloc_session sample_udp = Some (Some 1, s') \<and> session_tables {1} s' [0] [0]"
proof -
  have "choose_session sample_udp [0, 1] = Some 1"
    by (simp add: choose_session_def sample_udp_def sample_sessions_def draining_def blank_session_def)
  then show ?thesis using session_eviction_policy [OF sample_udp_tables] by auto
qed

subsection \<open>Expiry of idle sessions\<close>

text \<open>A session is due when its idle time, as unbounded integers, has reached the limit.\<close>

definition idle_due :: "u64 \<Rightarrow> udp_state \<Rightarrow> nat \<Rightarrow> bool" where
  "idle_due now_ms s i \<longleftrightarrow> ud_idle_timeout_ms s \<le> now_ms - us_last_seen_ms (ud_sessions s i)"

lemma idle_due_drop: "j \<noteq> i \<Longrightarrow> us_used (ud_sessions s i) \<Longrightarrow> idle_due now (bpf2socks_udp_session_drop s i) j = idle_due now s j"
  using tables_cong(9) [OF drop_tables, of s i] by (simp add: idle_due_def others_drop unregistered_fields)

lemma expire_idle_loop_result:
  assumes "session_tables {} s (K @ M) H" "p = first_or None M"
  shows "\<exists>s' H'. expire_idle_loop now p s = Some s' \<and>
    session_tables {} s' (K @ filter (\<lambda>i. draining (ud_sessions s i)) (takeWhile (idle_due now s) M) @ dropWhile (idle_due now s) M) H' \<and>
    (\<forall>j. ud_sessions s' j = (if j \<in> set (filter (\<lambda>i. \<not> draining (ud_sessions s i)) (takeWhile (idle_due now s) M)) then blank_session
      else ud_sessions s j))"
  using assms
proof (induction M arbitrary: s K H p)
  case Nil
  then show ?case by (auto simp: expire_idle_loop.simps)
next
  case (Cons i M)
  note T = session_tablesD [OF Cons.prems(1)]
  have u: "us_used (ud_sessions s i)" using T(3) by simp
  have d: "distinct (K @ i # M)" by (rule T(15))
  have nx: "lk_next (ud_lru s) i = first_or None M" using T(1) by (simp add: dll_def)
  show ?case
  proof (cases "idle_due now s i")
    case False
    then have "expire_idle_loop now p s = Some s"
      using Cons.prems(2) u by (simp add: expire_idle_loop.simps [of _ "Some i"] idle_due_def not_le)
    then show ?thesis using False Cons.prems(1) by auto
  next
    case due: True
    then have g: "\<not> (\<not> us_used (ud_sessions s i) \<or> now - us_last_seen_ms (ud_sessions s i) < ud_idle_timeout_ms s)"
      using u by (simp add: idle_due_def not_less)
    show ?thesis
    proof (cases "draining (ud_sessions s i)")
      case True
      have run: "expire_idle_loop now p s = expire_idle_loop now (first_or None M) s"
        using Cons.prems(2) g True nx by (simp add: expire_idle_loop.simps [of _ "Some i"])
      have "session_tables {} s ((K @ [i]) @ M) H" using Cons.prems(1) by simp
      from Cons.IH [OF this refl] due True show ?thesis unfolding run by simp
    next
      case False
      let ?s = "bpf2socks_udp_session_drop s i"
      have run: "expire_idle_loop now p s = expire_idle_loop now (first_or None M) ?s"
        using Cons.prems(2) g False nx by (simp add: expire_idle_loop.simps [of _ "Some i"])
      have t: "session_tables {} ?s (K @ M) (remove1 i H)"
        using drop_session_tables [OF Cons.prems(1) u] d by (simp add: remove1_append)
      have iM: "i \<notin> set M" using d by simp
      have same: "ud_sessions ?s j = ud_sessions s j" "idle_due now ?s j = idle_due now s j" if "j \<in> set M" for j
        using that iM others_drop idle_due_drop [OF _ u] by metis+
      have e: "takeWhile (idle_due now ?s) M = takeWhile (idle_due now s) M" "dropWhile (idle_due now ?s) M = dropWhile (idle_due now s) M"
        using same(2) by (simp_all cong: takeWhile_cong dropWhile_cong)
      have "filter (\<lambda>i. draining (ud_sessions ?s i)) (takeWhile (idle_due now s) M) = filter (\<lambda>i. draining (ud_sessions s i)) (takeWhile (idle_due now s) M)"
        "filter (\<lambda>i. \<not> draining (ud_sessions ?s i)) (takeWhile (idle_due now s) M) = filter (\<lambda>i. \<not> draining (ud_sessions s i)) (takeWhile (idle_due now s) M)"
        using same(1) by (auto intro!: filter_cong dest!: set_takeWhileD)
      with Cons.IH [OF t refl] e obtain s' H' where *: "expire_idle_loop now (first_or None M) ?s = Some s'"
        "session_tables {} s' (K @ filter (\<lambda>i. draining (ud_sessions s i)) (takeWhile (idle_due now s) M) @ dropWhile (idle_due now s) M) H'"
        "\<And>j. ud_sessions s' j = (if j \<in> set (filter (\<lambda>i. \<not> draining (ud_sessions s i)) (takeWhile (idle_due now s) M)) then blank_session
          else ud_sessions ?s j)" by auto
      have "ud_sessions s' j = (if j \<in> set (filter (\<lambda>i. \<not> draining (ud_sessions s i)) (takeWhile (idle_due now s) (i # M))) then blank_session
          else ud_sessions s j)" for j
        using *(3) [of j] others_drop [of j i s] dropped_blank [OF u] due False by auto
      then show ?thesis using *(1,2) due False unfolding run by auto
    qed
  qed
qed

lemma antitone_prefix:
  assumes "sorted_wrt (\<lambda>x y. P y \<longrightarrow> P x) xs"
  shows "takeWhile P xs = filter P xs" "dropWhile P xs = filter (\<lambda>x. \<not> P x) xs"
  using assms by (induction xs) (auto simp: filter_empty_conv filter_id_conv)

lemma due_antitone:
  assumes "us_last_seen_ms (ud_sessions s i) \<le> us_last_seen_ms (ud_sessions s j)" "us_last_seen_ms (ud_sessions s j) \<le> now"
    and "idle_due now s j"
  shows "idle_due now s i"
proof -
  have "unat (now - us_last_seen_ms (ud_sessions s j)) \<le> unat (now - us_last_seen_ms (ud_sessions s i))"
    using assms(1,2) by (simp add: unat_sub word_le_nat_alt)
  then show ?thesis using assms(3) by (simp add: idle_due_def word_le_nat_alt)
qed



definition handshake_due :: "u32 \<Rightarrow> u64 \<Rightarrow> udp_state \<Rightarrow> nat \<Rightarrow> bool" where
  "handshake_due timeout now s i \<longleftrightarrow> now \<noteq> 0 \<and> ucast timeout \<le> now - us_handshake_started_ms (ud_sessions s i)"

text \<open>
  C19. Handshakes that time out. The pass over the handshakes, oldest first, always returns; it drops
  exactly the leading sessions whose handshake has lasted for the timeout, so that the oldest one
  left is still within it, and every other session keeps its state.
\<close>

theorem handshake_expiry_exact:
  assumes "session_tables {} s L H"
  shows "\<exists>s' L'. bpf2socks_udp_session_expire_handshakes timeout now s = Some s' \<and>
    session_tables {} s' L' (dropWhile (handshake_due timeout now s) H) \<and>
    (\<forall>j. ud_sessions s' j = (if j \<in> set (takeWhile (handshake_due timeout now s) H) then blank_session else ud_sessions s j))"
  using assms
proof (induction H arbitrary: s L)
  case Nil
  then have "lk_head (ud_handshakes s) = None" using session_tablesD(2) by (fastforce simp: dll_def)
  then show ?case using Nil by (auto simp: bpf2socks_udp_session_expire_handshakes.simps [of _ _ s])
next
  case (Cons i H)
  note T = session_tablesD [OF Cons.prems]
  have h: "lk_head (ud_handshakes s) = Some i" using T(2) by (simp add: dll_def)
  have u: "us_used (ud_sessions s i)" using T(3,5) by auto
  show ?case
  proof (cases "handshake_due timeout now s i")
    case False
    then have "bpf2socks_udp_session_expire_handshakes timeout now s = Some s"
      using h by (auto simp: bpf2socks_udp_session_expire_handshakes.simps [of _ _ s] handshake_due_def)
    then show ?thesis using False Cons.prems by auto
  next
    case True
    let ?c = "upd_counters (\<lambda>n. n\<lparr>st_udp_associate_timeouts := st_udp_associate_timeouts n + 1\<rparr>) s"
    let ?s = "bpf2socks_udp_session_drop ?c i"
    have run: "bpf2socks_udp_session_expire_handshakes timeout now s = bpf2socks_udp_session_expire_handshakes timeout now ?s"
      using h True by (subst bpf2socks_udp_session_expire_handshakes.simps) (simp add: handshake_due_def)
    have "session_tables {} ?c L (i # H)" using Cons.prems by (simp add: session_tables_counters)
    from drop_session_tables [OF this, of i] u have t: "session_tables {} ?s (remove1 i L) H" by simp
    have iH: "i \<notin> set H" using T(16) by simp
    have same: "handshake_due timeout now ?s j = handshake_due timeout now s j" if "j \<in> set H" for j
      using that iH others_drop [of j i ?c] by (cases "j = i") (simp_all add: handshake_due_def)
    then have e: "takeWhile (handshake_due timeout now ?s) H = takeWhile (handshake_due timeout now s) H"
      "dropWhile (handshake_due timeout now ?s) H = dropWhile (handshake_due timeout now s) H"
      by (simp_all cong: takeWhile_cong dropWhile_cong)
    from Cons.IH [OF t] obtain s' L' where *: "bpf2socks_udp_session_expire_handshakes timeout now ?s = Some s'"
      "session_tables {} s' L' (dropWhile (handshake_due timeout now s) H)"
      "\<And>j. ud_sessions s' j = (if j \<in> set (takeWhile (handshake_due timeout now s) H) then blank_session else ud_sessions ?s j)"
      unfolding e by auto
    have "ud_sessions ?s = (ud_sessions s)(i := blank_session)" using dropped_sessions [of ?c i] u by simp
    then have "ud_sessions s' j = (if j \<in> set (takeWhile (handshake_due timeout now s) (i # H)) then blank_session else ud_sessions s j)" for j
      using *(3) [of j] True by auto
    then show ?thesis using *(1,2) True unfolding run by auto
  qed
qed

theorem handshake_expiry_exact_witness:
  "\<exists>s' L'. bpf2socks_udp_session_expire_handshakes 300 500 sample_udp = Some s' \<and> session_tables {} s' L' [] \<and>
     ud_sessions s' 0 = blank_session \<and> us_used (ud_sessions s' 1)"
proof -
  have "handshake_due 300 500 sample_udp 0" by (simp add: handshake_due_def sample_udp_def sample_sessions_def blank_session_def)
  moreover have "us_used (ud_sessions sample_udp 1)" by (simp add: sample_udp_def sample_sessions_def)
  ultimately show ?thesis using handshake_expiry_exact [OF sample_udp_tables, of 300 500] by auto
qed

end
