(* ===== verification/Udp_Associate_Correct.thy ===== *)
theory Udp_Associate_Correct
  imports Udp_Associate Udp_Session_Correct "HOL-Library.Multiset"
begin

text \<open>
  The handshake of a session and the release of closed clients keep the tables of
  \<open>Udp_Session_Correct\<close> consistent. \<open>core\<close> is the part of a state that \<open>session_tables\<close> reads.
\<close>

section \<open>What consistency depends on\<close>

definition key_view :: "udp_session \<Rightarrow> bool \<times> sockaddr_storage \<times> bool \<times> u16 \<times> bool" where
  "key_view x = (us_used x, us_client_addr x, us_handshake_linked x, us_relay_port x, us_relay_port_claimed x)"

definition core where
  "core s = (ud_lru s, ud_handshakes s, ud_session_buckets s, ud_free_sessions s, ud_session_cap s, ud_session_count s,
     ud_local_session_count s, ud_relay_registry s, \<lambda>j. key_view (ud_sessions s j))"

lemma udp_core_fields:
  "core s' = core s \<longleftrightarrow> ud_lru s' = ud_lru s \<and> ud_handshakes s' = ud_handshakes s \<and> ud_session_buckets s' = ud_session_buckets s \<and>
    ud_free_sessions s' = ud_free_sessions s \<and> ud_session_cap s' = ud_session_cap s \<and> ud_session_count s' = ud_session_count s \<and>
    ud_local_session_count s' = ud_local_session_count s \<and> ud_relay_registry s' = ud_relay_registry s \<and>
    (\<forall>j. key_view (ud_sessions s' j) = key_view (ud_sessions s j))"
  by (auto simp: core_def fun_eq_iff)

lemma session_tables_core: "core s' = core s \<Longrightarrow> session_tables X s' L H = session_tables X s L H"
  unfolding udp_core_fields by (simp add: session_tables_def key_view_def)

lemma core_tables: "tables s' = tables s \<Longrightarrow> core s' = core s"
  unfolding udp_core_fields tables_fields by (simp add: key_view_def table_view_def)

lemma core_upd_session: "(\<And>x. key_view (f x) = key_view x) \<Longrightarrow> core (upd_session i f s) = core s"
  by (auto simp: udp_core_fields upd_session_def)

lemma core_upd_session_at: "key_view (f (ud_sessions s i)) = key_view (ud_sessions s i) \<Longrightarrow> core (upd_session i f s) = core s"
  by (auto simp: udp_core_fields upd_session_def)

lemma udp_core_frame [simp]:
  "core (upd_counters h s) = core s" "core (open_udp_fd fd s) = core s" "core (close_udp_fd fd s) = core s"
  "core (bpf2socks_udp_epoll_remove fd s) = core s" "core (budget_release n s) = core s"
  "core (s\<lparr>ud_control_refs := cr\<rparr>) = core s" "core (s\<lparr>ud_relay_refs := rr\<rparr>) = core s"
  "core (s\<lparr>ud_destroy_events_armed := ar\<rparr>) = core s" "core (s\<lparr>ud_released_ports := rp\<rparr>) = core s"
  "core (s\<lparr>ud_port_destroyed_ms := pd\<rparr>) = core s" "core (s\<lparr>ud_check_new_sessions_until_ms := cn\<rparr>) = core s"
  "core (s\<lparr>ud_release_retry_due_ms := rd\<rparr>) = core s" "core (s\<lparr>ud_pending_budget := pb\<rparr>) = core s"
  by (simp_all add: udp_core_fields upd_counters_def open_udp_fd_def close_udp_fd_def bpf2socks_udp_epoll_remove_def budget_release_def)

lemma core_epoll_set: "epoll_set ctl fd events s = (r, s') \<Longrightarrow> core s' = core s"
  by (auto simp: epoll_set_def udp_core_fields split: if_splits)

lemma core_fold: "(\<And>p s. core (f p s) = core s) \<Longrightarrow> core (fold f ps s) = core s"
  by (induction ps arbitrary: s) simp_all

lemma core_control: "bpf2socks_udp_epoll_add_session_control ctl events s i = (r, s') \<Longrightarrow> core s' = core s"
  by (auto simp: bpf2socks_udp_epoll_add_session_control_def dest!: core_epoll_set split: if_splits)

lemma core_add_udp: "add_session_udp_epoll_fd ctl s i = (r, s') \<Longrightarrow> core s' = core s"
  by (auto simp: add_session_udp_epoll_fd_def dest!: core_epoll_set split: if_splits)

lemma core_switch: "bpf2socks_udp_epoll_switch_session_to_relay c1 c2 s i = (r, s') \<Longrightarrow> core s' = core s"
  by (auto simp: bpf2socks_udp_epoll_switch_session_to_relay_def dest!: core_epoll_set core_add_udp split: if_splits prod.splits option.splits)

text \<open>The tables are consistent, for some lists by age and of handshakes.\<close>

definition consistent :: "udp_state \<Rightarrow> bool" where
  "consistent s \<longleftrightarrow> (\<exists>L H. session_tables {} s L H)"

lemma consistent_core: "core s' = core s \<Longrightarrow> consistent s' = consistent s"
  unfolding consistent_def using session_tables_core [of s' s] by blast

lemma consistent_drop: "consistent s \<Longrightarrow> consistent (bpf2socks_udp_session_drop s i)"
proof (cases "us_used (ud_sessions s i)")
  case True
  assume "consistent s"
  then obtain L H where "session_tables {} s L H" by (auto simp: consistent_def)
  from drop_session_tables [OF this True] show ?thesis by (auto simp: consistent_def)
qed (simp add: bpf2socks_udp_session_drop_def)

section \<open>Operations on the lists\<close>

lemma session_tables_lru:
  assumes "session_tables X s L H" "dll l L'" "mset L' = mset L"
  shows "session_tables X (s\<lparr>ud_lru := l\<rparr>) L' H"
proof -
  have e: "set L' = set L" "length L' = length L" using assms(3) by (metis set_mset_mset, metis size_mset)
  have "length (filter P L') = length (filter P L)" for P using assms(3) by (metis mset_filter size_mset)
  with e show ?thesis using assms(1,2) by (simp add: session_tables_def)
qed

lemma touch_tables:
  assumes "session_tables X s L H" "i \<in> set L"
  shows "session_tables X (bpf2socks_udp_lru_touch s i) (remove1 i L @ [i]) H"
proof -
  note T = session_tablesD [OF assms(1)]
  have e: "bpf2socks_udp_lru_touch s i = s\<lparr>ud_lru := ud_lru (bpf2socks_udp_lru_touch s i)\<rparr>"
    by (simp add: bpf2socks_udp_lru_touch_def lru_remove_def lru_add_tail_def)
  have "dll (ud_lru (bpf2socks_udp_lru_touch s i)) (remove1 i L @ [i])"
    using sessions_by_age.rep_touch [OF T(1) assms(2)] by (simp add: bpf2socks_udp_lru_touch_def)
  moreover have "mset (remove1 i L @ [i]) = mset L" using assms(2) by simp
  ultimately show ?thesis using session_tables_lru [OF assms(1)] e by metis
qed

lemma touch_frame [simp]: "ud_sessions (bpf2socks_udp_lru_touch s i) = ud_sessions s"
  by (simp add: bpf2socks_udp_lru_touch_def lru_remove_def lru_add_tail_def)

lemma consistent_touch: "consistent s \<Longrightarrow> us_used (ud_sessions s i) \<Longrightarrow> consistent (bpf2socks_udp_lru_touch s i)"
  using touch_tables session_tablesD(3) unfolding consistent_def by metis

lemma session_tables_handshakes:
  assumes "session_tables X s L H" "dll l H'" "i \<in> set L" "set H' = (if b then insert i (set H) else set H - {i})"
  shows "session_tables X (upd_session i (\<lambda>x. x\<lparr>us_handshake_linked := b\<rparr>) (s\<lparr>ud_handshakes := l\<rparr>)) L H'"
proof -
  note T = session_tablesD [OF assms(1)]
  let ?s = "upd_session i (\<lambda>x. x\<lparr>us_handshake_linked := b\<rparr>) (s\<lparr>ud_handshakes := l\<rparr>)"
  have f: "us_used (ud_sessions ?s j) = us_used (ud_sessions s j)" "us_client_addr (ud_sessions ?s j) = us_client_addr (ud_sessions s j)"
    "us_relay_port (ud_sessions ?s j) = us_relay_port (ud_sessions s j)"
    "us_relay_port_claimed (ud_sessions ?s j) = us_relay_port_claimed (ud_sessions s j)"
    "us_handshake_linked (ud_sessions ?s j) = (if j = i then b else us_handshake_linked (ud_sessions s j))" for j
    by (simp_all add: upd_session_def)
  have g: "ud_lru ?s = ud_lru s" "ud_handshakes ?s = l" "ud_session_buckets ?s = ud_session_buckets s" "ud_free_sessions ?s = ud_free_sessions s"
    "ud_session_cap ?s = ud_session_cap s" "ud_session_count ?s = ud_session_count s" "ud_local_session_count ?s = ud_local_session_count s"
    "ud_relay_registry ?s = ud_relay_registry s" by (simp_all add: upd_session_def)
  have "set H' = {j \<in> set L. if j = i then b else us_handshake_linked (ud_sessions s j)}"
    unfolding assms(4) T(5) using assms(3) by auto
  then show ?thesis using assms(1,2) unfolding session_tables_def f g by simp
qed

lemma handshake_remove_tables:
  assumes "session_tables X s L H" "i \<in> set L"
  shows "session_tables X (bpf2socks_udp_handshake_remove s i) L (remove1 i H)"
proof -
  note T = session_tablesD [OF assms(1)]
  show ?thesis
  proof (cases "us_handshake_linked (ud_sessions s i)")
    case True
    then have "i \<in> set H" using T(5) assms(2) by blast
    from dll_list_remove [OF T(2) this] show ?thesis
      using session_tables_handshakes [OF assms(1) _ assms(2), where b = False] T(16) True
      by (simp add: bpf2socks_udp_handshake_remove_def)
  next
    case False
    then have "i \<notin> set H" using T(5) by blast
    then show ?thesis using False assms(1) by (simp add: bpf2socks_udp_handshake_remove_def remove1_idem)
  qed
qed

lemma handshake_add_tables:
  assumes "session_tables X s L H" "i \<in> set L" "\<not> us_handshake_linked (ud_sessions s i)"
  shows "session_tables X (bpf2socks_udp_handshake_add_tail s i now) L (H @ [i])"
proof -
  note T = session_tablesD [OF assms(1)]
  have "i \<notin> set H" using T(5) assms(3) by blast
  from dll_list_add_tail [OF T(2) this]
  have "session_tables X (upd_session i (\<lambda>x. x\<lparr>us_handshake_linked := True\<rparr>) (s\<lparr>ud_handshakes := list_add_tail (ud_handshakes s) i\<rparr>)) L (H @ [i])"
    using session_tables_handshakes [OF assms(1) _ assms(2), where b = True] by simp
  moreover have "core (bpf2socks_udp_handshake_add_tail s i now) =
      core (upd_session i (\<lambda>x. x\<lparr>us_handshake_linked := True\<rparr>) (s\<lparr>ud_handshakes := list_add_tail (ud_handshakes s) i\<rparr>))"
    by (simp add: udp_core_fields bpf2socks_udp_handshake_add_tail_def upd_session_def key_view_def)
  ultimately show ?thesis using session_tables_core by blast
qed

section \<open>A new session\<close>

lemma core_upd_cong: "core s = core s' \<Longrightarrow> core (upd_session i (\<lambda>_. x) s) = core (upd_session i (\<lambda>_. x) s')"
  by (auto simp: udp_core_fields upd_session_def)

lemma core_free: "core s = core s' \<Longrightarrow> core (s\<lparr>ud_free_sessions := i # ud_free_sessions s\<rparr>) = core (s'\<lparr>ud_free_sessions := i # ud_free_sessions s'\<rparr>)"
  by (simp add: udp_core_fields)

lemma give_back_tables:
  assumes "session_tables {i} s0 L H" "i < ud_session_cap s0" "i \<notin> set L"
    and "core s = core (upd_session i (\<lambda>_. x) s0)" "us_used (ud_sessions s i)" "\<not> us_relay_port_claimed (ud_sessions s i)"
  shows "session_tables {} (give_back_session s i) L H"
proof -
  note T = session_tablesD [OF assms(1)]
  let ?b = "upd_session i (\<lambda>_. blank_session) s0"
  have "core (bpf2socks_udp_session_close s i) = core (upd_session i (\<lambda>_. blank_session) s)"
    using core_tables [OF tables_close [OF assms(5)]] assms(6) by simp
  also have "\<dots> = core (upd_session i (\<lambda>_. blank_session) (upd_session i (\<lambda>_. x) s0))" using assms(4) by (rule core_upd_cong)
  also have "\<dots> = core ?b" by (simp add: upd_session_def)
  finally have c: "core (bpf2socks_udp_session_close s i) = core ?b" .
  define f where "f = ?b\<lparr>ud_free_sessions := i # ud_free_sessions ?b\<rparr>"
  have v: "ud_sessions f j = (if j = i then blank_session else ud_sessions s0 j)" for j by (simp add: f_def upd_session_def)
  have w: "j \<in> set L \<Longrightarrow> ud_sessions f j = ud_sessions s0 j" for j using assms(3) v by auto
  have b: "us_used (ud_sessions f j) \<longleftrightarrow> j \<in> set L" for j using T(3) [of j] assms(3) v by auto
  have iX: "i \<notin> set (ud_free_sessions s0)" using T(7) by simp
  have g: "ud_lru f = ud_lru s0" "ud_handshakes f = ud_handshakes s0" "ud_session_buckets f = ud_session_buckets s0"
    "ud_free_sessions f = i # ud_free_sessions s0" "ud_session_cap f = ud_session_cap s0" "ud_session_count f = ud_session_count s0"
    "ud_local_session_count f = ud_local_session_count s0" "ud_relay_registry f = ud_relay_registry s0"
    by (simp_all add: f_def upd_session_def)
  have fl: "filter (\<lambda>j. bpf2socks_sockaddr_is_loopback (us_client_addr (ud_sessions f j))) L =
      filter (\<lambda>j. bpf2socks_sockaddr_is_loopback (us_client_addr (ud_sessions s0 j))) L"
    by (rule filter_cong [OF refl]) (use w in simp)
  have "session_tables {} f L H"
    unfolding session_tables_def g fl b
  proof (intro conjI allI ballI impI)
    show "set H = {j \<in> set L. us_handshake_linked (ud_sessions f j)}" unfolding T(5) using w by auto
    show "set (ud_session_buckets s0 k) = {j \<in> set L. session_bucket (us_client_addr (ud_sessions f j)) = k}" for k
      unfolding T(9) using w by auto
    show "inj_on (\<lambda>j. us_client_addr (ud_sessions f j)) (set L)" using T(12) w by (auto simp: inj_on_def)
    show "inj_on (\<lambda>j. us_relay_port (ud_sessions f j)) {j \<in> set L. us_relay_port_claimed (ud_sessions f j)}"
      using T(14) w by (auto simp: inj_on_def)
    show "set (i # ud_free_sessions s0) = {..<ud_session_cap s0} - set L - {}" using T(7) assms(2,3) by auto
  qed (use T iX w in auto)
  then show ?thesis unfolding give_back_session_def Let_def
    using session_tables_core [OF core_free [OF c]] f_def by blast
qed

lemma register_tables:
  assumes "session_tables {i} s0 L H" "i < ud_session_cap s0" "i \<notin> set L"
    and "core s = core (upd_session i (\<lambda>_. x) s0)" "us_used x" "\<not> us_handshake_linked x" "\<not> us_relay_port_claimed x"
    and "us_client_addr x \<notin> (\<lambda>j. us_client_addr (ud_sessions s0 j)) ` set L"
  shows "session_tables {} (register_session s i) (L @ [i]) (H @ [i])"
proof -
  note T = session_tablesD [OF assms(1)]
  have iH: "i \<notin> set H" using T(5) assms(3) by blast
  have c: "ud_lru s = ud_lru s0" "ud_handshakes s = ud_handshakes s0" "ud_session_buckets s = ud_session_buckets s0"
    "ud_free_sessions s = ud_free_sessions s0" "ud_session_cap s = ud_session_cap s0" "ud_session_count s = ud_session_count s0"
    "ud_local_session_count s = ud_local_session_count s0" "ud_relay_registry s = ud_relay_registry s0"
    "key_view (ud_sessions s j) = key_view (if j = i then x else ud_sessions s0 j)" for j
    using assms(4) by (auto simp: udp_core_fields upd_session_def split: if_splits)
  let ?r = "register_session s i" and ?k = "session_bucket (us_client_addr x)"
  have ci: "us_client_addr (ud_sessions s i) = us_client_addr x" using c(9) [of i] by (simp add: key_view_def)
  have g: "ud_lru ?r = list_add_tail (ud_lru s0) i" "ud_handshakes ?r = list_add_tail (ud_handshakes s0) i"
    "ud_session_buckets ?r = (ud_session_buckets s0)(?k := i # ud_session_buckets s0 ?k)"
    "ud_free_sessions ?r = ud_free_sessions s0" "ud_session_cap ?r = ud_session_cap s0" "ud_session_count ?r = ud_session_count s0 + 1"
    "ud_local_session_count ?r = ud_local_session_count s0 + (if bpf2socks_sockaddr_is_loopback (us_client_addr x) then 1 else 0)"
    "ud_relay_registry ?r = ud_relay_registry s0"
    using c(1-8) ci by (simp_all add: register_session_def Let_def bpf2socks_udp_handshake_add_tail_def lru_add_tail_def upd_session_def)
  have v: "us_used (ud_sessions ?r j) = us_used (if j = i then x else ud_sessions s0 j)"
    "us_client_addr (ud_sessions ?r j) = us_client_addr (if j = i then x else ud_sessions s0 j)"
    "us_relay_port (ud_sessions ?r j) = us_relay_port (if j = i then x else ud_sessions s0 j)"
    "us_relay_port_claimed (ud_sessions ?r j) = us_relay_port_claimed (if j = i then x else ud_sessions s0 j)"
    "us_handshake_linked (ud_sessions ?r j) = (if j = i then True else us_handshake_linked (ud_sessions s0 j))" for j
    using c(9) [of j] by (auto simp: register_session_def Let_def bpf2socks_udp_handshake_add_tail_def lru_add_tail_def upd_session_def key_view_def)
  have fl: "filter (\<lambda>j. bpf2socks_sockaddr_is_loopback (us_client_addr (if j = i then x else ud_sessions s0 j))) L =
      filter (\<lambda>j. bpf2socks_sockaddr_is_loopback (us_client_addr (ud_sessions s0 j))) L"
    using assms(3) by (auto intro!: filter_cong)
  have kb: "i \<notin> set (ud_session_buckets s0 k)" for k unfolding T(9) using assms(3) by simp
  show ?thesis unfolding session_tables_def g v
  proof (intro conjI allI ballI impI)
    show "dll (list_add_tail (ud_lru s0) i) (L @ [i])" using dll_list_add_tail [OF T(1) assms(3)] .
    show "dll (list_add_tail (ud_handshakes s0) i) (H @ [i])" using dll_list_add_tail [OF T(2) iH] .
    show "us_used (if j = i then x else ud_sessions s0 j) = (j \<in> set (L @ [i]))" for j using T(3) [of j] assms(5) by simp
    show "set (L @ [i]) \<subseteq> {..<ud_session_cap s0}" using T(4) assms(2) by simp
    show "set (H @ [i]) = {j \<in> set (L @ [i]). if j = i then True else us_handshake_linked (ud_sessions s0 j)}"
      unfolding set_append T(5) by auto
    show "distinct (ud_free_sessions s0)" using T(6) .
    show "set (ud_free_sessions s0) = {..<ud_session_cap s0} - set (L @ [i]) - {}" using T(7) by auto
    show "distinct (((ud_session_buckets s0)(?k := i # ud_session_buckets s0 ?k)) k)" for k using T(8) [of k] kb by auto
    show "set (((ud_session_buckets s0)(?k := i # ud_session_buckets s0 ?k)) k) =
        {j \<in> set (L @ [i]). session_bucket (us_client_addr (if j = i then x else ud_sessions s0 j)) = k}" for k
      by (cases "k = ?k") (use assms(3) in \<open>auto simp: T(9) split: if_splits\<close>)
    show "ud_session_count s0 + 1 = length (L @ [i])" using T(10) by simp
    show "ud_local_session_count s0 + (if bpf2socks_sockaddr_is_loopback (us_client_addr x) then 1 else 0) =
        length (filter (\<lambda>j. bpf2socks_sockaddr_is_loopback (us_client_addr (if j = i then x else ud_sessions s0 j))) (L @ [i]))"
      unfolding filter_append length_append fl using T(11) by simp
    show "inj_on (\<lambda>j. us_client_addr (if j = i then x else ud_sessions s0 j)) (set (L @ [i]))"
      using T(12) assms(3,8) by (auto simp: inj_on_def image_iff)
    show "inj_on (\<lambda>j. us_relay_port (if j = i then x else ud_sessions s0 j))
        {j \<in> set (L @ [i]). us_relay_port_claimed (if j = i then x else ud_sessions s0 j)}"
      using T(14) assms(7) by (auto simp: inj_on_def)
    show "ud_relay_registry s0 (us_relay_port (if j = i then x else ud_sessions s0 j))"
      if "j \<in> set (L @ [i])" "us_relay_port_claimed (if j = i then x else ud_sessions s0 j)" for j
      using that assms(7) T(13) [of j] by (auto split: if_splits)
  qed
qed

lemma fresh_fields:
  "us_used (fresh_session p now)" "\<not> us_handshake_linked (fresh_session p now)" "\<not> us_relay_port_claimed (fresh_session p now)"
  "us_client_addr (fresh_session p now) = cp_client_addr p"
  by (simp_all add: fresh_session_def blank_session_def)

lemma build_request_key: "bpf2socks_udp_associate_build_request x = Some y \<Longrightarrow> key_view y = key_view x"
  by (auto simp: bpf2socks_udp_associate_build_request_def Let_def key_view_def split: if_splits)

lemma open_sessions: "ud_sessions (open_udp_fd fd s) = ud_sessions s"
  by (simp add: open_udp_fd_def)

lemma open_core: "bpf2socks_udp_associate_open sock conn s = (r, s') \<Longrightarrow> core s' = core s \<and> ud_sessions s' = ud_sessions s"
  by (auto simp: bpf2socks_udp_associate_open_def Let_def open_sessions split: sum.splits option.splits if_splits)

lemma core_schedule: "core (schedule_retry now i s) = core s"
  by (simp add: schedule_retry_def Let_def core_upd_session key_view_def)

lemma core_note_new: "core (bpf2socks_udp_release_note_new_session s i now) = core s"
  by (simp add: bpf2socks_udp_release_note_new_session_def Let_def core_schedule)

lemma start_session_tables:
  assumes t: "session_tables {i} s L H" "i < ud_session_cap s" "i \<notin> set L"
    and new: "cp_client_addr p \<notin> (\<lambda>j. us_client_addr (ud_sessions s j)) ` set L"
    and run: "start_session env p s i = (r, s')"
  shows "case r of None \<Rightarrow> session_tables {} s' L H | Some k \<Rightarrow> k = i \<and> session_tables {} s' (L @ [i]) (H @ [i])"
proof -
  let ?x = "fresh_session p (ge_now env)"
  let ?s1 = "upd_session i (\<lambda>_. ?x) s"
  have gb: "session_tables {} (give_back_session u i) L H" if "core u = core ?s1" for u
  proof (rule give_back_tables [OF t that])
    have "key_view (ud_sessions u i) = key_view ?x" using that by (auto simp: udp_core_fields upd_session_def)
    then show "us_used (ud_sessions u i)" "\<not> us_relay_port_claimed (ud_sessions u i)" using fresh_fields by (auto simp: key_view_def)
  qed
  have iH: "i \<notin> set H" using session_tablesD(5) [OF t(1)] t(3) by blast
  show ?thesis
  proof (cases "bpf2socks_udp_associate_build_request (ud_sessions ?s1 i)")
    case None
    then show ?thesis using run gb [of ?s1] by (auto simp: start_session_def Let_def)
  next
    case (Some x)
    let ?s2 = "upd_session i (\<lambda>_. x) ?s1"
    obtain r2 s2 where op: "bpf2socks_udp_associate_open (ge_socket env) (ge_connect env) ?s2 = (r2, s2)" by fastforce
    have "core ?s2 = core ?s1" by (rule core_upd_session_at) (use build_request_key [OF Some] in simp)
    then have c2: "core s2 = core ?s1" using open_core [OF op] by simp
    show ?thesis
    proof (cases r2)
      case (Inl e)
      then show ?thesis using run Some op gb [OF c2] by (auto simp: start_session_def Let_def)
    next
      case (Inr fs)
      obtain fd stage where fs: "fs = (fd, stage)" by fastforce
      let ?s3 = "register_session (upd_session i (\<lambda>x. x\<lparr>us_tcp_fd := fd, us_stage := stage\<rparr>) s2) i"
      have "core (upd_session i (\<lambda>x. x\<lparr>us_tcp_fd := fd, us_stage := stage\<rparr>) s2) = core ?s1"
        using c2 by (simp add: core_upd_session key_view_def)
      from register_tables [OF t this fresh_fields(1-3)] new fresh_fields(4)
      have t3: "session_tables {} ?s3 (L @ [i]) (H @ [i])" by simp
      obtain r4 s4 where ct: "bpf2socks_udp_epoll_add_session_control (ge_ctl env) (EPOLLIN OR EPOLLOUT) ?s3 i = (r4, s4)" by fastforce
      have t4: "session_tables {} s4 (L @ [i]) (H @ [i])" using t3 session_tables_core [OF core_control [OF ct]] by blast
      have u4: "us_used (ud_sessions s4 i)" using session_tablesD(3) [OF t4, of i] by simp
      have d: "remove1 i (L @ [i]) = L" "remove1 i (H @ [i]) = H" using t(3) iH by (simp_all add: remove1_append)
      show ?thesis
      proof (cases r4)
        case None
        have "s' = bpf2socks_udp_release_note_new_session s4 i (us_last_seen_ms (ud_sessions s4 i))" "r = Some i"
          using run Some op Inr fs ct None by (simp_all add: start_session_def Let_def)
        then show ?thesis using t4 session_tables_core [OF core_note_new] by simp
      next
        case e: (Some e)
        have "s' = bpf2socks_udp_session_drop s4 i" "r = None"
          using run Some op Inr fs ct e by (simp_all add: start_session_def Let_def)
        then show ?thesis using drop_session_tables [OF t4 u4] d by simp
      qed
    qed
  qed
qed

section \<open>The handshake of a session\<close>

text \<open>The tables are consistent and the session is in them.\<close>

definition live :: "nat \<Rightarrow> udp_state \<Rightarrow> bool" where
  "live i s \<longleftrightarrow> consistent s \<and> us_used (ud_sessions s i)"

lemma live_core: "core s' = core s \<Longrightarrow> live i s' = live i s"
  using consistent_core [of s' s] by (auto simp: live_def udp_core_fields key_view_def)

lemma liveE:
  assumes "live i s"
  obtains L H where "session_tables {} s L H" "i \<in> set L"
  using assms session_tablesD(3) unfolding live_def consistent_def by metis

lemma liveI: "session_tables {} s L H \<Longrightarrow> i \<in> set L \<Longrightarrow> live i s"
  using session_tablesD(3) unfolding live_def consistent_def by metis

lemma live_touch: "live i s \<Longrightarrow> live i (bpf2socks_udp_lru_touch s i)"
  by (erule liveE, drule (1) touch_tables, erule liveI) simp

lemma live_handshake_remove: "live i s \<Longrightarrow> live i (bpf2socks_udp_handshake_remove s i)"
  by (erule liveE, drule (1) handshake_remove_tables, erule liveI)

lemma live_handshake_restart: "live i s \<Longrightarrow> live i (bpf2socks_udp_handshake_add_tail (bpf2socks_udp_handshake_remove s i) i now)"
proof (erule liveE)
  fix L H assume t: "session_tables {} s L H" "i \<in> set L"
  have "\<not> us_handshake_linked (ud_sessions (bpf2socks_udp_handshake_remove s i) i)" by (simp add: bpf2socks_udp_handshake_remove_def)
  from handshake_add_tables [OF handshake_remove_tables [OF t] t(2) this] t(2)
  show "live i (bpf2socks_udp_handshake_add_tail (bpf2socks_udp_handshake_remove s i) i now)" by (rule liveI)
qed

lemma live_claim:
  assumes "live i s" "bpf2socks_udp_relay_port_claim s port = (True, s')"
  shows "live i (upd_session i (\<lambda>x. x\<lparr>us_relay_port := port, us_relay_port_claimed := True\<rparr>) s')"
proof -
  obtain L H where t: "session_tables {} s L H" "i \<in> set L" using assms(1) by (rule liveE)
  note T = session_tablesD [OF t(1)]
  have s': "\<not> ud_relay_registry s port" "s' = s\<lparr>ud_relay_registry := (ud_relay_registry s)(port := True)\<rparr>"
    using assms(2) by (auto simp: bpf2socks_udp_relay_port_claim_def split: if_splits)
  let ?s = "upd_session i (\<lambda>x. x\<lparr>us_relay_port := port, us_relay_port_claimed := True\<rparr>) s'"
  have free: "us_relay_port (ud_sessions s j) \<noteq> port" if "j \<in> set L" "us_relay_port_claimed (ud_sessions s j)" for j
    using T(13) [OF that] s'(1) by auto
  have f: "us_used (ud_sessions ?s j) = us_used (ud_sessions s j)" "us_client_addr (ud_sessions ?s j) = us_client_addr (ud_sessions s j)"
    "us_relay_port (ud_sessions ?s j) = (if j = i then port else us_relay_port (ud_sessions s j))"
    "us_relay_port_claimed (ud_sessions ?s j) = (j = i \<or> us_relay_port_claimed (ud_sessions s j))"
    "us_handshake_linked (ud_sessions ?s j) = us_handshake_linked (ud_sessions s j)" for j
    by (simp_all add: s'(2))
  have g: "ud_lru ?s = ud_lru s" "ud_handshakes ?s = ud_handshakes s" "ud_session_buckets ?s = ud_session_buckets s"
    "ud_free_sessions ?s = ud_free_sessions s" "ud_session_cap ?s = ud_session_cap s" "ud_session_count ?s = ud_session_count s"
    "ud_local_session_count ?s = ud_local_session_count s" "ud_relay_registry ?s = (ud_relay_registry s)(port := True)"
    by (simp_all add: s'(2) upd_session_def)
  have "inj_on (\<lambda>j. if j = i then port else us_relay_port (ud_sessions s j)) {j \<in> set L. j = i \<or> us_relay_port_claimed (ud_sessions s j)}"
    using T(14) free by (auto simp: inj_on_def)
  then have "session_tables {} ?s L H" using t(1) unfolding session_tables_def f g by auto
  then show ?thesis using t(2) by (rule liveI)
qed

lemma live_flush:
  assumes "live i s" "flush_session_pending_packets batches s i = Some (r, s')"
  shows "live i s'"
  using assms
proof (induction batches arbitrary: s)
  case Nil
  then show ?case by (auto simp: flush_session_pending_packets.simps [of "[]"] Let_def split: if_splits)
next
  case (Cons b batches)
  obtain results now where b: "b = (results, now)" by fastforce
  let ?packets = "take UDP_MAX_BATCH (us_pending (ud_sessions s i))"
  have sent: "core s1 = core s" if "bpf2socks_udp_relay_send_batch results (map pending_message ?packets) s = Some (q, s1)" for q s1
    using that by (auto simp: bpf2socks_udp_relay_send_batch_def split: option.splits sum.splits)
  define next_state where "next_state s1 = fold (\<lambda>p s. bpf2socks_udp_session_release_pending s p) ?packets
    (upd_session i (\<lambda>x. x\<lparr>us_pending := drop UDP_MAX_BATCH (us_pending x)\<rparr>)
      (bpf2socks_udp_lru_touch (upd_session i (\<lambda>x. x\<lparr>us_last_seen_ms := now\<rparr>) s1) i))" for s1
  have step: "live i (next_state s1)" if "live i s1" for s1
  proof -
    have "core (upd_session i (\<lambda>x. x\<lparr>us_last_seen_ms := now\<rparr>) s1) = core s1" by (rule core_upd_session) (simp add: key_view_def)
    from live_touch [OF live_core [OF this, THEN iffD2, OF that]]
    show ?thesis unfolding next_state_def
      by (rule live_core [THEN iffD2, rotated]) (simp add: core_fold bpf2socks_udp_session_release_pending_def core_upd_session key_view_def)
  qed
  from Cons.prems(2) b consider "s' = s"
    | q s1 where "bpf2socks_udp_relay_send_batch results (map pending_message ?packets) s = Some (q, s1)" "s' = s1"
    | q s1 where "bpf2socks_udp_relay_send_batch results (map pending_message ?packets) s = Some (q, s1)"
      "flush_session_pending_packets batches (next_state s1) i = Some (r, s')"
    by (auto simp: flush_session_pending_packets.simps [of "c # cs" for c cs] Let_def next_state_def split: if_splits option.splits sum.splits)
  then show ?case
  proof cases
    case 1
    then show ?thesis using Cons.prems(1) by simp
  next
    case 2
    then show ?thesis using Cons.prems(1) live_core [OF sent] by blast
  next
    case 3
    then show ?thesis using Cons.prems(1) live_core [OF sent] step Cons.IH by blast
  qed
qed

lemma live_upd: "(\<And>x. key_view (f x) = key_view x) \<Longrightarrow> live i (upd_session j f s) = live i s"
  by (rule live_core [OF core_upd_session])

lemma live_upd_at: "key_view x = key_view (ud_sessions s i) \<Longrightarrow> live i (upd_session i (\<lambda>_. x) s) = live i s"
  by (rule live_core [OF core_upd_session_at])

lemma flush_write_key: "flush_udp_associate_write results x = Some (r, y) \<Longrightarrow> key_view y = key_view x"
proof (induction results arbitrary: x)
  case Nil
  then show ?case by (auto simp: flush_udp_associate_write.simps [of "[]"] key_view_def split: if_splits)
next
  case (Cons a results)
  then show ?case
    by (auto simp: flush_udp_associate_write.simps [of "c # cs" for c cs] key_view_def split: if_splits sum.splits)
qed

lemma read_bytes_key: "read_udp_associate_bytes results x = Some (r, y) \<Longrightarrow> key_view y = key_view x"
proof (induction results arbitrary: x)
  case Nil
  then show ?case by (auto simp: read_udp_associate_bytes.simps [of "[]"] split: if_splits)
next
  case (Cons a results)
  show ?case
  proof (cases a)
    case (Inl e)
    then show ?thesis using Cons by (auto simp: read_udp_associate_bytes.simps [of "c # cs" for c cs] split: if_splits)
  next
    case (Inr bs)
    have "key_view (x\<lparr>us_associate_read_buf := c\<rparr>) = key_view x" "key_view (x\<lparr>us_associate_read_buf := c, us_associate_read_expected := n\<rparr>) = key_view x"
      for c n by (simp_all add: key_view_def)
    then show ?thesis using Inr Cons.prems Cons.IH
      by (auto simp: read_udp_associate_bytes.simps [of "c # cs" for c cs] Let_def split: if_splits option.splits)
  qed
qed

lemma read_hello_key: "read_udp_associate_hello results x = Some (r, y) \<Longrightarrow> key_view y = key_view x"
  by (auto simp: read_udp_associate_hello_def split: option.splits progress.splits if_splits dest!: read_bytes_key)
    (simp_all add: key_view_def)

lemma live_restart:
  assumes "live i s" "restart_udp_associate env s i = (r, s')"
  shows "live i s'"
proof -
  define s3 where "s3 = upd_session i (\<lambda>x. x\<lparr>us_tcp_fd := -1, us_udp_fd := -1, us_relay_addr := None, us_relay_connected := False\<rparr>)
    (close_udp_fd (us_udp_fd (ud_sessions s i)) (close_udp_fd (us_tcp_fd (ud_sessions s i)) (bpf2socks_udp_epoll_remove (us_tcp_fd (ud_sessions s i)) s)))"
  have "core s3 = core s" unfolding s3_def by (simp add: core_upd_session key_view_def)
  then have l3: "live i s3" using assms(1) live_core by blast
  note run = assms(2) [unfolded restart_udp_associate_def Let_def, folded s3_def]
  show ?thesis
  proof (cases "bpf2socks_udp_associate_build_request (ud_sessions s3 i)")
    case None
    then show ?thesis using run l3 by simp
  next
    case (Some x)
    obtain q s4 where op: "bpf2socks_udp_associate_open (as_tcp_socket env) (as_connect env) (upd_session i (\<lambda>_. x) s3) = (q, s4)" by fastforce
    have l4: "live i s4" using l3 live_upd_at [OF build_request_key [OF Some]] live_core open_core [OF op] by blast
    show ?thesis
    proof (cases q)
      case (Inl e)
      then show ?thesis using run Some op l4 by simp
    next
      case (Inr fs)
      obtain fd stage where fs: "fs = (fd, stage)" by fastforce
      define s5 where "s5 = upd_session i (\<lambda>x. x\<lparr>us_tcp_fd := fd, us_stage := stage\<rparr>) s4"
      have "live i s5" unfolding s5_def using l4 by (simp add: live_upd key_view_def)
      from live_handshake_restart [OF this] show ?thesis
        using run Some op Inr fs live_core [OF core_control] by (auto simp: s5_def split: prod.splits option.splits)
    qed
  qed
qed

lemma live_established:
  assumes "live i s" "relay_established env s i = Some (r, s')"
  shows "live i s'"
proof -
  obtain q s1 where sw: "bpf2socks_udp_epoll_switch_session_to_relay (as_ctl1 env) (as_ctl2 env) s i = (q, s1)" by fastforce
  have l1: "live i s1" using assms(1) live_core core_switch [OF sw] by blast
  have "live i (upd_counters (\<lambda>n. n\<lparr>st_udp_associate_creates := st_udp_associate_creates n + 1\<rparr>)
      (bpf2socks_udp_handshake_remove (upd_session i (\<lambda>x. x\<lparr>us_stage := SESSION_READY\<rparr>) s1) i))"
    using l1 live_handshake_remove live_core [OF udp_core_frame(1)] by (simp add: live_upd key_view_def)
  from live_flush [OF this] show ?thesis
    using assms(2) sw l1 by (auto simp: relay_established_def split: option.splits)
qed

lemma live_complete:
  assumes "live i s" "complete_udp_associate resolve socks env s i = Some (r, s')"
  shows "live i s'"
proof -
  obtain q s1 where cr: "create_udp_associate_relay_socket resolve socks env s i = (q, s1)" by fastforce
  have "core s1 = core s" using cr
    by (auto simp: create_udp_associate_relay_socket_def Let_def core_upd_session key_view_def split: progress.splits sum.splits if_splits)
  then have l1: "live i s1" using assms(1) live_core by blast
  define port where "port = (case us_relay_addr (ud_sessions s1 i) of Some a \<Rightarrow> ss_port a | None \<Rightarrow> 0)"
  obtain b s2 where cl: "bpf2socks_udp_relay_port_claim s1 port = (b, s2)" by fastforce
  note run = assms(2) [unfolded complete_udp_associate_def Let_def cr prod.case, folded port_def]
  show ?thesis
  proof (cases "q = Inr () \<and> bpf2socks_udp_relay_port_needs_claim socks port")
    case False
    then show ?thesis using run l1 live_established [OF l1] by (auto split: sum.splits)
  next
    case need: True
    show ?thesis
    proof (cases b)
      case True
      from live_claim [OF l1] cl True have "live i (upd_session i (\<lambda>x. x\<lparr>us_relay_port := port, us_relay_port_claimed := True\<rparr>) s2)" by simp
      from live_established [OF this] show ?thesis using run need cl True by simp
    next
      case False
      have s2: "s2 = s1" using cl False by (auto simp: bpf2socks_udp_relay_port_claim_def split: if_splits)
      define s3 where "s3 = upd_counters (\<lambda>n. n\<lparr>st_udp_relay_port_collisions := st_udp_relay_port_collisions n + 1\<rparr>) s1"
      have l3: "live i s3" unfolding s3_def using l1 live_core [OF udp_core_frame(1)] by blast
      then have l4: "live i (upd_session i (\<lambda>x. x\<lparr>us_associate_retries := us_associate_retries x + 1\<rparr>) s3)"
        by (simp add: live_upd key_view_def)
      from live_restart [OF l4] live_established [OF l3] show ?thesis
        using run need cl False s2 by (auto simp: s3_def [symmetric] split: if_splits)
    qed
  qed
qed

lemma live_advance_steps:
  "live i s \<Longrightarrow> advance_connect env events s i = (r, s') \<Longrightarrow> live i s'"
  "live i s \<Longrightarrow> advance_write env events s i = Some (r, s') \<Longrightarrow> live i s'"
  "live i s \<Longrightarrow> advance_hello env events s i = Some (r, s') \<Longrightarrow> live i s'"
  "live i s \<Longrightarrow> advance_response resolve socks env events s i = Some (r2, s') \<Longrightarrow> live i s'"
proof -
  assume l: "live i s"
  show "live i s'" if "advance_connect env events s i = (r, s')"
    using that l by (auto simp: advance_connect_def finish_udp_associate_connect_def live_upd_at key_view_def split: if_splits option.splits)
  show "live i s'" if "advance_write env events s i = Some (r, s')"
    using that l by (auto simp: advance_write_def Let_def live_upd_at flush_write_key live_core [OF core_epoll_set]
        split: if_splits option.splits progress.splits prod.splits)
  show "live i s'" if "advance_hello env events s i = Some (r, s')"
    using that l by (auto simp: advance_hello_def live_upd_at read_hello_key split: if_splits option.splits progress.splits prod.splits)
  show "live i s'" if "advance_response resolve socks env events s i = Some (r2, s')"
    using that l by (auto simp: advance_response_def live_upd_at read_bytes_key split: if_splits option.splits progress.splits prod.splits)
      (metis live_complete live_upd_at read_bytes_key)
qed

lemma live_advance:
  assumes l: "live i s" and run: "bpf2socks_udp_associate_advance resolve socks env events s i = Some (r, s')"
  shows "live i s'"
proof (cases "events AND (EPOLLERR OR EPOLLHUP) \<noteq> 0")
  case True
  then show ?thesis using run l by (simp add: bpf2socks_udp_associate_advance_def)
next
  case ok: False
  obtain q1 s1 where a1: "advance_connect env events s i = (q1, s1)" by fastforce
  note l1 = live_advance_steps(1) [OF l a1]
  from run ok a1 consider "s' = s1"
    | q2 s2 where "advance_write env events s1 i = Some (q2, s2)" "s' = s2"
    | q2 s2 q3 s3 where "advance_write env events s1 i = Some (q2, s2)" "advance_hello env events s2 i = Some (q3, s3)" "s' = s3"
    | q2 s2 q3 s3 where "advance_write env events s1 i = Some (q2, s2)" "advance_hello env events s2 i = Some (q3, s3)"
      "advance_response resolve socks env events s3 i = Some (r, s')"
    by (auto simp: bpf2socks_udp_associate_advance_def split: sum.splits option.splits bool.splits)
  then show ?thesis using live_advance_steps(2-4) l1 by cases blast+
qed

end
