(* ===== verification/Udp_Release_Correct.thy ===== *)
theory Udp_Release_Correct
  imports Udp_Associate_Correct
begin

text \<open>
  The release of sessions whose client is gone: the bitmap of ports is a set of ports, one pass over
  the flagged sessions releases exactly those it should, and a lost notification flags every local
  session.
\<close>

section \<open>The bitmap is a set of ports\<close>

lemma bit_test: "n < 8 \<Longrightarrow> (w :: u8) AND push_bit n 1 \<noteq> 0 \<longleftrightarrow> bit w n"
  by (simp add: and_exp_eq_0_iff_not_bit flip: push_bit_eq_mult)

lemma port_split: "(p :: u16) = q \<longleftrightarrow> drop_bit 3 p = drop_bit 3 q \<and> p AND 7 = q AND 7"
proof
  assume *: "drop_bit 3 p = drop_bit 3 q \<and> p AND 7 = q AND 7"
  have m: "x AND 7 = take_bit 3 x" for x :: u16 by (simp add: take_bit_eq_mask mask_eq_exp_minus_1)
  have "p = push_bit 3 (drop_bit 3 p) + take_bit 3 p" "q = push_bit 3 (drop_bit 3 q) + take_bit 3 q"
    by (simp_all add: bits_ident)
  with * m show "p = q" by metis
qed simp

lemma port_index: "unat (drop_bit 3 (p :: u16)) < 8192" "unat (p AND 7) < 8"
proof -
  have "unat (drop_bit 3 p) = unat p div 8" by (simp add: drop_bit_eq_div unat_div)
  moreover have "unat p < 65536" using unsigned_less [of p, where ?'a = nat] by simp
  ultimately show "unat (drop_bit 3 p) < 8192" by simp
  have "p AND 7 \<le> 7" by (rule word_and_le1)
  then show "unat (p AND 7) < 8" by (simp add: word_le_nat_alt)
qed

lemma bitmap_has_bit: "bpf2socks_udp_port_bitmap_has m p \<longleftrightarrow> bit (m ! unat (drop_bit 3 p)) (unat (p AND 7))"
  unfolding bpf2socks_udp_port_bitmap_has_def by (rule bit_test [OF port_index(2)])

lemma bitmap_set_length [simp]: "length (bpf2socks_udp_port_bitmap_set m p) = length m"
  by (simp add: bpf2socks_udp_port_bitmap_set_def Let_def)

lemma bitmap_has_set:
  assumes "length m = PORT_BITMAP_BYTES"
  shows "bpf2socks_udp_port_bitmap_has (bpf2socks_udp_port_bitmap_set m p) q \<longleftrightarrow> q = p \<or> bpf2socks_udp_port_bitmap_has m q"
proof (cases "drop_bit 3 q = drop_bit 3 p")
  case True
  have "bit (m ! unat (drop_bit 3 p) OR push_bit (unat (p AND 7)) 1) (unat (q AND 7)) \<longleftrightarrow>
      bit (m ! unat (drop_bit 3 p)) (unat (q AND 7)) \<or> unat (q AND 7) = unat (p AND 7)"
    using port_index(2) [of q] port_index(2) [of p] by (auto simp: bit_simps)
  then show ?thesis using True port_split [of q p] assms port_index(1) [of p] word_unat_eq_iff [of "q AND 7" "p AND 7"]
    by (auto simp: bitmap_has_bit bpf2socks_udp_port_bitmap_set_def Let_def PORT_BITMAP_BYTES_def)
next
  case False
  then have "unat (drop_bit 3 q) \<noteq> unat (drop_bit 3 p)" "q \<noteq> p" using word_unat_eq_iff by blast+
  then show ?thesis by (simp add: bitmap_has_bit bpf2socks_udp_port_bitmap_set_def Let_def nth_list_update)
qed

lemma bitmap_has_zero [simp]: "\<not> bpf2socks_udp_port_bitmap_has (zero_bytes PORT_BITMAP_BYTES) p"
  using port_index(1) [of p] by (simp add: bitmap_has_bit zero_bytes_def PORT_BITMAP_BYTES_def)

section \<open>One pass over the flagged sessions\<close>

text \<open>
  A session is flagged when its client is local and its port is in the bitmap; it is gone when
  moreover no socket holds the port and no reply waits for it.
\<close>

definition flagged :: "udp_state \<Rightarrow> udp_session \<Rightarrow> bool" where
  "flagged s x \<longleftrightarrow> session_client_is_local x \<and> bpf2socks_udp_port_bitmap_has (ud_released_ports s) (session_client_port x)"

definition gone :: "(u16 \<Rightarrow> int) \<Rightarrow> udp_state \<Rightarrow> udp_session \<Rightarrow> bool" where
  "gone query s x \<longleftrightarrow> flagged s x \<and> \<not> draining x \<and> query (session_client_port x) = 0"

definition after_release :: "(u16 \<Rightarrow> int) \<Rightarrow> u64 \<Rightarrow> udp_state \<Rightarrow> udp_session \<Rightarrow> udp_session" where
  "after_release query now s x =
    (if gone query s x then blank_session
     else if flagged s x \<and> draining x then x\<lparr>us_release_retry_ms := now + RELEASE_RETRY_MILLISECONDS\<rparr> else x)"

lemma notices_drop: "notices (bpf2socks_udp_session_drop s i) = notices s"
proof (cases "us_used (ud_sessions s i)")
  case True
  from tables_cong(19) [OF drop_tables [OF True]] show ?thesis by (simp add: unregistered_fields)
qed (simp add: bpf2socks_udp_session_drop_def)

lemma released_ports_frame [simp]:
  "ud_released_ports (bpf2socks_udp_session_drop s i) = ud_released_ports s"
  "ud_released_ports (upd_counters f s) = ud_released_ports s"
  "ud_released_ports (schedule_retry now i s) = ud_released_ports s"
  using notices_drop [of s i] by (simp_all add: notices_def upd_counters_def schedule_retry_def Let_def upd_session_def)

lemma sessions_schedule: "ud_sessions (schedule_retry now i s) =
    (ud_sessions s)(i := (ud_sessions s i)\<lparr>us_release_retry_ms := now + RELEASE_RETRY_MILLISECONDS\<rparr>)"
  by (simp add: schedule_retry_def Let_def upd_session_def)

lemma lru_schedule: "ud_lru (schedule_retry now i s) = ud_lru s"
  by (simp add: schedule_retry_def Let_def upd_session_def)

lemma memo_exact:
  assumes "\<forall>(a, r) \<in> set memo. r = query a"
  shows "fst (release_port_has_socket query memo port) = query port"
    "\<forall>(a, r) \<in> set (snd (release_port_has_socket query memo port)). r = query a"
  using assms by (auto simp: release_port_has_socket_def split: option.splits dest: map_of_SomeD)

lemma release_flagged_loop_result:
  fixes m :: 'm
  assumes "session_tables {} s (K @ M) H" "p = first_or None M" "\<forall>(a, r) \<in> set memo. r = query a"
  shows "\<exists>s' m' H'. release_flagged_loop ops listen_port query now memo p (s, m) = Some (s', m') \<and>
    session_tables {} s' (K @ filter (\<lambda>i. \<not> gone query s (ud_sessions s i)) M) H' \<and>
    (\<forall>j. ud_sessions s' j = (if j \<in> set M then after_release query now s (ud_sessions s j) else ud_sessions s j))"
  using assms
proof (induction M arbitrary: s m K H p memo)
  case Nil
  then show ?case by (auto simp: release_flagged_loop.simps)
next
  case (Cons i M)
  note T = session_tablesD [OF Cons.prems(1)]
  have u: "us_used (ud_sessions s i)" using T(3) by simp
  have d: "distinct (K @ i # M)" by (rule T(15))
  have iM: "i \<notin> set M" using d by simp
  have nx: "lk_next (ud_lru s) i = first_or None M" using T(1) by (simp add: dll_def)
  let ?x = "ud_sessions s i"
  have skip: ?case
    if "release_flagged_loop ops listen_port query now memo p (s, m) = release_flagged_loop ops listen_port query now memo' (first_or None M) (s, m)"
      "\<forall>(a, r) \<in> set memo'. r = query a" and x: "\<not> gone query s ?x" "after_release query now s ?x = ?x" for memo'
  proof -
    have "session_tables {} s ((K @ [i]) @ M) H" using Cons.prems(1) by simp
    from Cons.IH [OF this refl that(2)] obtain s' m' H' where
      *: "release_flagged_loop ops listen_port query now memo' (first_or None M) (s, m) = Some (s', m')"
      "session_tables {} s' ((K @ [i]) @ filter (\<lambda>i. \<not> gone query s (ud_sessions s i)) M) H'"
      "\<And>j. ud_sessions s' j = (if j \<in> set M then after_release query now s (ud_sessions s j) else ud_sessions s j)" by blast
    have "ud_sessions s' j = (if j \<in> set (i # M) then after_release query now s (ud_sessions s j) else ud_sessions s j)" for j
      using *(3) [of j] x by auto
    then show ?thesis using *(1,2) x unfolding that(1) by auto
  qed
  note loop = release_flagged_loop.simps [of ops listen_port query now memo "Some i" "(s, m)"]
  show ?case
  proof (cases "flagged s ?x")
    case False
    have run: "release_flagged_loop ops listen_port query now memo p (s, m) = release_flagged_loop ops listen_port query now memo (first_or None M) (s, m)"
      using Cons.prems(2) False u nx by (simp add: loop flagged_def Let_def)
    show ?thesis by (rule skip [OF run Cons.prems(3)]) (use False in \<open>simp_all add: gone_def after_release_def\<close>)
  next
    case fl: True
    show ?thesis
    proof (cases "draining ?x")
      case True
      let ?s = "schedule_retry now i s"
      have run: "release_flagged_loop ops listen_port query now memo p (s, m) = release_flagged_loop ops listen_port query now memo (first_or None M) (?s, m)"
        using Cons.prems(2) fl True u nx by (simp add: loop flagged_def Let_def)
      have "session_tables {} ?s ((K @ [i]) @ M) H" using Cons.prems(1) session_tables_core [OF core_schedule] by simp
      from Cons.IH [OF this refl Cons.prems(3)] obtain s' m' H' where
        *: "release_flagged_loop ops listen_port query now memo (first_or None M) (?s, m) = Some (s', m')"
        "session_tables {} s' ((K @ [i]) @ filter (\<lambda>i. \<not> gone query ?s (ud_sessions ?s i)) M) H'"
        "\<And>j. ud_sessions s' j = (if j \<in> set M then after_release query now ?s (ud_sessions ?s j) else ud_sessions ?s j)" by blast
      have same: "flagged ?s = flagged s" "gone query ?s = gone query s" "after_release query now ?s = after_release query now s"
        by (auto simp: fun_eq_iff flagged_def gone_def after_release_def)
      have e: "filter (\<lambda>i. \<not> gone query ?s (ud_sessions ?s i)) M = filter (\<lambda>i. \<not> gone query s (ud_sessions s i)) M"
        by (rule filter_cong [OF refl]) (use iM in \<open>auto simp: same sessions_schedule\<close>)
      have "ud_sessions s' j = (if j \<in> set (i # M) then after_release query now s (ud_sessions s j) else ud_sessions s j)" for j
        using *(3) [of j] iM fl True by (auto simp: same sessions_schedule after_release_def gone_def)
      then show ?thesis using *(1,2) fl True unfolding run e by (auto simp: gone_def)
    next
      case nd: False
      obtain r memo' where h: "release_port_has_socket query memo (session_client_port ?x) = (r, memo')" by fastforce
      have r: "r = query (session_client_port ?x)" and memo': "\<forall>(a, r) \<in> set memo'. r = query a"
        using memo_exact [OF Cons.prems(3), of "session_client_port ?x"] h by simp_all
      show ?thesis
      proof (cases "r = 0")
        case False
        have run: "release_flagged_loop ops listen_port query now memo p (s, m) = release_flagged_loop ops listen_port query now memo' (first_or None M) (s, m)"
          using Cons.prems(2) fl nd h False u nx by (simp add: loop flagged_def Let_def)
        show ?thesis by (rule skip [OF run memo']) (use False r nd in \<open>simp_all add: gone_def after_release_def\<close>)
      next
        case True
        let ?s = "upd_counters (\<lambda>n. n\<lparr>st_udp_closed_client_releases := st_udp_closed_client_releases n + 1\<rparr>) (bpf2socks_udp_session_drop s i)"
        let ?m = "bpf2socks_udp_token_delete_closed_client ops listen_port s i m"
        have run: "release_flagged_loop ops listen_port query now memo p (s, m) = release_flagged_loop ops listen_port query now memo' (first_or None M) (?s, ?m)"
          using Cons.prems(2) fl nd h True u nx by (simp add: loop flagged_def Let_def)
        have "session_tables {} ?s (K @ M) (remove1 i H)"
          using drop_session_tables [OF Cons.prems(1) u] d by (simp add: remove1_append session_tables_counters)
        from Cons.IH [OF this refl memo'] obtain s' m' H' where
          *: "release_flagged_loop ops listen_port query now memo' (first_or None M) (?s, ?m) = Some (s', m')"
          "session_tables {} s' (K @ filter (\<lambda>i. \<not> gone query ?s (ud_sessions ?s i)) M) H'"
          "\<And>j. ud_sessions s' j = (if j \<in> set M then after_release query now ?s (ud_sessions ?s j) else ud_sessions ?s j)" by blast
        have same: "flagged ?s = flagged s" "gone query ?s = gone query s" "after_release query now ?s = after_release query now s"
          by (auto simp: fun_eq_iff flagged_def gone_def after_release_def)
        have v: "ud_sessions ?s = (ud_sessions s)(i := blank_session)" using dropped_sessions [OF u] by simp
        have e: "filter (\<lambda>i. \<not> gone query ?s (ud_sessions ?s i)) M = filter (\<lambda>i. \<not> gone query s (ud_sessions s i)) M"
          unfolding v same by (rule filter_cong [OF refl]) (use iM in auto)
        have g: "gone query s ?x" using fl nd True r by (simp add: gone_def)
        have "ud_sessions s' j = (if j \<in> set (i # M) then after_release query now s (ud_sessions s j) else ud_sessions s j)" for j
          using *(3) [of j] iM g unfolding v same by (auto simp: after_release_def)
        then show ?thesis using *(1,2) g unfolding run e by auto
      qed
    qed
  qed
qed

section \<open>Notifications\<close>

text \<open>
  The reference: the reads up to the one that ends the drain, the ports they report, and whether the
  kernel had to discard notifications.
\<close>

definition drained :: "(errno + diag_message list) list \<Rightarrow> (errno + diag_message list) list" where
  "drained reads = takeWhile (\<lambda>r. case r of Inl e \<Rightarrow> e = EINTR \<or> e = ENOBUFS | Inr _ \<Rightarrow> True) reads"

definition reported :: "(errno + diag_message list) list \<Rightarrow> u16 set" where
  "reported reads = {p. \<exists>ms m. Inr ms \<in> set (drained reads) \<and> m \<in> set ms \<and> dm_by_family m \<and> dm_complete m \<and> dm_sport m = p}"

definition discarded :: "(errno + diag_message list) list \<Rightarrow> bool" where
  "discarded reads \<longleftrightarrow> Inl ENOBUFS \<in> set (drained reads)"

lemma drain_messages:
  assumes "length m = PORT_BITMAP_BYTES" "fold drain_message ms (m, n) = (m', n')"
  shows "length m' = PORT_BITMAP_BYTES \<and> n \<le> n' \<and> (n = n' \<longleftrightarrow> (\<forall>x \<in> set ms. \<not> (dm_by_family x \<and> dm_complete x))) \<and>
    (\<forall>p. bpf2socks_udp_port_bitmap_has m' p \<longleftrightarrow> bpf2socks_udp_port_bitmap_has m p \<or> (\<exists>x \<in> set ms. dm_by_family x \<and> dm_complete x \<and> dm_sport x = p))"
  using assms
proof (induction ms arbitrary: m n)
  case (Cons x ms)
  show ?case
  proof (cases "dm_by_family x \<and> dm_complete x")
    case True
    then have "fold drain_message ms (bpf2socks_udp_port_bitmap_set m (dm_sport x), n + 1) = (m', n')"
      using Cons.prems(2) by (simp add: drain_message_def [of x "(m, n)"])
    from Cons.IH [OF _ this] Cons.prems(1) True show ?thesis by (auto simp: bitmap_has_set)
  next
    case False
    then have "fold drain_message ms (m, n) = (m', n')" using Cons.prems(2) by (simp add: drain_message_def [of x "(m, n)"])
    from Cons.IH [OF Cons.prems(1) this] False show ?thesis by auto
  qed
qed simp

lemma drain_exact:
  assumes "length m = PORT_BITMAP_BYTES" "drained reads \<noteq> reads"
  shows "\<exists>n' m'. bpf2socks_udp_destroy_events_drain reads m n lost = Some (n', m', lost \<or> discarded reads) \<and>
    length m' = PORT_BITMAP_BYTES \<and> n \<le> n' \<and> (n = n' \<longleftrightarrow> reported reads = {}) \<and>
    (\<forall>p. bpf2socks_udp_port_bitmap_has m' p \<longleftrightarrow> bpf2socks_udp_port_bitmap_has m p \<or> p \<in> reported reads)"
  using assms
proof (induction reads arbitrary: m n lost)
  case Nil
  then show ?case by (simp add: drained_def)
next
  case (Cons r reads)
  show ?case
  proof (cases r)
    case (Inl e)
    show ?thesis
    proof (cases "e = EINTR \<or> e = ENOBUFS")
      case True
      then have d: "drained (r # reads) = r # drained reads" using Inl by (auto simp: drained_def)
      then have e: "reported (r # reads) = reported reads" "discarded (r # reads) \<longleftrightarrow> e = ENOBUFS \<or> discarded reads"
        using Inl by (auto simp: reported_def discarded_def)
      have "drained reads \<noteq> reads" using Cons.prems(2) d by simp
      from Cons.IH [OF Cons.prems(1) this, of n "lost \<or> e = ENOBUFS"] show ?thesis using Inl True unfolding e by (auto simp: disj_assoc)
    next
      case False
      then have "drained (r # reads) = []" using Inl by (auto simp: drained_def)
      then show ?thesis using Inl False Cons.prems(1) by (auto simp: reported_def discarded_def)
    qed
  next
    case (Inr ms)
    have d: "drained (r # reads) = r # drained reads" using Inr by (auto simp: drained_def)
    have e: "reported (r # reads) = {p. \<exists>x \<in> set ms. dm_by_family x \<and> dm_complete x \<and> dm_sport x = p} \<union> reported reads"
      "discarded (r # reads) = discarded reads"
      unfolding reported_def discarded_def d by (auto simp: Inr)
    obtain m1 n1 where f: "fold drain_message ms (m, n) = (m1, n1)" by fastforce
    note F = drain_messages [OF Cons.prems(1) f, THEN conjunct1] drain_messages [OF Cons.prems(1) f, THEN conjunct2, THEN conjunct1]
      drain_messages [OF Cons.prems(1) f, THEN conjunct2, THEN conjunct2, THEN conjunct1]
      drain_messages [OF Cons.prems(1) f, THEN conjunct2, THEN conjunct2, THEN conjunct2, rule_format]
    have "drained reads \<noteq> reads" using Cons.prems(2) d by simp
    from Cons.IH [OF F(1) this, of n1 lost] obtain n' m' where
      *: "bpf2socks_udp_destroy_events_drain reads m1 n1 lost = Some (n', m', lost \<or> discarded reads)"
      "length m' = PORT_BITMAP_BYTES" "n1 \<le> n'" "n1 = n' \<longleftrightarrow> reported reads = {}"
      "\<And>p. bpf2socks_udp_port_bitmap_has m' p \<longleftrightarrow> bpf2socks_udp_port_bitmap_has m1 p \<or> p \<in> reported reads" by blast
    have "n = n' \<longleftrightarrow> n = n1 \<and> n1 = n'" using F(2) *(3) by auto
    then have "n = n' \<longleftrightarrow> reported (r # reads) = {}" unfolding F(3) *(4) e by auto
    moreover have "bpf2socks_udp_port_bitmap_has m' p \<longleftrightarrow> bpf2socks_udp_port_bitmap_has m p \<or> p \<in> reported (r # reads)" for p
      unfolding *(5) F(4) e by auto
    moreover have "n \<le> n'" using F(2) *(3) by linarith
    ultimately show ?thesis using *(1,2) Inr f unfolding e(2) by (intro exI [of _ n'] exI [of _ m']) simp
  qed
qed

lemma flag_local_result:
  assumes "dll (ud_lru s) L" "\<forall>i \<in> set L. us_used (ud_sessions s i)" "length (ud_released_ports s) = PORT_BITMAP_BYTES"
  shows "\<exists>m. flag_all_local_sessions s = Some (s\<lparr>ud_released_ports := m\<rparr>) \<and> length m = PORT_BITMAP_BYTES \<and>
    (\<forall>p. bpf2socks_udp_port_bitmap_has m p \<longleftrightarrow> bpf2socks_udp_port_bitmap_has (ud_released_ports s) p \<or>
      (\<exists>i \<in> set L. session_client_is_local (ud_sessions s i) \<and> session_client_port (ud_sessions s i) = p))"
proof -
  have "\<exists>m. flag_local_loop q s = Some (s\<lparr>ud_released_ports := m\<rparr>) \<and> length m = PORT_BITMAP_BYTES \<and>
      (\<forall>p. bpf2socks_udp_port_bitmap_has m p \<longleftrightarrow> bpf2socks_udp_port_bitmap_has (ud_released_ports s) p \<or>
        (\<exists>i \<in> set M. session_client_is_local (ud_sessions s i) \<and> session_client_port (ud_sessions s i) = p))"
    if "chain (lk_next (ud_lru s)) q M" "\<forall>i \<in> set M. us_used (ud_sessions s i)" "length (ud_released_ports s) = PORT_BITMAP_BYTES" for M q
    using that
  proof (induction M arbitrary: s q)
    case Nil
    then show ?case by (intro exI [of _ "ud_released_ports s"]) (simp add: flag_local_loop.simps [of None])
  next
    case (Cons i M)
    define s1 where "s1 = (if session_client_is_local (ud_sessions s i)
      then s\<lparr>ud_released_ports := bpf2socks_udp_port_bitmap_set (ud_released_ports s) (session_client_port (ud_sessions s i))\<rparr> else s)"
    have f: "ud_lru s1 = ud_lru s" "ud_sessions s1 = ud_sessions s" "length (ud_released_ports s1) = PORT_BITMAP_BYTES"
      "s1\<lparr>ud_released_ports := m\<rparr> = s\<lparr>ud_released_ports := m\<rparr>"
      "bpf2socks_udp_port_bitmap_has (ud_released_ports s1) p \<longleftrightarrow> bpf2socks_udp_port_bitmap_has (ud_released_ports s) p \<or>
        session_client_is_local (ud_sessions s i) \<and> session_client_port (ud_sessions s i) = p" for m p
      using Cons.prems(3) by (auto simp: s1_def bitmap_has_set)
    have "flag_local_loop q s = flag_local_loop (lk_next (ud_lru s) i) s1"
      using Cons.prems(1,2) by (simp add: flag_local_loop.simps [of "Some i"] s1_def)
    moreover have "chain (lk_next (ud_lru s1)) (lk_next (ud_lru s) i) M" "\<forall>i \<in> set M. us_used (ud_sessions s1 i)"
      using Cons.prems(1,2) by (simp_all add: f)
    ultimately show ?case using Cons.IH [of s1 "lk_next (ud_lru s) i"] f by auto
  qed
  from this [OF dll_chain [OF assms(1)] assms(2,3)] show ?thesis unfolding flag_all_local_sessions_def .
qed

section \<open>Closed clients\<close>

definition reported_closed :: "(errno + diag_message list) list \<Rightarrow> udp_session \<Rightarrow> bool" where
  "reported_closed reads x \<longleftrightarrow> session_client_is_local x \<and> (discarded reads \<or> session_client_port x \<in> reported reads)"

lemma release_pass:
  fixes m :: 'm
  assumes "session_tables {} s L H"
  shows "\<exists>s' m' H'. release_flagged_sessions ops listen_port query now (s, m) = Some (s', m') \<and>
    session_tables {} s' (filter (\<lambda>i. \<not> gone query s (ud_sessions s i)) L) H' \<and>
    (\<forall>j. ud_sessions s' j = (if j \<in> set L then after_release query now s (ud_sessions s j) else ud_sessions s j)) \<and>
    ud_released_ports s' = zero_bytes PORT_BITMAP_BYTES"
proof -
  have h: "lk_head (ud_lru s) = first_or None L" using session_tablesD(1) [OF assms] by (simp add: dll_def)
  from release_flagged_loop_result [of s "[]" L H "lk_head (ud_lru s)" "[]" query ops listen_port now m] assms h
  obtain s' m' H' where *: "release_flagged_loop ops listen_port query now [] (lk_head (ud_lru s)) (s, m) = Some (s', m')"
    "session_tables {} s' (filter (\<lambda>i. \<not> gone query s (ud_sessions s i)) L) H'"
    "\<And>j. ud_sessions s' j = (if j \<in> set L then after_release query now s (ud_sessions s j) else ud_sessions s j)" by auto
  have "core (clear_released_ports s') = core s'" "ud_sessions (clear_released_ports s') = ud_sessions s'" by (simp_all add: clear_released_ports_def)
  then have "session_tables {} (clear_released_ports s') (filter (\<lambda>i. \<not> gone query s (ud_sessions s i)) L) H'"
    using *(2) session_tables_core by blast
  moreover have "ud_sessions (clear_released_ports s') j = (if j \<in> set L then after_release query now s (ud_sessions s j) else ud_sessions s j)" for j
    using *(3) [of j] by (simp add: clear_released_ports_def)
  moreover have "release_flagged_sessions ops listen_port query now (s, m) = Some (clear_released_ports s', m')"
    using *(1) by (simp add: release_flagged_sessions_def)
  moreover have "ud_released_ports (clear_released_ports s') = zero_bytes PORT_BITMAP_BYTES" by (simp add: clear_released_ports_def)
  ultimately show ?thesis by blast
qed

lemma handle_events_cases:
  fixes m :: 'm
  assumes t: "session_tables {} s L H" and len: "length (ud_released_ports s) = PORT_BITMAP_BYTES" and fin: "drained reads \<noteq> reads"
  obtains s3 where "core s3 = core s" "ud_sessions s3 = ud_sessions s" "length (ud_released_ports s3) = PORT_BITMAP_BYTES"
    "\<And>j. j \<in> set L \<Longrightarrow> flagged s3 (ud_sessions s j) \<longleftrightarrow> flagged s (ud_sessions s j) \<or> reported_closed reads (ud_sessions s j)"
    "bpf2socks_udp_release_handle_events ops listen_port query reads now (s, m) =
       (if reported reads = {} \<and> \<not> discarded reads then Some (s3, m) else release_flagged_sessions ops listen_port query now (s3, m))"
    "\<And>p. reported reads = {} \<and> \<not> discarded reads \<Longrightarrow>
       bpf2socks_udp_port_bitmap_has (ud_released_ports s3) p \<longleftrightarrow> bpf2socks_udp_port_bitmap_has (ud_released_ports s) p"
proof -
  obtain n bm where d: "bpf2socks_udp_destroy_events_drain reads (ud_released_ports s) 0 False = Some (n, bm, discarded reads)"
    "length bm = PORT_BITMAP_BYTES" "0 = n \<longleftrightarrow> reported reads = {}"
    "\<And>p. bpf2socks_udp_port_bitmap_has bm p \<longleftrightarrow> bpf2socks_udp_port_bitmap_has (ud_released_ports s) p \<or> p \<in> reported reads"
    using drain_exact [OF len fin, of 0 False] by auto
  define s1 where "s1 = s\<lparr>ud_released_ports := bm\<rparr>"
  define s2 where "s2 = (if n > 0 then stamp_destroyed_ports now s1 else s1)"
  have s21: "n = 0 \<Longrightarrow> s2 = s1" by (simp add: s2_def)
  have s2: "core s2 = core s" "ud_sessions s2 = ud_sessions s" "ud_lru s2 = ud_lru s" "ud_released_ports s2 = bm"
    by (simp_all add: s2_def s1_def stamp_destroyed_ports_def)
  have used: "\<forall>i \<in> set L. us_used (ud_sessions s2 i)" using session_tablesD(3) [OF t] s2(2) by simp
  obtain m2 where f: "flag_all_local_sessions s2 = Some (s2\<lparr>ud_released_ports := m2\<rparr>)" "length m2 = PORT_BITMAP_BYTES"
    "\<And>p. bpf2socks_udp_port_bitmap_has m2 p \<longleftrightarrow> bpf2socks_udp_port_bitmap_has bm p \<or>
      (\<exists>i \<in> set L. session_client_is_local (ud_sessions s i) \<and> session_client_port (ud_sessions s i) = p)"
    using flag_local_result [of s2 L] session_tablesD(1) [OF t] used d(2) s2 by auto
  define s3 where "s3 = (if discarded reads then (s2\<lparr>ud_released_ports := m2\<rparr>)\<lparr>ud_check_new_sessions_until_ms := now + RELEASE_RECENT_MILLISECONDS\<rparr> else s2)"
  show ?thesis
  proof (rule that [of s3])
    show "core s3 = core s" "ud_sessions s3 = ud_sessions s" "length (ud_released_ports s3) = PORT_BITMAP_BYTES"
      using s2 d(2) f(2) by (simp_all add: s3_def)
    show "flagged s3 (ud_sessions s j) \<longleftrightarrow> flagged s (ud_sessions s j) \<or> reported_closed reads (ud_sessions s j)" if "j \<in> set L" for j
      using that d(4) f(3) s2 by (auto simp: flagged_def reported_closed_def s3_def)
    show "bpf2socks_udp_release_handle_events ops listen_port query reads now (s, m) =
       (if reported reads = {} \<and> \<not> discarded reads then Some (s3, m) else release_flagged_sessions ops listen_port query now (s3, m))"
      unfolding bpf2socks_udp_release_handle_events_def Let_def fst_conv snd_conv d(1) option.case prod.case
        s1_def [symmetric] s2_def [symmetric]
      using d(3) f(1) s21 by (auto simp: s3_def)
    show "reported reads = {} \<and> \<not> discarded reads \<Longrightarrow>
       bpf2socks_udp_port_bitmap_has (ud_released_ports s3) p \<longleftrightarrow> bpf2socks_udp_port_bitmap_has (ud_released_ports s) p" for p
      using d(4) s2 by (simp add: s3_def)
  qed
qed

text \<open>
  C21. Sessions of clients that are gone are released at once, and no others are. Whatever the kernel
  reports, with interruptions and lost notifications among the reads, handling it returns; a
  session of a local client whose port was reported (or of any local client, when notifications
  were lost) is dropped if no socket holds the port any more and no reply waits for it, is looked at
  again after the retry interval if replies wait, and every other session is as before. The bitmap
  of ports is empty again afterwards.
\<close>

theorem closed_clients_released:
  assumes "session_tables {} s L H" "length (ud_released_ports s) = PORT_BITMAP_BYTES"
    and "\<And>p. \<not> bpf2socks_udp_port_bitmap_has (ud_released_ports s) p" "drained reads \<noteq> reads"
  shows "\<exists>s' m' H'. bpf2socks_udp_release_handle_events ops listen_port query reads now (s, m) = Some (s', m') \<and>
    session_tables {} s' (filter (\<lambda>i. \<not> (reported_closed reads (ud_sessions s i) \<and> \<not> draining (ud_sessions s i) \<and>
      query (session_client_port (ud_sessions s i)) = 0)) L) H' \<and>
    (\<forall>j. ud_sessions s' j = (if j \<in> set L \<and> reported_closed reads (ud_sessions s j)
       then if draining (ud_sessions s j) then (ud_sessions s j)\<lparr>us_release_retry_ms := now + RELEASE_RETRY_MILLISECONDS\<rparr>
         else if query (session_client_port (ud_sessions s j)) = 0 then blank_session else ud_sessions s j
       else ud_sessions s j)) \<and>
    (\<forall>p. \<not> bpf2socks_udp_port_bitmap_has (ud_released_ports s') p)"
proof (rule handle_events_cases [OF assms(1,2,4), of ops listen_port query now m])
  fix s3
  assume s3: "core s3 = core s" "ud_sessions s3 = ud_sessions s" "length (ud_released_ports s3) = PORT_BITMAP_BYTES"
    "\<And>j. j \<in> set L \<Longrightarrow> flagged s3 (ud_sessions s j) \<longleftrightarrow> flagged s (ud_sessions s j) \<or> reported_closed reads (ud_sessions s j)"
    "bpf2socks_udp_release_handle_events ops listen_port query reads now (s, m) =
       (if reported reads = {} \<and> \<not> discarded reads then Some (s3, m) else release_flagged_sessions ops listen_port query now (s3, m))"
    "\<And>p. reported reads = {} \<and> \<not> discarded reads \<Longrightarrow>
       bpf2socks_udp_port_bitmap_has (ud_released_ports s3) p \<longleftrightarrow> bpf2socks_udp_port_bitmap_has (ud_released_ports s) p"
  have t3: "session_tables {} s3 L H" using assms(1) session_tables_core [OF s3(1)] by blast
  have fl: "flagged s3 (ud_sessions s j) \<longleftrightarrow> reported_closed reads (ud_sessions s j)" if "j \<in> set L" for j
    using s3(4) [OF that] assms(3) by (simp add: flagged_def)
  show ?thesis
  proof (cases "reported reads = {} \<and> \<not> discarded reads")
    case True
    then have "\<not> reported_closed reads x" for x by (simp add: reported_closed_def)
    then show ?thesis using True s3(2,5,6) t3 assms(3) by auto
  next
    case False
    obtain s' m' H' where *: "release_flagged_sessions ops listen_port query now (s3, m) = Some (s', m')"
      "session_tables {} s' (filter (\<lambda>i. \<not> gone query s3 (ud_sessions s i)) L) H'"
      "\<And>j. ud_sessions s' j = (if j \<in> set L then after_release query now s3 (ud_sessions s j) else ud_sessions s j)"
      "ud_released_ports s' = zero_bytes PORT_BITMAP_BYTES"
      using release_pass [OF t3, of ops listen_port query now m] s3(2) by auto
    have e: "filter (\<lambda>i. \<not> gone query s3 (ud_sessions s i)) L = filter (\<lambda>i. \<not> (reported_closed reads (ud_sessions s i) \<and>
        \<not> draining (ud_sessions s i) \<and> query (session_client_port (ud_sessions s i)) = 0)) L"
      by (rule filter_cong [OF refl]) (simp add: gone_def fl)
    have run: "bpf2socks_udp_release_handle_events ops listen_port query reads now (s, m) = Some (s', m')"
      using s3(5) False *(1) by auto
    show ?thesis
      by (intro exI [of _ s'] exI [of _ m'] exI [of _ H'] conjI allI run *(2) [unfolded e])
        (auto simp: *(3,4) after_release_def gone_def fl)
  qed
qed

definition sample_reads :: "(errno + diag_message list) list" where
  "sample_reads = [Inl EINTR, Inr [\<lparr>dm_by_family = True, dm_complete = True, dm_sport = 5001\<rparr>], Inl EAGAIN]"

definition no_tokens :: "unit token_ops" where
  "no_tokens = \<lparr>to_lookup = (\<lambda>_ _. None), to_lookup_and_delete = (\<lambda>m _. (Inl ENOENT, m)), to_delete = (\<lambda>m _. (False, m))\<rparr>"

theorem closed_clients_released_witness:
  "\<exists>s' m' H'. bpf2socks_udp_release_handle_events no_tokens 8080 (\<lambda>_. 0) sample_reads 600
     (sample_udp\<lparr>ud_released_ports := zero_bytes PORT_BITMAP_BYTES\<rparr>, ()) = Some (s', m') \<and>
   session_tables {} s' [0] H' \<and> ud_sessions s' 1 = blank_session \<and> us_used (ud_sessions s' 0)"
proof -
  let ?s = "sample_udp\<lparr>ud_released_ports := zero_bytes PORT_BITMAP_BYTES\<rparr>"
  have t: "session_tables {} ?s [0, 1] [0]" using sample_udp_tables session_tables_core [OF udp_core_frame(9)] by blast
  have r: "drained sample_reads = take 2 sample_reads" by (simp add: drained_def sample_reads_def)
  have p: "reported sample_reads = {5001}" "\<not> discarded sample_reads"
    unfolding reported_def discarded_def r by (auto simp: sample_reads_def)
  have x: "reported_closed sample_reads (ud_sessions ?s 1)" "\<not> reported_closed sample_reads (ud_sessions ?s 0)"
    "\<not> draining (ud_sessions ?s 1)" "us_used (ud_sessions ?s 0)"
    by (simp_all add: reported_closed_def p sample_udp_def sample_sessions_def sample_client_def blank_session_def draining_def
        session_client_port_def session_client_is_local_def bpf2socks_sockaddr_is_loopback_def)
  have h: "drained sample_reads \<noteq> sample_reads" unfolding r by (simp add: sample_reads_def)
  have bm: "length (ud_released_ports ?s) = PORT_BITMAP_BYTES" "\<And>p. \<not> bpf2socks_udp_port_bitmap_has (ud_released_ports ?s) p"
    by (simp add: zero_bytes_def, simp)
  obtain s' m' H' where *: "bpf2socks_udp_release_handle_events no_tokens 8080 (\<lambda>_. 0) sample_reads 600 (?s, ()) = Some (s', m')"
    "session_tables {} s' (filter (\<lambda>i. \<not> (reported_closed sample_reads (ud_sessions ?s i) \<and> \<not> draining (ud_sessions ?s i) \<and> (0::int) = 0)) [0, 1]) H'"
    "\<forall>j. ud_sessions s' j = (if j \<in> set [0, 1] \<and> reported_closed sample_reads (ud_sessions ?s j)
       then if draining (ud_sessions ?s j) then (ud_sessions ?s j)\<lparr>us_release_retry_ms := 600 + RELEASE_RETRY_MILLISECONDS\<rparr>
         else if (0::int) = 0 then blank_session else ud_sessions ?s j
       else ud_sessions ?s j)"
    using closed_clients_released [OF t bm h, of no_tokens 8080 "\<lambda>_. 0" 600 "()"] by blast
  have "ud_sessions s' 1 = blank_session" "us_used (ud_sessions s' 0)" using *(3) x by simp_all
  moreover have "session_tables {} s' [0] H'" using *(2) x by simp
  ultimately show ?thesis using *(1) by blast
qed

end
