(* ===== verification/Udp_Token.thy ===== *)
theory Udp_Token
  imports Udp_Release Udp_Wire
begin

text \<open>
  \<^verbatim>\<open>bridge/udp_token.c\<close>: the original destination of a client's datagram, from the token map of the
  kernel through a cache of recent answers, from the binding of a connected socket whose entry was
  evicted, or not at all, in which case a local client is told with an ICMP message. The token map
  is a parameter as in \<open>Original_Dst\<close>.
\<close>

section \<open>The cache\<close>

definition TOKEN_CACHE_SIZE :: nat where "TOKEN_CACHE_SIZE = 4096"
definition TOKEN_CACHE_TTL_MILLISECONDS :: u64 where "TOKEN_CACHE_TTL_MILLISECONDS = 1000"
definition TOKEN_NOTICES_PER_SECOND :: u32 where "TOKEN_NOTICES_PER_SECOND = 64"

text \<open>The bytes of a key in memory, the ports in host order (little-endian).\<close>

definition token_key_bytes :: "bpf2socks_token_key \<Rightarrow> bytes" where
  "token_key_bytes k = [word_of_int (tk_family k), tk_protocol k, lo8 (tk_token_port k), hi8 (tk_token_port k)] @ tk_token_addr k @
     [lo8 (tk_client_port k), hi8 (tk_client_port k), 0, 0] @ tk_client_addr k"

definition empty_cache_entry :: udp_token_cache_entry where
  "empty_cache_entry = \<lparr>tc_key = \<lparr>tk_family = 0, tk_protocol = 0, tk_token_port = 0, tk_token_addr = zero_bytes 16, tk_client_port = 0,
       tk_client_addr = zero_bytes 16\<rparr>,
     tc_original = \<lparr>od_family = 0, od_protocol = 0, od_port = 0, od_addr = zero_bytes 16, od_flags = 0\<rparr>,
     tc_expires_ms = 0, tc_mode = LOOKUP_UNKNOWN\<rparr>"

definition udp_token_cache_slot :: "bool \<Rightarrow> udp_state \<Rightarrow> bpf2socks_token_key \<Rightarrow> (nat \<times> udp_token_cache_entry) option \<times> udp_state" where
  "udp_token_cache_slot calloc_ok s key =
    (let s1 = (if ud_token_cache s = None \<and> calloc_ok then s\<lparr>ud_token_cache := Some (\<lambda>_. empty_cache_entry)\<rparr> else s);
         k = unat (bpf2socks_hash_bytes (token_key_bytes key)) mod TOKEN_CACHE_SIZE
     in case ud_token_cache s1 of None \<Rightarrow> (None, s1) | Some cache \<Rightarrow> (Some (k, cache k), s1))"

definition packet_token_key :: "u16 \<Rightarrow> udp_client_packet \<Rightarrow> bpf2socks_token_key" where
  "packet_token_key listen_port p =
    (let client = cp_client_addr p;
         key = \<lparr>tk_family = cp_token_family p, tk_protocol = PROTO_UDP, tk_token_port = listen_port,
           tk_token_addr = copy_prefix (if cp_token_family p = AF_INET6 then 16 else 4) (cp_token_addr p) (zero_bytes 16),
           tk_client_port = 0, tk_client_addr = zero_bytes 16\<rparr>
     in if ss_family client = AF_INET then
          key\<lparr>tk_client_port := ss_port client, tk_client_addr := copy_prefix 4 (ss_addr client) (zero_bytes 16)\<rparr>
        else if ss_family client = AF_INET6 then
          key\<lparr>tk_client_port := ss_port client, tk_client_addr := copy_prefix 16 (ss_addr client) (zero_bytes 16)\<rparr>
        else key)"

text \<open>
  Taking over an answer, which fails when its family is neither IPv4 nor IPv6; the fields before
  the destination are set in any case.
\<close>

definition adopt :: "bpf2socks_original_dst \<Rightarrow> bpf2socks_token_lookup_mode \<Rightarrow> udp_client_packet \<Rightarrow> bool \<times> udp_client_packet" where
  "adopt original mode p =
    (let p1 = p\<lparr>cp_token_lookup_mode := mode, cp_connected_udp_token := (od_flags original AND 1 \<noteq> 0)\<rparr>
     in case bpf2socks_original_dst_to_sockaddr original of
          Inl _ \<Rightarrow> (False, p1)
        | Inr d \<Rightarrow> (True, p1\<lparr>cp_original_dst := d\<rparr>))"

definition count_lookup :: "bpf2socks_token_lookup_trace \<Rightarrow> udp_counters \<Rightarrow> udp_counters" where
  "count_lookup t n = n\<lparr>
     st_udp_token_lookup_full_attempts := st_udp_token_lookup_full_attempts n + ucast (lt_full_client_attempts t),
     st_udp_token_lookup_zero_attempts := st_udp_token_lookup_zero_attempts n + ucast (lt_zero_client_attempts t),
     st_udp_token_lookup_full_hits := st_udp_token_lookup_full_hits n + (if lt_matched_mode t = LOOKUP_FULL_CLIENT then 1 else 0),
     st_udp_token_lookup_zero_hits := st_udp_token_lookup_zero_hits n + (if lt_matched_mode t = LOOKUP_ZERO_CLIENT then 1 else 0),
     st_udp_token_lookup_fallbacks := st_udp_token_lookup_fallbacks n +
       (if lt_full_client_attempts t \<noteq> 0 \<and> lt_zero_client_attempts t \<noteq> 0 then 1 else 0)\<rparr>"

text \<open>The half after a miss: the lookup in the map, its statistics, and the entry that is kept.\<close>

definition ask_token_map ::
    "'m token_ops \<Rightarrow> 'm \<Rightarrow> bpf2socks_token_key \<Rightarrow> udp_state \<Rightarrow> udp_client_packet \<Rightarrow> bpf2socks_token_lookup_mode \<Rightarrow> u64 \<Rightarrow> nat option \<Rightarrow>
     bool \<times> udp_client_packet \<times> udp_state" where
  "ask_token_map ops m key s p preference now_ms slot =
    (case bpf2socks_token_lookup_udp ops m key preference of
       (found, trace) \<Rightarrow>
         let s1 = upd_counters (count_lookup trace) s in
         (case found of
            None \<Rightarrow> if cp_has_original_dst p then (True, p\<lparr>cp_original_from_socket := True\<rparr>, s1) else (False, p, s1)
          | Some original \<Rightarrow>
              let entry = \<lparr>tc_key = key, tc_original = original, tc_expires_ms = now_ms + TOKEN_CACHE_TTL_MILLISECONDS,
                    tc_mode = lt_matched_mode trace\<rparr>;
                  s2 = (case slot of
                          Some k \<Rightarrow> if now_ms \<noteq> 0 then s1\<lparr>ud_token_cache := map_option (\<lambda>c. c(k := entry)) (ud_token_cache s1)\<rparr> else s1
                        | None \<Rightarrow> s1)
              in (case adopt original (lt_matched_mode trace) p of (ok, p1) \<Rightarrow> (ok, p1, s2))))"

definition bpf2socks_udp_token_lookup_original ::
    "'m token_ops \<Rightarrow> u16 \<Rightarrow> bool \<Rightarrow> 'm \<Rightarrow> udp_state \<Rightarrow> udp_client_packet \<Rightarrow> bpf2socks_token_lookup_mode \<Rightarrow> u64 \<Rightarrow>
     bool \<times> udp_client_packet \<times> udp_state" where
  "bpf2socks_udp_token_lookup_original ops listen_port calloc_ok m s p preference now_ms =
    (let key = packet_token_key listen_port p in
     case udp_token_cache_slot calloc_ok s key of (cached, s1) \<Rightarrow>
       (case cached of
          Some (k, e) \<Rightarrow>
            if tc_expires_ms e > now_ms \<and> tc_key e = key
            then (case adopt (tc_original e) (tc_mode e) p of (ok, p1) \<Rightarrow> (ok, p1, s1))
            else ask_token_map ops m key s1 p preference now_ms (Some k)
        | None \<Rightarrow> ask_token_map ops m key s1 p preference now_ms None))"

section \<open>Connected sockets\<close>

text \<open>\<open>update\<close> stores an entry in the token map; the answer whether it succeeded is only logged.\<close>

definition connected_binding :: "udp_client_packet \<Rightarrow> udp_binding \<Rightarrow> bool" where
  "connected_binding p x \<longleftrightarrow> ub_used x \<and> ub_connected_udp_token x \<and>
     (let token_len = (if cp_token_family p = AF_INET6 then 16 else 4) in take token_len (ub_token_addr x) = take token_len (cp_token_addr p))"

definition bpf2socks_udp_token_recover_connected ::
    "('m \<Rightarrow> bpf2socks_token_key \<Rightarrow> bpf2socks_original_dst \<Rightarrow> 'm) \<Rightarrow> u16 \<Rightarrow> udp_state \<Rightarrow> nat option \<Rightarrow> udp_client_packet \<Rightarrow> 'm \<Rightarrow>
     bool \<times> udp_client_packet \<times> 'm" where
  "bpf2socks_udp_token_recover_connected update listen_port s session p m =
    (case session of
       None \<Rightarrow> (False, p, m)
     | Some i \<Rightarrow>
         (case List.find (\<lambda>b. connected_binding p (ud_bindings s b)) (us_bindings (ud_sessions s i)) of
            None \<Rightarrow> (False, p, m)
          | Some b \<Rightarrow>
              let d = ub_original_dst (ud_bindings s b);
                  original = \<lparr>od_family = sa_family d, od_protocol = PROTO_UDP, od_port = sa_port d, od_addr = sa_addr d, od_flags = 1\<rparr>
              in (True, p\<lparr>cp_original_dst := d, cp_connected_udp_token := True, cp_token_lookup_mode := us_token_lookup_mode (ud_sessions s i)\<rparr>,
                  update m (fill_client_less_udp_token_key (cp_token_family p) (cp_token_addr p) listen_port) original)))"

section \<open>Unknown tokens\<close>

record notice_env =
  ne_socket4 :: "errno + int"
  ne_socket6 :: "errno + int"

definition open_notice_window :: "u64 \<Rightarrow> udp_state \<Rightarrow> udp_state" where
  "open_notice_window now_ms s =
    (if now_ms - ud_token_notice_window_ms s \<ge> 1000 then s\<lparr>ud_token_notice_window_ms := now_ms, ud_token_notice_count := 0\<rparr> else s)"

text \<open>The message that is sent, if any, with its socket and destination.\<close>

definition send_notice :: "notice_env \<Rightarrow> u16 \<Rightarrow> udp_client_packet \<Rightarrow> udp_state \<Rightarrow> (int \<times> bytes \<times> sockaddr_storage) option \<times> udp_state" where
  "send_notice env listen_port p s =
    (let client = cp_client_addr p; quoted_len = min (length (cp_payload p)) (65535 - 48) in
     if ss_family client = AF_INET then
       (if ud_token_notice4_fd s < 0 then
          (case ne_socket4 env of
             Inl _ \<Rightarrow> (None, s)
           | Inr fd \<Rightarrow> (Some (fd, icmp_notice4 listen_port client (cp_token_addr p) quoted_len, client),
               (open_udp_fd fd s)\<lparr>ud_token_notice4_fd := fd\<rparr>))
        else (Some (ud_token_notice4_fd s, icmp_notice4 listen_port client (cp_token_addr p) quoted_len, client), s))
     else if ud_token_notice6_fd s < 0 then
       (case ne_socket6 env of
          Inl _ \<Rightarrow> (None, s)
        | Inr fd \<Rightarrow> (Some (fd, icmp_notice6 listen_port client (cp_token_addr p) quoted_len, client\<lparr>ss_port := 0\<rparr>),
            (open_udp_fd fd s)\<lparr>ud_token_notice6_fd := fd\<rparr>))
     else (Some (ud_token_notice6_fd s, icmp_notice6 listen_port client (cp_token_addr p) quoted_len, client\<lparr>ss_port := 0\<rparr>), s))"

definition bpf2socks_udp_token_notify_unknown ::
    "notice_env \<Rightarrow> u16 \<Rightarrow> udp_client_packet \<Rightarrow> u64 \<Rightarrow> udp_state \<Rightarrow> (int \<times> bytes \<times> sockaddr_storage) option \<times> udp_state" where
  "bpf2socks_udp_token_notify_unknown env listen_port p now_ms s =
    (if \<not> bpf2socks_sockaddr_is_loopback (cp_client_addr p) \<or> ss_family (cp_client_addr p) \<noteq> cp_token_family p then (None, s)
     else let s1 = open_notice_window now_ms s in
       if ud_token_notice_count s1 \<ge> TOKEN_NOTICES_PER_SECOND then (None, s1)
       else send_notice env listen_port p (s1\<lparr>ud_token_notice_count := ud_token_notice_count s1 + 1\<rparr>))"

section \<open>Control messages\<close>

text \<open>
  \<open>IP_PKTINFO\<close> is 8 and \<open>IPV6_PKTINFO\<close> 50; the address of such a message is that of the token.
\<close>

definition parse_cmsg :: "bpf2socks_runtime_config \<Rightarrow> cmsg \<Rightarrow> bool \<times> udp_client_packet \<Rightarrow> bool \<times> udp_client_packet" where
  "parse_cmsg config c r =
    (let p = snd r in
     if cm_level c = 0 \<and> cm_type c = 8 then
       (True, p\<lparr>cp_token_family := AF_INET, cp_token_addr := copy_prefix 4 (ss_addr (cm_addr c)) (cp_token_addr p)\<rparr>)
     else if cm_level c = 41 \<and> cm_type c = 50 then
       (True, p\<lparr>cp_token_family := AF_INET6, cp_token_addr := copy_prefix 16 (ss_addr (cm_addr c)) (cp_token_addr p)\<rparr>)
     else case bpf2socks_original_dst_from_cmsg c config PROTO_UDP of
       Inl _ \<Rightarrow> r
     | Inr original \<Rightarrow>
         (case bpf2socks_original_dst_to_sockaddr original of
            Inl _ \<Rightarrow> r
          | Inr d \<Rightarrow> (fst r, p\<lparr>cp_original_dst := d, cp_has_original_dst := True\<rparr>)))"

definition bpf2socks_udp_token_parse_cmsgs :: "bpf2socks_runtime_config \<Rightarrow> cmsg list \<Rightarrow> udp_client_packet \<Rightarrow> bool \<times> udp_client_packet" where
  "bpf2socks_udp_token_parse_cmsgs config cmsgs p = fold (parse_cmsg config) cmsgs (False, p)"

end
