(* ===== verification/Udp_Token_Correct.thy ===== *)
theory Udp_Token_Correct
  imports Udp_Token Udp_Session_Correct
begin

text \<open>
  Correctness of the token lookups of a UDP worker: the cache only repeats recent answers of the
  map, and the notices for unknown tokens are limited.
\<close>

section \<open>Answers from the cache are recent answers of the map\<close>

text \<open>A lookup of the worker: the map at that time, the packet, the preference and the clock.\<close>

record 'm lookup_call =
  lc_calloc :: bool
  lc_map :: 'm
  lc_packet :: udp_client_packet
  lc_preference :: bpf2socks_token_lookup_mode
  lc_now :: u64

definition lookup_step :: "'m token_ops \<Rightarrow> u16 \<Rightarrow> 'm lookup_call \<Rightarrow> udp_state \<Rightarrow> bool \<times> udp_client_packet \<times> udp_state" where
  "lookup_step ops port c s =
    bpf2socks_udp_token_lookup_original ops port (lc_calloc c) (lc_map c) s (lc_packet c) (lc_preference c) (lc_now c)"

definition lookup_run :: "'m token_ops \<Rightarrow> u16 \<Rightarrow> 'm lookup_call list \<Rightarrow> udp_state \<Rightarrow> udp_state" where
  "lookup_run ops port cs s = foldl (\<lambda>s c. snd (snd (lookup_step ops port c s))) s cs"

definition map_answer :: "'m token_ops \<Rightarrow> u16 \<Rightarrow> 'm lookup_call \<Rightarrow> (bpf2socks_original_dst \<times> bpf2socks_token_lookup_mode) option" where
  "map_answer ops port c =
    (case bpf2socks_token_lookup_udp ops (lc_map c) (packet_token_key port (lc_packet c)) (lc_preference c) of
       (None, _) \<Rightarrow> None | (Some d, t) \<Rightarrow> Some (d, lt_matched_mode t))"

definition backed :: "'m token_ops \<Rightarrow> u16 \<Rightarrow> 'm lookup_call set \<Rightarrow> udp_token_cache_entry \<Rightarrow> bool" where
  "backed ops port C e \<longleftrightarrow> (\<exists>c \<in> C. packet_token_key port (lc_packet c) = tc_key e \<and> map_answer ops port c = Some (tc_original e, tc_mode e) \<and>
     tc_expires_ms e = lc_now c + TOKEN_CACHE_TTL_MILLISECONDS)"

definition cache_backed :: "'m token_ops \<Rightarrow> u16 \<Rightarrow> 'm lookup_call set \<Rightarrow> udp_state \<Rightarrow> bool" where
  "cache_backed ops port C s \<longleftrightarrow>
    (\<forall>cache k. ud_token_cache s = Some cache \<longrightarrow> tc_expires_ms (cache k) \<noteq> 0 \<longrightarrow> backed ops port C (cache k))"

lemma backed_mono: "backed ops port C e \<Longrightarrow> C \<subseteq> D \<Longrightarrow> backed ops port D e"
  by (auto simp: backed_def)

lemma slot_backed:
  assumes "cache_backed ops port C s" "udp_token_cache_slot ok s key = (r, s1)"
  shows "cache_backed ops port C s1"
    "r = Some (k, e) \<Longrightarrow> tc_expires_ms e \<noteq> 0 \<Longrightarrow> backed ops port C e"
    "r = Some (k, e) \<Longrightarrow> ud_token_cache s1 \<noteq> None"
  using assms by (auto simp: udp_token_cache_slot_def cache_backed_def Let_def empty_cache_entry_def split: if_splits option.splits)

lemma lookup_step_backed:
  assumes "cache_backed ops port C s" "lookup_step ops port c s = (ok, p', s')"
  shows "cache_backed ops port (insert c C) s'"
    "ok \<Longrightarrow> \<not> cp_original_from_socket p' \<Longrightarrow>
      \<exists>e. backed ops port (insert c C) e \<and> tc_key e = packet_token_key port (lc_packet c) \<and> lc_now c < tc_expires_ms e \<and>
        adopt (tc_original e) (tc_mode e) (lc_packet c) = (True, p')
      \<or> map_answer ops port c = Some (tc_original e, tc_mode e) \<and> adopt (tc_original e) (tc_mode e) (lc_packet c) = (True, p')"
proof -
  let ?key = "packet_token_key port (lc_packet c)"
  obtain r s1 where slot: "udp_token_cache_slot (lc_calloc c) s ?key = (r, s1)" by fastforce
  note S = slot_backed [OF assms(1) slot]
  have mono: "cache_backed ops port (insert c C) s1" using S(1) backed_mono [of ops port C _ "insert c C"] by (auto simp: cache_backed_def)
  have ask: "cache_backed ops port (insert c C) s2 \<and> (b \<longrightarrow> \<not> cp_original_from_socket q \<longrightarrow>
      (\<exists>d m. map_answer ops port c = Some (d, m) \<and> adopt d m (lc_packet c) = (True, q)))"
    if "ask_token_map ops (lc_map c) ?key s1 (lc_packet c) (lc_preference c) (lc_now c) k = (b, q, s2)" for b q s2 k
  proof -
    obtain f tr where l: "bpf2socks_token_lookup_udp ops (lc_map c) ?key (lc_preference c) = (f, tr)" by fastforce
    show ?thesis
    proof (cases f)
      case None
      then have "ud_token_cache s2 = ud_token_cache s1" "b \<longrightarrow> cp_original_from_socket q"
        using that l by (auto simp: ask_token_map_def Let_def upd_counters_def split: if_splits)
      then show ?thesis using mono by (auto simp: cache_backed_def)
    next
      case (Some d)
      have a: "map_answer ops port c = Some (d, lt_matched_mode tr)" using l Some by (simp add: map_answer_def)
      let ?e = "\<lparr>tc_key = ?key, tc_original = d, tc_expires_ms = lc_now c + TOKEN_CACHE_TTL_MILLISECONDS, tc_mode = lt_matched_mode tr\<rparr>"
      have e: "backed ops port (insert c C) ?e" using a by (auto simp: backed_def)
      have "ud_token_cache s2 = ud_token_cache s1 \<or> (\<exists>k. ud_token_cache s2 = map_option (\<lambda>cache. cache(k := ?e)) (ud_token_cache s1))"
        using that l Some by (auto simp: ask_token_map_def Let_def upd_counters_def split: option.splits if_splits prod.splits)
      then have "cache_backed ops port (insert c C) s2"
        using mono e by (fastforce simp: cache_backed_def)
      moreover have "adopt d (lt_matched_mode tr) (lc_packet c) = (b, q)"
        using that l Some by (auto simp: ask_token_map_def Let_def split: prod.splits)
      ultimately show ?thesis using a by auto
    qed
  qed
  note run = assms(2) [unfolded lookup_step_def bpf2socks_udp_token_lookup_original_def Let_def slot prod.case]
  show "cache_backed ops port (insert c C) s'"
    using run ask mono by (auto split: option.splits if_splits prod.splits)
  show "\<exists>e. backed ops port (insert c C) e \<and> tc_key e = ?key \<and> lc_now c < tc_expires_ms e \<and>
        adopt (tc_original e) (tc_mode e) (lc_packet c) = (True, p')
      \<or> map_answer ops port c = Some (tc_original e, tc_mode e) \<and> adopt (tc_original e) (tc_mode e) (lc_packet c) = (True, p')"
    if "ok" "\<not> cp_original_from_socket p'"
  proof (cases "\<exists>k e. r = Some (k, e) \<and> tc_expires_ms e > lc_now c \<and> tc_key e = ?key")
    case True
    then obtain k e where e: "r = Some (k, e)" "tc_expires_ms e > lc_now c" "tc_key e = ?key" by blast
    then have "backed ops port C e" using S(2) by fastforce
    then have "backed ops port (insert c C) e" by (rule backed_mono) auto
    moreover have "adopt (tc_original e) (tc_mode e) (lc_packet c) = (True, p')"
      using run e that(1) by (auto split: prod.splits)
    ultimately show ?thesis using e by blast
  next
    case False
    then obtain k where "ask_token_map ops (lc_map c) ?key s1 (lc_packet c) (lc_preference c) (lc_now c) k = (ok, p', s')"
      using run by (auto split: option.splits prod.splits if_splits)
    from ask [OF this] that obtain d m where "map_answer ops port c = Some (d, m)" "adopt d m (lc_packet c) = (True, p')" by blast
    then show ?thesis by (intro exI [of _ "\<lparr>tc_key = ?key, tc_original = d, tc_expires_ms = 0, tc_mode = m\<rparr>"]) simp
  qed
qed

lemma lookup_run_backed: "cache_backed ops port C s \<Longrightarrow> cache_backed ops port (C \<union> set cs) (lookup_run ops port cs s)"
proof (induction cs arbitrary: C s)
  case (Cons c cs)
  obtain ok p' s' where "lookup_step ops port c s = (ok, p', s')" using prod_cases3 by blast
  with Cons.IH [OF lookup_step_backed(1) [OF Cons.prems]] show ?case by (simp add: lookup_run_def)
qed (simp add: lookup_run_def)

text \<open>
  C22. The cache of token lookups never misleads for longer than its lifetime. Whatever lookups a
  worker made before, on whatever contents the token map had then, a destination that a lookup
  takes from the map or the cache is the one that the map itself gave for the very same key, now or
  less than 1000 ms ago, with its lookup mode and its connected mark.
\<close>

theorem token_cache_fresh:
  assumes "ud_token_cache s = None"
    and "lookup_step ops port c (lookup_run ops port cs s) = (True, p', s')" "\<not> cp_original_from_socket p'"
  shows "\<exists>c' d mode. c' \<in> set (c # cs) \<and> packet_token_key port (lc_packet c') = packet_token_key port (lc_packet c) \<and>
    unat (lc_now c) < unat (lc_now c') + 1000 \<and> map_answer ops port c' = Some (d, mode) \<and>
    bpf2socks_original_dst_to_sockaddr d = Inr (cp_original_dst p') \<and> cp_token_lookup_mode p' = mode \<and>
    cp_connected_udp_token p' = (od_flags d AND 1 \<noteq> 0)"
proof -
  have "cache_backed ops port {} s" using assms(1) by (simp add: cache_backed_def)
  from lookup_run_backed [OF this] have C: "cache_backed ops port (set cs) (lookup_run ops port cs s)" by simp
  have adopted: "bpf2socks_original_dst_to_sockaddr d = Inr (cp_original_dst p') \<and> cp_token_lookup_mode p' = m \<and>
      cp_connected_udp_token p' = (od_flags d AND 1 \<noteq> 0)" if "adopt d m p = (True, p')" for d m p
    using that by (auto simp: adopt_def Let_def split: sum.splits)
  have age: "unat a < unat b + 1000" if "a < b + TOKEN_CACHE_TTL_MILLISECONDS" for a b
  proof -
    have "unat (b + TOKEN_CACHE_TTL_MILLISECONDS) \<le> unat b + 1000" by (simp add: unat_word_ariths TOKEN_CACHE_TTL_MILLISECONDS_def)
    then show ?thesis using that by (simp add: word_less_nat_alt)
  qed
  from lookup_step_backed(2) [OF C assms(2) TrueI assms(3)] obtain e where
    e: "backed ops port (insert c (set cs)) e \<and> tc_key e = packet_token_key port (lc_packet c) \<and> lc_now c < tc_expires_ms e \<and>
        adopt (tc_original e) (tc_mode e) (lc_packet c) = (True, p')
      \<or> map_answer ops port c = Some (tc_original e, tc_mode e) \<and> adopt (tc_original e) (tc_mode e) (lc_packet c) = (True, p')" by blast
  then show ?thesis
  proof (elim disjE conjE)
    assume b: "backed ops port (insert c (set cs)) e" "tc_key e = packet_token_key port (lc_packet c)" "lc_now c < tc_expires_ms e"
      "adopt (tc_original e) (tc_mode e) (lc_packet c) = (True, p')"
    from b(1) obtain c' where c': "c' \<in> set (c # cs)" "packet_token_key port (lc_packet c') = tc_key e"
      "map_answer ops port c' = Some (tc_original e, tc_mode e)" "tc_expires_ms e = lc_now c' + TOKEN_CACHE_TTL_MILLISECONDS"
      by (auto simp: backed_def)
    then show ?thesis using b(2,3) adopted [OF b(4)] age by metis
  next
    assume "map_answer ops port c = Some (tc_original e, tc_mode e)" "adopt (tc_original e) (tc_mode e) (lc_packet c) = (True, p')"
    then show ?thesis using adopted by (intro exI [of _ c]) auto
  qed
qed

definition sample_packet :: udp_client_packet where
  "sample_packet = \<lparr>cp_client_addr = \<lparr>ss_family = AF_INET, ss_port = 4000, ss_addr = [127, 0, 0, 1]\<rparr>, cp_token_family = AF_INET,
     cp_token_addr = [198, 18, 0, 1] @ zero_bytes 12, cp_has_original_dst = False, cp_original_from_socket = False,
     cp_connected_udp_token = False, cp_token_lookup_mode = LOOKUP_UNKNOWN,
     cp_original_dst = \<lparr>sa_family = AF_UNSPEC, sa_port = 0, sa_addr = zero_bytes 16\<rparr>, cp_payload = [1]\<rparr>"

definition sample_call :: "u64 \<Rightarrow> (bpf2socks_token_key \<rightharpoonup> bpf2socks_original_dst) \<Rightarrow> (bpf2socks_token_key \<rightharpoonup> bpf2socks_original_dst) lookup_call" where
  "sample_call now m = \<lparr>lc_calloc = True, lc_map = m, lc_packet = sample_packet, lc_preference = LOOKUP_UNKNOWN, lc_now = now\<rparr>"

definition token_hash_map :: "(bpf2socks_token_key \<rightharpoonup> bpf2socks_original_dst) token_ops" where
  "token_hash_map = \<lparr>to_lookup = (\<lambda>m k. m k),
     to_lookup_and_delete = (\<lambda>m k. case m k of None \<Rightarrow> (Inl ENOENT, m) | Some v \<Rightarrow> (Inr v, m(k := None))),
     to_delete = (\<lambda>m k. (True, m(k := None)))\<rparr>"

definition sample_dst :: bpf2socks_original_dst where
  "sample_dst = \<lparr>od_family = AF_INET, od_protocol = PROTO_UDP, od_port = 53, od_addr = [8, 8, 8, 8] @ zero_bytes 12, od_flags = 1\<rparr>"

theorem token_cache_fresh_witness:
  "\<exists>p' s'. lookup_step token_hash_map 8080 (sample_call 1500 Map.empty)
       (lookup_run token_hash_map 8080 [sample_call 1000 (\<lambda>_. Some sample_dst)] sample_udp) = (True, p', s') \<and>
     bpf2socks_original_dst_to_sockaddr sample_dst = Inr (cp_original_dst p')"
proof -
  let ?cs = "[sample_call 1000 (\<lambda>_. Some sample_dst)]"
  obtain ok p' s' where run: "lookup_step token_hash_map 8080 (sample_call 1500 Map.empty) (lookup_run token_hash_map 8080 ?cs sample_udp) = (ok, p', s')"
    using prod_cases3 by blast
  then have "ok" "\<not> cp_original_from_socket p'"
    by (auto simp: lookup_run_def lookup_step_def sample_call_def bpf2socks_udp_token_lookup_original_def udp_token_cache_slot_def
        ask_token_map_def bpf2socks_token_lookup_udp_def lookup_zero_client_def lookup_full_client_def bpf2socks_token_lookup_def token_hash_map_def
        sample_udp_def upd_counters_def adopt_def sample_dst_def bpf2socks_original_dst_to_sockaddr_def Let_def empty_cache_entry_def
        TOKEN_CACHE_TTL_MILLISECONDS_def sample_packet_def split: if_splits)
  moreover have "ud_token_cache sample_udp = None" by (simp add: sample_udp_def)
  moreover have "map_answer token_hash_map 8080 (sample_call 1500 Map.empty) = None"
    "map_answer token_hash_map 8080 (sample_call 1000 (\<lambda>_. Some sample_dst)) = Some (d, m) \<Longrightarrow> d = sample_dst" for d m
    by (auto simp: map_answer_def sample_call_def bpf2socks_token_lookup_udp_def lookup_zero_client_def lookup_full_client_def
        bpf2socks_token_lookup_def token_hash_map_def Let_def split: if_splits)
  ultimately show ?thesis
    using token_cache_fresh [of sample_udp token_hash_map 8080 "sample_call 1500 Map.empty" ?cs p' s'] run by auto
qed

section \<open>Notices are limited\<close>

record notify_call =
  nc_env :: notice_env
  nc_packet :: udp_client_packet
  nc_now :: u64

fun notices_sent :: "u16 \<Rightarrow> notify_call list \<Rightarrow> udp_state \<Rightarrow> nat" where
  "notices_sent port [] s = 0"
| "notices_sent port (c # cs) s =
    (case bpf2socks_udp_token_notify_unknown (nc_env c) port (nc_packet c) (nc_now c) s of
       (r, s1) \<Rightarrow> (if r = None then 0 else 1) + notices_sent port cs s1)"

lemma send_notice_fields:
  "send_notice env port p s = (r, s1) \<Longrightarrow> ud_token_notice_window_ms s1 = ud_token_notice_window_ms s \<and> ud_token_notice_count s1 = ud_token_notice_count s"
  by (auto simp: send_notice_def Let_def open_udp_fd_def split: if_splits sum.splits)

lemma count_inc: "(n :: u32) < 64 \<Longrightarrow> n \<le> n + 1" "(n :: u32) < 64 \<Longrightarrow> unat (n + 1) = unat n + 1"
  by (auto simp: word_less_nat_alt word_le_nat_alt unat_word_ariths)

lemma notify_fields:
  assumes "bpf2socks_udp_token_notify_unknown env port p now s = (r, s1)"
  shows "r \<noteq> None \<or> s1 \<noteq> s \<Longrightarrow> ud_token_notice_window_ms s1 = ud_token_notice_window_ms (open_notice_window now s) "
    "r \<noteq> None \<Longrightarrow> ud_token_notice_count (open_notice_window now s) < 64 \<and>
       ud_token_notice_count s1 = ud_token_notice_count (open_notice_window now s) + 1"
    "r = None \<Longrightarrow> s1 \<noteq> s \<Longrightarrow> ud_token_notice_count (open_notice_window now s) \<le> ud_token_notice_count s1"
  using assms by (auto simp: bpf2socks_udp_token_notify_unknown_def Let_def TOKEN_NOTICES_PER_SECOND_def not_le
      dest!: send_notice_fields split: if_splits intro: count_inc(1))

lemma notices_same_window:
  assumes "\<forall>c \<in> set cs. nc_now c - ud_token_notice_window_ms s < 1000"
  shows "notices_sent port cs s \<le> 64 - unat (ud_token_notice_count s)"
  using assms
proof (induction cs arbitrary: s)
  case (Cons c cs)
  obtain r s1 where n: "bpf2socks_udp_token_notify_unknown (nc_env c) port (nc_packet c) (nc_now c) s = (r, s1)" by fastforce
  have w: "open_notice_window (nc_now c) s = s" using Cons.prems by (auto simp: open_notice_window_def)
  note F = notify_fields [OF n, unfolded w]
  have "ud_token_notice_window_ms s1 = ud_token_notice_window_ms s" using F(1) by (cases "r \<noteq> None \<or> s1 \<noteq> s") auto
  with Cons.IH [of s1] Cons.prems have IH: "notices_sent port cs s1 \<le> 64 - unat (ud_token_notice_count s1)" by simp
  show ?case
  proof (cases "r = None")
    case True
    then have "unat (ud_token_notice_count s) \<le> unat (ud_token_notice_count s1)" using F(3) by (cases "s1 = s") (auto simp: word_le_nat_alt)
    then show ?thesis using IH n True by simp
  next
    case False
    then have f: "ud_token_notice_count s < 64" "ud_token_notice_count s1 = ud_token_notice_count s + 1" using F(2) by auto
    then have "unat (ud_token_notice_count s1) = unat (ud_token_notice_count s) + 1" "unat (ud_token_notice_count s) < 64"
      by (auto simp: count_inc(2) word_less_nat_alt)
    then show ?thesis using IH n False by auto
  qed
qed simp



end
