(* ===== verification/Udp_Downlink.thy ===== *)
theory Udp_Downlink
  imports Udp_Session Udp_Wire Socks5
begin

text \<open>
  The sending half of \<^verbatim>\<open>bridge/udp_downlink.c\<close>: replies on their way to the client, sent in batches, or
  queued on a channel when the socket does not take them, with the bytes they occupy reserved from
  the budget of all workers. What the calls of the kernel return is given by the environment.
\<close>

section \<open>The budget of replies\<close>

definition alloc_downlink_packet :: "bool \<Rightarrow> nat \<Rightarrow> udp_state \<Rightarrow> (errno + u64) \<times> udp_state" where
  "alloc_downlink_packet malloc_ok payload_len s =
    (if 2 ^ 64 - 1 - unat DOWNLINK_PACKET_SIZE < payload_len then (Inl ENOBUFS, s)
     else let allocation_bytes = DOWNLINK_PACKET_SIZE + of_nat payload_len in
       if ud_downlink_read_reservation s \<ge> allocation_bytes then
         if \<not> malloc_ok then (Inl ENOMEM, s)
         else (Inr allocation_bytes, s\<lparr>ud_downlink_read_reservation := ud_downlink_read_reservation s - allocation_bytes\<rparr>)
       else case bpf2socks_udp_budget_reserve (ud_pending_budget s) allocation_bytes of
         (Inl e, _) \<Rightarrow> (Inl e, s)
       | (Inr _, b) \<Rightarrow>
           let s1 = s\<lparr>ud_pending_budget := b\<rparr> in
           if \<not> malloc_ok then (Inl ENOMEM, budget_release allocation_bytes s1) else (Inr allocation_bytes, s1))"

definition bpf2socks_udp_downlink_max_allocation :: u64 where
  "bpf2socks_udp_downlink_max_allocation = DOWNLINK_PACKET_SIZE + of_nat BPF2SOCKS_UDP_BUFFER_SIZE"

definition bpf2socks_udp_downlink_release_reservation :: "udp_state \<Rightarrow> udp_state" where
  "bpf2socks_udp_downlink_release_reservation s =
    (if ud_downlink_read_reservation s = 0 then s
     else budget_release (ud_downlink_read_reservation s) (s\<lparr>ud_downlink_read_reservation := 0\<rparr>))"

text \<open>The loop that halves the number of slots; \<open>candidate + 1\<close> is a 32-bit sum.\<close>

definition reserve_try :: "u32 \<Rightarrow> udp_state \<Rightarrow> errno + udp_state" where
  "reserve_try candidate s =
    (let slot_bytes = bpf2socks_udp_downlink_max_allocation; bytes = ucast candidate * slot_bytes in
     if (ucast candidate :: u64) \<le> (- 1) div slot_bytes then
       (case bpf2socks_udp_budget_reserve (ud_pending_budget s) bytes of
          (Inr _, b) \<Rightarrow> Inr (s\<lparr>ud_pending_budget := b, ud_downlink_read_reservation := bytes\<rparr>)
        | (Inl e, _) \<Rightarrow> Inl e)
     else Inl EOVERFLOW)"

partial_function (option) reserve_loop :: "u32 \<Rightarrow> udp_state \<Rightarrow> ((errno + u32) \<times> udp_state) option" where
  "reserve_loop candidate s =
    (case reserve_try candidate s of
       Inr s' \<Rightarrow> Some (Inr candidate, s')
     | Inl e \<Rightarrow> if candidate = 1 then Some (Inl e, s) else reserve_loop ((candidate + 1) div 2) s)"

definition bpf2socks_udp_downlink_reserve_slots :: "u32 \<Rightarrow> udp_state \<Rightarrow> ((errno + u32) \<times> udp_state) option" where
  "bpf2socks_udp_downlink_reserve_slots batch s =
    (if batch = 0 \<or> ud_downlink_read_reservation s \<noteq> 0 then Some (Inl EINVAL, s) else reserve_loop batch s)"

definition room_for_slot :: "udp_state \<Rightarrow> bool" where
  "room_for_slot s \<longleftrightarrow>
    (let cap_bytes = ub_cap_bytes (ud_pending_budget s); used_bytes = ub_used_bytes (ud_pending_budget s)
     in \<not> (cap_bytes < bpf2socks_udp_downlink_max_allocation \<or> used_bytes > cap_bytes - bpf2socks_udp_downlink_max_allocation))"

text \<open>The sessions that wait for the budget; \<open>ctl\<close> gives the result of \<open>epoll_ctl\<close> for each.\<close>

definition resume_session :: "(nat \<Rightarrow> errno option) \<Rightarrow> nat \<Rightarrow> udp_state \<Rightarrow> udp_state" where
  "resume_session ctl i s =
    (let x = ud_sessions s i in
     if \<not> us_used x \<or> \<not> us_downlink_waiting_budget x \<or> us_downlink_pending_count x \<noteq> 0 then s
     else case bpf2socks_udp_downlink_set_paused (ctl i) s i False of
       (Inr _, s1) \<Rightarrow> mark_ready i s1
     | (Inl _, s1) \<Rightarrow> s1)"

definition resume_session_waiters :: "(nat \<Rightarrow> errno option) \<Rightarrow> udp_state \<Rightarrow> udp_state" where
  "resume_session_waiters ctl s =
    (if \<not> bpf2socks_udp_downlink_waiter_tracker_has_waiters (ud_downlink_budget_waiters s) then s
     else if \<not> room_for_slot s then s
     else fold (resume_session ctl) [0..<ud_session_cap s] s)"

section \<open>Channels\<close>

definition channel_matches :: "udp_state \<Rightarrow> nat \<Rightarrow> int \<Rightarrow> bool \<Rightarrow> bool \<Rightarrow> nat \<Rightarrow> bool" where
  "channel_matches s b source_fd use_pktinfo raw c \<longleftrightarrow>
    (let x = ud_bindings s b; ch = ud_channels s c; binding_source = (ub_reply_fd x = source_fd \<and> source_fd \<ge> 0)
     in ch_source_binding ch = (if binding_source then Some b else None) \<and>
        (\<not> binding_source \<or> ch_source_binding_generation ch = ub_reply_fd_generation x) \<and>
        ch_source_fd ch = source_fd \<and> ch_use_pktinfo ch = use_pktinfo \<and> ch_raw ch = raw)"

definition bpf2socks_udp_downlink_find_channel :: "udp_state \<Rightarrow> nat \<Rightarrow> nat \<Rightarrow> int \<Rightarrow> bool \<Rightarrow> bool \<Rightarrow> nat option" where
  "bpf2socks_udp_downlink_find_channel s i b source_fd use_pktinfo raw =
    List.find (channel_matches s b source_fd use_pktinfo raw) (us_downlink_channels (ud_sessions s i))"

record downlink_env =
  de_dup :: "errno + int"
  de_calloc :: "nat option"
  de_add :: "errno option"
  de_malloc :: bool
  de_now :: u64
  de_pause :: "errno option"

definition new_channel :: "udp_state \<Rightarrow> nat \<Rightarrow> nat \<Rightarrow> int \<Rightarrow> int \<Rightarrow> bool \<Rightarrow> bool \<Rightarrow> udp_downlink_channel" where
  "new_channel s i b fd source_fd use_pktinfo raw =
    \<lparr>ch_session = Some i, ch_queue = [],
     ch_source_binding = (if ub_reply_fd (ud_bindings s b) = source_fd then Some b else None), ch_fd = fd, ch_source_fd = source_fd,
     ch_source_binding_generation = (if ub_reply_fd (ud_bindings s b) = source_fd then ub_reply_fd_generation (ud_bindings s b) else 0),
     ch_use_pktinfo = use_pktinfo, ch_raw = raw\<rparr>"

definition create_downlink_channel ::
    "downlink_env \<Rightarrow> udp_state \<Rightarrow> nat \<Rightarrow> nat \<Rightarrow> int \<Rightarrow> bool \<Rightarrow> bool \<Rightarrow> (errno + nat) \<times> udp_state" where
  "create_downlink_channel env s i b source_fd use_pktinfo raw =
    (if source_fd < 0 then (Inl EINVAL, s)
     else case de_dup env of
       Inl e \<Rightarrow> (Inl e, s)
     | Inr fd \<Rightarrow>
         let s1 = open_udp_fd fd s in
         (case de_calloc env of
            None \<Rightarrow> (Inl ENOMEM, close_udp_fd fd s1)
          | Some c \<Rightarrow>
              (case epoll_set (de_add env) fd EPOLLOUT (upd_channel c (\<lambda>_. new_channel s1 i b fd source_fd use_pktinfo raw) s1) of
                 (Some e, s2) \<Rightarrow> (Inl e, close_udp_fd fd s2)
               | (None, s2) \<Rightarrow> (Inr c, upd_session i (\<lambda>x. x\<lparr>us_downlink_channels := c # us_downlink_channels x\<rparr>) s2))))"

text \<open>The channel of a reply that has to wait, found or created, with the answer whether it is new.\<close>

definition obtain_channel ::
    "downlink_env \<Rightarrow> udp_state \<Rightarrow> nat \<Rightarrow> nat \<Rightarrow> int \<Rightarrow> bool \<Rightarrow> bool \<Rightarrow> (errno + nat \<times> bool) \<times> udp_state" where
  "obtain_channel env s i b source_fd use_pktinfo raw =
    (case bpf2socks_udp_downlink_find_channel s i b source_fd use_pktinfo raw of
       Some c \<Rightarrow> (Inr (c, False), s)
     | None \<Rightarrow>
         (case create_downlink_channel env s i b source_fd use_pktinfo raw of
            (Inl e, s1) \<Rightarrow> (Inl e, s1)
          | (Inr c, s1) \<Rightarrow> (Inr (c, True), s1)))"

definition push_packet :: "u64 \<Rightarrow> udp_state \<Rightarrow> nat \<Rightarrow> nat \<Rightarrow> nat \<Rightarrow> bytes \<Rightarrow> u64 \<Rightarrow> udp_state" where
  "push_packet now_ms s i b c payload n =
    (let p = \<lparr>dp_binding = b, dp_payload = payload, dp_allocation_bytes = n\<rparr>;
         s1 = upd_channel c (\<lambda>x. x\<lparr>ch_queue := ch_queue x @ [p]\<rparr>) s;
         s2 = upd_session i (\<lambda>x. x\<lparr>us_downlink_pending_count := us_downlink_pending_count x + 1\<rparr>) s1;
         s3 = upd_binding b (\<lambda>x. x\<lparr>ub_downlink_pending_count := ub_downlink_pending_count x + 1\<rparr>) s2;
         s4 = mark_ready i s3;
         s5 = upd_session i (\<lambda>x. x\<lparr>us_last_seen_ms := now_ms\<rparr>) s4;
         s6 = upd_binding b (\<lambda>x. x\<lparr>ub_last_seen_ms := now_ms\<rparr>) s5
     in bpf2socks_udp_binding_lru_touch (bpf2socks_udp_lru_touch s6 i) i b)"

definition bpf2socks_udp_downlink_queue_packet ::
    "downlink_env \<Rightarrow> udp_state \<Rightarrow> nat \<Rightarrow> nat \<Rightarrow> bytes \<Rightarrow> int \<Rightarrow> bool \<Rightarrow> bool \<Rightarrow> (errno + unit) \<times> udp_state" where
  "bpf2socks_udp_downlink_queue_packet env s i b payload source_fd use_pktinfo raw =
    (if source_fd < 0 then (Inl EINVAL, s)
     else case obtain_channel env s i b source_fd use_pktinfo raw of
       (Inl e, s1) \<Rightarrow> (Inl e, s1)
     | (Inr (c, created), s1) \<Rightarrow>
         (case alloc_downlink_packet (de_malloc env) (length payload) s1 of
            (Inl e, s2) \<Rightarrow> (Inl e, if created then retire_downlink_channel None s2 i c False else s2)
          | (Inr n, s2) \<Rightarrow> bpf2socks_udp_downlink_set_paused (de_pause env) (push_packet (de_now env) s2 i b c payload n) i True))"

section \<open>Sending\<close>

text \<open>
  A reply as it is handed to the kernel: the socket, the client, the source address that is asked
  for (the token, by its family), and the payload. A raw socket is handed the datagram with its
  headers instead.
\<close>

record client_reply =
  rp_fd :: int
  rp_client :: sockaddr_storage
  rp_source :: "(int \<times> bytes) option"
  rp_payload :: bytes

definition fill_udp_downlink_pktinfo :: "udp_session \<Rightarrow> udp_binding \<Rightarrow> int \<times> bytes" where
  "fill_udp_downlink_pktinfo x y =
    (if ss_family (us_client_addr x) = AF_INET6 then (AF_INET6, take 16 (ub_token_addr y)) else (AF_INET, take 4 (ub_token_addr y)))"

definition reply_of :: "udp_state \<Rightarrow> int \<Rightarrow> bool \<Rightarrow> nat \<Rightarrow> nat \<Rightarrow> bytes \<Rightarrow> client_reply" where
  "reply_of s fd use_pktinfo i b payload =
    \<lparr>rp_fd = fd, rp_client = us_client_addr (ud_sessions s i),
     rp_source = (if use_pktinfo then Some (fill_udp_downlink_pktinfo (ud_sessions s i) (ud_bindings s b)) else None), rp_payload = payload\<rparr>"

record send_env =
  se_sendto :: "bytes \<Rightarrow> sockaddr_storage \<Rightarrow> errno + nat"
  se_clock :: u16
  se_sendmmsg :: "errno + nat"
  se_now :: u64
  se_ctl :: "errno option"

definition raw_send :: "send_env \<Rightarrow> sockaddr_storage \<Rightarrow> bpf2socks_sockaddr \<Rightarrow> bytes \<Rightarrow> errno + unit" where
  "raw_send env client original payload =
    (if sa_family original = AF_INET6 then bpf2socks_udp_raw_send6 (se_sendto env) client original payload
     else bpf2socks_udp_raw_send4 (se_sendto env) (se_clock env) client original payload)"

definition classify_result :: "errno + nat \<Rightarrow> u32 \<Rightarrow> bpf2socks_udp_downlink_send_result" where
  "classify_result r requested =
    (case r of Inr n \<Rightarrow> bpf2socks_udp_downlink_classify_send_result (int n) requested EAGAIN
     | Inl e \<Rightarrow> bpf2socks_udp_downlink_classify_send_result (-1) requested e)"

definition send_downlink_channel_packet ::
    "send_env \<Rightarrow> udp_state \<Rightarrow> nat \<Rightarrow> nat \<Rightarrow> udp_downlink_packet \<Rightarrow> bpf2socks_udp_downlink_send_result" where
  "send_downlink_channel_packet env s c i p =
    (if ch_raw (ud_channels s c) then
       (case raw_send env (us_client_addr (ud_sessions s i)) (ub_original_dst (ud_bindings s (dp_binding p))) (dp_payload p) of
          Inr _ \<Rightarrow> SEND_COMPLETE
        | Inl e \<Rightarrow> bpf2socks_udp_downlink_classify_send_result (-1) 1 e)
     else classify_result (se_sendmmsg env) 1)"

definition count_reply :: "udp_state \<Rightarrow> udp_state" where
  "count_reply s = upd_counters (\<lambda>n. n\<lparr>st_udp_packets_to_client := st_udp_packets_to_client n + 1, st_udp_copy_sends := st_udp_copy_sends n + 1\<rparr>) s"

definition sent_from_channel :: "u64 \<Rightarrow> udp_state \<Rightarrow> nat \<Rightarrow> nat \<Rightarrow> udp_downlink_packet \<Rightarrow> udp_state" where
  "sent_from_channel now_ms s c i p =
    (let s1 = upd_session i (\<lambda>x. x\<lparr>us_last_seen_ms := now_ms\<rparr>) s;
         s2 = upd_binding (dp_binding p) (\<lambda>x. x\<lparr>ub_last_seen_ms := now_ms\<rparr>) s1;
         s3 = count_reply (bpf2socks_udp_lru_touch s2 i);
         s4 = upd_channel c (\<lambda>x. x\<lparr>ch_queue := tl (ch_queue x)\<rparr>) s3
     in release_downlink_packet s4 i p)"

text \<open>One environment per attempt. The replies that were taken are returned, in order.\<close>

fun flush_channel_loop ::
    "send_env list \<Rightarrow> udp_state \<Rightarrow> nat \<Rightarrow> nat \<Rightarrow> ((errno + unit) \<times> client_reply list \<times> udp_state) option" where
  "flush_channel_loop envs s c i =
    (case envs of
       [] \<Rightarrow> None
     | env # rest \<Rightarrow>
         (case ch_queue (ud_channels s c) of
            [] \<Rightarrow> Some (Inr (), [], retire_downlink_channel (se_ctl env) s i c True)
          | p # _ \<Rightarrow>
              (case send_downlink_channel_packet env s c i p of
                 SEND_RETRY \<Rightarrow> Some (Inr (), [], s)
               | SEND_FATAL \<Rightarrow> Some (Inl EIO, [], s)
               | SEND_COMPLETE \<Rightarrow>
                   map_option (\<lambda>(r, out, s'). (r, reply_of s (ch_fd (ud_channels s c)) (ch_use_pktinfo (ud_channels s c)) i (dp_binding p) (dp_payload p) # out, s'))
                     (flush_channel_loop rest (sent_from_channel (se_now env) s c i p) c i))))"

declare flush_channel_loop.simps [simp del]

definition bpf2socks_udp_downlink_flush_channel ::
    "send_env list \<Rightarrow> udp_state \<Rightarrow> nat \<Rightarrow> ((errno + unit) \<times> client_reply list \<times> udp_state) option" where
  "bpf2socks_udp_downlink_flush_channel envs s c =
    (case ch_session (ud_channels s c) of
       None \<Rightarrow> Some (Inl EINVAL, [], s)
     | Some i \<Rightarrow> flush_channel_loop envs s c i)"

section \<open>Batches\<close>

record udp_downlink_batch =
  db_fd :: int
  db_use_pktinfo :: bool
  db_session :: "nat option"
  db_items :: "(nat \<times> bytes) list"

definition bpf2socks_udp_downlink_batch_init :: udp_downlink_batch where
  "bpf2socks_udp_downlink_batch_init = \<lparr>db_fd = -1, db_use_pktinfo = False, db_session = None, db_items = []\<rparr>"

fun queue_rest :: "(nat \<Rightarrow> downlink_env) \<Rightarrow> udp_state \<Rightarrow> nat \<Rightarrow> int \<Rightarrow> bool \<Rightarrow> (nat \<times> bytes) list \<Rightarrow> (errno + unit) \<times> udp_state" where
  "queue_rest envs s i fd use_pktinfo [] = (Inr (), s)"
| "queue_rest envs s i fd use_pktinfo ((b, payload) # items) =
    (case bpf2socks_udp_downlink_queue_packet (envs (length items)) s i b payload fd use_pktinfo False of
       (Inl e, s1) \<Rightarrow> (Inl e, s1)
     | (Inr _, s1) \<Rightarrow> queue_rest envs s1 i fd use_pktinfo items)"

record batch_env =
  be_sendmmsg :: "errno + nat"
  be_now :: u64
  be_queue :: "nat \<Rightarrow> downlink_env"

text \<open>The replies taken at once: their bindings are seen and counted.\<close>

definition mark_accepted :: "u64 \<Rightarrow> (nat \<times> bytes) list \<Rightarrow> udp_state \<Rightarrow> udp_state" where
  "mark_accepted now_ms items s = fold (\<lambda>(b, _) s. count_reply (upd_binding b (\<lambda>x. x\<lparr>ub_last_seen_ms := now_ms\<rparr>) s)) items s"

definition bpf2socks_udp_downlink_batch_flush ::
    "batch_env \<Rightarrow> udp_state \<Rightarrow> udp_downlink_batch \<Rightarrow> (errno + unit) \<times> client_reply list \<times> udp_state \<times> udp_downlink_batch" where
  "bpf2socks_udp_downlink_batch_flush env s batch =
    (case db_session batch of
       None \<Rightarrow> (Inr (), [], s, batch)
     | Some i \<Rightarrow>
         let items = db_items batch; r = be_sendmmsg env; result = classify_result r (of_nat (length items)) in
         if items = [] then (Inr (), [], s, batch)
         else if result = SEND_FATAL then (Inl (case r of Inl e \<Rightarrow> e | Inr _ \<Rightarrow> EIO), [], s, batch)
         else let accepted = (case r of Inr n \<Rightarrow> n | Inl _ \<Rightarrow> 0);
                  out = map (\<lambda>(b, payload). reply_of s (db_fd batch) (db_use_pktinfo batch) i b payload) (take accepted items);
                  s1 = bpf2socks_udp_lru_touch (upd_session i (\<lambda>x. x\<lparr>us_last_seen_ms := be_now env\<rparr>) s) i;
                  s2 = mark_accepted (be_now env) (take accepted items) s1
              in if result = SEND_RETRY then
                   if us_udp_fd (ud_sessions s2 i) < 0 then (Inl (case r of Inl e \<Rightarrow> e | Inr _ \<Rightarrow> EIO), out, s2, batch)
                   else (case queue_rest (be_queue env) s2 i (db_fd batch) (db_use_pktinfo batch) (drop accepted items) of
                     (Inl e, s3) \<Rightarrow> (Inl e, out, s3, batch)
                   | (Inr _, s3) \<Rightarrow> (Inr (), out, s3, bpf2socks_udp_downlink_batch_init))
                 else (Inr (), out, s2, bpf2socks_udp_downlink_batch_init))"

definition udp_downlink_batch_matches :: "udp_downlink_batch \<Rightarrow> int \<Rightarrow> bool \<Rightarrow> nat \<Rightarrow> bool" where
  "udp_downlink_batch_matches batch fd use_pktinfo i \<longleftrightarrow>
    db_items batch \<noteq> [] \<and> db_fd batch = fd \<and> db_use_pktinfo batch = use_pktinfo \<and> db_session batch = Some i"

definition batch_add :: "udp_downlink_batch \<Rightarrow> int \<Rightarrow> bool \<Rightarrow> nat \<Rightarrow> nat \<times> bytes \<Rightarrow> udp_downlink_batch" where
  "batch_add batch fd use_pktinfo i item =
    (let b1 = (if db_items batch = [] then batch\<lparr>db_fd := fd, db_use_pktinfo := use_pktinfo, db_session := Some i\<rparr> else batch)
     in b1\<lparr>db_items := db_items b1 @ [item]\<rparr>)"

definition bpf2socks_udp_downlink_batch_queue ::
    "batch_env \<Rightarrow> batch_env \<Rightarrow> downlink_env \<Rightarrow> udp_state \<Rightarrow> udp_downlink_batch \<Rightarrow> nat \<Rightarrow> nat \<Rightarrow> bytes \<Rightarrow> int \<Rightarrow> bool \<Rightarrow>
     (errno + unit) \<times> client_reply list \<times> udp_state \<times> udp_downlink_batch" where
  "bpf2socks_udp_downlink_batch_queue env1 env2 qenv s batch i b payload fd use_pktinfo =
    (if bpf2socks_udp_downlink_find_channel s i b fd use_pktinfo False \<noteq> None then
       (case bpf2socks_udp_downlink_batch_flush env1 s batch of
          (Inl e, out, s1, batch1) \<Rightarrow> (Inl e, out, s1, batch1)
        | (Inr _, out, s1, batch1) \<Rightarrow>
            (case bpf2socks_udp_downlink_queue_packet qenv s1 i b payload fd use_pktinfo False of (r, s2) \<Rightarrow> (r, out, s2, batch1)))
     else case (if db_items batch \<noteq> [] \<and> \<not> udp_downlink_batch_matches batch fd use_pktinfo i
                then bpf2socks_udp_downlink_batch_flush env1 s batch else (Inr (), [], s, batch)) of
       (Inl e, out, s1, batch1) \<Rightarrow> (Inl e, out, s1, batch1)
     | (Inr _, out, s1, batch1) \<Rightarrow>
         let batch2 = batch_add batch1 fd use_pktinfo i (b, payload) in
         if 64 \<le> length (db_items batch2) then
           (case bpf2socks_udp_downlink_batch_flush env2 s1 batch2 of (r, out2, s2, batch3) \<Rightarrow> (r, out @ out2, s2, batch3))
         else (Inr (), out, s1, batch2))"

end
