(* ===== verification/Udp_Dns.thy ===== *)
theory Udp_Dns
  imports Udp_Downlink Udp_Associate Dns_Table Dns_Packet
begin

text \<open>
  \<^verbatim>\<open>bridge/udp_dns.c\<close>, the fast path of DNS: the queries of all clients share two SOCKS5 associations per
  worker. A query gets a fresh identifier in the transaction table, and its response, with the
  identifier of the client restored, is sent to the client from the address it asked. What the calls
  of the kernel return is given by the environment; loops around them answer \<open>None\<close> when it is too
  short. A status is \<open>Fail\<close> for -1, \<open>More\<close> for 0 and \<open>Done\<close> for 1.
\<close>

section \<open>State\<close>

datatype bpf2socks_udp_dns_stage =
  DNS_IDLE | DNS_CONNECTING | DNS_HELLO_WRITE | DNS_HELLO_READ | DNS_ASSOC_WRITE | DNS_ASSOC_READ | DNS_READY

record udp_dns_channel =
  dc_index :: u32
  dc_tcp_fd :: int
  dc_udp_fd :: int
  dc_available :: bool
  dc_stage :: bpf2socks_udp_dns_stage
  dc_stage_started_ms :: u64
  dc_next_rebuild_ms :: u64
  dc_write_buf :: bytes
  dc_write_offset :: nat
  dc_read_buf :: bytes
  dc_relay_port :: u16
  dc_relay_port_claimed :: bool
  dc_relay_paused :: bool
  dc_relay_addr :: "sockaddr_storage option"
  dc_relay_connected :: bool

text \<open>The state of a worker: the tables of sessions and the part that is used for DNS.\<close>

record udp_worker =
  wk_udp :: udp_state
  wk_dns_channels :: "nat \<Rightarrow> udp_dns_channel"
  wk_dns_table :: bpf2socks_dns_table
  wk_dns_raw4_fd :: int
  wk_dns_raw6_fd :: int
  wk_next_dns_channel :: nat
  wk_id :: u32
  wk_epoll_fd :: int
  wk_budget_wake_fd :: int
  wk_destroy_events_fd :: int

definition DNS_CHANNELS_PER_WORKER :: nat where "DNS_CHANNELS_PER_WORKER = 2"
definition DNS_MAX_TRANSACTIONS_PER_WORKER :: nat where "DNS_MAX_TRANSACTIONS_PER_WORKER = 8192"
definition DNS_CHANNEL_REBUILD_DELAY_MILLISECONDS :: u64 where "DNS_CHANNEL_REBUILD_DELAY_MILLISECONDS = 1000"
definition DNS_MAX_EXPIRE_PER_LOOP :: nat where "DNS_MAX_EXPIRE_PER_LOOP = 64"
definition DNS_HANDSHAKE_TIMEOUT_MILLISECONDS :: u64 where "DNS_HANDSHAKE_TIMEOUT_MILLISECONDS = 10000"
definition DNS_WRITE_CAP :: nat where "DNS_WRITE_CAP = 4 + 16 + 2"
definition DNS_READ_CAP :: nat where "DNS_READ_CAP = 4 + 1 + 255 + 2"

definition upd_dns :: "nat \<Rightarrow> (udp_dns_channel \<Rightarrow> udp_dns_channel) \<Rightarrow> udp_worker \<Rightarrow> udp_worker" where
  "upd_dns i f w = w\<lparr>wk_dns_channels := (wk_dns_channels w)(i := f (wk_dns_channels w i))\<rparr>"

definition on_udp :: "(udp_state \<Rightarrow> udp_state) \<Rightarrow> udp_worker \<Rightarrow> udp_worker" where
  "on_udp f w = w\<lparr>wk_udp := f (wk_udp w)\<rparr>"

definition on_table :: "(bpf2socks_dns_table \<Rightarrow> bpf2socks_dns_table) \<Rightarrow> udp_worker \<Rightarrow> udp_worker" where
  "on_table f w = w\<lparr>wk_dns_table := f (wk_dns_table w)\<rparr>"

section \<open>Closing channels\<close>

definition bpf2socks_udp_dns_is_candidate :: "bool \<Rightarrow> udp_client_packet \<Rightarrow> bool" where
  "bpf2socks_udp_dns_is_candidate enable_dns_hijack p \<longleftrightarrow> enable_dns_hijack \<and> sa_port (cp_original_dst p) = 53 \<and>
     (sa_family (cp_original_dst p) = AF_INET \<or> sa_family (cp_original_dst p) = AF_INET6)"

definition release_dns_channel_transactions :: "u32 \<Rightarrow> bpf2socks_dns_table \<Rightarrow> bpf2socks_dns_table" where
  "release_dns_channel_transactions channel_index t =
    fold (\<lambda>i t. if tx_used (dt_transactions t i) \<and> tx_channel_index (dt_transactions t i) = channel_index
                then bpf2socks_dns_table_release t i else t) [0..<dt_capacity t] t"

definition reset_channel :: "udp_dns_channel \<Rightarrow> udp_dns_channel" where
  "reset_channel c = c\<lparr>dc_tcp_fd := -1, dc_udp_fd := -1, dc_available := False, dc_stage := DNS_IDLE, dc_stage_started_ms := 0,
     dc_write_buf := [], dc_write_offset := 0, dc_read_buf := [], dc_relay_port_claimed := False, dc_relay_paused := False,
     dc_relay_addr := None, dc_relay_connected := False\<rparr>"

definition reset_dns_channel_fds :: "nat \<Rightarrow> udp_worker \<Rightarrow> udp_worker" where
  "reset_dns_channel_fds i w =
    (let c = wk_dns_channels w i;
         w1 = (if dc_relay_port_claimed c then on_udp (\<lambda>s. bpf2socks_udp_relay_port_release s (dc_relay_port c)) w else w);
         w2 = on_udp (\<lambda>s. close_udp_fd (dc_udp_fd c) (close_udp_fd (dc_tcp_fd c)
                (bpf2socks_udp_epoll_remove (dc_udp_fd c) (bpf2socks_udp_epoll_remove (dc_tcp_fd c) s)))) w1
     in upd_dns i reset_channel w2)"

text \<open>\<open>clock\<close> is the time that is read when the caller has none.\<close>

definition bpf2socks_udp_dns_close_channel :: "u64 \<Rightarrow> u64 \<Rightarrow> nat \<Rightarrow> udp_worker \<Rightarrow> udp_worker" where
  "bpf2socks_udp_dns_close_channel clock now_ms i w =
    (let w1 = on_table (release_dns_channel_transactions (dc_index (wk_dns_channels w i))) w;
         w2 = reset_dns_channel_fds i w1;
         t = (if now_ms = 0 then clock else now_ms)
     in upd_dns i (\<lambda>c. c\<lparr>dc_next_rebuild_ms := t + DNS_CHANNEL_REBUILD_DELAY_MILLISECONDS\<rparr>) w2)"

definition bpf2socks_udp_dns_expire_transactions :: "u64 \<Rightarrow> u64 \<Rightarrow> u64 \<Rightarrow> udp_worker \<Rightarrow> udp_worker" where
  "bpf2socks_udp_dns_expire_transactions clock timeout_ms now_ms w =
    (case bpf2socks_dns_table_expire (wk_dns_table w) now_ms timeout_ms DNS_MAX_EXPIRE_PER_LOOP (of_nat DNS_CHANNELS_PER_WORKER) (\<lambda>_. False) of
       (expired, t, stale) \<Rightarrow>
         let w1 = on_udp (upd_counters (\<lambda>n. n\<lparr>st_dns_transaction_timeouts := st_dns_transaction_timeouts n + of_nat expired\<rparr>)) (w\<lparr>wk_dns_table := t\<rparr>)
         in fold (\<lambda>i w. if stale (of_nat i)
                  then bpf2socks_udp_dns_close_channel clock now_ms i
                    (on_udp (upd_counters (\<lambda>n. n\<lparr>st_dns_channel_timeout_rebuilds := st_dns_channel_timeout_rebuilds n + 1\<rparr>)) w)
                  else w) [0..<DNS_CHANNELS_PER_WORKER] w1)"

definition bpf2socks_udp_dns_expire_handshakes :: "u64 \<Rightarrow> u64 \<Rightarrow> udp_worker \<Rightarrow> udp_worker" where
  "bpf2socks_udp_dns_expire_handshakes clock now_ms w =
    fold (\<lambda>i w. let c = wk_dns_channels w i in
            if dc_stage c = DNS_IDLE \<or> dc_stage c = DNS_READY then w
            else if dc_stage_started_ms c = 0 then w
            else if now_ms - dc_stage_started_ms c < DNS_HANDSHAKE_TIMEOUT_MILLISECONDS then w
            else bpf2socks_udp_dns_close_channel clock now_ms i w) [0..<DNS_CHANNELS_PER_WORKER] w"

section \<open>The handshake of a channel\<close>

record dns_env =
  da_clock :: u64
  da_connect :: "errno + int"
  da_so_error :: "errno option"
  da_sends :: "(errno + nat) list"
  da_reads :: "(errno + bytes) list"
  da_more_reads :: "(errno + bytes) list"
  da_rest_reads :: "(errno + bytes) list"
  da_udp_socket :: "errno + int"
  da_relay_connect :: bool
  da_ctl1 :: "errno option"
  da_ctl2 :: "errno option"
  da_peek :: "errno + nat"

definition open_dns_channel :: "dns_env \<Rightarrow> u64 \<Rightarrow> nat \<Rightarrow> udp_worker \<Rightarrow> bool \<times> udp_worker" where
  "open_dns_channel env now_ms i w =
    (let c = wk_dns_channels w i in
     if dc_available c \<and> dc_udp_fd c \<ge> 0 then (True, w)
     else if dc_stage c \<noteq> DNS_IDLE then (False, w)
     else let t = (if now_ms = 0 then da_clock env else now_ms) in
       if dc_next_rebuild_ms c \<noteq> 0 \<and> t < dc_next_rebuild_ms c then (False, w)
       else let w1 = reset_dns_channel_fds i w; later = t + DNS_CHANNEL_REBUILD_DELAY_MILLISECONDS in
         case da_connect env of
           Inl _ \<Rightarrow> (False, upd_dns i (\<lambda>c. c\<lparr>dc_next_rebuild_ms := later\<rparr>) w1)
         | Inr fd \<Rightarrow>
             let w2 = upd_dns i (\<lambda>c. c\<lparr>dc_tcp_fd := fd, dc_udp_fd := -1, dc_stage := DNS_CONNECTING, dc_stage_started_ms := t\<rparr>)
                   (on_udp (open_udp_fd fd) w1)
             in (case epoll_set (da_ctl1 env) fd (EPOLLOUT OR EPOLLRDHUP) (wk_udp w2) of
                   (None, s) \<Rightarrow> (False, w2\<lparr>wk_udp := s\<rparr>)
                 | (Some _, s) \<Rightarrow>
                     (False, upd_dns i (\<lambda>c. c\<lparr>dc_tcp_fd := -1, dc_stage := DNS_IDLE, dc_next_rebuild_ms := later\<rparr>)
                        (w2\<lparr>wk_udp := close_udp_fd fd s\<rparr>))))"

fun dns_channel_do_write :: "(errno + nat) list \<Rightarrow> udp_dns_channel \<Rightarrow> (unit progress \<times> udp_dns_channel) option" where
  "dns_channel_do_write results c =
    (if length (dc_write_buf c) \<le> dc_write_offset c then Some (Done (), c)
     else case results of
       [] \<Rightarrow> None
     | Inl e # rs \<Rightarrow>
         if e = EINTR then dns_channel_do_write rs c
         else if e = EAGAIN then Some (More, c)
         else Some (Fail, c)
     | Inr n # rs \<Rightarrow>
         if n = 0 then Some (Fail, c) else dns_channel_do_write rs (c\<lparr>dc_write_offset := dc_write_offset c + n\<rparr>))"

declare dns_channel_do_write.simps [simp del]

fun dns_channel_do_read :: "nat \<Rightarrow> (errno + bytes) list \<Rightarrow> udp_dns_channel \<Rightarrow> (unit progress \<times> udp_dns_channel) option" where
  "dns_channel_do_read expected results c =
    (if expected \<le> length (dc_read_buf c) then Some (Done (), c)
     else case results of
       [] \<Rightarrow> None
     | Inl e # rs \<Rightarrow>
         if e = EINTR then dns_channel_do_read expected rs c
         else if e = EAGAIN then Some (More, c)
         else Some (Fail, c)
     | Inr bs # rs \<Rightarrow>
         if bs = [] then Some (Fail, c)
         else dns_channel_do_read expected rs (c\<lparr>dc_read_buf := dc_read_buf c @ take (expected - length (dc_read_buf c)) bs\<rparr>))"

declare dns_channel_do_read.simps [simp del]

text \<open>Going on to a stage, with the events to wait for.\<close>

definition dns_wait_for :: "errno option \<Rightarrow> u32 \<Rightarrow> nat \<Rightarrow> udp_worker \<Rightarrow> bool \<times> udp_worker" where
  "dns_wait_for ctl events i w =
    (case epoll_set ctl (dc_tcp_fd (wk_dns_channels w i)) events (wk_udp w) of (r, s) \<Rightarrow> (r = None, w\<lparr>wk_udp := s\<rparr>))"

definition dns_write_stage :: "dns_env \<Rightarrow> bpf2socks_udp_dns_stage \<Rightarrow> u64 \<Rightarrow> nat \<Rightarrow> udp_worker \<Rightarrow> (bool \<times> udp_worker) option" where
  "dns_write_stage env next_stage now_ms i w =
    (case dns_channel_do_write (da_sends env) (wk_dns_channels w i) of
       None \<Rightarrow> None
     | Some (Fail, c) \<Rightarrow> Some (False, upd_dns i (\<lambda>_. c) w)
     | Some (More, c) \<Rightarrow> Some (True, upd_dns i (\<lambda>_. c) w)
     | Some (Done _, c) \<Rightarrow>
         Some (dns_wait_for (da_ctl1 env) (EPOLLIN OR EPOLLRDHUP) i
           (upd_dns i (\<lambda>_. c\<lparr>dc_stage := next_stage, dc_read_buf := [], dc_stage_started_ms := now_ms\<rparr>) w)))"

definition finish_dns_channel_connect :: "dns_env \<Rightarrow> u64 \<Rightarrow> nat \<Rightarrow> udp_worker \<Rightarrow> (bool \<times> udp_worker) option" where
  "finish_dns_channel_connect env now_ms i w =
    (if da_so_error env \<noteq> None then Some (False, w)
     else let hello = bpf2socks_socks5_build_hello DNS_WRITE_CAP in
       if hello = [] then Some (False, w)
       else dns_write_stage env DNS_HELLO_READ now_ms i
         (upd_dns i (\<lambda>c. c\<lparr>dc_write_buf := hello, dc_write_offset := 0, dc_read_buf := [], dc_stage := DNS_HELLO_WRITE,
            dc_stage_started_ms := now_ms\<rparr>) w))"

definition dns_hello_read :: "dns_env \<Rightarrow> u64 \<Rightarrow> nat \<Rightarrow> udp_worker \<Rightarrow> (bool \<times> udp_worker) option" where
  "dns_hello_read env now_ms i w =
    (case dns_channel_do_read 2 (da_reads env) (wk_dns_channels w i) of
       None \<Rightarrow> None
     | Some (Fail, c) \<Rightarrow> Some (False, upd_dns i (\<lambda>_. c) w)
     | Some (More, c) \<Rightarrow> Some (True, upd_dns i (\<lambda>_. c) w)
     | Some (Done _, c) \<Rightarrow>
         (case bpf2socks_socks5_parse_hello_reply (dc_read_buf c) of
            Fail \<Rightarrow> Some (False, upd_dns i (\<lambda>_. c) w)
          | _ \<Rightarrow>
              let request = bpf2socks_socks5_build_udp_associate_request DNS_WRITE_CAP in
              if request = [] then Some (False, upd_dns i (\<lambda>_. c\<lparr>dc_write_buf := []\<rparr>) w)
              else Some (dns_wait_for (da_ctl1 env) (EPOLLOUT OR EPOLLRDHUP) i
                (upd_dns i (\<lambda>_. c\<lparr>dc_write_buf := request, dc_write_offset := 0, dc_read_buf := [], dc_stage := DNS_ASSOC_WRITE,
                   dc_stage_started_ms := now_ms\<rparr>) w))))"

text \<open>The whole reply: its fixed part, the length byte of a domain, the rest. A length that is still unknown counts as 0.\<close>

definition dns_read_reply :: "dns_env \<Rightarrow> udp_dns_channel \<Rightarrow> (unit progress \<times> udp_dns_channel) option" where
  "dns_read_reply env c =
    (case dns_channel_do_read 4 (da_reads env) c of
       Some (Done _, c1) \<Rightarrow>
         (case (if bpf2socks_socks5_reply_length (dc_read_buf c1) = More then dns_channel_do_read 5 (da_more_reads env) c1 else Some (Done (), c1)) of
            Some (Done _, c2) \<Rightarrow>
              (case bpf2socks_socks5_reply_length (dc_read_buf c2) of
                 Fail \<Rightarrow> Some (Fail, c2)
               | Done total' \<Rightarrow> if DNS_READ_CAP < total' then Some (Fail, c2) else dns_channel_do_read total' (da_rest_reads env) c2
               | More \<Rightarrow> Some (Done (), c2))
          | r \<Rightarrow> r)
     | r \<Rightarrow> r)"

definition dns_open_relay :: "dns_env \<Rightarrow> nat \<Rightarrow> udp_worker \<Rightarrow> bool \<times> udp_worker" where
  "dns_open_relay env i w =
    (case da_udp_socket env of
       Inl _ \<Rightarrow> (False, w)
     | Inr fd \<Rightarrow>
         let w1 = upd_dns i (\<lambda>c. c\<lparr>dc_udp_fd := fd, dc_relay_connected := da_relay_connect env\<rparr>) (on_udp (open_udp_fd fd) w)
         in (case epoll_set (da_ctl1 env) fd EPOLLIN (wk_udp w1) of
               (Some _, s) \<Rightarrow> (False, upd_dns i (\<lambda>c. c\<lparr>dc_udp_fd := -1\<rparr>) (w1\<lparr>wk_udp := close_udp_fd fd s\<rparr>))
             | (None, s) \<Rightarrow>
                 let w2 = upd_dns i (\<lambda>c. c\<lparr>dc_stage := DNS_READY, dc_available := True, dc_next_rebuild_ms := 0, dc_stage_started_ms := 0\<rparr>) (w1\<lparr>wk_udp := s\<rparr>)
                 in (case dns_wait_for (da_ctl2 env) (EPOLLIN OR EPOLLRDHUP) i w2 of
                       (False, w3) \<Rightarrow> (False, w3)
                     | (True, w3) \<Rightarrow>
                         (True, on_udp (upd_counters (\<lambda>n. n\<lparr>st_udp_associate_creates := st_udp_associate_creates n + 1\<rparr>)) w3))))"

definition dns_assoc_read :: "resolver \<Rightarrow> sockaddr_storage \<Rightarrow> dns_env \<Rightarrow> nat \<Rightarrow> udp_worker \<Rightarrow> (bool \<times> udp_worker) option" where
  "dns_assoc_read resolve socks env i w =
    (case dns_read_reply env (wk_dns_channels w i) of
       None \<Rightarrow> None
     | Some (Fail, c) \<Rightarrow> Some (False, upd_dns i (\<lambda>_. c) w)
     | Some (More, c) \<Rightarrow> Some (True, upd_dns i (\<lambda>_. c) w)
     | Some (Done _, c) \<Rightarrow>
         (case bpf2socks_socks5_parse_bound_addr resolve (dc_read_buf c) of
            Done (relay, _) \<Rightarrow>
              let relay_addr = bpf2socks_socks5_replace_unspecified_relay socks relay;
                  w1 = upd_dns i (\<lambda>_. c\<lparr>dc_relay_addr := Some relay_addr\<rparr>) w;
                  relay_port = ss_port relay_addr
              in if bpf2socks_udp_relay_port_needs_claim socks relay_port then
                   (case bpf2socks_udp_relay_port_claim (wk_udp w1) relay_port of
                      (False, s) \<Rightarrow>
                        Some (False, on_udp (upd_counters (\<lambda>n. n\<lparr>st_udp_relay_port_collisions := st_udp_relay_port_collisions n + 1\<rparr>)) (w1\<lparr>wk_udp := s\<rparr>))
                    | (True, s) \<Rightarrow>
                        Some (dns_open_relay env i
                          (upd_dns i (\<lambda>c. c\<lparr>dc_relay_port := relay_port, dc_relay_port_claimed := True\<rparr>) (w1\<lparr>wk_udp := s\<rparr>))))
                 else Some (dns_open_relay env i w1)
          | _ \<Rightarrow> Some (False, upd_dns i (\<lambda>_. c) w)))"

definition advance_dns_channel ::
    "resolver \<Rightarrow> sockaddr_storage \<Rightarrow> dns_env \<Rightarrow> u32 \<Rightarrow> u64 \<Rightarrow> nat \<Rightarrow> udp_worker \<Rightarrow> (bool \<times> udp_worker) option" where
  "advance_dns_channel resolve socks env events now_ms i w =
    (let c = wk_dns_channels w i;
         broken = (events AND (EPOLLERR OR EPOLLHUP OR EPOLLRDHUP) \<noteq> 0);
         on_event = (\<lambda>e step. if broken then Some (False, w) else if events AND e = 0 then Some (True, w) else step)
     in if dc_tcp_fd c < 0 then Some (False, w)
        else case dc_stage c of
          DNS_CONNECTING \<Rightarrow> on_event EPOLLOUT (finish_dns_channel_connect env now_ms i w)
        | DNS_HELLO_WRITE \<Rightarrow> on_event EPOLLOUT (dns_write_stage env DNS_HELLO_READ now_ms i w)
        | DNS_HELLO_READ \<Rightarrow> on_event EPOLLIN (dns_hello_read env now_ms i w)
        | DNS_ASSOC_WRITE \<Rightarrow> on_event EPOLLOUT (dns_write_stage env DNS_ASSOC_READ now_ms i w)
        | DNS_ASSOC_READ \<Rightarrow> on_event EPOLLIN (dns_assoc_read resolve socks env i w)
        | _ \<Rightarrow> Some (True, w))"

definition bpf2socks_udp_dns_control_event ::
    "resolver \<Rightarrow> sockaddr_storage \<Rightarrow> dns_env \<Rightarrow> u32 \<Rightarrow> u64 \<Rightarrow> nat \<Rightarrow> udp_worker \<Rightarrow> udp_worker option" where
  "bpf2socks_udp_dns_control_event resolve socks env events now_ms i w =
    (let c = wk_dns_channels w i in
     if dc_tcp_fd c < 0 then Some w
     else if dc_stage c \<noteq> DNS_IDLE \<and> dc_stage c \<noteq> DNS_READY then
       map_option (\<lambda>(ok, w1). if ok then w1 else bpf2socks_udp_dns_close_channel (da_clock env) now_ms i w1)
         (advance_dns_channel resolve socks env events now_ms i w)
     else if bpf2socks_udp_control_event_is_failure (da_peek env) events
       then Some (bpf2socks_udp_dns_close_channel (da_clock env) now_ms i w) else Some w)"

section \<open>Queries\<close>

definition ensure_dns_channel :: "dns_env \<Rightarrow> u64 \<Rightarrow> nat \<Rightarrow> udp_worker \<Rightarrow> bool \<times> udp_worker" where
  "ensure_dns_channel env now_ms i w =
    (let c = wk_dns_channels w i in
     if dc_available c \<and> dc_tcp_fd c \<ge> 0 \<and> dc_udp_fd c \<ge> 0 \<and> bpf2socks_udp_control_fd_is_healthy (da_peek env)
     then (True, on_udp (upd_counters (\<lambda>n. n\<lparr>st_udp_associate_reuses := st_udp_associate_reuses n + 1\<rparr>)) w)
     else if dc_stage c \<noteq> DNS_IDLE \<and> dc_stage c \<noteq> DNS_READY then (False, w)
     else open_dns_channel env now_ms i
       (if dc_available c \<or> dc_tcp_fd c \<ge> 0 \<or> dc_udp_fd c \<ge> 0
        then bpf2socks_udp_dns_close_channel (da_clock env) now_ms i w else w))"

text \<open>\<open>envs\<close> has the environment of each channel that is tried.\<close>

fun select_loop :: "(nat \<Rightarrow> dns_env) \<Rightarrow> u64 \<Rightarrow> nat list \<Rightarrow> udp_worker \<Rightarrow> nat option \<times> udp_worker" where
  "select_loop envs now_ms [] w = (None, w)"
| "select_loop envs now_ms (i # is) w =
    (case ensure_dns_channel (envs i) now_ms i w of
       (True, w1) \<Rightarrow> (Some i, w1\<lparr>wk_next_dns_channel := (i + 1) mod DNS_CHANNELS_PER_WORKER\<rparr>)
     | (False, w1) \<Rightarrow> select_loop envs now_ms is w1)"

definition select_dns_channel :: "(nat \<Rightarrow> dns_env) \<Rightarrow> u64 \<Rightarrow> udp_worker \<Rightarrow> nat option \<times> udp_worker" where
  "select_dns_channel envs now_ms w =
    select_loop envs now_ms
      (map (\<lambda>attempt. (wk_next_dns_channel w mod DNS_CHANNELS_PER_WORKER + attempt) mod DNS_CHANNELS_PER_WORKER) [0..<DNS_CHANNELS_PER_WORKER]) w"

definition fill_transaction :: "udp_client_packet \<Rightarrow> bpf2socks_dns_transaction \<Rightarrow> bpf2socks_dns_transaction" where
  "fill_transaction p tx = tx\<lparr>tx_client_addr := cp_client_addr p, tx_original_dst := cp_original_dst p, tx_token_family := cp_token_family p,
     tx_token_addr := copy_prefix (if cp_token_family p = AF_INET6 then 16 else 4) (cp_token_addr p) (tx_token_addr tx),
     tx_connected_udp_token := cp_connected_udp_token p, tx_original_from_socket := cp_original_from_socket p\<rparr>"

definition set_transaction :: "nat \<Rightarrow> (bpf2socks_dns_transaction \<Rightarrow> bpf2socks_dns_transaction) \<Rightarrow> bpf2socks_dns_table \<Rightarrow> bpf2socks_dns_table" where
  "set_transaction i f t = t\<lparr>dt_transactions := (dt_transactions t)(i := f (dt_transactions t i))\<rparr>"

text \<open>The transaction, its channel and the rewritten datagram, or nothing when the query has to take the path of sessions.\<close>

definition bpf2socks_udp_dns_prepare_query ::
    "(nat \<Rightarrow> dns_env) \<Rightarrow> dns_env \<Rightarrow> u64 \<Rightarrow> udp_client_packet \<Rightarrow> bpf2socks_dns_packet_info \<Rightarrow> udp_worker \<Rightarrow>
     (nat \<times> u32 \<times> bpf2socks_udp_msg) option \<times> udp_worker" where
  "bpf2socks_udp_dns_prepare_query envs env2 now_ms p info w =
    (case select_dns_channel envs now_ms w of
       (None, w1) \<Rightarrow> (None, w1)
     | (Some i, w1) \<Rightarrow>
         let from_free_stack = dt_free_count (wk_dns_table w1) > 0 in
         (case bpf2socks_dns_table_alloc (wk_dns_table w1) (dc_index (wk_dns_channels w1 i)) (di_id info) (di_question_fingerprint info) now_ms of
            (Inl _, t) \<Rightarrow> (None, w1\<lparr>wk_dns_table := t\<rparr>)
          | (Inr slot, t) \<Rightarrow>
              let w2 = on_udp (upd_counters (\<lambda>n. if from_free_stack
                      then n\<lparr>st_dns_free_stack_allocations := st_dns_free_stack_allocations n + 1\<rparr>
                      else n\<lparr>st_dns_full_table_evictions := st_dns_full_table_evictions n + 1\<rparr>)) (w1\<lparr>wk_dns_table := t\<rparr>);
                  j = tx_channel_index (dt_transactions t slot)
              in (case ensure_dns_channel env2 now_ms (unat j) w2 of
                    (False, w3) \<Rightarrow> (None, on_table (\<lambda>t. bpf2socks_dns_table_release t slot) w3)
                  | (True, w3) \<Rightarrow>
                      let w4 = on_table (set_transaction slot (fill_transaction p)) w3;
                          tx = dt_transactions (wk_dns_table w4) slot
                      in (Some (slot, tx_channel_index tx,
                            \<lparr>um_addr = cp_original_dst p, um_payload = bpf2socks_dns_set_id (cp_payload p) (tx_rewritten_id tx)\<rparr>), w4))))"

text \<open>
  What \<open>sendmmsg\<close> answers for the queries of one channel. When it sends nothing without an error, the
  code looks at the \<open>errno\<close> of an earlier call, \<open>df_errno\<close>.
\<close>

record dns_flush_env =
  df_sent :: "errno + nat"
  df_errno :: errno
  df_clock :: u64

definition flush_dns_group :: "dns_flush_env \<Rightarrow> nat \<Rightarrow> (nat \<times> bpf2socks_udp_msg) list \<Rightarrow> udp_worker \<Rightarrow> udp_worker" where
  "flush_dns_group env i queries w =
    (let c = wk_dns_channels w i;
         release = (\<lambda>txs w. fold (\<lambda>slot w. on_table (\<lambda>t. bpf2socks_dns_table_release t slot) w) txs w);
         send_error = on_udp (upd_counters (\<lambda>n. n\<lparr>st_udp_send_errors := st_udp_send_errors n + 1\<rparr>));
         result = (case bpf2socks_socks5_udp_sendmmsg (map snd queries) of Inl e \<Rightarrow> Inl e | Inr _ \<Rightarrow> df_sent env)
     in if \<not> dc_available c \<or> dc_udp_fd c < 0 then bpf2socks_udp_dns_close_channel (df_clock env) (df_clock env) i w
        else if result = Inr 0 \<or> (\<exists>e. result = Inl e) then
          let e = (case result of Inl e \<Rightarrow> e | Inr _ \<Rightarrow> df_errno env); w1 = send_error w in
          if e = EAGAIN \<or> e = ENOBUFS then release (map fst queries) w1
          else bpf2socks_udp_dns_close_channel (df_clock env) (df_clock env) i w1
        else let sent = (case result of Inr n \<Rightarrow> n | Inl _ \<Rightarrow> 0);
                 w1 = on_udp (upd_counters (\<lambda>n. n\<lparr>st_udp_packets_to_upstream := st_udp_packets_to_upstream n + of_nat sent,
                        st_udp_copy_sends := st_udp_copy_sends n + of_nat sent\<rparr>)) w
             in if sent < length queries then release (map fst (drop sent queries)) (send_error w1) else w1)"

function bpf2socks_udp_dns_flush_outgoing ::
    "(u32 \<Rightarrow> dns_flush_env) \<Rightarrow> (nat \<times> u32 \<times> bpf2socks_udp_msg) list \<Rightarrow> udp_worker \<Rightarrow> udp_worker" where
  "bpf2socks_udp_dns_flush_outgoing envs [] w = w"
| "bpf2socks_udp_dns_flush_outgoing envs ((slot, j, m) # rest) w =
    (if DNS_CHANNELS_PER_WORKER \<le> unat j
     then bpf2socks_udp_dns_flush_outgoing envs rest (on_table (\<lambda>t. bpf2socks_dns_table_release t slot) w)
     else bpf2socks_udp_dns_flush_outgoing envs (filter (\<lambda>(_, k, _). k \<noteq> j) rest)
       (flush_dns_group (envs j) (unat j) ((slot, m) # map (\<lambda>(s, _, m). (s, m)) (filter (\<lambda>(_, k, _). k = j) rest)) w))"
  by pat_completeness auto
termination by (relation "measure (\<lambda>(_, xs, _). length xs)") (auto simp: le_imp_less_Suc)

section \<open>Responses\<close>

definition dns_transaction_needs_original_reply_socket :: "bpf2socks_dns_transaction \<Rightarrow> bool" where
  "dns_transaction_needs_original_reply_socket tx \<longleftrightarrow>
    \<not> tx_connected_udp_token tx \<and> (tx_original_from_socket tx \<or> sa_family (tx_original_dst tx) = AF_INET \<or> sa_family (tx_original_dst tx) = AF_INET6)"

text \<open>The sockets, by family, and the results of sending.\<close>

record dns_reply_env =
  dr_raw_socket :: "errno + int"
  dr_raw_send :: send_env
  dr_reply_socket :: reply_env
  dr_send :: send_env

definition ensure_dns_raw_reply_socket :: "dns_reply_env \<Rightarrow> int \<Rightarrow> udp_worker \<Rightarrow> int \<times> udp_worker" where
  "ensure_dns_raw_reply_socket env family w =
    (if family = AF_INET then
       if wk_dns_raw4_fd w \<ge> 0 then (wk_dns_raw4_fd w, w)
       else (case dr_raw_socket env of Inl _ \<Rightarrow> (-1, w) | Inr fd \<Rightarrow> (fd, (on_udp (open_udp_fd fd) w)\<lparr>wk_dns_raw4_fd := fd\<rparr>))
     else if family = AF_INET6 then
       if wk_dns_raw6_fd w \<ge> 0 then (wk_dns_raw6_fd w, w)
       else (case dr_raw_socket env of Inl _ \<Rightarrow> (-1, w) | Inr fd \<Rightarrow> (fd, (on_udp (open_udp_fd fd) w)\<lparr>wk_dns_raw6_fd := fd\<rparr>))
     else (-1, w))"

text \<open>
  One reply through a raw socket, or through a batch of one on a socket of its own or on the
  listener with the token as the source; without a session it is not queued, so it must be taken.
\<close>

definition send_dns_response_with_binding ::
    "send_env \<Rightarrow> bool \<Rightarrow> sockaddr_storage \<Rightarrow> bpf2socks_sockaddr \<Rightarrow> bytes \<Rightarrow> udp_worker \<Rightarrow> (errno + unit) \<times> udp_worker" where
  "send_dns_response_with_binding env raw client original payload w =
    (if raw then (case raw_send env client original payload of Inl e \<Rightarrow> (Inl e, w) | Inr _ \<Rightarrow> (Inr (), on_udp count_reply w))
     else if classify_result (se_sendmmsg env) 1 = SEND_COMPLETE then (Inr (), on_udp count_reply w)
     else (Inl (case se_sendmmsg env of Inl e \<Rightarrow> e | Inr _ \<Rightarrow> EAGAIN), w))"

definition send_dns_response_to_client ::
    "dns_reply_env \<Rightarrow> bpf2socks_dns_transaction \<Rightarrow> bytes \<Rightarrow> udp_worker \<Rightarrow> (errno + unit) \<times> udp_worker" where
  "send_dns_response_to_client env tx payload w =
    (let client = tx_client_addr tx; original = tx_original_dst tx in
     if dns_transaction_needs_original_reply_socket tx then
       (case ensure_dns_raw_reply_socket env (sa_family original) w of
          (raw_fd, w1) \<Rightarrow>
            case (if raw_fd \<ge> 0 then send_dns_response_with_binding (dr_raw_send env) True client original payload w1 else (Inl EMSGSIZE, w1)) of
              (r, w2) \<Rightarrow>
                if r \<noteq> Inl EMSGSIZE then (r, w2)
                else (case bpf2socks_udp_reply_socket_create (dr_reply_socket env) original (wk_udp w2) of
                  (Inl e, s) \<Rightarrow> (Inl e, w2\<lparr>wk_udp := s\<rparr>)
                | (Inr (fd, raw), s) \<Rightarrow>
                    (case send_dns_response_with_binding (dr_send env) raw client original payload (w2\<lparr>wk_udp := s\<rparr>) of
                       (r, w3) \<Rightarrow> (r, on_udp (close_udp_fd fd) w3))))
     else send_dns_response_with_binding (dr_send env) False client original payload w)"

text \<open>One datagram of the relay: the reply that reached a client, if any, as its address and bytes.\<close>

definition handle_dns_message ::
    "dns_reply_env \<Rightarrow> nat \<Rightarrow> errno + bpf2socks_udp_msg \<Rightarrow> udp_worker \<Rightarrow> (sockaddr_storage \<times> bpf2socks_sockaddr \<times> bytes) option \<times> udp_worker" where
  "handle_dns_message env i msg w =
    (let bump = (\<lambda>f. on_udp (upd_counters f));
         w0 = bump (\<lambda>n. n\<lparr>st_udp_packets_from_upstream := st_udp_packets_from_upstream n + 1\<rparr>) w;
         malformed = bump (\<lambda>n. n\<lparr>st_udp_drops_malformed_socks5 := st_udp_drops_malformed_socks5 n + 1\<rparr>) w0;
         index = dc_index (wk_dns_channels w i)
     in case msg of
          Inl e \<Rightarrow> (None, if e = EMSGSIZE then bump (\<lambda>n. n\<lparr>st_udp_drops_oversized := st_udp_drops_oversized n + 1\<rparr>) w0 else malformed)
        | Inr m \<Rightarrow>
            (case bpf2socks_dns_parse_response (um_payload m) of
               Inl _ \<Rightarrow> (None, malformed)
             | Inr info \<Rightarrow>
                 (case bpf2socks_dns_table_find (wk_dns_table w0) index (di_id info) of
                    None \<Rightarrow> (None, w0)
                  | Some slot \<Rightarrow>
                      let tx = dt_transactions (wk_dns_table w0) slot in
                      if di_has_question info \<and> di_question_fingerprint info \<noteq> tx_question_fingerprint tx then (None, w0)
                      else let w1 = bump (\<lambda>n. n\<lparr>st_dns_valid_responses := st_dns_valid_responses n + 1\<rparr>)
                                 (on_table (\<lambda>t. bpf2socks_dns_table_note_response t index) w0);
                               payload = bpf2socks_dns_set_id (um_payload m) (tx_original_id tx)
                           in (case send_dns_response_to_client env tx payload w1 of
                                 (Inl _, w2) \<Rightarrow>
                                   (None, on_table (\<lambda>t. bpf2socks_dns_table_release t slot)
                                      (bump (\<lambda>n. n\<lparr>st_udp_send_errors := st_udp_send_errors n + 1\<rparr>) w2))
                               | (Inr _, w2) \<Rightarrow>
                                   (Some (tx_client_addr tx, tx_original_dst tx, payload), on_table (\<lambda>t. bpf2socks_dns_table_release t slot) w2)))))"

fun handle_dns_messages ::
    "(nat \<Rightarrow> dns_reply_env) \<Rightarrow> nat \<Rightarrow> (errno + bpf2socks_udp_msg) list \<Rightarrow> udp_worker \<Rightarrow>
     (sockaddr_storage \<times> bpf2socks_sockaddr \<times> bytes) list \<times> udp_worker" where
  "handle_dns_messages envs i [] w = ([], w)"
| "handle_dns_messages envs i (m # ms) w =
    (case handle_dns_message (envs (length ms)) i m w of
       (r, w1) \<Rightarrow> (case handle_dns_messages envs i ms w1 of (out, w2) \<Rightarrow> ((case r of None \<Rightarrow> out | Some x \<Rightarrow> x # out), w2)))"

record dns_upstream_env =
  du_recv :: "errno + (bool \<times> bytes) list"
  du_ctl :: "errno option"
  du_clock :: u64
  du_reply :: "nat \<Rightarrow> dns_reply_env"

definition UPSTREAM_STRIDE :: nat where "UPSTREAM_STRIDE = BPF2SOCKS_UDP_BUFFER_SIZE + HEADER_CAP"

definition bpf2socks_udp_dns_handle_upstream ::
    "dns_upstream_env \<Rightarrow> nat \<Rightarrow> udp_worker \<Rightarrow> ((sockaddr_storage \<times> bpf2socks_sockaddr \<times> bytes) list \<times> udp_worker) option" where
  "bpf2socks_udp_dns_handle_upstream env i w =
    (let c = wk_dns_channels w i in
     if \<not> dc_available c \<or> dc_udp_fd c < 0 then Some ([], w)
     else case bpf2socks_udp_downlink_reserve_slots (ud_batch_size (wk_udp w)) (wk_udp w) of
       None \<Rightarrow> None
     | Some (Inl _, s) \<Rightarrow>
         let w1 = upd_dns i (\<lambda>c. c\<lparr>dc_relay_paused := True\<rparr>) (w\<lparr>wk_udp := s\<rparr>) in
         (case epoll_set (du_ctl env) (dc_udp_fd c) 0 (wk_udp w1) of
            (None, s1) \<Rightarrow> Some ([], w1\<lparr>wk_udp := s1\<rparr>)
          | (Some _, s1) \<Rightarrow> Some ([], on_udp (upd_counters (\<lambda>n. n\<lparr>st_udp_send_errors := st_udp_send_errors n + 1\<rparr>)) (w1\<lparr>wk_udp := s1\<rparr>)))
     | Some (Inr batch, s) \<Rightarrow>
         let w1 = w\<lparr>wk_udp := bpf2socks_udp_downlink_release_reservation s\<rparr> in
         (case (case du_recv env of Inl e \<Rightarrow> Inl e | Inr ps \<Rightarrow> bpf2socks_socks5_udp_recvmmsg UPSTREAM_STRIDE (take (unat batch) ps)) of
            Inl e \<Rightarrow>
              if e = EMSGSIZE then Some ([], on_udp (upd_counters (\<lambda>n. n\<lparr>st_udp_drops_oversized := st_udp_drops_oversized n + 1\<rparr>)) w1)
              else if e \<noteq> EAGAIN then Some ([], bpf2socks_udp_dns_close_channel (du_clock env) (du_clock env) i w1)
              else Some ([], w1)
          | Inr ms \<Rightarrow> Some (handle_dns_messages (du_reply env) i ms w1)))"

section \<open>Channels that wait for the budget\<close>

definition resume_dns_channel :: "(nat \<Rightarrow> errno option) \<Rightarrow> nat \<Rightarrow> udp_worker \<Rightarrow> udp_worker" where
  "resume_dns_channel ctl i w =
    (let c = wk_dns_channels w i in
     if \<not> dc_relay_paused c \<or> dc_udp_fd c < 0 then w
     else case epoll_set (ctl i) (dc_udp_fd c) EPOLLIN (wk_udp w) of
       (Some _, s) \<Rightarrow> w\<lparr>wk_udp := s\<rparr>
     | (None, s) \<Rightarrow> upd_dns i (\<lambda>c. c\<lparr>dc_relay_paused := False\<rparr>) (w\<lparr>wk_udp := s\<rparr>))"

definition bpf2socks_udp_downlink_resume_budget_waiters :: "(nat \<Rightarrow> errno option) \<Rightarrow> (nat \<Rightarrow> errno option) \<Rightarrow> udp_worker \<Rightarrow> udp_worker" where
  "bpf2socks_udp_downlink_resume_budget_waiters dns_ctl ctl w =
    (let w1 = (if room_for_slot (wk_udp w) then fold (resume_dns_channel dns_ctl) [0..<DNS_CHANNELS_PER_WORKER] w else w)
     in on_udp (resume_session_waiters ctl) w1)"

end
