(* ===== verification/Udp_Worker.thy ===== *)
theory Udp_Worker
  imports Udp_Dns Udp_Token
begin

text \<open>
  \<^verbatim>\<open>bridge/udp.c\<close>, the worker thread: the datagrams of the clients on their way to the relays, the
  datagrams of the relays on their way to the clients, the maintenance between events, the event
  loop, its set-up and its end. Everything the kernel answers is in the environments; the token map
  is the second half of the state, as in \<open>Udp_Token\<close>. Logging and the publication of statistics have
  no effect on the model.
\<close>

section \<open>Configuration of a worker\<close>

record 'm udp_setup =
  uc_config :: bpf2socks_runtime_config
  uc_socks :: sockaddr_storage
  uc_resolve :: resolver
  uc_ops :: "'m token_ops"
  uc_update :: "'m \<Rightarrow> bpf2socks_token_key \<Rightarrow> bpf2socks_original_dst \<Rightarrow> 'm"
  uc_query :: "u16 \<Rightarrow> int"
  uc_udp4_listener_fd :: int
  uc_udp6_listener_fd :: int

definition listen_port :: "'m udp_setup \<Rightarrow> u16" where
  "listen_port u = rc_listen_port (uc_config u)"

definition bump :: "(udp_counters \<Rightarrow> udp_counters) \<Rightarrow> udp_worker \<Rightarrow> udp_worker" where
  "bump f w = on_udp (upd_counters f) w"

definition bpf2socks_udp_relay_skip_unusable :: "errno + bpf2socks_udp_msg \<Rightarrow> udp_state \<Rightarrow> bpf2socks_udp_msg option \<times> udp_state" where
  "bpf2socks_udp_relay_skip_unusable msg s =
    (case msg of
       Inr m \<Rightarrow> (Some m, s)
     | Inl e \<Rightarrow>
         (None, upd_counters (\<lambda>n. if e = EMSGSIZE then n\<lparr>st_udp_drops_oversized := st_udp_drops_oversized n + 1\<rparr>
            else n\<lparr>st_udp_drops_malformed_socks5 := st_udp_drops_malformed_socks5 n + 1\<rparr>) s))"

section \<open>Datagrams of clients\<close>

text \<open>What \<open>recvmmsg\<close> gives for one datagram.\<close>

record client_datagram =
  cd_truncated :: bool
  cd_addr :: sockaddr_storage
  cd_cmsgs :: "cmsg list"
  cd_payload :: bytes

record client_env =
  cv_cache_calloc :: bool
  cv_notice :: notice_env
  cv_dns :: "nat \<Rightarrow> dns_env"
  cv_dns_again :: dns_env
  cv_get :: get_env
  cv_create :: reply_env
  cv_create_now :: u64
  cv_reply :: reply_env
  cv_malloc :: bool
  cv_queue_now :: u64

definition zeroed_packet :: udp_client_packet where
  "zeroed_packet = \<lparr>cp_client_addr = no_address, cp_token_family = 0, cp_token_addr = zero_bytes 16, cp_has_original_dst = False,
     cp_original_from_socket = False, cp_connected_udp_token = False, cp_token_lookup_mode = LOOKUP_UNKNOWN,
     cp_original_dst = \<lparr>sa_family = AF_UNSPEC, sa_port = 0, sa_addr = zero_bytes 16\<rparr>, cp_payload = []\<rparr>"

text \<open>
  The session that exists for the client and the packet with its destination; no packet when the
  destination is unknown, in which case a notice may be sent.
\<close>

definition resolve_packet ::
    "'m udp_setup \<Rightarrow> client_env \<Rightarrow> u64 \<Rightarrow> client_datagram \<Rightarrow> udp_worker \<times> 'm \<Rightarrow> (nat option \<times> udp_client_packet) option \<times> udp_worker \<times> 'm" where
  "resolve_packet u env now_ms d wm =
    (let w = fst wm; m = snd wm;
         p0 = zeroed_packet\<lparr>cp_client_addr := cd_addr d, cp_payload := cd_payload d\<rparr>;
         w0 = bump (\<lambda>n. n\<lparr>st_udp_packets_from_client := st_udp_packets_from_client n + 1\<rparr>) w;
         miss = bump (\<lambda>n. n\<lparr>st_udp_token_misses := st_udp_token_misses n + 1\<rparr>)
     in case bpf2socks_udp_token_parse_cmsgs (uc_config u) (cd_cmsgs d) p0 of
          (False, p) \<Rightarrow> (None, miss w0, m)
        | (True, p) \<Rightarrow>
            let existing = bpf2socks_udp_session_find (wk_udp w0) (cp_client_addr p);
                preference = (case existing of Some i \<Rightarrow> us_token_lookup_mode (ud_sessions (wk_udp w0) i) | None \<Rightarrow> LOOKUP_UNKNOWN)
            in (case bpf2socks_udp_token_lookup_original (uc_ops u) (listen_port u) (cv_cache_calloc env) m (wk_udp w0) p preference now_ms of
                  (True, p1, s) \<Rightarrow> (Some (existing, p1), w0\<lparr>wk_udp := s\<rparr>, m)
                | (False, p1, s) \<Rightarrow>
                    (case bpf2socks_udp_token_recover_connected (uc_update u) (listen_port u) s existing p1 m of
                       (True, p2, m1) \<Rightarrow> (Some (existing, p2), w0\<lparr>wk_udp := s\<rparr>, m1)
                     | (False, p2, m1) \<Rightarrow>
                         (case bpf2socks_udp_token_notify_unknown (cv_notice env) (listen_port u) p2 now_ms (wk_udp (miss (w0\<lparr>wk_udp := s\<rparr>))) of
                            (_, s1) \<Rightarrow> (None, w0\<lparr>wk_udp := s1\<rparr>, m1)))))"

text \<open>A binding that was found is brought up to date; \<open>False\<close> when its reply socket cannot be opened.\<close>

definition refresh_binding :: "reply_env \<Rightarrow> u64 \<Rightarrow> udp_client_packet \<Rightarrow> nat \<Rightarrow> nat \<Rightarrow> udp_state \<Rightarrow> bool \<times> udp_state" where
  "refresh_binding env now_ms p i b s =
    (let s1 = upd_counters (\<lambda>n. n\<lparr>st_udp_reply_binding_hits := st_udp_reply_binding_hits n + 1\<rparr>) s;
         s2 = upd_binding b (\<lambda>x. x\<lparr>ub_token_addr := copy_prefix (if cp_token_family p = AF_INET6 then 16 else 4) (cp_token_addr p) (ub_token_addr x)\<rparr>) s1;
         needs = (\<not> cp_connected_udp_token p \<and> (cp_original_from_socket p \<or> bpf2socks_udp_packet_needs_original_reply_socket p));
         finish = (\<lambda>s. bpf2socks_udp_binding_lru_touch
                    (upd_binding b (\<lambda>x. x\<lparr>ub_connected_udp_token := cp_connected_udp_token p, ub_last_seen_ms := now_ms\<rparr>) s) i b);
         fd = ub_reply_fd (ud_bindings s2 b)
     in if \<not> needs \<and> fd \<ge> 0 then (True, finish (bpf2socks_udp_binding_close_reply s2 b))
        else if needs \<and> fd < 0 then
          (case bpf2socks_udp_reply_socket_create env (ub_original_dst (ud_bindings s2 b)) s2 of
             (Inl _, s3) \<Rightarrow> (False, s3)
           | (Inr (fd, raw), s3) \<Rightarrow> (True, finish (bpf2socks_udp_binding_set_reply s3 b fd raw)))
        else (True, finish s2))"

text \<open>The path of sessions: the session and the message if it can be sent at once.\<close>

definition route_packet ::
    "client_env \<Rightarrow> u64 \<Rightarrow> udp_client_packet \<Rightarrow> nat \<Rightarrow> udp_state \<Rightarrow> ((nat \<times> bpf2socks_udp_msg) option \<times> udp_state) option" where
  "route_packet env now_ms p i s =
    (case (case bpf2socks_udp_binding_find s i (cp_original_dst p) of
             None \<Rightarrow> map_option (\<lambda>(b, s). (b \<noteq> None, s)) (bpf2socks_udp_binding_create_for_packet (cv_create env) (cv_create_now env) s i p)
           | Some b \<Rightarrow> Some (refresh_binding (cv_reply env) now_ms p i b s)) of
       None \<Rightarrow> None
     | Some (False, s1) \<Rightarrow> Some (None, s1)
     | Some (True, s1) \<Rightarrow>
         if us_stage (ud_sessions s1 i) \<noteq> SESSION_READY then
           (case bpf2socks_udp_session_queue_pending (cv_queue_now env) (cv_malloc env) s1 i (cp_original_dst p) (cp_payload p) BPF2SOCKS_UDP_BUFFER_SIZE of
              (Inr _, s2) \<Rightarrow> Some (None, s2)
            | (Inl e, s2) \<Rightarrow>
                Some (None, upd_counters (\<lambda>n. if e = ENOBUFS then n\<lparr>st_udp_drops_pending_budget := st_udp_drops_pending_budget n + 1\<rparr>
                  else n\<lparr>st_udp_send_errors := st_udp_send_errors n + 1\<rparr>) s2))
         else Some (Some (i, \<lparr>um_addr = cp_original_dst p, um_payload = cp_payload p\<rparr>), s1))"

datatype outgoing = Nothing | To_Relay nat bpf2socks_udp_msg | To_Dns nat u32 bpf2socks_udp_msg

definition handle_client_packet ::
    "'m udp_setup \<Rightarrow> client_env \<Rightarrow> u64 \<Rightarrow> client_datagram \<Rightarrow> udp_worker \<times> 'm \<Rightarrow> (outgoing \<times> udp_worker \<times> 'm) option" where
  "handle_client_packet u env now_ms d wm =
    (if cd_truncated d \<or> BPF2SOCKS_UDP_BUFFER_SIZE < length (cd_payload d)
     then Some (Nothing, bump (\<lambda>n. n\<lparr>st_udp_drops_oversized := st_udp_drops_oversized n + 1\<rparr>) (fst wm), snd wm)
     else case resolve_packet u env now_ms d wm of
       (None, w1, m1) \<Rightarrow> Some (Nothing, w1, m1)
     | (Some (existing, p), w1, m1) \<Rightarrow>
         let w2 = (case existing of
                     Some i \<Rightarrow> if cp_token_lookup_mode p \<noteq> LOOKUP_UNKNOWN
                       then on_udp (upd_session i (\<lambda>x. x\<lparr>us_token_lookup_mode := cp_token_lookup_mode p\<rparr>)) w1 else w1
                   | None \<Rightarrow> w1)
         in (case (if bpf2socks_udp_dns_is_candidate (rc_enable_dns_hijack (uc_config u)) p then
                     (case bpf2socks_dns_parse_query (cp_payload p) of
                        Inl _ \<Rightarrow> (None, w2)
                      | Inr info \<Rightarrow> bpf2socks_udp_dns_prepare_query (cv_dns env) (cv_dns_again env) now_ms p info w2)
                   else (None, w2)) of
               (Some (slot, j, msg), w3) \<Rightarrow> Some (To_Dns slot j msg, w3, m1)
             | (None, w3) \<Rightarrow>
                 (case bpf2socks_udp_session_get (uc_ops u) (listen_port u) (cv_get env) p existing (wk_udp w3, m1) of
                    None \<Rightarrow> None
                  | Some (None, s, m2) \<Rightarrow> Some (Nothing, w3\<lparr>wk_udp := s\<rparr>, m2)
                  | Some (Some i, s, m2) \<Rightarrow>
                      (case route_packet env now_ms p i s of
                         None \<Rightarrow> None
                       | Some (None, s1) \<Rightarrow> Some (Nothing, w3\<lparr>wk_udp := s1\<rparr>, m2)
                       | Some (Some (k, msg), s1) \<Rightarrow> Some (To_Relay k msg, w3\<lparr>wk_udp := s1\<rparr>, m2)))))"

fun client_packets_loop ::
    "'m udp_setup \<Rightarrow> u64 \<Rightarrow> (client_env \<times> client_datagram) list \<Rightarrow> udp_worker \<times> 'm \<Rightarrow> (outgoing list \<times> udp_worker \<times> 'm) option" where
  "client_packets_loop u now_ms [] wm = Some ([], wm)"
| "client_packets_loop u now_ms ((env, d) # ds) wm =
    (case handle_client_packet u env now_ms d wm of
       None \<Rightarrow> None
     | Some (out, wm1) \<Rightarrow> map_option (\<lambda>(outs, wm2). (out # outs, wm2)) (client_packets_loop u now_ms ds wm1))"

text \<open>
  The messages for the relays, one batch per session in the order of its first message; \<open>results\<close>
  has what \<open>sendmmsg\<close> answers for the batch of a session.
\<close>

definition send_batch_to_relay :: "(errno + nat) list \<Rightarrow> nat \<Rightarrow> bpf2socks_udp_msg list \<Rightarrow> udp_state \<Rightarrow> udp_state option" where
  "send_batch_to_relay results i msgs s =
    (case bpf2socks_udp_relay_send_batch results msgs s of
       None \<Rightarrow> None
     | Some (Inr _, s1) \<Rightarrow> Some s1
     | Some (Inl _, s1) \<Rightarrow>
         Some (bpf2socks_udp_session_drop (upd_counters (\<lambda>n. n\<lparr>st_udp_send_errors := st_udp_send_errors n + 1\<rparr>) s1) i))"

function send_to_relays :: "(nat \<Rightarrow> (errno + nat) list) \<Rightarrow> (nat \<times> bpf2socks_udp_msg) list \<Rightarrow> udp_state \<Rightarrow> udp_state option" where
  "send_to_relays results [] s = Some s"
| "send_to_relays results ((i, m) # rest) s =
    Option.bind (send_batch_to_relay (results i) i (m # map snd (filter (\<lambda>(j, _). j = i) rest)) s)
      (send_to_relays results (filter (\<lambda>(j, _). j \<noteq> i) rest))"
  by pat_completeness auto
termination by (relation "measure (\<lambda>(_, xs, _). length xs)") (auto simp: le_imp_less_Suc)

record client_batch_env =
  cb_received :: "errno + (client_env \<times> client_datagram) list"
  cb_now :: u64
  cb_clock :: u64
  cb_dns_flush :: "u32 \<Rightarrow> dns_flush_env"
  cb_relay_sends :: "nat \<Rightarrow> (errno + nat) list"

definition handle_udp_client_packets :: "'m udp_setup \<Rightarrow> client_batch_env \<Rightarrow> udp_worker \<times> 'm \<Rightarrow> (udp_worker \<times> 'm) option" where
  "handle_udp_client_packets u env wm =
    (case cb_received env of
       Inl _ \<Rightarrow> Some wm
     | Inr ds \<Rightarrow>
         let w0 = bpf2socks_udp_dns_expire_transactions (cb_clock env) (ucast (rc_dns_transaction_timeout (uc_config u))) (cb_now env) (fst wm) in
         (case client_packets_loop u (cb_now env) (take (unat (ud_batch_size (wk_udp w0))) ds) (w0, snd wm) of
            None \<Rightarrow> None
          | Some (outs, w1, m1) \<Rightarrow>
              let dns = List.map_filter (\<lambda>x. case x of To_Dns a b c \<Rightarrow> Some (a, b, c) | _ \<Rightarrow> None) outs;
                  relay = List.map_filter (\<lambda>x. case x of To_Relay a b \<Rightarrow> Some (a, b) | _ \<Rightarrow> None) outs;
                  w2 = bpf2socks_udp_dns_flush_outgoing (cb_dns_flush env) dns w1
              in map_option (\<lambda>s. (w2\<lparr>wk_udp := s\<rparr>, m1)) (send_to_relays (cb_relay_sends env) relay (wk_udp w2))))"

section \<open>Datagrams of relays\<close>

record upstream_env =
  ue_create :: reply_env
  ue_create_now :: u64
  ue_batch1 :: batch_env
  ue_batch2 :: batch_env
  ue_queue :: downlink_env
  ue_send :: send_env

text \<open>The binding of a message, which a reply naming a domain finds by its port.\<close>

definition message_binding ::
    "upstream_env \<Rightarrow> nat \<Rightarrow> bpf2socks_udp_msg \<Rightarrow> udp_state \<Rightarrow> (nat option \<times> udp_state) option" where
  "message_binding env i msg s =
    (let malformed = upd_counters (\<lambda>n. n\<lparr>st_udp_drops_malformed_socks5 := st_udp_drops_malformed_socks5 n + 1\<rparr>);
         addr = (if sa_family (um_addr msg) = AF_UNSPEC
                 then map_option (\<lambda>b. ub_original_dst (ud_bindings s b)) (bpf2socks_udp_binding_find_by_domain_port s i (sa_port (um_addr msg)))
                 else Some (um_addr msg))
     in case addr of
          None \<Rightarrow> Some (None, malformed s)
        | Some a \<Rightarrow>
            (case bpf2socks_udp_binding_find s i a of
               Some b \<Rightarrow>
                 Some (Some b, bpf2socks_udp_binding_lru_touch (upd_counters (\<lambda>n. n\<lparr>st_udp_reply_binding_hits := st_udp_reply_binding_hits n + 1\<rparr>) s) i b)
             | None \<Rightarrow>
                 (case bpf2socks_udp_binding_create_fullcone (ue_create env) (ue_create_now env) s i a of
                    None \<Rightarrow> None
                  | Some (None, s1) \<Rightarrow> Some (None, malformed s1)
                  | Some (Some b, s1) \<Rightarrow> Some (Some b, s1))))"

definition send_error :: "udp_state \<Rightarrow> udp_state" where
  "send_error s = upd_counters (\<lambda>n. n\<lparr>st_udp_send_errors := st_udp_send_errors n + 1\<rparr>) s"

text \<open>A reply through the raw socket of its binding, after the batch has gone out. \<open>False\<close> ends the session.\<close>

definition deliver_raw ::
    "upstream_env \<Rightarrow> nat \<Rightarrow> nat \<Rightarrow> bytes \<Rightarrow> udp_state \<Rightarrow> bool \<times> udp_state" where
  "deliver_raw env i b payload s =
    (let x = ud_bindings s b; queue = bpf2socks_udp_downlink_queue_packet (ue_queue env) s i b payload (ub_reply_fd x) False True in
     if bpf2socks_udp_downlink_find_channel s i b (ub_reply_fd x) False True \<noteq> None then
       (case queue of (Inr _, s1) \<Rightarrow> (True, s1) | (Inl _, s1) \<Rightarrow> (False, send_error s1))
     else case raw_send (ue_send env) (us_client_addr (ud_sessions s i)) (ub_original_dst x) payload of
       Inr _ \<Rightarrow>
         (True, count_reply (bpf2socks_udp_lru_touch (upd_binding b (\<lambda>x. x\<lparr>ub_last_seen_ms := se_now (ue_send env)\<rparr>)
            (upd_session i (\<lambda>x. x\<lparr>us_last_seen_ms := se_now (ue_send env)\<rparr>) s)) i))
     | Inl e \<Rightarrow>
         if e = EMSGSIZE then (True, upd_counters (\<lambda>n. n\<lparr>st_udp_drops_oversized := st_udp_drops_oversized n + 1\<rparr>) s)
         else if bpf2socks_udp_downlink_classify_send_result (-1) 1 e = SEND_RETRY then
           (case queue of (Inr _, s1) \<Rightarrow> (True, s1) | (Inl _, s1) \<Rightarrow> (False, send_error s1))
         else (False, send_error s))"

text \<open>One datagram of the relay: whether to go on, and the state with the batch.\<close>

definition deliver_message ::
    "'m udp_setup \<Rightarrow> upstream_env \<Rightarrow> nat \<Rightarrow> errno + bpf2socks_udp_msg \<Rightarrow> udp_state \<times> udp_downlink_batch \<Rightarrow> (bool \<times> udp_state \<times> udp_downlink_batch) option" where
  "deliver_message u env i msg sb =
    (let s0 = upd_counters (\<lambda>n. n\<lparr>st_udp_packets_from_upstream := st_udp_packets_from_upstream n + 1\<rparr>) (fst sb); batch = snd sb in
     case bpf2socks_udp_relay_skip_unusable msg s0 of
       (None, s1) \<Rightarrow> Some (True, s1, batch)
     | (Some m, s1) \<Rightarrow>
         (case message_binding env i m s1 of
            None \<Rightarrow> None
          | Some (None, s2) \<Rightarrow> Some (True, s2, batch)
          | Some (Some b, s2) \<Rightarrow>
              let x = ud_bindings s2 b;
                  queue = (\<lambda>fd use_pktinfo.
                    case bpf2socks_udp_downlink_batch_queue (ue_batch1 env) (ue_batch2 env) (ue_queue env) s2 batch i b (um_payload m) fd use_pktinfo of
                      (Inr _, _, s3, batch1) \<Rightarrow> Some (True, s3, batch1)
                    | (Inl _, _, s3, batch1) \<Rightarrow> Some (False, send_error s3, batch1))
              in if ub_reply_fd x \<ge> 0 then
                   if ub_reply_raw x then
                     (case bpf2socks_udp_downlink_batch_flush (ue_batch1 env) s2 batch of
                        (Inl _, _, s3, batch1) \<Rightarrow> Some (False, send_error s3, batch1)
                      | (Inr _, _, s3, batch1) \<Rightarrow> (case deliver_raw env i b (um_payload m) s3 of (ok, s4) \<Rightarrow> Some (ok, s4, batch1)))
                   else queue (ub_reply_fd x) False
                 else queue (if ss_family (us_client_addr (ud_sessions s2 i)) = AF_INET6 \<and> uc_udp6_listener_fd u \<ge> 0
                             then uc_udp6_listener_fd u else uc_udp4_listener_fd u) True))"

fun deliver_loop ::
    "'m udp_setup \<Rightarrow> nat \<Rightarrow> (upstream_env \<times> (errno + bpf2socks_udp_msg)) list \<Rightarrow> udp_state \<times> udp_downlink_batch \<Rightarrow>
     (bool \<times> udp_state \<times> udp_downlink_batch) option" where
  "deliver_loop u i [] sb = Some (True, sb)"
| "deliver_loop u i ((env, msg) # ms) sb =
    (case deliver_message u env i msg sb of
       None \<Rightarrow> None
     | Some (False, sb1) \<Rightarrow> Some (False, sb1)
     | Some (True, sb1) \<Rightarrow> deliver_loop u i ms sb1)"

definition mark_waiting :: "nat \<Rightarrow> udp_state \<Rightarrow> udp_state" where
  "mark_waiting i s =
    (case bpf2socks_udp_downlink_waiter_tracker_mark_waiting (ud_downlink_budget_waiters s) (us_downlink_waiting_budget (ud_sessions s i)) of
       (n, w) \<Rightarrow> upd_session i (\<lambda>x. x\<lparr>us_downlink_waiting_budget := w\<rparr>) (s\<lparr>ud_downlink_budget_waiters := n\<rparr>))"

record upstream_batch_env =
  ub_env_pause :: "errno option"
  ub_env_recv :: "errno + (upstream_env \<times> bool \<times> bytes) list"
  ub_env_flush :: batch_env

definition handle_udp_upstream_packets :: "'m udp_setup \<Rightarrow> upstream_batch_env \<Rightarrow> nat \<Rightarrow> udp_state \<Rightarrow> udp_state option" where
  "handle_udp_upstream_packets u env i s =
    (case bpf2socks_udp_downlink_reserve_slots (ud_batch_size s) s of
       None \<Rightarrow> None
     | Some (Inl _, s1) \<Rightarrow>
         (case bpf2socks_udp_downlink_set_paused (ub_env_pause env) (mark_waiting i s1) i True of
            (Inr _, s2) \<Rightarrow> Some s2
          | (Inl _, s2) \<Rightarrow> Some (bpf2socks_udp_session_drop (send_error s2) i))
     | Some (Inr batch, s1) \<Rightarrow>
         (case ub_env_recv env of
            Inl e \<Rightarrow>
              let s2 = bpf2socks_udp_downlink_release_reservation s1 in
              if e = EMSGSIZE then Some (upd_counters (\<lambda>n. n\<lparr>st_udp_drops_oversized := st_udp_drops_oversized n + 1\<rparr>) s2)
              else if e \<noteq> EAGAIN then Some (bpf2socks_udp_session_drop s2 i)
              else Some s2
          | Inr ps \<Rightarrow>
              let ps1 = take (unat batch) ps in
              (case bpf2socks_socks5_udp_recvmmsg UPSTREAM_STRIDE (map snd ps1) of
                 Inl _ \<Rightarrow> Some (bpf2socks_udp_session_drop (bpf2socks_udp_downlink_release_reservation s1) i)
               | Inr ms \<Rightarrow>
                   if ms = [] then Some (bpf2socks_udp_downlink_release_reservation s1)
                   else case deliver_loop u i (zip (map fst ps1) ms) (s1, bpf2socks_udp_downlink_batch_init) of
                     None \<Rightarrow> None
                   | Some (ok, s2, batch2) \<Rightarrow>
                       let flushed = (if ok then (case bpf2socks_udp_downlink_batch_flush (ub_env_flush env) s2 batch2 of
                                          (Inr _, _, s3, _) \<Rightarrow> (True, s3)
                                        | (Inl _, _, s3, _) \<Rightarrow> (False, send_error s3))
                                      else (False, s2));
                           s4 = bpf2socks_udp_downlink_release_reservation (snd flushed)
                       in Some (if fst flushed then s4 else bpf2socks_udp_session_drop s4 i))))"

end
