(* ===== verification/Udp_Loop.thy ===== *)
theory Udp_Loop
  imports Udp_Worker Deadline Udp_Budget
begin

text \<open>
  \<^verbatim>\<open>bridge/udp.c\<close>, second half: the state a worker starts with and what it leaves behind, the time of
  its next deadline, the maintenance between events, the dispatch of one event and the loop of
  \<^verbatim>\<open>bpf2socks_bridge_udp_run\<close> with its set-up.
\<close>

section \<open>The state at the start\<close>

text \<open>Which of the groups of allocations succeed.\<close>

record init_env =
  ie_tables :: bool
  ie_index :: bool
  ie_dns :: bool

text \<open>The quotas of the worker, its statistics, and what it shares with the others.\<close>

record worker_share =
  sh_id :: u32
  sh_session_cap :: nat
  sh_binding_cap :: nat
  sh_budget :: "u64 bpf2socks_udp_budget"
  sh_registry :: "u16 \<Rightarrow> bool"
  sh_stats :: udp_counters
  sh_open :: "int set"
  sh_epoll :: "int \<Rightarrow> u32"

definition no_links :: "nat links" where
  "no_links = \<lparr>lk_head = None, lk_tail = None, lk_next = (\<lambda>_. None), lk_prev = (\<lambda>_. None)\<rparr>"

definition no_channel :: udp_downlink_channel where
  "no_channel = \<lparr>ch_session = None, ch_queue = [], ch_source_binding = None, ch_fd = -1, ch_source_fd = -1,
     ch_source_binding_generation = 0, ch_use_pktinfo = False, ch_raw = False\<rparr>"

text \<open>The lists of free slots are filled by pushing the slots from the first to the last.\<close>

definition initial_udp :: "bpf2socks_runtime_config \<Rightarrow> worker_share \<Rightarrow> udp_state" where
  "initial_udp config sh =
    \<lparr>ud_sessions = (\<lambda>_. blank_session), ud_bindings = (\<lambda>_. blank_binding), ud_channels = (\<lambda>_. no_channel),
     ud_control_refs = (\<lambda>_. no_ref), ud_relay_refs = (\<lambda>_. no_ref),
     ud_free_sessions = rev [0..<sh_session_cap sh], ud_free_bindings = rev [0..<sh_binding_cap sh],
     ud_session_buckets = (\<lambda>_. []), ud_lru = no_links, ud_handshakes = no_links, ud_binding_lru = no_links,
     ud_session_lru_next = (\<lambda>_. None), ud_session_lru_prev = (\<lambda>_. None), ud_binding_index = [], ud_retired = [],
     ud_session_cap = sh_session_cap sh, ud_session_count = 0, ud_binding_cap = sh_binding_cap sh, ud_binding_count = 0,
     ud_local_session_count = 0, ud_pending_budget = sh_budget sh, ud_downlink_read_reservation = 0, ud_downlink_budget_waiters = 0,
     ud_relay_registry = sh_registry sh, ud_release_retry_due_ms = NO_DEADLINE, ud_port_destroyed_ms = (\<lambda>_. 0),
     ud_released_ports = zero_bytes PORT_BITMAP_BYTES, ud_check_new_sessions_until_ms = 0, ud_destroy_events_armed = False,
     ud_idle_timeout_ms = ucast (rc_udp_idle_timeout config), ud_token_cache = None, ud_token_notice4_fd = -1,
     ud_token_notice6_fd = -1, ud_token_notice_window_ms = 0, ud_token_notice_count = 0, ud_next_deadline_ms = NO_DEADLINE,
     ud_batch_size = (if rc_udp_batch_size config < of_nat UDP_MAX_BATCH then rc_udp_batch_size config else of_nat UDP_MAX_BATCH),
     ud_epoll = sh_epoll sh, ud_open = sh_open sh, ud_counters = sh_stats sh\<rparr>"

definition initial_dns_channel :: "nat \<Rightarrow> udp_dns_channel" where
  "initial_dns_channel i = \<lparr>dc_index = of_nat i, dc_tcp_fd = -1, dc_udp_fd = -1, dc_available = False, dc_stage = DNS_IDLE,
     dc_stage_started_ms = 0, dc_next_rebuild_ms = 0, dc_write_buf = [], dc_write_offset = 0, dc_read_buf = [], dc_relay_port = 0,
     dc_relay_port_claimed = False, dc_relay_paused = False, dc_relay_addr = None, dc_relay_connected = False\<rparr>"

definition init_state :: "init_env \<Rightarrow> bpf2socks_runtime_config \<Rightarrow> worker_share \<Rightarrow> udp_worker option" where
  "init_state env config sh =
    (if sh_session_cap sh = 0 \<or> sh_binding_cap sh = 0 \<or> ub_cap_bytes (sh_budget sh) < bpf2socks_udp_downlink_max_allocation then None
     else if \<not> ie_tables env \<or> \<not> ie_index env then None
     else case bpf2socks_dns_table_init (ie_dns env) (of_nat DNS_CHANNELS_PER_WORKER) DNS_MAX_TRANSACTIONS_PER_WORKER of
       Inl _ \<Rightarrow> None
     | Inr t \<Rightarrow> Some \<lparr>wk_udp = initial_udp config sh, wk_dns_channels = initial_dns_channel, wk_dns_table = t, wk_dns_raw4_fd = -1,
         wk_dns_raw6_fd = -1, wk_next_dns_channel = 0, wk_id = 0, wk_epoll_fd = -1, wk_budget_wake_fd = -1, wk_destroy_events_fd = -1\<rparr>)"

section \<open>The end of a worker\<close>

definition close_worker_fd :: "(udp_worker \<Rightarrow> int) \<Rightarrow> udp_worker \<Rightarrow> udp_worker" where
  "close_worker_fd f w = on_udp (close_udp_fd (f w)) w"

text \<open>
  What is left of a worker are its descriptors that are still open, the budget and the registry; the
  tables are freed. \<open>clock\<close> is the time when its DNS channels are closed.
\<close>

definition free_state :: "u64 \<Rightarrow> udp_worker \<Rightarrow> worker_share" where
  "free_state clock w =
    (let w1 = fold (bpf2socks_udp_dns_close_channel clock clock) [0..<DNS_CHANNELS_PER_WORKER] w;
         w2 = close_worker_fd wk_destroy_events_fd (close_worker_fd (\<lambda>w. ud_token_notice6_fd (wk_udp w))
                (close_worker_fd (\<lambda>w. ud_token_notice4_fd (wk_udp w)) (close_worker_fd wk_dns_raw6_fd (close_worker_fd wk_dns_raw4_fd w1))));
         w3 = (if wk_budget_wake_fd w2 \<ge> 0
               then close_worker_fd wk_budget_wake_fd
                 (on_udp (\<lambda>s. s\<lparr>ud_pending_budget := bpf2socks_udp_budget_set_wake_fd (ud_pending_budget s) (wk_id w2) (-1)\<rparr>) w2)
               else w2);
         w4 = close_worker_fd wk_epoll_fd w3;
         s = fold (\<lambda>i s. bpf2socks_udp_session_close s i) [0..<ud_session_cap (wk_udp w4)] (wk_udp w4);
         s1 = bpf2socks_udp_downlink_free_retired s
     in \<lparr>sh_id = wk_id w4, sh_session_cap = ud_session_cap s1, sh_binding_cap = ud_binding_cap s1, sh_budget = ud_pending_budget s1,
         sh_registry = ud_relay_registry s1, sh_stats = ud_counters s1, sh_open = ud_open s1, sh_epoll = ud_epoll s1\<rparr>)"

section \<open>The next deadline\<close>

text \<open>
  The walks over the sessions and over the bindings, oldest first: the first entry that is not yet due
  or that nothing keeps gives the deadline.
\<close>

partial_function (option) session_deadline_walk :: "u64 \<Rightarrow> nat option \<Rightarrow> udp_state \<Rightarrow> u64 \<Rightarrow> u64 option" where
  "session_deadline_walk now_ms p s next_ms =
    (case p of
       None \<Rightarrow> Some next_ms
     | Some i \<Rightarrow>
         if \<not> us_used (ud_sessions s i) then Some next_ms
         else if us_last_seen_ms (ud_sessions s i) + ud_idle_timeout_ms s > now_ms \<or> \<not> draining (ud_sessions s i)
         then Some (bpf2socks_deadline_note next_ms (us_last_seen_ms (ud_sessions s i) + ud_idle_timeout_ms s))
         else session_deadline_walk now_ms (lk_next (ud_lru s) i) s next_ms)"

partial_function (option) binding_deadline_walk :: "u64 \<Rightarrow> nat option \<Rightarrow> udp_state \<Rightarrow> u64 \<Rightarrow> u64 option" where
  "binding_deadline_walk now_ms p s next_ms =
    (case p of
       None \<Rightarrow> Some next_ms
     | Some b \<Rightarrow>
         if \<not> ub_used (ud_bindings s b) then Some next_ms
         else if ub_last_seen_ms (ud_bindings s b) + ud_idle_timeout_ms s > now_ms \<or> ub_downlink_pending_count (ud_bindings s b) = 0
         then Some (bpf2socks_deadline_note next_ms (ub_last_seen_ms (ud_bindings s b) + ud_idle_timeout_ms s))
         else binding_deadline_walk now_ms (lk_next (ud_binding_lru s) b) s next_ms)"

definition dns_channel_deadline :: "udp_worker \<Rightarrow> nat \<Rightarrow> u64 \<Rightarrow> u64" where
  "dns_channel_deadline w i next_ms =
    (let c = wk_dns_channels w i in
     if dc_stage c = DNS_IDLE \<or> dc_stage c = DNS_READY \<or> dc_stage_started_ms c = 0 then next_ms
     else bpf2socks_deadline_note next_ms (dc_stage_started_ms c + DNS_HANDSHAKE_TIMEOUT_MILLISECONDS))"

definition udp_next_deadline :: "bpf2socks_runtime_config \<Rightarrow> u64 \<Rightarrow> udp_worker \<Rightarrow> u64 option" where
  "udp_next_deadline config now_ms w =
    (let s = wk_udp w in
     Option.bind (session_deadline_walk now_ms (lk_head (ud_lru s)) s NO_DEADLINE) (\<lambda>n1.
     Option.bind (binding_deadline_walk now_ms (lk_head (ud_binding_lru s)) s (bpf2socks_deadline_note n1 (ud_release_retry_due_ms s))) (\<lambda>n2.
     let n3 = (case bpf2socks_dns_table_oldest (wk_dns_table w) of
                 Some sent_at_ms \<Rightarrow> bpf2socks_deadline_note n2 (sent_at_ms + ucast (rc_dns_transaction_timeout config))
               | None \<Rightarrow> n2);
         n4 = fold (dns_channel_deadline w) [0..<DNS_CHANNELS_PER_WORKER] n3
     in Some (case lk_head (ud_handshakes s) of
                Some i \<Rightarrow> bpf2socks_deadline_note n4 (us_handshake_started_ms (ud_sessions s i) + ucast (rc_connect_timeout config))
              | None \<Rightarrow> n4))))"

section \<open>Maintenance\<close>

definition udp_has_budget_waiters :: "udp_worker \<Rightarrow> bool" where
  "udp_has_budget_waiters w \<longleftrightarrow>
    bpf2socks_udp_downlink_waiter_tracker_has_waiters (ud_downlink_budget_waiters (wk_udp w)) \<or>
    (\<exists>i \<in> set [0..<DNS_CHANNELS_PER_WORKER]. dc_relay_paused (wk_dns_channels w i))"

text \<open>The clock at each step, and what the calls that change what epoll watches answer.\<close>

record maintenance_env =
  mt_now :: "nat \<Rightarrow> u64"
  mt_dns_ctl :: "nat \<Rightarrow> errno option"
  mt_ctl :: "nat \<Rightarrow> errno option"
  mt_dns_ctl_again :: "nat \<Rightarrow> errno option"
  mt_ctl_again :: "nat \<Rightarrow> errno option"
  mt_disarm :: "errno option"

text \<open>The timers: everything that ends because time has passed.\<close>

definition run_timers :: "'m udp_setup \<Rightarrow> (nat \<Rightarrow> u64) \<Rightarrow> udp_worker \<times> 'm \<Rightarrow> (udp_worker \<times> 'm) option" where
  "run_timers u now wm =
    (let w = fst wm in
     Option.bind (bpf2socks_udp_binding_expire_idle (now 0) (wk_udp w)) (\<lambda>s1.
     Option.bind (bpf2socks_udp_session_expire_handshakes (rc_connect_timeout (uc_config u)) (now 1) s1) (\<lambda>s2.
     Option.bind (bpf2socks_udp_session_expire_idle (now 2) s2) (\<lambda>s3.
     Option.bind (bpf2socks_udp_release_retry (uc_ops u) (listen_port u) (uc_query u) (now 3) (s3, snd wm)) (\<lambda>(s4, m1).
     Some (bpf2socks_udp_dns_expire_handshakes (now 5) (now 5)
             (bpf2socks_udp_dns_expire_transactions (now 4) (ucast (rc_dns_transaction_timeout (uc_config u))) (now 4) (w\<lparr>wk_udp := s4\<rparr>)), m1))))))"

definition wait_for_budget :: "maintenance_env \<Rightarrow> udp_worker \<Rightarrow> udp_worker" where
  "wait_for_budget env w =
    (if udp_has_budget_waiters w
     then bpf2socks_udp_downlink_resume_budget_waiters (mt_dns_ctl_again env) (mt_ctl_again env)
       (on_udp (\<lambda>s. s\<lparr>ud_pending_budget := bpf2socks_udp_budget_wait (ud_pending_budget s) (wk_id w)\<rparr>) w)
     else w)"

definition udp_run_maintenance :: "'m udp_setup \<Rightarrow> maintenance_env \<Rightarrow> udp_worker \<times> 'm \<Rightarrow> (udp_worker \<times> 'm) option" where
  "udp_run_maintenance u env wm =
    (let w1 = bpf2socks_udp_downlink_resume_budget_waiters (mt_dns_ctl env) (mt_ctl env) (on_udp bpf2socks_udp_downlink_free_retired (fst wm)) in
     Option.bind (run_timers u (mt_now env) (w1, snd wm)) (\<lambda>(w2, m2).
     let w3 = wait_for_budget env (on_udp bpf2socks_udp_downlink_free_retired w2);
         w4 = on_udp (bpf2socks_udp_release_disarm_if_idle (mt_disarm env)) w3
     in Option.bind (udp_next_deadline (uc_config u) (mt_now env 6) w4) (\<lambda>d.
        Some (on_udp (\<lambda>s. s\<lparr>ud_next_deadline_ms := d\<rparr>) w4, m2))))"

section \<open>Events\<close>

text \<open>
  The object an event belongs to. The stop event has none; the sessions and channels are known by
  their slots, and whether a reference still leads to a session is part of the state.
\<close>

datatype udp_event_ref =
  No_Ref | Budget_Wake | Destroy_Events | Listener4 | Listener6 | Session_Control nat | Session_Relay nat | Downlink nat
| Dns_Control nat | Dns_Relay nat

record udp_event_env =
  ev_now :: u64
  ev_diag :: "(errno + diag_message list) list"
  ev_client :: client_batch_env
  ev_associate :: associate_env
  ev_peek :: "errno + nat"
  ev_upstream :: upstream_batch_env
  ev_sends :: "send_env list"
  ev_dns :: dns_env
  ev_dns_upstream :: dns_upstream_env

definition session_control :: "'m udp_setup \<Rightarrow> udp_event_env \<Rightarrow> u32 \<Rightarrow> nat \<Rightarrow> udp_state \<Rightarrow> udp_state option" where
  "session_control u env events i s =
    (if us_stage (ud_sessions s i) \<noteq> SESSION_READY then
       (case bpf2socks_udp_associate_advance (uc_resolve u) (uc_socks u) (ev_associate env) events s i of
          None \<Rightarrow> None
        | Some (Inr _, s1) \<Rightarrow> Some s1
        | Some (Inl _, s1) \<Rightarrow> Some (bpf2socks_udp_session_drop (send_error s1) i))
     else Some (bpf2socks_udp_session_control_event (ev_peek env) s i events))"

definition session_relay :: "'m udp_setup \<Rightarrow> udp_event_env \<Rightarrow> u32 \<Rightarrow> nat \<Rightarrow> udp_state \<Rightarrow> udp_state option" where
  "session_relay u env events i s =
    (if events AND (EPOLLERR OR EPOLLHUP) \<noteq> 0 then Some (bpf2socks_udp_session_drop s i)
     else if events AND EPOLLIN \<noteq> 0 then handle_udp_upstream_packets u (ev_upstream env) i s
     else Some s)"

definition downlink_ready :: "udp_event_env \<Rightarrow> u32 \<Rightarrow> nat \<Rightarrow> nat \<Rightarrow> udp_state \<Rightarrow> udp_state option" where
  "downlink_ready env events c i s =
    (if events AND (EPOLLERR OR EPOLLHUP) \<noteq> 0 then Some (bpf2socks_udp_session_drop (send_error s) i)
     else if events AND EPOLLOUT \<noteq> 0 then
       (case bpf2socks_udp_downlink_flush_channel (ev_sends env) s c of
          None \<Rightarrow> None
        | Some (Inr _, _, s1) \<Rightarrow> Some s1
        | Some (Inl _, _, s1) \<Rightarrow> Some (bpf2socks_udp_session_drop (send_error s1) i))
     else Some s)"

definition dns_relay_event :: "udp_event_env \<Rightarrow> u32 \<Rightarrow> nat \<Rightarrow> udp_worker \<Rightarrow> udp_worker option" where
  "dns_relay_event env events j w =
    (let c = wk_dns_channels w j in
     if \<not> dc_available c \<or> dc_udp_fd c < 0 then Some w
     else if events AND (EPOLLERR OR EPOLLHUP) \<noteq> 0 then Some (bpf2socks_udp_dns_close_channel (ev_now env) (ev_now env) j w)
     else if events AND EPOLLIN \<noteq> 0 then map_option snd (bpf2socks_udp_dns_handle_upstream (ev_dns_upstream env) j w)
     else Some w)"

definition in_udp :: "(udp_state \<Rightarrow> udp_state option) \<Rightarrow> udp_worker \<times> 'm \<Rightarrow> (udp_worker \<times> 'm) option" where
  "in_udp f wm = map_option (\<lambda>s. ((fst wm)\<lparr>wk_udp := s\<rparr>, snd wm)) (f (wk_udp (fst wm)))"

definition handle_event :: "'m udp_setup \<Rightarrow> udp_event_env \<Rightarrow> udp_event_ref \<Rightarrow> u32 \<Rightarrow> udp_worker \<times> 'm \<Rightarrow> (udp_worker \<times> 'm) option" where
  "handle_event u env ref events wm =
    (let s = wk_udp (fst wm); input = (events AND EPOLLIN \<noteq> 0) in
     case ref of
       No_Ref \<Rightarrow> Some wm
     | Budget_Wake \<Rightarrow> Some wm
     | Destroy_Events \<Rightarrow>
         map_option (\<lambda>(s1, m1). ((fst wm)\<lparr>wk_udp := s1\<rparr>, m1))
           (bpf2socks_udp_release_handle_events (uc_ops u) (listen_port u) (uc_query u) (ev_diag env) (ev_now env) (s, snd wm))
     | Listener4 \<Rightarrow> if input then handle_udp_client_packets u (ev_client env) wm else Some wm
     | Listener6 \<Rightarrow> if input then handle_udp_client_packets u (ev_client env) wm else Some wm
     | Session_Control k \<Rightarrow>
         (case rf_session (ud_control_refs s k) of
            Some i \<Rightarrow> if us_used (ud_sessions s i) then in_udp (session_control u env events i) wm else Some wm
          | None \<Rightarrow> Some wm)
     | Session_Relay k \<Rightarrow>
         (case rf_session (ud_relay_refs s k) of
            Some i \<Rightarrow> if us_used (ud_sessions s i) \<and> us_stage (ud_sessions s i) = SESSION_READY
                      then in_udp (session_relay u env events i) wm else Some wm
          | None \<Rightarrow> Some wm)
     | Downlink c \<Rightarrow>
         (case ch_session (ud_channels s c) of
            Some i \<Rightarrow> if us_used (ud_sessions s i) then in_udp (downlink_ready env events c i) wm else Some wm
          | None \<Rightarrow> Some wm)
     | Dns_Control j \<Rightarrow>
         if j < DNS_CHANNELS_PER_WORKER
         then map_option (\<lambda>w. (w, snd wm)) (bpf2socks_udp_dns_control_event (uc_resolve u) (uc_socks u) (ev_dns env) events (ev_now env) j (fst wm))
         else Some wm
     | Dns_Relay j \<Rightarrow>
         if j < DNS_CHANNELS_PER_WORKER then map_option (\<lambda>w. (w, snd wm)) (dns_relay_event env events j (fst wm)) else Some wm)"

fun dispatch_events :: "'m udp_setup \<Rightarrow> (udp_event_env \<times> udp_event_ref \<times> u32) list \<Rightarrow> udp_worker \<times> 'm \<Rightarrow> (udp_worker \<times> 'm) option" where
  "dispatch_events u [] wm = Some wm"
| "dispatch_events u ((env, ref, events) # es) wm = Option.bind (handle_event u env ref events wm) (dispatch_events u es)"

section \<open>The loop\<close>

text \<open>
  One pass of the loop is what \<open>epoll_wait\<close> gives: an interruption, an error, a stop that was requested
  meanwhile, or the events, none when the time is over. The run ends with its passes when a stop is
  requested before the next wait.
\<close>

datatype udp_pass =
  Wait_Interrupted | Wait_Failed errno | Stop_Seen | Woken "(udp_event_env \<times> udp_event_ref \<times> u32) list" maintenance_env

definition udp_wait_timeout :: "'m udp_setup \<Rightarrow> u64 \<Rightarrow> udp_worker \<Rightarrow> int" where
  "udp_wait_timeout u now_ms w = bpf2socks_deadline_udp_wait_timeout (ud_next_deadline_ms (wk_udp w)) now_ms (rc_debug_stats (uc_config u))"

fun udp_loop :: "'m udp_setup \<Rightarrow> udp_pass list \<Rightarrow> udp_worker \<times> 'm \<Rightarrow> ((errno + unit) \<times> udp_worker \<times> 'm) option" where
  "udp_loop u [] wm = Some (Inr (), wm)"
| "udp_loop u (Wait_Interrupted # ps) wm = udp_loop u ps wm"
| "udp_loop u (Wait_Failed e # ps) wm = Some (Inl e, wm)"
| "udp_loop u (Stop_Seen # ps) wm = Some (Inr (), wm)"
| "udp_loop u (Woken es env # ps) wm =
    Option.bind (Option.bind (dispatch_events u es wm) (udp_run_maintenance u env)) (udp_loop u ps)"

section \<open>The set-up\<close>

record udp_start_env =
  su_init :: init_env
  su_ports_calloc :: bool
  su_buffers_calloc :: bool
  su_epoll_create :: "errno + int"
  su_stop_fd :: int
  su_stop_ctl :: "errno option"
  su_eventfd :: "errno + int"
  su_wake_ctl :: "errno option"
  su_destroy_open :: "errno + int"
  su_destroy_ctl :: "errno option"
  su_listener4_ctl :: "errno option"
  su_listener6_ctl :: "errno option"
  su_end_clock :: u64

text \<open>A descriptor of the worker is opened and watched; \<open>False\<close> when one of the two fails.\<close>

definition open_and_watch :: "errno + int \<Rightarrow> errno option \<Rightarrow> (int \<Rightarrow> udp_worker \<Rightarrow> udp_worker) \<Rightarrow> udp_worker \<Rightarrow> bool \<times> udp_worker" where
  "open_and_watch opened ctl keep w =
    (case opened of
       Inl _ \<Rightarrow> (False, w)
     | Inr fd \<Rightarrow>
         (case epoll_set ctl fd EPOLLIN (open_udp_fd fd (wk_udp w)) of (r, s) \<Rightarrow> (r = None, keep fd (w\<lparr>wk_udp := s\<rparr>))))"

definition watch_fd :: "errno option \<Rightarrow> int \<Rightarrow> udp_worker \<Rightarrow> bool \<times> udp_worker" where
  "watch_fd ctl fd w = (case epoll_set ctl fd EPOLLIN (wk_udp w) of (r, s) \<Rightarrow> (r = None, w\<lparr>wk_udp := s\<rparr>))"

text \<open>\<open>False\<close> with the worker to be freed, \<open>True\<close> with the worker that is ready for its loop.\<close>

definition start_worker :: "'m udp_setup \<Rightarrow> udp_start_env \<Rightarrow> u32 \<Rightarrow> udp_worker \<Rightarrow> bool \<times> udp_worker" where
  "start_worker u env worker_id w =
    (if \<not> su_buffers_calloc env then (False, w)
     else case su_epoll_create env of
       Inl _ \<Rightarrow> (False, w)
     | Inr epfd \<Rightarrow>
         let w1 = (on_udp (open_udp_fd epfd) w)\<lparr>wk_epoll_fd := epfd\<rparr> in
         if su_stop_fd env < 0 \<or> su_stop_ctl env \<noteq> None then (False, w1)
         else let w2 = on_udp (\<lambda>s. s\<lparr>ud_epoll := (ud_epoll s)(su_stop_fd env := EPOLLIN)\<rparr>) w1\<lparr>wk_id := worker_id\<rparr> in
           case open_and_watch (su_eventfd env) (su_wake_ctl env) (\<lambda>fd w. w\<lparr>wk_budget_wake_fd := fd\<rparr>) w2 of
             (False, w3) \<Rightarrow> (False, w3)
           | (True, w3) \<Rightarrow>
               let w4 = on_udp (\<lambda>s. s\<lparr>ud_pending_budget :=
                     bpf2socks_udp_budget_set_wake_fd (ud_pending_budget s) worker_id (wk_budget_wake_fd w3)\<rparr>) w3
               in (case (if su_ports_calloc env
                         then open_and_watch (su_destroy_open env) (su_destroy_ctl env) (\<lambda>fd w. w\<lparr>wk_destroy_events_fd := fd\<rparr>) w4
                         else (case su_destroy_open env of Inl _ \<Rightarrow> (False, w4)
                               | Inr fd \<Rightarrow> (False, (on_udp (open_udp_fd fd) w4)\<lparr>wk_destroy_events_fd := fd\<rparr>))) of
                     (False, w5) \<Rightarrow> (False, w5)
                   | (True, w5) \<Rightarrow>
                       (case watch_fd (su_listener4_ctl env) (uc_udp4_listener_fd u) (on_udp (\<lambda>s. s\<lparr>ud_destroy_events_armed := True\<rparr>) w5) of
                          (False, w6) \<Rightarrow> (False, w6)
                        | (True, w6) \<Rightarrow>
                            if uc_udp6_listener_fd u \<ge> 0 then watch_fd (su_listener6_ctl env) (uc_udp6_listener_fd u) w6 else (True, w6))))"

text \<open>The result of the thread, what it leaves, and the token map.\<close>

definition bpf2socks_bridge_udp_run ::
    "'m udp_setup \<Rightarrow> udp_start_env \<Rightarrow> udp_pass list \<Rightarrow> worker_share \<Rightarrow> 'm \<Rightarrow> (bool \<times> worker_share \<times> 'm) option" where
  "bpf2socks_bridge_udp_run u env passes sh m =
    (if uc_udp4_listener_fd u < 0 then Some (False, sh, m)
     else case init_state (su_init env) (uc_config u) sh of
       None \<Rightarrow> Some (False, sh, m)
     | Some w \<Rightarrow>
         (case start_worker u env (sh_id sh) w of
            (False, w1) \<Rightarrow> Some (False, free_state (su_end_clock env) w1, m)
          | (True, w1) \<Rightarrow>
              map_option (\<lambda>(r, w2, m2). (r = Inr (), free_state (su_end_clock env) w2, m2)) (udp_loop u passes (w1, m))))"

end
