(* ===== verification/Udp_Loop_Correct.thy ===== *)
theory Udp_Loop_Correct
  imports Udp_Loop Udp_Session_Correct
begin

text \<open>
  What a worker may rely on while it sleeps: up to the deadline it has computed, no timer has anything
  to do.
\<close>

section \<open>Deadlines on 64 bits\<close>

text \<open>A clock that has not reached half of its range, and a timeout of a configuration.\<close>

lemma not_due_before_deadline:
  fixes seen now t d idle :: u64
  assumes "seen \<le> now" "now \<le> t" "t < d" "d \<le> seen + idle" "now < 2 ^ 63" "idle < 2 ^ 63"
  shows "t - seen < idle"
proof -
  have n: "unat now < 2 ^ 63" "unat idle < 2 ^ 63" using assms(5,6) by (simp_all add: word_less_nat_alt)
  have "unat seen \<le> unat now" using assms(1) by (simp add: word_le_nat_alt)
  then have "unat (seen + idle) = unat seen + unat idle" using n by (subst unat_add_lem [THEN iffD1]) simp_all
  then have "unat t < unat seen + unat idle" using assms(3,4) by (simp add: word_less_nat_alt word_le_nat_alt)
  moreover have "seen \<le> t" using assms(1,2) by order
  ultimately show ?thesis by (auto simp: word_less_nat_alt unat_sub word_le_nat_alt)
qed

lemma due_after_deadline:
  fixes seen now t idle :: u64
  assumes "seen \<le> now" "now \<le> t" "\<not> now < seen + idle" "now < 2 ^ 63" "idle < 2 ^ 63"
  shows "\<not> t - seen < idle"
proof -
  have n: "unat now < 2 ^ 63" "unat idle < 2 ^ 63" using assms(4,5) by (simp_all add: word_less_nat_alt)
  have "unat seen \<le> unat now" using assms(1) by (simp add: word_le_nat_alt)
  then have "unat (seen + idle) = unat seen + unat idle" using n by (subst unat_add_lem [THEN iffD1]) simp_all
  then have "unat seen + unat idle \<le> unat t" using assms(2,3) by (simp add: word_less_nat_alt word_le_nat_alt)
  moreover have "seen \<le> t" using assms(1,2) by order
  ultimately show ?thesis by (auto simp: word_less_nat_alt unat_sub word_le_nat_alt)
qed

lemma deadline_note_le: "bpf2socks_deadline_note n d \<le> n" "bpf2socks_deadline_note n d \<le> d"
  by (auto simp: bpf2socks_deadline_note_def)

section \<open>The walks\<close>

lemma session_walk:
  assumes "chain (lk_next (ud_lru s)) p xs" "now < 2 ^ 63" "ud_idle_timeout_ms s < 2 ^ 63"
    "\<forall>i \<in> set xs. us_used (ud_sessions s i) \<longrightarrow> us_last_seen_ms (ud_sessions s i) \<le> now"
  shows "\<exists>d. session_deadline_walk now p s n = Some d \<and> d \<le> n \<and>
    (\<forall>t. now \<le> t \<longrightarrow> t < d \<longrightarrow> expire_idle_loop t p s = Some s)"
  using assms
proof (induction xs arbitrary: p)
  case Nil
  then show ?case by (simp add: session_deadline_walk.simps [of _ None] expire_idle_loop.simps [of _ None])
next
  case (Cons i xs)
  then have p: "p = Some i" and rest: "chain (lk_next (ud_lru s)) (lk_next (ud_lru s) i) xs" by simp_all
  let ?x = "ud_sessions s i" and ?d = "us_last_seen_ms (ud_sessions s i) + ud_idle_timeout_ms s"
  consider (unused) "\<not> us_used ?x" | (stop) "us_used ?x" "now < ?d \<or> \<not> draining ?x" | (skip) "us_used ?x" "\<not> now < ?d" "draining ?x" by blast
  then show ?case
  proof cases
    case unused
    then show ?thesis by (simp add: p session_deadline_walk.simps [of _ "Some i"] expire_idle_loop.simps [of _ "Some i"])
  next
    case stop
    have "expire_idle_loop t (Some i) s = Some s" if "now \<le> t" "t < bpf2socks_deadline_note n ?d" for t
      using not_due_before_deadline [of "us_last_seen_ms ?x" now t _ "ud_idle_timeout_ms s", OF _ that deadline_note_le(2)]
        Cons.prems(2,3,4) stop(1) by (simp add: expire_idle_loop.simps [of _ "Some i"])
    with stop show ?thesis by (simp add: p session_deadline_walk.simps [of _ "Some i"] deadline_note_le)
  next
    case skip
    obtain d where d: "session_deadline_walk now (lk_next (ud_lru s) i) s n = Some d" "d \<le> n"
      "\<And>t. now \<le> t \<Longrightarrow> t < d \<Longrightarrow> expire_idle_loop t (lk_next (ud_lru s) i) s = Some s"
      using Cons.IH [OF rest Cons.prems(2,3)] Cons.prems(4) by auto
    have "\<not> t - us_last_seen_ms ?x < ud_idle_timeout_ms s" if "now \<le> t" for t
      using due_after_deadline [OF _ that skip(2) Cons.prems(2,3)] Cons.prems(4) skip(1) by simp
    then show ?thesis using d skip
      by (simp add: p session_deadline_walk.simps [of _ "Some i"] expire_idle_loop.simps [of _ "Some i"])
  qed
qed

lemma binding_walk:
  assumes "chain (lk_next (ud_binding_lru s)) p xs" "now < 2 ^ 63" "ud_idle_timeout_ms s < 2 ^ 63"
    "\<forall>b \<in> set xs. ub_used (ud_bindings s b) \<longrightarrow> ub_last_seen_ms (ud_bindings s b) \<le> now"
  shows "\<exists>d. binding_deadline_walk now p s n = Some d \<and> d \<le> n \<and>
    (\<forall>t. now \<le> t \<longrightarrow> t < d \<longrightarrow> binding_expire_loop t p s = Some s)"
  using assms
proof (induction xs arbitrary: p)
  case Nil
  then show ?case by (simp add: binding_deadline_walk.simps [of _ None] binding_expire_loop.simps [of _ None])
next
  case (Cons b xs)
  then have p: "p = Some b" and rest: "chain (lk_next (ud_binding_lru s)) (lk_next (ud_binding_lru s) b) xs" by simp_all
  let ?x = "ud_bindings s b" and ?d = "ub_last_seen_ms (ud_bindings s b) + ud_idle_timeout_ms s"
  consider (unused) "\<not> ub_used ?x" | (stop) "ub_used ?x" "now < ?d \<or> ub_downlink_pending_count ?x = 0"
    | (skip) "ub_used ?x" "\<not> now < ?d" "ub_downlink_pending_count ?x > 0" by blast
  then show ?case
  proof cases
    case unused
    then show ?thesis by (simp add: p binding_deadline_walk.simps [of _ "Some b"] binding_expire_loop.simps [of _ "Some b"])
  next
    case stop
    have "binding_expire_loop t (Some b) s = Some s" if "now \<le> t" "t < bpf2socks_deadline_note n ?d" for t
      using not_due_before_deadline [of "ub_last_seen_ms ?x" now t _ "ud_idle_timeout_ms s", OF _ that deadline_note_le(2)]
        Cons.prems(2,3,4) stop(1) by (simp add: binding_expire_loop.simps [of _ "Some b"])
    with stop show ?thesis by (simp add: p binding_deadline_walk.simps [of _ "Some b"] deadline_note_le)
  next
    case skip
    obtain d where d: "binding_deadline_walk now (lk_next (ud_binding_lru s) b) s n = Some d" "d \<le> n"
      "\<And>t. now \<le> t \<Longrightarrow> t < d \<Longrightarrow> binding_expire_loop t (lk_next (ud_binding_lru s) b) s = Some s"
      using Cons.IH [OF rest Cons.prems(2,3)] Cons.prems(4) by auto
    have "\<not> t - ub_last_seen_ms ?x < ud_idle_timeout_ms s" if "now \<le> t" for t
      using due_after_deadline [OF _ that skip(2) Cons.prems(2,3)] Cons.prems(4) skip(1) by simp
    then show ?thesis using d skip
      by (simp add: p binding_deadline_walk.simps [of _ "Some b"] binding_expire_loop.simps [of _ "Some b"])
  qed
qed


section \<open>Sleeping until the next deadline\<close>

text \<open>No entry of the tables is newer than the clock.\<close>

definition stamps_past :: "u64 \<Rightarrow> udp_worker \<Rightarrow> bool" where
  "stamps_past now w \<longleftrightarrow>
    (\<forall>i. us_last_seen_ms (ud_sessions (wk_udp w) i) \<le> now \<and> us_handshake_started_ms (ud_sessions (wk_udp w) i) \<le> now) \<and>
    (\<forall>b. ub_last_seen_ms (ud_bindings (wk_udp w) b) \<le> now) \<and>
    (\<forall>k. tx_sent_at_ms (dt_transactions (wk_dns_table w) k) \<le> now) \<and>
    (\<forall>j. dc_stage_started_ms (wk_dns_channels w j) \<le> now)"

lemma timeout_small: "ucast (x :: u32) < (2 ^ 63 :: u64)"
proof -
  have "unat (ucast x :: u64) < 2 ^ 32" using unsigned_less [of x, where 'a = nat] by (simp add: unsigned_ucast_eq take_bit_nat_eq_self)
  then show ?thesis by (simp add: word_less_nat_alt)
qed

lemma dns_transactions_wait:
  assumes "d \<le> (case bpf2socks_dns_table_oldest (wk_dns_table w) of
      Some sent \<Rightarrow> bpf2socks_deadline_note n (sent + ucast (timeout :: u32)) | None \<Rightarrow> n)"
    "now < 2 ^ 63" "stamps_past now w" "now \<le> t" "t < d"
  shows "bpf2socks_udp_dns_expire_transactions clock (ucast timeout) t w = w"
proof -
  have "\<not> expired_tx (dt_transactions (wk_dns_table w) i) t (ucast timeout)" if "dt_lru_head (wk_dns_table w) = Some i" for i
  proof (cases "tx_used (dt_transactions (wk_dns_table w) i)")
    case True
    then have "d \<le> tx_sent_at_ms (dt_transactions (wk_dns_table w) i) + ucast timeout"
      using assms(1) that by (simp add: bpf2socks_dns_table_oldest_def order.trans [OF _ deadline_note_le(2)])
    then show ?thesis
      using not_due_before_deadline [OF _ assms(4,5) _ assms(2) timeout_small] assms(3) by (simp add: expired_tx_def stamps_past_def)
  qed (simp add: expired_tx_def)
  then have "bpf2socks_dns_table_expire (wk_dns_table w) t (ucast timeout) DNS_MAX_EXPIRE_PER_LOOP c st = (0, wk_dns_table w, st)" for c st
    by (cases "dt_lru_head (wk_dns_table w)") (simp_all add: bpf2socks_dns_table_expire_def DNS_MAX_EXPIRE_PER_LOOP_def eval_nat_numeral)
  then show ?thesis
    by (simp add: bpf2socks_udp_dns_expire_transactions_def on_udp_def upd_counters_def DNS_CHANNELS_PER_WORKER_def eval_nat_numeral)
qed

lemma dns_handshake_waits:
  assumes "d \<le> dns_channel_deadline w j n" "now < 2 ^ 63" "stamps_past now w" "now \<le> t" "t < d"
    "dc_stage (wk_dns_channels w j) \<noteq> DNS_IDLE" "dc_stage (wk_dns_channels w j) \<noteq> DNS_READY" "dc_stage_started_ms (wk_dns_channels w j) \<noteq> 0"
  shows "t - dc_stage_started_ms (wk_dns_channels w j) < DNS_HANDSHAKE_TIMEOUT_MILLISECONDS"
proof -
  have "d \<le> dc_stage_started_ms (wk_dns_channels w j) + DNS_HANDSHAKE_TIMEOUT_MILLISECONDS"
    using assms(1,6,7,8) order.trans [OF _ deadline_note_le(2)] by (simp add: dns_channel_deadline_def)
  then show ?thesis
    using not_due_before_deadline [OF _ assms(4,5) _ assms(2)] assms(3) by (simp add: stamps_past_def DNS_HANDSHAKE_TIMEOUT_MILLISECONDS_def)
qed

lemma dns_channel_deadline_le: "dns_channel_deadline w j n \<le> n"
  by (simp add: dns_channel_deadline_def Let_def deadline_note_le)

lemma dns_handshakes_wait:
  assumes "d \<le> fold (dns_channel_deadline w) [0..<DNS_CHANNELS_PER_WORKER] n" "now < 2 ^ 63" "stamps_past now w" "now \<le> t" "t < d"
  shows "bpf2socks_udp_dns_expire_handshakes clock t w = w"
proof -
  have f: "[0..<DNS_CHANNELS_PER_WORKER] = [0, 1]" by (simp add: DNS_CHANNELS_PER_WORKER_def eval_nat_numeral)
  have 1: "d \<le> dns_channel_deadline w 1 (dns_channel_deadline w 0 n)" using assms(1) by (simp add: f)
  then have 0: "d \<le> dns_channel_deadline w 0 n" using order.trans dns_channel_deadline_le by blast
  show ?thesis unfolding bpf2socks_udp_dns_expire_handshakes_def f
    using dns_handshake_waits [OF 0 assms(2-5)] dns_handshake_waits [OF 1 assms(2-5)] by (simp add: Let_def)
qed

lemma udp_wait_ends:
  assumes "d \<noteq> NO_DEADLINE" "t \<noteq> 0" "t < d"
  shows "0 < bpf2socks_deadline_udp_wait_timeout d t stats \<and> uint t + bpf2socks_deadline_udp_wait_timeout d t stats \<le> uint d"
  using wait_timeout_not_late [OF assms]
  by (auto simp: bpf2socks_deadline_udp_wait_timeout_def min_wait_timeout_def Let_def WORKER_TIMED_WAIT_MILLISECONDS_def)

text \<open>
  C20. The deadline of a UDP worker is exact on the safe side: in every state with intact lists the
  computation returns, the wait that is derived from it ends no later, and until it no timer of the
  maintenance has anything to do, neither for sessions, bindings, handshakes and retries nor for the
  transactions and channels of DNS: running the timers at any time before the deadline changes nothing.
\<close>

theorem udp_sleep_misses_no_timer:
  assumes "session_tables {} (wk_udp w) L H" "dll (ud_binding_lru (wk_udp w)) B" "stamps_past now w" "now < 2 ^ 63"
    "ud_idle_timeout_ms (wk_udp w) = ucast (rc_udp_idle_timeout (uc_config u))"
  shows "\<exists>d. udp_next_deadline (uc_config u) now w = Some d \<and>
    (\<forall>t. d \<noteq> NO_DEADLINE \<longrightarrow> t \<noteq> 0 \<longrightarrow> t < d \<longrightarrow>
       uint t + udp_wait_timeout u t (on_udp (\<lambda>s. s\<lparr>ud_next_deadline_ms := d\<rparr>) w) \<le> uint d) \<and>
    (\<forall>times m. (\<forall>k. now \<le> times k \<and> times k < d) \<longrightarrow> run_timers u times (w, m) = Some (w, m))"
proof -
  let ?s = "wk_udp w"
  have idle: "ud_idle_timeout_ms ?s < 2 ^ 63" using assms(5) timeout_small by simp
  obtain n1 where n1: "session_deadline_walk now (lk_head (ud_lru ?s)) ?s NO_DEADLINE = Some n1"
    "\<And>t. now \<le> t \<Longrightarrow> t < n1 \<Longrightarrow> expire_idle_loop t (lk_head (ud_lru ?s)) ?s = Some ?s"
    using session_walk [OF dll_chain [OF session_tablesD(1) [OF assms(1)]] assms(4) idle, of NO_DEADLINE] assms(3) unfolding stamps_past_def by blast
  obtain n2 where n2: "binding_deadline_walk now (lk_head (ud_binding_lru ?s)) ?s (bpf2socks_deadline_note n1 (ud_release_retry_due_ms ?s)) = Some n2"
    "n2 \<le> bpf2socks_deadline_note n1 (ud_release_retry_due_ms ?s)"
    "\<And>t. now \<le> t \<Longrightarrow> t < n2 \<Longrightarrow> binding_expire_loop t (lk_head (ud_binding_lru ?s)) ?s = Some ?s"
    using binding_walk [OF dll_chain [OF assms(2)] assms(4) idle, of "bpf2socks_deadline_note n1 (ud_release_retry_due_ms ?s)"] assms(3) unfolding stamps_past_def by blast
  define n3 where "n3 = (case bpf2socks_dns_table_oldest (wk_dns_table w) of
      Some sent \<Rightarrow> bpf2socks_deadline_note n2 (sent + ucast (rc_dns_transaction_timeout (uc_config u))) | None \<Rightarrow> n2)"
  define n4 where "n4 = fold (dns_channel_deadline w) [0..<DNS_CHANNELS_PER_WORKER] n3"
  define d where "d = (case lk_head (ud_handshakes ?s) of
      Some i \<Rightarrow> bpf2socks_deadline_note n4 (us_handshake_started_ms (ud_sessions ?s i) + ucast (rc_connect_timeout (uc_config u))) | None \<Rightarrow> n4)"
  have le: "d \<le> n4" "n3 \<le> n2"
    by (simp_all add: d_def n3_def deadline_note_le split: option.split)
  have "n4 \<le> n3" using order.trans [OF dns_channel_deadline_le dns_channel_deadline_le]
    by (simp add: n4_def DNS_CHANNELS_PER_WORKER_def eval_nat_numeral)
  note le = le this
  have d: "udp_next_deadline (uc_config u) now w = Some d"
    unfolding d_def n4_def n3_def by (simp add: udp_next_deadline_def Let_def n1(1) n2(1))
  have le2: "d \<le> n1" "d \<le> ud_release_retry_due_ms ?s"
    using le n2(2) deadline_note_le [of n1 "ud_release_retry_due_ms ?s"] by order+
  have idle_run: "run_timers u times (w, m) = Some (w, m)" if t: "\<And>k. now \<le> times k" "\<And>k. times k < d" for times m
  proof -
    have b: "bpf2socks_udp_binding_expire_idle (times 0) ?s = Some ?s"
      using n2(3) [OF t(1) order.strict_trans2 [OF t(2)]] le by (simp add: bpf2socks_udp_binding_expire_idle_def)
    have h: "bpf2socks_udp_session_expire_handshakes (rc_connect_timeout (uc_config u)) (times 1) ?s = Some ?s"
    proof (cases "lk_head (ud_handshakes ?s)")
      case (Some i)
      then have "d \<le> us_handshake_started_ms (ud_sessions ?s i) + ucast (rc_connect_timeout (uc_config u))" by (simp add: d_def deadline_note_le)
      then have "times 1 - us_handshake_started_ms (ud_sessions ?s i) < ucast (rc_connect_timeout (uc_config u))"
        using not_due_before_deadline [OF _ t _ assms(4) timeout_small] assms(3) unfolding stamps_past_def by blast
      with Some show ?thesis by (subst bpf2socks_udp_session_expire_handshakes.simps) (auto dest: leD)
    next
      case None
      then show ?thesis by (subst bpf2socks_udp_session_expire_handshakes.simps) simp
    qed
    have i: "bpf2socks_udp_session_expire_idle (times 2) ?s = Some ?s"
      using n1(2) [OF t(1) order.strict_trans2 [OF t(2) le2(1)]] by (simp add: bpf2socks_udp_session_expire_idle_def)
    have r: "bpf2socks_udp_release_retry (uc_ops u) (listen_port u) (uc_query u) (times 3) (?s, m) = Some (?s, m)"
      using order.strict_trans2 [OF t(2) le2(2)] by (simp add: bpf2socks_udp_release_retry_def)
    have x: "bpf2socks_udp_dns_expire_transactions c (ucast (rc_dns_transaction_timeout (uc_config u))) (times 4) w = w" for c
      using dns_transactions_wait [OF order.trans [OF le(1,3), unfolded n3_def] assms(4,3) t] .
    have y: "bpf2socks_udp_dns_expire_handshakes c (times 5) w = w" for c
      using dns_handshakes_wait [OF le(1) [unfolded n4_def] assms(4,3) t] .
    show ?thesis by (simp add: run_timers_def b h [unfolded One_nat_def] i r x y)
  qed
  have "uint t + udp_wait_timeout u t (on_udp (\<lambda>s. s\<lparr>ud_next_deadline_ms := d\<rparr>) w) \<le> uint d" if "d \<noteq> NO_DEADLINE" "t \<noteq> 0" "t < d" for t
    using udp_wait_ends [OF that] by (simp add: udp_wait_timeout_def on_udp_def)
  with d idle_run show ?thesis by blast
qed


definition sample_worker :: udp_worker where
  "sample_worker = \<lparr>wk_udp = sample_udp, wk_dns_channels = initial_dns_channel,
     wk_dns_table = \<lparr>dt_transactions = (\<lambda>_. zero_transaction), dt_lookup = (\<lambda>_. -1), dt_next_ids = (\<lambda>_. 0),
       dt_response_generations = (\<lambda>_. 0), dt_free_indices = (\<lambda>i. 7 - i), dt_free_count = 8, dt_capacity = 8, dt_channel_count = 2,
       dt_lru_head = None, dt_lru_tail = None\<rparr>,
     wk_dns_raw4_fd = -1, wk_dns_raw6_fd = -1, wk_next_dns_channel = 0, wk_id = 0, wk_epoll_fd = 3, wk_budget_wake_fd = 4,
     wk_destroy_events_fd = 5\<rparr>"



definition sample_udp_config :: bpf2socks_runtime_config where
  "sample_udp_config = \<lparr>rc_socks_host = ''h'', rc_socks_port = 1080, rc_listen_host = ''l'', rc_listen_port = 7, rc_pinned_object_dir = ''p'',
     rc_cgroup_path = ''c'', rc_enable_ipv6 = True, rc_enable_dns_hijack = True, rc_debug_stats = False,
     rc_token_ipv4_prefix = [127, 66, 0, 0], rc_token_ipv4_prefix_bits = 16, rc_token_ipv6_prefix = zero_bytes 16,
     rc_token_ipv6_prefix_bits = 64, rc_worker_count = 1, rc_tcp_buffer_size = 0, rc_max_tcp_sessions = 10, rc_connect_timeout = 800,
     rc_tcp_idle_timeout = 0, rc_udp_socket_buffer_size = 0, rc_udp_batch_size = 8, rc_max_udp_sessions = 2, rc_max_udp_bindings = 2,
     rc_udp_idle_timeout = 1000, rc_max_udp_pending_bytes = 1000000, rc_dns_transaction_timeout = 5000, rc_token_map_fd = 3,
     rc_reuseport_tcp4_map_fd = -1, rc_reuseport_udp4_map_fd = -1, rc_reuseport_tcp6_map_fd = -1, rc_reuseport_udp6_map_fd = -1,
     rc_reuseport_prog_fd = -1\<rparr>"

definition sample_udp_setup :: "unit udp_setup" where
  "sample_udp_setup = \<lparr>uc_config = sample_udp_config, uc_socks = sample_client 1080, uc_resolve = (\<lambda>_ _. None),
     uc_ops = \<lparr>to_lookup = (\<lambda>_ _. None), to_lookup_and_delete = (\<lambda>m _. (Inl ENOENT, m)), to_delete = (\<lambda>m _. (False, m))\<rparr>,
     uc_update = (\<lambda>m _ _. m), uc_query = (\<lambda>_. 1), uc_udp4_listener_fd = 6, uc_udp6_listener_fd = 7\<rparr>"

theorem udp_sleep_misses_no_timer_witness:
  "udp_next_deadline sample_udp_config 500 sample_worker = Some 900 \<and>
   run_timers sample_udp_setup (\<lambda>_. 899) (sample_worker, ()) = Some (sample_worker, ())"
proof -
  have tables: "session_tables {} (wk_udp sample_worker) [0, 1] [0]" using sample_udp_tables by (simp add: sample_worker_def)
  have bindings: "dll (ud_binding_lru (wk_udp sample_worker)) []" by (simp add: sample_worker_def sample_udp_def dll_def last_or_def)
  have past: "stamps_past 500 sample_worker"
    by (simp add: stamps_past_def sample_worker_def sample_udp_def sample_sessions_def blank_session_def blank_binding_def
        initial_dns_channel_def zero_transaction_def)
  have idle: "ud_idle_timeout_ms (wk_udp sample_worker) = ucast (rc_udp_idle_timeout (uc_config sample_udp_setup))"
    by (simp add: sample_worker_def sample_udp_def sample_udp_setup_def sample_udp_config_def)
  have two: "[0..<DNS_CHANNELS_PER_WORKER] = [0, 1]" by (simp add: DNS_CHANNELS_PER_WORKER_def eval_nat_numeral)
  have d: "udp_next_deadline (uc_config sample_udp_setup) 500 sample_worker = Some 900"
    unfolding udp_next_deadline_def two
    by (simp add: sample_worker_def sample_udp_def sample_sessions_def blank_session_def sample_udp_setup_def sample_udp_config_def
        session_deadline_walk.simps [of _ "Some 0"] binding_deadline_walk.simps [of _ None] bpf2socks_dns_table_oldest_def
        dns_channel_deadline_def initial_dns_channel_def bpf2socks_deadline_note_def NO_DEADLINE_def)
  show ?thesis using udp_sleep_misses_no_timer [OF tables bindings past _ idle] d by (auto simp: sample_udp_setup_def)
qed

end
