(* ===== verification/Udp_Dns_Correct.thy ===== *)
theory Udp_Dns_Correct
  imports Udp_Loop_Correct Dns_Table_Correct "HOL-Library.Multiset"
begin

text \<open>
  The fast path of DNS as a whole: a query that goes out on a shared channel comes back to the client
  that sent it, and over any run of a worker every reply that reaches a client answers a query of its
  own, which no other reply answers.
\<close>

section \<open>Who asked\<close>

text \<open>What a transaction remembers of its query: client, destination, identifier and question.\<close>

type_synonym asked = "sockaddr_storage \<times> bpf2socks_sockaddr \<times> u16 \<times> u32"

definition who :: "bpf2socks_dns_transaction \<Rightarrow> asked" where
  "who tx = (tx_client_addr tx, tx_original_dst tx, tx_original_id tx, tx_question_fingerprint tx)"

definition outstanding :: "bpf2socks_dns_table \<Rightarrow> nat list \<Rightarrow> asked multiset" where
  "outstanding t xs = image_mset (\<lambda>i. who (dt_transactions t i)) (mset xs)"

lemma outstanding_simps [simp]: "outstanding t [] = {#}" "outstanding t (xs @ ys) = outstanding t xs + outstanding t ys"
  "outstanding t [i] = {#who (dt_transactions t i)#}"
  by (simp_all add: outstanding_def)

lemma outstanding_cong:
  assumes "\<And>j. j \<in> set xs \<Longrightarrow> who (dt_transactions t' j) = who (dt_transactions t j)"
  shows "outstanding t' xs = outstanding t xs"
  unfolding outstanding_def by (rule image_mset_cong) (simp add: assms)

lemma outstanding_mono: "mset xs \<subseteq># mset ys \<Longrightarrow> outstanding t xs \<subseteq># outstanding t ys"
  unfolding outstanding_def by (rule image_mset_subseteq_mono)

lemma same_links_who:
  assumes "same_but_links t t'"
  shows "who (dt_transactions t' i) = who (dt_transactions t i)"
proof -
  have "(dt_transactions t' i)\<lparr>tx_lru_prev := None, tx_lru_next := None\<rparr> = (dt_transactions t i)\<lparr>tx_lru_prev := None, tx_lru_next := None\<rparr>"
    using assms by (simp add: same_but_links_def)
  from arg_cong [OF this, of who] show ?thesis by (simp add: who_def)
qed

lemma release_who: "j \<noteq> i \<Longrightarrow> who (dt_transactions (release_index t i r) j) = who (dt_transactions t j)"
  using same_links_who [OF same_but_links_detach]
  by (auto simp: release_index_def Let_def push_free_def)

section \<open>Tables that lose transactions\<close>

text \<open>\<open>fewer t t'\<close>: the operation between the two tables keeps the invariant and adds no transaction.\<close>

definition fewer :: "bpf2socks_dns_table \<Rightarrow> bpf2socks_dns_table \<Rightarrow> bool" where
  "fewer t t' \<longleftrightarrow> sizes t' = sizes t \<and>
    (\<forall>xs. dns_rep t xs \<longrightarrow>
      (\<exists>xs'. dns_rep t' xs' \<and> set xs' \<subseteq> set xs \<and> (\<forall>j \<in> set xs'. who (dt_transactions t' j) = who (dt_transactions t j))))"

lemma fewerE:
  assumes "fewer t t'" "dns_rep t xs"
  obtains xs' where "dns_rep t' xs'" "set xs' \<subseteq> set xs" "\<And>j. j \<in> set xs' \<Longrightarrow> who (dt_transactions t' j) = who (dt_transactions t j)"
  using assms unfolding fewer_def by blast

lemma fewerI:
  assumes "sizes t' = sizes t"
    "\<And>xs. dns_rep t xs \<Longrightarrow> \<exists>xs'. dns_rep t' xs' \<and> set xs' \<subseteq> set xs \<and> (\<forall>j \<in> set xs'. who (dt_transactions t' j) = who (dt_transactions t j))"
  shows "fewer t t'"
  using assms unfolding fewer_def by blast

lemma fewer_refl [simp]: "fewer t t"
  unfolding fewer_def by auto

lemma fewer_trans [trans]:
  assumes "fewer t u" "fewer u v"
  shows "fewer t v"
proof (rule fewerI)
  show "sizes v = sizes t" using assms by (simp add: fewer_def)
  fix xs assume "dns_rep t xs"
  then obtain ys where ys: "dns_rep u ys" "set ys \<subseteq> set xs" "\<And>j. j \<in> set ys \<Longrightarrow> who (dt_transactions u j) = who (dt_transactions t j)"
    using fewerE [OF assms(1)] by metis
  from fewerE [OF assms(2) ys(1)] obtain zs where "dns_rep v zs" "set zs \<subseteq> set ys"
      "\<And>j. j \<in> set zs \<Longrightarrow> who (dt_transactions v j) = who (dt_transactions u j)" by metis
  then show "\<exists>zs. dns_rep v zs \<and> set zs \<subseteq> set xs \<and> (\<forall>j \<in> set zs. who (dt_transactions v j) = who (dt_transactions t j))"
    using ys by (metis subsetD subset_trans)
qed

lemma fewer_fold: "(\<And>x t. x \<in> set xs \<Longrightarrow> fewer t (f x t)) \<Longrightarrow> fewer t (fold f xs t)"
  by (induction xs arbitrary: t) (auto intro: fewer_trans)

lemma fewer_release [simp]: "fewer t (bpf2socks_dns_table_release t i)"
proof (rule fewerI)
  show "sizes (bpf2socks_dns_table_release t i) = sizes t" by (simp add: bpf2socks_dns_table_release_def)
  fix xs assume rep: "dns_rep t xs"
  have "set (remove1 i xs) \<subseteq> set xs \<and> (\<forall>j \<in> set (remove1 i xs). who (dt_transactions (bpf2socks_dns_table_release t i) j) = who (dt_transactions t j))"
    using dns_rep_distinct [OF rep] by (auto simp: bpf2socks_dns_table_release_def release_who)
  then show "\<exists>xs'. dns_rep (bpf2socks_dns_table_release t i) xs' \<and> set xs' \<subseteq> set xs \<and>
      (\<forall>j \<in> set xs'. who (dt_transactions (bpf2socks_dns_table_release t i) j) = who (dt_transactions t j))"
    using release_rep [OF rep, of i] by blast
qed

lemma note_response_transactions [simp]: "dt_transactions (bpf2socks_dns_table_note_response t c) = dt_transactions t"
  by (simp add: bpf2socks_dns_table_note_response_def)

lemma fewer_note_response [simp]: "fewer t (bpf2socks_dns_table_note_response t c)"
proof (rule fewerI)
  show "sizes (bpf2socks_dns_table_note_response t c) = sizes t" by (simp add: bpf2socks_dns_table_note_response_def)
qed (auto intro: note_response_rep)

lemma fewer_expire_loop: "expire_loop n t now tmo sc st = (k, t', st') \<Longrightarrow> fewer t t'"
proof (induction n arbitrary: t st k)
  case (Suc n)
  show ?case
  proof (cases "dt_lru_head t")
    case None
    with Suc.prems show ?thesis by simp
  next
    case (Some i)
    show ?thesis
    proof (cases "expired_tx (dt_transactions t i) now tmo")
      case False
      with Suc.prems Some show ?thesis by (simp add: Let_def)
    next
      case True
      with Suc.prems Some obtain st2 k2 where "expire_loop n (release_index t i True) now tmo sc st2 = (k2, t', st')"
        by (auto simp: Let_def split: prod.splits)
      from Suc.IH [OF this] have "fewer (release_index t i True) t'" .
      moreover have "fewer t (release_index t i True)"
        using fewer_release [of t i] by (cases "i < dt_capacity t") (auto simp: bpf2socks_dns_table_release_def release_index_def)
      ultimately show ?thesis by (rule fewer_trans [rotated])
    qed
  qed
qed simp

text \<open>An allocation adds the new transaction, which has no client yet, and otherwise only loses one.\<close>

lemma take_slot_who: "take_slot t = Some (slot, t1) \<Longrightarrow> j \<noteq> slot \<Longrightarrow> who (dt_transactions t1 j) = who (dt_transactions t j)"
  by (auto simp: take_slot_def release_who split: if_splits option.splits)

lemma keep_sub: "set (keep_on_alloc t xs) \<subseteq> set xs"
  by (cases xs) (auto simp: keep_on_alloc_def)

lemma try_channels_transactions: "try_channels t pref n a = Some (c, i, t') \<Longrightarrow> dt_transactions t' = dt_transactions t"
  by (induction n arbitrary: a) (auto simp: Let_def allocate_id_def split: option.splits prod.splits)

lemma alloc_who:
  assumes "bpf2socks_dns_table_alloc t pref oid fp now = (Inr slot, t')"
  shows "tx_original_id (dt_transactions t' slot) = oid" "tx_question_fingerprint (dt_transactions t' slot) = fp"
    "j \<noteq> slot \<Longrightarrow> who (dt_transactions t' j) = who (dt_transactions t j)"
proof -
  obtain t1 where ts: "take_slot t = Some (slot, t1)"
    using assms by (auto simp: bpf2socks_dns_table_alloc_def Let_def split: if_splits option.splits)
  then obtain c i t2 where tc: "try_channels t1 pref (unat (dt_channel_count t1)) 0 = Some (c, i, t2)"
    using assms by (auto simp: bpf2socks_dns_table_alloc_def Let_def split: if_splits option.splits)
  define u where "u = t2\<lparr>dt_transactions := (dt_transactions t2)(slot := zero_transaction\<lparr>tx_used := True, tx_channel_index := c,
      tx_rewritten_id := i, tx_original_id := oid, tx_question_fingerprint := fp, tx_sent_at_ms := now,
      tx_response_generation := dt_response_generations t2 c\<rparr>), dt_lookup := (dt_lookup t2)(lookup_offset c i := int32_of slot)\<rparr>"
  have t': "t' = lru_attach_tail u slot"
    using assms ts tc by (auto simp: bpf2socks_dns_table_alloc_def Let_def u_def split: if_splits)
  note same = same_links_who [OF same_but_links_attach [of u slot]]
  have s: "who (dt_transactions t' slot) = who (dt_transactions u slot)" unfolding t' by (rule same)
  then show "tx_original_id (dt_transactions t' slot) = oid" "tx_question_fingerprint (dt_transactions t' slot) = fp"
    by (simp_all add: who_def u_def)
  assume "j \<noteq> slot"
  then show "who (dt_transactions t' j) = who (dt_transactions t j)"
    using same [of j] take_slot_who [OF ts, of j] try_channels_transactions [OF tc] by (simp add: t' u_def)
qed

lemma fewer_alloc_failed:
  assumes "bpf2socks_dns_table_alloc t pref oid fp now = (Inl e, t')" "0 < dt_capacity t"
  shows "fewer t t'"
proof (cases "pref < dt_channel_count t")
  case True
  show ?thesis
  proof (rule fewerI)
    show "sizes t' = sizes t" using sizes_alloc [OF assms(1)] .
    fix xs assume rep: "dns_rep t xs"
    have r: "dns_rep t' (keep_on_alloc t xs)" using alloc_rep [OF rep assms(2) True assms(1)] by auto
    obtain slot t1 where ts: "take_slot t = Some (slot, t1)" and res: "dns_reserved t1 (keep_on_alloc t xs) slot"
      using take_slot_reserved [OF rep assms(2)] by blast
    have "t' = push_free t1 slot"
      using assms(1) ts True by (auto simp: bpf2socks_dns_table_alloc_def Let_def split: option.splits if_splits)
    moreover have "j \<noteq> slot" if "j \<in> set (keep_on_alloc t xs)" for j using that res by (auto simp: dns_reserved_def)
    ultimately have "\<forall>j \<in> set (keep_on_alloc t xs). who (dt_transactions t' j) = who (dt_transactions t j)"
      using take_slot_who [OF ts] by (simp add: push_free_def)
    then show "\<exists>xs'. dns_rep t' xs' \<and> set xs' \<subseteq> set xs \<and> (\<forall>j \<in> set xs'. who (dt_transactions t' j) = who (dt_transactions t j))"
      using r keep_sub [of t xs] by blast
  qed
next
  case False
  then show ?thesis using assms(1) by (simp add: bpf2socks_dns_table_alloc_def not_less)
qed

text \<open>An allocation that is taken back, after other transactions may have gone.\<close>

lemma fewer_alloc_undone:
  assumes al: "bpf2socks_dns_table_alloc t pref oid fp now = (Inr slot, t1)" and cap: "0 < dt_capacity t"
    and f: "fewer t1 t2"
  shows "fewer t (bpf2socks_dns_table_release t2 slot)"
proof (rule fewerI)
  show "sizes (bpf2socks_dns_table_release t2 slot) = sizes t"
    using sizes_alloc [OF al] f by (simp add: fewer_def bpf2socks_dns_table_release_def)
  fix xs assume rep: "dns_rep t xs"
  have "pref < dt_channel_count t" using al by (auto simp: bpf2socks_dns_table_alloc_def split: if_splits)
  then have r1: "dns_rep t1 (keep_on_alloc t xs @ [slot])" using alloc_rep [OF rep cap _ al] by auto
  from fewerE [OF f r1] obtain ys where ys: "dns_rep t2 ys" "set ys \<subseteq> set (keep_on_alloc t xs @ [slot])"
    "\<And>j. j \<in> set ys \<Longrightarrow> who (dt_transactions t2 j) = who (dt_transactions t1 j)" by metis
  have "j \<in> set xs \<and> who (dt_transactions (bpf2socks_dns_table_release t2 slot) j) = who (dt_transactions t j)"
    if "j \<in> set (remove1 slot ys)" for j
  proof -
    have j: "j \<noteq> slot" "j \<in> set ys" using that dns_rep_distinct [OF ys(1)] by auto
    then show ?thesis using ys(2,3) alloc_who(3) [OF al, of j] keep_sub [of t xs]
      by (auto simp: bpf2socks_dns_table_release_def release_who)
  qed
  then show "\<exists>xs'. dns_rep (bpf2socks_dns_table_release t2 slot) xs' \<and> set xs' \<subseteq> set xs \<and>
      (\<forall>j \<in> set xs'. who (dt_transactions (bpf2socks_dns_table_release t2 slot) j) = who (dt_transactions t j))"
    using release_rep [OF ys(1), of slot] by blast
qed

section \<open>The operations of a worker on its table\<close>

lemma table_upd [simp]:
  "wk_dns_table (upd_dns i f w) = wk_dns_table w" "wk_dns_table (on_udp g w) = wk_dns_table w"
  "wk_dns_table (on_table h w) = h (wk_dns_table w)"
  by (simp_all add: upd_dns_def on_udp_def on_table_def)

lemma table_wait [simp]: "wk_dns_table (snd (dns_wait_for ctl events i w)) = wk_dns_table w"
  by (simp add: dns_wait_for_def split: prod.split)

lemma table_reset [simp]: "wk_dns_table (reset_dns_channel_fds i w) = wk_dns_table w"
  by (simp add: reset_dns_channel_fds_def Let_def)

lemma fewer_close [simp]: "fewer (wk_dns_table w) (wk_dns_table (bpf2socks_udp_dns_close_channel clock now i w))"
  by (simp add: bpf2socks_udp_dns_close_channel_def Let_def release_dns_channel_transactions_def) (rule fewer_fold, simp)

lemma table_open [simp]: "wk_dns_table (snd (open_dns_channel env now i w)) = wk_dns_table w"
  by (simp add: open_dns_channel_def Let_def split: sum.split prod.split option.split)

text \<open>A channel that has to be opened is not ready at once, so a ready channel has lost no transaction.\<close>

lemma open_ready: "fst (open_dns_channel env now i w) \<Longrightarrow> dc_available (wk_dns_channels w i) \<and> dc_udp_fd (wk_dns_channels w i) \<ge> 0"
  by (auto simp: open_dns_channel_def Let_def split: sum.splits prod.splits option.splits if_splits)

lemma close_not_available: "\<not> dc_available (wk_dns_channels (bpf2socks_udp_dns_close_channel clock now i w) i)"
  by (simp add: bpf2socks_udp_dns_close_channel_def reset_dns_channel_fds_def reset_channel_def upd_dns_def Let_def)

lemma ensure_table:
  "fewer (wk_dns_table w) (wk_dns_table (snd (ensure_dns_channel env now i w)))"
  "fst (ensure_dns_channel env now i w) \<Longrightarrow> wk_dns_table (snd (ensure_dns_channel env now i w)) = wk_dns_table w"
  using open_ready [of env now i w] open_ready [of env now i "bpf2socks_udp_dns_close_channel (da_clock env) now i w"]
    close_not_available [of "da_clock env" now i w]
  by (auto simp: ensure_dns_channel_def Let_def split: if_splits)

lemma ensure_cases:
  assumes "ensure_dns_channel env now i w = (ok, w')"
  shows "fewer (wk_dns_table w) (wk_dns_table w')" "ok \<Longrightarrow> wk_dns_table w' = wk_dns_table w"
  using ensure_table(1) [of w env now i] ensure_table(2) [of env now i w] by (simp_all add: assms)

lemma fewer_select: "select_loop envs now is w = (r, w') \<Longrightarrow> fewer (wk_dns_table w) (wk_dns_table w')"
proof (induction "is" arbitrary: w)
  case (Cons i "is")
  obtain ok w1 where e: "ensure_dns_channel (envs i) now i w = (ok, w1)" by (cases "ensure_dns_channel (envs i) now i w") auto
  show ?case
  proof (cases ok)
    case True
    then show ?thesis using Cons.prems e ensure_cases(1) [OF e] by auto
  next
    case False
    then have "fewer (wk_dns_table w1) (wk_dns_table w')" using Cons.IH Cons.prems e by simp
    with ensure_cases(1) [OF e] show ?thesis by (rule fewer_trans)
  qed
qed simp

lemma fewer_fold_worker:
  "(\<And>x w. fewer (wk_dns_table w) (wk_dns_table (f x w))) \<Longrightarrow> fewer (wk_dns_table w) (wk_dns_table (fold f xs w))"
  by (induction xs arbitrary: w) (auto intro: fewer_trans)

lemma fewer_releases: "fewer (wk_dns_table w) (wk_dns_table (fold (\<lambda>slot w. on_table (\<lambda>t. bpf2socks_dns_table_release t slot) w) txs w))"
  by (rule fewer_fold_worker) simp

lemma fewer_flush_group: "fewer (wk_dns_table w) (wk_dns_table (flush_dns_group env i qs w))"
proof -
  have *: "wk_dns_table v = wk_dns_table w \<Longrightarrow> fewer (wk_dns_table w) (wk_dns_table (fold (\<lambda>slot w. on_table (\<lambda>t. bpf2socks_dns_table_release t slot) w) txs v))"
    "wk_dns_table v = wk_dns_table w \<Longrightarrow> fewer (wk_dns_table w) (wk_dns_table (bpf2socks_udp_dns_close_channel c now i v))" for v txs c now
    using fewer_releases [of v txs] fewer_close [of v c now i] by simp_all
  show ?thesis unfolding flush_dns_group_def Let_def by (auto intro!: *)
qed

lemma fewer_flush: "fewer (wk_dns_table w) (wk_dns_table (bpf2socks_udp_dns_flush_outgoing envs qs w))"
proof (induction envs qs w rule: bpf2socks_udp_dns_flush_outgoing.induct)
  case (2 envs slot j m rest w)
  show ?case
  proof (cases "DNS_CHANNELS_PER_WORKER \<le> unat j")
    case True
    then show ?thesis using fewer_trans [OF fewer_release "2.IH"(1) [OF True, simplified]] by simp
  next
    case False
    then show ?thesis using fewer_trans [OF fewer_flush_group "2.IH"(2) [OF False]] by simp
  qed
qed simp

lemma fewer_expire_transactions: "fewer (wk_dns_table w) (wk_dns_table (bpf2socks_udp_dns_expire_transactions clock tmo now w))"
proof -
  obtain k t st where e: "bpf2socks_dns_table_expire (wk_dns_table w) now tmo DNS_MAX_EXPIRE_PER_LOOP (of_nat DNS_CHANNELS_PER_WORKER) (\<lambda>_. False) = (k, t, st)"
    by (cases "bpf2socks_dns_table_expire (wk_dns_table w) now tmo DNS_MAX_EXPIRE_PER_LOOP (of_nat DNS_CHANNELS_PER_WORKER) (\<lambda>_. False)") auto
  have 1: "fewer (wk_dns_table w) t" using e unfolding bpf2socks_dns_table_expire_def by (rule fewer_expire_loop)
  have 2: "fewer (wk_dns_table v) (wk_dns_table (if st (of_nat i)
      then bpf2socks_udp_dns_close_channel clock now i (on_udp (upd_counters f) v) else v))" for i f v
    using fewer_close [of "on_udp (upd_counters f) v"] by simp
  show ?thesis unfolding bpf2socks_udp_dns_expire_transactions_def e Let_def prod.case
    by (rule fewer_trans [OF 1]) (rule fewer_trans [OF _ fewer_fold_worker [OF 2]], simp)
qed

lemma fewer_expire_handshakes: "fewer (wk_dns_table w) (wk_dns_table (bpf2socks_udp_dns_expire_handshakes clock now w))"
  unfolding bpf2socks_udp_dns_expire_handshakes_def by (rule fewer_fold_worker) (simp add: Let_def)

lemma table_waitD: "dns_wait_for ctl events i w = (r, w') \<Longrightarrow> wk_dns_table w' = wk_dns_table w"
  using table_wait [of ctl events i w] by simp

lemma table_open_relay: "dns_open_relay env i w = (r, w') \<Longrightarrow> wk_dns_table w' = wk_dns_table w"
  by (auto simp: dns_open_relay_def Let_def split: sum.splits prod.splits option.splits bool.splits dest!: table_waitD)

lemma table_write_stage: "dns_write_stage env st now i w = Some (r, w') \<Longrightarrow> wk_dns_table w' = wk_dns_table w"
  by (auto simp: dns_write_stage_def split: option.splits prod.splits progress.splits dest!: table_waitD)

lemma table_finish: "finish_dns_channel_connect env now i w = Some (r, w') \<Longrightarrow> wk_dns_table w' = wk_dns_table w"
  by (auto simp: finish_dns_channel_connect_def Let_def split: if_splits dest!: table_write_stage)

lemma table_hello: "dns_hello_read env now i w = Some (r, w') \<Longrightarrow> wk_dns_table w' = wk_dns_table w"
  by (auto simp: dns_hello_read_def Let_def split: option.splits prod.splits progress.splits if_splits dest!: table_waitD)

lemma table_assoc: "dns_assoc_read resolve socks env i w = Some (r, w') \<Longrightarrow> wk_dns_table w' = wk_dns_table w"
  by (auto simp: dns_assoc_read_def Let_def split: option.splits prod.splits progress.splits if_splits bool.splits dest!: table_open_relay)

lemma table_advance: "advance_dns_channel resolve socks env events now i w = Some (r, w') \<Longrightarrow> wk_dns_table w' = wk_dns_table w"
  by (auto simp: advance_dns_channel_def Let_def split: bpf2socks_udp_dns_stage.splits if_splits
      dest!: table_finish table_write_stage table_hello table_assoc)

lemma fewer_control:
  assumes "bpf2socks_udp_dns_control_event resolve socks env events now i w = Some w'"
  shows "fewer (wk_dns_table w) (wk_dns_table w')"
proof -
  have "fewer (wk_dns_table w) (wk_dns_table (bpf2socks_udp_dns_close_channel c n i w1))" if "wk_dns_table w1 = wk_dns_table w" for c n w1
    using fewer_close [of w1 c n i] that by simp
  then show ?thesis using assms
    by (auto simp: bpf2socks_udp_dns_control_event_def Let_def split: if_splits dest!: table_advance)
qed


section \<open>A query\<close>

text \<open>The addressee of a transaction does not matter for the invariant of the table.\<close>

lemma fill_rep [simp]: "dns_rep (set_transaction slot (fill_transaction p) t) xs = dns_rep t xs"
proof -
  have "dns_links (set_transaction slot (fill_transaction p) t) = dns_links t"
    by (auto simp: dns_links_def set_transaction_def fill_transaction_def fun_eq_iff)
  then show ?thesis
    by (simp add: dns_rep_def used_ok_def free_ok_def lookup_ok_def tx_offset_def) (auto simp: set_transaction_def fill_transaction_def)
qed


lemma prepare_cases:
  assumes "bpf2socks_udp_dns_prepare_query envs env2 now p info w = (r, w')"
  obtains (failed) "r = None" "0 < dt_capacity (wk_dns_table w) \<Longrightarrow> fewer (wk_dns_table w) (wk_dns_table w')"
  | (sent) t c slot t1 where "fewer (wk_dns_table w) t"
      "bpf2socks_dns_table_alloc t c (di_id info) (di_question_fingerprint info) now = (Inr slot, t1)"
      "wk_dns_table w' = set_transaction slot (fill_transaction p) t1"
      "r = Some (slot, tx_channel_index (dt_transactions t1 slot),
         \<lparr>um_addr = cp_original_dst p, um_payload = bpf2socks_dns_set_id (cp_payload p) (tx_rewritten_id (dt_transactions t1 slot))\<rparr>)"
proof -
  obtain s w1 where sel: "select_dns_channel envs now w = (s, w1)" by (cases "select_dns_channel envs now w") auto
  have 1: "fewer (wk_dns_table w) (wk_dns_table w1)" using sel unfolding select_dns_channel_def by (rule fewer_select)
  show thesis
  proof (cases s)
    case None
    then show thesis using assms sel 1 by (intro failed) (auto simp: bpf2socks_udp_dns_prepare_query_def)
  next
    case (Some i)
    let ?c = "dc_index (wk_dns_channels w1 i)"
    obtain a t1 where al: "bpf2socks_dns_table_alloc (wk_dns_table w1) ?c (di_id info) (di_question_fingerprint info) now = (a, t1)"
      by (cases "bpf2socks_dns_table_alloc (wk_dns_table w1) ?c (di_id info) (di_question_fingerprint info) now") auto
    show thesis
    proof (cases a)
      case (Inl e)
      have "fewer (wk_dns_table w) t1" if "0 < dt_capacity (wk_dns_table w)"
        using fewer_trans [OF 1 fewer_alloc_failed [OF al [unfolded Inl]]] 1 that by (simp add: fewer_def sizes_def)
      then show thesis using assms sel Some al Inl by (intro failed) (auto simp: bpf2socks_udp_dns_prepare_query_def)
    next
      case (Inr slot)
      define w2 where "w2 = on_udp (upd_counters (\<lambda>n. if dt_free_count (wk_dns_table w1) > 0
                      then n\<lparr>st_dns_free_stack_allocations := st_dns_free_stack_allocations n + 1\<rparr>
                      else n\<lparr>st_dns_full_table_evictions := st_dns_full_table_evictions n + 1\<rparr>)) (w1\<lparr>wk_dns_table := t1\<rparr>)"
      have t2: "wk_dns_table w2 = t1" by (simp add: w2_def)
      obtain ok w3 where en: "ensure_dns_channel env2 now (unat (tx_channel_index (dt_transactions t1 slot))) w2 = (ok, w3)"
        by (cases "ensure_dns_channel env2 now (unat (tx_channel_index (dt_transactions t1 slot))) w2") auto
      have res: "(r, w') = (if \<not> ok then (None, on_table (\<lambda>t. bpf2socks_dns_table_release t slot) w3)
          else let w4 = on_table (set_transaction slot (fill_transaction p)) w3; tx = dt_transactions (wk_dns_table w4) slot
               in (Some (slot, tx_channel_index tx,
                   \<lparr>um_addr = cp_original_dst p, um_payload = bpf2socks_dns_set_id (cp_payload p) (tx_rewritten_id tx)\<rparr>), w4))"
        using assms sel Some al Inr en by (simp add: bpf2socks_udp_dns_prepare_query_def Let_def w2_def [symmetric] split: bool.splits)
      show thesis
      proof (cases ok)
        case True
        then have "wk_dns_table w3 = t1" using ensure_cases(2) [OF en] t2 by simp
        then show thesis using res True by (intro sent [OF 1 al [unfolded Inr]]) (auto simp: Let_def set_transaction_def fill_transaction_def)
      next
        case False
        have "fewer (wk_dns_table w) (wk_dns_table w')" if "0 < dt_capacity (wk_dns_table w)"
        proof -
          have "0 < dt_capacity (wk_dns_table w1)" using 1 that by (simp add: fewer_def sizes_def)
          with fewer_alloc_undone [OF al [unfolded Inr]] ensure_cases(1) [OF en] t2 res False
          have "fewer (wk_dns_table w1) (wk_dns_table w')" by simp
          with 1 show ?thesis by (rule fewer_trans)
        qed
        then show thesis using res False by (intro failed) auto
      qed
    qed
  qed
qed


section \<open>A response\<close>

lemma table_raw_socket: "ensure_dns_raw_reply_socket env family w = (fd, w') \<Longrightarrow> wk_dns_table w' = wk_dns_table w"
  by (auto simp: ensure_dns_raw_reply_socket_def split: if_splits sum.splits)

lemma table_send_with_binding: "send_dns_response_with_binding env raw c d bs w = (r, w') \<Longrightarrow> wk_dns_table w' = wk_dns_table w"
  by (auto simp: send_dns_response_with_binding_def split: if_splits sum.splits)

lemma table_send: "send_dns_response_to_client env tx bs w = (r, w') \<Longrightarrow> wk_dns_table w' = wk_dns_table w"
  by (auto simp: send_dns_response_to_client_def Let_def split: if_splits prod.splits sum.splits
      dest!: table_raw_socket table_send_with_binding)

text \<open>\<open>answers q r\<close>: the reply \<open>r\<close> goes to the client of the query \<open>q\<close>, from the address it had asked, with its identifier.\<close>

fun answers :: "asked \<Rightarrow> sockaddr_storage \<times> bpf2socks_sockaddr \<times> bytes \<Rightarrow> bool" where
  "answers (client, dst, ident, fp) (client', dst', payload) \<longleftrightarrow> client' = client \<and> dst' = dst \<and>
    (\<exists>response info. payload = bpf2socks_dns_set_id response ident \<and> bpf2socks_dns_parse_response response = Inr info \<and>
      (di_has_question info \<longrightarrow> di_question_fingerprint info = fp))"

lemma handle_message_cases:
  assumes "handle_dns_message env i msg w = (r, w')" "dns_rep (wk_dns_table w) xs"
  obtains (nobody) "r = None" "fewer (wk_dns_table w) (wk_dns_table w')"
  | (reply) slot x where "r = Some x" "slot \<in> set xs" "answers (who (dt_transactions (wk_dns_table w) slot)) x"
      "wk_dns_table w' = bpf2socks_dns_table_release (bpf2socks_dns_table_note_response (wk_dns_table w) (dc_index (wk_dns_channels w i))) slot"
proof -
  let ?c = "dc_index (wk_dns_channels w i)" and ?t = "wk_dns_table w"
  have none: "r = None \<Longrightarrow> wk_dns_table w' = ?t \<Longrightarrow> thesis" by (rule nobody) simp_all
  show thesis
  proof (cases msg)
    case (Inl e)
    then show thesis using assms(1) by (intro none) (auto simp: handle_dns_message_def Let_def split: if_splits)
  next
    case (Inr m)
    show thesis
    proof (cases "bpf2socks_dns_parse_response (um_payload m)")
      case (Inl e)
      then show thesis using assms(1) Inr by (intro none) (auto simp: handle_dns_message_def Let_def)
    next
      case info: (Inr info)
      show thesis
      proof (cases "bpf2socks_dns_table_find ?t ?c (di_id info)")
        case None
        then show thesis using assms(1) Inr info by (intro none) (auto simp: handle_dns_message_def Let_def)
      next
        case (Some slot)
        let ?tx = "dt_transactions ?t slot"
        let ?payload = "bpf2socks_dns_set_id (um_payload m) (tx_original_id ?tx)"
        show thesis
        proof (cases "di_has_question info \<and> di_question_fingerprint info \<noteq> tx_question_fingerprint ?tx")
          case True
          then show thesis using assms(1) Inr info Some by (intro none) (auto simp: handle_dns_message_def Let_def)
        next
          case False
          define w1 where "w1 = on_udp (upd_counters (\<lambda>n. n\<lparr>st_dns_valid_responses := st_dns_valid_responses n + 1\<rparr>))
            (on_table (\<lambda>t. bpf2socks_dns_table_note_response t ?c)
              (on_udp (upd_counters (\<lambda>n. n\<lparr>st_udp_packets_from_upstream := st_udp_packets_from_upstream n + 1\<rparr>)) w))"
          obtain s w2 where send: "send_dns_response_to_client env ?tx ?payload w1 = (s, w2)"
            by (cases "send_dns_response_to_client env ?tx ?payload w1") auto
          have t2: "wk_dns_table w2 = bpf2socks_dns_table_note_response ?t ?c" using table_send [OF send] by (simp add: w1_def)
          have res: "(r, w') = (case s of
               Inl _ \<Rightarrow> (None, on_table (\<lambda>t. bpf2socks_dns_table_release t slot)
                 (on_udp (upd_counters (\<lambda>n. n\<lparr>st_udp_send_errors := st_udp_send_errors n + 1\<rparr>)) w2))
             | Inr _ \<Rightarrow> (Some (tx_client_addr ?tx, tx_original_dst ?tx, ?payload), on_table (\<lambda>t. bpf2socks_dns_table_release t slot) w2))"
            using assms(1) Inr info Some False send unfolding handle_dns_message_def w1_def by (auto simp: Let_def)
          show thesis
          proof (cases s)
            case (Inl e)
            then show thesis using res t2 by (intro nobody) (auto intro: fewer_trans [OF fewer_note_response fewer_release])
          next
            case (Inr u)
            have "slot \<in> set xs" using Some find_iff [OF assms(2)] by blast
            moreover have "answers (who ?tx) (tx_client_addr ?tx, tx_original_dst ?tx, ?payload)"
              using False info by (auto simp: who_def)
            ultimately show thesis using res t2 Inr by (intro reply [of _ slot]) auto
          qed
        qed
      qed
    qed
  qed
qed

lemma release_outstanding:
  assumes "dns_rep t xs" "slot \<in> set xs"
  shows "outstanding t xs = add_mset (who (dt_transactions t slot)) (outstanding (bpf2socks_dns_table_release (bpf2socks_dns_table_note_response t c) slot) (remove1 slot xs))"
proof -
  let ?t = "bpf2socks_dns_table_release (bpf2socks_dns_table_note_response t c) slot"
  have "outstanding ?t (remove1 slot xs) = outstanding t (remove1 slot xs)"
    using dns_rep_distinct [OF assms(1)] by (intro outstanding_cong) (auto simp: bpf2socks_dns_table_release_def release_who)
  moreover have "mset xs = add_mset slot (mset (remove1 slot xs))" using assms(2) by simp
  then have "outstanding t xs = add_mset (who (dt_transactions t slot)) (outstanding t (remove1 slot xs))"
    unfolding outstanding_def by (metis image_mset_add_mset)
  ultimately show ?thesis by simp
qed

section \<open>Runs\<close>

text \<open>
  The operations of a worker on its DNS state, with the queries that went out so far and the replies
  that clients got. Everything else a worker does leaves the table alone.
\<close>

inductive dns_run :: "udp_worker \<Rightarrow> asked list \<Rightarrow> (sockaddr_storage \<times> bpf2socks_sockaddr \<times> bytes) list \<Rightarrow> bool" where
  start: "init_state env config sh = Some w \<Longrightarrow> dns_run w [] []"
| query: "dns_run w qs rs \<Longrightarrow> bpf2socks_dns_parse_query (cp_payload p) = Inr info \<Longrightarrow>
    bpf2socks_udp_dns_prepare_query envs env2 now p info w = (Some sent, w') \<Longrightarrow>
    dns_run w' (qs @ [(cp_client_addr p, cp_original_dst p, di_id info, di_question_fingerprint info)]) rs"
| refused: "dns_run w qs rs \<Longrightarrow> bpf2socks_udp_dns_prepare_query envs env2 now p info w = (None, w') \<Longrightarrow> dns_run w' qs rs"
| flush: "dns_run w qs rs \<Longrightarrow> dns_run (bpf2socks_udp_dns_flush_outgoing fenvs out w) qs rs"
| response: "dns_run w qs rs \<Longrightarrow> bpf2socks_udp_dns_handle_upstream uenv i w = Some (new, w') \<Longrightarrow> dns_run w' qs (rs @ new)"
| control: "dns_run w qs rs \<Longrightarrow> bpf2socks_udp_dns_control_event resolve socks cenv events now i w = Some w' \<Longrightarrow> dns_run w' qs rs"
| close: "dns_run w qs rs \<Longrightarrow> dns_run (bpf2socks_udp_dns_close_channel clock now i w) qs rs"
| expire: "dns_run w qs rs \<Longrightarrow> dns_run (bpf2socks_udp_dns_expire_transactions clock timeout now w) qs rs"
| expire_handshakes: "dns_run w qs rs \<Longrightarrow> dns_run (bpf2socks_udp_dns_expire_handshakes clock now w) qs rs"
| other: "dns_run w qs rs \<Longrightarrow> wk_dns_table w' = wk_dns_table w \<Longrightarrow> dns_run w' qs rs"

definition accounted :: "bpf2socks_dns_table \<Rightarrow> asked list \<Rightarrow> (sockaddr_storage \<times> bpf2socks_sockaddr \<times> bytes) list \<Rightarrow> bool" where
  "accounted t qs rs \<longleftrightarrow> sizes t = (DNS_MAX_TRANSACTIONS_PER_WORKER, of_nat DNS_CHANNELS_PER_WORKER) \<and> (\<exists>xs M. dns_rep t xs \<and> outstanding t xs + image_mset fst M \<subseteq># mset qs \<and>
     image_mset snd M = mset rs \<and> (\<forall>(q, r) \<in> set_mset M. answers q r))"

lemma fewer_outstanding:
  assumes "fewer t t'" "dns_rep t xs"
  obtains xs' where "dns_rep t' xs'" "outstanding t' xs' \<subseteq># outstanding t xs"
proof -
  from fewerE [OF assms] obtain xs' where xs': "dns_rep t' xs'" "set xs' \<subseteq> set xs"
    "\<And>j. j \<in> set xs' \<Longrightarrow> who (dt_transactions t' j) = who (dt_transactions t j)" by metis
  have "mset xs' \<subseteq># mset xs" using xs'(2) dns_rep_distinct [OF xs'(1)] dns_rep_distinct [OF assms(2)]
    by (simp add: mset_set_set [symmetric] subset_imp_msubset_mset_set del: mset_set_set)
  then have "outstanding t xs' \<subseteq># outstanding t xs" by (rule outstanding_mono)
  then show ?thesis using that [OF xs'(1)] outstanding_cong [OF xs'(3)] by simp
qed

lemma accounted_capacity: "accounted t qs rs \<Longrightarrow> 0 < dt_capacity t"
  by (simp add: accounted_def sizes_def DNS_MAX_TRANSACTIONS_PER_WORKER_def)

lemma accounted_fewer:
  assumes "accounted t qs rs" "fewer t t'"
  shows "accounted t' qs rs"
proof -
  from assms(1) obtain xs M where a: "sizes t = (DNS_MAX_TRANSACTIONS_PER_WORKER, of_nat DNS_CHANNELS_PER_WORKER)" "dns_rep t xs"
    "outstanding t xs + image_mset fst M \<subseteq># mset qs"
    "image_mset snd M = mset rs" "\<forall>(q, r) \<in> set_mset M. answers q r" unfolding accounted_def by blast
  from fewer_outstanding [OF assms(2) a(2)] obtain xs' where "dns_rep t' xs'" "outstanding t' xs' \<subseteq># outstanding t xs" by blast
  moreover from this(2) have "outstanding t' xs' + image_mset fst M \<subseteq># mset qs"
    using a(3) subset_mset.add_right_mono subset_mset.order_trans by blast
  moreover have "sizes t' = sizes t" using assms(2) by (simp add: fewer_def)
  ultimately show ?thesis using a(1,4,5) unfolding accounted_def by metis
qed

lemma accounted_message:
  assumes "accounted (wk_dns_table w) qs rs" "handle_dns_message env i msg w = (r, w')"
  shows "accounted (wk_dns_table w') qs (rs @ (case r of None \<Rightarrow> [] | Some x \<Rightarrow> [x]))"
proof -
  from assms(1) obtain xs M where a: "sizes (wk_dns_table w) = (DNS_MAX_TRANSACTIONS_PER_WORKER, of_nat DNS_CHANNELS_PER_WORKER)" "dns_rep (wk_dns_table w) xs"
    "outstanding (wk_dns_table w) xs + image_mset fst M \<subseteq># mset qs" "image_mset snd M = mset rs"
    "\<forall>(q, r) \<in> set_mset M. answers q r" unfolding accounted_def by blast
  show ?thesis
  proof (rule handle_message_cases [OF assms(2) a(2)])
    assume "r = None" "fewer (wk_dns_table w) (wk_dns_table w')"
    then show ?thesis using accounted_fewer [OF assms(1)] by simp
  next
    fix slot x
    let ?q = "who (dt_transactions (wk_dns_table w) slot)"
    assume *: "r = Some x" "slot \<in> set xs" "answers ?q x"
      "wk_dns_table w' = bpf2socks_dns_table_release (bpf2socks_dns_table_note_response (wk_dns_table w) (dc_index (wk_dns_channels w i))) slot"
    have "dns_rep (wk_dns_table w') (remove1 slot xs)" using release_rep [OF note_response_rep [OF a(2)]] *(4) by simp
    moreover have "outstanding (wk_dns_table w') (remove1 slot xs) + image_mset fst (add_mset (?q, x) M) \<subseteq># mset qs"
      using a(3) unfolding *(4) release_outstanding [OF a(2) *(2), of "dc_index (wk_dns_channels w i)"] by simp
    moreover have "sizes (wk_dns_table w') = sizes (wk_dns_table w)"
      using fewer_trans [OF fewer_note_response fewer_release] *(4) by (simp add: fewer_def)
    moreover have "image_mset snd (add_mset (?q, x) M) = mset (rs @ [x])" using a(4) by simp
    moreover have "\<forall>(q, r) \<in> set_mset (add_mset (?q, x) M). answers q r" using a(5) *(3) by auto
    ultimately show ?thesis using *(1) a(1) unfolding accounted_def by (metis option.simps(5))
  qed
qed


lemma accounted_messages:
  "accounted (wk_dns_table w) qs rs \<Longrightarrow> handle_dns_messages envs i ms w = (out, w') \<Longrightarrow> accounted (wk_dns_table w') qs (rs @ out)"
proof (induction ms arbitrary: w rs out)
  case (Cons m ms)
  obtain r w1 where m: "handle_dns_message (envs (length ms)) i m w = (r, w1)" by (cases "handle_dns_message (envs (length ms)) i m w") auto
  obtain out1 where rest: "handle_dns_messages envs i ms w1 = (out1, w')" and out: "out = (case r of None \<Rightarrow> [] | Some x \<Rightarrow> [x]) @ out1"
    using Cons.prems(2) m by (auto split: prod.splits option.splits)
  from Cons.IH [OF accounted_message [OF Cons.prems(1) m] rest] show ?case by (simp add: out)
qed simp

lemma accounted_upstream:
  assumes "accounted (wk_dns_table w) qs rs" "bpf2socks_udp_dns_handle_upstream env i w = Some (out, w')"
  shows "accounted (wk_dns_table w') qs (rs @ out)"
proof -
  have close: "accounted (wk_dns_table (bpf2socks_udp_dns_close_channel c n i v)) qs rs" if "wk_dns_table v = wk_dns_table w" for v c n
    using accounted_fewer [OF assms(1)] fewer_close [of v c n i] that by simp
  have msgs: "accounted (wk_dns_table w') qs (rs @ out)" if "handle_dns_messages envs i ms v = (out, w')" "wk_dns_table v = wk_dns_table w" for envs ms v
    using accounted_messages [OF _ that(1)] assms(1) that(2) by simp
  show ?thesis using assms
    by (auto simp: bpf2socks_udp_dns_handle_upstream_def Let_def close split: if_splits option.splits prod.splits sum.splits dest!: msgs)
qed

lemma accounted_query:
  assumes "accounted (wk_dns_table w) qs rs" "bpf2socks_udp_dns_prepare_query envs env2 now p info w = (Some sent, w')"
  shows "accounted (wk_dns_table w') (qs @ [(cp_client_addr p, cp_original_dst p, di_id info, di_question_fingerprint info)]) rs"
proof (rule prepare_cases [OF assms(2)])
  fix t c slot t1
  let ?q = "(cp_client_addr p, cp_original_dst p, di_id info, di_question_fingerprint info)"
  assume *: "fewer (wk_dns_table w) t"
    "bpf2socks_dns_table_alloc t c (di_id info) (di_question_fingerprint info) now = (Inr slot, t1)"
    "wk_dns_table w' = set_transaction slot (fill_transaction p) t1"
  note before = accounted_fewer [OF assms(1) *(1)]
  then obtain xs M where a: "0 < dt_capacity t" "dns_rep t xs"
    "outstanding t xs + image_mset fst M \<subseteq># mset qs" "image_mset snd M = mset rs" "\<forall>(q, r) \<in> set_mset M. answers q r"
    using accounted_capacity unfolding accounted_def by metis
  have "c < dt_channel_count t" using *(2) by (auto simp: bpf2socks_dns_table_alloc_def split: if_splits)
  then have r: "slot \<notin> set (keep_on_alloc t xs)" "dns_rep t1 (keep_on_alloc t xs @ [slot])" using alloc_rep [OF a(2,1) _ *(2)] by auto
  then have rep: "dns_rep (wk_dns_table w') (keep_on_alloc t xs @ [slot])" using *(3) by simp
  have "outstanding (wk_dns_table w') (keep_on_alloc t xs) = outstanding t (keep_on_alloc t xs)"
    using r(1) alloc_who(3) [OF *(2)] *(3) by (intro outstanding_cong) (auto simp: set_transaction_def)
  moreover have "mset (keep_on_alloc t xs) \<subseteq># mset xs" by (cases xs) (simp_all add: keep_on_alloc_def)
  moreover have "who (dt_transactions (wk_dns_table w') slot) = ?q"
    using alloc_who(1,2) [OF *(2)] *(3) by (simp add: who_def set_transaction_def fill_transaction_def)
  ultimately have "outstanding (wk_dns_table w') (keep_on_alloc t xs @ [slot]) \<subseteq># add_mset ?q (outstanding t xs)"
    using outstanding_mono [of "keep_on_alloc t xs" xs t] by simp
  then have "outstanding (wk_dns_table w') (keep_on_alloc t xs @ [slot]) + image_mset fst M \<subseteq># add_mset ?q (outstanding t xs) + image_mset fst M"
    by (rule subset_mset.add_right_mono)
  moreover have "add_mset ?q (outstanding t xs) + image_mset fst M \<subseteq># mset (qs @ [?q])" using a(3) by simp
  ultimately have "outstanding (wk_dns_table w') (keep_on_alloc t xs @ [slot]) + image_mset fst M \<subseteq># mset (qs @ [?q])"
    by (rule subset_mset.order_trans)
  moreover have "sizes (wk_dns_table w') = sizes t" using sizes_alloc [OF *(2)] *(3) by (simp add: sizes_def set_transaction_def)
  ultimately show ?thesis using rep a(4,5) before unfolding accounted_def by metis
qed simp

lemma accounted_run: "dns_run w qs rs \<Longrightarrow> accounted (wk_dns_table w) qs rs"
proof (induction rule: dns_run.induct)
  case (start env config sh w)
  then have "bpf2socks_dns_table_init (ie_dns env) (of_nat DNS_CHANNELS_PER_WORKER) DNS_MAX_TRANSACTIONS_PER_WORKER = Inr (wk_dns_table w)"
    by (auto simp: init_state_def split: if_splits sum.splits)
  from init_rep [OF this] reachable_rep [OF dns_reachable.init [OF this]]
  have "dns_rep (wk_dns_table w) []" "sizes (wk_dns_table w) = (DNS_MAX_TRANSACTIONS_PER_WORKER, of_nat DNS_CHANNELS_PER_WORKER)"
    by (simp_all add: DNS_MAX_TRANSACTIONS_PER_WORKER_def)
  then show ?case unfolding accounted_def by (auto intro!: exI [of _ "[]"] exI [of _ "{#}"])
next
  case (query w qs rs p info envs env2 now sent w')
  then show ?case by (blast intro: accounted_query)
next
  case (refused w qs rs envs env2 now p info w')
  have "0 < dt_capacity (wk_dns_table w)" using accounted_capacity [OF refused.IH] .
  then have "fewer (wk_dns_table w) (wk_dns_table w')" using prepare_cases [OF refused.hyps(2)] by blast
  with refused.IH show ?case by (rule accounted_fewer)
next
  case (response w qs rs uenv i new w')
  then show ?case by (blast intro: accounted_upstream)
qed (auto intro: accounted_fewer fewer_flush fewer_control fewer_expire_transactions fewer_expire_handshakes)

text \<open>
  C14. No DNS reply reaches the wrong client. In every run of a worker, whatever the relays send and
  however channels close, time out and come back, the replies that clients got can be matched with
  distinct queries: each goes to the client that sent the query, from the address it had asked, with
  its identifier, and with its question when the reply repeats one. So identifiers that are shared by
  the clients of a channel never mix two of them up, and no query is answered twice.
\<close>

theorem dns_replies_answer_own_queries:
  assumes "dns_run w qs rs"
  shows "\<exists>M. image_mset fst M \<subseteq># mset qs \<and> image_mset snd M = mset rs \<and> (\<forall>(q, r) \<in> set_mset M. answers q r)"
proof -
  from accounted_run [OF assms] obtain xs M where "outstanding (wk_dns_table w) xs + image_mset fst M \<subseteq># mset qs"
    "image_mset snd M = mset rs" "\<forall>(q, r) \<in> set_mset M. answers q r" unfolding accounted_def by blast
  then show ?thesis using subset_mset.order_trans [OF mset_subset_eq_add_right] by blast
qed


section \<open>A query and its response\<close>

lemma errors_send_with_binding:
  "send_dns_response_with_binding env raw c d bs w = (r, w') \<Longrightarrow>
   st_udp_send_errors (ud_counters (wk_udp w')) = st_udp_send_errors (ud_counters (wk_udp w))"
  by (auto simp: send_dns_response_with_binding_def count_reply_def on_udp_def upd_counters_def split: if_splits sum.splits)

lemma counters_close [simp]: "ud_counters (close_udp_fd fd s) = ud_counters s"
  by (simp add: close_udp_fd_def)

lemma counters_open [simp]: "ud_counters (open_udp_fd fd s) = ud_counters s"
  by (simp add: open_udp_fd_def)

lemma counters_raw_socket: "ensure_dns_raw_reply_socket env family w = (fd, w') \<Longrightarrow> ud_counters (wk_udp w') = ud_counters (wk_udp w)"
  by (auto simp: ensure_dns_raw_reply_socket_def on_udp_def split: if_splits sum.splits)

lemma counters_reply_socket: "bpf2socks_udp_reply_socket_create env d s = (r, s') \<Longrightarrow> ud_counters s' = ud_counters s"
  by (auto simp: bpf2socks_udp_reply_socket_create_def create_client_reply_socket_def Let_def split: if_splits sum.splits option.splits prod.splits)

lemma errors_send:
  assumes "send_dns_response_to_client env tx bs w = (r, w')"
  shows "st_udp_send_errors (ud_counters (wk_udp w')) = st_udp_send_errors (ud_counters (wk_udp w))"
  using assms
  by (auto simp: send_dns_response_to_client_def Let_def on_udp_def split: if_splits prod.splits sum.splits
      dest!: counters_raw_socket errors_send_with_binding counters_reply_socket)

text \<open>A response that fits an outstanding transaction is sent to its client.\<close>

lemma response_sent:
  assumes "handle_dns_message env i (Inr m) w = (r, w')" "bpf2socks_dns_parse_response (um_payload m) = Inr info"
    "bpf2socks_dns_table_find (wk_dns_table w) (dc_index (wk_dns_channels w i)) (di_id info) = Some slot"
    "tx = dt_transactions (wk_dns_table w) slot" "di_has_question info \<Longrightarrow> di_question_fingerprint info = tx_question_fingerprint tx"
  shows "wk_dns_table w' = bpf2socks_dns_table_release (bpf2socks_dns_table_note_response (wk_dns_table w) (dc_index (wk_dns_channels w i))) slot"
    "r = Some (tx_client_addr tx, tx_original_dst tx, bpf2socks_dns_set_id (um_payload m) (tx_original_id tx)) \<or>
     r = None \<and> st_udp_send_errors (ud_counters (wk_udp w')) = st_udp_send_errors (ud_counters (wk_udp w)) + 1"
proof -
  let ?c = "dc_index (wk_dns_channels w i)" and ?payload = "bpf2socks_dns_set_id (um_payload m) (tx_original_id tx)"
  have q: "\<not> (di_has_question info \<and> di_question_fingerprint info \<noteq> tx_question_fingerprint tx)" using assms(5) by blast
  define w1 where "w1 = on_udp (upd_counters (\<lambda>n. n\<lparr>st_dns_valid_responses := st_dns_valid_responses n + 1\<rparr>))
    (on_table (\<lambda>t. bpf2socks_dns_table_note_response t ?c)
      (on_udp (upd_counters (\<lambda>n. n\<lparr>st_udp_packets_from_upstream := st_udp_packets_from_upstream n + 1\<rparr>)) w))"
  obtain s w2 where send: "send_dns_response_to_client env tx ?payload w1 = (s, w2)"
    by (cases "send_dns_response_to_client env tx ?payload w1") auto
  have t2: "wk_dns_table w2 = bpf2socks_dns_table_note_response (wk_dns_table w) ?c" using table_send [OF send] by (simp add: w1_def)
  have e: "st_udp_send_errors (ud_counters (wk_udp w2)) = st_udp_send_errors (ud_counters (wk_udp w))"
    using errors_send [OF send] by (simp add: w1_def on_udp_def on_table_def upd_counters_def)
  have res: "(r, w') = (case s of
       Inl _ \<Rightarrow> (None, on_table (\<lambda>t. bpf2socks_dns_table_release t slot)
         (on_udp (upd_counters (\<lambda>n. n\<lparr>st_udp_send_errors := st_udp_send_errors n + 1\<rparr>)) w2))
     | Inr _ \<Rightarrow> (Some (tx_client_addr tx, tx_original_dst tx, ?payload), on_table (\<lambda>t. bpf2socks_dns_table_release t slot) w2))"
    using assms(1-4) q send unfolding handle_dns_message_def w1_def by (auto simp: Let_def)
  show "wk_dns_table w' = bpf2socks_dns_table_release (bpf2socks_dns_table_note_response (wk_dns_table w) ?c) slot"
    using res t2 by (auto split: sum.splits)
  show "r = Some (tx_client_addr tx, tx_original_dst tx, ?payload) \<or>
     r = None \<and> st_udp_send_errors (ud_counters (wk_udp w')) = st_udp_send_errors (ud_counters (wk_udp w)) + 1"
    using res e by (cases s) (auto simp: on_table_def on_udp_def upd_counters_def)
qed

lemma query_length: "bpf2socks_dns_parse_query q = Inr info \<Longrightarrow> 12 \<le> length q"
  by (auto simp: bpf2socks_dns_parse_query_def parse_dns_packet_def BPF2SOCKS_DNS_HEADER_SIZE_def Let_def split: if_splits)

text \<open>What is known of a query while its transaction is outstanding.\<close>

lemma query_outstanding:
  assumes "dns_run w qs rs" "bpf2socks_dns_parse_query (cp_payload p) = Inr info"
    and "bpf2socks_udp_dns_prepare_query envs env2 now p info w = (Some (slot, j, msg), w1)"
    and "dns_run w2 qs2 rs2" "dt_transactions (wk_dns_table w2) slot = dt_transactions (wk_dns_table w1) slot"
  defines "tx \<equiv> dt_transactions (wk_dns_table w2) slot" and "x \<equiv> read_be16 (um_payload msg) 0"
  shows "um_addr msg = cp_original_dst p \<and> um_payload msg = bpf2socks_dns_set_id (cp_payload p) x \<and>
    bpf2socks_dns_table_find (wk_dns_table w2) j x = Some slot \<and>
    who tx = (cp_client_addr p, cp_original_dst p, di_id info, di_question_fingerprint info)"
proof (rule prepare_cases [OF assms(3)])
  fix t c slot' t1
  assume *: "fewer (wk_dns_table w) t"
    "bpf2socks_dns_table_alloc t c (di_id info) (di_question_fingerprint info) now = (Inr slot', t1)"
    "wk_dns_table w1 = set_transaction slot' (fill_transaction p) t1"
    "Some (slot, j, msg) = Some (slot', tx_channel_index (dt_transactions t1 slot'),
         \<lparr>um_addr = cp_original_dst p, um_payload = bpf2socks_dns_set_id (cp_payload p) (tx_rewritten_id (dt_transactions t1 slot'))\<rparr>)"
  have s: "slot' = slot" using *(4) by simp
  from accounted_fewer [OF accounted_run [OF assms(1)] *(1)] obtain xs where rep: "dns_rep t xs"
    and cap: "0 < dt_capacity t" "sizes t = (DNS_MAX_TRANSACTIONS_PER_WORKER, of_nat DNS_CHANNELS_PER_WORKER)"
    using accounted_capacity unfolding accounted_def by metis
  have "c < dt_channel_count t" using *(2) by (auto simp: bpf2socks_dns_table_alloc_def split: if_splits)
  then have "dns_rep t1 (keep_on_alloc t xs @ [slot])" using alloc_rep [OF rep cap(1) _ *(2)] s by auto
  then have slot: "slot < dt_capacity t1" "tx_used (dt_transactions t1 slot)" by (auto simp: dns_rep_def used_ok_def)
  have tx: "tx_used tx" "tx_channel_index tx = j" "who tx = (cp_client_addr p, cp_original_dst p, di_id info, di_question_fingerprint info)"
    using slot alloc_who(1,2) [OF *(2)] *(3,4) assms(5) by (simp_all add: tx_def s who_def set_transaction_def fill_transaction_def)
  have x: "x = tx_rewritten_id tx"
    using *(3,4) assms(5) query_length [OF assms(2)] by (simp add: x_def tx_def s read_set_id set_transaction_def fill_transaction_def)
  obtain ys where ys: "dns_rep (wk_dns_table w2) ys" "sizes (wk_dns_table w2) = sizes t"
    using accounted_run [OF assms(4)] cap(2) unfolding accounted_def by auto
  have mem: "slot \<in> set ys" using slot(1) tx(1) ys sizes_alloc [OF *(2)] by (auto simp: dns_rep_def used_ok_def sizes_def tx_def)
  then have "bpf2socks_dns_table_find (wk_dns_table w2) j x = Some slot" using find_iff [OF ys(1)] tx(2) x by (simp add: tx_def)
  with tx(3) x *(3,4) assms(5) show ?thesis by (auto simp: tx_def s set_transaction_def fill_transaction_def)
qed simp


text \<open>A query is taken as soon as the channel whose turn it is has been opened.\<close>

lemma ensure_healthy:
  assumes "dc_available (wk_dns_channels w i)" "dc_tcp_fd (wk_dns_channels w i) \<ge> 0" "dc_udp_fd (wk_dns_channels w i) \<ge> 0"
    "bpf2socks_udp_control_fd_is_healthy (da_peek env)"
  shows "ensure_dns_channel env now i w =
    (True, on_udp (upd_counters (\<lambda>n. n\<lparr>st_udp_associate_reuses := st_udp_associate_reuses n + 1\<rparr>)) w)"
  using assms by (simp add: ensure_dns_channel_def)

lemma prepare_ready:
  assumes run: "dns_run w qs rs" and "wk_next_dns_channel w = 0" "dc_index (wk_dns_channels w 0) = 0"
    and ready: "dc_available (wk_dns_channels w 0)" "dc_tcp_fd (wk_dns_channels w 0) \<ge> 0" "dc_udp_fd (wk_dns_channels w 0) \<ge> 0"
    and healthy: "bpf2socks_udp_control_fd_is_healthy (da_peek (envs 0))" "bpf2socks_udp_control_fd_is_healthy (da_peek env2)"
  obtains slot msg w1 f where "bpf2socks_udp_dns_prepare_query envs env2 now p info w = (Some (slot, 0, msg), w1)"
    "wk_dns_channels w1 = wk_dns_channels w" "wk_udp w1 = upd_counters f (wk_udp w)"
    "tx_connected_udp_token (dt_transactions (wk_dns_table w1) slot) = cp_connected_udp_token p"
proof -
  define w0 where "w0 = (on_udp (upd_counters (\<lambda>n. n\<lparr>st_udp_associate_reuses := st_udp_associate_reuses n + 1\<rparr>)) w)\<lparr>wk_next_dns_channel := 1\<rparr>"
  have sel: "select_dns_channel envs now w = (Some 0, w0)"
    using assms(2) ensure_healthy [OF ready healthy(1), of now]
    by (simp add: select_dns_channel_def DNS_CHANNELS_PER_WORKER_def eval_nat_numeral w0_def)
  obtain xs where rep: "dns_rep (wk_dns_table w0) xs" and s: "sizes (wk_dns_table w0) = (8192, 2)"
    using accounted_run [OF run] by (auto simp: accounted_def w0_def DNS_MAX_TRANSACTIONS_PER_WORKER_def DNS_CHANNELS_PER_WORKER_def)
  have "dc_index (wk_dns_channels w0 0) < dt_channel_count (wk_dns_table w0)" using s assms(3) by (simp add: sizes_def w0_def on_udp_def)
  moreover have "0 < dt_capacity (wk_dns_table w0)" "dt_capacity (wk_dns_table w0) \<le> 65536" using s by (simp_all add: sizes_def)
  ultimately obtain slot t1 where al: "bpf2socks_dns_table_alloc (wk_dns_table w0) (dc_index (wk_dns_channels w0 0)) (di_id info) (di_question_fingerprint info) now = (Inr slot, t1)"
    and ch': "tx_channel_index (dt_transactions t1 slot) = dc_index (wk_dns_channels w0 0)"
    using alloc_succeeds [OF rep] by metis
  have ch: "tx_channel_index (dt_transactions t1 slot) = 0" using ch' assms(3) by (simp add: w0_def on_udp_def)
  let ?f = "\<lambda>n. if dt_free_count (wk_dns_table w0) > 0
      then n\<lparr>st_dns_free_stack_allocations := st_dns_free_stack_allocations n + 1\<rparr>
      else n\<lparr>st_dns_full_table_evictions := st_dns_full_table_evictions n + 1\<rparr>"
  define w2 where "w2 = on_udp (upd_counters ?f) (w0\<lparr>wk_dns_table := t1\<rparr>)"
  define w4 where "w4 = on_table (set_transaction slot (fill_transaction p))
    (on_udp (upd_counters (\<lambda>n. n\<lparr>st_udp_associate_reuses := st_udp_associate_reuses n + 1\<rparr>)) w2)"
  have c: "wk_dns_channels w2 = wk_dns_channels w" by (simp add: w2_def w0_def on_udp_def)
  have en: "ensure_dns_channel env2 now 0 w2 = (True, on_udp (upd_counters (\<lambda>n. n\<lparr>st_udp_associate_reuses := st_udp_associate_reuses n + 1\<rparr>)) w2)"
    using ensure_healthy [of w2 0 env2 now] ready healthy(2) by (simp add: c)
  have tab: "wk_dns_table w4 = set_transaction slot (fill_transaction p) (wk_dns_table w2)" by (simp add: w4_def)
  let ?tx = "dt_transactions (wk_dns_table w4) slot"
  have j: "tx_channel_index ?tx = 0" using ch by (simp add: w4_def w2_def set_transaction_def fill_transaction_def)
  have "bpf2socks_udp_dns_prepare_query envs env2 now p info w = (Some (slot, 0,
      \<lparr>um_addr = cp_original_dst p, um_payload = bpf2socks_dns_set_id (cp_payload p) (tx_rewritten_id ?tx)\<rparr>), w4)"
    using j tab by (simp add: bpf2socks_udp_dns_prepare_query_def sel al ch Let_def en w2_def [symmetric] w4_def [symmetric])
  moreover have "wk_dns_channels w4 = wk_dns_channels w" using c by (simp add: w4_def on_table_def on_udp_def)
  moreover have "wk_udp w4 = upd_counters (\<lambda>n. (\<lambda>n. n\<lparr>st_udp_associate_reuses := st_udp_associate_reuses n + 1\<rparr>)
      (?f (n\<lparr>st_udp_associate_reuses := st_udp_associate_reuses n + 1\<rparr>))) (wk_udp w)"
    by (simp add: w4_def w2_def w0_def on_table_def on_udp_def upd_counters_def)
  moreover have "tx_connected_udp_token ?tx = cp_connected_udp_token p" by (simp add: w4_def set_transaction_def fill_transaction_def)
  ultimately show thesis by (rule that)
qed

text \<open>A worker whose first channel is ready, a client, its query and the response of a relay.\<close>

definition sample_share :: worker_share where
  "sample_share = \<lparr>sh_id = 0, sh_session_cap = 2, sh_binding_cap = 2, sh_budget = bpf2socks_udp_budget_init 1000000,
     sh_registry = (\<lambda>_. False), sh_stats = no_counters, sh_open = {}, sh_epoll = (\<lambda>_. 0)\<rparr>"

definition sample_fresh_worker :: udp_worker where
  "sample_fresh_worker = the (init_state \<lparr>ie_tables = True, ie_index = True, ie_dns = True\<rparr> sample_udp_config sample_share)"

definition sample_dns_worker :: udp_worker where
  "sample_dns_worker = upd_dns 0 (\<lambda>c. c\<lparr>dc_tcp_fd := 10, dc_udp_fd := 11, dc_available := True, dc_stage := DNS_READY\<rparr>) sample_fresh_worker"

definition sample_dns_env :: dns_env where
  "sample_dns_env = \<lparr>da_clock = 100, da_connect = Inl EIO, da_so_error = None, da_sends = [], da_reads = [], da_more_reads = [],
     da_rest_reads = [], da_udp_socket = Inl EIO, da_relay_connect = True, da_ctl1 = None, da_ctl2 = None, da_peek = Inl EAGAIN\<rparr>"

definition sample_dns_packet :: udp_client_packet where
  "sample_dns_packet = zeroed_packet\<lparr>cp_client_addr := sample_client 5000, cp_token_family := 2, cp_connected_udp_token := True,
     cp_original_dst := \<lparr>sa_family = 2, sa_port = 53, sa_addr = [8, 8, 8, 8] @ zero_bytes 12\<rparr>, cp_payload := sample_query\<rparr>"

definition sample_dns_reply_env :: dns_reply_env where
  "sample_dns_reply_env = \<lparr>dr_raw_socket = Inl EIO, dr_raw_send = \<lparr>se_sendto = (\<lambda>_ _. Inl EIO), se_clock = 0, se_sendmmsg = Inr 1, se_now = 100, se_ctl = None\<rparr>,
     dr_reply_socket = \<lparr>re_socket = Inl EIO, re_transparent = None, re_bind = None, re_raw_socket = Inl EIO\<rparr>,
     dr_send = \<lparr>se_sendto = (\<lambda>_ _. Inl EIO), se_clock = 0, se_sendmmsg = Inr 1, se_now = 100, se_ctl = None\<rparr>\<rparr>"

text \<open>A response without a question, to the query that went out as \<open>x\<close>.\<close>

definition sample_answer :: "u16 \<Rightarrow> bpf2socks_udp_msg" where
  "sample_answer x = \<lparr>um_addr = cp_original_dst sample_dns_packet, um_payload = [hi8 x, lo8 x, 0x81, 0x80, 0, 0, 0, 0, 0, 0, 0, 0]\<rparr>"

lemma sample_fresh: "init_state \<lparr>ie_tables = True, ie_index = True, ie_dns = True\<rparr> sample_udp_config sample_share = Some sample_fresh_worker"
  by (simp add: sample_fresh_worker_def init_state_def sample_share_def bpf2socks_udp_budget_init_def bpf2socks_udp_downlink_max_allocation_def
      bpf2socks_dns_table_init_def DNS_CHANNELS_PER_WORKER_def DNS_MAX_TRANSACTIONS_PER_WORKER_def DOWNLINK_PACKET_SIZE_def BPF2SOCKS_UDP_BUFFER_SIZE_def)

lemma sample_run0: "dns_run sample_dns_worker [] []"
  by (rule dns_run.other [OF dns_run.start [OF sample_fresh]]) (simp add: sample_dns_worker_def)

lemma sample_worker_fields: "wk_next_dns_channel sample_dns_worker = 0" "dc_index (wk_dns_channels sample_dns_worker 0) = 0"
  "dc_available (wk_dns_channels sample_dns_worker 0)" "dc_tcp_fd (wk_dns_channels sample_dns_worker 0) = 10"
  "dc_udp_fd (wk_dns_channels sample_dns_worker 0) = 11" "wk_udp sample_dns_worker = initial_udp sample_udp_config sample_share"
proof -
  obtain tab where f: "sample_fresh_worker = \<lparr>wk_udp = initial_udp sample_udp_config sample_share, wk_dns_channels = initial_dns_channel,
      wk_dns_table = tab, wk_dns_raw4_fd = - 1, wk_dns_raw6_fd = - 1, wk_next_dns_channel = 0, wk_id = 0, wk_epoll_fd = - 1,
      wk_budget_wake_fd = - 1, wk_destroy_events_fd = - 1\<rparr>"
    using sample_fresh unfolding init_state_def by (simp split: if_splits sum.splits) metis
  show "wk_next_dns_channel sample_dns_worker = 0" "dc_index (wk_dns_channels sample_dns_worker 0) = 0"
    "dc_available (wk_dns_channels sample_dns_worker 0)" "dc_tcp_fd (wk_dns_channels sample_dns_worker 0) = 10"
    "dc_udp_fd (wk_dns_channels sample_dns_worker 0) = 11" "wk_udp sample_dns_worker = initial_udp sample_udp_config sample_share"
    by (simp_all add: sample_dns_worker_def upd_dns_def initial_dns_channel_def f)
qed

lemma sample_query_parses: "bpf2socks_dns_parse_query (cp_payload sample_dns_packet) = Inr (projr (bpf2socks_dns_parse_query sample_query))"
  by code_simp

lemma sample_answer_parses: "bpf2socks_dns_parse_response (um_payload (sample_answer x)) =
    Inr \<lparr>di_id = x, di_question_fingerprint = 0, di_has_question = False\<rparr>"
proof -
  have "(0x81 :: u8) AND 0x80 \<noteq> 0" "be16 0 0 = 0" by code_simp+
  then show ?thesis
    by (simp add: bpf2socks_dns_parse_response_def parse_dns_packet_def sample_answer_def BPF2SOCKS_DNS_HEADER_SIZE_def read_be16_def)
qed


lemma connected_reply_taken:
  assumes "handle_dns_message env i (Inr m) w = (r, w')" "bpf2socks_dns_parse_response (um_payload m) = Inr info" "\<not> di_has_question info"
    "bpf2socks_dns_table_find (wk_dns_table w) (dc_index (wk_dns_channels w i)) (di_id info) = Some slot"
    "tx_connected_udp_token (dt_transactions (wk_dns_table w) slot)" "classify_result (se_sendmmsg (dr_send env)) 1 = SEND_COMPLETE"
  shows "r \<noteq> None"
  using assms by (auto simp: handle_dns_message_def Let_def send_dns_response_to_client_def dns_transaction_needs_original_reply_socket_def
      send_dns_response_with_binding_def)

lemma sample_sends: "classify_result (se_sendmmsg (dr_send sample_dns_reply_env)) 1 = SEND_COMPLETE"
  by code_simp

definition sample_asked :: "nat \<Rightarrow> bpf2socks_udp_msg \<Rightarrow> udp_worker \<Rightarrow> bool" where
  "sample_asked slot msg w1 \<longleftrightarrow> bpf2socks_udp_dns_prepare_query (\<lambda>_. sample_dns_env) sample_dns_env 100 sample_dns_packet
     (projr (bpf2socks_dns_parse_query sample_query)) sample_dns_worker = (Some (slot, 0, msg), w1)"

lemma sample_asked:
  obtains slot msg w1 f where "sample_asked slot msg w1" "wk_dns_channels w1 = wk_dns_channels sample_dns_worker"
    "wk_udp w1 = upd_counters f (initial_udp sample_udp_config sample_share)" "tx_connected_udp_token (dt_transactions (wk_dns_table w1) slot)"
    "dns_run w1 [(cp_client_addr sample_dns_packet, cp_original_dst sample_dns_packet, 0x1234,
       di_question_fingerprint (projr (bpf2socks_dns_parse_query sample_query)))] []"
proof -
  have healthy: "bpf2socks_udp_control_fd_is_healthy (da_peek sample_dns_env)" by code_simp
  have fds: "dc_tcp_fd (wk_dns_channels sample_dns_worker 0) \<ge> 0" "dc_udp_fd (wk_dns_channels sample_dns_worker 0) \<ge> 0"
    by (simp_all add: sample_worker_fields)
  obtain slot msg w1 f where a: "bpf2socks_udp_dns_prepare_query (\<lambda>_. sample_dns_env) sample_dns_env 100 sample_dns_packet
      (projr (bpf2socks_dns_parse_query sample_query)) sample_dns_worker = (Some (slot, 0, msg), w1)"
    "wk_dns_channels w1 = wk_dns_channels sample_dns_worker" "wk_udp w1 = upd_counters f (wk_udp sample_dns_worker)"
    "tx_connected_udp_token (dt_transactions (wk_dns_table w1) slot) = cp_connected_udp_token sample_dns_packet"
    by (rule prepare_ready [OF sample_run0 sample_worker_fields(1-3) fds healthy healthy])
  have "di_id (projr (bpf2socks_dns_parse_query sample_query)) = 0x1234" "cp_connected_udp_token sample_dns_packet" by code_simp+
  then show thesis
    using that [of slot msg w1 f] a dns_run.query [OF sample_run0 sample_query_parses a(1)] sample_worker_fields(6) by (simp add: sample_asked_def)
qed

lemma sample_found:
  assumes "sample_asked slot msg w1" "dc_index (wk_dns_channels w1 0) = 0" "dns_run w1 qs rs" "tx_connected_udp_token (dt_transactions (wk_dns_table w1) slot)"
  shows "fst (handle_dns_message sample_dns_reply_env 0 (Inr (sample_answer (read_be16 (um_payload msg) 0))) w1) \<noteq> None"
proof -
  let ?x = "read_be16 (um_payload msg) 0"
  obtain r w3 where h: "handle_dns_message sample_dns_reply_env 0 (Inr (sample_answer ?x)) w1 = (r, w3)"
    by (cases "handle_dns_message sample_dns_reply_env 0 (Inr (sample_answer ?x)) w1") auto
  have "bpf2socks_dns_table_find (wk_dns_table w1) 0 ?x = Some slot"
    using query_outstanding [OF sample_run0 sample_query_parses assms(1) [unfolded sample_asked_def] assms(3) refl] by simp
  then show ?thesis using connected_reply_taken [OF h sample_answer_parses _ _ assms(4) sample_sends] assms(2) h by simp
qed



text \<open>The same response as a datagram of the relay.\<close>

definition sample_upstream :: "u16 \<Rightarrow> dns_upstream_env" where
  "sample_upstream x = \<lparr>du_recv = Inr [(False, [0, 0, 0, 1, 8, 8, 8, 8, 0, 53] @ um_payload (sample_answer x))], du_ctl = None, du_clock = 110,
     du_reply = (\<lambda>_. sample_dns_reply_env)\<rparr>"

lemma sample_received: "bpf2socks_socks5_udp_recvmmsg UPSTREAM_STRIDE [(False, [0, 0, 0, 1, 8, 8, 8, 8, 0, 53] @ um_payload (sample_answer x))] =
    Inr [Inr (sample_answer x)]"
proof -
  have "be16 0 53 = 53" "copy_prefix 4 [8, 8, 8, 8, 0, 53, hi8 x, lo8 x, 129, 128, 0, 0, 0, 0, 0, 0, 0, 0] (zero_bytes 16) = [8, 8, 8, 8] @ zero_bytes 12"
    by (code_simp, simp add: copy_prefix_def zero_bytes_def)
  then show ?thesis
    by (simp add: bpf2socks_socks5_udp_recvmmsg_def UPSTREAM_STRIDE_def BPF2SOCKS_UDP_BUFFER_SIZE_def HEADER_CAP_def parse_socks5_udp_datagram_def
        sample_answer_def sample_dns_packet_def Let_def)
qed

lemma sample_reserved: "\<exists>s. bpf2socks_udp_downlink_reserve_slots 8 (upd_counters f (initial_udp sample_udp_config sample_share)) = Some (Inr 8, s)"
  by (simp add: bpf2socks_udp_downlink_reserve_slots_def reserve_loop.simps [of 8] reserve_try_def Let_def upd_counters_def initial_udp_def
      bpf2socks_udp_budget_reserve_def reserve_fits_def sample_share_def bpf2socks_udp_budget_init_def bpf2socks_udp_downlink_max_allocation_def
      DOWNLINK_PACKET_SIZE_def BPF2SOCKS_UDP_BUFFER_SIZE_def)

theorem dns_replies_answer_own_queries_witness:
  "\<exists>w fp x. dns_run w [(sample_client 5000, cp_original_dst sample_dns_packet, 0x1234, fp)] [x] \<and>
     answers (sample_client 5000, cp_original_dst sample_dns_packet, 0x1234, fp) x"
proof -
  obtain slot msg w1 f where a: "sample_asked slot msg w1" "wk_dns_channels w1 = wk_dns_channels sample_dns_worker"
    "wk_udp w1 = upd_counters f (initial_udp sample_udp_config sample_share)" "tx_connected_udp_token (dt_transactions (wk_dns_table w1) slot)"
    and run: "dns_run w1 [(cp_client_addr sample_dns_packet, cp_original_dst sample_dns_packet, 0x1234,
       di_question_fingerprint (projr (bpf2socks_dns_parse_query sample_query)))] []" by (rule sample_asked)
  let ?x = "read_be16 (um_payload msg) 0" and ?fp = "di_question_fingerprint (projr (bpf2socks_dns_parse_query sample_query))"
  have client: "cp_client_addr sample_dns_packet = sample_client 5000" by code_simp
  obtain s where s: "bpf2socks_udp_downlink_reserve_slots 8 (wk_udp w1) = Some (Inr 8, s)" using sample_reserved a(3) by metis
  have b: "ud_batch_size (wk_udp w1) = 8" by (simp add: a(3) upd_counters_def initial_udp_def sample_udp_config_def UDP_MAX_BATCH_def)
  define w2 where "w2 = w1\<lparr>wk_udp := bpf2socks_udp_downlink_release_reservation s\<rparr>"
  have run2: "dns_run w2 [(sample_client 5000, cp_original_dst sample_dns_packet, 0x1234, ?fp)] []"
    using dns_run.other [OF run] client by (simp add: w2_def)
  obtain r w3 where h: "handle_dns_message sample_dns_reply_env 0 (Inr (sample_answer ?x)) w2 = (r, w3)"
    by (cases "handle_dns_message sample_dns_reply_env 0 (Inr (sample_answer ?x)) w2") auto
  have index: "dc_index (wk_dns_channels w2 0) = 0" using a(2) sample_worker_fields(2) by (simp add: w2_def)
  have "bpf2socks_dns_table_find (wk_dns_table w2) 0 ?x = Some slot"
    using query_outstanding [OF sample_run0 sample_query_parses a(1) [unfolded sample_asked_def] run2] by (simp add: w2_def)
  then obtain x where r: "r = Some x"
    using connected_reply_taken [OF h sample_answer_parses _ _ _ sample_sends] index a(4) by (auto simp: w2_def)
  have "bpf2socks_udp_dns_handle_upstream (sample_upstream ?x) 0 w1 = Some ([x], w3)"
    using h r sample_received [of ?x] a(2) sample_worker_fields
    by (simp add: bpf2socks_udp_dns_handle_upstream_def b s w2_def [symmetric] sample_upstream_def)
  from dns_run.response [OF run this] client
  have final: "dns_run w3 [(sample_client 5000, cp_original_dst sample_dns_packet, 0x1234, ?fp)] [x]" by simp
  from dns_replies_answer_own_queries [OF this] obtain M where M:
    "image_mset fst M \<subseteq># {#(sample_client 5000, cp_original_dst sample_dns_packet, 0x1234, ?fp)#}" "image_mset snd M = {#x#}"
    "\<forall>(q, r) \<in> set_mset M. answers q r" by auto
  from msed_map_invR [OF M(2)] obtain q where "M = {#(q, x)#}" by auto
  with M have "answers (sample_client 5000, cp_original_dst sample_dns_packet, 0x1234, ?fp) x" by auto
  with final show ?thesis by blast
qed

end
