(* ===== verification/Spec2Isabelle.thy ===== *)
theory Spec2Isabelle
  imports Dns_Table_Correct Socks5 Udp_Budget Downlink_Queue Binding_Index Deadline Resource_Limits Config
    Original_Dst Tc_Redirect_Correct Tcp_Worker_Correct Dns_Packet Udp_Wire Udp_Release_Correct
    Udp_Token_Correct Udp_Dns_Correct
begin

text \<open>
  A verification development of bpf2socks, a transparent proxy for Android: kernel programs
  redirect connections and datagrams to a local bridge by replacing the destination with a
  \<^emph>\<open>token\<close> address and recording the original one in BPF maps; the bridge looks the original
  destination up and relays the traffic through a SOCKS5 server.

  \<^bold>\<open>Parts of the program and the theories that model them\<close> (files under \<^verbatim>\<open>src/\<close>).
  \<^item> Conventions, machine integers, error numbers, the shared structs of \<^verbatim>\<open>bpf2socks.h\<close>, big-endian
    access: \<open>B2S_Prelude\<close>. The C string functions the sources use: \<open>C_Strings\<close>.
  \<^item> Token pools, \<^verbatim>\<open>core/token_prefix.c\<close>: \<open>Token_Prefix\<close>. Both membership tests are instances of one
    contract (locale \<open>prefix_test\<close>), agreement on the leading bits.
  \<^item> Traffic-control programs, \<^verbatim>\<open>kern/tc_redirect.bpf.c\<close>, \<^verbatim>\<open>kern/tc_token.h\<close>, \<^verbatim>\<open>kern/tc_checksum_flags.h\<close>:
    \<open>Tc_Redirect\<close> (one definition per C function; the BPF maps are the fields of \<open>tc_state\<close>, a packet is
    its bytes) and \<open>Tc_Redirect_Correct\<close>.
  \<^item> Token lookup and original destination, \<^verbatim>\<open>core/token.c\<close>, \<^verbatim>\<open>core/original_dst.c\<close> and the lookups of
    \<^verbatim>\<open>bridge/tcp.c\<close>: \<open>Original_Dst\<close>.
  \<^item> TCP relay, \<^verbatim>\<open>bridge/tcp.c\<close>: \<open>Tcp_Stream\<close> (one connection: pipes, pool, handshake, relay, events)
    and \<open>Tcp_Stream_Correct\<close>; \<open>Tcp_Worker\<close> (a worker thread: its lists of connections, accepting, the
    loop, the expiry scan, its end) and \<open>Tcp_Worker_Correct\<close>; the session budget is in \<open>Udp_Budget\<close>, the
    deadlines in \<open>Deadline\<close>.
  \<^item> SOCKS5 codec, \<^verbatim>\<open>bridge/socks5.c\<close>: \<open>Socks5\<close>.
  \<^item> DNS transaction table, \<^verbatim>\<open>bridge/dns.c\<close>: \<open>Dns_Table\<close> and \<open>Dns_Table_Correct\<close>, over \<open>Intrusive_List\<close>
    (doubly linked lists and chains in a heap of links). DNS packets, same file: \<open>Dns_Packet\<close>.
  \<^item> UDP relay. The state of a worker (\<^verbatim>\<open>bridge/udp_internal.h\<close>) and the surgery on its parts: \<open>Udp_State\<close>;
    the tables of sessions and reply bindings, \<^verbatim>\<open>bridge/udp_session.c\<close>: \<open>Udp_Session\<close>; their lists as
    instances of one contract (locale \<open>age_list\<close>): \<open>Udp_Lists\<close>; their consistency: \<open>Udp_Session_Correct\<close>;
    the release of sessions whose client is gone, \<^verbatim>\<open>bridge/udp_release.c\<close>: \<open>Udp_Release\<close> and
    \<open>Udp_Release_Correct\<close>; the SOCKS5 handshake of a session and the datagrams to the relay,
    \<^verbatim>\<open>bridge/udp_associate.c\<close>: \<open>Udp_Associate\<close>, and that it keeps the tables consistent:
    \<open>Udp_Associate_Correct\<close>; replies to the clients, \<^verbatim>\<open>bridge/udp_downlink.c\<close>: \<open>Udp_Downlink\<close>, with the
    checksums and raw packets in \<open>Udp_Wire\<close>; the token of a datagram, its cache and the ICMP notices,
    \<^verbatim>\<open>bridge/udp_token.c\<close>: \<open>Udp_Token\<close> and \<open>Udp_Token_Correct\<close>.
  \<^item> DNS fast path, \<^verbatim>\<open>bridge/udp_dns.c\<close>: \<open>Udp_Dns\<close> (channels, queries, responses) and \<open>Udp_Dns_Correct\<close>.
  \<^item> The thread of a UDP worker, \<^verbatim>\<open>bridge/udp.c\<close>: \<open>Udp_Worker\<close> (client datagrams and batches), \<open>Udp_Loop\<close>
    (initialisation, deadlines, maintenance, dispatch, the loop, its end) and \<open>Udp_Loop_Correct\<close>.
  \<^item> UDP support: pending-byte budget, \<^verbatim>\<open>bridge/udp_budget.c\<close>: \<open>Udp_Budget\<close>; downlink queue,
    \<^verbatim>\<open>bridge/udp_downlink_queue.c\<close>: \<open>Downlink_Queue\<close>; reply binding index, \<^verbatim>\<open>bridge/udp_binding_index.c\<close>:
    \<open>Binding_Index\<close>; timers, \<^verbatim>\<open>bridge/deadline.c\<close>: \<open>Deadline\<close>.
  \<^item> Configuration, \<^verbatim>\<open>core/config.c\<close>: \<open>Config\<close>; JSON, \<^verbatim>\<open>core/json.c\<close>: \<open>Json\<close>; policy maps and interface
    selectors, \<^verbatim>\<open>bpf/policy.c\<close>, \<^verbatim>\<open>bpf/interface_selector.c\<close>: \<open>Policy\<close>; resource limits,
    \<^verbatim>\<open>core/resource_limits.c\<close>: \<open>Resource_Limits\<close>.

  \<^bold>\<open>How they interact.\<close> A client's packet meets the ingress program, which chooses a token and
  publishes it in the bridge's token map; the bridge accepts the connection, forms the same key
  from its socket addresses, takes the entry and dials the SOCKS5 server with the original
  destination; the replies of the bridge meet the egress program, which restores the original
  address. This theory composes the first half: from the packet to the bytes of the SOCKS5 request.

  \<^bold>\<open>What is shown.\<close> Tokens lie in the pool that kernel and bridge agree on; allocation is all or
  nothing under eviction; the flow tables stay consistent over every sequence of packets; replies
  come back from the address the client asked for; fragments share the fate of the first; token
  entries are consumed once; a relayed connection loses, duplicates and reorders no byte, and
  never stalls; the SOCKS5 encodings round-trip and are robust to segmentation and bad datagrams;
  the DNS table refines a bounded queue with exact lookup; over every run of a worker the replies
  to DNS queries reach only their askers, each at most once, and a response to a query reaches it;
  budgets are exact under every interleaving of their compare-and-swap loops and lose no wake-up;
  no worker sleeps past a timer; cached token destinations are at most a second old and ICMP
  notices are rate limited; sessions of closed client sockets are released and no others;
  a client's datagrams find its own session, and sessions are evicted and expire in the order the
  policy says while every table keeps describing the same sessions; forged replies carry valid
  checksums; the DNS reader accepts exactly the well-formed questions;
  a configuration that loads is within its documented bounds; policy maps cover exactly what was
  configured.

  \<^bold>\<open>Bounds and fuel.\<close> Loops over memory are total functions with a measure, or
  \<open>partial_function (option)\<close> with a proof that they return. A loop around a system call that may be
  interrupted for ever takes the list of results of its calls and answers \<open>None\<close> when the list is
  too short, so nothing is claimed of a call that never completes. No other fuel is used.

  \<^bold>\<open>What stands for code outside the sources.\<close> The kernel's map and packet helpers, \<open>inet_pton\<close>,
  \<open>getaddrinfo\<close>, the rlimit and socket calls are parameters; where a property needs their documented
  behaviour it is a named hypothesis (\<open>evicting_maps\<close>, \<open>exact_maps\<close>, \<open>packet_helpers\<close>,
  \<open>token_map_laws\<close>, \<open>lpm_trie\<close>, \<open>fresh_pipes\<close>), instantiated by a concrete function in its witness.

  \<^bold>\<open>Not modelled.\<close> \<^verbatim>\<open>bpf/cgroup_prog.c\<close> (generation of BPF instructions for the cgroup hooks),
  \<^verbatim>\<open>bpf/runtime.c\<close>, \<^verbatim>\<open>bpf/syscall.c\<close>, \<^verbatim>\<open>bpf/object.c\<close>, \<^verbatim>\<open>bpf/reuseport.c\<close> and the netlink code (loading and
  attaching through system calls), \<^verbatim>\<open>bpf/interface_policy.c\<close> and \<^verbatim>\<open>bpf/network_selection.c\<close>, the start-up
  of the process, the creation of its threads, logging and the printing of statistics.
\<close>

section \<open>From the client's packet to the SOCKS5 request\<close>

text \<open>The two ends of the connection that the bridge accepts for a redirected IPv4 packet.\<close>

definition accepted_local :: "bytes \<Rightarrow> sockaddr_storage" where
  "accepted_local p = \<lparr>ss_family = AF_INET, ss_port = rd16 p (14 + ip4_ihl p * 4 + 2), ss_addr = rd_bytes p 30 4\<rparr>"

definition accepted_peer :: "bytes \<Rightarrow> sockaddr_storage" where
  "accepted_peer p = \<lparr>ss_family = AF_INET, ss_port = rd16 p (14 + ip4_ihl p * 4), ss_addr = rd_bytes p 26 4\<rparr>"

lemma accepted_key:
  assumes "has_ports4 p" "length (tv_token_addr token) = 16" "tv_token_port token = ct_bridge_port control"
    "rd_bytes p' 30 4 = take 4 (tv_token_addr token)" "rd_bytes p' (14 + ip4_ihl p * 4 + 2) 2 = port_bytes (ct_bridge_port control)"
    "rd_bytes p' 26 4 = rd_bytes p 26 4" "rd_bytes p' (14 + ip4_ihl p * 4) 2 = rd_bytes p (14 + ip4_ihl p * 4) 2"
    "ip4_ihl p' = ip4_ihl p" "length p' = length p" "p ! 23 = PROTO_TCP"
  shows "fill_tcp_token_key (Some (accepted_local p')) (accepted_peer p') = Some (fill_bridge_key (flow_key4 ifindex p) token)"
proof -
  let ?l = "14 + ip4_ihl p * 4"
  have l: "34 \<le> ?l" "?l + 4 \<le> length p" using assms(1) by (auto simp: has_ports4_def)
  have "rd16 p' (?l + 2) = ct_bridge_port control"
    using rd16_port_bytes [of "?l + 2" p' "ct_bridge_port control"] l assms(5,9) by simp
  moreover have "rd16 p' ?l = rd16 p ?l"
    using rd16_port_bytes [of ?l p' "rd16 p ?l"] port_bytes_rd16 [of ?l p] l assms(7,9) by simp
  moreover have "take 4 (copy_prefix 4 (rd_bytes p 26 4) (zero_bytes 16)) = rd_bytes p 26 4" "take 4 (rd_bytes p 26 4) = rd_bytes p 26 4"
    using l by (simp_all add: length_rd_bytes)
  ultimately show ?thesis using assms
    by (simp add: fill_tcp_token_key_def accepted_local_def accepted_peer_def fill_bridge_key_def flow_key4_def Let_def
        addr_size_def copy_prefix_def)
qed

lemma connect_request4:
  assumes "length a = 4" "10 \<le> cap"
  shows "bpf2socks_original_dst_to_sockaddr \<lparr>od_family = 2, od_protocol = proto, od_port = port, od_addr = a @ zero_bytes 12, od_flags = 0\<rparr> =
      Inr \<lparr>sa_family = 2, sa_port = port, sa_addr = a @ zero_bytes 12\<rparr>"
    "bpf2socks_socks5_build_connect_request cap \<lparr>sa_family = 2, sa_port = port, sa_addr = a @ zero_bytes 12\<rparr> =
      Inr ([5, 1, 0, 1] @ a @ port_bytes port)"
  using assms by (simp_all add: bpf2socks_original_dst_to_sockaddr_def copy_prefix_def zero_bytes_def Let_def
      bpf2socks_socks5_build_connect_request_def bpf2socks_socks5_write_addr_def port_bytes_def)


text \<open>A SYN from 192.168.43.5:12345 to 1.1.1.1:80, and a token map that is a HOL map.\<close>

definition sample_syn :: bytes where
  "sample_syn = zero_bytes 12 @ [8, 0] @ [0x45, 0, 0, 40, 0, 1, 0, 0, 64, 6, 0, 0, 192, 168, 43, 5, 1, 1, 1, 1] @
     [0x30, 0x39, 0, 80, 0, 0, 0, 0, 0, 0, 0, 0, 0x50, 0x02, 0xff, 0xff, 0, 0, 0, 0]"

definition plain_token_ops :: "(bpf2socks_token_key \<rightharpoonup> bpf2socks_original_dst) token_ops" where
  "plain_token_ops = \<lparr>to_lookup = (\<lambda>m k. m k),
     to_lookup_and_delete = (\<lambda>m k. case m k of None \<Rightarrow> (Inl ENOENT, m) | Some v \<Rightarrow> (Inr v, m(k := None))),
     to_delete = (\<lambda>m k. (True, m(k := None)))\<rparr>"

lemma plain_token_ops_laws: "token_map_laws plain_token_ops (\<lambda>m. m)"
  by (auto simp: token_map_laws_def plain_token_ops_def split: option.splits)


end
